(* ===== verification/Prelude.thy ===== *)
theory Prelude
  imports Main "HOL-Library.Word"
begin

text \<open>
  Shared vocabulary of the development: the machine types of the ILP32 little-endian
  target the wire code of the hub is written for, the view a handler has of its operating
  system (clock, allocator, uninitialised stack), C conversions, C string comparison,
  and the list lemmas the components share.
\<close>

unbundle bit_operations_syntax

named_theorems frame_simps \<open>what an operation leaves unchanged\<close>
named_theorems wf_intros \<open>operations keep their component's invariant\<close>

section \<open>Machine types\<close>

type_synonym byte = "8 word"
type_synonym u16 = "16 word"
type_synonym u32 = "32 word"
type_synonym bytes = "byte list"

text \<open>\<open>oret_t\<close> of include/optikus/types.h is a C int; OK is 0 and ERROR is -1.\<close>

type_synonym oret = int

abbreviation (input) OK :: oret where "OK \<equiv> 0"
abbreviation (input) ERROR :: oret where "ERROR \<equiv> - 1"

text \<open>
  What one run of a handler sees of its operating system. The clock \<open>osMsClock\<close> is read
  in milliseconds; all its reads inside one handler give the same value. The allocator
  \<open>oxnew\<close> succeeds or fails by the number of bytes asked for. The junk bytes are what a
  read past the end of a buffer finds, and the content of an uninitialised one, by offset.
  The last field is the outcome of an attempt to connect a new stream socket.
\<close>

datatype connres = SockFail | ConnFail | Connected int

record env =
  env_now :: int
  env_alloc :: "nat \<Rightarrow> bool"
  env_junk :: "nat \<Rightarrow> byte"
  env_connect :: connres

definition env0 :: env where
  "env0 = \<lparr>env_now = 1000, env_alloc = (\<lambda>_. True), env_junk = (\<lambda>_. 0), env_connect = Connected 7\<rparr>"

section \<open>C conversions\<close>

definition to_schar :: "int \<Rightarrow> int" where
  "to_schar x = (x + 128) mod 256 - 128"

definition to_int32 :: "int \<Rightarrow> int" where
  "to_int32 x = (x + 2147483648) mod 4294967296 - 2147483648"

definition to_short :: "int \<Rightarrow> int" where
  "to_short x = (x + 32768) mod 65536 - 32768"

definition int32_range :: "int \<Rightarrow> bool" where
  "int32_range x \<longleftrightarrow> - 2147483648 \<le> x \<and> x < 2147483648"

lemma to_int32_id: "int32_range x \<Longrightarrow> to_int32 x = x"
  by (simp add: to_int32_def int32_range_def)

lemma to_int32_range: "int32_range (to_int32 x)"
proof -
  have "0 \<le> (x + 2147483648) mod 4294967296" "(x + 2147483648) mod 4294967296 < 4294967296"
    by simp_all
  then show ?thesis unfolding to_int32_def int32_range_def by linarith
qed

lemma sint_u32_range: "int32_range (sint (w :: u32))"
  using sint_greater_eq [of w] sint_lt [of w] by (simp add: int32_range_def)

lemma sint_u32_inj: "sint (a :: u32) = sint b \<Longrightarrow> a = b"
  by (simp add: signed_word_eqI)

text \<open>Two C ints with equal difference as \<open>unsigned\<close> are equal.\<close>

lemma diff_mod32_zero:
  assumes "int32_range a" and "int32_range b"
  shows "(a - b) mod 4294967296 = 0 \<longleftrightarrow> a = b"
proof
  assume *: "(a - b) mod 4294967296 = 0"
  then obtain q where q: "a - b = 4294967296 * q" by (metis mod_0_imp_dvd dvdE)
  with assms have "\<bar>4294967296 * q\<bar> < 4294967296"
    unfolding int32_range_def by linarith
  then have "q = 0" by linarith
  with q show "a = b" by simp
qed simp

section \<open>C strings\<close>

text \<open>
  A C string is its bytes before the NUL. \<open>strcmp\<close> and \<open>strncmp\<close> return the difference of
  the first two bytes that differ (as unsigned char), the classic implementation of the C
  library; the standard only fixes its sign.
\<close>

fun c_strcmp :: "bytes \<Rightarrow> bytes \<Rightarrow> int" where
  "c_strcmp [] [] = 0"
| "c_strcmp (x # xs) [] = uint x"
| "c_strcmp [] (y # ys) = - uint y"
| "c_strcmp (x # xs) (y # ys) = (if x = y then c_strcmp xs ys else uint x - uint y)"

definition c_strncmp :: "bytes \<Rightarrow> bytes \<Rightarrow> nat \<Rightarrow> int" where
  "c_strncmp a b n = c_strcmp (take n a) (take n b)"

text \<open>The string stored at an offset of a buffer.\<close>

definition cstr_at :: "bytes \<Rightarrow> nat \<Rightarrow> bytes" where
  "cstr_at buf off = takeWhile (\<lambda>c. c \<noteq> 0) (drop off buf)"

lemma uint_byte_range: "0 \<le> uint (x :: byte) \<and> uint x < 256"
  using uint_bounded [of x] by simp

lemma c_strcmp_bound: "- 256 < c_strcmp a b \<and> c_strcmp a b < 256"
proof (induction a b rule: c_strcmp.induct)
  case (2 x xs)
  show ?case using uint_byte_range [of x] unfolding c_strcmp.simps by linarith
next
  case (3 y ys)
  show ?case using uint_byte_range [of y] unfolding c_strcmp.simps by linarith
next
  case (4 x xs y ys)
  show ?case
  proof (cases "x = y")
    case True
    with 4 show ?thesis by simp
  next
    case False
    then have "c_strcmp (x # xs) (y # ys) = uint x - uint y" by simp
    then show ?thesis using uint_byte_range [of x] uint_byte_range [of y] by linarith
  qed
qed simp

lemma c_strcmp_zero:
  "0 \<notin> set a \<Longrightarrow> 0 \<notin> set b \<Longrightarrow> c_strcmp a b = 0 \<longleftrightarrow> a = b"
proof (induction a b rule: c_strcmp.induct)
  case (2 x xs)
  then show ?case by (auto simp: uint_0_iff)
next
  case (3 y ys)
  then show ?case by (auto simp: uint_0_iff)
next
  case (4 x xs y ys)
  then show ?case by (auto dest: word_uint_eqI)
qed simp

lemma c_strcmp_refl [simp]: "c_strcmp a a = 0"
  by (induction a) auto

lemma c_strcmp_mod_zero: "c_strcmp a b mod 4294967296 = 0 \<longleftrightarrow> c_strcmp a b = 0"
  using c_strcmp_bound [of a b] diff_mod32_zero [of "c_strcmp a b" 0]
  by (auto simp: int32_range_def)

lemma cstr_at_no_nul: "0 \<notin> set (cstr_at buf off)"
  by (auto simp: cstr_at_def dest: set_takeWhileD)

section \<open>List lemmas\<close>

text \<open>\<open>store xs off ys\<close> is \<open>memcpy(xs + off, ys)\<close> inside the bounds of \<open>xs\<close>.\<close>

definition store :: "'a list \<Rightarrow> nat \<Rightarrow> 'a list \<Rightarrow> 'a list" where
  "store xs off ys = take off xs @ ys @ drop (off + length ys) xs"

lemma length_store [simp]:
  "off + length ys \<le> length xs \<Longrightarrow> length (store xs off ys) = length xs"
  by (simp add: store_def)

lemma take_store_before: "i \<le> off \<Longrightarrow> off \<le> length xs \<Longrightarrow> take i (store xs off ys) = take i xs"
  by (simp add: store_def min_def)

lemma drop_store_at: "off \<le> length xs \<Longrightarrow> drop off (store xs off ys) = ys @ drop (off + length ys) xs"
  by (simp add: store_def)

lemma cstr_at_store_at:
  assumes "off \<le> length xs" and "0 \<notin> set s"
  shows "cstr_at (store xs off (s @ [0])) off = s"
proof -
  have "\<forall>c \<in> set s. c \<noteq> 0" using assms(2) by auto
  then show ?thesis using assms(1) by (simp add: cstr_at_def drop_store_at takeWhile_append2)
qed

lemma cstr_at_store_before:
  assumes trm: "length (cstr_at xs k) + k < off" and off: "off \<le> length xs"
  shows "cstr_at (store xs off ys) k = cstr_at xs k"
proof -
  let ?P = "\<lambda>c. c \<noteq> (0 :: byte)"
  have dx: "drop k xs = take (off - k) (drop k xs) @ drop off xs"
  proof -
    have "drop (off - k) (drop k xs) = drop off xs" using trm by simp
    then show ?thesis by (metis append_take_drop_id)
  qed
  have ex: "\<exists>x \<in> set (take (off - k) (drop k xs)). \<not> ?P x"
  proof (rule ccontr)
    assume "\<not> ?thesis"
    then have "\<forall>c \<in> set (take (off - k) (drop k xs)). ?P c" by blast
    then have "takeWhile ?P (drop k xs)
        = take (off - k) (drop k xs) @ takeWhile ?P (drop off xs)"
      by (subst dx) (simp add: takeWhile_append2)
    then have "off - k \<le> length (cstr_at xs k)"
      using off by (simp add: cstr_at_def)
    with trm show False by linarith
  qed
  have ds: "drop k (store xs off ys) = take (off - k) (drop k xs) @ ys @ drop (off + length ys) xs"
    using trm off by (simp add: store_def drop_take)
  from ex obtain x where x: "x \<in> set (take (off - k) (drop k xs))" "\<not> ?P x" by blast
  show ?thesis
    unfolding cstr_at_def ds by (subst (2) dx) (simp add: takeWhile_append1 [where P = ?P, OF x])
qed

lemma cstr_at_terminated:
  assumes "length (cstr_at xs k) + k < off" "off \<le> length xs"
  shows "length (cstr_at (store xs off ys) k) + k < off"
  using assms by (simp add: cstr_at_store_before)

text \<open>
  Reading a buffer: byte \<open>i\<close>, and \<open>n\<close> bytes from an offset (\<open>memcpy\<close> out of it). A read past
  the end gives the junk bytes of the environment.
\<close>

definition rd :: "env \<Rightarrow> bytes \<Rightarrow> nat \<Rightarrow> byte" where
  "rd E buf i = (if i < length buf then buf ! i else env_junk E i)"

definition rd_bytes :: "env \<Rightarrow> bytes \<Rightarrow> nat \<Rightarrow> nat \<Rightarrow> bytes" where
  "rd_bytes E buf off n = map (rd E buf) [off..<off + n]"

lemma length_rd_bytes [simp]: "length (rd_bytes E buf off n) = n"
  by (simp add: rd_bytes_def)

lemma rd_bytes_in:
  assumes "off + n \<le> length buf"
  shows "rd_bytes E buf off n = take n (drop off buf)"
  using assms by (intro nth_equalityI) (auto simp: rd_bytes_def rd_def)

lemma rd_bytes_all [simp]: "rd_bytes E buf 0 (length buf) = buf"
  by (simp add: rd_bytes_in)

lemma rd_bytes_zero [simp]: "rd_bytes E buf off 0 = []"
  by (simp add: rd_bytes_def)

lemma rd_in [simp]: "i < length buf \<Longrightarrow> rd E buf i = buf ! i"
  by (simp add: rd_def)

text \<open>The C string at an offset of a buffer that is known to end with the buffer.\<close>

definition rd_cstr :: "bytes \<Rightarrow> nat \<Rightarrow> bytes" where
  "rd_cstr buf off = cstr_at buf off"

lemma nth_list_update_split: "i < length xs \<Longrightarrow> xs[i := x] ! j = (if j = i then x else xs ! j)"
  by simp

end
