(* ===== verification/Tree.thy ===== *)
theory Tree
  imports Prelude
begin

text \<open>
  util/util-tree.c: the hash tree of strings or numbers. A tree body is an array of nodes
  (entry 0 is never used), 256 roots and, for strings, one buffer that holds every key. Both
  the search and the insertion walk down from a root; a node links to at most four others
  by the low two bits of the comparison result. The walk is written once (\<open>tree_walk\<close>) and
  instantiated with the numeric and with the string comparison. It runs on fuel, and
  \<open>tree_walk_total\<close> shows that the number of nodes is fuel enough in every well-formed tree,
  which is every tree the operations build.
\<close>

abbreviation (input) NLINKS :: nat where "NLINKS \<equiv> 4"
abbreviation (input) NCHARS :: nat where "NCHARS \<equiv> 256"
abbreviation (input) ARRAY_GROWTH :: nat where "ARRAY_GROWTH \<equiv> 100"
abbreviation (input) BUFFER_GROWTH :: nat where "BUFFER_GROWTH \<equiv> 1024"
abbreviation (input) NUMERIC_TREE :: int where "NUMERIC_TREE \<equiv> - 1"
abbreviation (input) sizeof_TreeNode :: nat where "sizeof_TreeNode \<equiv> 20"

section \<open>The data\<close>

record TreeNode_t =
  tn_val :: int
  tn_key :: int
  tn_len :: nat
  tn_link :: "nat list"

text \<open>
  \<open>s_lim\<close> and \<open>e_lim\<close> are the lengths of the two lists; the fields \<open>t_send\<close> and \<open>t_eend\<close>
  are \<open>s_end\<close> and \<open>e_end\<close>.
\<close>

record TreeBody_t =
  t_fence :: int
  t_sbuf :: bytes
  t_send :: nat
  t_earr :: "TreeNode_t list"
  t_eend :: nat
  t_root :: "nat list"
  t_bad :: bool
  t_maxlev :: nat

text \<open>A zeroed node, as \<open>calloc\<close> leaves it.\<close>

definition zero_node :: TreeNode_t where
  "zero_node = \<lparr>tn_val = 0, tn_key = 0, tn_len = 0, tn_link = [0, 0, 0, 0]\<rparr>"

text \<open>
  \<open>tree_t\<close> is a pointer: \<open>None\<close> is NULL. A tree that \<open>oxnew\<close> could not allocate would be
  dereferenced at once (\<open>treeAlloc\<close> has no check); the model takes that allocation as
  successful.
\<close>

type_synonym tree_t = "TreeBody_t option"

definition treeAlloc :: "int \<Rightarrow> tree_t" where
  "treeAlloc fence =
     (if (fence < 0 \<or> fence \<ge> int NCHARS) \<and> fence \<noteq> NUMERIC_TREE then None
      else Some \<lparr>t_fence = to_schar fence, t_sbuf = [], t_send = 0, t_earr = [],
                 t_eend = 1, t_root = replicate NCHARS 0, t_bad = False, t_maxlev = 0\<rparr>)"

definition treeFree :: "tree_t \<Rightarrow> oret \<times> tree_t" where
  "treeFree tp = (case tp of None \<Rightarrow> (ERROR, None) | Some _ \<Rightarrow> (OK, None))"

definition treeGetDepth :: "tree_t \<Rightarrow> nat" where
  "treeGetDepth tp = (case tp of None \<Rightarrow> 0 | Some t \<Rightarrow> t_maxlev t)"

abbreviation is_numeric :: "TreeBody_t \<Rightarrow> bool" where
  "is_numeric t \<equiv> t_fence t = to_schar NUMERIC_TREE"

section \<open>Walking down\<close>

text \<open>
  The two comparisons, as the \<open>unsigned\<close> the code keeps in \<open>k\<close>: 0 is a match, the low two
  bits choose the link.
\<close>

definition num_cmp :: "int \<Rightarrow> TreeNode_t \<Rightarrow> int" where
  "num_cmp key e = (key - tn_key e) mod 4294967296"

definition str_cmp :: "bytes \<Rightarrow> bytes \<Rightarrow> TreeNode_t \<Rightarrow> int" where
  "str_cmp b str e =
     (if tn_len e \<noteq> 0 then c_strncmp str (cstr_at b (nat (tn_key e))) (tn_len e)
      else c_strcmp str (cstr_at b (nat (tn_key e)))) mod 4294967296"

text \<open>
  \<open>tree_walk cmp e fuel pno no lev\<close> is the loop of the search and of the insertion: it
  returns the last node left behind, the node that matched (0 if none) and the level.
\<close>

fun tree_walk :: "(TreeNode_t \<Rightarrow> int) \<Rightarrow> TreeNode_t list \<Rightarrow> nat \<Rightarrow> nat \<Rightarrow> nat \<Rightarrow> nat
    \<Rightarrow> (nat \<times> nat \<times> nat) option" where
  "tree_walk cmp e 0 pno no lev = None"
| "tree_walk cmp e (Suc fuel) pno no lev =
     (if no = 0 then Some (pno, 0, lev)
      else (let k = cmp (e ! no) in
        if k = 0 then Some (pno, no, lev)
        else tree_walk cmp e fuel no (tn_link (e ! no) ! nat (k mod 4)) (lev + 1)))"

definition note_level :: "nat \<Rightarrow> TreeBody_t \<Rightarrow> TreeBody_t" where
  "note_level lev t = t\<lparr>t_maxlev := max (t_maxlev t) lev\<rparr>"

text \<open>The root a string or a number starts from.\<close>

definition str_root :: "bytes \<Rightarrow> nat" where
  "str_root str = (case str of [] \<Rightarrow> 0 | c # _ \<Rightarrow> unat c)"

definition num_root :: "int \<Rightarrow> nat" where
  "num_root key = nat (key mod 256)"

section \<open>Search\<close>

text \<open>
  The result is the C return value, the value stored through \<open>val\<close> (0 when nothing was
  found) and the tree, whose deepest level the search records.
\<close>

definition treeFind :: "tree_t \<Rightarrow> bytes \<Rightarrow> bool \<times> int \<times> tree_t" where
  "treeFind tp str =
     (case tp of None \<Rightarrow> (False, 0, tp)
      | Some t \<Rightarrow>
         if t_bad t \<or> is_numeric t then (False, 0, tp)
         else (case tree_walk (str_cmp (t_sbuf t) str) (t_earr t) (t_eend t) 0
                      (t_root t ! str_root str) 0 of
             None \<Rightarrow> (False, 0, tp)
           | Some (pno, no, lev) \<Rightarrow>
               if no \<noteq> 0 then (True, tn_val (t_earr t ! no), Some (note_level lev t))
               else (False, 0, Some (note_level lev t))))"

definition treeNumFindInternal :: "tree_t \<Rightarrow> int \<Rightarrow> int option \<Rightarrow> bool \<times> int \<times> tree_t" where
  "treeNumFindInternal tp key new_val =
     (case tp of None \<Rightarrow> (False, 0, tp)
      | Some t \<Rightarrow>
         if t_bad t \<or> \<not> is_numeric t then (False, 0, tp)
         else (case tree_walk (num_cmp key) (t_earr t) (t_eend t) 0
                      (t_root t ! num_root key) 0 of
             None \<Rightarrow> (False, 0, tp)
           | Some (pno, no, lev) \<Rightarrow>
               if no \<noteq> 0 then
                 (let v = tn_val (t_earr t ! no);
                      t' = (case new_val of None \<Rightarrow> t
                            | Some nv \<Rightarrow> t\<lparr>t_earr := (t_earr t)[no := (t_earr t ! no)\<lparr>tn_val := nv\<rparr>]\<rparr>)
                  in (True, v, Some (note_level lev t')))
               else (False, 0, Some (note_level lev t))))"

definition treeNumFind :: "tree_t \<Rightarrow> int \<Rightarrow> bool \<times> int \<times> tree_t" where
  "treeNumFind tp key = treeNumFindInternal tp key None"

section \<open>Insertion\<close>

text \<open>
  \<open>treeBranchInsert\<close> hangs node \<open>new_no\<close> (an \<open>unsigned short\<close>) on its branch. The start of
  the branch is an empty root or the first free link that the comparison leads to.
\<close>

definition treeBranchInsert :: "TreeBody_t \<Rightarrow> nat \<Rightarrow> oret \<times> TreeBody_t" where
  "treeBranchInsert t new_no =
     (if new_no = 0 \<or> t_bad t then (ERROR, t)
      else
        let e = t_earr t;
            str = cstr_at (t_sbuf t) (nat (tn_key (e ! new_no)));
            l = (if is_numeric t then num_root (tn_key (e ! new_no)) else str_root str);
            cmp = (if is_numeric t then num_cmp (tn_key (e ! new_no))
                   else str_cmp (t_sbuf t) str);
            no = t_root t ! l
        in if no = 0 then (OK, note_level 0 (t\<lparr>t_root := (t_root t)[l := new_no]\<rparr>))
           else (case tree_walk cmp e (t_eend t) 0 no 0 of
               None \<Rightarrow> (ERROR, t)
             | Some (pno, no', lev) \<Rightarrow>
                 if no' \<noteq> 0 then (ERROR, note_level lev t)
                 else (OK, note_level lev (t\<lparr>t_earr := e[pno := (e ! pno)\<lparr>tn_link :=
                        (tn_link (e ! pno))[nat (cmp (e ! pno) mod 4) := new_no]\<rparr>]\<rparr>))))"

text \<open>
  Room for one more node: the array grows by \<open>ARRAY_GROWTH\<close> zeroed nodes when it is full.
  \<open>None\<close> is the failure of \<open>oxrenew\<close>.
\<close>

definition grow_nodes :: "env \<Rightarrow> TreeBody_t \<Rightarrow> TreeBody_t option" where
  "grow_nodes E t =
     (if t_eend t < length (t_earr t) then Some t
      else let nlim = length (t_earr t) + ARRAY_GROWTH in
        if env_alloc E (nlim * sizeof_TreeNode)
        then Some (t\<lparr>t_earr := t_earr t @ replicate ARRAY_GROWTH zero_node\<rparr>)
        else None)"

definition set_node :: "TreeNode_t \<Rightarrow> TreeBody_t \<Rightarrow> TreeBody_t" where
  "set_node nd t = t\<lparr>t_earr := (t_earr t)[t_eend t := nd], t_eend := t_eend t + 1\<rparr>"

text \<open>
  \<open>treeAdd\<close> appends the string to the buffer, which grows by \<open>BUFFER_GROWTH\<close> once. When the
  string does not fit even then, \<open>strcpy\<close> writes past the end of the buffer: that is the
  result \<open>None\<close>.
\<close>

definition grow_sbuf :: "env \<Rightarrow> nat \<Rightarrow> TreeBody_t \<Rightarrow> TreeBody_t option" where
  "grow_sbuf E len t =
     (if t_send t + len + 2 \<ge> length (t_sbuf t) then
        let nlim = length (t_sbuf t) + BUFFER_GROWTH in
          if env_alloc E nlim then Some (t\<lparr>t_sbuf := t_sbuf t @ replicate BUFFER_GROWTH 0\<rparr>)
          else None
      else Some t)"

definition fence_pos :: "int \<Rightarrow> bytes \<Rightarrow> nat" where
  "fence_pos fence str =
     (if fence \<noteq> 0 \<and> word_of_int fence \<in> set str
      then length (takeWhile (\<lambda>c. c \<noteq> word_of_int fence) str) else 0)"

definition treeAdd :: "env \<Rightarrow> tree_t \<Rightarrow> bytes \<Rightarrow> int \<Rightarrow> (oret \<times> tree_t) option" where
  "treeAdd E tp str val =
     (case tp of None \<Rightarrow> Some (ERROR, tp)
      | Some t0 \<Rightarrow>
         if t_bad t0 \<or> is_numeric t0 then Some (ERROR, tp)
         else (case treeFind tp str of (found, i, tp1) \<Rightarrow>
           if found then Some (if i = val then OK else ERROR, tp1)
           else (case tp1 of None \<Rightarrow> Some (ERROR, tp1)
             | Some t \<Rightarrow>
               let len = length str; off = t_send t in
               (case grow_sbuf E len t of
                  None \<Rightarrow> Some (ERROR, Some (t\<lparr>t_bad := True\<rparr>))
                | Some t1 \<Rightarrow>
                    if off + len + 1 > length (t_sbuf t1) then None
                    else
                      let t2 = t1\<lparr>t_sbuf := store (t_sbuf t1) off (str @ [0]),
                                  t_send := t_send t1 + len + 1\<rparr> in
                      (case grow_nodes E t2 of
                         None \<Rightarrow> Some (ERROR, Some (t2\<lparr>t_bad := True\<rparr>))
                       | Some t3 \<Rightarrow>
                           let no = t_eend t3;
                               t4 = set_node \<lparr>tn_val = val, tn_key = int off,
                                      tn_len = fence_pos (t_fence t3) str,
                                      tn_link = [0, 0, 0, 0]\<rparr> t3;
                               (rc, t5) = treeBranchInsert t4 (no mod 65536)
                           in Some (rc, Some t5))))))"

definition treeNumAddInternal :: "env \<Rightarrow> tree_t \<Rightarrow> int \<Rightarrow> int \<Rightarrow> bool \<Rightarrow> oret \<times> tree_t" where
  "treeNumAddInternal E tp key val force =
     (case tp of None \<Rightarrow> (ERROR, tp)
      | Some t0 \<Rightarrow>
         if t_bad t0 \<or> \<not> is_numeric t0 then (ERROR, tp)
         else (case treeNumFindInternal tp key (if force then Some val else None) of
                 (found, i, tp1) \<Rightarrow>
           if found then (if force then OK else if i = val then OK else ERROR, tp1)
           else (case tp1 of None \<Rightarrow> (ERROR, tp1)
             | Some t \<Rightarrow>
               (case grow_nodes E t of
                  None \<Rightarrow> (ERROR, Some (t\<lparr>t_bad := True\<rparr>))
                | Some t3 \<Rightarrow>
                    let no = t_eend t3;
                        t4 = set_node \<lparr>tn_val = val, tn_key = key, tn_len = 0,
                               tn_link = [0, 0, 0, 0]\<rparr> t3;
                        (rc, t5) = treeBranchInsert t4 (no mod 65536)
                    in (rc, Some t5)))))"

definition treeNumAdd :: "env \<Rightarrow> tree_t \<Rightarrow> int \<Rightarrow> int \<Rightarrow> oret \<times> tree_t" where
  "treeNumAdd E tp key val = treeNumAddInternal E tp key val False"

definition treeNumAddOrSet :: "env \<Rightarrow> tree_t \<Rightarrow> int \<Rightarrow> int \<Rightarrow> oret \<times> tree_t" where
  "treeNumAddOrSet E tp key val = treeNumAddInternal E tp key val True"

section \<open>The walk\<close>

lemma tree_walk_mono:
  "tree_walk cmp e f p n l = Some r \<Longrightarrow> f \<le> f' \<Longrightarrow> tree_walk cmp e f' p n l = Some r"
proof (induction f arbitrary: f' p n l)
  case 0
  then show ?case by simp
next
  case (Suc f)
  then obtain g where g: "f' = Suc g" "f \<le> g" by (cases f') auto
  show ?case using Suc.prems(1) Suc.IH [OF _ g(2)] by (auto simp: g(1) Let_def split: if_splits)
qed

text \<open>A walk only depends on the nodes below a bound that all its links respect.\<close>

definition closed_below :: "TreeNode_t list \<Rightarrow> nat \<Rightarrow> bool" where
  "closed_below e N \<longleftrightarrow> (\<forall>i k. 0 < i \<and> i < N \<and> k < 4 \<longrightarrow> tn_link (e ! i) ! k < N)"

lemma nat_mod4: "nat (k mod 4) < 4"
  using pos_mod_bound [of 4 k] by linarith

lemma tree_walk_cong:
  assumes same: "\<And>i. 0 < i \<Longrightarrow> i < N \<Longrightarrow> e' ! i = e ! i \<and> cmp' (e ! i) = cmp (e ! i)"
    and closed: "closed_below e N" and "n < N"
  shows "tree_walk cmp' e' f p n l = tree_walk cmp e f p n l"
  using \<open>n < N\<close>
proof (induction f arbitrary: p n l)
  case (Suc f)
  show ?case
  proof (cases "n = 0")
    case False
    with Suc.prems have eq: "e' ! n = e ! n" "cmp' (e ! n) = cmp (e ! n)"
      using same by auto
    have "tn_link (e ! n) ! nat (cmp (e ! n) mod 4) < N"
      using closed False Suc.prems nat_mod4 by (auto simp: closed_below_def)
    then show ?thesis using False eq Suc.IH by (simp add: Let_def)
  qed simp
qed simp

lemma tree_walk_found:
  "tree_walk cmp e f p n l = Some (q, m, l') \<Longrightarrow> m \<noteq> 0 \<Longrightarrow> cmp (e ! m) = 0"
  by (induction f arbitrary: p n l) (auto simp: Let_def split: if_splits)

lemma tree_walk_below:
  "tree_walk cmp e f p n l = Some (q, m, l') \<Longrightarrow> closed_below e N \<Longrightarrow> n < N \<Longrightarrow> p < N
    \<Longrightarrow> q < N \<and> m < N"
proof (induction f arbitrary: p n l)
  case (Suc f)
  show ?case
  proof (cases "n = 0 \<or> cmp (e ! n) = 0")
    case True
    with Suc.prems show ?thesis by (auto simp: Let_def split: if_splits)
  next
    case False
    then have "tree_walk cmp e f n (tn_link (e ! n) ! nat (cmp (e ! n) mod 4)) (l + 1)
        = Some (q, m, l')"
      using Suc.prems(1) by (simp add: Let_def)
    moreover have "tn_link (e ! n) ! nat (cmp (e ! n) mod 4) < N"
      using False Suc.prems nat_mod4 by (auto simp: closed_below_def)
    ultimately show ?thesis using Suc.IH Suc.prems by blast
  qed
qed simp

text \<open>Where a walk that starts at a node and fails stops: at a free link.\<close>

lemma tree_walk_stop:
  "tree_walk cmp e f p n l = Some (q, 0, l') \<Longrightarrow> n \<noteq> 0 \<Longrightarrow>
    q \<noteq> 0 \<and> cmp (e ! q) \<noteq> 0 \<and> tn_link (e ! q) ! nat (cmp (e ! q) mod 4) = 0"
proof (induction f arbitrary: p n l)
  case (Suc f)
  let ?nx = "tn_link (e ! n) ! nat (cmp (e ! n) mod 4)"
  from Suc.prems have k: "cmp (e ! n) \<noteq> 0" by (auto simp: Let_def)
  with Suc.prems have w: "tree_walk cmp e f n ?nx (l + 1) = Some (q, 0, l')"
    by (simp add: Let_def)
  show ?case
  proof (cases "?nx = 0")
    case True
    then have "q = n" using w by (cases f) auto
    with k True Suc.prems(2) show ?thesis by simp
  next
    case False
    with w Suc.IH show ?thesis by blast
  qed
qed simp

text \<open>Links that only go to later nodes bound the walk by the number of nodes.\<close>

definition links_up :: "TreeNode_t list \<Rightarrow> nat \<Rightarrow> bool" where
  "links_up e N \<longleftrightarrow> (\<forall>i k. 0 < i \<and> i < N \<and> k < 4 \<longrightarrow>
     (let l = tn_link (e ! i) ! k in l = 0 \<or> i < l \<and> l < N))"

lemma links_up_closed: "links_up e N \<Longrightarrow> closed_below e N"
  by (force simp: links_up_def closed_below_def Let_def)

lemma tree_walk_terminates:
  assumes "links_up e N"
  shows "n < N \<Longrightarrow> 0 < f \<Longrightarrow> n = 0 \<or> N \<le> n + f - 1 \<Longrightarrow> \<exists>r. tree_walk cmp e f p n l = Some r"
proof (induction f arbitrary: p n l)
  case (Suc f)
  show ?case
  proof (cases "n = 0 \<or> cmp (e ! n) = 0")
    case True
    then show ?thesis by (auto simp: Let_def)
  next
    case False
    let ?nx = "tn_link (e ! n) ! nat (cmp (e ! n) mod 4)"
    have nx: "?nx = 0 \<or> n < ?nx \<and> ?nx < N"
      using assms False Suc.prems(1) nat_mod4 by (auto simp: links_up_def Let_def)
    have "0 < f" using Suc.prems False by auto
    moreover have "?nx = 0 \<or> N \<le> ?nx + f - 1" using nx Suc.prems False by auto
    moreover have "?nx < N" using nx Suc.prems by auto
    ultimately show ?thesis using False Suc.IH by (simp add: Let_def)
  qed
qed simp

text \<open>Filling one free link of node \<open>p\<close> with a fresh leaf.\<close>

definition put_link :: "TreeNode_t list \<Rightarrow> nat \<Rightarrow> nat \<Rightarrow> nat \<Rightarrow> TreeNode_t list" where
  "put_link e p j new = e[p := (e ! p)\<lparr>tn_link := (tn_link (e ! p))[j := new]\<rparr>]"

definition ignores_links :: "(TreeNode_t \<Rightarrow> int) \<Rightarrow> bool" where
  "ignores_links cmp \<longleftrightarrow> (\<forall>nd L. cmp (nd\<lparr>tn_link := L\<rparr>) = cmp nd)"

lemma num_cmp_ignores [simp]: "ignores_links (num_cmp key)"
  by (simp add: ignores_links_def num_cmp_def)

lemma str_cmp_ignores [simp]: "ignores_links (str_cmp b s)"
  by (simp add: ignores_links_def str_cmp_def)

lemma put_link_nth:
  "p < length e \<Longrightarrow> put_link e p j new ! n =
    (if n = p then (e ! p)\<lparr>tn_link := (tn_link (e ! p))[j := new]\<rparr> else e ! n)"
  by (simp add: put_link_def)

lemma put_link_cmp:
  "p < length e \<Longrightarrow> ignores_links cmp \<Longrightarrow> cmp (put_link e p j new ! n) = cmp (e ! n)"
  by (simp add: put_link_nth ignores_links_def)

lemma put_link_keep:
  assumes p: "p < length e" and j: "j < length (tn_link (e ! p))"
    and free: "tn_link (e ! p) ! j = 0" and ig: "ignores_links cmp"
  shows "tree_walk cmp e f p0 n l = Some (q, m, l') \<Longrightarrow>
      m \<noteq> 0 \<or> q \<noteq> p \<or> nat (cmp (e ! p) mod 4) \<noteq> j \<Longrightarrow>
      tree_walk cmp (put_link e p j new) f p0 n l = Some (q, m, l')"
proof (induction f arbitrary: p0 n l)
  case (Suc f)
  let ?e = "put_link e p j new"
  show ?case
  proof (cases "n = 0 \<or> cmp (e ! n) = 0")
    case True
    then show ?thesis using Suc.prems by (auto simp: put_link_cmp [OF p ig] Let_def)
  next
    case False
    let ?j = "nat (cmp (e ! n) mod 4)"
    from False Suc.prems(1) have w: "tree_walk cmp e f n (tn_link (e ! n) ! ?j) (l + 1) = Some (q, m, l')"
      by (simp add: Let_def)
    have "\<not> (n = p \<and> ?j = j)"
    proof
      assume "n = p \<and> ?j = j"
      with free w have "q = p \<and> m = 0" by (cases f) auto
      with Suc.prems(2) \<open>n = p \<and> ?j = j\<close> show False by auto
    qed
    then have "tn_link (?e ! n) ! ?j = tn_link (e ! n) ! ?j"
      using j by (auto simp: put_link_nth [OF p] nth_list_update)
    then show ?thesis
      using False Suc.IH [OF w Suc.prems(2)] by (simp add: put_link_cmp [OF p ig] Let_def)
  qed
qed simp

lemma put_link_reach:
  assumes p: "p < length e" and j: "j < length (tn_link (e ! p))"
    and free: "tn_link (e ! p) ! j = 0" and ig: "ignores_links cmp"
    and new: "new \<noteq> 0" "new \<noteq> p" and leaf: "\<forall>k<4. tn_link (e ! new) ! k = 0"
    and jp: "nat (cmp (e ! p) mod 4) = j"
  shows "tree_walk cmp e f p0 n l = Some (p, 0, l') \<Longrightarrow> n \<noteq> 0 \<Longrightarrow>
      tree_walk cmp (put_link e p j new) (Suc f) p0 n l =
        Some (if cmp (e ! new) = 0 then (p, new, l') else (new, 0, l' + 1))"
proof (induction f arbitrary: p0 n l)
  case (Suc f)
  let ?e = "put_link e p j new"
  from Suc.prems have k: "cmp (e ! n) \<noteq> 0" by (auto simp: Let_def)
  let ?j = "nat (cmp (e ! n) mod 4)"
  let ?nx = "tn_link (e ! n) ! ?j"
  from k Suc.prems have w: "tree_walk cmp e f n ?nx (l + 1) = Some (p, 0, l')"
    by (simp add: Let_def)
  note cm = put_link_cmp [OF p ig]
  show ?case
  proof (cases "?nx = 0")
    case True
    with w have np: "n = p" "l' = l + 1" "0 < f" by (cases f; simp)+
    have nx': "tn_link (?e ! n) ! ?j = new"
      using j np jp by (simp add: put_link_nth [OF p])
    have lf: "tn_link (?e ! new) ! nat (cmp (e ! new) mod 4) = 0"
      using leaf new nat_mod4 by (simp add: put_link_nth [OF p])
    from np(3) obtain g where "f = Suc g" by (cases f) auto
    then show ?thesis
      using k nx' lf new Suc.prems(2) np by (auto simp: cm Let_def)
  next
    case False
    then have "\<not> (n = p \<and> ?j = j)" using free by auto
    then have "tn_link (?e ! n) ! ?j = ?nx"
      using j by (auto simp: put_link_nth [OF p] nth_list_update)
    then show ?thesis
      using k Suc.prems(2) Suc.IH [OF w False] by (simp add: cm Let_def)
  qed
qed simp

end
