(* ===== verification/TreeMap.thy ===== *)
theory TreeMap
  imports Tree
begin

text \<open>
  Correctness of the hash tree of util/util-tree.c: the invariant of a well-formed tree, the
  effect of hanging one leaf on every search, and the refinement of the numeric tree to a
  finite map from C ints to C ints. The interface \<open>int_index\<close> is what the monitors, the OOID
  factory and the info cache of the hub rely on.
\<close>

section \<open>Well-formed trees\<close>

definition wf_tree :: "TreeBody_t \<Rightarrow> bool" where
  "wf_tree t \<longleftrightarrow> length (t_root t) = 256 \<and> 1 \<le> t_eend t
     \<and> (t_eend t \<le> length (t_earr t) \<or> t_eend t = 1)
     \<and> links_up (t_earr t) (t_eend t)
     \<and> (\<forall>i. 0 < i \<and> i < t_eend t \<longrightarrow> length (tn_link (t_earr t ! i)) = 4)
     \<and> (\<forall>b < 256. t_root t ! b < t_eend t)"

definition find_node :: "(TreeNode_t \<Rightarrow> int) \<Rightarrow> nat \<Rightarrow> TreeBody_t \<Rightarrow> nat" where
  "find_node cmp b t =
     (case tree_walk cmp (t_earr t) (t_eend t) 0 (t_root t ! b) 0 of
        None \<Rightarrow> 0 | Some (q, m, l) \<Rightarrow> m)"

lemma num_root_less [simp]: "num_root key < 256"
  by (simp add: num_root_def nat_less_iff)

lemma str_root_less [simp]: "str_root s < 256"
proof -
  have "unat (c :: byte) < 256" for c
    using uint_byte_range [of c] by (simp only: unat_eq_nat_uint nat_less_iff) simp
  then show ?thesis by (simp add: str_root_def split: list.split)
qed

lemma tree_walk_total:
  assumes "wf_tree t" and "b < 256"
  shows "\<exists>r. tree_walk cmp (t_earr t) (t_eend t) 0 (t_root t ! b) 0 = Some r"
  using assms by (intro tree_walk_terminates) (auto simp: wf_tree_def)

lemma find_node_cases:
  assumes "wf_tree t" and "b < 256"
  obtains q l where "tree_walk cmp (t_earr t) (t_eend t) 0 (t_root t ! b) 0
      = Some (q, find_node cmp b t, l)"
proof -
  obtain r where r: "tree_walk cmp (t_earr t) (t_eend t) 0 (t_root t ! b) 0 = Some r"
    using tree_walk_total [OF assms] by blast
  obtain q m l where "r = (q, m, l)" by (cases r)
  with r show thesis by (intro that [of q l]) (simp add: find_node_def)
qed

lemma find_node_matches:
  assumes "wf_tree t" and "b < 256" and "find_node cmp b t \<noteq> 0"
  shows "cmp (t_earr t ! find_node cmp b t) = 0" and "find_node cmp b t < t_eend t"
proof -
  obtain q l where w: "tree_walk cmp (t_earr t) (t_eend t) 0 (t_root t ! b) 0
      = Some (q, find_node cmp b t, l)"
    using find_node_cases [OF assms(1,2)] .
  show "cmp (t_earr t ! find_node cmp b t) = 0" using tree_walk_found [OF w assms(3)] .
  show "find_node cmp b t < t_eend t"
    using tree_walk_below [OF w, of "t_eend t"] assms by (auto simp: wf_tree_def links_up_closed)
qed

lemma note_level_simps [simp]:
  "t_earr (note_level l t) = t_earr t" "t_eend (note_level l t) = t_eend t"
  "t_root (note_level l t) = t_root t" "t_bad (note_level l t) = t_bad t"
  "t_fence (note_level l t) = t_fence t" "t_sbuf (note_level l t) = t_sbuf t"
  "t_send (note_level l t) = t_send t"
  by (simp_all add: note_level_def)

lemma find_node_note_level [simp]: "find_node cmp b (note_level l t) = find_node cmp b t"
  by (simp add: find_node_def)

lemma wf_note_level [simp]: "wf_tree (note_level l t) = wf_tree t"
  by (simp add: wf_tree_def)

section \<open>A fresh leaf\<close>

text \<open>\<open>add_leaf t nd t4\<close>: \<open>t4\<close> is \<open>t\<close> with the leaf \<open>nd\<close> written at the end of its array, not
  linked yet.\<close>

definition add_leaf :: "TreeBody_t \<Rightarrow> TreeNode_t \<Rightarrow> TreeBody_t \<Rightarrow> bool" where
  "add_leaf t nd t4 \<longleftrightarrow> wf_tree t \<and> tn_link nd = [0, 0, 0, 0]
     \<and> t_root t4 = t_root t \<and> t_bad t4 = t_bad t \<and> t_fence t4 = t_fence t
     \<and> t_eend t4 = t_eend t + 1 \<and> t_eend t < length (t_earr t4)
     \<and> (\<forall>i. 0 < i \<and> i < t_eend t \<longrightarrow> t_earr t4 ! i = t_earr t ! i)
     \<and> t_earr t4 ! t_eend t = nd"

lemma grow_nodes_fields:
  assumes "grow_nodes E t = Some t3"
  shows "t_root t3 = t_root t" "t_bad t3 = t_bad t" "t_fence t3 = t_fence t"
    "t_eend t3 = t_eend t" "t_sbuf t3 = t_sbuf t" "t_send t3 = t_send t"
  using assms by (auto simp: grow_nodes_def Let_def split: if_splits)

lemma add_leaf_set_node:
  assumes wf: "wf_tree t" and g: "grow_nodes E t = Some t3" and nd: "tn_link nd = [0, 0, 0, 0]"
  shows "add_leaf t nd (set_node nd t3)"
proof -
  have len: "t_eend t < length (t_earr t3)"
    using g wf by (auto simp: grow_nodes_def Let_def wf_tree_def split: if_splits)
  have old: "t_earr t3 ! i = t_earr t ! i" if "0 < i" "i < t_eend t" for i
    using that g wf by (auto simp: grow_nodes_def Let_def wf_tree_def nth_append split: if_splits)
  show ?thesis
    using wf nd len old grow_nodes_fields [OF g] by (simp add: add_leaf_def set_node_def)
qed

lemma all4: "(\<forall>k<4. P k) \<longleftrightarrow> P 0 \<and> P 1 \<and> P 2 \<and> P (3::nat)"
  by (auto simp: less_Suc_eq numeral_eq_Suc)

lemma leaf_links: "k < 4 \<Longrightarrow> [0, 0, 0, 0::nat] ! k = 0"
  using all4 [of "\<lambda>k. [0, 0, 0, 0::nat] ! k = 0"] by simp

lemma add_leaf_closed:
  assumes "add_leaf t nd t4"
  shows "closed_below (t_earr t4) (t_eend t)" "links_up (t_earr t4) (t_eend t4)"
proof -
  let ?N = "t_eend t"
  have up: "links_up (t_earr t) ?N" using assms by (simp add: add_leaf_def wf_tree_def)
  have old: "t_earr t4 ! i = t_earr t ! i" if "0 < i" "i < ?N" for i
    using assms that by (simp add: add_leaf_def)
  show "closed_below (t_earr t4) ?N"
    using links_up_closed [OF up] old by (simp add: closed_below_def)
  show "links_up (t_earr t4) (t_eend t4)"
    unfolding links_up_def Let_def
  proof (intro allI impI)
    fix i k :: nat assume a: "0 < i \<and> i < t_eend t4 \<and> k < 4"
    then have e4: "t_eend t4 = ?N + 1" using assms by (simp add: add_leaf_def)
    show "tn_link (t_earr t4 ! i) ! k = 0
        \<or> i < tn_link (t_earr t4 ! i) ! k \<and> tn_link (t_earr t4 ! i) ! k < t_eend t4"
    proof (cases "i = ?N")
      case True
      then show ?thesis using assms a leaf_links by (simp add: add_leaf_def)
    next
      case False
      then have "i < ?N" using a e4 by simp
      then have "tn_link (t_earr t ! i) ! k = 0
          \<or> i < tn_link (t_earr t ! i) ! k \<and> tn_link (t_earr t ! i) ! k < ?N"
        using up a unfolding links_up_def Let_def by blast
      then show ?thesis using old \<open>i < ?N\<close> a e4 by auto
    qed
  qed
qed

lemma add_leaf_wf: "add_leaf t nd t4 \<Longrightarrow> wf_tree t4"
  using add_leaf_closed(2) [of t nd t4]
  by (auto simp: wf_tree_def add_leaf_def less_Suc_eq)

lemma add_leaf_walk:
  assumes "add_leaf t nd t4" and "b < 256"
    and same: "\<And>i. 0 < i \<Longrightarrow> i < t_eend t \<Longrightarrow> cmp' (t_earr t ! i) = cmp (t_earr t ! i)"
  shows "tree_walk cmp' (t_earr t4) f p (t_root t4 ! b) l
       = tree_walk cmp (t_earr t) f p (t_root t ! b) l"
proof -
  have "t_root t ! b < t_eend t" using assms by (simp add: add_leaf_def wf_tree_def)
  moreover have "closed_below (t_earr t) (t_eend t)"
    using assms by (simp add: add_leaf_def wf_tree_def links_up_closed)
  ultimately show ?thesis
    using assms tree_walk_cong [of "t_eend t" "t_earr t4" "t_earr t" cmp' cmp] by (simp add: add_leaf_def)
qed

lemma add_leaf_find:
  assumes al: "add_leaf t nd t4" and b: "b < 256"
    and same: "\<And>i. 0 < i \<Longrightarrow> i < t_eend t \<Longrightarrow> cmp' (t_earr t ! i) = cmp (t_earr t ! i)"
  shows "find_node cmp' b t4 = find_node cmp b t"
proof -
  have wf: "wf_tree t" using al by (simp add: add_leaf_def)
  obtain q l where w: "tree_walk cmp (t_earr t) (t_eend t) 0 (t_root t ! b) 0
      = Some (q, find_node cmp b t, l)"
    using find_node_cases [OF wf b] .
  have "tree_walk cmp (t_earr t) (t_eend t4) 0 (t_root t ! b) 0 = Some (q, find_node cmp b t, l)"
    by (rule tree_walk_mono [OF w]) (use al in \<open>simp add: add_leaf_def\<close>)
  then show ?thesis using add_leaf_walk [where cmp' = cmp' and cmp = cmp, OF al b same]
    by (simp add: find_node_def)
qed

section \<open>Hanging the leaf\<close>

text \<open>The comparison and the root that \<open>treeBranchInsert\<close> uses for a node.\<close>

definition cmp_of :: "TreeBody_t \<Rightarrow> TreeNode_t \<Rightarrow> TreeNode_t \<Rightarrow> int" where
  "cmp_of t nd = (if is_numeric t then num_cmp (tn_key nd)
                  else str_cmp (t_sbuf t) (cstr_at (t_sbuf t) (nat (tn_key nd))))"

definition root_of :: "TreeBody_t \<Rightarrow> TreeNode_t \<Rightarrow> nat" where
  "root_of t nd = (if is_numeric t then num_root (tn_key nd)
                   else str_root (cstr_at (t_sbuf t) (nat (tn_key nd))))"

lemma root_of_less [simp]: "root_of t nd < 256"
  by (simp add: root_of_def)

lemma cmp_of_ignores [simp]: "ignores_links (cmp_of t nd)"
  by (simp add: cmp_of_def)

lemma treeBranchInsert_alt:
  "treeBranchInsert t new =
     (if new = 0 \<or> t_bad t then (ERROR, t)
      else let nd = t_earr t ! new; b = root_of t nd; cmp = cmp_of t nd in
        if t_root t ! b = 0 then (OK, note_level 0 (t\<lparr>t_root := (t_root t)[b := new]\<rparr>))
        else (case tree_walk cmp (t_earr t) (t_eend t) 0 (t_root t ! b) 0 of
               None \<Rightarrow> (ERROR, t)
             | Some (pno, no', lev) \<Rightarrow>
                 if no' \<noteq> 0 then (ERROR, note_level lev t)
                 else (OK, note_level lev (t\<lparr>t_earr := put_link (t_earr t) pno
                        (nat (cmp (t_earr t ! pno) mod 4)) new\<rparr>))))"
proof (cases "is_numeric t")
  case True
  then have "cmp_of t (t_earr t ! new) = num_cmp (tn_key (t_earr t ! new))"
    "root_of t (t_earr t ! new) = num_root (tn_key (t_earr t ! new))"
    by (simp_all add: cmp_of_def root_of_def)
  then show ?thesis using True by (simp add: treeBranchInsert_def put_link_def Let_def split: option.split)
next
  case False
  let ?s = "cstr_at (t_sbuf t) (nat (tn_key (t_earr t ! new)))"
  have "cmp_of t (t_earr t ! new) = str_cmp (t_sbuf t) ?s"
    "root_of t (t_earr t ! new) = str_root ?s"
    using False by (simp_all add: cmp_of_def root_of_def)
  then show ?thesis using False by (simp add: treeBranchInsert_def put_link_def Let_def split: option.split)
qed

lemma branch_insert_duplicate:
  assumes wf: "wf_tree t" and i: "0 < i" "i < t_eend t"
    and found: "find_node (cmp_of t (t_earr t ! i)) (root_of t (t_earr t ! i)) t \<noteq> 0"
  shows "\<exists>lev. treeBranchInsert t i = (ERROR, note_level lev t) \<or> treeBranchInsert t i = (ERROR, t)"
proof -
  let ?c = "cmp_of t (t_earr t ! i)" and ?b = "root_of t (t_earr t ! i)"
  obtain q l where w: "tree_walk ?c (t_earr t) (t_eend t) 0 (t_root t ! ?b) 0
      = Some (q, find_node ?c ?b t, l)"
    using find_node_cases [OF wf root_of_less] .
  have "t_root t ! ?b \<noteq> 0"
  proof
    assume "t_root t ! ?b = 0"
    with w found show False by (cases "t_eend t") auto
  qed
  then show ?thesis using i w found by (auto simp: treeBranchInsert_alt Let_def)
qed


text \<open>
  Inserting a leaf whose key no search finds hangs it either on an empty root or on the
  free link where the search for its key stops.
\<close>

lemma branch_insert_cases:
  assumes al: "add_leaf t nd t4" and ok: "\<not> t_bad t"
    and none: "find_node (cmp_of t4 nd) (root_of t4 nd) t4 = 0"
  obtains (root) "t_root t4 ! root_of t4 nd = 0"
      "treeBranchInsert t4 (t_eend t)
        = (OK, note_level 0 (t4\<lparr>t_root := (t_root t4)[root_of t4 nd := t_eend t]\<rparr>))"
  | (link) q lev where "t_root t4 ! root_of t4 nd \<noteq> 0" "q \<noteq> 0" "q < t_eend t"
      "tree_walk (cmp_of t4 nd) (t_earr t4) (t_eend t4) 0 (t_root t4 ! root_of t4 nd) 0
        = Some (q, 0, lev)"
      "tn_link (t_earr t4 ! q) ! nat (cmp_of t4 nd (t_earr t4 ! q) mod 4) = 0"
      "cmp_of t4 nd (t_earr t4 ! q) \<noteq> 0"
      "treeBranchInsert t4 (t_eend t) = (OK, note_level lev (t4\<lparr>t_earr :=
          put_link (t_earr t4) q (nat (cmp_of t4 nd (t_earr t4 ! q) mod 4)) (t_eend t)\<rparr>))"
proof -
  let ?c = "cmp_of t4 nd" and ?b = "root_of t4 nd" and ?N = "t_eend t"
  have N: "?N \<noteq> 0" "\<not> t_bad t4" "t_earr t4 ! ?N = nd" "t_eend t4 = ?N + 1"
    using al ok by (auto simp: add_leaf_def wf_tree_def)
  note wf4 = add_leaf_wf [OF al]
  show thesis
  proof (cases "t_root t4 ! ?b = 0")
    case True
    show thesis by (rule root) (use True N in \<open>simp_all add: treeBranchInsert_alt Let_def\<close>)
  next
    case False
    obtain q lev where w: "tree_walk ?c (t_earr t4) (t_eend t4) 0 (t_root t4 ! ?b) 0
        = Some (q, 0, lev)"
      using find_node_cases [OF wf4 root_of_less, of ?c] none by metis
    have r: "t_root t4 ! ?b < ?N" using al by (simp add: add_leaf_def wf_tree_def)
    have q: "q < ?N"
      using tree_walk_below [OF w add_leaf_closed(1) [OF al] r] N by auto
    show thesis
      using link [OF False _ q w] tree_walk_stop [OF w False] False N w
      by (simp add: treeBranchInsert_alt Let_def)
  qed
qed

lemma links_length4: "wf_tree t \<Longrightarrow> 0 < i \<Longrightarrow> i < t_eend t \<Longrightarrow> length (tn_link (t_earr t ! i)) = 4"
  by (simp add: wf_tree_def)

lemma put_link_wf:
  assumes wf: "wf_tree t" and q: "0 < q" "q < t_eend t" and j: "j < 4"
    and new: "q < new" "new < t_eend t"
  shows "wf_tree (t\<lparr>t_earr := put_link (t_earr t) q j new\<rparr>)"
proof -
  let ?e = "put_link (t_earr t) q j new"
  have qlen: "q < length (t_earr t)" using wf q by (auto simp: wf_tree_def)
  have l4: "length (tn_link (t_earr t ! q)) = 4" using links_length4 [OF wf] q by simp
  have "links_up ?e (t_eend t)"
    unfolding links_up_def Let_def
  proof (intro allI impI)
    fix i k :: nat assume a: "0 < i \<and> i < t_eend t \<and> k < 4"
    have "tn_link (?e ! i) ! k = (if i = q \<and> k = j then new else tn_link (t_earr t ! i) ! k)"
      using a l4 by (simp add: put_link_nth [OF qlen] nth_list_update)
    moreover have "tn_link (t_earr t ! i) ! k = 0
        \<or> i < tn_link (t_earr t ! i) ! k \<and> tn_link (t_earr t ! i) ! k < t_eend t"
      using wf a unfolding wf_tree_def links_up_def Let_def by blast
    ultimately show "tn_link (?e ! i) ! k = 0
        \<or> i < tn_link (?e ! i) ! k \<and> tn_link (?e ! i) ! k < t_eend t"
      using new by auto
  qed
  moreover have "length ?e = length (t_earr t)" by (simp add: put_link_def)
  ultimately show ?thesis
    using wf l4 by (auto simp: wf_tree_def put_link_nth [OF qlen])
qed

text \<open>What a successful insertion does to every search.\<close>

lemma branch_insert_fresh:
  assumes al: "add_leaf t nd t4" and ok: "\<not> t_bad t"
    and none: "find_node (cmp_of t4 nd) (root_of t4 nd) t4 = 0"
    and self: "cmp_of t4 nd nd = 0"
    and ins: "treeBranchInsert t4 (t_eend t) = (rc, t5)"
  shows "rc = OK" and "wf_tree t5"
    and "find_node (cmp_of t4 nd) (root_of t4 nd) t5 = t_eend t"
    and "\<And>cmp b. ignores_links cmp \<Longrightarrow> b < 256 \<Longrightarrow> cmp nd \<noteq> 0
           \<Longrightarrow> find_node cmp b t5 = find_node cmp b t4"
proof -
  let ?c = "cmp_of t4 nd" and ?b = "root_of t4 nd" and ?N = "t_eend t"
  have N: "?N \<noteq> 0" "t_earr t4 ! ?N = nd" "t_eend t4 = ?N + 1" "?N < t_eend t4"
    and lf: "tn_link nd = [0, 0, 0, 0]" and tl: "?N < length (t_earr t4)"
    using al by (auto simp: add_leaf_def wf_tree_def)
  note wf4 = add_leaf_wf [OF al]
  have rl: "length (t_root t4) = 256" using wf4 by (simp add: wf_tree_def)
  have leaf: "\<forall>k<4. tn_link (t_earr t4 ! ?N) ! k = 0" using N lf leaf_links by simp
  have old: "t_root t4 ! b < ?N" if "b < 256" for b
    using al that by (simp add: add_leaf_def wf_tree_def)
  have "rc = OK \<and> wf_tree t5 \<and> find_node ?c ?b t5 = ?N
    \<and> (\<forall>cmp b. ignores_links cmp \<and> b < 256 \<and> cmp nd \<noteq> 0 \<longrightarrow> find_node cmp b t5 = find_node cmp b t4)"
    using al ok none
  proof (cases rule: branch_insert_cases)
    case root
    then have t5: "rc = OK" "t5 = note_level 0 (t4\<lparr>t_root := (t_root t4)[?b := ?N]\<rparr>)"
      using ins by simp_all
    have "wf_tree t5" using wf4 N by (auto simp: t5 wf_tree_def nth_list_update)
    moreover have "find_node ?c ?b t5 = ?N"
      using N self rl by (simp add: t5 find_node_def)
    moreover have "find_node cmp b t5 = find_node cmp b t4" if "b < 256" "cmp nd \<noteq> 0" for cmp b
    proof (cases "b = ?b")
      case True
      obtain g where g: "?N = Suc g" using N by (cases ?N) auto
      have "tn_link nd ! nat (cmp nd mod 4) = 0" using lf leaf_links nat_mod4 by simp
      then have "find_node cmp b t5 = 0"
        using N that True rl g by (simp add: t5 find_node_def Let_def)
      then show ?thesis using root(1) True N by (simp add: find_node_def)
    next
      case False
      then show ?thesis by (simp add: t5 find_node_def)
    qed
    ultimately show ?thesis using t5 by blast
  next
    case (link q lev)
    let ?j = "nat (?c (t_earr t4 ! q) mod 4)"
    let ?e = "put_link (t_earr t4) q ?j ?N"
    from link have t5: "rc = OK" "t5 = note_level lev (t4\<lparr>t_earr := ?e\<rparr>)"
      using ins by simp_all
    have qlen: "q < length (t_earr t4)" using link tl by simp
    have jl: "?j < length (tn_link (t_earr t4 ! q))"
      using links_length4 [OF wf4] link N nat_mod4 by simp
    have wf5: "wf_tree t5"
      using put_link_wf [OF wf4, of q ?j ?N] link N nat_mod4 by (simp add: t5)
    have w: "tree_walk ?c (t_earr t4) ?N 0 (t_root t4 ! ?b) 0 = Some (q, 0, lev)"
    proof -
      have "\<exists>r. tree_walk ?c (t_earr t4) ?N 0 (t_root t4 ! ?b) 0 = Some r"
        using al N old [OF root_of_less] tree_walk_total [of t ?b ?c]
          add_leaf_walk [where cmp' = ?c and cmp = ?c, OF al root_of_less [of t4 nd] refl, of ?N 0 0] by (simp add: add_leaf_def)
      then obtain r where r: "tree_walk ?c (t_earr t4) ?N 0 (t_root t4 ! ?b) 0 = Some r" ..
      have "tree_walk ?c (t_earr t4) (t_eend t4) 0 (t_root t4 ! ?b) 0 = Some r"
        by (rule tree_walk_mono [OF r]) (use N in simp)
      with link(4) r show ?thesis by simp
    qed
    have "tree_walk ?c ?e (Suc ?N) 0 (t_root t4 ! ?b) 0 = Some (q, ?N, lev)"
      using put_link_reach [OF qlen jl link(5) cmp_of_ignores N(1) _ leaf refl w link(1)]
        self N link by simp
    then have "find_node ?c ?b t5 = ?N" using N by (simp add: t5 find_node_def)
    moreover have "find_node cmp b t5 = find_node cmp b t4"
      if cm: "ignores_links cmp" "b < 256" "cmp nd \<noteq> 0" for cmp b
    proof -
      have "\<exists>r. tree_walk cmp (t_earr t4) ?N 0 (t_root t4 ! b) 0 = Some r"
        using al cm tree_walk_total [of t b cmp] add_leaf_walk [where cmp' = cmp and cmp = cmp, OF al cm(2) refl, of ?N 0 0]
        by (simp add: add_leaf_def)
      then obtain q2 m l2 where w2: "tree_walk cmp (t_earr t4) ?N 0 (t_root t4 ! b) 0
          = Some (q2, m, l2)" by auto
      have f4: "find_node cmp b t4 = m" using tree_walk_mono [OF w2, of "Suc ?N"] N
        by (simp add: find_node_def del: tree_walk.simps)
      show ?thesis
      proof (cases "m \<noteq> 0 \<or> q2 \<noteq> q \<or> nat (cmp (t_earr t4 ! q) mod 4) \<noteq> ?j")
        case True
        have "tree_walk cmp ?e (Suc ?N) 0 (t_root t4 ! b) 0 = Some (q2, m, l2)"
          using tree_walk_mono [OF put_link_keep [OF qlen jl link(5) cm(1) w2 True], of "Suc ?N"]
          by simp
        then show ?thesis using f4 N by (simp add: t5 find_node_def del: tree_walk.simps)
      next
        case False
        then have m: "m = 0" "q2 = q" "nat (cmp (t_earr t4 ! q) mod 4) = ?j" by auto
        show ?thesis
        proof (cases "t_root t4 ! b = 0")
          case True
          then show ?thesis using N by (simp add: t5 find_node_def)
        next
          case False
          have "tree_walk cmp ?e (Suc ?N) 0 (t_root t4 ! b) 0 = Some (?N, 0, l2 + 1)"
            using put_link_reach [OF qlen jl link(5) cm(1) N(1) _ leaf m(3), of ?N 0 "t_root t4 ! b" 0 l2]
              w2 m False cm N link by simp
          then show ?thesis using f4 m N by (simp add: t5 find_node_def del: tree_walk.simps)
        qed
      qed
    qed
    ultimately show ?thesis using t5 wf5 by blast
  qed
  then show "rc = OK" "wf_tree t5" "find_node ?c ?b t5 = ?N"
    "\<And>cmp b. ignores_links cmp \<Longrightarrow> b < 256 \<Longrightarrow> cmp nd \<noteq> 0
           \<Longrightarrow> find_node cmp b t5 = find_node cmp b t4"
    by blast+
qed


section \<open>A numeric tree is a map\<close>

definition num_node :: "TreeBody_t \<Rightarrow> int \<Rightarrow> nat" where
  "num_node t key = find_node (num_cmp key) (num_root key) t"

text \<open>
  Every key is a C int, and every node below the 16-bit limit is found under its own key.
\<close>

definition num_good :: "TreeBody_t \<Rightarrow> bool" where
  "num_good t \<longleftrightarrow> is_numeric t \<and> \<not> t_bad t \<and> wf_tree t
     \<and> (\<forall>i. 0 < i \<and> i < t_eend t \<longrightarrow> int32_range (tn_key (t_earr t ! i)))
     \<and> (\<forall>i. 0 < i \<and> i < t_eend t \<and> i < 65536 \<longrightarrow> num_node t (tn_key (t_earr t ! i)) = i)"

definition num_inv :: "tree_t \<Rightarrow> bool" where
  "num_inv tp \<longleftrightarrow> (\<exists>t. tp = Some t \<and> is_numeric t \<and> (t_bad t \<or> num_good t))"

text \<open>The map a tree stands for; a tree that ran out of memory finds nothing any more.\<close>

definition num_look :: "tree_t \<Rightarrow> int \<Rightarrow> int option" where
  "num_look tp key =
     (case tp of None \<Rightarrow> None
      | Some t \<Rightarrow> if t_bad t \<or> \<not> int32_range key \<or> num_node t key = 0 then None
                  else Some (tn_val (t_earr t ! num_node t key)))"

lemma num_node_note_level [simp]: "num_node (note_level l t) = num_node t"
  by (simp add: num_node_def fun_eq_iff)

lemma num_good_note_level [simp]: "num_good (note_level l t) = num_good t"
  by (simp add: num_good_def)

lemma num_look_note_level [simp]: "num_look (Some (note_level l t)) = num_look (Some t)"
  by (simp add: num_look_def fun_eq_iff)

lemma num_cmp_zero:
  "int32_range key \<Longrightarrow> int32_range (tn_key e) \<Longrightarrow> num_cmp key e = 0 \<longleftrightarrow> tn_key e = key"
  using diff_mod32_zero [of key "tn_key e"] by (auto simp: num_cmp_def)

lemma num_node_key:
  assumes "num_good t" and "int32_range key" and "num_node t key \<noteq> 0"
  shows "tn_key (t_earr t ! num_node t key) = key" and "num_node t key < t_eend t"
proof -
  have wf: "wf_tree t" using assms by (simp add: num_good_def)
  note fm = find_node_matches [OF wf num_root_less [of key], of "num_cmp key", folded num_node_def, OF assms(3)]
  then show "num_node t key < t_eend t" by simp
  with fm assms show "tn_key (t_earr t ! num_node t key) = key"
    by (simp add: num_cmp_zero num_good_def)
qed

text \<open>Changing values changes no walk.\<close>

lemma tree_walk_shape:
  assumes "\<And>i. tn_link (e' ! i) = tn_link (e ! i) \<and> cmp (e' ! i) = cmp (e ! i)"
  shows "tree_walk cmp e' f p n l = tree_walk cmp e f p n l"
  by (induction f arbitrary: p n l) (simp_all add: assms Let_def)

definition set_val :: "nat \<Rightarrow> int \<Rightarrow> TreeBody_t \<Rightarrow> TreeBody_t" where
  "set_val no v t = t\<lparr>t_earr := (t_earr t)[no := (t_earr t ! no)\<lparr>tn_val := v\<rparr>]\<rparr>"

lemma set_val_nth:
  "t_earr (set_val no v t) ! i =
     (if i = no \<and> no < length (t_earr t) then (t_earr t ! no)\<lparr>tn_val := v\<rparr> else t_earr t ! i)"
  by (cases "no < length (t_earr t)") (simp_all add: set_val_def nth_list_update list_update_beyond)

lemma set_val_fields [simp]:
  "t_root (set_val no v t) = t_root t" "t_eend (set_val no v t) = t_eend t"
  "t_bad (set_val no v t) = t_bad t" "t_fence (set_val no v t) = t_fence t"
  "length (t_earr (set_val no v t)) = length (t_earr t)"
  by (simp_all add: set_val_def)

lemma set_val_key_link [simp]:
  "tn_key (t_earr (set_val no v t) ! i) = tn_key (t_earr t ! i)"
  "tn_link (t_earr (set_val no v t) ! i) = tn_link (t_earr t ! i)"
  by (simp_all add: set_val_nth)

lemma set_val_node [simp]: "num_node (set_val no v t) key = num_node t key"
  unfolding num_node_def find_node_def
  by (subst tree_walk_shape [where e = "t_earr t"]) (simp_all add: num_cmp_def)

lemma set_val_wf [simp]: "wf_tree (set_val no v t) = wf_tree t"
  by (simp add: wf_tree_def links_up_def)

lemma set_val_good [simp]: "num_good (set_val no v t) = num_good t"
  by (simp add: num_good_def)

lemma set_val_look:
  assumes "num_good t" and "int32_range key" and "num_node t key \<noteq> 0"
  shows "num_look (Some (set_val (num_node t key) v t)) = (num_look (Some t))(key \<mapsto> v)"
proof
  fix k
  note nk = num_node_key [OF assms(1-3)]
  have len: "num_node t key < length (t_earr t)"
    using nk assms by (auto simp: num_good_def wf_tree_def)
  have nb: "\<not> t_bad t" using assms by (simp add: num_good_def)
  have other: "num_node t k \<noteq> num_node t key" if "num_node t k \<noteq> 0" "k \<noteq> key" "int32_range k"
    using num_node_key(1) [OF assms(1) that(3,1)] nk that(2) by metis
  show "num_look (Some (set_val (num_node t key) v t)) k = ((num_look (Some t))(key \<mapsto> v)) k"
  proof (cases "k = key")
    case True
    then show ?thesis using len nb assms(2,3) by (simp add: num_look_def set_val_nth)
  next
    case False
    then show ?thesis using other nb by (simp add: num_look_def set_val_nth)
  qed
qed

lemma num_find_good:
  assumes g: "num_good t" and k: "int32_range key"
  obtains lev where
    "treeNumFindInternal (Some t) key nv =
       (num_node t key \<noteq> 0, (if num_node t key = 0 then 0 else tn_val (t_earr t ! num_node t key)),
        Some (note_level lev (case nv of None \<Rightarrow> t | Some v \<Rightarrow>
           if num_node t key = 0 then t else set_val (num_node t key) v t)))"
proof -
  have wf: "wf_tree t" and nb: "is_numeric t" "\<not> t_bad t" using g by (simp_all add: num_good_def)
  obtain q l where "tree_walk (num_cmp key) (t_earr t) (t_eend t) 0 (t_root t ! num_root key) 0
      = Some (q, num_node t key, l)"
    using find_node_cases [OF wf num_root_less] unfolding num_node_def .
  then show thesis
    by (intro that [of l]) (simp add: treeNumFindInternal_def nb set_val_def Let_def split: option.split)
qed

lemma num_leaf_good:
  assumes g: "num_good t" and k: "int32_range key" and none: "num_node t key = 0"
    and gr: "grow_nodes E t = Some t3" and fit: "t_eend t < 65536"
    and t4: "t4 = set_node \<lparr>tn_val = v, tn_key = key, tn_len = 0, tn_link = [0, 0, 0, 0]\<rparr> t3"
    and ins: "treeBranchInsert t4 (t_eend t) = (rc, t5)"
  shows "rc = OK \<and> num_good t5
    \<and> num_look (Some t5) = (num_look (Some t))(key \<mapsto> v)"
proof -
  let ?nd = "\<lparr>tn_val = v, tn_key = key, tn_len = 0, tn_link = [0, 0, 0, 0]\<rparr>"
  let ?N = "t_eend t"
  have wf: "wf_tree t" and nb: "is_numeric t" "\<not> t_bad t" using g by (simp_all add: num_good_def)
  have al: "add_leaf t ?nd t4" unfolding t4 by (rule add_leaf_set_node [OF wf gr]) simp
  have N: "?N \<noteq> 0" "t_earr t4 ! ?N = ?nd" "t_eend t4 = ?N + 1" "is_numeric t4" "\<not> t_bad t4"
    using al nb by (auto simp: add_leaf_def wf_tree_def)
  have co: "cmp_of t4 ?nd = num_cmp key" "root_of t4 ?nd = num_root key"
    using N by (simp_all add: cmp_of_def root_of_def)
  have node4: "num_node t4 k = num_node t k" for k
    unfolding num_node_def by (rule add_leaf_find [OF al]) simp_all
  have self: "num_cmp key ?nd = 0" by (simp add: num_cmp_def)
  note fr = branch_insert_fresh [OF al nb(2) _ _ ins, unfolded co, OF _ self]
  have none4: "find_node (num_cmp key) (num_root key) t4 = 0"
    using node4 [of key] none by (simp add: num_node_def)
  have rc: "rc = OK" and wf5: "wf_tree t5" and node5: "num_node t5 key = ?N"
    using fr(1,2,3) [OF none4] by (simp_all add: num_node_def)
  have other: "num_node t5 k = num_node t k" if "int32_range k" "k \<noteq> key" for k
  proof -
    have "num_cmp k ?nd \<noteq> 0" using that k by (simp add: num_cmp_zero)
    then show ?thesis using fr(4) [OF none4, of "num_cmp k" "num_root k"] node4 [of k]
      by (simp add: num_node_def)
  qed
  have same: "t_eend t5 = ?N + 1" "t_bad t5 = t_bad t4" "t_fence t5 = t_fence t4"
    "\<And>i. tn_key (t_earr t5 ! i) = tn_key (t_earr t4 ! i) \<and> tn_val (t_earr t5 ! i) = tn_val (t_earr t4 ! i)"
  proof -
    have "none4'": "find_node (cmp_of t4 ?nd) (root_of t4 ?nd) t4 = 0" using none4 co by simp
    show "t_eend t5 = ?N + 1" "t_bad t5 = t_bad t4" "t_fence t5 = t_fence t4"
      using al nb(2) "none4'" by (cases rule: branch_insert_cases; use ins N in auto)+
    show "tn_key (t_earr t5 ! i) = tn_key (t_earr t4 ! i) \<and> tn_val (t_earr t5 ! i) = tn_val (t_earr t4 ! i)" for i
      using al nb(2) "none4'"
    proof (cases rule: branch_insert_cases)
      case root
      then show ?thesis using ins by auto
    next
      case (link q lev)
      have "q < length (t_earr t4)" using link al by (auto simp: add_leaf_def)
      then show ?thesis using link ins by (auto simp: put_link_nth)
    qed
  qed
  have oldi: "t_earr t4 ! i = t_earr t ! i" if "0 < i" "i < ?N" for i
    using al that by (simp add: add_leaf_def)
  have rng: "int32_range (tn_key (t_earr t5 ! i))" if "0 < i" "i < t_eend t5" for i
  proof (cases "i = ?N")
    case True
    then show ?thesis using same(4) N k by simp
  next
    case False
    then show ?thesis using that same oldi g by (simp add: num_good_def)
  qed
  have linked: "num_node t5 (tn_key (t_earr t5 ! i)) = i" if "0 < i" "i < t_eend t5" "i < 65536" for i
  proof (cases "i = ?N")
    case True
    then show ?thesis using same(4) N node5 by simp
  next
    case False
    then have i: "i < ?N" using that same by simp
    then have a: "num_node t (tn_key (t_earr t ! i)) = i" "int32_range (tn_key (t_earr t ! i))"
      using g that by (simp_all add: num_good_def)
    with none that have "tn_key (t_earr t ! i) \<noteq> key" by auto
    then show ?thesis using other a same(4) oldi [OF that(1) i] by simp
  qed
  have good: "num_good t5"
    unfolding num_good_def using wf5 same N rng linked by simp
  have look: "num_look (Some t5) k' = ((num_look (Some t))(key \<mapsto> v)) k'" for k'
  proof (cases "k' = key \<or> \<not> int32_range k'")
    case True
    then show ?thesis using node5 N same k by (auto simp: num_look_def)
  next
    case False
    then have k': "int32_range k'" "k' \<noteq> key" by auto
    have "num_node t k' < ?N" if "num_node t k' \<noteq> 0" using num_node_key(2) [OF g k'(1) that] .
    then show ?thesis using k' other [OF k'] same N nb oldi
      by (auto simp: num_look_def)
  qed
  show ?thesis using rc good look by blast
qed


lemma num_add_full:
  assumes g: "num_good t" and k: "int32_range key" and none: "num_node t key = 0"
    and gr: "grow_nodes E t = Some t3" and full: "65536 \<le> t_eend t"
    and t4: "t4 = set_node \<lparr>tn_val = v, tn_key = key, tn_len = 0, tn_link = [0, 0, 0, 0]\<rparr> t3"
    and ins: "treeBranchInsert t4 (t_eend t mod 65536) = (rc, t5)"
  shows "rc = ERROR \<and> num_good t5 \<and> num_look (Some t5) = num_look (Some t)"
proof -
  let ?nd = "\<lparr>tn_val = v, tn_key = key, tn_len = 0, tn_link = [0, 0, 0, 0]\<rparr>"
  let ?N = "t_eend t"
  let ?n = "t_eend t mod 65536"
  have wf: "wf_tree t" and nb: "is_numeric t" "\<not> t_bad t" using g by (simp_all add: num_good_def)
  have al: "add_leaf t ?nd t4" unfolding t4 by (rule add_leaf_set_node [OF wf gr]) simp
  have N: "t_earr t4 ! ?N = ?nd" "t_eend t4 = ?N + 1" "is_numeric t4" "\<not> t_bad t4"
    using al nb by (auto simp: add_leaf_def wf_tree_def)
  have oldi: "t_earr t4 ! i = t_earr t ! i" if "0 < i" "i < ?N" for i
    using al that by (simp add: add_leaf_def)
  have node4: "num_node t4 k = num_node t k" for k
    unfolding num_node_def by (rule add_leaf_find [OF al]) simp_all
  have rng: "int32_range (tn_key (t_earr t4 ! i))" if "0 < i" "i < t_eend t4" for i
  proof (cases "i = ?N")
    case True
    then show ?thesis using N k by simp
  next
    case False
    then show ?thesis using that N oldi g by (simp add: num_good_def)
  qed
  have g4: "num_good t4"
    unfolding num_good_def using add_leaf_wf [OF al] N rng node4 oldi full g
    by (simp add: num_good_def)
  have look4: "num_look (Some t4) = num_look (Some t)"
  proof
    fix k'
    have "num_node t k' < ?N" if "num_node t k' \<noteq> 0" "int32_range k'"
      using num_node_key(2) [OF g that(2,1)] .
    then show "num_look (Some t4) k' = num_look (Some t) k'"
      using node4 N nb oldi by (auto simp: num_look_def)
  qed
  have "\<exists>lev. (rc, t5) = (ERROR, note_level lev t4) \<or> (rc, t5) = (ERROR, t4)"
  proof (cases "?n = 0")
    case True
    then show ?thesis using ins by (simp add: treeBranchInsert_alt)
  next
    case False
    have n: "0 < ?n" "?n < t_eend t4" "?n < 65536" "?n < ?N" using False full N by auto
    have "num_node t4 (tn_key (t_earr t4 ! ?n)) = ?n"
      using g4 n by (simp add: num_good_def)
    then have "find_node (cmp_of t4 (t_earr t4 ! ?n)) (root_of t4 (t_earr t4 ! ?n)) t4 \<noteq> 0"
      using n N by (simp add: num_node_def cmp_of_def root_of_def)
    then show ?thesis
      using branch_insert_duplicate [OF add_leaf_wf [OF al] n(1,2)] ins by simp
  qed
  then show ?thesis using g4 look4 by auto
qed

lemma num_inv_cases:
  assumes "num_inv tp"
  obtains (bad) t where "tp = Some t" "is_numeric t" "t_bad t" "num_look tp = Map.empty"
  | (good) t where "tp = Some t" "num_good t"
  using assms by (auto simp: num_inv_def num_look_def fun_eq_iff)

lemma num_good_inv: "num_good t \<Longrightarrow> num_inv (Some t)"
  by (auto simp: num_inv_def num_good_def)

lemma treeNumFind_law:
  assumes inv: "num_inv tp" and k: "int32_range key" and r: "treeNumFind tp key = (f, v, tp')"
  shows "f = (num_look tp key \<noteq> None)" "v = (case num_look tp key of None \<Rightarrow> 0 | Some v \<Rightarrow> v)"
    "num_look tp' = num_look tp" "num_inv tp'"
proof -
  have "f = (num_look tp key \<noteq> None) \<and> v = (case num_look tp key of None \<Rightarrow> 0 | Some v \<Rightarrow> v)
      \<and> num_look tp' = num_look tp \<and> num_inv tp'"
    using inv
  proof (cases rule: num_inv_cases)
    case (bad t)
    then show ?thesis using r inv by (simp add: treeNumFind_def treeNumFindInternal_def)
  next
    case (good t)
    obtain lev where "treeNumFindInternal (Some t) key None =
       (num_node t key \<noteq> 0, (if num_node t key = 0 then 0 else tn_val (t_earr t ! num_node t key)),
        Some (note_level lev t))"
      using num_find_good [OF good(2) k, of None] by auto
    moreover have "\<not> t_bad t" using good by (simp add: num_good_def)
    ultimately show ?thesis using r good k num_good_inv [OF good(2)]
      by (auto simp: treeNumFind_def num_look_def num_inv_def fun_eq_iff)
  qed
  then show "f = (num_look tp key \<noteq> None)" "v = (case num_look tp key of None \<Rightarrow> 0 | Some v \<Rightarrow> v)"
    "num_look tp' = num_look tp" "num_inv tp'" by blast+
qed

text \<open>
  \<open>num_room E tp\<close>: the next node fits, in memory and in the 16-bit links.
\<close>

definition num_room :: "env \<Rightarrow> tree_t \<Rightarrow> bool" where
  "num_room E tp \<longleftrightarrow> (\<exists>t. tp = Some t \<and> \<not> t_bad t \<and> t_eend t < 65536 \<and> grow_nodes E t \<noteq> None)"

lemma treeNumAddOrSet_law:
  assumes inv: "num_inv tp" and k: "int32_range key" and r: "treeNumAddOrSet E tp key v = (rc, tp')"
  shows "num_inv tp'"
    and "rc = OK \<and> num_look tp' = (num_look tp)(key \<mapsto> v)
       \<or> rc = ERROR \<and> (num_look tp' = num_look tp \<or> num_look tp' = Map.empty)"
    and "num_look tp key \<noteq> None \<or> num_room E tp \<Longrightarrow> rc = OK"
proof -
  have "num_inv tp' \<and> (rc = OK \<and> num_look tp' = (num_look tp)(key \<mapsto> v)
       \<or> rc = ERROR \<and> (num_look tp' = num_look tp \<or> num_look tp' = Map.empty))
       \<and> (num_look tp key \<noteq> None \<or> num_room E tp \<longrightarrow> rc = OK)"
    using inv
  proof (cases rule: num_inv_cases)
    case (bad t)
    then show ?thesis using r inv
      by (auto simp: treeNumAddOrSet_def treeNumAddInternal_def num_room_def)
  next
    case (good t)
    have nb: "is_numeric t" "\<not> t_bad t" using good by (simp_all add: num_good_def)
    obtain lev where fi: "treeNumFindInternal (Some t) key (Some v) =
       (num_node t key \<noteq> 0, (if num_node t key = 0 then 0 else tn_val (t_earr t ! num_node t key)),
        Some (note_level lev (if num_node t key = 0 then t else set_val (num_node t key) v t)))"
      using num_find_good [OF good(2) k, of "Some v"] by auto
    show ?thesis
    proof (cases "num_node t key = 0")
      case False
      then have "rc = OK" "tp' = Some (note_level lev (set_val (num_node t key) v t))"
        using r good(1) nb fi by (simp_all add: treeNumAddOrSet_def treeNumAddInternal_def)
      then show ?thesis
        using set_val_look [OF good(2) k False] good num_good_inv [of "note_level lev (set_val (num_node t key) v t)"]
        by simp
    next
      case none: True
      let ?t = "note_level lev t"
      have gl: "num_good ?t" "num_node ?t key = 0" using good none by simp_all
      have nl: "num_look tp key = None" using none good by (simp add: num_look_def)
      show ?thesis
      proof (cases "grow_nodes E ?t")
        case None
        then have "rc = ERROR" "tp' = Some (?t\<lparr>t_bad := True\<rparr>)"
          using r good(1) nb fi none by (simp_all add: treeNumAddOrSet_def treeNumAddInternal_def)
        moreover have "grow_nodes E t = None"
          using None by (auto simp: grow_nodes_def Let_def split: if_splits)
        ultimately show ?thesis using nb nl good(1)
          by (simp add: num_inv_def num_look_def fun_eq_iff num_room_def)
      next
        case (Some t3)
        let ?t4 = "set_node \<lparr>tn_val = v, tn_key = key, tn_len = 0, tn_link = [0, 0, 0, 0]\<rparr> t3"
        have e3: "t_eend t3 = t_eend ?t" using grow_nodes_fields [OF Some] by simp
        obtain t5 where ins: "treeBranchInsert ?t4 (t_eend ?t mod 65536) = (rc, t5)" "tp' = Some t5"
          using r good(1) nb fi none Some e3
          by (auto simp: treeNumAddOrSet_def treeNumAddInternal_def Let_def split: prod.splits)
        show ?thesis
        proof (cases "t_eend ?t < 65536")
          case True
          with ins have "treeBranchInsert ?t4 (t_eend ?t) = (rc, t5)" by simp
          from num_leaf_good [OF gl(1) k gl(2) Some True refl this]
          show ?thesis using ins good num_good_inv by auto
        next
          case False
          then have "65536 \<le> t_eend ?t" by simp
          from num_add_full [OF gl(1) k gl(2) Some this refl ins(1)]
          show ?thesis using ins good num_good_inv nl False by (auto simp: num_room_def)
        qed
      qed
    qed
  qed
  then show "num_inv tp'" "rc = OK \<and> num_look tp' = (num_look tp)(key \<mapsto> v)
       \<or> rc = ERROR \<and> (num_look tp' = num_look tp \<or> num_look tp' = Map.empty)"
    "num_look tp key \<noteq> None \<or> num_room E tp \<Longrightarrow> rc = OK"
    by blast+
qed

lemma num_inv_alloc: "num_inv (treeAlloc NUMERIC_TREE)" "num_look (treeAlloc NUMERIC_TREE) = Map.empty"
proof -
  have wf: "wf_tree (the (treeAlloc NUMERIC_TREE))"
    by (simp add: treeAlloc_def wf_tree_def links_up_def)
  have "num_good (the (treeAlloc NUMERIC_TREE))"
    unfolding num_good_def using wf by (simp add: treeAlloc_def)
  then show "num_inv (treeAlloc NUMERIC_TREE)" using num_good_inv by (simp add: treeAlloc_def)
  have "num_node (the (treeAlloc NUMERIC_TREE)) k = 0" for k
    by (simp add: treeAlloc_def num_node_def find_node_def)
  then show "num_look (treeAlloc NUMERIC_TREE) = Map.empty"
    by (simp add: treeAlloc_def num_look_def fun_eq_iff)
qed

section \<open>The interface of an integer index\<close>

locale int_index =
  fixes find :: "'t \<Rightarrow> int \<Rightarrow> bool \<times> int \<times> 't"
    and add :: "'t \<Rightarrow> int \<Rightarrow> int \<Rightarrow> oret \<times> 't"
    and look :: "'t \<Rightarrow> int \<Rightarrow> int option"
    and inv :: "'t \<Rightarrow> bool"
    and key_ok :: "int \<Rightarrow> bool"
    and room :: "'t \<Rightarrow> bool"
  assumes find_law: "inv t \<Longrightarrow> key_ok k \<Longrightarrow> find t k = (f, v, t') \<Longrightarrow>
      f = (look t k \<noteq> None) \<and> v = (case look t k of None \<Rightarrow> 0 | Some v \<Rightarrow> v)
      \<and> look t' = look t \<and> inv t'"
    and add_law: "inv t \<Longrightarrow> key_ok k \<Longrightarrow> add t k v = (rc, t') \<Longrightarrow>
      inv t' \<and> (rc = OK \<and> look t' = (look t)(k \<mapsto> v)
               \<or> rc = ERROR \<and> (look t' = look t \<or> look t' = Map.empty))"
    and room_law: "inv t \<Longrightarrow> key_ok k \<Longrightarrow> room t \<or> look t k \<noteq> None \<Longrightarrow> fst (add t k v) = OK"
begin

lemma find_Some: "inv t \<Longrightarrow> key_ok k \<Longrightarrow> look t k = Some v \<Longrightarrow> \<exists>t'. find t k = (True, v, t') \<and> look t' = look t \<and> inv t'"
  by (cases "find t k") (auto dest: find_law)

lemma find_None: "inv t \<Longrightarrow> key_ok k \<Longrightarrow> look t k = None \<Longrightarrow> \<exists>t'. find t k = (False, 0, t') \<and> look t' = look t \<and> inv t'"
  by (cases "find t k") (auto dest: find_law)

lemma find_after_add:
  assumes "inv t" "key_ok k" "key_ok k'" "add t k v = (OK, t')"
  shows "fst (find t' k') = (k' = k \<or> look t k' \<noteq> None)"
    and "k' = k \<Longrightarrow> fst (snd (find t' k')) = v"
    and "k' \<noteq> k \<Longrightarrow> fst (snd (find t' k')) = fst (snd (find t k'))"
proof -
  have t': "inv t'" "look t' = (look t)(k \<mapsto> v)" using add_law [OF assms(1,2,4)] by auto
  obtain f w u where f: "find t' k' = (f, w, u)" by (cases "find t' k'")
  obtain f0 w0 u0 where f0: "find t k' = (f0, w0, u0)" by (cases "find t k'")
  note l = find_law [OF t'(1) assms(3) f] find_law [OF assms(1,3) f0]
  show "fst (find t' k') = (k' = k \<or> look t k' \<noteq> None)" using l f t' by auto
  show "k' = k \<Longrightarrow> fst (snd (find t' k')) = v" using l f t' by auto
  show "k' \<noteq> k \<Longrightarrow> fst (snd (find t' k')) = fst (snd (find t k'))" using l f f0 t' by auto
qed

end

interpretation num_tree: int_index treeNumFind "treeNumAddOrSet E" num_look num_inv int32_range "num_room E"
  for E :: env
proof (unfold_locales, goal_cases)
  case (1 t k f v t')
  then show ?case using treeNumFind_law by blast
next
  case (2 t k v rc t')
  then show ?case using treeNumAddOrSet_law(1,2) by blast
next
  case (3 t k v)
  then show ?case using treeNumAddOrSet_law(3) by (metis surj_pair fst_conv)
qed

section \<open>Every bucket is a chain\<close>

text \<open>
  All keys below one root agree in their low eight bits, so the low two bits of a
  difference of two of them are 0: only link 0 of a node is ever used.
\<close>

definition num_chain :: "tree_t \<Rightarrow> bool" where
  "num_chain tp \<longleftrightarrow> (\<exists>t. tp = Some t
     \<and> (\<forall>i. 0 < i \<and> i < t_eend t \<longrightarrow> (\<forall>k. 0 < k \<and> k < 4 \<longrightarrow> tn_link (t_earr t ! i) ! k = 0)
          \<and> (let l = tn_link (t_earr t ! i) ! 0 in
               l \<noteq> 0 \<longrightarrow> tn_key (t_earr t ! l) mod 256 = tn_key (t_earr t ! i) mod 256))
     \<and> (\<forall>b < 256. t_root t ! b \<noteq> 0 \<longrightarrow> tn_key (t_earr t ! (t_root t ! b)) mod 256 = int b))"

lemma num_cmp_same_bucket:
  assumes "key mod 256 = tn_key e mod 256"
  shows "num_cmp key e mod 4 = 0"
proof -
  have "256 dvd key - tn_key e" using assms by (simp add: mod_eq_dvd_iff)
  moreover have "(4::int) dvd 256" by simp
  ultimately have "4 dvd key - tn_key e" by (rule dvd_trans [rotated])
  then have "4 dvd (key - tn_key e) mod 4294967296" by (simp add: dvd_mod)
  then show ?thesis by (simp add: num_cmp_def)
qed

lemma tree_walk_bucket:
  assumes step: "\<And>i. 0 < i \<Longrightarrow> i < N \<Longrightarrow> P i \<Longrightarrow>
      tn_link (e ! i) ! nat (cmp (e ! i) mod 4) \<noteq> 0 \<Longrightarrow> P (tn_link (e ! i) ! nat (cmp (e ! i) mod 4))"
    and closed: "closed_below e N"
  shows "tree_walk cmp e f p n l = Some (q, m, l') \<Longrightarrow> n \<noteq> 0 \<Longrightarrow> n < N \<Longrightarrow> P n \<Longrightarrow> m = 0 \<Longrightarrow> P q"
proof (induction f arbitrary: p n l)
  case (Suc f)
  let ?nx = "tn_link (e ! n) ! nat (cmp (e ! n) mod 4)"
  from Suc.prems have w: "tree_walk cmp e f n ?nx (l + 1) = Some (q, m, l')"
    by (auto simp: Let_def split: if_splits)
  show ?case
  proof (cases "?nx = 0")
    case True
    then have "q = n" using w by (cases f) auto
    then show ?thesis using Suc.prems by simp
  next
    case False
    have "?nx < N" using closed Suc.prems nat_mod4 by (auto simp: closed_below_def)
    then show ?thesis using Suc.IH [OF w False] step [of n] Suc.prems False by simp
  qed
qed simp

lemma add_leaf_chain:
  assumes al: "add_leaf t nd t4" and ch: "num_chain (Some t)"
  shows "num_chain (Some t4)"
proof -
  let ?N = "t_eend t"
  have N: "?N \<noteq> 0" "t_earr t4 ! ?N = nd" "t_eend t4 = ?N + 1" and rt: "t_root t4 = t_root t"
    and lf: "tn_link nd = [0, 0, 0, 0]"
    using al by (auto simp: add_leaf_def wf_tree_def)
  have oldi: "t_earr t4 ! i = t_earr t ! i" if "0 < i" "i < ?N" for i
    using al that by (simp add: add_leaf_def)
  have up: "links_up (t_earr t) ?N" and roots: "\<And>b. b < 256 \<Longrightarrow> t_root t ! b < ?N"
    using al by (auto simp: add_leaf_def wf_tree_def)
  have c0: "tn_link (t_earr t ! i) ! k = 0" if "0 < i" "i < ?N" "0 < k" "k < 4" for i k
    using ch that by (simp add: num_chain_def)
  have c1: "tn_key (t_earr t ! (tn_link (t_earr t ! i) ! 0)) mod 256 = tn_key (t_earr t ! i) mod 256"
    if "0 < i" "i < ?N" "tn_link (t_earr t ! i) ! 0 \<noteq> 0" for i
    using ch that by (simp add: num_chain_def Let_def)
  have lb: "tn_link (t_earr t ! i) ! 0 < ?N" if "0 < i" "i < ?N" for i
    using links_up_closed [OF up] that by (simp add: closed_below_def)
  have a0: "tn_link (t_earr t4 ! i) ! k = 0" if "0 < i" "i < ?N + 1" "0 < k" "k < 4" for i k
  proof (cases "i = ?N")
    case True
    then have "tn_link (t_earr t4 ! i) = [0, 0, 0, 0]" using N lf by simp
    then show ?thesis using leaf_links [OF that(4)] by (simp only:)
  next
    case False
    then show ?thesis using that oldi c0 by simp
  qed
  have a1: "tn_key (t_earr t4 ! (tn_link (t_earr t4 ! i) ! 0)) mod 256 = tn_key (t_earr t4 ! i) mod 256"
    if "0 < i" "i < ?N + 1" "tn_link (t_earr t4 ! i) ! 0 \<noteq> 0" for i
  proof (cases "i = ?N")
    case True
    then show ?thesis using that N lf by simp
  next
    case False
    then have "i < ?N" using that by simp
    then show ?thesis using c1 [of i] lb [of i] oldi that by simp
  qed
  have a2: "tn_key (t_earr t4 ! (t_root t ! b)) mod 256 = int b" if "b < 256" "t_root t ! b \<noteq> 0" for b
    using ch roots [OF that(1)] oldi that by (simp add: num_chain_def)
  show ?thesis unfolding num_chain_def Let_def using N a0 a1 a2 rt by simp
qed

lemma branch_insert_chain:
  assumes al: "add_leaf t nd t4" and ok: "\<not> t_bad t" and num: "is_numeric t"
    and none: "find_node (cmp_of t4 nd) (root_of t4 nd) t4 = 0"
    and ch0: "num_chain (Some t)"
    and ins: "treeBranchInsert t4 (t_eend t) = (rc, t5)"
  shows "num_chain (Some t5)"
proof -
  let ?N = "t_eend t" and ?key = "tn_key nd"
  note ch = add_leaf_chain [OF al ch0]
  have N: "?N \<noteq> 0" "t_earr t4 ! ?N = nd" "t_eend t4 = ?N + 1" "is_numeric t4"
    and rl: "length (t_root t4) = 256"
    using al num by (auto simp: add_leaf_def wf_tree_def)
  have roots: "\<And>b. b < 256 \<Longrightarrow> t_root t4 ! b < ?N"
    using al by (auto simp: add_leaf_def wf_tree_def)
  have a0: "tn_link (t_earr t4 ! i) ! k = 0" if "0 < i" "i < ?N + 1" "0 < k" "k < 4" for i k
    using ch that N by (simp add: num_chain_def)
  have a1: "tn_key (t_earr t4 ! (tn_link (t_earr t4 ! i) ! 0)) mod 256 = tn_key (t_earr t4 ! i) mod 256"
    if "0 < i" "i < ?N + 1" "tn_link (t_earr t4 ! i) ! 0 \<noteq> 0" for i
    using ch that N by (simp add: num_chain_def Let_def)
  have a2: "tn_key (t_earr t4 ! (t_root t4 ! b)) mod 256 = int b" if "b < 256" "t_root t4 ! b \<noteq> 0" for b
    using ch that by (simp add: num_chain_def)
  have rk: "int (num_root ?key) = ?key mod 256" by (simp add: num_root_def)
  show ?thesis
    using al ok none
  proof (cases rule: branch_insert_cases)
    case root
    then have t5: "t5 = note_level 0 (t4\<lparr>t_root := (t_root t4)[num_root ?key := ?N]\<rparr>)"
      using ins N by (simp add: root_of_def)
    have "tn_key (t_earr t4 ! ((t_root t4)[num_root ?key := ?N] ! b)) mod 256 = int b"
      if "b < 256" "(t_root t4)[num_root ?key := ?N] ! b \<noteq> 0" for b
      using that a2 [of b] N rk rl by (cases "b = num_root ?key") simp_all
    then show ?thesis
      unfolding num_chain_def t5 Let_def using N a0 a1 by simp
  next
    case (link q lev)
    have cq: "cmp_of t4 nd = num_cmp ?key" "root_of t4 nd = num_root ?key"
      using N by (simp_all add: cmp_of_def root_of_def)
    have q: "q < length (t_earr t4)" "0 < q" "q < ?N"
      using link al by (auto simp: add_leaf_def)
    have bq: "tn_key (t_earr t4 ! q) mod 256 = ?key mod 256"
    proof (rule tree_walk_bucket [where N = ?N and m = 0 and
          P = "\<lambda>i. tn_key (t_earr t4 ! i) mod 256 = ?key mod 256"])
      show "closed_below (t_earr t4) ?N" using add_leaf_closed(1) [OF al] .
      show "tree_walk (num_cmp ?key) (t_earr t4) (t_eend t4) 0 (t_root t4 ! num_root ?key) 0 = Some (q, 0, lev)"
        using link cq by simp
      show "t_root t4 ! num_root ?key \<noteq> 0" "t_root t4 ! num_root ?key < ?N"
        using link cq roots by simp_all
      show "tn_key (t_earr t4 ! (t_root t4 ! num_root ?key)) mod 256 = ?key mod 256"
        using a2 [of "num_root ?key"] link cq rk by simp
    next
      fix i assume a: "0 < i" "i < ?N" "tn_key (t_earr t4 ! i) mod 256 = ?key mod 256"
        "tn_link (t_earr t4 ! i) ! nat (num_cmp ?key (t_earr t4 ! i) mod 4) \<noteq> 0"
      then have "num_cmp ?key (t_earr t4 ! i) mod 4 = 0" by (simp add: num_cmp_same_bucket)
      then show "tn_key (t_earr t4 ! (tn_link (t_earr t4 ! i) ! nat (num_cmp ?key (t_earr t4 ! i) mod 4))) mod 256
          = ?key mod 256"
        using a a1 [of i] by simp
    qed simp
    have j0: "nat (num_cmp ?key (t_earr t4 ! q) mod 4) = 0"
      using num_cmp_same_bucket [of ?key "t_earr t4 ! q"] bq by simp
    have t5: "t5 = note_level lev (t4\<lparr>t_earr := put_link (t_earr t4) q 0 ?N\<rparr>)"
      using link ins cq j0 by simp
    have l4: "length (tn_link (t_earr t4 ! q)) = 4"
      using links_length4 [OF add_leaf_wf [OF al]] q N by simp
    let ?e = "put_link (t_earr t4) q 0 ?N"
    have key: "tn_key (?e ! i) = tn_key (t_earr t4 ! i)" for i
      by (simp add: put_link_nth [OF q(1)])
    have lnk: "tn_link (?e ! i) ! k = (if i = q \<and> k = 0 then ?N else tn_link (t_earr t4 ! i) ! k)" for i k
      using q l4 by (cases "k = 0") (auto simp: put_link_nth [OF q(1)])
    have "tn_key (?e ! (tn_link (?e ! i) ! 0)) mod 256 = tn_key (?e ! i) mod 256"
      if "0 < i" "i < ?N + 1" "tn_link (?e ! i) ! 0 \<noteq> 0" for i
      using that a1 [of i] bq N unfolding key lnk by auto
    then show ?thesis
      unfolding num_chain_def t5 Let_def using N a0 a2 key lnk by simp
  qed
qed

section \<open>Runs of insertions\<close>

lemma branch_insert_fields:
  assumes "treeBranchInsert t n = (rc, t')"
  shows "t_eend t' = t_eend t" "t_bad t' = t_bad t" "t_fence t' = t_fence t"
    "t_sbuf t' = t_sbuf t" "t_send t' = t_send t" "length (t_earr t') = length (t_earr t)"
  using assms
  by (auto simp: treeBranchInsert_alt put_link_def Let_def split: if_splits option.splits)

lemma num_add_chain:
  assumes inv: "num_inv tp" and ch: "num_chain tp" and k: "int32_range key"
  shows "num_chain (snd (treeNumAddOrSet E tp key v))"
  using inv
proof (cases rule: num_inv_cases)
  case (bad t)
  then show ?thesis using ch by (simp add: treeNumAddOrSet_def treeNumAddInternal_def)
next
  case (good t)
  have nb: "is_numeric t" "\<not> t_bad t" "wf_tree t" using good by (simp_all add: num_good_def)
  have cl: "num_chain (Some (note_level l u)) = num_chain (Some u)" for l u
    by (simp add: num_chain_def)
  obtain lev where fi: "treeNumFindInternal (Some t) key (Some v) =
     (num_node t key \<noteq> 0, (if num_node t key = 0 then 0 else tn_val (t_earr t ! num_node t key)),
      Some (note_level lev (if num_node t key = 0 then t else set_val (num_node t key) v t)))"
    using num_find_good [OF good(2) k, of "Some v"] by auto
  show ?thesis
  proof (cases "num_node t key = 0")
    case False
    have "num_chain (Some (set_val (num_node t key) v t))"
      using ch good(1) by (simp add: num_chain_def)
    then show ?thesis using good(1) nb fi False
      by (simp add: treeNumAddOrSet_def treeNumAddInternal_def cl)
  next
    case none: True
    let ?t = "note_level lev t"
    let ?nd = "\<lparr>tn_val = v, tn_key = key, tn_len = 0, tn_link = [0, 0, 0, 0]\<rparr>"
    show ?thesis
    proof (cases "grow_nodes E ?t")
      case None
      then show ?thesis using good(1) nb fi none ch
        by (simp add: treeNumAddOrSet_def treeNumAddInternal_def) (simp add: num_chain_def)
    next
      case (Some t3)
      let ?t4 = "set_node ?nd t3"
      have al: "add_leaf ?t ?nd ?t4" by (rule add_leaf_set_node [OF _ Some]) (simp_all add: nb)
      have e3: "t_eend t3 = t_eend ?t" using grow_nodes_fields [OF Some] by simp
      have c4: "num_chain (Some ?t4)" using add_leaf_chain [OF al] ch good(1) by (simp add: cl)
      obtain rc t5 where ins: "treeBranchInsert ?t4 (t_eend ?t mod 65536) = (rc, t5)"
        by (cases "treeBranchInsert ?t4 (t_eend ?t mod 65536)")
      have r: "snd (treeNumAddOrSet E tp key v) = Some t5"
        using good(1) nb fi none Some e3 ins by (simp add: treeNumAddOrSet_def treeNumAddInternal_def Let_def)
      have "num_chain (Some t5)"
      proof (cases "t_eend ?t < 65536")
        case True
        have "is_numeric ?t4" "tn_key ?nd = key" using al nb by (auto simp: add_leaf_def)
        then have "cmp_of ?t4 ?nd = num_cmp key" "root_of ?t4 ?nd = num_root key"
          by (simp_all add: cmp_of_def root_of_def)
        moreover have "find_node (num_cmp key) (num_root key) ?t4 = find_node (num_cmp key) (num_root key) ?t"
          by (rule add_leaf_find [OF al]) simp_all
        ultimately have "find_node (cmp_of ?t4 ?nd) (root_of ?t4 ?nd) ?t4 = 0"
          using none by (simp add: num_node_def)
        then show ?thesis
          using branch_insert_chain [OF al _ _ _ _, of rc t5] ins nb ch good(1) True by (simp add: cl)
      next
        case False
        have "num_good ?t" "num_node ?t key = 0" "65536 \<le> t_eend ?t" using good none False by simp_all
        then have "rc = ERROR" using num_add_full [OF _ k _ Some _ refl ins] by simp
        then have "t5 = ?t4 \<or> (\<exists>l. t5 = note_level l ?t4)"
          using ins by (auto simp: treeBranchInsert_alt Let_def split: if_splits option.splits)
        then show ?thesis using c4 by (auto simp: cl)
      qed
      then show ?thesis using r by simp
    qed
  qed
qed

text \<open>A run of \<open>treeNumAddOrSet\<close> calls.\<close>

fun num_run :: "env \<Rightarrow> (int \<times> int) list \<Rightarrow> tree_t \<Rightarrow> tree_t" where
  "num_run E [] tp = tp"
| "num_run E ((k, v) # kvs) tp = num_run E kvs (snd (treeNumAddOrSet E tp k v))"

lemma num_run_inv:
  "num_inv tp \<Longrightarrow> num_chain tp \<Longrightarrow> \<forall>(k, v) \<in> set kvs. int32_range k \<Longrightarrow>
    num_inv (num_run E kvs tp) \<and> num_chain (num_run E kvs tp)"
proof (induction kvs arbitrary: tp)
  case (Cons kv kvs)
  obtain k v where kv: "kv = (k, v)" by (cases kv)
  have k: "int32_range k" using Cons.prems kv by simp
  have "num_inv (snd (treeNumAddOrSet E tp k v))"
    using treeNumAddOrSet_law(1) [OF Cons.prems(1) k] by (metis surjective_pairing)
  then show ?case using Cons num_add_chain [OF Cons.prems(1,2) k] kv by simp
qed simp

lemma num_add_room:
  assumes "tp = Some t" "\<not> t_bad t" "\<And>n. env_alloc E n"
  shows "\<exists>t'. snd (treeNumAddOrSet E tp k v) = Some t' \<and> \<not> t_bad t' \<and> t_eend t' \<le> t_eend t + 1"
proof -
  have g: "grow_nodes E u \<noteq> None" for u
    using assms(3) by (simp add: grow_nodes_def Let_def)
  show ?thesis
  proof (cases "is_numeric t")
    case False
    then show ?thesis using assms by (simp add: treeNumAddOrSet_def treeNumAddInternal_def)
  next
    case True
    obtain f i tp1 where fi: "treeNumFindInternal tp k (Some v) = (f, i, tp1)"
      by (cases "treeNumFindInternal tp k (Some v)")
    then obtain t1 where t1: "tp1 = Some t1" "t_eend t1 = t_eend t" "\<not> t_bad t1"
      using assms True by (auto simp: treeNumFindInternal_def Let_def split: if_splits option.splits)
    show ?thesis
    proof (cases f)
      case True
      then show ?thesis using assms fi t1 \<open>is_numeric t\<close>
        by (simp add: treeNumAddOrSet_def treeNumAddInternal_def)
    next
      case False
      obtain t3 where t3: "grow_nodes E t1 = Some t3" using g [of t1] by auto
      note gf = grow_nodes_fields [OF t3]
      let ?t4 = "set_node \<lparr>tn_val = v, tn_key = k, tn_len = 0, tn_link = [0, 0, 0, 0]\<rparr> t3"
      obtain rc t5 where ins: "treeBranchInsert ?t4 (t_eend t3 mod 65536) = (rc, t5)"
        by (cases "treeBranchInsert ?t4 (t_eend t3 mod 65536)")
      have "snd (treeNumAddOrSet E tp k v) = Some t5"
        using assms fi t1 False t3 ins \<open>is_numeric t\<close>
        by (simp add: treeNumAddOrSet_def treeNumAddInternal_def Let_def)
      then show ?thesis using branch_insert_fields [OF ins] gf t1 by (simp add: set_node_def)
    qed
  qed
qed

lemma num_run_look:
  assumes "\<And>n. env_alloc E n"
  shows "num_inv (Some t) \<Longrightarrow> \<not> t_bad t \<Longrightarrow> t_eend t + length kvs \<le> 65536 \<Longrightarrow>
    \<forall>(k, v) \<in> set kvs. int32_range k \<Longrightarrow>
    num_look (num_run E kvs (Some t)) = (num_look (Some t)) ++ map_of (rev kvs)"
proof (induction kvs arbitrary: t)
  case (Cons kv kvs)
  obtain k v where kv: "kv = (k, v)" by (cases kv)
  have k: "int32_range k" using Cons.prems kv by simp
  obtain t' where t': "snd (treeNumAddOrSet E (Some t) k v) = Some t'" "\<not> t_bad t'"
      "t_eend t' \<le> t_eend t + 1"
    using num_add_room [OF refl Cons.prems(2) assms] by blast
  obtain rc where r: "treeNumAddOrSet E (Some t) k v = (rc, Some t')"
    using t'(1) by (cases "treeNumAddOrSet E (Some t) k v") auto
  have "num_room E (Some t)"
    using Cons.prems assms by (simp add: num_room_def grow_nodes_def Let_def)
  then have law: "num_inv (Some t')" "num_look (Some t') = (num_look (Some t))(k \<mapsto> v)"
    using treeNumAddOrSet_law [OF Cons.prems(1) k r] by auto
  have "num_look (num_run E kvs (Some t')) = (num_look (Some t')) ++ map_of (rev kvs)"
    using Cons.IH [OF law(1) t'(2)] t'(3) Cons.prems by simp
  then show ?case using law t' kv by (simp add: map_add_upd_left map_add_def fun_eq_iff split: option.split)
qed simp

section \<open>A string tree without a fence is a map of strings\<close>

definition node_str :: "TreeBody_t \<Rightarrow> nat \<Rightarrow> bytes" where
  "node_str t i = cstr_at (t_sbuf t) (nat (tn_key (t_earr t ! i)))"

definition str_node :: "TreeBody_t \<Rightarrow> bytes \<Rightarrow> nat" where
  "str_node t s = find_node (str_cmp (t_sbuf t) s) (str_root s) t"

text \<open>Every node holds the offset of a terminated string in the filled part of the buffer.\<close>

definition str_good :: "TreeBody_t \<Rightarrow> bool" where
  "str_good t \<longleftrightarrow> t_fence t = 0 \<and> \<not> t_bad t \<and> wf_tree t \<and> t_send t \<le> length (t_sbuf t)
     \<and> (\<forall>i. 0 < i \<and> i < t_eend t \<longrightarrow> tn_len (t_earr t ! i) = 0 \<and> 0 \<le> tn_key (t_earr t ! i)
          \<and> length (node_str t i) + nat (tn_key (t_earr t ! i)) < t_send t)"

definition str_look :: "TreeBody_t \<Rightarrow> bytes \<Rightarrow> int option" where
  "str_look t s = (if str_node t s = 0 then None else Some (tn_val (t_earr t ! str_node t s)))"

lemma str_fence_not_numeric: "t_fence t = 0 \<Longrightarrow> \<not> is_numeric t"
  by (simp add: to_schar_def)

lemma str_cmp_zero:
  assumes "0 \<notin> set s" and "tn_len e = 0"
  shows "str_cmp b s e = 0 \<longleftrightarrow> cstr_at b (nat (tn_key e)) = s"
  using assms c_strcmp_zero [OF assms(1) cstr_at_no_nul] by (auto simp: str_cmp_def c_strcmp_mod_zero)

lemma str_node_matches:
  assumes g: "str_good t" and s: "0 \<notin> set s" and f: "str_node t s \<noteq> 0"
  shows "node_str t (str_node t s) = s" and "str_node t s < t_eend t"
proof -
  have wf: "wf_tree t" using g by (simp add: str_good_def)
  note fm = find_node_matches [OF wf str_root_less [of s], of "str_cmp (t_sbuf t) s", folded str_node_def, OF f]
  then show "str_node t s < t_eend t" by simp
  with fm g s f show "node_str t (str_node t s) = s"
    by (simp add: str_cmp_zero str_good_def node_str_def)
qed

lemma str_find_good:
  assumes g: "str_good t"
  obtains lev where
    "treeFind (Some t) s = (str_look t s \<noteq> None, (case str_look t s of None \<Rightarrow> 0 | Some v \<Rightarrow> v),
        Some (note_level lev t))"
proof -
  have wf: "wf_tree t" and nb: "\<not> is_numeric t" "\<not> t_bad t"
    using g str_fence_not_numeric by (auto simp: str_good_def)
  obtain q l where "tree_walk (str_cmp (t_sbuf t) s) (t_earr t) (t_eend t) 0 (t_root t ! str_root s) 0
      = Some (q, str_node t s, l)"
    using find_node_cases [OF wf str_root_less] unfolding str_node_def .
  then show thesis
    by (intro that [of l]) (simp add: treeFind_def nb str_look_def Let_def)
qed

lemma str_good_note_level [simp]: "str_good (note_level l t) = str_good t"
  by (simp add: str_good_def node_str_def)

lemma str_look_note_level [simp]: "str_look (note_level l t) = str_look t"
  by (simp add: str_look_def str_node_def fun_eq_iff)

text \<open>Adding a string that is not there yet.\<close>

lemma str_add_fresh:
  assumes g: "str_good t" and s: "0 \<notin> set s" and none: "str_look t s = None"
    and fit: "t_eend t < 65536"
    and gs: "grow_sbuf E (length s) t = Some t1" and room: "t_send t + length s + 1 \<le> length (t_sbuf t1)"
    and t2: "t2 = t1\<lparr>t_sbuf := store (t_sbuf t1) (t_send t) (s @ [0]), t_send := t_send t1 + length s + 1\<rparr>"
    and gn: "grow_nodes E t2 = Some t3"
    and t4: "t4 = set_node \<lparr>tn_val = v, tn_key = int (t_send t), tn_len = 0, tn_link = [0, 0, 0, 0]\<rparr> t3"
    and ins: "treeBranchInsert t4 (t_eend t3) = (rc, t5)"
  shows "rc = OK \<and> str_good t5 \<and> (\<forall>s'. 0 \<notin> set s' \<longrightarrow> str_look t5 s' = ((str_look t)(s \<mapsto> v)) s')"
proof -
  let ?nd = "\<lparr>tn_val = v, tn_key = int (t_send t), tn_len = 0, tn_link = [0, 0, 0, 0]\<rparr>"
  let ?N = "t_eend t" and ?off = "t_send t"
  have wf: "wf_tree t" and nb: "t_fence t = 0" "\<not> t_bad t" "?off \<le> length (t_sbuf t)"
    using g by (simp_all add: str_good_def)
  obtain ext where t1: "t1 = t\<lparr>t_sbuf := t_sbuf t @ ext\<rparr>"
    using gs by (auto simp: grow_sbuf_def Let_def split: if_splits intro: that [of "[]"] that)
  have f2: "t_root t2 = t_root t" "t_eend t2 = ?N" "t_earr t2 = t_earr t" "t_bad t2 = t_bad t"
    "t_fence t2 = t_fence t" "t_sbuf t2 = store (t_sbuf t @ ext) ?off (s @ [0])"
    "t_send t2 = ?off + length s + 1"
    by (simp_all add: t2 t1)
  have wf2: "wf_tree t2" using wf f2 by (simp add: wf_tree_def)
  have al: "add_leaf t2 ?nd t4" unfolding t4 by (rule add_leaf_set_node [OF wf2 gn]) simp
  note gf = grow_nodes_fields [OF gn]
  have sb: "t_sbuf t4 = t_sbuf t2" "t_send t4 = t_send t2" "t_eend t4 = ?N + 1" "t_fence t4 = 0"
    "t_bad t4 = t_bad t" and e3: "t_eend t3 = ?N"
    using gf f2 nb by (simp_all add: t4 set_node_def)
  have lens: "length (t_sbuf t2) = length (t_sbuf t @ ext)" using room f2 t1 by simp
  have N: "?N \<noteq> 0" "t_earr t4 ! ?N = ?nd" using al f2 wf by (auto simp: add_leaf_def wf_tree_def)
  have oldi: "t_earr t4 ! i = t_earr t ! i" if "0 < i" "i < ?N" for i
    using al that f2 by (simp add: add_leaf_def)
  have new: "cstr_at (t_sbuf t2) ?off = s"
    unfolding f2 by (rule cstr_at_store_at) (use nb s in auto)
  have app: "cstr_at (t_sbuf t @ ext) k = cstr_at (t_sbuf t) k"
    if "length (cstr_at (t_sbuf t) k) + k < ?off" for k
  proof -
    have "\<exists>x \<in> set (drop k (t_sbuf t)). \<not> x \<noteq> 0"
    proof (rule ccontr)
      assume "\<not> ?thesis"
      then have "cstr_at (t_sbuf t) k = drop k (t_sbuf t)"
        unfolding cstr_at_def by (subst takeWhile_eq_all_conv) blast
      with that nb(3) show False by simp
    qed
    then obtain x where x: "x \<in> set (drop k (t_sbuf t))" "\<not> x \<noteq> 0" by blast
    have "k \<le> length (t_sbuf t)" using that nb by simp
    then show ?thesis
      by (simp add: cstr_at_def takeWhile_append1 [where P = "\<lambda>c. c \<noteq> 0", OF x])
  qed
  have old: "cstr_at (t_sbuf t2) k = cstr_at (t_sbuf t) k"
    if "length (cstr_at (t_sbuf t) k) + k < ?off" for k
  proof -
    have "cstr_at (store (t_sbuf t @ ext) ?off (s @ [0])) k = cstr_at (t_sbuf t @ ext) k"
      by (rule cstr_at_store_before) (use that nb app [OF that] in simp_all)
    then show ?thesis using f2 app [OF that] by simp
  qed
  have nd_str: "node_str t4 i = node_str t i" if "0 < i" "i < ?N" for i
    using oldi [OF that] sb old g that by (simp add: node_str_def str_good_def)
  have cmps: "str_cmp (t_sbuf t4) s' (t_earr t2 ! i) = str_cmp (t_sbuf t) s' (t_earr t ! i)"
    if "0 < i" "i < t_eend t2" for i s'
    using that nd_str [of i] oldi [of i] f2 g
    by (simp add: str_cmp_def node_str_def str_good_def)
  have node4: "str_node t4 s' = str_node t s'" for s'
  proof -
    have "find_node (str_cmp (t_sbuf t4) s') (str_root s') t4
        = find_node (str_cmp (t_sbuf t) s') (str_root s') t2"
      by (rule add_leaf_find [OF al str_root_less]) (use cmps f2 in simp)
    then show ?thesis using f2 by (simp add: str_node_def find_node_def)
  qed
  have nn: "\<not> is_numeric t4" using str_fence_not_numeric sb by blast
  have co: "cmp_of t4 ?nd = str_cmp (t_sbuf t4) s" "root_of t4 ?nd = str_root s"
    using nn new sb by (simp_all add: cmp_of_def root_of_def)
  have self: "cmp_of t4 ?nd ?nd = 0"
    using new sb s by (simp add: co str_cmp_zero)
  have none4: "find_node (cmp_of t4 ?nd) (root_of t4 ?nd) t4 = 0"
    using node4 [of s] none by (simp add: co str_node_def str_look_def split: if_splits)
  have ins': "treeBranchInsert t4 (t_eend t2) = (rc, t5)" using ins e3 f2 by simp
  have nb2: "\<not> t_bad t2" using nb f2 by simp
  note fr = branch_insert_fresh [OF al nb2 none4 self ins']
  note bf = branch_insert_fields [OF ins]
  have flds: "tn_key (t_earr t5 ! i) = tn_key (t_earr t4 ! i) \<and> tn_val (t_earr t5 ! i) = tn_val (t_earr t4 ! i)
      \<and> tn_len (t_earr t5 ! i) = tn_len (t_earr t4 ! i)" for i
    using al nb2 none4
  proof (cases rule: branch_insert_cases)
    case root
    then show ?thesis using ins' by auto
  next
    case (link q lev)
    have "q < length (t_earr t4)" using link al by (auto simp: add_leaf_def)
    then show ?thesis using link ins' by (auto simp: put_link_nth)
  qed
  have node5: "str_node t5 s = ?N"
    using fr(3) bf sb f2 by (simp add: str_node_def co)
  have other: "str_node t5 s' = str_node t s'" if "0 \<notin> set s'" "s' \<noteq> s" for s'
  proof -
    have "str_cmp (t_sbuf t4) s' ?nd \<noteq> 0" using that new sb by (simp add: str_cmp_zero)
    then show ?thesis
      using fr(4) [of "str_cmp (t_sbuf t4) s'" "str_root s'"] node4 [of s'] bf sb
      by (simp add: str_node_def)
  qed
  have "tn_len (t_earr t5 ! i) = 0 \<and> 0 \<le> tn_key (t_earr t5 ! i)
      \<and> length (node_str t5 i) + nat (tn_key (t_earr t5 ! i)) < t_send t5" if "0 < i" "i < t_eend t5" for i
  proof (cases "i = ?N")
    case True
    then show ?thesis using flds N bf sb f2 new by (simp add: node_str_def)
  next
    case False
    then have i: "i < ?N" using that bf sb e3 by simp
    have "node_str t5 i = node_str t i" using flds [of i] bf nd_str [OF that(1) i] by (simp add: node_str_def)
    moreover have "tn_len (t_earr t ! i) = 0 \<and> 0 \<le> tn_key (t_earr t ! i)
          \<and> length (node_str t i) + nat (tn_key (t_earr t ! i)) < t_send t"
      using g that(1) i by (simp add: str_good_def)
    ultimately show ?thesis using flds [of i] oldi [OF that(1) i] bf sb f2 by simp
  qed
  then have "str_good t5"
    unfolding str_good_def using fr(2) bf sb nb f2 lens room t1 by simp
  moreover have "str_look t5 s' = ((str_look t)(s \<mapsto> v)) s'" if "0 \<notin> set s'" for s'
  proof (cases "s' = s")
    case True
    then show ?thesis using node5 N flds by (simp add: str_look_def)
  next
    case False
    have "str_node t s' < ?N" if "str_node t s' \<noteq> 0" using str_node_matches(2) [OF g \<open>0 \<notin> set s'\<close> that] .
    then show ?thesis using False other [OF that False] flds oldi by (auto simp: str_look_def)
  qed
  ultimately show ?thesis using fr(1) by blast
qed

text \<open>
  The buffer grows by one step of 1024 bytes, so a string of up to 1023 bytes always fits
  behind the filled part.
\<close>

lemma treeAdd_law:
  assumes g: "str_good t" and s: "0 \<notin> set s" "length s \<le> 1023"
    and mem: "\<And>n. env_alloc E n" and fit: "t_eend t < 65536"
  obtains rc t' where "treeAdd E (Some t) s v = Some (rc, Some t')" "str_good t'"
    "str_look t s = None \<Longrightarrow> rc = OK \<and> (\<forall>s'. 0 \<notin> set s' \<longrightarrow> str_look t' s' = ((str_look t)(s \<mapsto> v)) s')"
    "\<And>w. str_look t s = Some w \<Longrightarrow> rc = (if w = v then OK else ERROR) \<and> str_look t' = str_look t"
proof -
  have nn: "\<not> t_bad t" "\<not> is_numeric t" using g str_fence_not_numeric by (auto simp: str_good_def)
  obtain lev where fi: "treeFind (Some t) s = (str_look t s \<noteq> None,
      (case str_look t s of None \<Rightarrow> 0 | Some v \<Rightarrow> v), Some (note_level lev t))"
    using str_find_good [OF g] .
  show thesis
  proof (cases "str_look t s")
    case (Some w)
    have "treeAdd E (Some t) s v = Some (if w = v then OK else ERROR, Some (note_level lev t))"
      using nn fi Some by (simp add: treeAdd_def)
    then show thesis by (rule that) (use g Some in auto)
  next
    case None
    let ?t = "note_level lev t"
    have gl: "str_good ?t" "str_look ?t s = None" using g None by simp_all
    have sl: "t_send t \<le> length (t_sbuf t)" using g by (simp add: str_good_def)
    obtain t1 where t1: "grow_sbuf E (length s) ?t = Some t1"
      and room: "t_send ?t + length s + 1 \<le> length (t_sbuf t1)" and snd1: "t_send t1 = t_send t"
      using s(2) mem sl by (cases "t_send t + length s + 2 \<ge> length (t_sbuf t)")
        (auto simp: grow_sbuf_def Let_def)
    have fence: "t_fence t1 = 0" using t1 g by (auto simp: grow_sbuf_def Let_def str_good_def split: if_splits)
    define t2 where "t2 = t1\<lparr>t_sbuf := store (t_sbuf t1) (t_send ?t) (s @ [0]), t_send := t_send t1 + length s + 1\<rparr>"
    obtain t3 where t3: "grow_nodes E t2 = Some t3"
      using mem by (cases "grow_nodes E t2") (auto simp: grow_nodes_def Let_def split: if_splits)
    note gf = grow_nodes_fields [OF t3]
    have e2: "t_eend t2 = t_eend t" using t1 by (auto simp: t2_def grow_sbuf_def Let_def split: if_splits)
    define t4 where "t4 = set_node \<lparr>tn_val = v, tn_key = int (t_send ?t), tn_len = 0, tn_link = [0, 0, 0, 0]\<rparr> t3"
    obtain rc t5 where ins: "treeBranchInsert t4 (t_eend t3) = (rc, t5)"
      by (cases "treeBranchInsert t4 (t_eend t3)")
    have fp: "fence_pos (t_fence t3) s = 0" using gf fence by (simp add: fence_pos_def t2_def)
    have t2n: "t1\<lparr>t_sbuf := store (t_sbuf t1) (t_send t) (s @ [0]), t_send := Suc (t_send t + length s)\<rparr> = t2"
      by (simp add: t2_def snd1)
    have t4n: "set_node \<lparr>tn_val = v, tn_key = int (t_send t), tn_len = 0, tn_link = [0, 0, 0, 0]\<rparr> t3 = t4"
      by (simp add: t4_def)
    have fp2: "fence_pos (t_fence t2) s = 0" using fp gf by simp
    have "treeAdd E (Some t) s v = Some (rc, Some t5)"
      using nn fi None t1 room snd1 ins fit e2 gf t3 fp2 by (simp add: treeAdd_def t2n t4n)
    moreover from str_add_fresh [OF gl(1) s(1) gl(2) _ t1 room t2_def t3 t4_def ins] fit
    have "rc = OK \<and> str_good t5 \<and> (\<forall>s'. 0 \<notin> set s' \<longrightarrow> str_look t5 s' = ((str_look t)(s \<mapsto> v)) s')"
      by simp
    ultimately show thesis by (intro that) (use None in auto)
  qed
qed


section \<open>Properties\<close>

text \<open>
  C9. After any sequence of fewer than 65536 \<open>treeNumAddOrSet\<close> calls on a new numeric tree,
  \<open>treeNumFind\<close> reports a key exactly when it was added, with the value that was set last.
\<close>

theorem numeric_tree_finds_last_set:
  assumes "\<And>n. env_alloc E n" and "length kvs < 65536"
    and "\<forall>(k, v) \<in> set kvs. int32_range k" and "int32_range key"
  shows "case map_of (rev kvs) key of
      None \<Rightarrow> \<not> fst (treeNumFind (num_run E kvs (treeAlloc NUMERIC_TREE)) key)
    | Some v \<Rightarrow> fst (treeNumFind (num_run E kvs (treeAlloc NUMERIC_TREE)) key)
        \<and> fst (snd (treeNumFind (num_run E kvs (treeAlloc NUMERIC_TREE)) key)) = v"
proof -
  let ?t = "the (treeAlloc NUMERIC_TREE)"
  let ?r = "num_run E kvs (treeAlloc NUMERIC_TREE)"
  have t: "treeAlloc NUMERIC_TREE = Some ?t" "\<not> t_bad ?t" "t_eend ?t = 1"
    by (simp_all add: treeAlloc_def)
  have ch: "num_chain (treeAlloc NUMERIC_TREE)" by (simp add: treeAlloc_def num_chain_def)
  have inv: "num_inv ?r"
    using num_run_inv [OF num_inv_alloc(1) ch assms(3)] by simp
  have "num_look (num_run E kvs (Some ?t)) = num_look (Some ?t) ++ map_of (rev kvs)"
    using num_run_look [OF assms(1) _ t(2), of kvs] num_inv_alloc(1) t assms by simp
  then have look: "num_look ?r = map_of (rev kvs)" using t num_inv_alloc(2) by simp
  obtain f w u where r: "treeNumFind ?r key = (f, w, u)" by (cases "treeNumFind ?r key")
  show ?thesis using treeNumFind_law [OF inv assms(4) r] r look by (auto split: option.splits)
qed

theorem numeric_tree_finds_last_set_witness:
  "fst (snd (treeNumFind (num_run env0 [(5, 1), (261, 2), (5, 3)] (treeAlloc NUMERIC_TREE)) 5)) = 3"
  using numeric_tree_finds_last_set [of env0 "[(5, 1), (261, 2), (5, 3)]" 5]
  by (simp add: env0_def int32_range_def)

text \<open>
  The numeric tree never branches: in every tree that \<open>treeNumAddOrSet\<close> builds, links 1
  to 3 of every node stay empty and all nodes below a root agree in their low eight bits, so
  a bucket of \<open>n\<close> keys is a list of length \<open>n\<close>.
\<close>

theorem numeric_tree_is_a_list:
  assumes "\<forall>(k, v) \<in> set kvs. int32_range k"
  shows "num_chain (num_run E kvs (treeAlloc NUMERIC_TREE))"
proof -
  have "num_chain (treeAlloc NUMERIC_TREE)" by (simp add: treeAlloc_def num_chain_def)
  from num_run_inv [OF num_inv_alloc(1) this assms] show ?thesis by blast
qed

theorem numeric_tree_is_a_list_witness:
  "num_chain (num_run env0 [(5, 1), (261, 2), (517, 3)] (treeAlloc NUMERIC_TREE))"
  by (rule numeric_tree_is_a_list) (simp add: int32_range_def)

text \<open>
  C22. Looking a string up after \<open>treeAdd\<close>: in a well-formed string tree with room for one
  more node, adding a string of at most 1023 bytes returns without overflowing the buffer;
  a new string is then found with its value and every other string as before, and a
  known string is refused unless its value is the same.
\<close>

theorem string_tree_add_find:
  assumes "str_good t" and "0 \<notin> set s" and "length s \<le> 1023"
    and "\<And>n. env_alloc E n" and "t_eend t < 65536" and "0 \<notin> set s'"
  shows "\<exists>rc t'. treeAdd E (Some t) s v = Some (rc, Some t') \<and> str_good t'
     \<and> (rc = OK \<longleftrightarrow> (fst (treeFind (Some t) s) \<longrightarrow> fst (snd (treeFind (Some t) s)) = v))
     \<and> fst (treeFind (Some t') s') = (s' = s \<or> fst (treeFind (Some t) s'))
     \<and> (rc = OK \<longrightarrow> fst (snd (treeFind (Some t') s)) = v)
     \<and> (s' \<noteq> s \<longrightarrow> fst (snd (treeFind (Some t') s')) = fst (snd (treeFind (Some t) s')))"
proof -
  obtain rc t' where r: "treeAdd E (Some t) s v = Some (rc, Some t')" "str_good t'"
    and fresh: "str_look t s = None \<Longrightarrow> rc = OK \<and> (\<forall>s'. 0 \<notin> set s' \<longrightarrow> str_look t' s' = ((str_look t)(s \<mapsto> v)) s')"
    and known: "\<And>w. str_look t s = Some w \<Longrightarrow> rc = (if w = v then OK else ERROR) \<and> str_look t' = str_look t"
    by (rule treeAdd_law [OF assms(1-5), of v]) (rule that; assumption)
  have find: "fst (treeFind (Some u) x) = (str_look u x \<noteq> None)"
    "fst (snd (treeFind (Some u) x)) = (case str_look u x of None \<Rightarrow> 0 | Some v \<Rightarrow> v)"
    if "str_good u" for u x
    using str_find_good [OF that, of x] by (metis fst_conv, metis fst_conv snd_conv)
  note ft = find [OF assms(1)] and ft' = find [OF r(2)]
  show ?thesis
  proof (cases "str_look t s")
    case None
    have "str_look t' y = ((str_look t)(s \<mapsto> v)) y" if "0 \<notin> set y" for y
      using fresh [OF None] that by blast
    with None fresh [OF None] r assms(2,6) show ?thesis
      by (intro exI [of _ rc] exI [of _ t']) (simp add: ft ft')
  next
    case (Some w)
    with known [OF Some] r show ?thesis
      by (intro exI [of _ rc] exI [of _ t']) (auto simp: ft ft')
  qed
qed

lemma str_good_alloc: "str_good (the (treeAlloc 0))"
  by (auto simp: treeAlloc_def str_good_def wf_tree_def links_up_def to_schar_def)

theorem string_tree_add_find_witness:
  "\<exists>rc t'. treeAdd env0 (treeAlloc 0) [65, 66] 7 = Some (rc, Some t') \<and> fst (treeFind (Some t') [65, 66])"
proof -
  have "treeAlloc 0 = Some (the (treeAlloc 0))" by (simp add: treeAlloc_def)
  moreover have "t_eend (the (treeAlloc 0)) < 65536" by (simp add: treeAlloc_def)
  ultimately show ?thesis
    using string_tree_add_find [OF str_good_alloc, of "[65, 66]" env0 "[65, 66]" 7]
    by (fastforce simp: env0_def)
qed

text \<open>
  The string buffer grows by one step only: on a new string tree, \<open>treeAdd\<close> of a string
  writes past the end of its buffer exactly when the string has 1024 bytes or more.
\<close>

theorem string_tree_overflow:
  assumes "env_alloc E 1024"
  shows "treeAdd E (treeAlloc 0) s v = None \<longleftrightarrow> 1024 \<le> length s"
proof -
  obtain t where t: "treeAlloc 0 = Some t" and flds: "\<not> t_bad t" "\<not> is_numeric t" "t_send t = 0"
      "t_sbuf t = []" "t_root t = replicate 256 0" "t_eend t = 1"
    by (simp add: treeAlloc_def to_schar_def)
  have f: "treeFind (Some t) s = (False, 0, Some (note_level 0 t))"
    using flds by (simp add: treeFind_def)
  show ?thesis
    unfolding t treeAdd_def using f flds assms
    by (auto simp: grow_sbuf_def Let_def split: option.splits prod.splits)
qed

theorem string_tree_overflow_witness:
  "treeAdd env0 (treeAlloc 0) (replicate 1024 65) 7 = None"
  using string_tree_overflow [of env0 "replicate 1024 65" 7] by (simp add: env0_def)

section \<open>Both trees as dictionaries\<close>

text \<open>
  What the hub relies on: while memory lasts and fewer than 65535 keys are stored, a tree is
  a finite map with lookup and insertion of new keys. \<open>holds n t m\<close>: tree \<open>t\<close> stands for the
  map \<open>m\<close> and has room as after \<open>n\<close> insertions.
\<close>

locale dictionary =
  fixes find :: "'t \<Rightarrow> 'k \<Rightarrow> bool \<times> int \<times> 't"
    and add :: "'t \<Rightarrow> 'k \<Rightarrow> int \<Rightarrow> (oret \<times> 't) option"
    and holds :: "nat \<Rightarrow> 't \<Rightarrow> ('k \<Rightarrow> int option) \<Rightarrow> bool"
    and key_ok :: "'k \<Rightarrow> bool"
    and mem :: bool
  assumes find_law: "holds n t m \<Longrightarrow> key_ok k \<Longrightarrow>
      \<exists>t'. find t k = (m k \<noteq> None, (case m k of None \<Rightarrow> 0 | Some v \<Rightarrow> v), t') \<and> holds n t' m"
    and add_law: "holds n t m \<Longrightarrow> key_ok k \<Longrightarrow> m k = None \<Longrightarrow> n < 65535 \<Longrightarrow> mem \<Longrightarrow>
      \<exists>t'. add t k v = Some (OK, t') \<and> holds (Suc n) t' (m(k \<mapsto> v))"
begin

lemma find_Some: "holds n t m \<Longrightarrow> key_ok k \<Longrightarrow> m k = Some v \<Longrightarrow> \<exists>t'. find t k = (True, v, t') \<and> holds n t' m"
  using find_law [of n t m k] by simp

lemma find_None: "holds n t m \<Longrightarrow> key_ok k \<Longrightarrow> m k = None \<Longrightarrow> \<exists>t'. find t k = (False, 0, t') \<and> holds n t' m"
  using find_law [of n t m k] by simp

lemma find_after_add:
  assumes "holds n t m" and "key_ok k" and "m k = None" and "n < 65535" and "mem" and "add t k v = Some (rc, t')"
  shows "rc = OK" and "\<exists>t''. find t' k = (True, v, t'') \<and> holds (Suc n) t'' (m(k \<mapsto> v))"
proof -
  obtain t1 where "add t k v = Some (OK, t1)" "holds (Suc n) t1 (m(k \<mapsto> v))"
    using add_law [OF assms(1-5)] by blast
  then have h: "rc = OK" "holds (Suc n) t' (m(k \<mapsto> v))" using assms(6) by simp_all
  show "rc = OK" by (rule h)
  show "\<exists>t''. find t' k = (True, v, t'') \<and> holds (Suc n) t'' (m(k \<mapsto> v))"
    by (rule find_Some [OF h(2) assms(2)]) simp
qed

end

definition num_holds :: "nat \<Rightarrow> tree_t \<Rightarrow> (int \<Rightarrow> int option) \<Rightarrow> bool" where
  "num_holds n tp m \<longleftrightarrow> (\<exists>t. tp = Some t \<and> num_good t \<and> t_eend t \<le> Suc n \<and> (\<forall>k. int32_range k \<longrightarrow> num_look tp k = m k))"

definition str_holds :: "nat \<Rightarrow> tree_t \<Rightarrow> (bytes \<Rightarrow> int option) \<Rightarrow> bool" where
  "str_holds n tp m \<longleftrightarrow> (\<exists>t. tp = Some t \<and> str_good t \<and> t_eend t \<le> Suc n \<and> (\<forall>s. 0 \<notin> set s \<longrightarrow> str_look t s = m s))"

definition str_key :: "bytes \<Rightarrow> bool" where
  "str_key s \<longleftrightarrow> 0 \<notin> set s \<and> length s \<le> 1023"

lemma str_find_law:
  assumes "str_holds n tp m" and "0 \<notin> set s"
  shows "\<exists>tp'. treeFind tp s = (m s \<noteq> None, (case m s of None \<Rightarrow> 0 | Some v \<Rightarrow> v), tp') \<and> str_holds n tp' m"
proof -
  obtain t where t: "tp = Some t" "str_good t" "t_eend t \<le> Suc n" "\<forall>s. 0 \<notin> set s \<longrightarrow> str_look t s = m s"
    using assms(1) by (auto simp: str_holds_def)
  obtain lev where f: "treeFind (Some t) s = (str_look t s \<noteq> None, (case str_look t s of None \<Rightarrow> 0 | Some v \<Rightarrow> v),
      Some (note_level lev t))"
    using str_find_good [OF t(2)] .
  have "str_good (note_level lev t)" "str_look (note_level lev t) = str_look t" "t_eend (note_level lev t) = t_eend t"
    using t(2) by simp_all
  then show ?thesis using f t assms(2) by (auto simp: str_holds_def)
qed

lemma treeAdd_eend:
  assumes "treeAdd E (Some t) s v = Some (rc, Some t')"
  shows "t_eend t' \<le> Suc (t_eend t)"
proof (cases "t_bad t \<or> is_numeric t")
  case True
  then show ?thesis using assms by (auto simp: treeAdd_def)
next
  case False
  obtain f i tp1 where f: "treeFind (Some t) s = (f, i, tp1)" by (metis prod_cases3)
  then obtain t1 where t1: "tp1 = Some t1" "t_eend t1 = t_eend t"
    using False by (auto simp: treeFind_def split: option.splits if_splits)
  have b: "treeBranchInsert u k = (r, u') \<Longrightarrow> t_eend u' = t_eend u" for u k r u'
    using branch_insert_fields by blast
  have g: "grow_sbuf E l u = Some u' \<Longrightarrow> t_eend u' = t_eend u" for l u u'
    by (auto simp: grow_sbuf_def Let_def split: if_splits)
  have n: "grow_nodes E u = Some u' \<Longrightarrow> t_eend u' = t_eend u" for u u'
    using grow_nodes_fields by blast
  show ?thesis using assms f t1 False
    by (auto simp: treeAdd_def Let_def set_node_def split: if_splits option.splits prod.splits dest!: b g n)
qed

lemma str_add_law:
  assumes "str_holds n tp m" and "str_key s" and "m s = None" and "n < 65535" and "\<And>n. env_alloc E n"
  shows "\<exists>tp'. treeAdd E tp s v = Some (OK, tp') \<and> str_holds (Suc n) tp' (m(s \<mapsto> v))"
proof -
  obtain t where t: "tp = Some t" "str_good t" "t_eend t \<le> Suc n" "\<forall>s. 0 \<notin> set s \<longrightarrow> str_look t s = m s"
    using assms(1) by (auto simp: str_holds_def)
  have e: "t_eend t < 65536" using t assms(4) by simp
  have s: "0 \<notin> set s" "length s \<le> 1023" using assms(2) by (auto simp: str_key_def)
  obtain rc t' where r: "treeAdd E (Some t) s v = Some (rc, Some t')" "str_good t'"
    "str_look t s = None \<Longrightarrow> rc = OK \<and> (\<forall>s'. 0 \<notin> set s' \<longrightarrow> str_look t' s' = ((str_look t)(s \<mapsto> v)) s')"
    using treeAdd_law [OF t(2) s assms(5) e, of v] by metis
  then show ?thesis using t assms(3) s treeAdd_eend [OF r(1)]
    by (intro exI [of _ "Some t'"]) (auto simp: str_holds_def)
qed

interpretation str_dict: dictionary treeFind "treeAdd E" str_holds str_key "\<forall>n. env_alloc E n" for E :: env
proof (unfold_locales, goal_cases)
  case (1 n t m k)
  then show ?case using str_find_law by (simp add: str_key_def)
next
  case (2 n t m k v)
  then show ?case using str_add_law by blast
qed

lemma num_find_holds:
  assumes "num_holds n tp m" and "int32_range k"
  shows "\<exists>tp'. treeNumFind tp k = (m k \<noteq> None, (case m k of None \<Rightarrow> 0 | Some v \<Rightarrow> v), tp') \<and> num_holds n tp' m"
proof -
  obtain t where t: "tp = Some t" "num_good t" "t_eend t \<le> Suc n" "\<forall>k. int32_range k \<longrightarrow> num_look tp k = m k"
    using assms(1) by (auto simp: num_holds_def)
  have nb: "\<not> t_bad t" using t(2) by (simp add: num_good_def)
  obtain lev where f: "treeNumFindInternal (Some t) k None = (num_node t k \<noteq> 0,
      (if num_node t k = 0 then 0 else tn_val (t_earr t ! num_node t k)), Some (note_level lev t))"
    using num_find_good [OF t(2) assms(2), of None] by auto
  have "m k = (if num_node t k = 0 then None else Some (tn_val (t_earr t ! num_node t k)))"
    using t assms(2) nb by (auto simp: num_look_def)
  moreover have "num_holds n (Some (note_level lev t)) m"
    using t by (auto simp: num_holds_def)
  ultimately show ?thesis using f t(1) by (simp add: treeNumFind_def)
qed

lemma treeNumFind_miss:
  assumes "treeNumFindInternal tp k None = (False, i, tp')"
  shows "treeNumFindInternal tp k (Some v) = (False, i, tp')"
proof (cases tp)
  case None
  then show ?thesis using assms by (simp add: treeNumFindInternal_def)
next
  case (Some t)
  show ?thesis
  proof (cases "tree_walk (num_cmp k) (t_earr t) (t_eend t) 0 (t_root t ! num_root k) 0")
    case None
    then show ?thesis using assms Some by (auto simp: treeNumFindInternal_def split: if_splits)
  next
    case w: (Some r)
    obtain a b c where "r = (a, b, c)" by (metis prod_cases3)
    then show ?thesis using assms Some w by (auto simp: treeNumFindInternal_def Let_def split: if_splits)
  qed
qed

lemma treeNumAdd_fresh:
  assumes "num_good t" and "int32_range k" and "num_node t k = 0"
  shows "treeNumAdd E (Some t) k v = treeNumAddOrSet E (Some t) k v"
proof -
  obtain lev where f: "treeNumFindInternal (Some t) k None = (False, 0, Some (note_level lev t))"
    using num_find_good [OF assms(1,2), of None] assms(3) by auto
  show ?thesis
    unfolding treeNumAdd_def treeNumAddOrSet_def treeNumAddInternal_def
    using f treeNumFind_miss [OF f, of v] by simp
qed

lemma num_add_law:
  assumes "num_holds n tp m" and "int32_range k" and "m k = None" and "n < 65535" and mem: "\<And>n. env_alloc E n"
  shows "\<exists>tp'. treeNumAdd E tp k v = (OK, tp') \<and> num_holds (Suc n) tp' (m(k \<mapsto> v))"
proof -
  obtain t where t: "tp = Some t" "num_good t" "t_eend t \<le> Suc n" "\<forall>k. int32_range k \<longrightarrow> num_look tp k = m k"
    using assms(1) by (auto simp: num_holds_def)
  have nb: "\<not> t_bad t" "is_numeric t" using t(2) by (simp_all add: num_good_def)
  have l: "num_look tp k = None" using t assms(2,3) by simp
  then have "num_node t k = 0" using t(1) nb assms(2) by (simp add: num_look_def split: if_splits)
  note eq = treeNumAdd_fresh [OF t(2) assms(2) this, of E v]
  obtain t' where t': "snd (treeNumAddOrSet E tp k v) = Some t'" "\<not> t_bad t'" "t_eend t' \<le> t_eend t + 1"
    using num_add_room [OF t(1) nb(1) mem] by blast
  obtain rc where r: "treeNumAddOrSet E tp k v = (rc, Some t')" using t'(1) by (metis prod.collapse)
  have inv: "num_inv tp" using num_good_inv [OF t(2)] t(1) by simp
  have "num_room E tp" using t nb mem assms(4) by (simp add: num_room_def grow_nodes_def Let_def)
  then have "rc = OK" "num_look (Some t') = (num_look tp)(k \<mapsto> v)" "num_inv (Some t')"
    using treeNumAddOrSet_law [OF inv assms(2) r] by auto
  moreover from this have "num_good t'" using t'(2) by (auto simp: num_inv_def)
  ultimately show ?thesis using eq r t t'(3)
    by (intro exI [of _ "Some t'"]) (auto simp: num_holds_def)
qed

interpretation num_dict: dictionary treeNumFind "\<lambda>t k v. Some (treeNumAdd E t k v)" num_holds int32_range
    "\<forall>n. env_alloc E n" for E :: env
proof (unfold_locales, goal_cases)
  case (1 n t m k)
  then show ?case by (rule num_find_holds)
next
  case (2 n t m k v)
  then show ?case using num_add_law by (metis option.inject)
qed

lemma holds_alloc: "num_holds 0 (treeAlloc NUMERIC_TREE) Map.empty" "str_holds 0 (treeAlloc 0) Map.empty"
proof -
  obtain t where t: "treeAlloc NUMERIC_TREE = Some t" "\<not> t_bad t" "t_eend t = 1" by (simp add: treeAlloc_def)
  then have "num_good t" using num_inv_alloc(1) by (auto simp: num_inv_def)
  then show "num_holds 0 (treeAlloc NUMERIC_TREE) Map.empty"
    using t num_inv_alloc(2) by (auto simp: num_holds_def)
  obtain u where u: "treeAlloc 0 = Some u" "t_eend u = 1" "t_root u = replicate 256 0" by (simp add: treeAlloc_def)
  have "str_node u s = 0" for s
    using u str_root_less [of s] by (simp add: str_node_def find_node_def)
  then show "str_holds 0 (treeAlloc 0) Map.empty"
    using u str_good_alloc by (auto simp: str_holds_def str_look_def)
qed

end
