(* ===== verification/Wire.thy ===== *)
theory Wire
  imports Prelude
begin

text \<open>
  The wire format: the constants of include/optikus/lang.h, the byte order macros of
  include/optikus/conf-net.h, 16 and 32 bit loads and stores of the little-endian target,
  the packet frame that hub-watch.c and hub-subj.c build and parse, and \<open>ohubRotate\<close> of
  hub-util.c.
\<close>

section \<open>Constants\<close>

definition OLANG_VERSION :: int where "OLANG_VERSION = 0x0102"
definition OLANG_MAGIC :: u32 where "OLANG_MAGIC = 0x4F4E5750"

definition OLANG_MAX_PACKET :: int where "OLANG_MAX_PACKET = 8192"
definition OLANG_SMALL_PACKET :: int where "OLANG_SMALL_PACKET = 800"
definition OLANG_HEAD_LEN :: nat where "OLANG_HEAD_LEN = 6"
definition OLANG_TAIL_LEN :: nat where "OLANG_TAIL_LEN = 2"
definition OLANG_MAX_MSG_KLASS :: int where "OLANG_MAX_MSG_KLASS = 32767"
definition OLANG_MAX_MSG_TYPE :: int where "OLANG_MAX_MSG_TYPE = 32767"

definition OLANG_SUBJ_PORT :: int where "OLANG_SUBJ_PORT = 3215"

definition OLANG_DATA :: int where "OLANG_DATA = 1"
definition OLANG_COMMAND :: int where "OLANG_COMMAND = 2"
definition OLANG_CONTROL :: int where "OLANG_CONTROL = 3"

definition OLANG_DEAD_MS :: int where "OLANG_DEAD_MS = 40000"
definition OLANG_ALIVE_MS :: int where "OLANG_ALIVE_MS = 8000"
definition OLANG_STAT_MS :: int where "OLANG_STAT_MS = 10000"
definition OLANG_PING_MIN_MS :: int where "OLANG_PING_MIN_MS = 64"
definition OLANG_PING_MAX_MS :: int where "OLANG_PING_MAX_MS = 10000"

definition OLANG_ERR_OK :: u16 where "OLANG_ERR_OK = 0x0000"
definition OLANG_ERR_RCVR_OFF :: u16 where "OLANG_ERR_RCVR_OFF = 0xf001"
definition OLANG_ERR_RCVR_FULL :: u16 where "OLANG_ERR_RCVR_FULL = 0xf002"
definition OLANG_ERR_RCVR_DOWN :: u16 where "OLANG_ERR_RCVR_DOWN = 0xf003"

definition OLANG_PING_REQ :: int where "OLANG_PING_REQ = 0x2001"
definition OLANG_PING_ACK :: int where "OLANG_PING_ACK = 0x2002"
definition OLANG_PING_NAK :: int where "OLANG_PING_NAK = 0x2003"
definition OLANG_CONN_REQ :: int where "OLANG_CONN_REQ = 0x2004"
definition OLANG_CONN_ACK :: int where "OLANG_CONN_ACK = 0x2005"
definition OLANG_CONN_NAK :: int where "OLANG_CONN_NAK = 0x2006"
definition OLANG_ALIVE :: int where "OLANG_ALIVE = 0x2007"
definition OLANG_SUBJECTS :: int where "OLANG_SUBJECTS = 0x2008"
definition OLANG_SEGMENTS :: int where "OLANG_SEGMENTS = 0x200b"
definition OLANG_INFO_BY_DESC_REQ :: int where "OLANG_INFO_BY_DESC_REQ = 0x200c"
definition OLANG_INFO_BY_OOID_REQ :: int where "OLANG_INFO_BY_OOID_REQ = 0x200d"
definition OLANG_INFO_BY_ANY_REPLY :: int where "OLANG_INFO_BY_ANY_REPLY = 0x200e"
definition OLANG_MON_REG_REQ :: int where "OLANG_MON_REG_REQ = 0x200f"
definition OLANG_MON_REG_ACK :: int where "OLANG_MON_REG_ACK = 0x2010"
definition OLANG_MON_REG_NAK :: int where "OLANG_MON_REG_NAK = 0x2011"
definition OLANG_MON_UNREG_REQ :: int where "OLANG_MON_UNREG_REQ = 0x2012"
definition OLANG_MON_UNREG_ACK :: int where "OLANG_MON_UNREG_ACK = 0x2013"
definition OLANG_MON_UNREG_NAK :: int where "OLANG_MON_UNREG_NAK = 0x2014"
definition OLANG_MONITORING :: int where "OLANG_MONITORING = 0x2015"
definition OLANG_DATA_REG_REQ :: int where "OLANG_DATA_REG_REQ = 0x2016"
definition OLANG_DATA_REG_ACK :: int where "OLANG_DATA_REG_ACK = 0x2017"
definition OLANG_DATA_REG_NAK :: int where "OLANG_DATA_REG_NAK = 0x2018"
definition OLANG_DATA_UNREG_REQ :: int where "OLANG_DATA_UNREG_REQ = 0x2019"
definition OLANG_DATA_UNREG_ACK :: int where "OLANG_DATA_UNREG_ACK = 0x201a"
definition OLANG_DATA_UNREG_NAK :: int where "OLANG_DATA_UNREG_NAK = 0x201b"
definition OLANG_OOID_WRITE_REQ :: int where "OLANG_OOID_WRITE_REQ = 0x201c"
definition OLANG_OOID_WRITE_REPLY :: int where "OLANG_OOID_WRITE_REPLY = 0x201d"
definition OLANG_DATA_WRITE_REQ :: int where "OLANG_DATA_WRITE_REQ = 0x201e"
definition OLANG_DATA_WRITE_REPLY :: int where "OLANG_DATA_WRITE_REPLY = 0x201f"
definition OLANG_OOID_READ_REQ :: int where "OLANG_OOID_READ_REQ = 0x2020"
definition OLANG_OOID_READ_REPLY :: int where "OLANG_OOID_READ_REPLY = 0x2021"
definition OLANG_DATA_READ_REQ :: int where "OLANG_DATA_READ_REQ = 0x2022"
definition OLANG_DATA_READ_REPLY :: int where "OLANG_DATA_READ_REPLY = 0x2023"
definition OLANG_TRIGGER_REQUEST :: int where "OLANG_TRIGGER_REQUEST = 0x2024"
definition OLANG_TRIGGER_REPLY :: int where "OLANG_TRIGGER_REPLY = 0x2025"
definition OLANG_BLOCK_ANNOUNCE :: int where "OLANG_BLOCK_ANNOUNCE = 0x2026"
definition OLANG_MON_GROUP_REQ :: int where "OLANG_MON_GROUP_REQ = 0x2028"
definition OLANG_MON_GROUP_REPLY :: int where "OLANG_MON_GROUP_REPLY = 0x2029"
definition OLANG_MON_COMBO_REQ :: int where "OLANG_MON_COMBO_REQ = 0x202a"
definition OLANG_MON_COMBO_REPLY :: int where "OLANG_MON_COMBO_REPLY = 0x202b"
definition OLANG_DATA_MON_REPLY :: int where "OLANG_DATA_MON_REPLY = 0x202c"
definition OLANG_DGROUP_UNREG_REQ :: int where "OLANG_DGROUP_UNREG_REQ = 0x202d"
definition OLANG_MSG_SEND_REQ :: int where "OLANG_MSG_SEND_REQ = 0x202e"
definition OLANG_MSG_SEND_REPLY :: int where "OLANG_MSG_SEND_REPLY = 0x202f"
definition OLANG_MSG_RECV :: int where "OLANG_MSG_RECV = 0x2030"
definition OLANG_MSG_HIMARK :: int where "OLANG_MSG_HIMARK = 0x2031"
definition OLANG_MSG_LOMARK :: int where "OLANG_MSG_LOMARK = 0x2032"
definition OLANG_MSG_CLASS_ACT :: int where "OLANG_MSG_CLASS_ACT = 0x2033"
definition OLANG_REMOTE_LOG :: int where "OLANG_REMOTE_LOG = 0x2034"
definition OLANG_SEL_MONITORING :: int where "OLANG_SEL_MONITORING = 0xEEEE"

lemmas olang_kinds = OLANG_DATA_def OLANG_COMMAND_def OLANG_CONTROL_def

section \<open>Byte order\<close>

text \<open>
  \<open>OROTS\<close> and \<open>OROTL\<close> swap the bytes of a 16 and of a 32 bit value. On the little-endian
  target \<open>OHTONS\<close>, \<open>ONTOHS\<close>, \<open>OHTONL\<close> and \<open>ONTOHL\<close> are these swaps.
\<close>

definition OROTS :: "u16 \<Rightarrow> u16" where
  "OROTS x = push_bit 8 (x AND 0xff) OR (drop_bit 8 x AND 0xff)"

definition OROTL :: "u32 \<Rightarrow> u32" where
  "OROTL x = push_bit 24 (x AND 0xff) OR push_bit 16 (drop_bit 8 x AND 0xff)
     OR push_bit 8 (drop_bit 16 x AND 0xff) OR (drop_bit 24 x AND 0xff)"

definition OHTONS :: "int \<Rightarrow> u16" where "OHTONS x = OROTS (word_of_int x)"
definition OHTONL :: "u32 \<Rightarrow> u32" where "OHTONL x = OROTL x"
definition OUNTOHS :: "u16 \<Rightarrow> int" where "OUNTOHS x = uint (OROTS x)"
definition ONTOHS :: "u16 \<Rightarrow> int" where "ONTOHS x = sint (OROTS x)"
definition ONTOHL :: "u32 \<Rightarrow> int" where "ONTOHL x = sint (OROTL x)"
definition OUNTOHL :: "u32 \<Rightarrow> u32" where "OUNTOHL x = OROTL x"

lemma and_byte_mask: "x AND 0xff = take_bit 8 (x :: 'a :: len word)"
  by (simp add: take_bit_eq_mask mask_eq_exp_minus_1)

lemma OROTS_OROTS [simp]: "OROTS (OROTS x) = x"
  unfolding OROTS_def and_byte_mask by (rule bit_word_eqI) (auto simp: bit_simps)

lemma byte_lane:
  assumes "n < 32"
  obtains k :: nat where "k < 8" "n = k \<or> n = k + 8 \<or> n = k + 16 \<or> n = k + 24"
proof
  show "n mod 8 < 8" by simp
  show "n = n mod 8 \<or> n = n mod 8 + 8 \<or> n = n mod 8 + 16 \<or> n = n mod 8 + 24"
    using assms by presburger
qed

lemma bit_OROTL:
  "bit (OROTL x) n \<longleftrightarrow> (if n < 8 then bit x (n + 24) else if n < 16 then bit x (n + 8)
     else if n < 24 then bit x (n - 8) else n < 32 \<and> bit x (n - 24))"
proof (cases "n < 32")
  case True
  then obtain k :: nat where "k < 8" "n = k \<or> n = k + 8 \<or> n = k + 16 \<or> n = k + 24" by (rule byte_lane)
  then show ?thesis unfolding OROTL_def and_byte_mask by (elim disjE) (simp_all add: bit_simps add.commute)
next
  case False
  then show ?thesis unfolding OROTL_def and_byte_mask by (simp add: bit_simps)
qed

lemma OROTL_OROTL [simp]: "OROTL (OROTL x) = x"
proof (rule bit_word_eqI)
  fix n assume "n < LENGTH(32)"
  then obtain k :: nat where "k < 8" "n = k \<or> n = k + 8 \<or> n = k + 16 \<or> n = k + 24"
    using byte_lane [of n] by auto
  then show "bit (OROTL (OROTL x)) n \<longleftrightarrow> bit x n" by (elim disjE) (simp_all add: bit_OROTL add.commute)
qed

section \<open>Loads and stores\<close>

text \<open>\<open>*(ushort_t *) p = x\<close> and \<open>*(ulong_t *) p = x\<close> on the little-endian target, and the loads.\<close>

definition st16 :: "u16 \<Rightarrow> bytes" where
  "st16 x = [ucast x, ucast (drop_bit 8 x)]"

definition st32 :: "u32 \<Rightarrow> bytes" where
  "st32 x = [ucast x, ucast (drop_bit 8 x), ucast (drop_bit 16 x), ucast (drop_bit 24 x)]"

definition mk16 :: "byte \<Rightarrow> byte \<Rightarrow> u16" where
  "mk16 a b = ucast a OR push_bit 8 (ucast b)"

definition mk32 :: "byte \<Rightarrow> byte \<Rightarrow> byte \<Rightarrow> byte \<Rightarrow> u32" where
  "mk32 a b c d = ucast a OR push_bit 8 (ucast b) OR push_bit 16 (ucast c) OR push_bit 24 (ucast d)"

definition ld16 :: "env \<Rightarrow> bytes \<Rightarrow> nat \<Rightarrow> u16" where
  "ld16 E buf off = mk16 (rd E buf off) (rd E buf (off + 1))"

definition ld32 :: "env \<Rightarrow> bytes \<Rightarrow> nat \<Rightarrow> u32" where
  "ld32 E buf off = mk32 (rd E buf off) (rd E buf (off + 1)) (rd E buf (off + 2)) (rd E buf (off + 3))"

lemma length_st16 [simp]: "length (st16 x) = 2" by (simp add: st16_def)
lemma length_st32 [simp]: "length (st32 x) = 4" by (simp add: st32_def)

lemma mk16_st16: "mk16 (ucast x) (ucast (drop_bit 8 (x :: u16))) = x"
  unfolding mk16_def by (rule bit_word_eqI) (auto simp: bit_simps)

lemma mk32_st32: "mk32 (ucast x) (ucast (drop_bit 8 (x :: u32))) (ucast (drop_bit 16 x)) (ucast (drop_bit 24 x)) = x"
proof (rule bit_word_eqI)
  fix n assume "n < LENGTH(32)"
  then obtain k :: nat where "k < 8" "n = k \<or> n = k + 8 \<or> n = k + 16 \<or> n = k + 24"
    using byte_lane [of n] by auto
  then show "bit (mk32 (ucast x) (ucast (drop_bit 8 x)) (ucast (drop_bit 16 x)) (ucast (drop_bit 24 x))) n
      \<longleftrightarrow> bit x n"
    unfolding mk32_def by (elim disjE) (simp_all add: bit_simps add.commute)
qed

lemma ld16_st16 [simp]:
  "off = length xs \<Longrightarrow> ld16 E (xs @ st16 x @ ys) off = x"
  by (simp add: ld16_def st16_def nth_append mk16_st16)

lemma ld32_st32 [simp]:
  "off = length xs \<Longrightarrow> ld32 E (xs @ st32 x @ ys) off = x"
  by (simp add: ld32_def st32_def nth_append mk32_st32)

section \<open>The packet frame\<close>

text \<open>
  The layout shared by \<open>ohubWatchPokeStream\<close>, \<open>ohubSubjPokeStream\<close> and the datagram branch
  of the two \<open>SendPacket\<close>s: length, type and identifier in network order, the data, padding
  to an even total, and the check sum, which is 0 because \<open>OLANG_USE_CHECKSUMS\<close> is 0. The
  padding byte is 0 in an \<open>oxnew\<close> buffer and uninitialised in the 16 byte stack buffer.
\<close>

definition ohubWatchCheckSum :: "bytes \<Rightarrow> int \<Rightarrow> u16" where
  "ohubWatchCheckSum buf nbytes = 0"

definition ohubSubjCheckSum :: "bytes \<Rightarrow> int \<Rightarrow> u16" where
  "ohubSubjCheckSum buf nbytes = 0"

definition frame_len :: "nat \<Rightarrow> nat" where
  "frame_len len = (let blen = len + OLANG_HEAD_LEN + OLANG_TAIL_LEN in
     if odd blen then blen + 1 else blen)"

definition frame :: "u16 \<Rightarrow> int \<Rightarrow> bytes \<Rightarrow> byte \<Rightarrow> bytes" where
  "frame wid ty data pad =
     st16 (OHTONS (int (length data))) @ st16 (OHTONS ty) @ st16 (OROTS wid) @ data
     @ (if odd (length data) then [pad] else []) @ st16 (OHTONS (uint (ohubWatchCheckSum data 0)))"

lemma length_frame [simp]: "length (frame wid ty data pad) = frame_len (length data)"
  by (simp add: frame_def frame_len_def OLANG_HEAD_LEN_def OLANG_TAIL_LEN_def)

lemma frame_len_ge: "8 \<le> frame_len n" "n < frame_len n"
  by (simp_all add: frame_len_def OLANG_HEAD_LEN_def OLANG_TAIL_LEN_def Let_def)

lemma frame_len_even: "even (frame_len n)"
  by (simp add: frame_len_def OLANG_HEAD_LEN_def OLANG_TAIL_LEN_def Let_def)

lemma OHTONS_back: "0 \<le> x \<Longrightarrow> x < 65536 \<Longrightarrow> OUNTOHS (OHTONS x) = x"
  by (simp add: OUNTOHS_def OHTONS_def take_bit_int_eq_self_iff uint_word_of_int)

section \<open>Rotation of values\<close>

text \<open>
  \<open>ohubRotate\<close> of hub-util.c reverses a scalar of 2, 4, 8 or 16 bytes in place when the peer
  has the other byte order. The buffer argument is what the C pointer points at.
\<close>

definition U8ROT :: "nat \<Rightarrow> nat \<Rightarrow> bytes \<Rightarrow> bytes" where
  "U8ROT a b buf = buf[a := buf ! b, b := buf ! a]"

definition ohubRotate :: "bool \<Rightarrow> byte \<Rightarrow> int \<Rightarrow> bytes \<Rightarrow> oret \<times> bytes" where
  "ohubRotate enable type len buf =
     (if \<not> enable \<or> type = 115 \<or> len = 1 then (OK, buf)
      else if len = 2 then (OK, U8ROT 0 1 buf)
      else if len = 4 then (OK, U8ROT 1 2 (U8ROT 0 3 buf))
      else if len = 8 then (OK, U8ROT 3 4 (U8ROT 2 5 (U8ROT 1 6 (U8ROT 0 7 buf))))
      else if len = 16 then
        (OK, U8ROT 7 8 (U8ROT 6 9 (U8ROT 5 10 (U8ROT 4 11
               (U8ROT 3 12 (U8ROT 2 13 (U8ROT 1 14 (U8ROT 0 15 buf))))))))
      else (OK, buf))"

lemma length_U8ROT [simp]: "length (U8ROT a b buf) = length buf"
  by (simp add: U8ROT_def)

lemma length_ohubRotate [simp]: "length (snd (ohubRotate en ty len buf)) = length buf"
  by (simp add: ohubRotate_def)

lemma nth_U8ROT:
  assumes "a < length buf" and "b < length buf" and "a \<noteq> b"
  shows "U8ROT a b buf ! i = (if i = a then buf ! b else if i = b then buf ! a else buf ! i)"
  using assms by (auto simp: U8ROT_def nth_list_update)

text \<open>Byte \<open>i\<close> of a rotated scalar.\<close>

definition rot_index :: "int \<Rightarrow> nat \<Rightarrow> nat" where
  "rot_index len i = (if len \<in> {2, 4, 8, 16} \<and> i < nat len then nat len - 1 - i else i)"

lemma less_cases:
  "i < (2::nat) \<longleftrightarrow> i \<in> {0, 1}"
  "i < (4::nat) \<longleftrightarrow> i \<in> {0, 1, 2, 3}"
  "i < (8::nat) \<longleftrightarrow> i \<in> {0, 1, 2, 3, 4, 5, 6, 7}"
  "i < (16::nat) \<longleftrightarrow> i \<in> {0, 1, 2, 3, 4, 5, 6, 7, 8, 9, 10, 11, 12, 13, 14, 15}"
  by (auto simp: less_Suc_eq numeral_eq_Suc)

lemma nth_ohubRotate:
  assumes "nat len \<le> length buf" and "i < length buf"
  shows "snd (ohubRotate en ty len buf) ! i
    = (if en \<and> ty \<noteq> 115 then buf ! rot_index len i else buf ! i)"
proof -
  consider "len = 2" | "len = 4" | "len = 8" | "len = 16" | "len \<notin> {2, 4, 8, 16}" by blast
  then show ?thesis
  proof cases
    case 4
    have l: "16 \<le> length buf" "buf \<noteq> []" using assms(1) 4 by auto
    show ?thesis using l assms(2)
      by (auto simp: 4 ohubRotate_def rot_index_def nth_U8ROT less_cases)
  next
    case 3
    have l: "8 \<le> length buf" "buf \<noteq> []" using assms(1) 3 by auto
    show ?thesis using l assms(2)
      by (auto simp: 3 ohubRotate_def rot_index_def nth_U8ROT less_cases)
  next
    case 2
    have l: "4 \<le> length buf" "buf \<noteq> []" using assms(1) 2 by auto
    show ?thesis using l assms(2)
      by (auto simp: 2 ohubRotate_def rot_index_def nth_U8ROT less_cases)
  next
    case 1
    have l: "2 \<le> length buf" "buf \<noteq> []" using assms(1) 1 by auto
    show ?thesis using l assms(2)
      by (auto simp: 1 ohubRotate_def rot_index_def nth_U8ROT less_cases)
  next
    case 5
    then show ?thesis by (auto simp: ohubRotate_def rot_index_def)
  qed
qed

section \<open>Properties\<close>

lemma rot_index_rot_index: "rot_index len (rot_index len i) = i"
  by (auto simp: rot_index_def)

lemma rot_index_less: "nat len \<le> n \<Longrightarrow> i < n \<Longrightarrow> rot_index len i < n"
  by (auto simp: rot_index_def)

lemma ohubRotate_back:
  assumes "nat len \<le> length buf"
  shows "snd (ohubRotate en ty len (snd (ohubRotate en ty len buf))) = buf"
proof (rule nth_equalityI)
  fix i assume "i < length (snd (ohubRotate en ty len (snd (ohubRotate en ty len buf))))"
  then show "snd (ohubRotate en ty len (snd (ohubRotate en ty len buf))) ! i = buf ! i"
    using assms by (simp add: nth_ohubRotate rot_index_less rot_index_rot_index)
qed simp

text \<open>
  Turning a scalar twice gives it back: \<open>ohubRotate\<close> with any type, length and enable flag
  is its own inverse on a buffer that holds the scalar, it moves no byte behind the scalar,
  and it exchanges first and last byte of a scalar of 2, 4, 8 or 16 bytes, and so on inwards.
\<close>

theorem rotate_twice:
  assumes "nat len \<le> length buf"
  shows "ohubRotate en ty len (snd (ohubRotate en ty len buf)) = (OK, buf)
    \<and> snd (ohubRotate en ty len buf) =
        (if en \<and> ty \<noteq> 115 \<and> len \<in> {2, 4, 8, 16} then rev (take (nat len) buf) @ drop (nat len) buf else buf)"
proof
  let ?r = "\<lambda>b. snd (ohubRotate en ty len b)"
  have "?r (?r buf) = buf" by (rule ohubRotate_back [OF assms])
  moreover have "fst (ohubRotate en ty len b) = OK" for b by (simp add: ohubRotate_def)
  ultimately show "ohubRotate en ty len (?r buf) = (OK, buf)" by (simp add: prod_eq_iff)
  show "?r buf = (if en \<and> ty \<noteq> 115 \<and> len \<in> {2, 4, 8, 16}
      then rev (take (nat len) buf) @ drop (nat len) buf else buf)" (is "_ = ?s")
  proof (rule nth_equalityI)
    fix i assume "i < length (?r buf)"
    then show "?r buf ! i = ?s ! i"
      using assms by (simp add: nth_ohubRotate rot_index_def nth_append rev_nth)
  qed (use assms in simp)
qed

theorem rotate_twice_witness:
  "ohubRotate True 105 4 (snd (ohubRotate True 105 4 [1, 2, 3, 4, 9])) = (OK, [1, 2, 3, 4, 9])"
  by (rule rotate_twice [THEN conjunct1]) simp

section \<open>The head of a report\<close>

text \<open>
  Agents and the hub report a value under the same head: identifier, type, flags with the
  length, the time if it is used, low byte of a long length.
\<close>

definition report_head :: "bool \<Rightarrow> u32 \<Rightarrow> u32 \<Rightarrow> byte \<Rightarrow> byte \<Rightarrow> nat \<Rightarrow> bytes" where
  "report_head use_time time ooid ty u n =
     (let t = (if use_time then 0x40 else 0 :: byte); tb = (if use_time then st32 (OHTONL time) else [])
      in st32 (OHTONL ooid) @ [ty]
         @ (if n < 0x20 then (of_nat n OR u OR t) # tb
            else (0x20 OR (of_nat (n div 256) AND 0x1f) OR u OR t) # tb @ [of_nat (n mod 256)]))"

end
