(* ===== verification/Peer.thy ===== *)
theory Peer
  imports Wire
begin

text \<open>
  The stream engine of a connection. hub-watch.c (connections to watchers) and hub-subj.c
  (connections to agents) hold the same code twice: a ring buffer of packets to be sent, at
  most one packet that went out in part (\<open>reput_*\<close>), \<open>PokeStream\<close> that writes one packet to
  the socket and \<open>ResendStream\<close> that empties the ring when the socket is writable. The
  record \<open>peer\<close> holds the fields common to \<open>OhubNetWatch_t\<close> and \<open>OhubNetSubj_t\<close>; the two
  structures extend it in theory HubNet.
\<close>

section \<open>Sockets\<close>

text \<open>
  The answers the operating system will give to the \<open>send\<close> calls on a socket, in order:
  some bytes were taken, with the stale \<open>errno\<close> being EPIPE or not; nothing was taken and
  \<open>errno\<close> is EAGAIN or the like; the connection is broken (EPIPE). A socket with no answers
  left takes everything.
\<close>

datatype sendres = Sent nat bool | Again | Pipe

fun sock_send :: "sendres list \<Rightarrow> nat \<Rightarrow> int \<times> bool \<times> sendres list" where
  "sock_send [] blen = (int blen, False, [])"
| "sock_send (Sent k e # r) blen = (int (min k blen), e, r)"
| "sock_send (Again # r) blen = (-1, False, r)"
| "sock_send (Pipe # r) blen = (-1, True, r)"

text \<open>The four connection states, \<open>OHUB_WATCH_*\<close> and \<open>OHUB_SUBJ_*\<close>.\<close>

datatype pstate = ST_NONE | ST_WAIT | ST_OPEN | ST_EXIT

record packet =
  pk_type :: int
  pk_len :: int
  pk_buf :: "bytes option"

definition no_packet :: packet where
  "no_packet = \<lparr>pk_type = 0, pk_len = 0, pk_buf = None\<rparr>"

record sockaddr =
  sin_addr :: u32
  sin_port :: u16

definition no_addr :: sockaddr where
  "no_addr = \<lparr>sin_addr = 0, sin_port = 0\<rparr>"

text \<open>
  A connection. The last four fields are not in the code: the answers of the stream socket
  and of the datagram socket, the bytes the stream socket took and the datagrams sent.
\<close>

record peer =
  p_state :: pstate
  p_id :: u16
  needs_rotor :: bool
  data_sock :: int
  cntl_addr :: sockaddr
  alive_get_wd :: int
  alive_put_wd :: int
  q_buf :: "packet list"
  q_len :: nat
  q_size :: nat
  q_rd :: nat
  q_wr :: nat
  hdr_buf :: bytes
  hdr_off :: int
  reget_type :: int
  reget_len :: int
  reget_off :: int
  reget_buf :: "bytes option"
  reput_type :: int
  reput_len :: int
  reput_off :: int
  reput_buf :: "bytes option"
  p_url :: bytes
  p_tx :: "sendres list"
  p_utx :: "sendres list"
  p_wire :: bytes
  p_dgrams :: "bytes list"

definition the_bytes :: "bytes option \<Rightarrow> bytes" where
  "the_bytes b = (case b of None \<Rightarrow> [] | Some x \<Rightarrow> x)"

lemma the_bytes_simps [simp]: "the_bytes None = []" "the_bytes (Some b) = b"
  by (simp_all add: the_bytes_def)

section \<open>Operations\<close>

text \<open>\<open>n\<close> bytes from a pointer that may lie before the buffer.\<close>

definition rd_from :: "env \<Rightarrow> bytes \<Rightarrow> int \<Rightarrow> nat \<Rightarrow> bytes" where
  "rd_from E buf off n =
     map (\<lambda>i. let k = off + int i in if 0 \<le> k then rd E buf (nat k) else env_junk E (nat (- k))) [0..<n]"

text \<open>First part of \<open>PokeStream\<close>: go on with the packet that went out in part.\<close>

definition PokeRetry :: "env \<Rightarrow> 'a peer_scheme \<Rightarrow> oret \<times> 'a peer_scheme" where
  "PokeRetry E p =
     (if reput_len p \<ge> 0 then
        let want = reput_len p - reput_off p;
            (n, pipe, tx) = (if want > 0 then sock_send (p_tx p) (nat want) else (0, False, p_tx p));
            blen = (if want > 0 then want else 0);
            p1 = p\<lparr>p_tx := tx,
                   p_wire := p_wire p @ rd_from E (the_bytes (reput_buf p)) (reput_off p) (nat n),
                   reput_off := reput_off p + n\<rparr>
        in if n < blen then (ERROR, p1)
           else (OK, p1\<lparr>reput_buf := None, reput_off := -1, reput_len := -1, reput_type := -1,
                        alive_put_wd := env_now E\<rparr>)
      else (OK, p))"

definition PokeNew :: "env \<Rightarrow> int \<Rightarrow> nat \<Rightarrow> bytes \<Rightarrow> 'a peer_scheme \<Rightarrow> oret \<times> 'a peer_scheme" where
  "PokeNew E ty len dp p =
     (let blen = frame_len len in
      if \<not> env_alloc E blen then (ERROR, p)
      else
        let buf = frame (p_id p) ty (rd_bytes E dp 0 len) 0;
            (n, pipe, tx) = sock_send (p_tx p) blen;
            p1 = p\<lparr>p_tx := tx, p_wire := p_wire p @ take (nat n) buf\<rparr>
        in if n = int blen then (OK, p1\<lparr>alive_put_wd := env_now E\<rparr>)
           else if pipe then (ERROR, p1\<lparr>p_state := ST_EXIT\<rparr>)
           else if n > 0 \<and> n < int OLANG_HEAD_LEN then (ERROR, p1\<lparr>p_state := ST_EXIT\<rparr>)
           else if n \<le> 0 then (ERROR, p1)
           else (OK, p1\<lparr>reput_buf := Some buf, reput_off := n, reput_len := int blen, reput_type := ty\<rparr>))"

definition PokeStream ::
  "env \<Rightarrow> int \<Rightarrow> int \<Rightarrow> bytes option \<Rightarrow> 'a peer_scheme \<Rightarrow> oret \<times> 'a peer_scheme" where
  "PokeStream E ty len dp p =
     (let (rc, p1) = PokeRetry E p in
      if rc \<noteq> OK then (ERROR, p1)
      else if len < 0 then (OK, p1)
      else if len > 0 \<and> dp = None then (ERROR, p1)
      else PokeNew E ty (nat len) (the_bytes dp) p1)"

text \<open>The ring buffer: store a packet at \<open>q_wr\<close>, drop the one at \<open>q_rd\<close>.\<close>

definition ring_next :: "'a peer_scheme \<Rightarrow> nat \<Rightarrow> nat" where
  "ring_next p i = (if Suc i = q_size p then 0 else Suc i)"

definition ring_put :: "packet \<Rightarrow> 'a peer_scheme \<Rightarrow> 'a peer_scheme" where
  "ring_put pk p = p\<lparr>q_buf := (q_buf p)[q_wr p := pk], q_wr := ring_next p (q_wr p), q_len := Suc (q_len p)\<rparr>"

definition ring_get :: "'a peer_scheme \<Rightarrow> 'a peer_scheme" where
  "ring_get p = p\<lparr>q_buf := (q_buf p)[q_rd p := no_packet], q_rd := ring_next p (q_rd p), q_len := q_len p - 1\<rparr>"

text \<open>The stream part of \<open>SendPacket\<close>.\<close>

definition QueuePacket :: "env \<Rightarrow> int \<Rightarrow> int \<Rightarrow> bytes option \<Rightarrow> 'a peer_scheme \<Rightarrow> oret \<times> 'a peer_scheme" where
  "QueuePacket E ty len data p =
     (if q_len p = q_size p then (ERROR, p)
      else if len = 0 then (OK, ring_put \<lparr>pk_type = ty, pk_len = 0, pk_buf = None\<rparr> p)
      else if \<not> env_alloc E (nat len) then
        (ERROR, p\<lparr>q_buf := (q_buf p)[q_wr p := (q_buf p ! q_wr p)\<lparr>pk_buf := None\<rparr>]\<rparr>)
      else (OK, ring_put \<lparr>pk_type = ty, pk_len = len, pk_buf = Some (rd_bytes E (the_bytes data) 0 (nat len))\<rparr> p))"

definition StreamSend ::
  "env \<Rightarrow> int \<Rightarrow> int \<Rightarrow> int \<Rightarrow> bytes option \<Rightarrow> 'a peer_scheme \<Rightarrow> oret \<times> 'a peer_scheme" where
  "StreamSend E can_immed ty len data p =
     (if q_len p = 0 \<and> reput_len p < 0 \<and> can_immed \<noteq> 0 \<and> (len < OLANG_SMALL_PACKET \<or> can_immed > 1) then
        let (rc, p1) = PokeStream E ty len data p in
        if rc = OK then (OK, p1) else QueuePacket E ty len data p1
      else QueuePacket E ty len data p)"

text \<open>The datagram part: the frame goes to the control socket in one call.\<close>

definition DatagramSend :: "env \<Rightarrow> int \<Rightarrow> int \<Rightarrow> bytes option \<Rightarrow> 'a peer_scheme \<Rightarrow> oret \<times> 'a peer_scheme" where
  "DatagramSend E ty len data p =
     (let blen = frame_len (nat len) in
      if blen \<ge> 16 \<and> \<not> env_alloc E blen then (ERROR, p)
      else
        let pad = (if blen < 16 then env_junk E (blen - 3) else 0);
            buf = frame (p_id p) ty (rd_bytes E (the_bytes data) 0 (nat len)) pad;
            (n, pipe, tx) = sock_send (p_utx p) blen;
            p1 = p\<lparr>p_utx := tx, p_dgrams := (if n = int blen then p_dgrams p @ [buf] else p_dgrams p)\<rparr>
        in if n = int blen then (OK, p1) else (ERROR, p1))"

text \<open>
  Receiving. The kernel holds \<open>rx\<close>, the bytes that have arrived and were not read, and knows
  whether the peer has closed its end. \<open>recv\<close> of \<open>len\<close> bytes gives its result, the bytes and what
  stays in the kernel.
\<close>

definition sock_recv :: "bytes \<Rightarrow> bool \<Rightarrow> nat \<Rightarrow> int \<times> bytes \<times> bytes" where
  "sock_recv rx eof len =
     (if len = 0 then (0, [], rx)
      else if rx = [] then (if eof then 0 else -1, [], [])
      else (int (min len (length rx)), take len rx, drop len rx))"

text \<open>
  One turn of the loop of \<open>ReceiveStream\<close> up to the call of the protocol handler. The result
  tells whether a packet is ready; its type, length and data are then in the \<open>reget\<close> fields.
  A \<open>recv\<close> into a NULL buffer fails. When a body arrives in part, \<open>reget_off\<close> is set to the
  length asked for, not to the length received, as in the source.
\<close>

definition even_up :: "int \<Rightarrow> int" where
  "even_up n = (if odd n then n + 1 else n)"

definition recv_ready :: "env \<Rightarrow> u16 \<Rightarrow> bytes \<Rightarrow> 'a peer_scheme \<Rightarrow> bool \<times> bytes \<times> 'a peer_scheme" where
  "recv_ready E cksum rx p =
     (if OROTS cksum \<noteq> ohubWatchCheckSum (the_bytes (reget_buf p)) (reget_len p + int OLANG_HEAD_LEN)
      then (False, rx, p\<lparr>p_state := ST_EXIT\<rparr>)
      else (True, rx, p\<lparr>alive_get_wd := env_now E\<rparr>))"

definition recv_again :: "env \<Rightarrow> bool \<Rightarrow> bytes \<Rightarrow> 'a peer_scheme \<Rightarrow> bool \<times> bytes \<times> 'a peer_scheme" where
  "recv_again E eof rx p =
     (let len = even_up (reget_len p + int OLANG_TAIL_LEN - reget_off p) in
      case reget_buf p of
        None \<Rightarrow> (False, rx, p\<lparr>p_state := ST_EXIT\<rparr>)
      | Some b \<Rightarrow>
          (case sock_recv rx eof (nat len) of (num, dat, rest) \<Rightarrow>
            if num \<le> 0 then (False, rest, p\<lparr>p_state := ST_EXIT\<rparr>)
            else
              let b1 = store b (nat (reget_off p)) dat in
              if num \<noteq> len then (False, rest, p\<lparr>reget_buf := Some b1, reget_off := reget_off p + num\<rparr>)
              else recv_ready E (ld16 E b1 (nat len - OLANG_TAIL_LEN)) rest (p\<lparr>reget_buf := Some b1\<rparr>)))"

definition recv_body :: "env \<Rightarrow> bool \<Rightarrow> bytes \<Rightarrow> 'a peer_scheme \<Rightarrow> bool \<times> bytes \<times> 'a peer_scheme" where
  "recv_body E eof rx p =
     (if reget_len p > OLANG_MAX_PACKET then (False, rx, p\<lparr>p_state := ST_EXIT\<rparr>)
      else if reget_len p = 0 then
        (case sock_recv rx eof OLANG_TAIL_LEN of (num, dat, rest) \<Rightarrow>
           if num \<noteq> int OLANG_TAIL_LEN then (False, rx, p\<lparr>reget_buf := None\<rparr>)
           else recv_ready E (ld16 E dat 0) rest (p\<lparr>reget_buf := None\<rparr>))
      else
        let len = even_up (reget_len p + int OLANG_TAIL_LEN - reget_off p) in
        if \<not> env_alloc E (nat len) then (False, rx, p\<lparr>reget_buf := None\<rparr>)
        else case sock_recv rx eof (nat len) of (num, dat, rest) \<Rightarrow>
          let p1 = p\<lparr>reget_buf := Some (dat @ replicate (nat len - length dat) 0)\<rparr> in
          if num \<le> 0 then (False, rest, p1\<lparr>p_state := ST_EXIT\<rparr>)
          else if num \<noteq> len then (False, rest, p1\<lparr>reget_off := len\<rparr>)
          else recv_ready E (ld16 E dat (nat len - OLANG_TAIL_LEN)) rest p1)"

definition ReceiveStep :: "env \<Rightarrow> bool \<Rightarrow> bool \<Rightarrow> bytes \<Rightarrow> 'a peer_scheme \<Rightarrow> bool \<times> bytes \<times> 'a peer_scheme" where
  "ReceiveStep E first_pass eof rx p =
     (if reget_len p \<ge> 0 then recv_again E eof rx p
      else
        let len = OLANG_HEAD_LEN - nat (hdr_off p) in
        case sock_recv rx eof len of (num, dat, rest) \<Rightarrow>
          let p1 = (if num > 0 then p\<lparr>hdr_buf := store (hdr_buf p) (nat (hdr_off p)) dat,
                                      hdr_off := hdr_off p + num\<rparr> else p)
          in if num \<noteq> int len then
               (False, rest, if first_pass \<and> num \<le> 0 then p1\<lparr>p_state := ST_EXIT, hdr_off := 0\<rparr> else p1)
             else
               recv_body E eof rest (p1\<lparr>hdr_off := 0, reget_len := OUNTOHS (ld16 E (hdr_buf p1) 0),
                 reget_off := 0, reget_type := OUNTOHS (ld16 E (hdr_buf p1) 2)\<rparr>))"

definition recv_clear :: "'a peer_scheme \<Rightarrow> 'a peer_scheme" where
  "recv_clear p = p\<lparr>reget_buf := None, reget_type := -1, reget_len := -1, reget_off := -1\<rparr>"

definition recv_end :: "'a peer_scheme \<Rightarrow> 'a peer_scheme" where
  "recv_end p = (if p_state p = ST_EXIT then recv_clear p else p)"

lemma sock_recv_length: "sock_recv rx eof len = (num, dat, rest) \<Longrightarrow>
    length rest \<le> length rx \<and> (num > 0 \<longrightarrow> length rest < length rx)"
  by (auto simp: sock_recv_def split: if_splits)

lemma recv_ready_rest: "recv_ready E c rx p = (b, rx', p') \<Longrightarrow> rx' = rx"
  by (auto simp: recv_ready_def split: if_splits)

text \<open>A turn that yields a packet consumes input, so the loop ends.\<close>

lemma recv_body_shrinks:
  "recv_body E eof rx p = (True, rx', p') \<Longrightarrow> length rx' < length rx"
  by (auto simp: recv_body_def Let_def OLANG_TAIL_LEN_def split: if_splits prod.splits
      dest!: recv_ready_rest sock_recv_length)

lemma recv_again_shrinks:
  "recv_again E eof rx p = (True, rx', p') \<Longrightarrow> length rx' < length rx"
  by (auto simp: recv_again_def Let_def split: if_splits prod.splits option.splits
      dest!: recv_ready_rest sock_recv_length)

lemma ReceiveStep_shrinks:
  assumes "ReceiveStep E fp eof rx p = (True, rx', p')"
  shows "length rx' < length rx"
proof (cases "reget_len p \<ge> 0")
  case True
  then show ?thesis using assms recv_again_shrinks by (auto simp: ReceiveStep_def)
next
  case False
  obtain num dat rest where s: "sock_recv rx eof (OLANG_HEAD_LEN - nat (hdr_off p)) = (num, dat, rest)"
    by (metis prod_cases3)
  then have "length rx' < length rest"
    using assms False by (auto simp: ReceiveStep_def Let_def split: if_splits dest: recv_body_shrinks)
  then show ?thesis using sock_recv_length [OF s] by auto
qed

lemma PokeRetry_len: "q_len (snd (PokeRetry E p)) = q_len p"
  by (simp add: PokeRetry_def Let_def split: prod.splits)

lemma PokeNew_len: "q_len (snd (PokeNew E ty len dp p)) = q_len p"
  by (simp add: PokeNew_def Let_def split: prod.splits)

lemma PokeStream_len: "q_len (snd (PokeStream E ty len dp p)) = q_len p"
proof (cases "PokeRetry E p")
  case (Pair rc p1)
  then show ?thesis
    using PokeRetry_len [of E p] PokeNew_len [of E ty "nat len" "the_bytes dp" p1]
    by (simp add: PokeStream_def)
qed

function ResendStream :: "env \<Rightarrow> 'a peer_scheme \<Rightarrow> 'a peer_scheme" where
  "ResendStream E p =
     (let (rc, p1) = (if reput_len p \<ge> 0 then PokeStream E (-1) (-1) None p else (OK, p)) in
      if rc \<noteq> OK then p1
      else if q_len p1 = 0 then p1
      else
        let pk = q_buf p1 ! q_rd p1;
            (rc2, p2) = PokeStream E (pk_type pk) (pk_len pk) (pk_buf pk) p1
        in if rc2 \<noteq> OK then p2
           else let p3 = ring_get p2
                in if q_len p3 = 0 \<or> reput_len p3 \<ge> 0 then p3 else ResendStream E p3)"
  by pat_completeness auto
termination
proof (relation "measure (\<lambda>(E, p). q_len p)")
  fix E :: env and p :: "'a peer_scheme" and x rc p1 pk y rc2 p2 p3
  assume x: "x = (if 0 \<le> reput_len p then PokeStream E (- 1) (- 1) None p else (OK, p))" "(rc, p1) = x"
    and y: "\<not> q_len p1 = 0" "y = PokeStream E (pk_type pk) (pk_len pk) (pk_buf pk) p1" "(rc2, p2) = y"
    and z: "p3 = ring_get p2"
  have "q_len p1 = q_len p" using x PokeStream_len [of E "-1" "-1" None p]
    by (metis snd_conv)
  moreover have "q_len p2 = q_len p1" using y PokeStream_len by (metis snd_conv)
  ultimately show "((E, p3), E, p) \<in> measure (\<lambda>(E, p). q_len p)"
    using y(1) z by (simp add: ring_get_def)
qed simp

declare ResendStream.simps [simp del]


section \<open>The ring is a queue\<close>

text \<open>The queued packets, oldest first, and the invariant of the ring.\<close>

definition queued :: "'a peer_scheme \<Rightarrow> packet list" where
  "queued p = map (\<lambda>k. q_buf p ! ((q_rd p + k) mod q_size p)) [0..<q_len p]"

definition ring_ok :: "'a peer_scheme \<Rightarrow> bool" where
  "ring_ok p \<longleftrightarrow> length (q_buf p) = q_size p \<and> q_len p \<le> q_size p
     \<and> (q_size p = 0 \<or> q_rd p < q_size p \<and> q_wr p = (q_rd p + q_len p) mod q_size p)"

text \<open>The interface of a bounded queue, and what a client may rely on.\<close>

locale fifo =
  fixes inv :: "'s \<Rightarrow> bool" and contents :: "'s \<Rightarrow> 'e list" and full :: "'s \<Rightarrow> bool"
    and put :: "'e \<Rightarrow> 's \<Rightarrow> 's" and get :: "'s \<Rightarrow> 's"
  assumes put_inv: "inv s \<Longrightarrow> \<not> full s \<Longrightarrow> inv (put x s)"
    and put_contents: "inv s \<Longrightarrow> \<not> full s \<Longrightarrow> contents (put x s) = contents s @ [x]"
    and get_inv: "inv s \<Longrightarrow> contents s \<noteq> [] \<Longrightarrow> inv (get s)"
    and get_contents: "inv s \<Longrightarrow> contents s \<noteq> [] \<Longrightarrow> contents (get s) = tl (contents s)"
begin

lemma put_get:
  assumes "inv s" and "\<not> full s"
  shows "contents (get (put x s)) = tl (contents s @ [x])"
  using assms by (simp add: get_contents put_inv put_contents)

end

lemma ring_next_mod: "i < q_size p \<Longrightarrow> ring_next p i = Suc i mod q_size p"
  by (auto simp: ring_next_def)

lemma ring_put_ok:
  assumes "ring_ok p" and "q_len p \<noteq> q_size p"
  shows "ring_ok (ring_put pk p)"
proof -
  have n: "q_size p \<noteq> 0" "q_len p < q_size p" using assms by (auto simp: ring_ok_def)
  then have w: "q_wr p < q_size p" using assms by (auto simp: ring_ok_def)
  then have "ring_next p (q_wr p) = Suc (q_wr p) mod q_size p" by (rule ring_next_mod)
  then show ?thesis using assms n by (auto simp: ring_ok_def ring_put_def mod_Suc_eq)
qed

lemma mod_once: "r < n \<Longrightarrow> k \<le> n \<Longrightarrow> (r + k) mod n = (if r + k < n then r + k else r + k - (n :: nat))"
  by (cases "r + k < n") (simp_all add: mod_if)

lemma ring_index_inj:
  assumes "(r + k) mod n = (r + l) mod n" and "r < n" and "k < n" and "l < (n :: nat)"
  shows "k = l"
  using assms by (auto simp: mod_once split: if_splits)

lemma queued_ring_put:
  assumes "ring_ok p" and "q_len p \<noteq> q_size p"
  shows "queued (ring_put pk p) = queued p @ [pk]"
proof -
  let ?n = "q_size p" and ?r = "q_rd p" and ?l = "q_len p"
  have n: "?l < ?n" "?r < ?n" "q_wr p = (?r + ?l) mod ?n" "length (q_buf p) = ?n"
    using assms by (auto simp: ring_ok_def)
  have "(q_buf p)[q_wr p := pk] ! ((?r + k) mod ?n) = q_buf p ! ((?r + k) mod ?n)" if "k < ?l" for k
  proof -
    have "(?r + k) mod ?n \<noteq> q_wr p" using ring_index_inj [of ?r k ?n ?l] n that by auto
    then show ?thesis by simp
  qed
  then show ?thesis using n by (simp add: queued_def ring_put_def)
qed

lemma ring_get_ok:
  assumes "ring_ok p" and "queued p \<noteq> []"
  shows "ring_ok (ring_get p)"
proof -
  have l: "0 < q_len p" using assms(2) by (simp add: queued_def)
  then have n: "0 < q_size p" "q_len p \<le> q_size p" "q_rd p < q_size p" using assms(1) by (auto simp: ring_ok_def)
  then have "ring_next p (q_rd p) = Suc (q_rd p) mod q_size p" by (simp add: ring_next_mod)
  moreover obtain m where m: "q_len p = Suc m" using l by (cases "q_len p") auto
  moreover have "(Suc (q_rd p) mod q_size p + m) mod q_size p = Suc (q_rd p + m) mod q_size p"
    by (simp add: mod_add_left_eq)
  ultimately show ?thesis using assms(1) n by (simp add: ring_ok_def ring_get_def)
qed

lemma queued_ring_get:
  assumes "ring_ok p" and "queued p \<noteq> []"
  shows "queued (ring_get p) = tl (queued p)"
proof -
  let ?n = "q_size p" and ?r = "q_rd p" and ?l = "q_len p"
  have l: "0 < ?l" using assms(2) by (simp add: queued_def)
  then have n: "?l \<le> ?n" "?r < ?n" "length (q_buf p) = ?n" using assms(1) by (auto simp: ring_ok_def)
  have nx: "ring_next p ?r = Suc ?r mod ?n" using n by (simp add: ring_next_mod)
  have "(q_buf p)[?r := no_packet] ! ((ring_next p ?r + k) mod ?n) = q_buf p ! ((?r + Suc k) mod ?n)"
    if "k < ?l - 1" for k
  proof -
    have e: "(ring_next p ?r + k) mod ?n = (?r + Suc k) mod ?n" by (simp add: nx mod_add_left_eq)
    have "(?r + Suc k) mod ?n \<noteq> ?r"
      using ring_index_inj [of ?r "Suc k" ?n 0] n that
      by (metis Suc_neq_Zero add.right_neutral less_diff_conv less_le_trans mod_less n(2) not_less_zero plus_1_eq_Suc add.commute zero_less_iff_neq_zero)
    then show ?thesis unfolding e by simp
  qed
  moreover have "tl (map f [0..<?l]) = map (\<lambda>k. f (Suc k)) [0..<?l - 1]" for f :: "nat \<Rightarrow> packet"
    using l by (cases ?l) (simp_all add: upt_conv_Cons map_Suc_upt [symmetric] del: upt_Suc map_Suc_upt)
  ultimately show ?thesis by (simp add: queued_def ring_get_def)
qed

lemma queued_first: "queued p \<noteq> [] \<Longrightarrow> ring_ok p \<Longrightarrow> hd (queued p) = q_buf p ! q_rd p"
  by (auto simp: queued_def ring_ok_def upt_conv_Cons)

lemma queued_empty: "queued p = [] \<longleftrightarrow> q_len p = 0"
  by (simp add: queued_def)

interpretation send_queue: fifo ring_ok queued "\<lambda>p. q_len p = q_size p" ring_put ring_get
  by unfold_locales
    (simp_all add: ring_put_ok queued_ring_put ring_get_ok queued_ring_get)


section \<open>What a connection still owes its peer\<close>

text \<open>
  The bytes a connection has accepted and not yet handed to the socket: the rest of the
  packet that went out in part, then the frames of the queued packets.
\<close>

definition put_rest :: "'a peer_scheme \<Rightarrow> bytes" where
  "put_rest p = (if reput_len p \<ge> 0 then drop (nat (reput_off p)) (the_bytes (reput_buf p)) else [])"

definition pkt_frame :: "'a peer_scheme \<Rightarrow> packet \<Rightarrow> bytes" where
  "pkt_frame p pk = frame (p_id p) (pk_type pk) (the_bytes (pk_buf pk)) 0"

definition outstanding :: "'a peer_scheme \<Rightarrow> bytes" where
  "outstanding p = put_rest p @ concat (map (pkt_frame p) (queued p))"

definition pk_ok :: "packet \<Rightarrow> bool" where
  "pk_ok pk \<longleftrightarrow> 0 \<le> pk_len pk \<and> length (the_bytes (pk_buf pk)) = nat (pk_len pk)
     \<and> (pk_len pk > 0 \<longrightarrow> pk_buf pk \<noteq> None)"

definition stream_ok :: "'a peer_scheme \<Rightarrow> bool" where
  "stream_ok p \<longleftrightarrow> ring_ok p \<and> list_all pk_ok (queued p)
     \<and> (reput_len p \<ge> 0 \<longrightarrow> 0 \<le> reput_off p \<and> reput_off p \<le> reput_len p
          \<and> length (the_bytes (reput_buf p)) = nat (reput_len p))"

text \<open>The retry of a partial packet meets a socket that takes some bytes, or all.\<close>

definition retry_ok :: "'a peer_scheme \<Rightarrow> bool" where
  "retry_ok p \<longleftrightarrow> (reput_len p \<ge> 0 \<longrightarrow> (case p_tx p of [] \<Rightarrow> True | Sent k e # r \<Rightarrow> True | _ \<Rightarrow> False))"

text \<open>The fields the ring and the frames are read from.\<close>

definition same_queue :: "'a peer_scheme \<Rightarrow> 'a peer_scheme \<Rightarrow> bool" where
  "same_queue p p' \<longleftrightarrow> q_buf p' = q_buf p \<and> q_len p' = q_len p \<and> q_size p' = q_size p
     \<and> q_rd p' = q_rd p \<and> q_wr p' = q_wr p \<and> p_id p' = p_id p"

lemma same_queueD:
  assumes "same_queue p p'"
  shows "queued p' = queued p" "ring_ok p' = ring_ok p" "pkt_frame p' = pkt_frame p"
  using assms by (auto simp: same_queue_def queued_def ring_ok_def pkt_frame_def)

lemma rd_from_in:
  assumes "0 \<le> off" and "nat off + n \<le> length buf"
  shows "rd_from E buf off n = take n (drop (nat off) buf)"
  using assms by (intro nth_equalityI) (auto simp: rd_from_def Let_def nat_add_distrib)

lemma sock_send_ok:
  assumes "case tx of [] \<Rightarrow> True | Sent k e # r \<Rightarrow> True | _ \<Rightarrow> False"
    and "sock_send tx b = (n, pipe, tx')"
  shows "0 \<le> n \<and> n \<le> int b"
  using assms by (cases tx; cases "hd tx") auto

lemma sock_send_le: "sock_send tx b = (n, pipe, tx') \<Longrightarrow> n \<le> int b"
  by (cases "(tx, b)" rule: sock_send.cases) auto

lemma PokeRetry_law:
  assumes ok: "stream_ok p" and r: "retry_ok p" and eq: "PokeRetry E p = (rc, p')"
  shows "stream_ok p'" and "p_wire p' @ put_rest p' = p_wire p @ put_rest p"
    and "rc = OK \<Longrightarrow> reput_len p' < 0" and "same_queue p p'" and "p_state p' = p_state p"
proof -
  have all: "stream_ok p' \<and> p_wire p' @ put_rest p' = p_wire p @ put_rest p
     \<and> (rc = OK \<longrightarrow> reput_len p' < 0) \<and> same_queue p p' \<and> p_state p' = p_state p"
  proof (cases "reput_len p \<ge> 0")
    case False
    then have "rc = OK" "p' = p" using eq by (auto simp: PokeRetry_def)
    then show ?thesis using False ok by (simp add: same_queue_def)
  next
    case True
    let ?want = "reput_len p - reput_off p"
    let ?b = "the_bytes (reput_buf p)"
    have rp: "0 \<le> reput_off p" "reput_off p \<le> reput_len p" "length ?b = nat (reput_len p)"
      using ok True by (auto simp: stream_ok_def)
    obtain n pipe tx where s: "(if ?want > 0 then sock_send (p_tx p) (nat ?want) else (0, False, p_tx p)) = (n, pipe, tx)"
      by (metis prod_cases3)
    have n: "0 \<le> n" "n \<le> ?want"
      using s sock_send_ok [of "p_tx p" "nat ?want" n pipe tx] r True rp(2)
      by (auto simp: retry_ok_def split: if_splits)
    have rd: "rd_from E ?b (reput_off p) (nat n) = take (nat n) (drop (nat (reput_off p)) ?b)"
      using rp n by (intro rd_from_in) auto
    show ?thesis
    proof (cases "n < ?want")
      case less: True
      then have "rc = ERROR" "p' = p\<lparr>p_tx := tx, p_wire := p_wire p @ take (nat n) (drop (nat (reput_off p)) ?b), reput_off := reput_off p + n\<rparr>"
        using eq s True rp rd n by (auto simp: PokeRetry_def Let_def split: if_splits)
      then show ?thesis using ok rp n less True
        by (auto simp: stream_ok_def same_queue_def queued_def ring_ok_def put_rest_def nat_add_distrib
            drop_drop [symmetric] add.commute simp del: drop_drop)
    next
      case False
      then have neq: "n = ?want" using n by simp
      have "rc = OK" "p' = p\<lparr>p_tx := tx, p_wire := p_wire p @ take (nat n) (drop (nat (reput_off p)) ?b),
           reput_buf := None, reput_off := -1, reput_len := -1, reput_type := -1, alive_put_wd := env_now E\<rparr>"
        using eq s True rp rd n False by (auto simp: PokeRetry_def Let_def split: if_splits)
      then show ?thesis using ok rp neq True
        by (auto simp: stream_ok_def same_queue_def queued_def ring_ok_def put_rest_def)
    qed
  qed
  then show "stream_ok p'" "p_wire p' @ put_rest p' = p_wire p @ put_rest p" "same_queue p p'"
    "p_state p' = p_state p" "rc = OK \<Longrightarrow> reput_len p' < 0" by blast+
qed

lemma PokeNew_law:
  assumes ok: "stream_ok p" and r: "reput_len p < 0" and d: "length dp = len"
    and eq: "PokeNew E ty len dp p = (rc, p')" and st: "p_state p' \<noteq> ST_EXIT"
  shows "stream_ok p'" and "same_queue p p'"
    and "rc = OK \<Longrightarrow> p_wire p' @ put_rest p' = p_wire p @ frame (p_id p) ty dp 0"
    and "rc \<noteq> OK \<Longrightarrow> p_wire p' = p_wire p \<and> reput_len p' < 0"
proof -
  let ?buf = "frame (p_id p) ty dp 0"
  have all: "stream_ok p' \<and> same_queue p p' \<and> (rc = OK \<longrightarrow> p_wire p' @ put_rest p' = p_wire p @ ?buf)
      \<and> (rc \<noteq> OK \<longrightarrow> p_wire p' = p_wire p \<and> reput_len p' < 0)"
  proof (cases "env_alloc E (frame_len len)")
    case False
    then show ?thesis using eq ok r by (auto simp: PokeNew_def Let_def same_queue_def)
  next
    case True
    obtain n pipe tx where s: "sock_send (p_tx p) (frame_len len) = (n, pipe, tx)" by (metis prod_cases3)
    note n = sock_send_le [OF s]
    have rb: "rd_bytes E dp 0 len = dp" using d by auto
    show ?thesis
      using eq st ok r n d True s rb
      by (auto simp: PokeNew_def Let_def stream_ok_def same_queue_def queued_def ring_ok_def put_rest_def
          split: if_splits)
  qed
  then show "stream_ok p'" "same_queue p p'" "rc = OK \<Longrightarrow> p_wire p' @ put_rest p' = p_wire p @ ?buf"
    "rc \<noteq> OK \<Longrightarrow> p_wire p' = p_wire p \<and> reput_len p' < 0" by blast+
qed


lemma outstanding_same:
  assumes "same_queue p p'" and "p_wire p' @ put_rest p' = w @ x"
  shows "p_wire p' @ outstanding p' = w @ x @ concat (map (pkt_frame p) (queued p))"
  using assms(2) by (simp add: outstanding_def same_queueD [OF assms(1)] flip: append_assoc)

lemma queued_spare:
  assumes "ring_ok p" and "q_len p \<noteq> q_size p"
  shows "queued (p\<lparr>q_buf := (q_buf p)[q_wr p := x]\<rparr>) = queued p"
proof -
  have n: "q_len p < q_size p" "q_rd p < q_size p" "q_wr p = (q_rd p + q_len p) mod q_size p"
    using assms by (auto simp: ring_ok_def)
  have "(q_buf p)[q_wr p := x] ! ((q_rd p + k) mod q_size p) = q_buf p ! ((q_rd p + k) mod q_size p)"
    if "k < q_len p" for k
  proof -
    have "q_wr p \<noteq> (q_rd p + k) mod q_size p"
      using ring_index_inj [of "q_rd p" k "q_size p" "q_len p"] n that by auto
    then show ?thesis by simp
  qed
  then show ?thesis by (simp add: queued_def)
qed

text \<open>A packet as the caller of \<open>SendPacket\<close> hands it over.\<close>

definition send_args_ok :: "int \<Rightarrow> bytes option \<Rightarrow> bool" where
  "send_args_ok len data \<longleftrightarrow> 0 \<le> len \<and> length (the_bytes data) = nat len \<and> (len > 0 \<longrightarrow> data \<noteq> None)"

lemma QueuePacket_law:
  assumes ok: "stream_ok p" and a: "send_args_ok len data"
    and eq: "QueuePacket E ty len data p = (rc, p')"
  shows "stream_ok p' \<and> p_wire p' = p_wire p \<and> p_state p' = p_state p
     \<and> (rc = OK \<longrightarrow> outstanding p' = outstanding p @ frame (p_id p) ty (the_bytes data) 0)
     \<and> (rc \<noteq> OK \<longrightarrow> outstanding p' = outstanding p)"
proof -
  have ring: "ring_ok p" and l: "0 \<le> len" using ok a by (auto simp: stream_ok_def send_args_ok_def)
  have rb: "rd_bytes E (the_bytes data) 0 (nat len) = the_bytes data" using a rd_bytes_all [of E "the_bytes data"] by (simp add: send_args_ok_def)
  have put: "stream_ok (ring_put pk p) \<and> outstanding (ring_put pk p) = outstanding p @ pkt_frame p pk"
    if "pk_ok pk" "q_len p \<noteq> q_size p" for pk
  proof -
    have "queued (ring_put pk p) = queued p @ [pk]" "ring_ok (ring_put pk p)"
      using send_queue.put_contents send_queue.put_inv ring that(2) by blast+
    then show ?thesis using ok that(1)
      by (auto simp: stream_ok_def outstanding_def put_rest_def pkt_frame_def [abs_def] ring_put_def)
  qed
  consider "q_len p = q_size p" | "q_len p \<noteq> q_size p" "len = 0"
    | "q_len p \<noteq> q_size p" "len \<noteq> 0" "\<not> env_alloc E (nat len)"
    | "q_len p \<noteq> q_size p" "len \<noteq> 0" "env_alloc E (nat len)" by blast
  then show ?thesis
  proof cases
    case 1 then show ?thesis using eq ok by (auto simp: QueuePacket_def)
  next
    case 2
    have pk: "pk_ok \<lparr>pk_type = ty, pk_len = 0, pk_buf = None\<rparr>" by (simp add: pk_ok_def)
    show ?thesis using eq put [OF pk 2(1)] 2 a
      by (auto simp: QueuePacket_def pkt_frame_def send_args_ok_def ring_put_def)
  next
    case 3
    let ?q = "p\<lparr>q_buf := (q_buf p)[q_wr p := (q_buf p ! q_wr p)\<lparr>pk_buf := None\<rparr>]\<rparr>"
    have q: "rc = ERROR" "p' = ?q" using eq 3 by (auto simp: QueuePacket_def)
    moreover have "queued ?q = queued p" by (rule queued_spare [OF ring 3(1)])
    moreover have "ring_ok ?q" using ring by (simp add: ring_ok_def)
    ultimately show ?thesis using ok
      by (simp add: stream_ok_def outstanding_def put_rest_def pkt_frame_def [abs_def])
  next
    case 4
    have pk: "pk_ok \<lparr>pk_type = ty, pk_len = len, pk_buf = Some (the_bytes data)\<rparr>"
      using a l by (simp add: pk_ok_def send_args_ok_def)
    show ?thesis using eq put [OF pk 4(1)] 4
      by (auto simp: QueuePacket_def pkt_frame_def rb ring_put_def)
  qed
qed

lemma StreamSend_law:
  assumes ok: "stream_ok p" and a: "send_args_ok len data"
    and eq: "StreamSend E ci ty len data p = (rc, p')" and st: "p_state p' \<noteq> ST_EXIT"
  shows "stream_ok p'"
    and "p_wire p' @ outstanding p' = p_wire p @ outstanding p
      @ (if rc = OK then frame (p_id p) ty (the_bytes data) 0 else [])"
proof -
  let ?f = "frame (p_id p) ty (the_bytes data) 0"
  have "stream_ok p' \<and> p_wire p' @ outstanding p' = p_wire p @ outstanding p @ (if rc = OK then ?f else [])"
  proof (cases "q_len p = 0 \<and> reput_len p < 0 \<and> ci \<noteq> 0 \<and> (len < OLANG_SMALL_PACKET \<or> ci > 1)")
    case False
    then have "QueuePacket E ty len data p = (rc, p')" using eq by (auto simp: StreamSend_def)
    with QueuePacket_law [OF ok a this] show ?thesis by auto
  next
    case True
    have e: "queued p = []" "put_rest p = []" using True by (simp_all add: queued_empty put_rest_def)
    then have o0: "outstanding p = []" by (simp add: outstanding_def)
    obtain rc1 p1 where s: "PokeStream E ty len data p = (rc1, p1)" by (metis prod.exhaust)
    have len: "0 \<le> len" "length (the_bytes data) = nat len" "\<not> (len > 0 \<and> data = None)"
      using a by (auto simp: send_args_ok_def)
    have n: "PokeNew E ty (nat len) (the_bytes data) p = (rc1, p1)"
      using s True len by (auto simp: PokeStream_def PokeRetry_def)
    show ?thesis
    proof (cases "rc1 = OK")
      case T: True
      have p': "rc = OK" "p' = p1" using eq s True T by (auto simp: StreamSend_def)
      note l = PokeNew_law [OF ok _ len(2) n] 
      show ?thesis using l True st p' T o0 outstanding_same [OF l(2), of "p_wire p" ?f] e by simp
    next
      case F: False
      have q: "QueuePacket E ty len data p1 = (rc, p')" using eq s True F by (auto simp: StreamSend_def)
      have st1: "p_state p1 \<noteq> ST_EXIT"
        using q st by (auto simp: QueuePacket_def ring_put_def split: if_splits)
      note l = PokeNew_law [OF ok _ len(2) n st1]
      have l': "stream_ok p1" "same_queue p p1" "p_wire p1 = p_wire p" "reput_len p1 < 0"
        using l True F by auto
      have "outstanding p1 = []" using l' e by (simp add: outstanding_def put_rest_def same_queueD)
      moreover have "p_id p1 = p_id p" using l'(2) by (simp add: same_queue_def)
      ultimately show ?thesis using QueuePacket_law [OF l'(1) a q] o0 l' by auto
    qed
  qed
  then show "stream_ok p'" "p_wire p' @ outstanding p' = p_wire p @ outstanding p @ (if rc = OK then ?f else [])"
    by blast+
qed

lemma PokeStream_retry:
  assumes "stream_ok p" and "retry_ok p" and "PokeStream E (-1) (-1) None p = (rc, p')"
  shows "stream_ok p'" and "p_wire p' @ put_rest p' = p_wire p @ put_rest p"
    and "rc = OK \<Longrightarrow> reput_len p' < 0" and "same_queue p p'" and "p_state p' = p_state p"
proof -
  obtain r q where s: "PokeRetry E p = (r, q)" by (metis prod.exhaust)
  have p: "q = p'" "rc = OK \<longrightarrow> r = OK" using assms(3) s by (auto simp: PokeStream_def split: if_splits)
  note l = PokeRetry_law [OF assms(1,2) s]
  show "stream_ok p'" "p_wire p' @ put_rest p' = p_wire p @ put_rest p"
    "rc = OK \<Longrightarrow> reput_len p' < 0" "same_queue p p'" "p_state p' = p_state p"
    using l p by simp_all
qed


lemma ring_get_law:
  assumes "stream_ok p" and "q_len p \<noteq> 0"
  shows "stream_ok (ring_get p)" and "queued p = q_buf p ! q_rd p # queued (ring_get p)"
    and "pk_ok (q_buf p ! q_rd p)" and "put_rest (ring_get p) = put_rest p"
    and "pkt_frame (ring_get p) = pkt_frame p"
proof -
  have ring: "ring_ok p" and ne: "queued p \<noteq> []" using assms by (simp_all add: stream_ok_def queued_empty)
  show q: "queued p = q_buf p ! q_rd p # queued (ring_get p)"
    using send_queue.get_contents [OF ring ne] queued_first [OF ne ring] ne
    by (metis list.exhaust_sel)
  have "list_all pk_ok (queued p)" using assms(1) by (simp add: stream_ok_def)
  then have all: "pk_ok (q_buf p ! q_rd p)" "list_all pk_ok (queued (ring_get p))" by (simp_all add: q)
  then show "pk_ok (q_buf p ! q_rd p)" by simp
  have same: "reput_len (ring_get p) = reput_len p" "reput_off (ring_get p) = reput_off p"
    "reput_buf (ring_get p) = reput_buf p" by (simp_all add: ring_get_def)
  show "stream_ok (ring_get p)"
    using assms(1) all send_queue.get_inv [OF ring ne] by (simp add: stream_ok_def same)
  show "put_rest (ring_get p) = put_rest p" "pkt_frame (ring_get p) = pkt_frame p"
    by (simp_all add: ring_get_def put_rest_def pkt_frame_def [abs_def])
qed

lemma PokeNew_OK_state: "PokeNew E ty len dp p = (OK, p') \<Longrightarrow> p_state p' = p_state p"
  by (auto simp: PokeNew_def Let_def split: if_splits prod.splits)

lemma ring_get_state [simp]: "p_state (ring_get p) = p_state p" "p_wire (ring_get p) = p_wire p"
  by (simp_all add: ring_get_def)

lemma ResendStream_law:
  "stream_ok p \<Longrightarrow> retry_ok p \<Longrightarrow> p_state p \<noteq> ST_EXIT \<Longrightarrow> p_state (ResendStream E p) \<noteq> ST_EXIT \<Longrightarrow>
    stream_ok (ResendStream E p)
    \<and> p_wire (ResendStream E p) @ outstanding (ResendStream E p) = p_wire p @ outstanding p"
proof (induction E p rule: ResendStream.induct)
  case (1 E p)
  obtain rc p1 where s1: "(if reput_len p \<ge> 0 then PokeStream E (-1) (-1) None p else (OK, p)) = (rc, p1)"
    by (metis prod.exhaust)
  have l1: "stream_ok p1" "p_wire p1 @ put_rest p1 = p_wire p @ put_rest p" "same_queue p p1"
    "rc = OK \<Longrightarrow> reput_len p1 < 0" "p_state p1 \<noteq> ST_EXIT"
    using s1 PokeStream_retry [OF 1(2,3), of E rc p1] 1(2,4)
    by (auto simp: same_queue_def split: if_splits)
  have o1: "p_wire p1 @ outstanding p1 = p_wire p @ outstanding p"
    using outstanding_same [OF l1(3,2)] by (simp add: outstanding_def)
  show ?case
  proof (cases "rc = OK \<and> q_len p1 \<noteq> 0")
    case False
    then have "ResendStream E p = p1" using s1 by (auto simp: ResendStream.simps [of E p])
    then show ?thesis using l1 o1 by simp
  next
    case True
    let ?pk = "q_buf p1 ! q_rd p1"
    obtain rc2 p2 where s2: "PokeStream E (pk_type ?pk) (pk_len ?pk) (pk_buf ?pk) p1 = (rc2, p2)"
      by (metis prod.exhaust)
    note g1 = ring_get_law [OF l1(1)]
    have pk: "pk_ok ?pk" and neg: "reput_len p1 < 0" using g1 True l1 by auto
    have n2: "PokeNew E (pk_type ?pk) (nat (pk_len ?pk)) (the_bytes (pk_buf ?pk)) p1 = (rc2, p2)"
      using s2 pk neg by (auto simp: PokeStream_def PokeRetry_def pk_ok_def)
    have len: "length (the_bytes (pk_buf ?pk)) = nat (pk_len ?pk)" using pk by (simp add: pk_ok_def)
    note l2 = PokeNew_law [OF l1(1) neg len n2]
    have r1: "put_rest p1 = []" using neg by (simp add: put_rest_def)
    show ?thesis
    proof (cases "rc2 = OK")
      case F: False
      then have eq: "ResendStream E p = p2" using s1 s2 True by (simp add: ResendStream.simps [of E p])
      then have st2: "p_state p2 \<noteq> ST_EXIT" using 1(5) by simp
      then show ?thesis using l2 eq F o1 r1 outstanding_same [OF l2(2), of "p_wire p1" "[]"]
        by (simp add: put_rest_def outstanding_def)
    next
      case T: True
      let ?p3 = "ring_get p2"
      have st2: "p_state p2 \<noteq> ST_EXIT" using PokeNew_OK_state [of E] n2 T l1(5) by metis
      have ex: "ResendStream E p = (if q_len ?p3 = 0 \<or> reput_len ?p3 \<ge> 0 then ?p3 else ResendStream E ?p3)"
        using s1 s2 True T by (simp add: ResendStream.simps [of E p])
      have ql2: "q_len p2 \<noteq> 0" "q_buf p2 ! q_rd p2 = ?pk" "pkt_frame p2 = pkt_frame p1"
        using l2(2) [OF st2] True same_queueD [of p1 p2] by (auto simp: same_queue_def)
      note g2 = ring_get_law [OF l2(1) [OF st2] ql2(1)]
      have "p_wire ?p3 @ outstanding ?p3 = p_wire p2 @ put_rest p2 @ concat (map (pkt_frame p1) (queued ?p3))"
        using g2 ql2 by (simp add: outstanding_def)
      also have "\<dots> = p_wire p1 @ pkt_frame p1 ?pk @ concat (map (pkt_frame p1) (queued ?p3))"
        using l2(3) [OF st2 T] by (simp add: pkt_frame_def flip: append_assoc)
      also have "\<dots> = p_wire p1 @ outstanding p1"
        using g2(2) ql2 same_queueD [OF l2(2) [OF st2]] r1 by (simp add: outstanding_def)
      finally have o3: "p_wire ?p3 @ outstanding ?p3 = p_wire p @ outstanding p" using o1 by simp
      show ?thesis
      proof (cases "q_len ?p3 = 0 \<or> reput_len ?p3 \<ge> 0")
        case True
        then show ?thesis using ex g2 o3 by simp
      next
        case more: False
        have e: "ResendStream E p = ResendStream E ?p3" using ex more by simp
        have "retry_ok ?p3" using more by (simp add: retry_ok_def)
        then show ?thesis
          using 1(1) [OF s1 [symmetric] refl _ _ refl s2 [symmetric] refl _ refl] True T more e g2(1) st2 o3 1(5)
          by simp
      qed
    qed
  qed
qed


lemma PokeRetry_again:
  assumes "stream_ok p" and "0 < reput_off p" and "reput_off p < reput_len p" and "p_tx p = Again # r"
  shows "PokeStream E (-1) (-1) None p = (ERROR, p\<lparr>p_tx := r, reput_off := reput_off p - 1\<rparr>)"
  using assms by (simp add: PokeStream_def PokeRetry_def Let_def rd_from_def)

section \<open>Receiving what was sent\<close>

lemma ld16_first: "ld16 E (st16 x @ ys) 0 = x"
  using ld16_st16 [of 0 "[]" E x ys] by simp

lemma ld16_second: "ld16 E (st16 w @ st16 x @ ys) 2 = x"
  using ld16_st16 [of 2 "st16 w" E x ys] by simp

lemma ld16_last: "length xs + 2 = n \<Longrightarrow> ld16 E (xs @ st16 x) (n - 2) = x"
  using ld16_st16 [of "length xs" xs E x "[]"] by auto

lemma ld16_self: "ld16 E (st16 x) 0 = x"
  using ld16_first [of E x "[]"] by simp

definition frame_head :: "u16 \<Rightarrow> int \<Rightarrow> nat \<Rightarrow> bytes" where
  "frame_head wid ty n = st16 (OHTONS (int n)) @ st16 (OHTONS ty) @ st16 (OROTS wid)"

definition frame_rest :: "bytes \<Rightarrow> byte \<Rightarrow> bytes" where
  "frame_rest data pad = data @ (if odd (length data) then [pad] else []) @ st16 0"

lemma frame_split: "frame wid ty data pad = frame_head wid ty (length data) @ frame_rest data pad"
  by (simp add: frame_def frame_head_def frame_rest_def ohubWatchCheckSum_def OHTONS_def OROTS_def)

lemma length_frame_head [simp]: "length (frame_head wid ty n) = OLANG_HEAD_LEN"
  by (simp add: frame_head_def OLANG_HEAD_LEN_def)

lemma length_frame_rest: "int (length (frame_rest data pad)) = even_up (int (length data) + int OLANG_TAIL_LEN)"
  by (simp add: frame_rest_def even_up_def OLANG_TAIL_LEN_def)

lemma sock_recv_append:
  "length xs = n \<Longrightarrow> 0 < n \<Longrightarrow> sock_recv (xs @ ys) eof n = (int n, xs, ys)"
  by (auto simp: sock_recv_def)

lemma frame_head_read:
  assumes "n < 65536" and "0 \<le> ty" and "ty < 65536"
  shows "OUNTOHS (ld16 E (frame_head wid ty n @ ys) 0) = int n"
    and "OUNTOHS (ld16 E (frame_head wid ty n @ ys) 2) = ty"
  using assms by (simp_all add: frame_head_def ld16_first ld16_second OHTONS_back)

text \<open>The header was read: the state before the body.\<close>

definition head_read :: "int \<Rightarrow> nat \<Rightarrow> bytes \<Rightarrow> 'a peer_scheme \<Rightarrow> 'a peer_scheme" where
  "head_read ty n hb p = p\<lparr>hdr_buf := hb, hdr_off := 0, reget_len := int n, reget_off := 0, reget_type := ty\<rparr>"

lemma ReceiveStep_head:
  assumes "reget_len p < 0" and "hdr_off p = 0" and "length (hdr_buf p) = 16"
    and "n < 65536" and "0 \<le> ty" and "ty < 65536"
  shows "ReceiveStep E fp eof (frame_head wid ty n @ ys) p
    = recv_body E eof ys (head_read ty n (frame_head wid ty n @ drop OLANG_HEAD_LEN (hdr_buf p)) p)"
  using assms
  by (simp add: ReceiveStep_def sock_recv_append OLANG_HEAD_LEN_def store_def frame_head_read head_read_def)

lemma recv_body_full:
  assumes "reget_len p = int (length data)" and "reget_off p = 0" and "length data \<le> 8192"
    and "\<And>n. env_alloc E n"
  shows "\<exists>b. recv_body E eof (frame_rest data pad @ ys) p
    = (True, ys, p\<lparr>reget_buf := b, alive_get_wd := env_now E\<rparr>)
    \<and> take (length data) (the_bytes b) = data"
proof (cases "data = []")
  case True
  then have l: "reget_len p = 0" "frame_rest [] pad = st16 0" using assms by (simp_all add: frame_rest_def)
  have "sock_recv (st16 0 @ ys) eof OLANG_TAIL_LEN = (2, st16 0, ys)"
    by (simp add: sock_recv_append OLANG_TAIL_LEN_def)
  then show ?thesis using True
    by (intro exI [of _ None]) (simp add: recv_body_def l OLANG_MAX_PACKET_def OLANG_TAIL_LEN_def ld16_self
        recv_ready_def ohubWatchCheckSum_def OROTS_def)
next
  case False
  let ?r = "frame_rest data pad"
  let ?n = "length ?r"
  have n: "even_up (int (length data) + 2) = int ?n"
    using length_frame_rest [of data pad] by (simp add: OLANG_TAIL_LEN_def)
  have n0: "0 < ?n" by (simp add: frame_rest_def)
  have c: "ld16 E ?r (?n - 2) = 0"
    unfolding frame_rest_def by (subst append_assoc [symmetric], rule ld16_last) simp
  have tk: "take (length data) ?r = data" by (simp add: frame_rest_def)
  show ?thesis using assms False n0 c tk
    by (intro exI [of _ "Some (frame_rest data pad)"]) (simp add: recv_body_def n Let_def OLANG_MAX_PACKET_def sock_recv_append recv_ready_def OROTS_def
        ohubWatchCheckSum_def OLANG_TAIL_LEN_def)
qed

lemma ReceiveStep_frame:
  assumes "reget_len p < 0" and "hdr_off p = 0" and "length (hdr_buf p) = 16"
    and "length data \<le> 8192" and "0 \<le> ty" and "ty < 65536" and "\<And>n. env_alloc E n"
  shows "\<exists>p'. ReceiveStep E fp eof (frame wid ty data pad @ rest) p = (True, rest, p')
    \<and> reget_type p' = ty \<and> reget_len p' = int (length data)
    \<and> take (length data) (the_bytes (reget_buf p')) = data \<and> p_state p' = p_state p"
proof -
  let ?q = "head_read ty (length data) (frame_head wid ty (length data) @ drop OLANG_HEAD_LEN (hdr_buf p)) p"
  have q: "reget_len ?q = int (length data)" "reget_off ?q = 0" "reget_type ?q = ty" "p_state ?q = p_state p"
    by (simp_all add: head_read_def)
  have s: "ReceiveStep E fp eof (frame wid ty data pad @ rest) p
      = recv_body E eof (frame_rest data pad @ rest) ?q"
    using ReceiveStep_head [OF assms(1-3) _ assms(5,6), of "length data" E fp eof wid "frame_rest data pad @ rest"] assms(4)
    by (simp add: frame_split)
  obtain b where "recv_body E eof (frame_rest data pad @ rest) ?q
      = (True, rest, ?q\<lparr>reget_buf := b, alive_get_wd := env_now E\<rparr>)" "take (length data) (the_bytes b) = data"
    using recv_body_full [OF q(1,2) assms(4,7)] by metis
  then show ?thesis using s q by simp
qed

text \<open>A body that arrives in part.\<close>

lemma recv_body_part:
  assumes "reget_len p = int n" and "reget_off p = 0" and "0 < n" and "n \<le> 8192" and "\<And>n. env_alloc E n"
    and "part \<noteq> []" and "int (length part) < even_up (int n + 2)"
  shows "\<exists>b. recv_body E eof part p = (False, [], p\<lparr>reget_buf := Some b, reget_off := even_up (int n + 2)\<rparr>)"
proof -
  have "length part < nat (even_up (int n + 2))" using assms(7) by linarith
  then show ?thesis using assms
    by (auto simp: recv_body_def OLANG_MAX_PACKET_def OLANG_TAIL_LEN_def sock_recv_def min_def Let_def)
qed

lemma recv_again_dead:
  assumes "reget_len p \<ge> 0" and "reget_off p = even_up (reget_len p + 2)" and "reget_buf p = Some b"
  shows "ReceiveStep E fp eof rx p = (False, rx, p\<lparr>p_state := ST_EXIT\<rparr>)"
proof -
  have "even_up (reget_len p + 2 - even_up (reget_len p + 2)) = 0" by (simp add: even_up_def)
  then show ?thesis using assms by (simp add: ReceiveStep_def recv_again_def OLANG_TAIL_LEN_def sock_recv_def)
qed

section \<open>Properties\<close>

text \<open>
  C4. A stream loses, repeats and reorders nothing when packets are sent: as long as the
  connection is not given up, the bytes the socket has taken followed by the bytes still owed
  grow by exactly the frame of the packet when \<open>SendPacket\<close> returns OK, and not at all when it
  returns ERROR, whatever the socket answers.
\<close>

theorem send_conserves_stream:
  assumes "stream_ok p" and "send_args_ok len data" and "StreamSend E ci ty len data p = (rc, p')"
    and "p_state p' \<noteq> ST_EXIT"
  shows "stream_ok p' \<and> p_wire p' @ outstanding p' = p_wire p @ outstanding p
      @ (if rc = OK then frame (p_id p) ty (the_bytes data) 0 else [])"
  using StreamSend_law [OF assms] by simp

definition peer0 :: peer where
  "peer0 = \<lparr>p_state = ST_OPEN, p_id = 0x0201, needs_rotor = False, data_sock = 5, cntl_addr = no_addr,
     alive_get_wd = 0, alive_put_wd = 0, q_buf = replicate 3 no_packet, q_len = 0, q_size = 3, q_rd = 0,
     q_wr = 0, hdr_buf = replicate 16 0, hdr_off = 0, reget_type = -1, reget_len = -1, reget_off = -1,
     reget_buf = None, reput_type = -1, reput_len = -1, reput_off = -1, reput_buf = None, p_url = [],
     p_tx = [], p_utx = [], p_wire = [], p_dgrams = []\<rparr>"

lemma peer0_ok: "stream_ok peer0"
  by (simp add: stream_ok_def ring_ok_def queued_def peer0_def)

theorem send_conserves_stream_witness:
  "p_wire (snd (StreamSend env0 1 0x2007 2 (Some [7, 8]) (peer0\<lparr>p_tx := [Sent 7 False]\<rparr>)))
     @ outstanding (snd (StreamSend env0 1 0x2007 2 (Some [7, 8]) (peer0\<lparr>p_tx := [Sent 7 False]\<rparr>)))
   = frame 0x0201 0x2007 [7, 8] 0"
proof -
  let ?p = "peer0\<lparr>p_tx := [Sent 7 False]\<rparr>"
  have ok: "stream_ok ?p" by (simp add: stream_ok_def ring_ok_def queued_def peer0_def)
  have eq: "StreamSend env0 1 0x2007 2 (Some [7, 8]) ?p = (OK, snd (StreamSend env0 1 0x2007 2 (Some [7, 8]) ?p))"
    and st: "p_state (snd (StreamSend env0 1 0x2007 2 (Some [7, 8]) ?p)) \<noteq> ST_EXIT"
    by (simp_all add: StreamSend_def PokeStream_def PokeRetry_def PokeNew_def Let_def peer0_def env0_def
        OLANG_SMALL_PACKET_def OLANG_HEAD_LEN_def frame_len_def OLANG_TAIL_LEN_def)
  have a: "send_args_ok 2 (Some [7, 8])" by (simp add: send_args_ok_def)
  have "outstanding ?p = []" "p_wire ?p = []" "p_id ?p = 0x0201"
    by (simp_all add: outstanding_def put_rest_def queued_def peer0_def)
  then show ?thesis using send_conserves_stream [OF ok a eq st] by simp
qed



text \<open>
  When the retry of a partly sent packet meets a full socket (\<open>send\<close> returns -1), the
  offset steps back: the bytes still owed then start with the last byte that was already
  sent, which the receiver will see twice.
\<close>

theorem failed_retry_repeats_byte:
  assumes "stream_ok p" and "0 < reput_off p" and "reput_off p < reput_len p" and "p_tx p = Again # r"
  shows "p_wire (ResendStream E p) = p_wire p
    \<and> outstanding (ResendStream E p) = the_bytes (reput_buf p) ! nat (reput_off p - 1) # outstanding p"
proof -
  let ?b = "the_bytes (reput_buf p)" and ?o = "nat (reput_off p - 1)"
  have eq: "ResendStream E p = p\<lparr>p_tx := r, reput_off := reput_off p - 1\<rparr>"
    using PokeRetry_again [OF assms] assms by (simp add: ResendStream.simps [of E p])
  have l: "?o < length ?b" "nat (reput_off p) = Suc ?o" using assms by (auto simp: stream_ok_def)
  then have "drop ?o ?b = ?b ! ?o # drop (nat (reput_off p)) ?b" by (simp add: Cons_nth_drop_Suc)
  then show ?thesis using assms(2,3)
    by (simp add: eq outstanding_def put_rest_def queued_def pkt_frame_def [abs_def])
qed

theorem failed_retry_repeats_byte_witness:
  "outstanding (ResendStream env0 (peer0\<lparr>reput_len := 3, reput_off := 2, reput_buf := Some [1, 2, 3],
     p_tx := [Again]\<rparr>)) = [2, 3]"
proof -
  let ?p = "peer0\<lparr>reput_len := 3, reput_off := 2, reput_buf := Some [1, 2, 3], p_tx := [Again]\<rparr>"
  have ok: "stream_ok ?p" by (simp add: stream_ok_def ring_ok_def queued_def peer0_def)
  show ?thesis using failed_retry_repeats_byte [OF ok, of "[]" env0]
    by (simp add: outstanding_def put_rest_def queued_def peer0_def)
qed

text \<open>
  C5. What the hub's framing sends, its stream reader gets back: a connection between packets
  that finds a complete frame in the kernel yields exactly that packet (type, length, data)
  and leaves the bytes behind the frame unread, for any data of at most 8192 bytes.
\<close>

theorem receive_inverts_frame:
  assumes "reget_len p < 0" and "hdr_off p = 0" and "length (hdr_buf p) = 16"
    and "length data \<le> 8192" and "0 \<le> ty" and "ty < 65536" and "\<And>n. env_alloc E n"
  shows "\<exists>p'. ReceiveStep E fp eof (frame wid ty data pad @ rest) p = (True, rest, p')
    \<and> reget_type p' = ty \<and> reget_len p' = int (length data)
    \<and> take (length data) (the_bytes (reget_buf p')) = data \<and> p_state p' = p_state p"
  by (rule ReceiveStep_frame [OF assms])

theorem receive_inverts_frame_witness:
  "\<exists>p'. ReceiveStep env0 True False (frame 5 0x2007 [1, 2, 3] 0 @ [9]) peer0 = (True, [9], p')
    \<and> take 3 (the_bytes (reget_buf p')) = [1, 2, 3]"
  using receive_inverts_frame [where p = peer0 and data = "[1, 2, 3]" and ty = "0x2007" and E = env0
      and fp = True and eof = False and wid = "5" and pad = "0" and rest = "[9]"]
  by (auto simp: peer0_def env0_def numeral_3_eq_3)

text \<open>
  A packet whose body arrives in two parts breaks the connection: after the header and a
  proper part of the body, the next turn of the reader gives the connection up without
  reading, whatever has arrived by then.
\<close>

theorem partial_body_breaks_stream:
  assumes "reget_len p < 0" and "hdr_off p = 0" and "length (hdr_buf p) = 16"
    and "0 < n" and "n \<le> 8192" and "0 \<le> ty" and "ty < 65536" and "\<And>n. env_alloc E n"
    and "part \<noteq> []" and "int (length part) < even_up (int n + 2)"
    and "ReceiveStep E fp eof (frame_head wid ty n @ part) p = (ready, rx, p')"
  shows "\<not> ready \<and> p_state p' = p_state p
    \<and> ReceiveStep E' fp' eof' rx' p' = (False, rx', p'\<lparr>p_state := ST_EXIT\<rparr>)"
proof -
  let ?q = "head_read ty n (frame_head wid ty n @ drop OLANG_HEAD_LEN (hdr_buf p)) p"
  have q: "reget_len ?q = int n" "reget_off ?q = 0" "p_state ?q = p_state p" by (simp_all add: head_read_def)
  have "ReceiveStep E fp eof (frame_head wid ty n @ part) p = recv_body E eof part ?q"
    using ReceiveStep_head [OF assms(1-3) _ assms(6,7), of n E fp eof wid part] assms(5) by simp
  moreover obtain b where "recv_body E eof part ?q = (False, [], ?q\<lparr>reget_buf := Some b, reget_off := even_up (int n + 2)\<rparr>)"
    using recv_body_part [OF q(1,2) assms(4,5,8-10)] by metis
  ultimately have r: "\<not> ready" "p' = ?q\<lparr>reget_buf := Some b, reget_off := even_up (int n + 2)\<rparr>"
    using assms(11) by auto
  have "ReceiveStep E' fp' eof' rx' p' = (False, rx', p'\<lparr>p_state := ST_EXIT\<rparr>)"
    by (rule recv_again_dead [of _ b]) (simp_all add: r q)
  then show ?thesis using r q by simp
qed

theorem partial_body_breaks_stream_witness:
  "\<exists>p'. snd (snd (ReceiveStep env0 True False (frame_head 5 0x2007 3 @ [1, 2]) peer0)) = p'
    \<and> p_state (snd (snd (ReceiveStep env0 True False [3, 0, 0] p'))) = ST_EXIT"
proof -
  obtain ready rx p' where s: "ReceiveStep env0 True False (frame_head 5 0x2007 3 @ [1, 2]) peer0 = (ready, rx, p')"
    by (metis prod_cases3)
  have "ReceiveStep env0 True False [3, 0, 0] p' = (False, [3, 0, 0], p'\<lparr>p_state := ST_EXIT\<rparr>)"
    using partial_body_breaks_stream [where E' = env0 and fp' = True and eof' = False and rx' = "[3, 0, 0]",
        OF _ _ _ _ _ _ _ _ _ _ s]
    by (simp add: peer0_def env0_def even_up_def)
  then show ?thesis using s by simp
qed

section \<open>A socket that takes everything\<close>

definition taking :: "env \<Rightarrow> 'a peer_scheme \<Rightarrow> bool" where
  "taking E p \<longleftrightarrow> p_tx p = [] \<and> (\<forall>n. env_alloc E n) \<and> stream_ok p \<and> p_state p \<noteq> ST_EXIT"

lemma PokeRetry_taking:
  assumes "taking E p" and "PokeRetry E p = (rc, p')"
  shows "rc = OK \<and> p_tx p' = [] \<and> reput_len p' < 0 \<and> p_state p' = p_state p \<and> stream_ok p' \<and> q_len p' = q_len p"
proof -
  have "retry_ok p" using assms(1) by (simp add: taking_def retry_ok_def)
  note l = PokeRetry_law [OF _ this assms(2)]
  have "rc = OK" "p_tx p' = []" using assms by (auto simp: PokeRetry_def taking_def Let_def split: if_splits)
  then show ?thesis using l assms(1) PokeRetry_len [of E p] assms(2) by (simp add: taking_def)
qed

lemma PokeNew_taking:
  assumes "taking E p" and "reput_len p < 0" and "length dp = len" and "PokeNew E ty len dp p = (rc, p')"
  shows "rc = OK \<and> p_tx p' = [] \<and> reput_len p' < 0 \<and> p_state p' = p_state p \<and> stream_ok p' \<and> q_len p' = q_len p"
proof -
  have e: "rc = OK \<and> p_tx p' = [] \<and> reput_len p' < 0 \<and> p_state p' = p_state p"
    using assms by (auto simp: PokeNew_def taking_def Let_def)
  have s: "stream_ok p" "p_state p' \<noteq> ST_EXIT" using assms(1) e by (simp_all add: taking_def)
  note l = PokeNew_law [OF s(1) assms(2,3,4) s(2)]
  show ?thesis using e l(1) PokeNew_len [of E ty len dp p] assms(4) by simp
qed

lemma ResendStream_taking:
  "taking E p \<Longrightarrow> taking E (ResendStream E p) \<and> q_len (ResendStream E p) = 0 \<and> reput_len (ResendStream E p) < 0
    \<and> p_state (ResendStream E p) = p_state p"
proof (induction E p rule: ResendStream.induct)
  case (1 E p)
  obtain rc p1 where s1: "(if reput_len p \<ge> 0 then PokeStream E (-1) (-1) None p else (OK, p)) = (rc, p1)"
    by (metis prod.exhaust)
  obtain rq pq where rq: "PokeRetry E p = (rq, pq)" by (metis prod.exhaust)
  have "rc = OK \<and> p1 = pq"
  proof (cases "reput_len p \<ge> 0")
    case True
    then have "PokeStream E (-1) (-1) None p = (rc, p1)" using s1 by simp
    then show ?thesis using rq PokeRetry_taking [OF 1(2) rq] by (simp add: PokeStream_def)
  next
    case False
    then have "PokeRetry E p = (OK, p)" by (simp add: PokeRetry_def)
    then show ?thesis using s1 rq False by simp
  qed
  then have l1: "rc = OK" "p_tx p1 = []" "reput_len p1 < 0" "p_state p1 = p_state p" "stream_ok p1"
    using PokeRetry_taking [OF 1(2) rq] by simp_all
  have t1: "taking E p1" using l1 1(2) by (simp add: taking_def)
  show ?case
  proof (cases "q_len p1 = 0")
    case True
    then have "ResendStream E p = p1" using s1 l1(1) by (simp add: ResendStream.simps [of E p])
    then show ?thesis using t1 l1 True by simp
  next
    case ne: False
    let ?pk = "q_buf p1 ! q_rd p1"
    obtain rc2 p2 where s2: "PokeStream E (pk_type ?pk) (pk_len ?pk) (pk_buf ?pk) p1 = (rc2, p2)"
      by (metis prod.exhaust)
    have pk: "pk_ok ?pk" by (rule ring_get_law(3) [OF l1(5) ne])
    have n2: "PokeNew E (pk_type ?pk) (nat (pk_len ?pk)) (the_bytes (pk_buf ?pk)) p1 = (rc2, p2)"
      using s2 pk l1(3) by (auto simp: PokeStream_def PokeRetry_def pk_ok_def)
    have len: "length (the_bytes (pk_buf ?pk)) = nat (pk_len ?pk)" using pk by (simp add: pk_ok_def)
    note l2 = PokeNew_taking [OF t1 l1(3) len n2]
    let ?p3 = "ring_get p2"
    have ne2: "q_len p2 \<noteq> 0" using l2 ne by simp
    have "stream_ok ?p3" by (rule ring_get_law(1) [OF _ ne2]) (simp add: l2)
    then have t3: "taking E ?p3" using l2 t1 by (simp add: taking_def ring_get_def)
    have r3: "reput_len ?p3 < 0" "p_state ?p3 = p_state p" using l1 l2 by (simp_all add: ring_get_def)
    have ex: "ResendStream E p = (if q_len ?p3 = 0 \<or> reput_len ?p3 \<ge> 0 then ?p3 else ResendStream E ?p3)"
      using s1 s2 l1(1) l2 ne by (simp add: ResendStream.simps [of E p])
    show ?thesis
    proof (cases "q_len ?p3 = 0")
      case True
      then show ?thesis using ex t3 r3 by simp
    next
      case False
      have n: "\<not> (q_len ?p3 = 0 \<or> reput_len ?p3 \<ge> 0)" using False r3(1) by simp
      have e: "ResendStream E p = ResendStream E ?p3" using ex n by simp
      have IH: "taking E (ResendStream E ?p3) \<and> q_len (ResendStream E ?p3) = 0 \<and> reput_len (ResendStream E ?p3) < 0
          \<and> p_state (ResendStream E ?p3) = p_state ?p3"
        by (rule 1(1) [OF s1 [symmetric] refl _ _ refl s2 [symmetric] refl _ refl n t3]) (use l1 l2 ne in simp_all)
      show ?thesis using IH e r3(2) by simp
    qed
  qed
qed

text \<open>
  C26. When the socket takes what it is given, one call of \<open>ResendStream\<close> sends everything that
  is owed: the rest of the packet that went out in part and every queued packet, in order. The
  queue is empty afterwards and the connection is as it was.
\<close>

theorem resend_drains_queue:
  assumes "stream_ok p" and "p_state p \<noteq> ST_EXIT" and "p_tx p = []" and "\<forall>n. env_alloc E n"
  shows "p_wire (ResendStream E p) = p_wire p @ outstanding p \<and> q_len (ResendStream E p) = 0
    \<and> outstanding (ResendStream E p) = [] \<and> p_state (ResendStream E p) = p_state p"
proof -
  have t: "taking E p" "retry_ok p" using assms by (simp_all add: taking_def retry_ok_def)
  note d = ResendStream_taking [OF t(1)]
  have "outstanding (ResendStream E p) = []" using d by (simp add: outstanding_def put_rest_def queued_def)
  then show ?thesis using ResendStream_law [OF assms(1) t(2) assms(2), of E] d assms(2) by simp
qed

theorem resend_drains_queue_witness:
  "q_len (ResendStream env0 (ring_put \<lparr>pk_type = 0x2007, pk_len = 0, pk_buf = None\<rparr> peer0)) = 0"
proof -
  let ?p = "ring_put \<lparr>pk_type = 0x2007, pk_len = 0, pk_buf = None\<rparr> peer0"
  have "stream_ok ?p" "p_state ?p \<noteq> ST_EXIT" "p_tx ?p = []" "\<forall>n. env_alloc env0 n"
    by (simp_all add: stream_ok_def ring_ok_def queued_def peer0_def ring_put_def ring_next_def pk_ok_def env0_def)
  from resend_drains_queue [OF this] show ?thesis by simp
qed

end
