(* ===== verification/HubNet.thy ===== *)
theory HubNet
  imports Peer
begin

text \<open>
  The two connection tables of the hub and sending through them: hub-watch.c (watchers) and
  hub-subj.c (agents). The record \<open>hubnet\<close> holds the tables and the globals of the two files;
  the components that keep more state extend it. A pointer to a table entry is its index;
  entry 32 of either table stands for \<open>ohub_cntl_watch\<close> and \<open>ohub_cntl_subj\<close>, the records used
  for datagrams without identifier. A table that is not allocated is the empty list.
\<close>

section \<open>Tables\<close>

definition OHUB_MAX_WATCH :: nat where "OHUB_MAX_WATCH = 32"
definition OHUB_MAX_SUBJ :: nat where "OHUB_MAX_SUBJ = 32"
definition OHUB_MON_ACCUM_SIZE :: nat where "OHUB_MON_ACCUM_SIZE = 2800"
definition OHUB_MON_ACCUM_TTL :: int where "OHUB_MON_ACCUM_TTL = 10"
definition OHUB_UNREG_ACCUM_SIZE :: nat where "OHUB_UNREG_ACCUM_SIZE = 200"
definition OHUB_UNREG_ACCUM_TTL :: int where "OHUB_UNREG_ACCUM_TTL = 10"

text \<open>
  \<open>OhubMonAccum_t\<close>: its buffer is kept as the bytes written so far, so \<open>off\<close> is its length
  (byte 0 is the count of values, filled in when the packet is sent).
\<close>

record monaccum =
  ac_buf :: bytes
  ac_qty :: nat
  ac_start :: int

record unregaccum =
  ua_buf :: "u32 list"
  ua_start :: int

record netwatch = peer +
  announce_blocked :: bool
  nw_version :: int
  watch_desc :: bytes
  accum :: monaccum

record netsubj = peer +
  data_addr :: sockaddr
  cmnd_addr :: sockaddr
  ping_cur_ms :: int
  ping_wd :: int
  ns_agent :: "nat option"
  unreg_accum :: unregaccum

record hubnet =
  watchers :: "netwatch list"
  subjs :: "netsubj list"
  next_watch_id :: u16
  next_subj_id :: u16
  watch_can_immed :: int
  subj_can_immed :: int
  watch_q_size :: nat
  subj_q_size :: nat
  watchers_enable :: bool
  subjs_enable :: bool
  fault :: bool

text \<open>
  \<open>fault\<close> is not in the code. It is set where the code dereferences a NULL or freed pointer,
  reads an uninitialised variable or writes past a buffer, and never cleared: from there on
  the behaviour of the program is undefined.
\<close>

definition set_fault :: "bool \<Rightarrow> 'a hubnet_scheme \<Rightarrow> 'a hubnet_scheme" where
  "set_fault b h = (if b then h\<lparr>fault := True\<rparr> else h)"

definition no_accum :: monaccum where
  "no_accum = \<lparr>ac_buf = [0], ac_qty = 0, ac_start = 0\<rparr>"

definition no_unreg :: unregaccum where
  "no_unreg = \<lparr>ua_buf = [], ua_start = 0\<rparr>"

definition upd_watch :: "nat \<Rightarrow> (netwatch \<Rightarrow> netwatch) \<Rightarrow> 'a hubnet_scheme \<Rightarrow> 'a hubnet_scheme" where
  "upd_watch i f h = h\<lparr>watchers := (watchers h)[i := f (watchers h ! i)]\<rparr>"

definition upd_subj :: "nat \<Rightarrow> (netsubj \<Rightarrow> netsubj) \<Rightarrow> 'a hubnet_scheme \<Rightarrow> 'a hubnet_scheme" where
  "upd_subj i f h = h\<lparr>subjs := (subjs h)[i := f (subjs h ! i)]\<rparr>"

section \<open>Sending to watchers\<close>

definition ohubWatchPokeStream :: "env \<Rightarrow> int \<Rightarrow> int \<Rightarrow> bytes option \<Rightarrow> netwatch \<Rightarrow> oret \<times> netwatch" where
  "ohubWatchPokeStream E ty len dp w = PokeStream E ty len dp w"

definition ohubWatchResendStream :: "env \<Rightarrow> netwatch \<Rightarrow> netwatch" where
  "ohubWatchResendStream E w = ResendStream E w"

definition watch_send1 ::
  "env \<Rightarrow> nat \<Rightarrow> int \<Rightarrow> int \<Rightarrow> int \<Rightarrow> bytes option \<Rightarrow> 'a hubnet_scheme \<Rightarrow> oret \<times> 'a hubnet_scheme" where
  "watch_send1 E i kind ty len data h =
     (if len < 0 \<or> (len > 0 \<and> data = None) then (ERROR, h)
      else if kind = OLANG_CONTROL \<or> kind = OLANG_COMMAND then
        let (rc, w) = DatagramSend E ty len data (watchers h ! i);
            w = (if rc = OK then w\<lparr>alive_put_wd := env_now E\<rparr> else w)
        in (rc, upd_watch i (\<lambda>_. w) h)
      else if kind \<noteq> OLANG_DATA then (ERROR, h)
      else if p_state (watchers h ! i) \<noteq> ST_OPEN then (ERROR, h)
      else
        let (rc, w) = StreamSend E (watch_can_immed h) ty len data (watchers h ! i)
        in (rc, upd_watch i (\<lambda>_. w) h))"

text \<open>With no receiver the packet goes to every open watcher; \<open>num\<close> counts the failures.\<close>

fun watch_broadcast ::
  "env \<Rightarrow> nat list \<Rightarrow> int \<Rightarrow> int \<Rightarrow> int \<Rightarrow> bytes option \<Rightarrow> nat \<times> 'a hubnet_scheme \<Rightarrow> nat \<times> 'a hubnet_scheme" where
  "watch_broadcast E [] kind ty len data (num, h) = (num, h)"
| "watch_broadcast E (i # is) kind ty len data (num, h) =
     (if p_state (watchers h ! i) = ST_OPEN then
        let (rc, h1) = watch_send1 E i kind ty len data h
        in watch_broadcast E is kind ty len data (if rc \<noteq> OK then Suc num else num, h1)
      else watch_broadcast E is kind ty len data (num, h))"

definition ohubWatchSendPacket ::
  "env \<Rightarrow> nat option \<Rightarrow> int \<Rightarrow> int \<Rightarrow> int \<Rightarrow> bytes option \<Rightarrow> 'a hubnet_scheme \<Rightarrow> oret \<times> 'a hubnet_scheme" where
  "ohubWatchSendPacket E pnwatch kind ty len data h =
     (if len < 0 \<or> (len > 0 \<and> data = None) then (ERROR, h)
      else case pnwatch of
        None \<Rightarrow> let (num, h1) = watch_broadcast E [1..<OHUB_MAX_WATCH] kind ty len data (0, h)
                in (if num \<noteq> 0 then ERROR else OK, h1)
      | Some i \<Rightarrow> watch_send1 E i kind ty len data h)"

section \<open>Sending to agents\<close>

definition ohubSubjPokeStream :: "env \<Rightarrow> int \<Rightarrow> int \<Rightarrow> bytes option \<Rightarrow> netsubj \<Rightarrow> oret \<times> netsubj" where
  "ohubSubjPokeStream E ty len dp s = PokeStream E ty len dp s"

definition ohubSubjResendStream :: "env \<Rightarrow> netsubj \<Rightarrow> netsubj" where
  "ohubSubjResendStream E s = ResendStream E s"

definition ohubSubjSendPacket ::
  "env \<Rightarrow> nat \<Rightarrow> int \<Rightarrow> int \<Rightarrow> int \<Rightarrow> bytes option \<Rightarrow> 'a hubnet_scheme \<Rightarrow> oret \<times> 'a hubnet_scheme" where
  "ohubSubjSendPacket E i kind ty len data h =
     (if len < 0 \<or> (len > 0 \<and> data = None) then (ERROR, h)
      else if kind = OLANG_CONTROL \<or> kind = OLANG_COMMAND then
        let (rc, s) = DatagramSend E ty len data (subjs h ! i)
        in (rc, upd_subj i (\<lambda>_. s) h)
      else if kind \<noteq> OLANG_DATA then (ERROR, h)
      else
        let (rc, s) = StreamSend E (subj_can_immed h) ty len data (subjs h ! i)
        in (rc, upd_subj i (\<lambda>_. s) h))"

section \<open>Opening and finding watchers\<close>

text \<open>The first idle entry from \<open>i\<close> on.\<close>

fun find_idle :: "nat list \<Rightarrow> 'a peer_scheme list \<Rightarrow> nat option" where
  "find_idle [] ps = None"
| "find_idle (i # is) ps = (if p_state (ps ! i) = ST_NONE then Some i else find_idle is ps)"

definition bump_id :: "u16 \<Rightarrow> u16" where
  "bump_id n = (if (n + 1) AND 0xFF = 0 then n + 2 else n + 1)"

definition make_id :: "nat \<Rightarrow> u16 \<Rightarrow> u16" where
  "make_id i n = (word_of_nat i AND 0xFF) OR push_bit 8 (n AND 0xFF)"

definition clear_streams :: "'a peer_scheme \<Rightarrow> 'a peer_scheme" where
  "clear_streams p = p\<lparr>hdr_off := 0, reget_buf := None, reput_buf := None,
     reget_len := -1, reget_off := -1, reget_type := -1,
     reput_len := -1, reput_off := -1, reput_type := -1\<rparr>"

text \<open>\<open>strcpy(url, "?")\<close>.\<close>

definition ohubWatchOpen :: "env \<Rightarrow> 'a hubnet_scheme \<Rightarrow> nat option \<times> 'a hubnet_scheme" where
  "ohubWatchOpen E h =
     (if watchers h = [] then (None, h)
      else case find_idle [1..<OHUB_MAX_WATCH] (watchers h) of
        None \<Rightarrow> (None, h)
      | Some i \<Rightarrow>
          let nid = bump_id (next_watch_id h);
              h1 = upd_watch i (\<lambda>w. w\<lparr>p_state := ST_WAIT, announce_blocked := False,
                     p_id := make_id i nid, data_sock := 0, alive_get_wd := 0, alive_put_wd := 0,
                     q_len := 0, q_rd := 0, q_wr := 0, q_size := watch_q_size h\<rparr>)
                   (h\<lparr>next_watch_id := nid\<rparr>)
          in if watch_q_size h = 0 \<or> \<not> env_alloc E (12 * watch_q_size h) then
               (None, upd_watch i (\<lambda>w. w\<lparr>q_buf := [], q_size := 0, p_state := ST_NONE\<rparr>) h1)
             else
               (Some i, upd_watch i (\<lambda>w. (clear_streams w)\<lparr>q_buf := replicate (watch_q_size h) no_packet,
                   needs_rotor := False, cntl_addr := no_addr, p_url := [63],
                   accum := (accum w)\<lparr>ac_buf := [0]\<rparr>\<rparr>) h1))"

text \<open>
  The part of \<open>ohubWatchClose\<close> that resets the entry. The components' clean-up that the
  function starts with is added where they are known (theory HubMain). As in the code
  \<open>reput_off\<close> keeps its value: the source assigns \<open>reput_len\<close> twice.
\<close>

definition watch_reset :: "netwatch \<Rightarrow> netwatch" where
  "watch_reset w = w\<lparr>data_sock := 0, q_buf := [], q_rd := 0, q_wr := 0, q_len := 0, q_size := 0,
     hdr_off := 0, reget_buf := None, reget_len := -1, reget_off := -1, reget_type := -1,
     reput_buf := None, reput_len := -1, reput_type := -1,
     needs_rotor := False, cntl_addr := no_addr, alive_get_wd := 0, alive_put_wd := 0,
     p_id := 0, p_state := ST_NONE\<rparr>"

definition ohubWatchGetById :: "u16 \<Rightarrow> 'a hubnet_scheme \<Rightarrow> nat option" where
  "ohubWatchGetById wid h =
     (let n = unat (wid AND 255) in
      if n < 1 \<or> n \<ge> OHUB_MAX_WATCH then None
      else if p_state (watchers h ! n) \<noteq> ST_WAIT \<and> p_state (watchers h ! n) \<noteq> ST_OPEN then None
      else if wid \<noteq> p_id (watchers h ! n) then None
      else Some n)"

text \<open>
  The accessors that accept a NULL pointer, and the accumulators.
\<close>

definition ohubWatchAnnounceBlocked :: "nat option \<Rightarrow> 'a hubnet_scheme \<Rightarrow> bool" where
  "ohubWatchAnnounceBlocked w h = (case w of None \<Rightarrow> True | Some i \<Rightarrow> announce_blocked (watchers h ! i))"

definition ohubWatchNeedsRotor :: "nat option \<Rightarrow> 'a hubnet_scheme \<Rightarrow> bool" where
  "ohubWatchNeedsRotor w h = (case w of None \<Rightarrow> False | Some i \<Rightarrow> needs_rotor (watchers h ! i))"

definition ohubWatchSendQueueGap :: "nat option \<Rightarrow> 'a hubnet_scheme \<Rightarrow> int" where
  "ohubWatchSendQueueGap w h =
     (case w of None \<Rightarrow> -1 | Some i \<Rightarrow> int (q_size (watchers h ! i)) - int (q_len (watchers h ! i)))"

definition ohubWatchGetAccum :: "nat \<Rightarrow> 'a hubnet_scheme \<Rightarrow> monaccum" where
  "ohubWatchGetAccum i h = accum (watchers h ! i)"

definition ohubSubjNeedsRotor :: "nat option \<Rightarrow> 'a hubnet_scheme \<Rightarrow> bool" where
  "ohubSubjNeedsRotor s h = (case s of None \<Rightarrow> False | Some i \<Rightarrow> needs_rotor (subjs h ! i))"

definition ohubSubjSendQueueGap :: "nat option \<Rightarrow> 'a hubnet_scheme \<Rightarrow> int" where
  "ohubSubjSendQueueGap s h =
     (case s of None \<Rightarrow> -1 | Some i \<Rightarrow> int (q_size (subjs h ! i)) - int (q_len (subjs h ! i)))"

definition ohubSubjGetUnregAccum :: "nat \<Rightarrow> 'a hubnet_scheme \<Rightarrow> unregaccum" where
  "ohubSubjGetUnregAccum i h = unreg_accum (subjs h ! i)"

section \<open>Pinging agents\<close>

text \<open>C integer division of the interval: \<open>OLANG_PING_COEF0..2\<close> are 1, 4 and 5.\<close>

definition next_interval :: "int \<Rightarrow> int" where
  "next_interval interval =
     (let iv = (interval * 5) div 4 + 1 in if iv > OLANG_PING_MAX_MS then OLANG_PING_MAX_MS else iv)"

definition ohubSubjPing :: "env \<Rightarrow> nat \<Rightarrow> 'a hubnet_scheme \<Rightarrow> 'a hubnet_scheme" where
  "ohubSubjPing E i h =
     (let s = subjs h ! i; delta = env_now E - ping_wd s in
      if \<not> subjs_enable h then h
      else if delta \<ge> 0 \<and> delta < ping_cur_ms s \<and> ping_wd s \<noteq> 0 then h
      else
        let h1 = upd_subj i (\<lambda>s. s\<lparr>ping_wd := env_now E, ping_cur_ms := next_interval (ping_cur_ms s)\<rparr>) h
        in snd (ohubSubjSendPacket E i OLANG_CONTROL OLANG_PING_REQ 4
             (Some (st16 (OHTONS OLANG_VERSION) @ st16 0)) h1))"

definition ohubSubjTrigger :: "env \<Rightarrow> nat \<Rightarrow> 'a hubnet_scheme \<Rightarrow> oret \<times> 'a hubnet_scheme" where
  "ohubSubjTrigger E i h =
     (if p_state (subjs h ! i) \<noteq> ST_WAIT then (ERROR, h)
      else (OK, ohubSubjPing E i
             (upd_subj i (\<lambda>s. s\<lparr>ping_cur_ms := OLANG_PING_MIN_MS, ping_wd := 0\<rparr>) h)))"

section \<open>What sending leaves alone\<close>

text \<open>
  Sending changes of a connection only its send queue, the partly sent packet, the time of
  the last send and, when the connection breaks, its state; it keeps the ring of packets and,
  while the connection lives, the invariant of its byte stream.
\<close>

definition peer_frame :: "'a peer_scheme \<Rightarrow> 'a peer_scheme \<Rightarrow> bool" where
  "peer_frame p p' \<longleftrightarrow> peer.more p' = peer.more p \<and> p_id p' = p_id p \<and> needs_rotor p' = needs_rotor p
     \<and> data_sock p' = data_sock p \<and> cntl_addr p' = cntl_addr p \<and> alive_get_wd p' = alive_get_wd p
     \<and> hdr_buf p' = hdr_buf p \<and> hdr_off p' = hdr_off p \<and> reget_type p' = reget_type p
     \<and> reget_len p' = reget_len p \<and> reget_off p' = reget_off p \<and> reget_buf p' = reget_buf p
     \<and> p_url p' = p_url p \<and> q_size p' = q_size p
     \<and> (p_state p' = p_state p \<or> p_state p' = ST_EXIT) \<and> (ring_ok p \<longrightarrow> ring_ok p')
     \<and> (stream_ok p \<and> p_state p' \<noteq> ST_EXIT \<longrightarrow> stream_ok p')"

lemma peer_frame_refl [simp]: "peer_frame p p"
  by (simp add: peer_frame_def)

lemma peer_frame_trans: "peer_frame p q \<Longrightarrow> peer_frame q r \<Longrightarrow> peer_frame p r"
  unfolding peer_frame_def by auto

lemma peer_frame_same_queue:
  assumes "peer.more p' = peer.more p" and "same_queue p p'" and "needs_rotor p' = needs_rotor p"
    and "data_sock p' = data_sock p" and "cntl_addr p' = cntl_addr p" and "alive_get_wd p' = alive_get_wd p"
    and "hdr_buf p' = hdr_buf p" and "hdr_off p' = hdr_off p" and "reget_type p' = reget_type p"
    and "reget_len p' = reget_len p" and "reget_off p' = reget_off p" and "reget_buf p' = reget_buf p"
    and "p_url p' = p_url p" and "p_state p' = p_state p \<or> p_state p' = ST_EXIT"
    and "stream_ok p \<and> p_state p' \<noteq> ST_EXIT \<longrightarrow> stream_ok p'"
  shows "peer_frame p p'"
  using assms same_queueD [OF assms(2)] by (simp add: peer_frame_def same_queue_def)

lemma PokeNew_frame:
  assumes r: "reput_len p < 0" and d: "length dp = len" and eq: "PokeNew E ty len dp p = (rc, p')"
  shows "peer_frame p p'"
proof (rule peer_frame_same_queue)
  show "stream_ok p \<and> p_state p' \<noteq> ST_EXIT \<longrightarrow> stream_ok p'"
    using PokeNew_law(1) [OF _ r d eq] by blast
  show "same_queue p p'"
    using eq by (auto simp: PokeNew_def Let_def same_queue_def split: if_splits prod.splits)
qed (use eq in \<open>auto simp: PokeNew_def Let_def split: if_splits prod.splits\<close>)

lemma ring_ok_spare: "ring_ok (p\<lparr>q_buf := (q_buf p)[i := x]\<rparr>) = ring_ok p"
  by (simp add: ring_ok_def)

lemma QueuePacket_frame:
  assumes a: "0 \<le> len" "length (the_bytes data) = nat len" "len > 0 \<longrightarrow> data \<noteq> None"
    and eq: "QueuePacket E ty len data p = (rc, p')"
  shows "peer_frame p p'"
proof -
  have s: "stream_ok p \<longrightarrow> stream_ok p'"
    using QueuePacket_law [OF _ _ eq] a by (auto simp: send_args_ok_def)
  have r: "ring_ok p \<longrightarrow> ring_ok p'"
    using eq ring_put_ok [of p] by (auto simp: QueuePacket_def ring_ok_spare split: if_splits)
  show ?thesis using s r eq unfolding peer_frame_def
    by (auto simp: QueuePacket_def ring_put_def split: if_splits)
qed

lemma rd_bytes_again: "length d = n \<Longrightarrow> rd_bytes E d 0 n = d"
  by auto

lemma PokeNew_read: "PokeNew E ty len (rd_bytes E d 0 len) p = PokeNew E ty len d p"
  by (simp add: PokeNew_def rd_bytes_again Let_def)

lemma QueuePacket_read:
  "QueuePacket E ty len (Some (rd_bytes E (the_bytes d) 0 (nat len))) p
    = QueuePacket E ty len d p"
  by (simp add: QueuePacket_def rd_bytes_again)

lemma StreamSend_frame:
  assumes l: "0 \<le> len" "len > 0 \<longrightarrow> data \<noteq> None" and eq: "StreamSend E ci ty len data p = (rc, p')"
  shows "peer_frame p p'"
proof -
  let ?d = "rd_bytes E (the_bytes data) 0 (nat len)"
  have q: "peer_frame x x'" if "QueuePacket E ty len data x = (c, x')" for x x' c
    using QueuePacket_frame [of len "Some ?d" E ty x c x'] that l
    by (simp add: QueuePacket_read)
  have n: "peer_frame x x'" if "PokeNew E ty (nat len) (the_bytes data) x = (c, x')" "reput_len x < 0" for x x' c
    using PokeNew_frame [of x ?d "nat len" E ty c x'] that by (simp add: PokeNew_read)
  show ?thesis
  proof (cases "q_len p = 0 \<and> reput_len p < 0 \<and> ci \<noteq> 0 \<and> (len < OLANG_SMALL_PACKET \<or> ci > 1)")
    case False
    then show ?thesis using eq q by (auto simp: StreamSend_def)
  next
    case True
    obtain c1 p1 where s: "PokeNew E ty (nat len) (the_bytes data) p = (c1, p1)" by (metis prod.exhaust)
    have "PokeStream E ty len data p = (c1, p1)"
      using s True l by (auto simp: PokeStream_def PokeRetry_def)
    then show ?thesis using True eq n [OF s] q [of p1 rc p'] peer_frame_trans
      by (auto simp: StreamSend_def split: if_splits)
  qed
qed

lemma DatagramSend_frame: "DatagramSend E ty len data p = (rc, p') \<Longrightarrow> peer_frame p p'"
  by (auto simp: DatagramSend_def Let_def peer_frame_def stream_ok_def ring_ok_def queued_def
      split: if_splits prod.splits)


text \<open>The same for entries of the two tables, and for the state that holds them.\<close>

definition watch_frame :: "netwatch \<Rightarrow> netwatch \<Rightarrow> bool" where
  "watch_frame w w' \<longleftrightarrow> peer_frame (peer.truncate w) (peer.truncate w') \<and> announce_blocked w' = announce_blocked w
     \<and> nw_version w' = nw_version w \<and> watch_desc w' = watch_desc w"

definition subj_frame :: "netsubj \<Rightarrow> netsubj \<Rightarrow> bool" where
  "subj_frame s s' \<longleftrightarrow> peer_frame (peer.truncate s) (peer.truncate s') \<and> data_addr s' = data_addr s
     \<and> cmnd_addr s' = cmnd_addr s \<and> ns_agent s' = ns_agent s"

lemma stream_ok_truncate [simp]:
  "ring_ok (peer.truncate p) = ring_ok p" "stream_ok (peer.truncate p) = stream_ok p"
  by (simp_all add: ring_ok_def stream_ok_def queued_def peer.truncate_def)

lemma peer_frame_truncate: "peer_frame p p' \<Longrightarrow> peer_frame (peer.truncate p) (peer.truncate p')"
proof -
  assume "peer_frame p p'"
  then show ?thesis
    unfolding peer_frame_def stream_ok_truncate by (simp add: peer.truncate_def)
qed

lemma watch_frame_peer: "peer_frame w w' \<Longrightarrow> watch_frame w w'"
proof -
  assume f: "peer_frame w w'"
  then have "peer.more w' = peer.more w" by (simp add: peer_frame_def)
  then have "announce_blocked w' = announce_blocked w \<and> nw_version w' = nw_version w \<and> watch_desc w' = watch_desc w"
    by (cases w, cases w') simp
  then show ?thesis using peer_frame_truncate [OF f] by (simp add: watch_frame_def)
qed

lemma subj_frame_peer: "peer_frame s s' \<Longrightarrow> subj_frame s s'"
proof -
  assume f: "peer_frame s s'"
  then have "peer.more s' = peer.more s" by (simp add: peer_frame_def)
  then have "data_addr s' = data_addr s \<and> cmnd_addr s' = cmnd_addr s \<and> ns_agent s' = ns_agent s"
    by (cases s, cases s') simp
  then show ?thesis using peer_frame_truncate [OF f] by (simp add: subj_frame_def)
qed

lemma watch_frame_refl [simp]: "watch_frame w w" by (simp add: watch_frame_def)
lemma subj_frame_refl [simp]: "subj_frame s s" by (simp add: subj_frame_def)

lemma watch_frame_trans: "watch_frame u v \<Longrightarrow> watch_frame v w \<Longrightarrow> watch_frame u w"
  by (auto simp: watch_frame_def intro: peer_frame_trans)

lemma subj_frame_trans: "subj_frame u v \<Longrightarrow> subj_frame v w \<Longrightarrow> subj_frame u w"
  by (auto simp: subj_frame_def intro: peer_frame_trans)

lemma watch_frame_accum [simp]: "watch_frame w (w\<lparr>accum := a\<rparr>)"
  by (simp add: watch_frame_def peer.truncate_def)

lemma watch_frame_alive [simp]: "watch_frame w (w\<lparr>alive_put_wd := a\<rparr>)"
  by (intro watch_frame_peer)
    (simp add: peer_frame_def ring_ok_def stream_ok_def queued_def)

lemma subj_frame_local [simp]: "subj_frame s (s\<lparr>unreg_accum := a\<rparr>)" "subj_frame s (s\<lparr>ping_wd := i\<rparr>)"
  "subj_frame s (s\<lparr>ping_cur_ms := j\<rparr>)" "subj_frame s (s\<lparr>ping_cur_ms := j, ping_wd := i\<rparr>)"
  by (simp_all add: subj_frame_def peer.truncate_def)

definition net_frame :: "'a hubnet_scheme \<Rightarrow> 'a hubnet_scheme \<Rightarrow> bool" where
  "net_frame h h' \<longleftrightarrow> (\<exists>ws ss f. h' = h\<lparr>watchers := ws, subjs := ss, fault := f\<rparr>
     \<and> list_all2 watch_frame (watchers h) ws \<and> list_all2 subj_frame (subjs h) ss \<and> (fault h \<longrightarrow> f))"

lemma net_frameE:
  assumes "net_frame h h'"
  obtains ws ss f where "h' = h\<lparr>watchers := ws, subjs := ss, fault := f\<rparr>"
    "list_all2 watch_frame (watchers h) ws" "list_all2 subj_frame (subjs h) ss" "fault h \<longrightarrow> f"
  using assms by (auto simp: net_frame_def)

lemma net_frame_refl [simp]: "net_frame h h"
  unfolding net_frame_def
  by (intro exI [of _ "watchers h"] exI [of _ "subjs h"] exI [of _ "fault h"]) (simp add: list.rel_refl)

lemma net_frame_trans:
  assumes "net_frame h1 h2" and "net_frame h2 h3"
  shows "net_frame h1 h3"
proof -
  obtain ws ss f where 1: "h2 = h1\<lparr>watchers := ws, subjs := ss, fault := f\<rparr>"
    "list_all2 watch_frame (watchers h1) ws" "list_all2 subj_frame (subjs h1) ss" "fault h1 \<longrightarrow> f"
    using assms(1) by (rule net_frameE)
  obtain ws' ss' f' where 2: "h3 = h2\<lparr>watchers := ws', subjs := ss', fault := f'\<rparr>"
    "list_all2 watch_frame (watchers h2) ws'" "list_all2 subj_frame (subjs h2) ss'" "fault h2 \<longrightarrow> f'"
    using assms(2) by (rule net_frameE)
  have "list_all2 watch_frame (watchers h1) ws'"
    by (rule list_all2_trans [OF _ 1(2)]) (use 1 2 in \<open>auto intro: watch_frame_trans\<close>)
  moreover have "list_all2 subj_frame (subjs h1) ss'"
    by (rule list_all2_trans [OF _ 1(3)]) (use 1 2 in \<open>auto intro: subj_frame_trans\<close>)
  ultimately show ?thesis unfolding net_frame_def using 1 2
    by (intro exI [of _ ws'] exI [of _ ss'] exI [of _ f']) simp
qed

lemma net_frame_fault [simp]: "net_frame h (set_fault b h)"
  unfolding net_frame_def
  by (intro exI [of _ "watchers h"] exI [of _ "subjs h"] exI [of _ "fault h \<or> b"])
    (simp add: list.rel_refl set_fault_def)

lemma list_all2_update_self:
  assumes "\<And>x. P x x" and "P (xs ! i) y"
  shows "list_all2 P xs (xs[i := y])"
  using list_all2_update_cong [OF list.rel_refl, of P "xs ! i" y xs i] assms by simp

lemma net_frame_upd_watch: "watch_frame (watchers h ! i) (f (watchers h ! i)) \<Longrightarrow> net_frame h (upd_watch i f h)"
  unfolding net_frame_def upd_watch_def
  by (intro exI [of _ "(watchers h)[i := f (watchers h ! i)]"] exI [of _ "subjs h"] exI [of _ "fault h"])
    (simp add: list.rel_refl list_all2_update_self)

lemma net_frame_upd_subj: "subj_frame (subjs h ! i) (f (subjs h ! i)) \<Longrightarrow> net_frame h (upd_subj i f h)"
  unfolding net_frame_def upd_subj_def
  by (intro exI [of _ "watchers h"] exI [of _ "(subjs h)[i := f (subjs h ! i)]"] exI [of _ "fault h"])
    (simp add: list.rel_refl list_all2_update_self)

lemma net_frame_fields:
  assumes "net_frame h h'"
  shows "next_watch_id h' = next_watch_id h" "next_subj_id h' = next_subj_id h"
    "watch_can_immed h' = watch_can_immed h" "subj_can_immed h' = subj_can_immed h"
    "watch_q_size h' = watch_q_size h" "subj_q_size h' = subj_q_size h"
    "watchers_enable h' = watchers_enable h" "subjs_enable h' = subjs_enable h"
    "hubnet.more h' = hubnet.more h" "length (watchers h') = length (watchers h)"
    "length (subjs h') = length (subjs h)" "fault h \<Longrightarrow> fault h'"
  using assms by (auto elim!: net_frameE dest: list_all2_lengthD)

lemma net_frame_watch: "net_frame h h' \<Longrightarrow> i < length (watchers h) \<Longrightarrow> watch_frame (watchers h ! i) (watchers h' ! i)"
  by (auto elim!: net_frameE simp: list_all2_nthD)

lemma net_frame_subj: "net_frame h h' \<Longrightarrow> i < length (subjs h) \<Longrightarrow> subj_frame (subjs h ! i) (subjs h' ! i)"
  by (auto elim!: net_frameE simp: list_all2_nthD)

lemma net_frame_eqI: "net_frame h h1 \<Longrightarrow> h1 = h' \<Longrightarrow> net_frame h h'" by simp

section \<open>Every send is one\<close>

lemma StreamSend_watch_frame:
  "0 \<le> len \<Longrightarrow> len > 0 \<longrightarrow> data \<noteq> None \<Longrightarrow> watch_frame w (snd (StreamSend E ci ty len data w))"
  by (rule watch_frame_peer, rule StreamSend_frame [OF _ _ prod.collapse [symmetric]])

lemma DatagramSend_watch_frame: "watch_frame w (snd (DatagramSend E ty len data w))"
  by (rule watch_frame_peer, rule DatagramSend_frame [OF prod.collapse [symmetric]])

lemma watch_send1_net [intro]: "net_frame h (snd (watch_send1 E i kind ty len data h))"
proof -
  let ?w = "watchers h ! i"
  let ?d = "snd (DatagramSend E ty len data ?w)" and ?s = "snd (StreamSend E (watch_can_immed h) ty len data ?w)"
  have D: "net_frame h (upd_watch i (\<lambda>_. ?d) h)" "net_frame h (upd_watch i (\<lambda>_. ?d\<lparr>alive_put_wd := env_now E\<rparr>) h)"
    by (rule net_frame_upd_watch, metis DatagramSend_watch_frame watch_frame_alive watch_frame_trans)+
  consider "len < 0 \<or> (len > 0 \<and> data = None)" | "0 \<le> len" "len > 0 \<longrightarrow> data \<noteq> None" by linarith
  then show ?thesis
  proof cases
    case 1 then show ?thesis by (simp add: watch_send1_def)
  next
    case 2
    then have S: "net_frame h (upd_watch i (\<lambda>_. ?s) h)"
      by (intro net_frame_upd_watch StreamSend_watch_frame)
    show ?thesis unfolding watch_send1_def Let_def case_prod_unfold using D S by simp
  qed
qed

lemma watch_broadcast_net: "net_frame h (snd (watch_broadcast E is kind ty len data (num, h)))"
proof (induction "is" arbitrary: num h)
  case (Cons i "is")
  have "net_frame h (snd (watch_broadcast E is kind ty len data (n, snd (watch_send1 E i kind ty len data h))))" for n
    by (rule net_frame_trans [OF watch_send1_net Cons.IH])
  then show ?case using Cons.IH by (simp add: Let_def case_prod_unfold)
qed simp

lemma ohubWatchSendPacket_net [intro]: "net_frame h (snd (ohubWatchSendPacket E w kind ty len data h))"
  using watch_broadcast_net [of h E "[1..<OHUB_MAX_WATCH]" kind ty len data 0]
    watch_send1_net [of h E _ kind ty len data]
  by (simp add: ohubWatchSendPacket_def case_prod_unfold Let_def split: option.splits)

lemma ohubSubjSendPacket_net [intro]: "net_frame h (snd (ohubSubjSendPacket E i kind ty len data h))"
proof -
  let ?w = "subjs h ! i"
  let ?d = "snd (DatagramSend E ty len data ?w)" and ?s = "snd (StreamSend E (subj_can_immed h) ty len data ?w)"
  have D: "net_frame h (upd_subj i (\<lambda>_. ?d) h)"
    by (rule net_frame_upd_subj, metis DatagramSend_frame subj_frame_peer prod.collapse)
  consider "len < 0 \<or> (len > 0 \<and> data = None)" | "0 \<le> len" "len > 0 \<longrightarrow> data \<noteq> None" by linarith
  then show ?thesis
  proof cases
    case 1 then show ?thesis by (simp add: ohubSubjSendPacket_def)
  next
    case 2
    have S: "net_frame h (upd_subj i (\<lambda>_. ?s) h)"
      by (rule net_frame_upd_subj, rule subj_frame_peer, rule StreamSend_frame [OF 2 prod.collapse [symmetric]])
    show ?thesis unfolding ohubSubjSendPacket_def Let_def case_prod_unfold using D S by simp
  qed
qed

lemma net_frame_ping [simp]:
  "net_frame h (upd_subj i (\<lambda>s. s\<lparr>ping_wd := a, ping_cur_ms := f (ping_cur_ms s)\<rparr>) h)"
  "net_frame h (upd_subj i (\<lambda>s. s\<lparr>ping_cur_ms := b, ping_wd := a\<rparr>) h)"
  by (rule net_frame_upd_subj, metis subj_frame_local(2,3) subj_frame_trans)
    (rule net_frame_upd_subj, simp)

lemma ohubSubjPing_net [intro]: "net_frame h (ohubSubjPing E i h)"
  by (simp add: ohubSubjPing_def Let_def net_frame_trans [OF net_frame_ping(1) ohubSubjSendPacket_net])

lemma ohubSubjTrigger_net [intro]: "net_frame h (snd (ohubSubjTrigger E i h))"
  by (simp add: ohubSubjTrigger_def net_frame_trans [OF net_frame_ping(2) ohubSubjPing_net])

section \<open>Identifiers\<close>

text \<open>Identifiers of an entry differ while the counter takes fewer than 255 steps.\<close>

lemma low_byte: "unat (n AND 0xFF) = unat (n :: u16) mod 256"
  by (simp add: and_byte_mask unsigned_take_bit_eq flip: take_bit_eq_mod [where n = 8, simplified])

lemma low_byte_zero: "(n AND 0xFF = 0) = (unat (n :: u16) mod 256 = 0)"
  using low_byte [of n] by (metis unsigned_0 unsigned_eq_0_iff)

lemma low_byte_add: "unat ((n :: u16) + m) mod 256 = (unat n mod 256 + unat m) mod 256"
  by (simp add: unat_word_ariths mod_mod_cancel mod_add_left_eq)

definition low_next :: "nat \<Rightarrow> nat" where
  "low_next l = (if l = 255 then 1 else l + 1)"

lemma bump_low: "unat (bump_id n) mod 256 = low_next (unat n mod 256)"
proof -
  obtain l where l: "unat n mod 256 = l" "l < 256" by simp
  have "unat (n + 1) mod 256 = (l + 1) mod 256" "unat (n + 2) mod 256 = (l + 2) mod 256"
    using low_byte_add [of n 1] low_byte_add [of n 2] l by simp_all
  moreover have "(l + 1) mod 256 = 0 \<longleftrightarrow> l = 255" "l = 255 \<Longrightarrow> (l + 2) mod 256 = 1"
    "l \<noteq> 255 \<Longrightarrow> (l + 1) mod 256 = l + 1" using l(2) by (auto simp: mod_if)
  ultimately show ?thesis
    unfolding bump_id_def low_byte_zero l(1) low_next_def by (cases "l = 255") simp_all
qed

lemma low_next_pow: "0 < l \<Longrightarrow> l < 256 \<Longrightarrow> (low_next ^^ k) l = (l - 1 + k) mod 255 + 1"
proof (induction k)
  case (Suc k)
  have "(l - 1 + Suc k) mod 255 = (if Suc ((l - 1 + k) mod 255) = 255 then 0 else Suc ((l - 1 + k) mod 255))"
    by (simp only: add_Suc_right mod_Suc)
  then show ?case using Suc by (simp add: low_next_def del: add_Suc_right)
qed (auto simp: mod_if)

lemma bump_low_pow: "unat ((bump_id ^^ k) n) mod 256 = (low_next ^^ k) (unat n mod 256)"
  by (induction k) (simp_all add: bump_low)

lemma bump_id_back:
  assumes "unat n mod 256 \<noteq> 0" and "0 < k" and "k < 255"
  shows "unat ((bump_id ^^ k) n) mod 256 \<noteq> unat n mod 256"
proof
  obtain l where l: "unat n mod 256 = l" "l < 256" by simp
  assume "unat ((bump_id ^^ k) n) mod 256 = unat n mod 256"
  then have "(l - 1 + k) mod 255 + 1 = l"
    using bump_low_pow [of k n] low_next_pow [of l k] assms(1) l by simp
  then show False using assms l by (auto simp: mod_if split: if_splits)
qed

lemma make_id_low: "i < 256 \<Longrightarrow> unat (make_id i n AND 255) = i"
proof -
  assume i: "i < 256"
  have "take_bit 8 (make_id i n) = take_bit 8 (word_of_nat i)"
    unfolding make_id_def and_byte_mask by (rule bit_word_eqI) (auto simp: bit_simps)
  then show ?thesis using i
    by (simp add: and_byte_mask unsigned_take_bit_eq unsigned_of_nat take_bit_nat_eq_self)
qed

lemma make_id_high: "drop_bit 8 (make_id i n) = n AND 255"
  unfolding make_id_def and_byte_mask by (rule bit_word_eqI) (auto simp: bit_simps)

lemma make_id_inj: "make_id i n = make_id i m \<Longrightarrow> unat n mod 256 = unat m mod 256"
  using make_id_high low_byte by metis


section \<open>Properties\<close>

lemma find_idle_SomeD: "find_idle is ps = Some i \<Longrightarrow> i \<in> set is \<and> p_state (ps ! i) = ST_NONE"
  by (induction "is") (auto split: if_splits)

lemma ohubWatchOpen_cases:
  assumes "ohubWatchOpen E h = (Some i, h')"
  shows "find_idle [1..<OHUB_MAX_WATCH] (watchers h) = Some i"
    and "next_watch_id h' = bump_id (next_watch_id h)"
    and "i < length (watchers h) \<Longrightarrow> p_state (watchers h' ! i) = ST_WAIT
      \<and> p_id (watchers h' ! i) = make_id i (bump_id (next_watch_id h))
      \<and> stream_ok (watchers h' ! i) \<and> outstanding (watchers h' ! i) = []"
    and "watchers h' = (watchers h)[i := watchers h' ! i]"
proof -
  obtain j where j: "find_idle [1..<OHUB_MAX_WATCH] (watchers h) = Some j" "watchers h \<noteq> []"
    using assms by (auto simp: ohubWatchOpen_def split: option.splits if_splits)
  have q: "\<not> (watch_q_size h = 0 \<or> \<not> env_alloc E (12 * watch_q_size h))" "j = i"
    using assms j by (auto simp: ohubWatchOpen_def Let_def split: if_splits)
  show "find_idle [1..<OHUB_MAX_WATCH] (watchers h) = Some i" using j q by simp
  show "next_watch_id h' = bump_id (next_watch_id h)"
    using assms j q by (auto simp: ohubWatchOpen_def Let_def upd_watch_def)
  show "i < length (watchers h) \<Longrightarrow> p_state (watchers h' ! i) = ST_WAIT
      \<and> p_id (watchers h' ! i) = make_id i (bump_id (next_watch_id h))
      \<and> stream_ok (watchers h' ! i) \<and> outstanding (watchers h' ! i) = []"
    using assms j q
    by (auto simp: ohubWatchOpen_def Let_def upd_watch_def clear_streams_def stream_ok_def ring_ok_def
        queued_def outstanding_def put_rest_def)
  show "watchers h' = (watchers h)[i := watchers h' ! i]"
    using assms j q
    by (cases "i < length (watchers h)") (auto simp: ohubWatchOpen_def Let_def upd_watch_def list_update_beyond)
qed

text \<open>
  C19. Opening a watcher entry takes an idle entry between 1 and 31, leaves all others as they
  are, prepares an empty queue and an empty byte stream, and gives an identifier that is not
  0, that finds this entry, and no other identifier finds it.
\<close>

theorem open_then_get_by_id:
  assumes "ohubWatchOpen E h = (Some i, h')" and "length (watchers h) = 33"
  shows "1 \<le> i \<and> i < 32 \<and> p_state (watchers h ! i) = ST_NONE
    \<and> ohubWatchGetById (p_id (watchers h' ! i)) h' = Some i \<and> p_id (watchers h' ! i) \<noteq> 0
    \<and> (\<forall>wid. ohubWatchGetById wid h' = Some i \<longrightarrow> wid = p_id (watchers h' ! i))
    \<and> stream_ok (watchers h' ! i) \<and> outstanding (watchers h' ! i) = []
    \<and> (\<forall>j. j \<noteq> i \<longrightarrow> watchers h' ! j = watchers h ! j)"
proof -
  note o = ohubWatchOpen_cases [OF assms(1)]
  have i: "1 \<le> i" "i < 32" "p_state (watchers h ! i) = ST_NONE"
    using find_idle_SomeD [OF o(1)] by (auto simp: OHUB_MAX_WATCH_def)
  have w: "p_state (watchers h' ! i) = ST_WAIT" "p_id (watchers h' ! i) = make_id i (bump_id (next_watch_id h))"
    "stream_ok (watchers h' ! i)" "outstanding (watchers h' ! i) = []"
    using o(3) i assms(2) by auto
  have u: "unat (p_id (watchers h' ! i) AND 255) = i" using w i by (simp add: make_id_low)
  then have "p_id (watchers h' ! i) \<noteq> 0" using i by auto
  moreover have "ohubWatchGetById (p_id (watchers h' ! i)) h' = Some i"
    using u i w by (simp add: ohubWatchGetById_def OHUB_MAX_WATCH_def)
  moreover have "\<forall>wid. ohubWatchGetById wid h' = Some i \<longrightarrow> wid = p_id (watchers h' ! i)"
    by (auto simp: ohubWatchGetById_def Let_def split: if_splits)
  moreover have "\<forall>j. j \<noteq> i \<longrightarrow> watchers h' ! j = watchers h ! j" by (subst o(4)) simp
  ultimately show ?thesis using i w by blast
qed

text \<open>
  C20. A stale identifier is refused: the identifier of a closed connection does not find the
  connection that took over its entry, unless 255 or more entries were opened in between.
\<close>

theorem stale_id_refused:
  assumes "ohubWatchOpen E h = (Some i, h1)" and "ohubWatchOpen E' h2 = (Some i, h3)"
    and "length (watchers h) = 33" and "length (watchers h2) = 33"
    and "next_watch_id h2 = (bump_id ^^ k) (next_watch_id h1)" and "k < 254"
  shows "ohubWatchGetById (p_id (watchers h1 ! i)) h3 = None"
proof -
  let ?n = "next_watch_id h1"
  note o = ohubWatchOpen_cases [OF assms(1)] and o' = ohubWatchOpen_cases [OF assms(2)]
  have i: "1 \<le> i" "i < 32" using find_idle_SomeD [OF o(1)] by (auto simp: OHUB_MAX_WATCH_def)
  have w: "p_id (watchers h1 ! i) = make_id i ?n" "p_id (watchers h3 ! i) = make_id i ((bump_id ^^ Suc k) ?n)"
    using o(2,3) o'(3) i assms(3-5) by auto
  have "unat ?n mod 256 \<noteq> 0" unfolding o(2) bump_low by (simp add: low_next_def)
  then have "make_id i ((bump_id ^^ Suc k) ?n) \<noteq> make_id i ?n"
    using bump_id_back [of ?n "Suc k"] assms(6) make_id_inj [of i "(bump_id ^^ Suc k) ?n" ?n] by auto
  then show ?thesis using i w make_id_low [of i ?n] by (auto simp: ohubWatchGetById_def Let_def)
qed


text \<open>A state with 33 idle entries in both tables, for concrete instances.\<close>

definition watch0 :: netwatch where
  "watch0 = \<lparr>p_state = ST_NONE, p_id = 0, needs_rotor = False, data_sock = 0, cntl_addr = no_addr,
     alive_get_wd = 0, alive_put_wd = 0, q_buf = [], q_len = 0, q_size = 0, q_rd = 0, q_wr = 0,
     hdr_buf = replicate 16 0, hdr_off = 0, reget_type = -1, reget_len = -1, reget_off = -1,
     reget_buf = None, reput_type = -1, reput_len = -1, reput_off = -1, reput_buf = None, p_url = [],
     p_tx = [], p_utx = [], p_wire = [], p_dgrams = [],
     announce_blocked = False, nw_version = 0, watch_desc = [], accum = no_accum\<rparr>"

definition subj0 :: netsubj where
  "subj0 = \<lparr>p_state = ST_NONE, p_id = 0, needs_rotor = False, data_sock = 0, cntl_addr = no_addr,
     alive_get_wd = 0, alive_put_wd = 0, q_buf = [], q_len = 0, q_size = 0, q_rd = 0, q_wr = 0,
     hdr_buf = replicate 16 0, hdr_off = 0, reget_type = -1, reget_len = -1, reget_off = -1,
     reget_buf = None, reput_type = -1, reput_len = -1, reput_off = -1, reput_buf = None, p_url = [],
     p_tx = [], p_utx = [], p_wire = [], p_dgrams = [],
     data_addr = no_addr, cmnd_addr = no_addr, ping_cur_ms = 0, ping_wd = 0, ns_agent = None,
     unreg_accum = no_unreg\<rparr>"

definition net0 :: hubnet where
  "net0 = \<lparr>watchers = replicate 33 watch0, subjs = replicate 33 subj0, next_watch_id = 7, next_subj_id = 9,
     watch_can_immed = 1, subj_can_immed = 1, watch_q_size = 3, subj_q_size = 3,
     watchers_enable = True, subjs_enable = True, fault = False\<rparr>"

lemma open_net0: "fst (ohubWatchOpen env0 net0) = Some 1"
  by (simp add: ohubWatchOpen_def net0_def watch0_def upt_conv_Cons OHUB_MAX_WATCH_def env0_def Let_def)

theorem open_then_get_by_id_witness:
  "ohubWatchGetById (p_id (watchers (snd (ohubWatchOpen env0 net0)) ! 1)) (snd (ohubWatchOpen env0 net0)) = Some 1"
  using open_then_get_by_id [of env0 net0 1 "snd (ohubWatchOpen env0 net0)"] open_net0
  by (simp add: prod_eq_iff) (simp add: net0_def)

theorem stale_id_refused_witness:
  "ohubWatchGetById (p_id (watchers (snd (ohubWatchOpen env0 net0)) ! 1))
     (snd (ohubWatchOpen env0 (net0\<lparr>next_watch_id := next_watch_id (snd (ohubWatchOpen env0 net0))\<rparr>))) = None"
proof -
  let ?n = "net0\<lparr>next_watch_id := next_watch_id (snd (ohubWatchOpen env0 net0))\<rparr>"
  have "fst (ohubWatchOpen env0 ?n) = Some 1"
    by (simp add: ohubWatchOpen_def net0_def watch0_def upt_conv_Cons OHUB_MAX_WATCH_def env0_def Let_def)
  then show ?thesis
    using stale_id_refused [of env0 net0 1 "snd (ohubWatchOpen env0 net0)" env0 ?n _ 0] open_net0
    by (simp add: prod_eq_iff) (simp add: net0_def)
qed

lemma watch_broadcast_each:
  assumes "distinct is" and "0 \<le> len" and "len > 0 \<longrightarrow> data \<noteq> None" and "\<forall>i \<in> set is. i < length (watchers h)"
  shows "let r = watch_broadcast E is OLANG_DATA ty len data (n, h);
       S = \<lambda>i. StreamSend E (watch_can_immed h) ty len data (watchers h ! i);
       opn = filter (\<lambda>i. p_state (watchers h ! i) = ST_OPEN) is
    in (fst r = n + length (filter (\<lambda>i. fst (S i) \<noteq> OK) opn))
     \<and> (\<forall>i. watchers (snd r) ! i = (if i \<in> set opn then snd (S i) else watchers h ! i))"
  using assms
proof (induction "is" arbitrary: n h)
  case (Cons i "is")
  let ?S = "\<lambda>h j. StreamSend E (watch_can_immed h) ty len data (watchers h ! j)"
  show ?case
  proof (cases "p_state (watchers h ! i) = ST_OPEN")
    case False
    then show ?thesis using Cons by (simp add: Let_def)
  next
    case True
    let ?h = "upd_watch i (\<lambda>_. snd (?S h i)) h"
    have s: "watch_send1 E i OLANG_DATA ty len data h = (fst (?S h i), ?h)"
      using True Cons.prems by (auto simp: watch_send1_def olang_kinds case_prod_unfold Let_def)
    have w: "watchers ?h ! j = (if j = i then snd (?S h i) else watchers h ! j)" for j
      using Cons.prems by (simp add: upd_watch_def)
    have c: "watch_can_immed ?h = watch_can_immed h" "length (watchers ?h) = length (watchers h)"
      by (simp_all add: upd_watch_def)
    have f: "filter (\<lambda>i. p_state (watchers ?h ! i) = ST_OPEN) is = filter (\<lambda>i. p_state (watchers h ! i) = ST_OPEN) is"
      using Cons.prems(1) w by (intro filter_cong) auto
    have S: "?S ?h j = ?S h j" if "j \<in> set is" for j using Cons.prems(1) that w c by auto
    have g: "filter (\<lambda>j. fst (?S ?h j) \<noteq> OK) (filter (\<lambda>i. p_state (watchers h ! i) = ST_OPEN) is)
       = filter (\<lambda>j. fst (?S h j) \<noteq> OK) (filter (\<lambda>i. p_state (watchers h ! i) = ST_OPEN) is)"
      using S by (intro filter_cong) auto
    let ?n = "if fst (?S h i) \<noteq> OK then Suc n else n"
    let ?r = "watch_broadcast E is OLANG_DATA ty len data (?n, ?h)"
    have "distinct is" "\<forall>i \<in> set is. i < length (watchers ?h)" using Cons.prems c by auto
    note ih = Cons.IH [OF this(1) Cons.prems(2,3) this(2), of ?n, unfolded Let_def f g]
    have r: "watch_broadcast E (i # is) OLANG_DATA ty len data (n, h) = ?r"
      using True by (simp add: s)
    have "fst ?r = n + length (filter (\<lambda>j. fst (?S h j) \<noteq> OK) (filter (\<lambda>i. p_state (watchers h ! i) = ST_OPEN) (i # is)))"
      using ih True by auto
    moreover have "watchers (snd ?r) ! k = (if k \<in> set (filter (\<lambda>i. p_state (watchers h ! i) = ST_OPEN) (i # is))
        then snd (?S h k) else watchers h ! k)" for k
      using ih True S w Cons.prems(1) by auto
    ultimately show ?thesis unfolding r Let_def by blast
  qed
qed simp

text \<open>
  C17. A broadcast on the data channel hands the packet to every open watcher between 1 and 31
  exactly once and leaves every other entry as it is; it succeeds when every one of them took
  the packet.
\<close>

theorem broadcast_reaches_open:
  assumes "length (watchers h) = 33" and "0 \<le> len" and "len > 0 \<longrightarrow> data \<noteq> None"
    and "ohubWatchSendPacket E None OLANG_DATA ty len data h = (rc, h')"
  shows "(rc = OK \<longleftrightarrow> (\<forall>i \<in> {1..<32}. p_state (watchers h ! i) = ST_OPEN \<longrightarrow>
        fst (StreamSend E (watch_can_immed h) ty len data (watchers h ! i)) = OK))
    \<and> (\<forall>i. watchers h' ! i = (if i \<in> {1..<32} \<and> p_state (watchers h ! i) = ST_OPEN
        then snd (StreamSend E (watch_can_immed h) ty len data (watchers h ! i)) else watchers h ! i))"
proof -
  let ?r = "watch_broadcast E [1..<OHUB_MAX_WATCH] OLANG_DATA ty len data (0, h)"
  have "rc = (if fst ?r \<noteq> 0 then ERROR else OK)" "h' = snd ?r"
    using assms by (auto simp: ohubWatchSendPacket_def case_prod_unfold Let_def)
  moreover have "\<forall>i \<in> set [1..<OHUB_MAX_WATCH]. i < length (watchers h)"
    using assms(1) by (auto simp: OHUB_MAX_WATCH_def)
  note b = watch_broadcast_each [OF distinct_upt assms(2,3) this, of E ty 0]
  ultimately show ?thesis
    using b by (auto simp: Let_def OHUB_MAX_WATCH_def filter_empty_conv)
qed


theorem broadcast_reaches_open_witness:
  "let h = net0\<lparr>watchers := (replicate 33 watch0)[2 := watch0\<lparr>p_state := ST_OPEN, q_buf := replicate 3 no_packet, q_size := 3\<rparr>]\<rparr>;
       h' = snd (ohubWatchSendPacket env0 None OLANG_DATA OLANG_ALIVE 0 None h)
   in p_wire (watchers h' ! 2) = frame 0 OLANG_ALIVE [] 0 \<and> watchers h' ! 3 = watchers h ! 3"
proof -
  let ?w = "watch0\<lparr>p_state := ST_OPEN, q_buf := replicate 3 no_packet, q_size := 3\<rparr>"
  let ?h = "net0\<lparr>watchers := (replicate 33 watch0)[2 := ?w]\<rparr>"
  obtain rc h' where r: "ohubWatchSendPacket env0 None OLANG_DATA OLANG_ALIVE 0 None ?h = (rc, h')"
    by (metis prod.exhaust)
  have "watchers h' ! 2 = snd (StreamSend env0 1 OLANG_ALIVE 0 None ?w)" "watchers h' ! 3 = watch0"
    using broadcast_reaches_open [of ?h 0 None env0 OLANG_ALIVE rc h'] r
    by (simp_all add: net0_def watch0_def)
  then show ?thesis using r
    by (simp add: StreamSend_def PokeStream_def PokeRetry_def PokeNew_def watch0_def env0_def Let_def
        OLANG_SMALL_PACKET_def net0_def)
qed

lemma next_interval_mono: "x \<le> y \<Longrightarrow> next_interval x \<le> next_interval y"
  unfolding next_interval_def Let_def OLANG_PING_MAX_MS_def
  using zdiv_mono1 [of "x * 5" "y * 5" 4] by simp

lemma next_interval_step: "64 \<le> x \<Longrightarrow> x \<le> 10000 \<Longrightarrow> x \<le> next_interval x \<and> next_interval x \<le> 10000"
  unfolding next_interval_def Let_def OLANG_PING_MAX_MS_def by auto

lemma next_interval_pow_mono: "x \<le> y \<Longrightarrow> (next_interval ^^ n) x \<le> (next_interval ^^ n) y"
  by (induction n) (simp_all add: next_interval_mono)

lemma DatagramSend_more: "peer.more (snd (DatagramSend E ty len data p)) = peer.more p"
  using DatagramSend_frame [OF prod.collapse [symmetric], where E = E and ty = ty and len = len and data = data and p = p] by (simp add: peer_frame_def)

lemma subj_more:
  "peer.more s' = peer.more (s :: netsubj) \<Longrightarrow> ping_wd s' = ping_wd s \<and> ping_cur_ms s' = ping_cur_ms s
     \<and> unreg_accum s' = unreg_accum s \<and> ns_agent s' = ns_agent s"
  by (cases s, cases s') simp



end
