(* ===== verification/Domain.thy ===== *)
theory Domain
  imports TreeMap HubNet
begin

text \<open>
  The configured domain (agents, subjects, modules with their quark records) and the lookup
  of quarks: the structures of hub-priv.h, hub-quarks.c, hub-ooid.c and the address part of
  hub-util.c. A pointer to an agent, subject or module is its index in the domain's array.
  The domain is loaded from files; loading (hub-config.c and \<open>ohubLoadModuleQuarks\<close>) is not
  modelled, so a domain is any value of these records.
\<close>

section \<open>Structures\<close>

definition OHUB_MAX_PATH :: nat where "OHUB_MAX_PATH = 140"
definition OHUB_MAX_NAME :: nat where "OHUB_MAX_NAME = 40"
definition OHUB_MAX_SUBJECT_WAITERS :: nat where "OHUB_MAX_SUBJECT_WAITERS = 8"
definition SEG_MAX_NO :: nat where "SEG_MAX_NO = 96"

definition SEG_NAME_2_NO :: "byte \<Rightarrow> nat" where "SEG_NAME_2_NO c = unat c - 32"
definition SEG_IS_VALID :: "byte \<Rightarrow> bool" where "SEG_IS_VALID c \<longleftrightarrow> 32 \<le> sint c \<and> sint c < 127"

definition bstr :: "string \<Rightarrow> bytes" where "bstr s = map of_char s"

record quark =
  qk_ukey :: int
  qk_ikey :: int
  qk_adr :: int
  qk_off :: int
  qk_off0 :: int
  qk_len :: int
  qk_ptr :: byte
  qk_type :: byte
  qk_seg :: byte
  qk_spare1 :: byte
  qk_obj_ikey :: int
  qk_bit_off :: int
  qk_bit_len :: int
  qk_dim :: "int list"
  qk_coef :: "int list"
  qk_glob_ikey :: int
  qk_glob_adr :: int
  qk_ind :: "int list"
  qk_ooid :: u32
  qk_phys_addr :: int
  qk_next_no :: int
  qk_glob_name :: bytes
  qk_path :: bytes

definition no_quark :: quark where
  "no_quark = \<lparr>qk_ukey = 0, qk_ikey = 0, qk_adr = 0, qk_off = 0, qk_off0 = 0, qk_len = 0, qk_ptr = 0,
     qk_type = 0, qk_seg = 0, qk_spare1 = 0, qk_obj_ikey = 0, qk_bit_off = 0, qk_bit_len = 0,
     qk_dim = [0, 0, 0, 0], qk_coef = [0, 0, 0, 0], qk_glob_ikey = 0, qk_glob_adr = 0,
     qk_ind = [0, 0, 0, 0], qk_ooid = 0, qk_phys_addr = 0, qk_next_no = 0, qk_glob_name = [],
     qk_path = []\<rparr>"

text \<open>\<open>OhubRecord_t\<close>; the two strings are offsets into the heaps of the module.\<close>

record qrec =
  rc_ukey :: int
  rc_ikey :: int
  rc_adr :: int
  rc_off :: int
  rc_len :: int
  rc_ptr :: byte
  rc_type :: byte
  rc_seg :: byte
  rc_spare1 :: byte
  rc_obj_ikey :: int
  rc_bit_off :: int
  rc_bit_len :: int
  rc_dim :: "int list"
  rc_coef :: "int list"
  rc_glob_ikey :: int
  rc_glob_adr :: int
  rc_next_no :: int
  rc_glob_off :: nat
  rc_path_off :: nat

record agent =
  ag_name :: bytes
  ag_state :: bytes
  ag_url :: bytes
  ag_enable :: bool
  ag_nsubj :: "nat option"
  ag_reg_count :: int
  ag_write_count :: int

datatype avail = AVAIL_OFF | AVAIL_TEMP | AVAIL_PERM

record waiter =
  wt_watch :: "nat option"
  wt_op :: u32
  wt_watchdog :: int

record subject =
  sb_ikey :: int
  sb_name :: bytes
  sb_state :: bytes
  sb_avail :: avail
  sb_agent :: nat
  sb_waiters :: "waiter list"
  sb_waiters_qty :: int

record module =
  mo_ikey :: int
  mo_subject_name :: bytes
  mo_nick_name :: bytes
  mo_records :: "qrec list"
  mo_glob_heap :: bytes
  mo_path_heap :: bytes
  mo_quarks_byname :: tree_t
  mo_segment_addr :: "int list"
  mo_subject :: nat

text \<open>The domain, the waiter count of hub-subject.c and the ooid factory of hub-ooid.c.\<close>

record hubdom = hubnet +
  agents :: "agent list"
  subjects :: "subject list"
  modules :: "module list"
  waiters_qty :: int
  ooid_seq :: u32
  by_path_hash :: tree_t
  by_ooid_hash :: tree_t
  path_heap :: bytes
  path_heap_size :: nat
  quark_cache :: "quark list"
  quark_cache_size :: nat
  by_desc_quark_hash :: tree_t
  by_ooid_quark_hash :: tree_t

definition upd_agent :: "nat \<Rightarrow> (agent \<Rightarrow> agent) \<Rightarrow> 'a hubdom_scheme \<Rightarrow> 'a hubdom_scheme" where
  "upd_agent i f h = h\<lparr>agents := (agents h)[i := f (agents h ! i)]\<rparr>"

definition upd_subject :: "nat \<Rightarrow> (subject \<Rightarrow> subject) \<Rightarrow> 'a hubdom_scheme \<Rightarrow> 'a hubdom_scheme" where
  "upd_subject i f h = h\<lparr>subjects := (subjects h)[i := f (subjects h ! i)]\<rparr>"

definition upd_module :: "nat \<Rightarrow> (module \<Rightarrow> module) \<Rightarrow> 'a hubdom_scheme \<Rightarrow> 'a hubdom_scheme" where
  "upd_module i f h = h\<lparr>modules := (modules h)[i := f (modules h ! i)]\<rparr>"

text \<open>Sending to the connection of an agent; the code does not check \<open>nsubj_p\<close> for NULL.\<close>

definition agent_send ::
  "env \<Rightarrow> nat \<Rightarrow> int \<Rightarrow> int \<Rightarrow> int \<Rightarrow> bytes option \<Rightarrow> 'a hubdom_scheme \<Rightarrow> oret \<times> 'a hubdom_scheme" where
  "agent_send E ag kind ty len data h =
     (case ag_nsubj (agents h ! ag) of
        None \<Rightarrow> (ERROR, set_fault True h)
      | Some s \<Rightarrow> ohubSubjSendPacket E s kind ty len data h)"

section \<open>Object identifiers\<close>

text \<open>
  \<open>ohubAddOoidPath\<close> appends the path, its NUL and the identifier to the heap and hashes both
  ways. A failing allocation aborts the process in the code; here it is a fault. \<open>treeAdd\<close>
  overflowing its own buffer is a fault too.
\<close>

definition ohubAddOoidPath :: "env \<Rightarrow> bytes \<Rightarrow> u32 \<Rightarrow> 'a hubdom_scheme \<Rightarrow> oret \<times> 'a hubdom_scheme" where
  "ohubAddOoidPath E path ooid h =
     (let len = length path + 1; off = length (path_heap h);
          grow = off + len + 4 > path_heap_size h;
          nsize = path_heap_size h * 4 div 3 + len + 4
      in if grow \<and> \<not> env_alloc E nsize then (ERROR, set_fault True h)
         else
           let h1 = h\<lparr>path_heap := path_heap h @ path @ [0] @ st32 ooid,
                      path_heap_size := (if grow then nsize else path_heap_size h)\<rparr>;
               i_ooid = sint ooid
           in case treeAdd E (by_path_hash h1) path i_ooid of
                None \<Rightarrow> (ERROR, set_fault True h1)
              | Some (rc1, t1) \<Rightarrow>
                  let (rc2, t2) = treeNumAdd E (by_ooid_hash h1) i_ooid (int off)
                  in (if rc1 \<noteq> OK \<or> rc2 \<noteq> OK then ERROR else OK,
                      h1\<lparr>by_path_hash := t1, by_ooid_hash := t2\<rparr>))"

definition ohubFindOoidByName :: "env \<Rightarrow> bytes \<Rightarrow> bool \<Rightarrow> 'a hubdom_scheme \<Rightarrow> u32 \<times> 'a hubdom_scheme" where
  "ohubFindOoidByName E path can_add h =
     (case treeFind (by_path_hash h) path of (found, val, t) \<Rightarrow>
        let h1 = h\<lparr>by_path_hash := t\<rparr> in
        if found then (word_of_int val, h1)
        else if can_add then
          let n = ooid_seq h1 + 1; ooid = (if n = 0 then n + 1 else n)
          in (ooid, snd (ohubAddOoidPath E path ooid (h1\<lparr>ooid_seq := ooid\<rparr>)))
        else (0, h1))"

definition ohubFindNameByOoid :: "u32 \<Rightarrow> 'a hubdom_scheme \<Rightarrow> bytes option \<times> 'a hubdom_scheme" where
  "ohubFindNameByOoid ooid h =
     (case treeNumFind (by_ooid_hash h) (sint ooid) of (found, off, t) \<Rightarrow>
        (if found then Some (cstr_at (path_heap h) (nat off)) else None, h\<lparr>by_ooid_hash := t\<rparr>))"

definition ohubMakeStaticOoid :: "env \<Rightarrow> quark \<Rightarrow> 'a hubdom_scheme \<Rightarrow> u32 \<times> 'a hubdom_scheme" where
  "ohubMakeStaticOoid E q h = ohubFindOoidByName E (qk_path q) True h"

text \<open>The factory without a cache file (\<open>ohubLoadOoidHash\<close> reads one, see the header).\<close>

definition ohubInitOoidFactory :: "'a hubdom_scheme \<Rightarrow> 'a hubdom_scheme" where
  "ohubInitOoidFactory h = h\<lparr>ooid_seq := 0, by_path_hash := treeAlloc 0,
     by_ooid_hash := treeAlloc NUMERIC_TREE, path_heap_size := 20, path_heap := []\<rparr>"

text \<open>The loop of \<open>ohubLoadOoidHash\<close> over the lines of the cache file.\<close>

fun ohubLoadOoidHash :: "env \<Rightarrow> (u32 \<times> bytes) list \<Rightarrow> 'a hubdom_scheme \<Rightarrow> nat \<times> 'a hubdom_scheme" where
  "ohubLoadOoidHash E [] h = (0, h)"
| "ohubLoadOoidHash E ((ooid, path) # ls) h =
     (let h1 = snd (ohubAddOoidPath E path ooid h);
          h2 = (if sint (ooid - ooid_seq h1) > 0 then h1\<lparr>ooid_seq := ooid\<rparr> else h1);
          (qty, h3) = ohubLoadOoidHash E ls h2
      in (Suc qty, h3))"

text \<open>\<open>ohubSaveOoidHash\<close> walks the heap; its result here is the list of lines it prints.\<close>

function save_lines :: "env \<Rightarrow> bytes \<Rightarrow> nat \<Rightarrow> (u32 \<times> bytes) list" where
  "save_lines E heap off =
     (if off < length heap then
        let path = cstr_at heap off; len = length path + 1
        in (ld32 E heap (off + len), path) # save_lines E heap (off + len + 4)
      else [])"
  by pat_completeness auto
termination
  by (relation "measure (\<lambda>(E, heap, off). length heap - off)") auto

declare save_lines.simps [simp del]

definition ohubSaveOoidHash :: "env \<Rightarrow> 'a hubdom_scheme \<Rightarrow> (u32 \<times> bytes) list" where
  "ohubSaveOoidHash E h = save_lines E (path_heap h) 0"

section \<open>Quarks\<close>

definition ohubRecordToQuark :: "qrec \<Rightarrow> quark \<Rightarrow> 'a hubdom_scheme \<Rightarrow> quark" where
  "ohubRecordToQuark r q h =
     (let m = modules h ! nat (rc_obj_ikey r) in
      q\<lparr>qk_ukey := rc_ukey r, qk_ikey := rc_ikey r, qk_adr := rc_adr r, qk_off0 := rc_off r,
        qk_off := rc_off r, qk_len := rc_len r, qk_ptr := rc_ptr r, qk_type := rc_type r,
        qk_seg := rc_seg r, qk_spare1 := rc_spare1 r, qk_obj_ikey := rc_obj_ikey r,
        qk_bit_off := rc_bit_off r, qk_bit_len := rc_bit_len r, qk_dim := rc_dim r,
        qk_coef := rc_coef r, qk_glob_ikey := rc_glob_ikey r, qk_glob_adr := rc_glob_adr r,
        qk_ind := [0, 0, 0, 0], qk_ooid := 0, qk_phys_addr := 0, qk_next_no := rc_next_no r,
        qk_glob_name := cstr_at (mo_glob_heap m) (rc_glob_off r),
        qk_path := cstr_at (mo_path_heap m) (rc_path_off r)\<rparr>)"

text \<open>The physical address; the flag tells whether it changed.\<close>

definition quark_address :: "quark \<Rightarrow> 'a hubdom_scheme \<Rightarrow> int" where
  "quark_address q h =
     (let mod_no = qk_obj_ikey q in
      if mod_no \<ge> 0 \<and> mod_no < int (length (modules h)) \<and> SEG_IS_VALID (qk_seg q) then
        let seg_addr = mo_segment_addr (modules h ! nat mod_no) ! SEG_NAME_2_NO (qk_seg q)
        in if seg_addr \<noteq> -1 then to_int32 (seg_addr + qk_adr q) else -1
      else -1)"

definition ohubRefineQuarkAddress :: "quark \<Rightarrow> 'a hubdom_scheme \<Rightarrow> bool \<times> quark" where
  "ohubRefineQuarkAddress q h =
     (let phys_addr = quark_address q h in
      if phys_addr \<noteq> qk_phys_addr q then (True, q\<lparr>qk_phys_addr := phys_addr\<rparr>) else (False, q))"

definition ohubType2Len :: "byte \<Rightarrow> int" where
  "ohubType2Len c =
     (if c = of_char CHR ''b'' then 1 else if c = of_char CHR ''B'' then 1
      else if c = of_char CHR ''h'' then 2 else if c = of_char CHR ''H'' then 2
      else if c = of_char CHR ''i'' then 4 else if c = of_char CHR ''I'' then 4
      else if c = of_char CHR ''l'' then 4 else if c = of_char CHR ''L'' then 4
      else if c = of_char CHR ''q'' then 8 else if c = of_char CHR ''Q'' then 8
      else if c = of_char CHR ''f'' then 4 else if c = of_char CHR ''d'' then 8
      else if c = of_char CHR ''D'' then 16 else if c = of_char CHR ''p'' then 4
      else if c = of_char CHR ''v'' then 0 else if c = of_char CHR ''s'' then 0
      else if c = of_char CHR ''E'' then 4 else 0)"

text \<open>Search of the modules for a canonical path, in the order of the configuration.\<close>

fun find_canonical :: "nat list \<Rightarrow> bytes \<Rightarrow> bytes \<Rightarrow> bytes \<Rightarrow> 'a hubdom_scheme
    \<Rightarrow> (nat \<times> qrec) option \<times> 'a hubdom_scheme" where
  "find_canonical [] mdl subj path h = (None, h)"
| "find_canonical (i # is) mdl subj path h =
     (let m = modules h ! i in
      if (mdl \<noteq> [] \<and> mdl \<noteq> mo_nick_name m) \<or> (subj \<noteq> [] \<and> subj \<noteq> mo_subject_name m)
      then find_canonical is mdl subj path h
      else case treeFind (mo_quarks_byname m) path of (found, k, t) \<Rightarrow>
        let h1 = upd_module i (\<lambda>m. m\<lparr>mo_quarks_byname := t\<rparr>) h in
        if found then
          (if k < int (length (mo_records m)) then Some (i, mo_records m ! nat k) else None, h1)
        else find_canonical is mdl subj path h1)"

definition ohubFindCanonicalRecord where
  "ohubFindCanonicalRecord mdl subj path h = find_canonical [0..<length (modules h)] mdl subj path h"

definition is_space :: "byte \<Rightarrow> bool" where
  "is_space c \<longleftrightarrow> c \<in> {32, 9, 13, 10, 8}"

definition ohubTrimLeft :: "bytes \<Rightarrow> bytes" where
  "ohubTrimLeft s = dropWhile is_space s"

definition ohubTrimRight :: "bytes \<Rightarrow> bytes" where
  "ohubTrimRight s = rev (dropWhile is_space (rev s))"

definition ohubTrim :: "bytes \<Rightarrow> bytes" where
  "ohubTrim s = ohubTrimLeft (ohubTrimRight s)"

text \<open>Split \<open>subject/module@path\<close>; both prefixes may be missing.\<close>

definition split_desc :: "bytes \<Rightarrow> bytes \<times> bytes \<times> bytes" where
  "split_desc b =
     (if 64 \<in> set b then
        let pre = takeWhile (\<lambda>c. c \<noteq> 64) b; rest = tl (dropWhile (\<lambda>c. c \<noteq> 64) b)
        in if 47 \<in> set pre
           then (takeWhile (\<lambda>c. c \<noteq> 47) pre, tl (dropWhile (\<lambda>c. c \<noteq> 47) pre), rest)
           else (pre, [], rest)
      else ([], [], b))"

definition is_digit :: "byte \<Rightarrow> bool" where
  "is_digit c \<longleftrightarrow> 48 \<le> uint c \<and> uint c \<le> 57"

definition digits_value :: "bytes \<Rightarrow> int" where
  "digits_value ds = foldl (\<lambda>n c. to_int32 (n * 10 + (uint c - 48))) 0 ds"

text \<open>Replace every \<open>[number]\<close> by a question mark and collect the numbers; at most four.\<close>

function extract_indexes :: "bytes \<Rightarrow> int list \<Rightarrow> (bytes \<times> int list) option" where
  "extract_indexes s ind =
     (case s of [] \<Rightarrow> Some ([], ind)
      | c # cs \<Rightarrow>
          let ds = takeWhile is_digit cs; r = dropWhile is_digit cs in
          if c = 91 \<and> ds \<noteq> [] \<and> r \<noteq> [] \<and> hd r = 93 then
            (if length ind \<ge> 4 then None
             else map_option (\<lambda>(p, i). (63 # p, i)) (extract_indexes (tl r) (ind @ [digits_value ds])))
          else map_option (\<lambda>(p, i). (c # p, i)) (extract_indexes cs ind))"
  by pat_completeness auto
termination
proof (relation "measure (\<lambda>(s, ind). length s)")
  fix s :: bytes and ind :: "int list" and c :: byte and cs ds r :: bytes
  assume "s = c # cs" "r = dropWhile is_digit cs" "c = 91 \<and> ds \<noteq> [] \<and> r \<noteq> [] \<and> hd r = 93"
  then show "((tl r, ind @ [digits_value ds]), s, ind) \<in> measure (\<lambda>(s, ind). length s)"
    using length_dropWhile_le [of is_digit cs] by simp
qed auto

declare extract_indexes.simps [simp del]

text \<open>Add the indices to the offset, up to the first index out of range, which is returned.\<close>

fun crunch_offset :: "nat \<Rightarrow> int list \<Rightarrow> quark \<Rightarrow> nat option \<times> quark" where
  "crunch_offset i [] q = (None, q)"
| "crunch_offset i (k # ks) q =
     (let n = qk_dim q ! i in
      if (n = 0 \<and> k \<noteq> 0) \<or> (n \<noteq> 0 \<and> k \<ge> n) \<or> k < 0 then (Some i, q)
      else crunch_offset (Suc i) ks
        (q\<lparr>qk_off := to_int32 (qk_off q + to_int32 (k * qk_coef q ! i)), qk_ind := (qk_ind q)[i := k]\<rparr>))"

definition pad_ind :: "int list \<Rightarrow> int list" where
  "pad_ind ind = take 4 (ind @ [0, 0, 0, 0])"

definition decimal_digit :: "nat \<Rightarrow> byte" where
  "decimal_digit i = of_nat (48 + i)"

text \<open>
  \<open>ohubFindQuarkByDesc\<close>. The result is the return code, the quark, the text for the caller and
  the new state. The text goes to a buffer of \<open>OHUB_MAX_NAME\<close> bytes in every caller and the
  path to one of \<open>OHUB_MAX_PATH\<close> bytes; writing more is a fault.
\<close>

definition ohubFindQuarkByDesc ::
  "env \<Rightarrow> bytes \<Rightarrow> 'a hubdom_scheme \<Rightarrow> int \<times> quark \<times> bytes \<times> 'a hubdom_scheme" where
  "ohubFindQuarkByDesc E spath h =
     (if length spath + 2 > OHUB_MAX_PATH + 4 then (-1, no_quark, bstr ''PATH_TOO_LONG'', h)
      else if 63 \<in> set spath \<or> 33 \<in> set spath then (-3, no_quark, bstr ''WRONG_METACHAR'', h)
      else
        let (subj, mdl, xpath) = split_desc (ohubTrim spath) in
        case extract_indexes xpath [] of
          None \<Rightarrow> (-2, no_quark, bstr ''TOO_MANY_INDEXES'', h)
        | Some (tpath, ind0) \<Rightarrow>
            let ind = pad_ind ind0;
                (f1, h1) = ohubFindCanonicalRecord mdl subj tpath h;
                (f2, h2) = (case f1 of
                    None \<Rightarrow> ohubFindCanonicalRecord mdl subj (tpath @ [43]) h1
                  | Some _ \<Rightarrow> (f1, h1))
            in case f2 of
                 None \<Rightarrow>
                   let msg = bstr ''NOT_FOUND('' @ subj @ [47] @ mdl @ [41]
                   in (-3, no_quark, msg, set_fault (length msg + 1 > OHUB_MAX_NAME) h2)
               | Some (m, r) \<Rightarrow>
                   let pm = modules h2 ! m;
                       path = mo_subject_name pm @ [47] @ mo_nick_name pm @ [64] @ xpath;
                       h3 = set_fault (length path + 1 > OHUB_MAX_PATH) h2;
                       q = (ohubRecordToQuark r no_quark h3)\<lparr>qk_path := path\<rparr>
                   in case crunch_offset 0 ind q of
                        (Some i, q1) \<Rightarrow> (-4, q1, bstr ''OUT_OF_RANGE_'' @ [decimal_digit i], h3)
                      | (None, q1) \<Rightarrow>
                          let q2 = snd (ohubRefineQuarkAddress q1 h3);
                              (ooid, h4) = ohubMakeStaticOoid E q2 h3
                          in (0, q2\<lparr>qk_ooid := ooid\<rparr>, bstr ''OK'', h4))"

section \<open>The factory is a registry of names\<close>

text \<open>
  The abstract factory: the list of identifiers with their names, in the order of
  registration. The heap holds its entries one after the other, the string tree maps each
  name to its identifier, the numeric tree each identifier to the offset of its entry.
\<close>

definition heap_entry :: "u32 \<times> bytes \<Rightarrow> bytes" where
  "heap_entry = (\<lambda>(ooid, path). path @ [0] @ st32 ooid)"

definition heap_of :: "(u32 \<times> bytes) list \<Rightarrow> bytes" where
  "heap_of es = concat (map heap_entry es)"

definition off_map :: "(u32 \<times> bytes) list \<Rightarrow> int \<Rightarrow> int option" where
  "off_map es k = map_option (\<lambda>i. int (length (heap_of (take i es))))
     (find (\<lambda>i. sint (fst (es ! i)) = k) [0..<length es])"

definition id_map :: "(u32 \<times> bytes) list \<Rightarrow> bytes \<Rightarrow> int option" where
  "id_map es path = map_option (\<lambda>e. sint (fst e)) (find (\<lambda>e. snd e = path) es)"

definition entry_ok :: "u32 \<times> bytes \<Rightarrow> bool" where
  "entry_ok e \<longleftrightarrow> str_key (snd e) \<and> fst e \<noteq> 0"

definition registry :: "(u32 \<times> bytes) list \<Rightarrow> 'a hubdom_scheme \<Rightarrow> bool" where
  "registry es h \<longleftrightarrow> list_all entry_ok es \<and> distinct (map fst es) \<and> distinct (map snd es)
     \<and> path_heap h = heap_of es \<and> str_holds (length es) (by_path_hash h) (id_map es)
     \<and> num_holds (length es) (by_ooid_hash h) (off_map es)"

lemma find_append: "find P (xs @ ys) = (case find P xs of None \<Rightarrow> find P ys | Some x \<Rightarrow> Some x)"
  by (induction xs) auto

lemma find_SomeD: "find P xs = Some x \<Longrightarrow> x \<in> set xs \<and> P x"
  by (auto simp: find_Some_iff)

lemma id_map_snoc: "path \<notin> set (map snd es) \<Longrightarrow> id_map (es @ [(i, path)]) = (id_map es)(path \<mapsto> sint i)"
  by (auto simp: id_map_def fun_eq_iff find_append split: option.splits dest!: find_SomeD)

lemma off_map_snoc:
  assumes "i \<notin> set (map fst es)"
  shows "off_map (es @ [(i, path)]) = (off_map es)(sint i \<mapsto> int (length (heap_of es)))"
proof
  fix k
  have e: "find (\<lambda>j. sint (fst ((es @ [(i, path)]) ! j)) = k) [0..<length es]
      = find (\<lambda>j. sint (fst (es ! j)) = k) [0..<length es]"
    by (rule find_cong) (auto simp: nth_append)
  have t: "find (\<lambda>j. sint (fst (es ! j)) = k) [0..<length es] = Some j \<Longrightarrow> j < length es \<and> sint (fst (es ! j)) = k" for j
    by (auto simp: find_Some_iff)
  have n: "find (\<lambda>j. sint (fst (es ! j)) = sint i) [0..<length es] = None"
    using assms by (auto simp: find_None_iff dest!: sint_u32_inj)
  show "off_map (es @ [(i, path)]) k = ((off_map es)(sint i \<mapsto> int (length (heap_of es)))) k"
    using n by (auto simp: off_map_def e find_append split: option.splits dest!: t)
qed


lemma id_map_Some: "id_map es path = Some v \<longleftrightarrow> (\<exists>e \<in> set es. snd e = path \<and> v = sint (fst e))"
  if "distinct (map snd es)"
proof
  assume "id_map es path = Some v"
  then show "\<exists>e \<in> set es. snd e = path \<and> v = sint (fst e)"
    by (auto simp: id_map_def dest!: find_SomeD)
next
  assume "\<exists>e \<in> set es. snd e = path \<and> v = sint (fst e)"
  then obtain e where e: "e \<in> set es" "snd e = path" "v = sint (fst e)" by blast
  have "find (\<lambda>e. snd e = path) es \<noteq> None" unfolding find_None_iff using e by blast
  then obtain e' where f: "find (\<lambda>e. snd e = path) es = Some e'" by blast
  then have "e' \<in> set es" "snd e' = path" by (auto simp: find_Some_iff)
  then have "e' = e" using e that by (metis distinct_map inj_onD)
  then show "id_map es path = Some v" using f e by (simp add: id_map_def)
qed

lemma id_map_None: "id_map es path = None \<longleftrightarrow> path \<notin> set (map snd es)"
  by (force simp: id_map_def find_None_iff)

lemma off_map_at:
  assumes "distinct (map fst es)" and "j < length es"
  shows "off_map es (sint (fst (es ! j))) = Some (int (length (heap_of (take j es))))"
proof -
  have u: "k = j" if "k < length es" "sint (fst (es ! k)) = sint (fst (es ! j))" for k
    using that assms sint_u32_inj by (metis distinct_conv_nth length_map nth_map)
  have "find (\<lambda>k. sint (fst (es ! k)) = sint (fst (es ! j))) [0..<length es] \<noteq> None"
    using assms(2) by (auto simp: find_None_iff)
  then obtain k where k: "find (\<lambda>k. sint (fst (es ! k)) = sint (fst (es ! j))) [0..<length es] = Some k" by auto
  then have "k < length es" "sint (fst (es ! k)) = sint (fst (es ! j))" by (auto simp: find_Some_iff)
  then have "k = j" by (rule u)
  then show ?thesis using k by (simp add: off_map_def)
qed

lemma off_map_None: "ooid \<notin> set (map fst es) \<Longrightarrow> off_map es (sint ooid) = None"
  by (auto simp: off_map_def find_None_iff dest!: sint_u32_inj)

lemma heap_of_split: "j < length es \<Longrightarrow> drop (length (heap_of (take j es))) (heap_of es) = heap_of (drop j es)"
proof -
  have "heap_of es = heap_of (take j es) @ heap_of (drop j es)"
    by (simp add: heap_of_def flip: concat_append map_append)
  then show ?thesis by simp
qed

lemma cstr_at_entry: "0 \<notin> set path \<Longrightarrow> takeWhile (\<lambda>c. c \<noteq> 0) (heap_entry (i, path) @ r) = path"
  by (auto simp: heap_entry_def takeWhile_append2 takeWhile_tail)

lemma cstr_at_heap:
  assumes "list_all entry_ok es" and "j < length es"
  shows "cstr_at (heap_of es) (length (heap_of (take j es))) = snd (es ! j)"
proof -
  have "entry_ok (es ! j)" using assms by (simp add: list_all_length)
  then have z: "0 \<notin> set (snd (es ! j))" by (simp add: entry_ok_def str_key_def)
  have "heap_of (drop j es) = heap_entry (es ! j) @ heap_of (drop (Suc j) es)"
    using assms(2) by (simp add: heap_of_def flip: Cons_nth_drop_Suc)
  then show ?thesis
    using cstr_at_entry [OF z, of "fst (es ! j)"] assms(2) by (simp add: cstr_at_def heap_of_split)
qed

text \<open>The operations on the registry.\<close>

lemma add_path_registry:
  assumes "registry es h" and "entry_ok (i, path)" and "i \<notin> set (map fst es)" and "path \<notin> set (map snd es)"
    and "length es < 65535" and mem: "\<And>n. env_alloc E n"
  shows "fst (ohubAddOoidPath E path i h) = OK \<and> registry (es @ [(i, path)]) (snd (ohubAddOoidPath E path i h))
    \<and> ooid_seq (snd (ohubAddOoidPath E path i h)) = ooid_seq h"
proof -
  let ?es = "es @ [(i, path)]"
  have r: "list_all entry_ok es" "distinct (map fst es)" "distinct (map snd es)" "path_heap h = heap_of es"
    "str_holds (length es) (by_path_hash h) (id_map es)" "num_holds (length es) (by_ooid_hash h) (off_map es)"
    using assms(1) by (auto simp: registry_def)
  have k: "str_key path" using assms(2) by (simp add: entry_ok_def)
  obtain t1 where t1: "treeAdd E (by_path_hash h) path (sint i) = Some (OK, t1)"
    "str_holds (Suc (length es)) t1 ((id_map es)(path \<mapsto> sint i))"
    using str_dict.add_law [OF r(5) k _ assms(5), of E "sint i"] mem assms(4) by (auto simp: id_map_None)
  obtain t2 where t2: "treeNumAdd E (by_ooid_hash h) (sint i) (int (length (heap_of es))) = (OK, t2)"
    "num_holds (Suc (length es)) t2 ((off_map es)(sint i \<mapsto> int (length (heap_of es))))"
    using num_dict.add_law [OF r(6) sint_u32_range [of i] off_map_None [OF assms(3)] assms(5), of E] mem by auto
  have heap: "heap_of ?es = heap_of es @ path @ [0] @ st32 i"
    by (simp add: heap_of_def heap_entry_def)
  show ?thesis
    using t1 t2 r mem assms(2-4) heap
    by (auto simp: ohubAddOoidPath_def Let_def registry_def id_map_snoc off_map_snoc)
qed

lemma find_name_registry:
  assumes "registry es h"
  shows "fst (ohubFindNameByOoid ooid h) = map_of es ooid \<and> registry es (snd (ohubFindNameByOoid ooid h))"
proof -
  have r: "list_all entry_ok es" "distinct (map fst es)" "path_heap h = heap_of es"
    "num_holds (length es) (by_ooid_hash h) (off_map es)"
    using assms by (auto simp: registry_def)
  obtain t where t: "treeNumFind (by_ooid_hash h) (sint ooid)
      = (off_map es (sint ooid) \<noteq> None, (case off_map es (sint ooid) of None \<Rightarrow> 0 | Some v \<Rightarrow> v), t)"
    "num_holds (length es) t (off_map es)"
    using num_dict.find_law [OF r(4) sint_u32_range [of ooid]] by blast
  show ?thesis
  proof (cases "ooid \<in> set (map fst es)")
    case False
    then have "map_of es ooid = None" by (simp add: map_of_eq_None_iff)
    then show ?thesis using t off_map_None [OF False] assms
      by (auto simp: ohubFindNameByOoid_def registry_def)
  next
    case True
    then obtain j where j: "j < length es" "fst (es ! j) = ooid" by (auto simp: in_set_conv_nth)
    then have "map_of es ooid = Some (snd (es ! j))" using r(2) by (metis map_of_eq_Some_iff nth_mem prod.collapse)
    then show ?thesis using t off_map_at [OF r(2) j(1)] j cstr_at_heap [OF r(1) j(1)] assms r(3)
      by (auto simp: ohubFindNameByOoid_def registry_def)
  qed
qed


lemma find_ooid_registry:
  assumes "registry es h" and "str_key path" and mem: "\<And>n. env_alloc E n" and "length es < 65535"
    and "o' = (let n = ooid_seq h + 1 in if n = 0 then n + 1 else n)" and "o' \<notin> set (map fst es)"
    and "ohubFindOoidByName E path can_add h = (i, h')"
  shows "(path \<in> set (map snd es) \<longrightarrow> (i, path) \<in> set es \<and> registry es h' \<and> ooid_seq h' = ooid_seq h)
    \<and> (path \<notin> set (map snd es) \<and> can_add \<longrightarrow> i = o' \<and> registry (es @ [(o', path)]) h' \<and> ooid_seq h' = o')"
proof -
  have r: "distinct (map snd es)" "str_holds (length es) (by_path_hash h) (id_map es)"
    using assms(1) by (auto simp: registry_def)
  obtain t where t: "treeFind (by_path_hash h) path = (id_map es path \<noteq> None,
      (case id_map es path of None \<Rightarrow> 0 | Some v \<Rightarrow> v), t)" "str_holds (length es) t (id_map es)"
    using str_dict.find_law [OF r(2) assms(2)] by blast
  have rt: "registry es (h\<lparr>by_path_hash := t\<rparr>)" using assms(1) t(2) by (simp add: registry_def)
  show ?thesis
  proof (cases "path \<in> set (map snd es)")
    case True
    then obtain v where v: "id_map es path = Some v" by (metis id_map_None not_None_eq)
    then obtain e where "e \<in> set es" "snd e = path" "v = sint (fst e)" using id_map_Some [OF r(1)] by auto
    then have "(word_of_int v, path) \<in> set es" by auto
    then show ?thesis using assms(7) t(1) v rt True by (auto simp: ohubFindOoidByName_def)
  next
    case False
    then have n: "id_map es path = None" by (simp add: id_map_None)
    have "o' \<noteq> 0" unfolding assms(5) Let_def by auto
    then have ok: "entry_ok (o', path)" using assms(2) by (simp add: entry_ok_def)
    have "registry es (h\<lparr>by_path_hash := t, ooid_seq := o'\<rparr>)" using rt by (simp add: registry_def)
    note a = add_path_registry [OF this ok assms(6) False assms(4) mem]
    show ?thesis using assms(7) t(1) n a False
      by (auto simp: ohubFindOoidByName_def Let_def assms(5))
  qed
qed

definition name_all :: "env \<Rightarrow> bytes list \<Rightarrow> 'a hubdom_scheme \<Rightarrow> 'a hubdom_scheme" where
  "name_all E paths h = fold (\<lambda>p h. snd (ohubFindOoidByName E p True h)) paths h"

lemma init_registry: "registry [] (ohubInitOoidFactory h)"
  using holds_alloc by (simp add: registry_def ohubInitOoidFactory_def heap_of_def id_map_def [abs_def] off_map_def [abs_def])

definition numbered :: "(u32 \<times> bytes) list \<Rightarrow> bool" where
  "numbered es \<longleftrightarrow> map fst es = map (\<lambda>i. word_of_nat (Suc i)) [0..<length es]"

lemma numbered_snoc: "numbered es \<Longrightarrow> numbered (es @ [(word_of_nat (Suc (length es)), p)])"
  by (simp add: numbered_def)

lemma unat_small: "n \<le> 65535 \<Longrightarrow> unat (word_of_nat n :: u32) = n"
  by (simp add: unsigned_of_nat take_bit_nat_eq_self)

lemma numbered_less:
  assumes "numbered es" and "length es < 65535"
  shows "word_of_nat (Suc (length es)) \<notin> set (map fst es)"
proof
  assume "word_of_nat (Suc (length es)) \<in> set (map fst es)"
  then obtain i where i: "i < length es" "(word_of_nat (Suc (length es)) :: u32) = word_of_nat (Suc i)"
    unfolding assms(1) [unfolded numbered_def] by (auto simp del: of_nat_Suc)
  then show False using assms(2) unat_small [of "Suc (length es)"] unat_small [of "Suc i"] by auto
qed

lemma name_all_registry:
  assumes "registry es h" and "numbered es" and "ooid_seq h = word_of_nat (length es)"
    and "length es + length paths < 65535" and "list_all str_key paths" and mem: "\<And>n. env_alloc E n"
  shows "\<exists>es'. registry es' (name_all E paths h) \<and> numbered es' \<and> ooid_seq (name_all E paths h) = word_of_nat (length es')
    \<and> length es' \<le> length es + length paths \<and> set (map snd es') = set (map snd es) \<union> set paths"
  using assms(1-5)
proof (induction paths arbitrary: es h)
  case Nil
  then show ?case by (intro exI [of _ es]) (simp add: name_all_def)
next
  case (Cons p ps)
  obtain i h1 where f: "ohubFindOoidByName E p True h = (i, h1)" by (metis prod.exhaust)
  have o': "(let n = ooid_seq h + 1 in if n = 0 then n + 1 else n) = word_of_nat (Suc (length es))"
  proof -
    have "(word_of_nat (Suc (length es)) :: u32) \<noteq> 0"
      using Cons.prems(4) unat_small [of "Suc (length es)"] by auto
    then show ?thesis using Cons.prems(3) by (simp add: add.commute)
  qed
  have n: "length es < 65535" "str_key p" using Cons.prems by auto
  note fr = find_ooid_registry [OF Cons.prems(1) n(2) mem n(1) o' [symmetric] numbered_less [OF Cons.prems(2) n(1)] f]
  have na: "name_all E (p # ps) h = name_all E ps h1" by (simp add: name_all_def f)
  show ?case
  proof (cases "p \<in> set (map snd es)")
    case True
    then obtain es' where "registry es' (name_all E ps h1)" "numbered es'" "ooid_seq (name_all E ps h1) = word_of_nat (length es')"
      "length es' \<le> length es + length ps" "set (map snd es') = set (map snd es) \<union> set ps"
      using Cons.IH [of es h1] fr Cons.prems by auto
    then show ?thesis unfolding na using True by (intro exI [of _ es']) auto
  next
    case False
    let ?es = "es @ [(word_of_nat (Suc (length es)), p)]"
    obtain es' where "registry es' (name_all E ps h1)" "numbered es'" "ooid_seq (name_all E ps h1) = word_of_nat (length es')"
      "length es' \<le> length ?es + length ps" "set (map snd es') = set (map snd ?es) \<union> set ps"
      using Cons.IH [of ?es h1] fr False Cons.prems numbered_snoc [OF Cons.prems(2), of p] by auto
    then show ?thesis unfolding na by (intro exI [of _ es']) auto
  qed
qed


lemma save_lines_registry:
  assumes "list_all entry_ok es" and "j \<le> length es"
  shows "save_lines E (heap_of es) (length (heap_of (take j es))) = drop j es"
  using assms(2)
proof (induction "length es - j" arbitrary: j)
  case 0
  then show ?case by (simp add: save_lines.simps)
next
  case (Suc n)
  then have j: "j < length es" by simp
  let ?off = "length (heap_of (take j es))" and ?e = "es ! j"
  obtain i path where e: "?e = (i, path)" by (metis prod.exhaust)
  have sp: "heap_of es = heap_of (take j es) @ path @ [0] @ st32 i @ heap_of (drop (Suc j) es)"
  proof -
    have "heap_of es = heap_of (take j es @ ?e # drop (Suc j) es)" by (rule arg_cong [OF id_take_nth_drop [OF j]])
    then show ?thesis by (simp add: heap_of_def e heap_entry_def)
  qed
  have c: "cstr_at (heap_of es) ?off = path" using cstr_at_heap [OF assms(1) j] e by simp
  have "ld32 E ((heap_of (take j es) @ path @ [0]) @ st32 i @ heap_of (drop (Suc j) es)) (?off + (length path + 1)) = i"
    by (rule ld32_st32) simp
  then have l: "ld32 E (heap_of es) (?off + (length path + 1)) = i" using sp by simp
  have "heap_of (take (Suc j) es) = heap_of (take j es) @ path @ [0] @ st32 i"
    using j by (simp add: heap_of_def take_Suc_conv_app_nth e heap_entry_def)
  then have nx: "?off + (length path + 1) + 4 = length (heap_of (take (Suc j) es))" by simp
  have "?off < length (heap_of es)" by (simp add: sp)
  then have "save_lines E (heap_of es) ?off = (i, path) # save_lines E (heap_of es) (length (heap_of (take (Suc j) es)))"
    by (subst save_lines.simps) (simp only: Let_def c l nx if_True)
  also have "\<dots> = (i, path) # drop (Suc j) es" using Suc j by simp
  finally show ?case using j e by (simp flip: Cons_nth_drop_Suc)
qed

lemma save_registry: "registry es h \<Longrightarrow> ohubSaveOoidHash E h = es"
  using save_lines_registry [of es 0 E] by (simp add: ohubSaveOoidHash_def registry_def heap_of_def)

lemma load_registry:
  assumes "registry es h" and "registry (es @ ls) h'" and "numbered (es @ ls)" and "length (es @ ls) < 65535"
    and "ooid_seq h = word_of_nat (length es)" and mem: "\<And>n. env_alloc E n"
  shows "registry (es @ ls) (snd (ohubLoadOoidHash E ls h))
    \<and> ooid_seq (snd (ohubLoadOoidHash E ls h)) = word_of_nat (length (es @ ls)) \<and> fst (ohubLoadOoidHash E ls h) = length ls"
  using assms(1-5)
proof (induction ls arbitrary: es h)
  case (Cons e ls)
  obtain i p where e: "e = (i, p)" by (metis prod.exhaust)
  have i: "i = word_of_nat (Suc (length es))"
  proof -
    have "map fst (es @ e # ls) ! length es = map (\<lambda>i. word_of_nat (Suc i)) [0..<length (es @ e # ls)] ! length es"
      using Cons.prems(3) by (simp only: numbered_def)
    then show ?thesis by (simp add: e nth_append)
  qed
  have d: "distinct (map fst (es @ e # ls))" "distinct (map snd (es @ e # ls))" "list_all entry_ok (es @ e # ls)"
    using Cons.prems(2) by (auto simp: registry_def)
  let ?a = "ohubAddOoidPath E p i h"
  have a: "fst ?a = OK" "registry (es @ [(i, p)]) (snd ?a)" "ooid_seq (snd ?a) = ooid_seq h"
    using add_path_registry [OF Cons.prems(1), of i p E] d Cons.prems(4) mem by (auto simp: e)
  have s: "0 <s i - ooid_seq h" 
    using i Cons.prems(5) by (simp add: word_sless_alt)
  let ?h = "(snd ?a)\<lparr>ooid_seq := i\<rparr>"
  have "registry (es @ [(i, p)]) ?h" using a by (simp add: registry_def)
  then have "registry (es @ e # ls) (snd (ohubLoadOoidHash E ls ?h))
    \<and> ooid_seq (snd (ohubLoadOoidHash E ls ?h)) = word_of_nat (length (es @ e # ls)) \<and> fst (ohubLoadOoidHash E ls ?h) = length ls"
    using Cons.IH [of "es @ [(i, p)]" ?h] Cons.prems i by (simp add: e)
  moreover have "0 < sint (i - ooid_seq h)" using s by (simp add: word_sless_alt)
  ultimately show ?case using a by (simp add: e Let_def case_prod_unfold)
qed simp

section \<open>Properties\<close>

text \<open>
  C10. Names and identifiers correspond: after any sequence of fewer than 65535 names (without
  NUL, at most 1023 bytes) went through a new factory, each of them has an identifier
  different from 0, the identifier leads back to the name, and no other name has it.
\<close>

theorem ooid_name_roundtrip:
  assumes "\<And>n. env_alloc E n" and "length paths < 65535" and "list_all str_key paths"
    and "p \<in> set paths" and "q \<in> set paths"
  shows "let h' = name_all E paths (ohubInitOoidFactory h); ooid = fst (ohubFindOoidByName E p add h')
    in ooid \<noteq> 0 \<and> fst (ohubFindNameByOoid ooid h') = Some p
      \<and> (fst (ohubFindOoidByName E q add h') = ooid \<longrightarrow> q = p)"
proof -
  let ?h = "name_all E paths (ohubInitOoidFactory h)"
  have i: "ooid_seq (ohubInitOoidFactory h) = word_of_nat (length ([] :: (u32 \<times> bytes) list))"
    by (simp add: ohubInitOoidFactory_def)
  obtain es where es: "registry es ?h" "set (map snd es) = set paths"
    using name_all_registry [OF init_registry _ i _ assms(3,1)] assms(2) by (auto simp: numbered_def)
  have r: "distinct (map fst es)" "distinct (map snd es)" "list_all entry_ok es"
    "str_holds (length es) (by_path_hash ?h) (id_map es)" using es(1) by (auto simp: registry_def)
  have f: "(fst (ohubFindOoidByName E x add ?h), x) \<in> set es" if x: "x \<in> set paths" for x
  proof -
    have k: "str_key x" using assms(3) x by (simp add: list_all_iff)
    obtain v where v: "id_map es x = Some v" using x es(2) by (metis id_map_None not_None_eq)
    then obtain e where "e \<in> set es" "snd e = x" "v = sint (fst e)" using id_map_Some [OF r(2)] by auto
    then have "(word_of_int v, x) \<in> set es" by auto
    then show ?thesis using str_dict.find_Some [OF r(4) k v] by (auto simp: ohubFindOoidByName_def)
  qed
  let ?o = "fst (ohubFindOoidByName E p add ?h)"
  have "?o \<noteq> 0" using f [OF assms(4)] r(3) by (auto simp: list_all_iff entry_ok_def)
  moreover have "fst (ohubFindNameByOoid ?o ?h) = Some p"
    using find_name_registry [OF es(1), of ?o] f [OF assms(4)] r(1) by simp
  moreover have "fst (ohubFindOoidByName E q add ?h) = ?o \<longrightarrow> q = p"
    using f [OF assms(4)] f [OF assms(5)] r(1) by (metis eq_key_imp_eq_value)
  ultimately show ?thesis by (simp add: Let_def)
qed

lemma numbered_Nil: "numbered []"
  by (simp add: numbered_def)

lemma init_seq: "ooid_seq (ohubInitOoidFactory h) = word_of_nat (length ([] :: (u32 \<times> bytes) list))"
  by (simp add: ohubInitOoidFactory_def)

lemma find_ooid_known:
  assumes "registry es h" and "p \<in> set (map snd es)" and "str_key p"
  shows "fst (ohubFindOoidByName E p add h) = word_of_int (the (id_map es p))"
proof -
  obtain v where v: "id_map es p = Some v" using assms(2) by (metis id_map_None not_None_eq)
  have "str_holds (length es) (by_path_hash h) (id_map es)" using assms(1) by (simp add: registry_def)
  then obtain t where "treeFind (by_path_hash h) p = (True, v, t)"
    using str_dict.find_Some [of "length es" _ "id_map es", OF _ assms(3) v] by blast
  then show ?thesis using v by (simp add: ohubFindOoidByName_def)
qed


section \<open>Indexed names\<close>

definition index_text :: "(bytes \<times> bytes) list \<Rightarrow> bytes" where
  "index_text ps = concat (map (\<lambda>(name, digits). name @ [91] @ digits @ [93]) ps)"

lemma extract_plain:
  assumes "91 \<notin> set s"
  shows "extract_indexes (s @ t) ind = map_option (\<lambda>(p, i). (s @ p, i)) (extract_indexes t ind)"
  using assms
proof (induction s)
  case (Cons c s)
  then have "c \<noteq> 91" by auto
  then have "extract_indexes ((c # s) @ t) ind = map_option (\<lambda>(p, i). (c # p, i)) (extract_indexes (s @ t) ind)"
    by (subst extract_indexes.simps) (simp add: Let_def)
  then show ?case using Cons by (auto simp: option.map_comp intro!: option.map_cong)
qed (simp add: option.map_ident_strong)

lemma extract_index:
  assumes "ds \<noteq> []" and "\<forall>c \<in> set ds. is_digit c"
  shows "extract_indexes ([91] @ ds @ [93] @ t) ind = (if length ind \<ge> 4 then None
    else map_option (\<lambda>(p, i). (63 # p, i)) (extract_indexes t (ind @ [digits_value ds])))"
proof -
  have n: "\<not> is_digit 93" by (simp add: is_digit_def)
  have "takeWhile is_digit (ds @ 93 # t) = ds" "dropWhile is_digit (ds @ 93 # t) = 93 # t"
    using assms(2) n by (auto simp: takeWhile_append2 dropWhile_append2)
  then show ?thesis using assms(1) n by (subst extract_indexes.simps) (simp add: Let_def del: takeWhile_eq_all_conv)
qed

lemma extract_all:
  assumes "\<forall>(name, ds) \<in> set ps. 91 \<notin> set name \<and> ds \<noteq> [] \<and> (\<forall>c \<in> set ds. is_digit c)" and "91 \<notin> set rest"
    and "length ind \<le> 4"
  shows "extract_indexes (index_text ps @ rest) ind =
    (if length ind + length ps \<le> 4
     then Some (concat (map (\<lambda>(name, ds). name @ [63]) ps) @ rest, ind @ map (\<lambda>(name, ds). digits_value ds) ps)
     else None)"
  using assms
proof (induction ps arbitrary: ind)
  case Nil
  have "extract_indexes [] i = Some ([], i)" for i by (subst extract_indexes.simps) simp
  then show ?case using Nil extract_plain [OF assms(2), of "[]"] by (simp add: index_text_def)
next
  case (Cons p ps)
  obtain name ds where p: "p = (name, ds)" by (metis prod.exhaust)
  have a: "91 \<notin> set name" "ds \<noteq> []" "\<forall>c \<in> set ds. is_digit c" using Cons.prems(1) p by auto
  have "index_text (p # ps) @ rest = name @ [91] @ ds @ [93] @ (index_text ps @ rest)"
    by (simp add: index_text_def p)
  then have "extract_indexes (index_text (p # ps) @ rest) ind = map_option (\<lambda>(p, i). (name @ p, i))
     (if length ind \<ge> 4 then None
      else map_option (\<lambda>(p, i). (63 # p, i)) (extract_indexes (index_text ps @ rest) (ind @ [digits_value ds])))"
    by (simp only: extract_plain [OF a(1)] extract_index [OF a(2,3)])
  then show ?case using Cons.IH [of "ind @ [digits_value ds]"] Cons.prems p by auto
qed

text \<open>
  C24. Indices in a name: a name of parts and decimal indices in brackets is split into the
  generic name, with a question mark for each index, and the values of the indices in their
  order; a name with more than four indices is refused.
\<close>

theorem extract_indexes_inverts:
  assumes "\<forall>(name, ds) \<in> set ps. 91 \<notin> set name \<and> ds \<noteq> [] \<and> (\<forall>c \<in> set ds. is_digit c)" and "91 \<notin> set rest"
  shows "extract_indexes (index_text ps @ rest) [] =
    (if length ps \<le> 4
     then Some (concat (map (\<lambda>(name, ds). name @ [63]) ps) @ rest, map (\<lambda>(name, ds). digits_value ds) ps)
     else None)"
  using extract_all [OF assms, of "[]"] by simp

theorem extract_indexes_inverts_witness:
  "extract_indexes (index_text [([97], [49, 50]), ([46, 98], [51])] @ [46, 99]) [] =
     Some ([97, 63, 46, 98, 63, 46, 99], [12, 3])"
  using extract_indexes_inverts [of "[([97], [49, 50]), ([46, 98], [51])]" "[46, 99]"]
  by (simp add: is_digit_def digits_value_def to_int32_def)

lemma to_int32_cong: "x mod 4294967296 = y mod 4294967296 \<Longrightarrow> to_int32 x = to_int32 y"
  unfolding to_int32_def by (metis mod_add_left_eq)

lemma to_int32_mod: "to_int32 x mod 4294967296 = x mod 4294967296"
  unfolding to_int32_def by (simp add: mod_diff_left_eq)

lemma to_int32_add: "to_int32 (to_int32 a + to_int32 b) = to_int32 (a + b)"
  by (rule to_int32_cong) (metis to_int32_mod mod_add_eq)

lemma to_int32_add_left: "to_int32 (a + to_int32 b) = to_int32 (a + b)"
  by (rule to_int32_cong) (metis to_int32_mod mod_add_eq)

lemma to_int32_add_right: "to_int32 (to_int32 a + b) = to_int32 (a + b)"
  by (rule to_int32_cong) (metis to_int32_mod mod_add_eq)

definition index_ok :: "quark \<Rightarrow> nat \<Rightarrow> int \<Rightarrow> bool" where
  "index_ok q i k \<longleftrightarrow> 0 \<le> k \<and> (if qk_dim q ! i = 0 then k = 0 else k < qk_dim q ! i)"

lemma crunch_all:
  assumes "length (qk_ind q) = 4" and "i + length ks \<le> 4" and "int32_range (qk_off q)"
  shows "case find (\<lambda>j. \<not> index_ok q (i + j) (ks ! j)) [0..<length ks] of
      Some j \<Rightarrow> fst (crunch_offset i ks q) = Some (i + j)
    | None \<Rightarrow> crunch_offset i ks q = (None, q\<lparr>qk_off := to_int32 (qk_off q + (\<Sum>j<length ks. ks ! j * qk_coef q ! (i + j))),
        qk_ind := take i (qk_ind q) @ ks @ drop (i + length ks) (qk_ind q)\<rparr>)"
  using assms
proof (induction ks arbitrary: i q)
  case Nil
  then show ?case by (simp add: to_int32_id)
next
  case (Cons k ks)
  have ok: "index_ok q i k \<longleftrightarrow> \<not> ((qk_dim q ! i = 0 \<and> k \<noteq> 0) \<or> (qk_dim q ! i \<noteq> 0 \<and> k \<ge> qk_dim q ! i) \<or> k < 0)"
    by (auto simp: index_ok_def)
  have up: "[0..<length (k # ks)] = 0 # map Suc [0..<length ks]" 
    by (simp only: list.size add_0_right add_Suc_right upt_conv_Cons [OF zero_less_Suc] map_Suc_upt)
  have fm: "find P (map Suc xs) = map_option Suc (find (P \<circ> Suc) xs)" for P xs by (induction xs) auto
  show ?case
  proof (cases "index_ok q i k")
    case False
    then show ?thesis unfolding up using ok by (auto simp: Let_def)
  next
    case True
    let ?q = "q\<lparr>qk_off := to_int32 (qk_off q + to_int32 (k * qk_coef q ! i)), qk_ind := (qk_ind q)[i := k]\<rparr>"
    have c: "crunch_offset i (k # ks) q = crunch_offset (Suc i) ks ?q"
      using True ok by (auto simp: Let_def)
    have ix: "index_ok ?q = index_ok q" by (simp add: index_ok_def fun_eq_iff)
    have f: "find (\<lambda>j. \<not> index_ok q (i + j) ((k # ks) ! j)) [0..<length (k # ks)]
        = map_option Suc (find (\<lambda>j. \<not> index_ok ?q (Suc i + j) (ks ! j)) [0..<length ks])"
      unfolding up using True by (simp add: fm comp_def ix)
    have t: "take (Suc i) ((qk_ind q)[i := k]) @ ks @ drop (Suc i + length ks) ((qk_ind q)[i := k])
        = take i (qk_ind q) @ (k # ks) @ drop (i + length (k # ks)) (qk_ind q)"
      using Cons.prems by (simp add: take_Suc_conv_app_nth)
    have s: "to_int32 (qk_off ?q + (\<Sum>j<length ks. ks ! j * qk_coef ?q ! (Suc i + j)))
        = to_int32 (qk_off q + (\<Sum>j<length (k # ks). (k # ks) ! j * qk_coef q ! (i + j)))"
      by (simp add: to_int32_add_left to_int32_add_right sum.lessThan_Suc_shift add.assoc del: sum.lessThan_Suc)
    show ?thesis
      using Cons.IH [of ?q "Suc i"] Cons.prems to_int32_range s t
      unfolding c f by (auto split: option.splits)
  qed
qed

text \<open>
  C23. The address of an array element: the offset of a quark grows by the sum of the indices
  times their coefficients, in 32 bit arithmetic, when every index is within its dimension
  (an unused dimension has index 0), and otherwise the first index that is not is reported.
\<close>

theorem crunch_offset_sum:
  assumes "length (qk_ind q) = 4" and "length ks = 4" and "int32_range (qk_off q)"
  shows "if \<forall>i < 4. index_ok q i (ks ! i)
    then crunch_offset 0 ks q = (None, q\<lparr>qk_off := to_int32 (qk_off q + (\<Sum>i<4. ks ! i * qk_coef q ! i)), qk_ind := ks\<rparr>)
    else \<exists>i < 4. \<not> index_ok q i (ks ! i) \<and> (\<forall>j < i. index_ok q j (ks ! j)) \<and> fst (crunch_offset 0 ks q) = Some i"
proof (cases "find (\<lambda>j. \<not> index_ok q (0 + j) (ks ! j)) [0..<length ks]")
  case None
  then have "\<forall>i < 4. index_ok q i (ks ! i)" using assms(2) by (auto simp: find_None_iff)
  then show ?thesis using crunch_all [OF assms(1) _ assms(3), of 0 ks] None assms by simp
next
  case (Some i)
  then have "i < 4" "\<not> index_ok q i (ks ! i)" "\<forall>j < i. index_ok q j (ks ! j)"
    using assms(2) by (auto simp: find_Some_iff)
  then show ?thesis using crunch_all [OF assms(1) _ assms(3), of 0 ks] Some assms by auto
qed

theorem crunch_offset_sum_witness:
  "crunch_offset 0 [2, 1, 0, 0] (no_quark\<lparr>qk_dim := [3, 4, 0, 0], qk_coef := [16, 4, 0, 0], qk_off := 100\<rparr>)
    = (None, no_quark\<lparr>qk_dim := [3, 4, 0, 0], qk_coef := [16, 4, 0, 0], qk_off := 136, qk_ind := [2, 1, 0, 0]\<rparr>)"
proof -
  let ?q = "no_quark\<lparr>qk_dim := [3, 4, 0, 0], qk_coef := [16, 4, 0, 0], qk_off := 100\<rparr>"
  have "\<forall>i < 4. index_ok ?q i ([2, 1, 0, 0] ! i)"
    by (auto simp: index_ok_def less_Suc_eq numeral_eq_Suc)
  then show ?thesis using crunch_offset_sum [of ?q "[2, 1, 0, 0]"]
    by (simp add: no_quark_def int32_range_def to_int32_def numeral_eq_Suc)
qed

text \<open>
  A small domain for concrete instances: one agent with one subject \<open>s\<close> whose module \<open>m\<close> has
  one variable \<open>x\<close>, a 4 byte integer at offset 16 of segment D.
\<close>

definition agent0 :: agent where
  "agent0 = \<lparr>ag_name = bstr ''a'', ag_state = [], ag_url = bstr ''olang://h'', ag_enable = True,
     ag_nsubj = Some 1, ag_reg_count = 0, ag_write_count = 0\<rparr>"

definition subject0 :: subject where
  "subject0 = \<lparr>sb_ikey = 0, sb_name = bstr ''s'', sb_state = [], sb_avail = AVAIL_PERM, sb_agent = 0,
     sb_waiters = replicate 8 \<lparr>wt_watch = None, wt_op = 0, wt_watchdog = 0\<rparr>, sb_waiters_qty = 0\<rparr>"

definition qrec0 :: qrec where
  "qrec0 = \<lparr>rc_ukey = 1, rc_ikey = 0, rc_adr = 16, rc_off = 0, rc_len = 4, rc_ptr = 45, rc_type = 105,
     rc_seg = 68, rc_spare1 = 0, rc_obj_ikey = 0, rc_bit_off = 0, rc_bit_len = 0, rc_dim = [0, 0, 0, 0],
     rc_coef = [0, 0, 0, 0], rc_glob_ikey = 0, rc_glob_adr = 16, rc_next_no = 0, rc_glob_off = 0, rc_path_off = 0\<rparr>"

definition module0 :: module where
  "module0 = \<lparr>mo_ikey = 0, mo_subject_name = bstr ''s'', mo_nick_name = bstr ''m'', mo_records = [qrec0],
     mo_glob_heap = [120, 0], mo_path_heap = [120, 0],
     mo_quarks_byname = snd (the (treeAdd env0 (treeAlloc 0) [120] 0)),
     mo_segment_addr = replicate 96 (-1), mo_subject = 0\<rparr>"

definition dom0 :: hubdom where
  "dom0 = \<lparr>watchers = replicate 33 watch0, subjs = replicate 33 subj0, next_watch_id = 7, next_subj_id = 9,
     watch_can_immed = 1, subj_can_immed = 1, watch_q_size = 3, subj_q_size = 3,
     watchers_enable = True, subjs_enable = True, fault = False,
     agents = [agent0], subjects = [subject0], modules = [module0], waiters_qty = 0,
     ooid_seq = 0, by_path_hash = treeAlloc 0, by_ooid_hash = treeAlloc NUMERIC_TREE, path_heap = [],
     path_heap_size = 20, quark_cache = [], quark_cache_size = 0, by_desc_quark_hash = treeAlloc 0,
     by_ooid_quark_hash = treeAlloc NUMERIC_TREE\<rparr>"

lemma env0_alloc [simp]: "env_alloc env0 n"
  by (simp add: env0_def)

theorem ooid_name_roundtrip_witness:
  "let h' = name_all env0 [[97], [98], [97]] (ohubInitOoidFactory dom0);
       ooid = fst (ohubFindOoidByName env0 [98] False h')
   in ooid \<noteq> 0 \<and> fst (ohubFindNameByOoid ooid h') = Some [98]"
  using ooid_name_roundtrip [of env0 "[[97], [98], [97]]" "[98]" "[98]" dom0 False]
  by (simp add: str_key_def Let_def)


end
