(* ===== verification/Info.thy ===== *)
theory Info
  imports Domain
begin

text \<open>
  hub-netinfo.c: the cache of quarks found so far, the two lookups that use it, and the
  handlers of the information requests of watchers. The cache is an array of quarks with a
  string tree from paths and a numeric tree from identifiers to indices.
\<close>

section \<open>The cache\<close>

definition ohubFlushInfoCache :: "'a hubdom_scheme \<Rightarrow> 'a hubdom_scheme" where
  "ohubFlushInfoCache h = h\<lparr>quark_cache := [], quark_cache_size := 0,
     by_desc_quark_hash := treeAlloc 0, by_ooid_quark_hash := treeAlloc NUMERIC_TREE\<rparr>"

definition ohubFindCachedInfoByDesc :: "bytes \<Rightarrow> 'a hubdom_scheme \<Rightarrow> quark option \<times> 'a hubdom_scheme" where
  "ohubFindCachedInfoByDesc desc h =
     (case treeFind (by_desc_quark_hash h) desc of (found, no, t) \<Rightarrow>
        (if found then Some (quark_cache h ! nat no) else None, h\<lparr>by_desc_quark_hash := t\<rparr>))"

definition ohubFindCachedInfoByOoid :: "u32 \<Rightarrow> 'a hubdom_scheme \<Rightarrow> quark option \<times> 'a hubdom_scheme" where
  "ohubFindCachedInfoByOoid ooid h =
     (case treeNumFind (by_ooid_quark_hash h) (sint ooid) of (found, no, t) \<Rightarrow>
        (if found then Some (quark_cache h ! nat no) else None, h\<lparr>by_ooid_quark_hash := t\<rparr>))"

text \<open>
  A failing allocation leaves a NULL pointer that the code goes on to write through: a fault.
  \<open>OhubQuark_t\<close> has 388 bytes on the target, an entry of the cache 4.
\<close>

definition ohubAddInfoToCache :: "env \<Rightarrow> quark \<Rightarrow> 'a hubdom_scheme \<Rightarrow> oret \<times> 'a hubdom_scheme" where
  "ohubAddInfoToCache E q h0 =
     (case ohubFindCachedInfoByDesc (qk_path q) h0 of
        (Some _, h) \<Rightarrow> (OK, h)
      | (None, h) \<Rightarrow>
          let no = length (quark_cache h);
              grow = no + 2 > quark_cache_size h;
              new_size = quark_cache_size h * 3 div 2 + 2
          in if (grow \<and> \<not> env_alloc E (4 * new_size)) \<or> \<not> env_alloc E 388 then (ERROR, set_fault True h)
             else
               let h1 = h\<lparr>quark_cache := quark_cache h @ [q],
                          quark_cache_size := (if grow then new_size else quark_cache_size h)\<rparr>
               in case treeAdd E (by_desc_quark_hash h1) (qk_path q) (int no) of
                    None \<Rightarrow> (ERROR, set_fault True h1)
                  | Some (rc1, t1) \<Rightarrow>
                      let (rc2, t2) = treeNumAdd E (by_ooid_quark_hash h1) (sint (qk_ooid q)) (int no)
                      in (if rc1 \<noteq> OK \<or> rc2 \<noteq> OK then ERROR else OK,
                          h1\<lparr>by_desc_quark_hash := t1, by_ooid_quark_hash := t2\<rparr>))"

section \<open>Lookups\<close>

text \<open>
  The result text is None where the code leaves the caller's buffer uninitialised.
\<close>

definition ohubGetInfoByDesc ::
  "env \<Rightarrow> bytes \<Rightarrow> 'a hubdom_scheme \<Rightarrow> int \<times> quark \<times> bytes option \<times> 'a hubdom_scheme" where
  "ohubGetInfoByDesc E desc h =
     (if desc = [] then (ERROR, no_quark, None, h)
      else case ohubFindCachedInfoByDesc desc h of
        (Some q, h1) \<Rightarrow> (OK, snd (ohubRefineQuarkAddress q h1), Some (bstr ''OK''), h1)
      | (None, h1) \<Rightarrow>
          (case ohubFindQuarkByDesc E desc h1 of (rc, q, res, h2) \<Rightarrow>
            (rc, q, Some res, if rc = OK then snd (ohubAddInfoToCache E q h2) else h2)))"

definition ohubGetInfoByOoid ::
  "env \<Rightarrow> u32 \<Rightarrow> 'a hubdom_scheme \<Rightarrow> int \<times> quark \<times> bytes option \<times> 'a hubdom_scheme" where
  "ohubGetInfoByOoid E ooid h =
     (if ooid = 0 then (ERROR, no_quark, None, h)
      else case ohubFindCachedInfoByOoid ooid h of
        (Some q, h1) \<Rightarrow> (OK, snd (ohubRefineQuarkAddress q h1), Some (bstr ''OK''), h1)
      | (None, h1) \<Rightarrow>
          (case ohubFindNameByOoid ooid h1 of
             (None, h2) \<Rightarrow> (ERROR, no_quark, Some (bstr ''OOID_NOT_FOUND''), h2)
           | (Some desc, h2) \<Rightarrow>
               (case ohubFindQuarkByDesc E desc h2 of (rc, q, res, h3) \<Rightarrow>
                 (rc, q, Some res, if rc = OK then snd (ohubAddInfoToCache E q h3) else h3))))"

section \<open>Requests\<close>

text \<open>
  \<open>ohubPackInfoReply\<close>: the bytes it puts after the first \<open>p\<close> of the reply. In the error case the
  padding is stored before \<open>p\<close> is moved behind the text, so at an odd position it replaces the
  first character and one byte behind the text is sent as it was.
\<close>

definition ohubPackInfoReply :: "env \<Rightarrow> nat \<Rightarrow> int \<Rightarrow> quark \<Rightarrow> bytes \<Rightarrow> bytes" where
  "ohubPackInfoReply E p rc q sresult =
     (if rc \<noteq> OK then
        st32 0 @ [of_nat (length sresult)]
        @ (if odd (p + 5) then
             (if sresult = [] then [0] else 0 # tl sresult @ [env_junk E (p + 5 + length sresult)])
           else sresult)
      else
        let n = length (qk_path q);
            body = st32 (OHTONL (qk_ooid q)) @ st16 (OHTONS (qk_len q))
                   @ [qk_ptr q, qk_type q, qk_seg q, 46]
                   @ st16 (OHTONS (qk_bit_off q)) @ st16 (OHTONS (qk_bit_len q))
                   @ st16 (OHTONS (int n)) @ qk_path q
        in if odd (p + length body) then body @ [0] else body)"

definition ohubHandleInfoReq ::
  "env \<Rightarrow> nat \<Rightarrow> int \<Rightarrow> int \<Rightarrow> int \<Rightarrow> bytes \<Rightarrow> 'a hubdom_scheme \<Rightarrow> oret \<times> 'a hubdom_scheme" where
  "ohubHandleInfoReq E pnwatch kind type len buf h =
     (let req_id = OHTONL (ld32 E buf 0);
          reply = (\<lambda>(rc, q, res, h1).
            let sres = (case res of None \<Rightarrow> rd_cstr [env_junk E 0] 0 | Some s \<Rightarrow> s);
                h2 = set_fault (res = None) h1;
                rep = st32 (OHTONL req_id) @ ohubPackInfoReply E 4 rc q sres;
                (rc2, h3) = ohubWatchSendPacket E (Some pnwatch) OLANG_DATA OLANG_INFO_BY_ANY_REPLY
                              (int (length rep)) (Some rep) h2
            in (if rc2 \<noteq> OK then ERROR else OK, h3))
      in if type = OLANG_INFO_BY_DESC_REQ then
           let n = unat (rd E buf 4) in
           if n \<le> 0 \<or> n \<ge> OHUB_MAX_PATH then (ERROR, h)
           else if int (5 + n) \<noteq> len then (ERROR, h)
           else reply (ohubGetInfoByDesc E (takeWhile (\<lambda>c. c \<noteq> 0) (rd_bytes E buf 5 n)) h)
         else if type = OLANG_INFO_BY_OOID_REQ then
           (if len \<noteq> 8 then (ERROR, h)
            else reply (ohubGetInfoByOoid E (OHTONL (ld32 E buf 4)) h))
         else (ERROR, h))"

text \<open>
  \<open>ohubHandleMonGroupReq\<close> is marked unfinished in the source: its reply buffer is never
  allocated, so a request that passes the checks makes the hub write through NULL.
\<close>

definition ohubHandleMonGroupReq ::
  "env \<Rightarrow> nat \<Rightarrow> int \<Rightarrow> int \<Rightarrow> int \<Rightarrow> bytes \<Rightarrow> 'a hubdom_scheme \<Rightarrow> oret \<times> 'a hubdom_scheme" where
  "ohubHandleMonGroupReq E pnwatch kind type len buf h =
     (let n = unat (rd E buf 4) in
      if n \<le> 0 \<or> n \<ge> OHUB_MAX_PATH then (ERROR, h)
      else if int (5 + n) \<noteq> len then (ERROR, h)
      else case ohubGetInfoByDesc E (takeWhile (\<lambda>c. c \<noteq> 0) (rd_bytes E buf 5 n)) h of
        (rc, q, res, h1) \<Rightarrow> (ERROR, set_fault True h1))"

section \<open>Properties\<close>

lemma ONTOHS_OHTONS: "ONTOHS (OHTONS x) = to_short x"
  by (simp add: ONTOHS_def OHTONS_def signed_of_int signed_take_bit_eq_take_bit_shift take_bit_eq_mod to_short_def)

lemma to_short_id: "- 32768 \<le> x \<Longrightarrow> x < 32768 \<Longrightarrow> to_short x = x"
  by (simp add: to_short_def)

lemma info_reply_fields:
  assumes "r = st32 a @ st16 b @ [c, d, e, 46] @ st16 f @ st16 g @ st16 l @ path @ pad"
  shows "ld32 E r 0 = a" "ld16 E r 4 = b" "take 3 (drop 6 r) = [c, d, e]" "ld16 E r 10 = f" "ld16 E r 12 = g"
    "ld16 E r 14 = l" "drop 16 r = path @ pad"
proof -
  have h: "[c, d, e, 46] = [c] @ [d] @ [e] @ [46]" by simp
  show "ld32 E r 0 = a" using ld32_st32 [of 0 "[]" E a] assms by simp
  show "ld16 E r 4 = b" using ld16_st16 [of 4 "st32 a" E b] assms by simp
  show "take 3 (drop 6 r) = [c, d, e]" using assms by simp
  show "ld16 E r 10 = f"
    using ld16_st16 [of 10 "st32 a @ st16 b @ [c, d, e, 46]" E f] assms by simp
  show "ld16 E r 12 = g"
    using ld16_st16 [of 12 "st32 a @ st16 b @ [c, d, e, 46] @ st16 f" E g] assms by simp
  show "ld16 E r 14 = l"
    using ld16_st16 [of 14 "st32 a @ st16 b @ [c, d, e, 46] @ st16 f @ st16 g" E l] assms by simp
  show "drop 16 r = path @ pad" using assms by simp
qed

text \<open>
  A successful reply can be read back: its fields are the identifier, the length, pointer
  character, type, segment, bit position and path of the quark, and prefix and reply have
  even length together.
\<close>

theorem info_reply_readable:
  assumes "length (qk_path q) < 32768" and "r = ohubPackInfoReply E p OK q res"
  shows "OUNTOHL (ld32 E r 0) = qk_ooid q \<and> ONTOHS (ld16 E r 4) = to_short (qk_len q)
    \<and> take 3 (drop 6 r) = [qk_ptr q, qk_type q, qk_seg q]
    \<and> ONTOHS (ld16 E r 10) = to_short (qk_bit_off q) \<and> ONTOHS (ld16 E r 12) = to_short (qk_bit_len q)
    \<and> take (nat (ONTOHS (ld16 E r 14))) (drop 16 r) = qk_path q \<and> even (p + length r)"
proof -
  let ?n = "length (qk_path q)"
  obtain pad where r: "r = st32 (OHTONL (qk_ooid q)) @ st16 (OHTONS (qk_len q)) @ [qk_ptr q, qk_type q, qk_seg q, 46]
      @ st16 (OHTONS (qk_bit_off q)) @ st16 (OHTONS (qk_bit_len q)) @ st16 (OHTONS (int ?n)) @ qk_path q @ pad"
    and ev: "even (p + length r)"
    using assms(2) by (simp add: ohubPackInfoReply_def Let_def split: if_splits)
  have "to_short (int ?n) = int ?n" using assms(1) by (intro to_short_id) auto
  then show ?thesis
    using ev by (simp add: info_reply_fields [OF r] ONTOHS_OHTONS OUNTOHL_def OHTONL_def)
qed

theorem info_reply_readable_witness:
  "OUNTOHL (ld32 env0 (ohubPackInfoReply env0 4 OK (no_quark\<lparr>qk_ooid := 7, qk_path := [97, 98]\<rparr>) []) 0) = 7"
  using info_reply_readable [OF _ refl, of "no_quark\<lparr>qk_ooid := 7, qk_path := [97, 98]\<rparr>" env0 4 "[]"] by simp

text \<open>
  The text of a failed request is lost: behind a prefix of even length (both callers use
  one) the length byte of the reply tells the length of the text, but its first character is
  overwritten with 0, so the text reads as empty.
\<close>

theorem info_error_text_lost:
  assumes "rc \<noteq> OK" and "even p" and "res \<noteq> []" and "r = ohubPackInfoReply E p rc q res"
  shows "ld32 E r 0 = 0 \<and> r ! 4 = of_nat (length res) \<and> cstr_at r 5 = []"
proof -
  have r: "r = st32 0 @ [of_nat (length res), 0] @ tl res @ [env_junk E (p + 5 + length res)]"
    using assms by (simp add: ohubPackInfoReply_def)
  show ?thesis using ld32_st32 [of 0 "[]" E 0] r by (simp add: cstr_at_def st32_def)
qed

theorem info_error_text_lost_witness:
  "cstr_at (ohubPackInfoReply env0 4 ERROR no_quark (bstr ''OOID_NOT_FOUND'')) 5 = []"
  using info_error_text_lost [OF _ _ _ refl, of ERROR 4 "bstr ''OOID_NOT_FOUND''" env0 no_quark]
  by (simp add: bstr_def)

end
