(* ===== verification/Msg.thy ===== *)
theory Msg
  imports Domain
begin

text \<open>
  hub-msg.c: message nodes (one per watcher and per subject that is on), message classes with
  the nodes subscribed to them, and the delivery of messages. The lists are in the order of
  the code, newest first. A node is named by the address it was allocated at, and a class
  holds addresses, so that an address left behind by a node that was freed is visible.
\<close>

section \<open>State\<close>

record msgnode =
  mn_addr :: nat
  mn_name :: bytes
  mn_full :: bool
  mn_klass_num :: nat
  mn_subject :: "nat option"
  mn_watch :: "nat option"

record msgclass =
  mc_klass :: int
  mc_nodes :: "nat list"

record hubmsg = hubdom +
  msg_nodes :: "msgnode list"
  msg_classes :: "msgclass list"
  msg_next :: nat

datatype node_action = MSGNODE_ADD | MSGNODE_REMOVE | MSGNODE_FLUSH

definition find_addr :: "nat \<Rightarrow> msgnode list \<Rightarrow> msgnode option" where
  "find_addr a ns = find (\<lambda>n. mn_addr n = a) ns"

definition upd_node :: "nat \<Rightarrow> (msgnode \<Rightarrow> msgnode) \<Rightarrow> msgnode list \<Rightarrow> msgnode list" where
  "upd_node a f ns = map (\<lambda>n. if mn_addr n = a then f n else n) ns"

section \<open>Nodes\<close>

text \<open>
  The loops that take a node out of the classes. They stop when \<open>klass_num\<close> of the node
  reaches 0, and do not start when it is 0. A class left without nodes is removed.
\<close>

fun drop_entries :: "nat \<Rightarrow> nat list \<Rightarrow> nat \<Rightarrow> nat list \<times> nat" where
  "drop_entries a [] n = ([], n)"
| "drop_entries a (x # xs) n =
     (if x = a then (if n - 1 = 0 then (xs, 0) else drop_entries a xs (n - 1))
      else (let (ys, m) = drop_entries a xs n in (x # ys, m)))"

fun drop_from_classes :: "nat \<Rightarrow> msgclass list \<Rightarrow> nat \<Rightarrow> msgclass list \<times> nat" where
  "drop_from_classes a [] n = ([], n)"
| "drop_from_classes a (c # cs) n =
     (if n = 0 then (c # cs, 0)
      else let (ys, m) = drop_entries a (mc_nodes c) n;
               (cs', m') = drop_from_classes a cs m
           in (if ys = [] then cs' else c\<lparr>mc_nodes := ys\<rparr> # cs', m'))"

definition ohubRegisterMsgNode ::
  "env \<Rightarrow> nat option \<Rightarrow> nat option \<Rightarrow> node_action \<Rightarrow> bytes \<Rightarrow> 'a hubmsg_scheme \<Rightarrow> oret \<times> 'a hubmsg_scheme" where
  "ohubRegisterMsgNode E pnwatch psubject action node_name h =
     (if (pnwatch \<noteq> None \<and> psubject \<noteq> None) \<or> (pnwatch = None \<and> psubject = None) then (ERROR, h)
      else case action of
        MSGNODE_ADD \<Rightarrow>
          (if \<exists>n \<in> set (msg_nodes h). (mn_watch n = pnwatch \<and> mn_subject n = psubject) \<or> mn_name n = node_name
           then (ERROR, h)
           else if \<not> env_alloc E 24 \<or> \<not> env_alloc E (length node_name + 1) then (ERROR, h)
           else (OK, h\<lparr>msg_nodes := \<lparr>mn_addr = msg_next h, mn_name = node_name, mn_full = False,
                    mn_klass_num = 0, mn_subject = psubject, mn_watch = pnwatch\<rparr> # msg_nodes h,
                  msg_next := Suc (msg_next h)\<rparr>))
      | _ \<Rightarrow>
          (case find (\<lambda>n. mn_watch n = pnwatch \<and> mn_subject n = psubject) (msg_nodes h) of
             None \<Rightarrow> (ERROR, h)
           | Some pnode \<Rightarrow>
               let a = mn_addr pnode;
                   (cs, m) = drop_from_classes a (msg_classes h) (mn_klass_num pnode);
                   h1 = h\<lparr>msg_classes := cs,
                          msg_nodes := upd_node a (\<lambda>n. n\<lparr>mn_klass_num := m\<rparr>) (msg_nodes h)\<rparr>
               in (OK, if action = MSGNODE_REMOVE
                       then h1\<lparr>msg_nodes := filter (\<lambda>n. mn_addr n \<noteq> a) (msg_nodes h1)\<rparr> else h1)))"

text \<open>The node a packet from a watcher or an agent belongs to.\<close>

definition acts_for :: "nat option \<Rightarrow> nat option \<Rightarrow> msgnode \<Rightarrow> 'a hubdom_scheme \<Rightarrow> bool" where
  "acts_for pnwatch pagent n h \<longleftrightarrow>
     (case mn_subject n of Some s \<Rightarrow> Some (sb_agent (subjects h ! s)) = pagent | None \<Rightarrow> pagent = None)
     \<and> mn_watch n = pnwatch"

section \<open>Classes\<close>

definition class_nodes :: "int \<Rightarrow> msgclass list \<Rightarrow> nat list option" where
  "class_nodes k cs = map_option mc_nodes (find (\<lambda>c. mc_klass c = k) cs)"

text \<open>Update of the first class with a number; removal when it has no nodes left.\<close>

fun set_class :: "int \<Rightarrow> nat list \<Rightarrow> msgclass list \<Rightarrow> msgclass list" where
  "set_class k ns [] = []"
| "set_class k ns (c # cs) =
     (if mc_klass c = k then (if ns = [] then cs else c\<lparr>mc_nodes := ns\<rparr> # cs) else c # set_class k ns cs)"

definition class_enable :: "env \<Rightarrow> nat \<Rightarrow> int \<Rightarrow> 'a hubmsg_scheme \<Rightarrow> 'a hubmsg_scheme option" where
  "class_enable E a klass h =
     (case class_nodes klass (msg_classes h) of
        Some ns \<Rightarrow>
          (if a \<in> set ns then None
           else if \<not> env_alloc E 8 then None
           else Some (h\<lparr>msg_classes := set_class klass (a # ns) (msg_classes h)\<rparr>))
      | None \<Rightarrow>
          (if \<not> env_alloc E 8 \<or> \<not> env_alloc E 12 then None
           else Some (h\<lparr>msg_classes := \<lparr>mc_klass = klass, mc_nodes = [a]\<rparr> # msg_classes h\<rparr>)))"

definition class_disable :: "nat \<Rightarrow> int \<Rightarrow> 'a hubmsg_scheme \<Rightarrow> 'a hubmsg_scheme option" where
  "class_disable a klass h =
     (case class_nodes klass (msg_classes h) of
        None \<Rightarrow> None
      | Some ns \<Rightarrow>
          (if a \<notin> set ns then None
           else Some (h\<lparr>msg_classes := set_class klass (remove1 a ns) (msg_classes h),
                        msg_nodes := upd_node a (\<lambda>n. n\<lparr>mn_klass_num := mn_klass_num n - 1\<rparr>) (msg_nodes h)\<rparr>)))"

text \<open>The loop over the classes of the packet; an error returns at once.\<close>

fun class_acts :: "env \<Rightarrow> bool \<Rightarrow> nat \<Rightarrow> int list \<Rightarrow> 'a hubmsg_scheme \<Rightarrow> oret \<times> 'a hubmsg_scheme" where
  "class_acts E enable a [] h = (OK, h)"
| "class_acts E enable a (klass # ks) h =
     (if klass \<le> 0 then class_acts E enable a ks h
      else case (if enable then class_enable E a klass h else class_disable a klass h) of
        None \<Rightarrow> (ERROR, h)
      | Some h1 \<Rightarrow> class_acts E enable a ks h1)"

definition ohubHandleMsgClassAct ::
  "env \<Rightarrow> nat option \<Rightarrow> nat option \<Rightarrow> int \<Rightarrow> int \<Rightarrow> int \<Rightarrow> bytes \<Rightarrow> 'a hubmsg_scheme \<Rightarrow> oret \<times> 'a hubmsg_scheme" where
  "ohubHandleMsgClassAct E pnwatch pagent kind type len buf h =
     (if (pnwatch \<noteq> None \<and> pagent \<noteq> None) \<or> (pnwatch = None \<and> pagent = None) then (ERROR, h)
      else if len < 6 then (ERROR, h)
      else
        let act = ONTOHS (ld16 E buf 0) in
        if act \<notin> {0, 1, 2} then (ERROR, h)
        else
          let enable = (act \<noteq> 0); flush = (act = 2);
              count = OUNTOHS (ld16 E buf 2)
          in if len \<noteq> count * 2 + 4 then (ERROR, h)
             else case find (\<lambda>n. acts_for pnwatch pagent n h) (msg_nodes h) of
               None \<Rightarrow> (ERROR, h)
             | Some pnode \<Rightarrow>
                 let h1 = (if flush then snd (ohubRegisterMsgNode E (mn_watch pnode) (mn_subject pnode)
                                              MSGNODE_FLUSH (mn_name pnode) h) else h)
                 in class_acts E enable (mn_addr pnode)
                      (map (\<lambda>i. OUNTOHS (ld16 E buf (2 * (i + 2)))) [0..<nat count]) h1)"

definition ohubHandleMsgWaterMark ::
  "env \<Rightarrow> nat option \<Rightarrow> nat option \<Rightarrow> int \<Rightarrow> int \<Rightarrow> int \<Rightarrow> bytes \<Rightarrow> 'a hubmsg_scheme \<Rightarrow> oret \<times> 'a hubmsg_scheme" where
  "ohubHandleMsgWaterMark E pnwatch pagent kind type len buf h =
     (if (pnwatch \<noteq> None \<and> pagent \<noteq> None) \<or> (pnwatch = None \<and> pagent = None) then (ERROR, h)
      else if len \<noteq> 0 then (ERROR, h)
      else case find (\<lambda>n. acts_for pnwatch pagent n h) (msg_nodes h) of
        None \<Rightarrow> (ERROR, h)
      | Some pnode \<Rightarrow>
          (OK, h\<lparr>msg_nodes := upd_node (mn_addr pnode) (\<lambda>n. n\<lparr>mn_full := (type = OLANG_MSG_HIMARK)\<rparr>) (msg_nodes h)\<rparr>))"

section \<open>Delivery\<close>

definition send_to_node ::
  "env \<Rightarrow> msgnode \<Rightarrow> int \<Rightarrow> bytes \<Rightarrow> 'a hubmsg_scheme \<Rightarrow> oret \<times> 'a hubmsg_scheme" where
  "send_to_node E n len buf h =
     (case mn_watch n of
        Some w \<Rightarrow> ohubWatchSendPacket E (Some w) OLANG_DATA OLANG_MSG_RECV len (Some buf) h
      | None \<Rightarrow> (case mn_subject n of
          Some s \<Rightarrow> agent_send E (sb_agent (subjects h ! s)) OLANG_DATA OLANG_MSG_RECV len (Some buf) h
        | None \<Rightarrow> (ERROR, set_fault True h)))"

text \<open>
  Broadcast to the nodes of a class, except the sender and nodes that are full. An entry
  whose node was freed is a fault; the model then goes on with the next entry.
\<close>

fun send_to_class ::
  "env \<Rightarrow> nat option \<Rightarrow> nat option \<Rightarrow> nat list \<Rightarrow> int \<Rightarrow> bytes \<Rightarrow> u16 \<times> 'a hubmsg_scheme \<Rightarrow> u16 \<times> 'a hubmsg_scheme" where
  "send_to_class E pnwatch pagent [] len buf (err, h) = (err, h)"
| "send_to_class E pnwatch pagent (a # as) len buf (err, h) =
     (case find_addr a (msg_nodes h) of
        None \<Rightarrow> send_to_class E pnwatch pagent as len buf (err, set_fault True h)
      | Some n \<Rightarrow>
          (if acts_for pnwatch pagent n h \<or> mn_full n
           then send_to_class E pnwatch pagent as len buf (err, h)
           else
             let (rc, h1) = send_to_node E n len buf h
             in send_to_class E pnwatch pagent as len buf (if rc = OK then OLANG_ERR_OK else err, h1)))"

text \<open>
  The text compared with a node name: \<open>strncmp(name, dest, d_len) == 0\<close> and the name has a NUL
  at \<open>d_len\<close>. When the destination has a NUL inside, a name that equals the text before it
  passes the first test, and the second reads behind the end of the name.
\<close>

definition name_matches :: "env \<Rightarrow> bytes \<Rightarrow> bytes \<Rightarrow> bool" where
  "name_matches E name dest \<longleftrightarrow>
     name = takeWhile (\<lambda>c. c \<noteq> 0) dest \<and> (length name = length dest \<or> env_junk E (length dest) = 0)"

definition deliver_message ::
  "env \<Rightarrow> nat option \<Rightarrow> nat option \<Rightarrow> int \<Rightarrow> int \<Rightarrow> int \<Rightarrow> int \<Rightarrow> bytes \<Rightarrow> 'a hubmsg_scheme \<Rightarrow> u16 \<times> 'a hubmsg_scheme" where
  "deliver_message E pnwatch pagent s_len d_len m_klass len buf h =
     (if d_len > 0 then
        case find (\<lambda>n. name_matches E (mn_name n) (rd_bytes E buf (nat (18 + s_len)) (nat d_len))) (msg_nodes h) of
          None \<Rightarrow> (OLANG_ERR_RCVR_OFF, h)
        | Some n \<Rightarrow>
            (if mn_full n then (OLANG_ERR_RCVR_FULL, h)
             else let (rc, h1) = send_to_node E n len buf h
                  in (if rc = OK then OLANG_ERR_OK else OLANG_ERR_RCVR_DOWN, h1))
      else if m_klass = 0 then (OLANG_ERR_RCVR_DOWN, h)
      else
        send_to_class E pnwatch pagent
          (concat (map mc_nodes (filter (\<lambda>c. mc_klass c = m_klass) (msg_classes h)))) len buf
          (OLANG_ERR_RCVR_DOWN, h))"

definition ohubHandleMsgSend ::
  "env \<Rightarrow> nat option \<Rightarrow> nat option \<Rightarrow> int \<Rightarrow> int \<Rightarrow> int \<Rightarrow> bytes \<Rightarrow> 'a hubmsg_scheme \<Rightarrow> oret \<times> 'a hubmsg_scheme" where
  "ohubHandleMsgSend E pnwatch pagent kind type len buf h =
     (if (pnwatch \<noteq> None \<and> pagent \<noteq> None) \<or> (pnwatch = None \<and> pagent = None) then (ERROR, h)
      else if len < 18 then (ERROR, h)
      else
        let m_op = OUNTOHL (ld32 E buf 0);
            m_len = OUNTOHS (ld16 E buf 8);
            s_len = OUNTOHS (ld16 E buf 10);
            d_len = OUNTOHS (ld16 E buf 12);
            m_klass = OUNTOHS (ld16 E buf 14)
        in if len \<noteq> 18 + s_len + d_len + m_len then (ERROR, h)
           else
             let (err, h1) = deliver_message E pnwatch pagent s_len d_len m_klass len buf h;
                 reply = st32 (OHTONL m_op) @ st32 (OHTONL (ucast err));
                 h2 = (if m_op \<noteq> 0 then
                         (case pnwatch of
                            Some w \<Rightarrow> snd (ohubWatchSendPacket E (Some w) OLANG_DATA OLANG_MSG_SEND_REPLY 8 (Some reply) h1)
                          | None \<Rightarrow> snd (agent_send E (the pagent) OLANG_DATA OLANG_MSG_SEND_REPLY 8 (Some reply) h1))
                       else h1)
             in (if err = OLANG_ERR_OK then OK else ERROR, h2))"

section \<open>Classes are a relation between class numbers and nodes\<close>

text \<open>
  The abstract state: the set of subscriptions. The abstract operation goes through the
  classes of a request in order and stops at the first one that is already (or not) there.
\<close>

definition subs :: "msgclass list \<Rightarrow> (int \<times> nat) set" where
  "subs cs = {(mc_klass c, a) | c a. c \<in> set cs \<and> a \<in> set (mc_nodes c)}"

definition classes_ok :: "msgclass list \<Rightarrow> bool" where
  "classes_ok cs \<longleftrightarrow> distinct (map mc_klass cs) \<and> (\<forall>c \<in> set cs. distinct (mc_nodes c) \<and> mc_nodes c \<noteq> [])"

fun subs_act :: "bool \<Rightarrow> nat \<Rightarrow> int list \<Rightarrow> (int \<times> nat) set \<Rightarrow> oret \<times> (int \<times> nat) set" where
  "subs_act enable a [] S = (OK, S)"
| "subs_act enable a (k # ks) S =
     (if k \<le> 0 then subs_act enable a ks S
      else if enable = ((k, a) \<in> S) then (ERROR, S)
      else subs_act enable a ks (if enable then insert (k, a) S else S - {(k, a)}))"

lemma class_nodes_None: "class_nodes k cs = None \<longleftrightarrow> (\<forall>c \<in> set cs. mc_klass c \<noteq> k)"
  by (auto simp: class_nodes_def find_None_iff)

lemma class_nodes_Cons: "class_nodes k (c # cs) = (if mc_klass c = k then Some (mc_nodes c) else class_nodes k cs)"
  by (simp add: class_nodes_def)

lemma subs_Cons: "subs (c # cs) = {(mc_klass c, a) | a. a \<in> set (mc_nodes c)} \<union> subs cs"
  by (auto simp: subs_def)

lemma class_nodes_subs:
  "classes_ok cs \<Longrightarrow> (k, a) \<in> subs cs \<longleftrightarrow> (\<exists>ns. class_nodes k cs = Some ns \<and> a \<in> set ns)"
proof (induction cs)
  case (Cons c cs)
  then have "classes_ok cs" "mc_klass c = k \<Longrightarrow> (k, a) \<notin> subs cs"
    by (auto simp: classes_ok_def subs_def)
  then show ?case using Cons.IH by (auto simp: subs_Cons class_nodes_Cons)
qed (simp add: subs_def class_nodes_def)

lemma classes_ok_Cons: "classes_ok (c # cs) \<longleftrightarrow> mc_klass c \<notin> set (map mc_klass cs)
    \<and> distinct (mc_nodes c) \<and> mc_nodes c \<noteq> [] \<and> classes_ok cs"
  by (auto simp: classes_ok_def)

lemma set_class_klass: "set (map mc_klass (set_class k ns cs)) \<subseteq> set (map mc_klass cs)"
  by (induction cs) auto

lemma set_class_ok:
  assumes "classes_ok cs" and "distinct ns"
  shows "classes_ok (set_class k ns cs)"
  using assms
proof (induction cs)
  case (Cons c cs)
  have c: "mc_klass c \<notin> set (map mc_klass cs)" "distinct (mc_nodes c)" "mc_nodes c \<noteq> []" "classes_ok cs"
    using Cons.prems(1) unfolding classes_ok_Cons by simp_all
  have "classes_ok (set_class k ns cs)" by (rule Cons.IH [OF c(4) assms(2)])
  moreover have "mc_klass c \<notin> set (map mc_klass (set_class k ns cs))" using c(1) set_class_klass [of k ns cs] by blast
  ultimately have "classes_ok (c # set_class k ns cs)" using c unfolding classes_ok_Cons by blast
  moreover have "classes_ok (c\<lparr>mc_nodes := ns\<rparr> # cs)" if "ns \<noteq> []"
    using c that assms(2) unfolding classes_ok_Cons by simp
  ultimately show ?case using c(4) by simp
qed (simp add: classes_ok_def)

lemma set_class_subs:
  assumes "classes_ok cs" and "class_nodes k cs \<noteq> None"
  shows "subs (set_class k ns cs) = {x \<in> subs cs. fst x \<noteq> k} \<union> {(k, a) | a. a \<in> set ns}"
  using assms
proof (induction cs)
  case (Cons c cs)
  show ?case
  proof (cases "mc_klass c = k")
    case True
    have "mc_klass c \<notin> mc_klass ` set cs" using Cons.prems(1) unfolding classes_ok_Cons by simp
    then have d: "\<And>d. d \<in> set cs \<Longrightarrow> mc_klass d \<noteq> k" using True by blast
    have "\<forall>x \<in> subs cs. fst x \<noteq> k" unfolding subs_def using d by fastforce
    then show ?thesis using True by (auto simp: subs_Cons)
  next
    case False
    have "classes_ok cs" using Cons.prems(1) unfolding classes_ok_Cons by simp
    then have "subs (set_class k ns cs) = {x \<in> subs cs. fst x \<noteq> k} \<union> {(k, a) | a. a \<in> set ns}"
      using Cons.IH Cons.prems(2) False by (simp add: class_nodes_Cons)
    then show ?thesis using False by (auto simp: subs_Cons)
  qed
qed (simp add: class_nodes_def)

lemma class_enable_refines:
  assumes "classes_ok (msg_classes h)" and "\<And>n. env_alloc E n"
  shows "(case class_enable E a k h of
      None \<Rightarrow> (k, a) \<in> subs (msg_classes h)
    | Some h1 \<Rightarrow> (k, a) \<notin> subs (msg_classes h) \<and> classes_ok (msg_classes h1)
        \<and> subs (msg_classes h1) = insert (k, a) (subs (msg_classes h)))"
proof (cases "class_nodes k (msg_classes h)")
  case None
  then have "(k, a) \<notin> subs (msg_classes h)" "k \<notin> set (map mc_klass (msg_classes h))"
    using class_nodes_subs [OF assms(1), of k a] by simp (use None in \<open>auto simp: class_nodes_None\<close>)
  then show ?thesis using None assms by (simp add: class_enable_def classes_ok_def subs_Cons)
next
  case (Some ns)
  have m: "(k, b) \<in> subs (msg_classes h) \<longleftrightarrow> b \<in> set ns" for b
    using class_nodes_subs [OF assms(1)] Some by simp
  have "distinct ns" using Some assms(1) by (auto simp: class_nodes_def classes_ok_def find_Some_iff)
  then show ?thesis using Some assms m set_class_ok [OF assms(1), of "a # ns" k]
      set_class_subs [OF assms(1), of k "a # ns"]
    by (auto simp: class_enable_def)
qed

lemma class_disable_refines:
  assumes "classes_ok (msg_classes h)"
  shows "(case class_disable a k h of
      None \<Rightarrow> (k, a) \<notin> subs (msg_classes h)
    | Some h1 \<Rightarrow> (k, a) \<in> subs (msg_classes h) \<and> classes_ok (msg_classes h1)
        \<and> subs (msg_classes h1) = subs (msg_classes h) - {(k, a)})"
proof (cases "class_nodes k (msg_classes h)")
  case None
  then show ?thesis using class_nodes_subs [OF assms(1), of k a] by (simp add: class_disable_def)
next
  case (Some ns)
  have m: "(k, b) \<in> subs (msg_classes h) \<longleftrightarrow> b \<in> set ns" for b
    using class_nodes_subs [OF assms(1)] Some by simp
  have "distinct ns" using Some assms(1) by (auto simp: class_nodes_def classes_ok_def find_Some_iff)
  then show ?thesis using Some assms m set_class_ok [OF assms(1), of "remove1 a ns" k]
      set_class_subs [OF assms(1), of k "remove1 a ns"]
    by (auto simp: class_disable_def distinct_remove1)
qed

lemma class_acts_refines:
  assumes "classes_ok (msg_classes h)" and "\<And>n. env_alloc E n"
  shows "(case class_acts E enable a ks h of (rc, h') \<Rightarrow>
    classes_ok (msg_classes h') \<and> (rc, subs (msg_classes h')) = subs_act enable a ks (subs (msg_classes h)))"
  using assms(1)
proof (induction ks arbitrary: h)
  case (Cons k ks)
  note e = class_enable_refines [OF Cons.prems assms(2), where a = a and k = k] and d = class_disable_refines [OF Cons.prems, where a = a and k = k]
  show ?case
  proof (cases "k \<le> 0")
    case True then show ?thesis using Cons by simp
  next
    case False
    show ?thesis
    proof (cases "if enable then class_enable E a k h else class_disable a k h")
      case None
      then show ?thesis using False e d Cons.prems by (auto split: if_splits)
    next
      case (Some h1)
      then have "classes_ok (msg_classes h1)" "enable \<noteq> ((k, a) \<in> subs (msg_classes h))"
        "subs (msg_classes h1) = (if enable then insert (k, a) (subs (msg_classes h)) else subs (msg_classes h) - {(k, a)})"
        using e d by (auto split: if_splits)
      then show ?thesis using False Some Cons.IH [of h1] by simp
    qed
  qed
qed simp

lemma drop_from_classes_zero [simp]: "drop_from_classes a cs 0 = (cs, 0)"
  by (cases cs) simp_all

lemma flush_does_nothing:
  assumes "\<forall>n \<in> set (msg_nodes h). mn_klass_num n = 0"
  shows "snd (ohubRegisterMsgNode E w s MSGNODE_FLUSH name h) = h"
proof -
  have u: "upd_node a (mn_klass_num_update (\<lambda>_. 0)) (msg_nodes h) = msg_nodes h" for a
    unfolding upd_node_def using assms by (intro map_idI) simp
  have "mn_klass_num n = 0" if "find P (msg_nodes h) = Some n" for P n
    using that assms by (auto simp: find_Some_iff)
  then show ?thesis by (auto simp: ohubRegisterMsgNode_def Let_def u split: option.split)
qed

text \<open>The class numbers of a request, and the node it is for.\<close>

definition act_classes :: "env \<Rightarrow> bytes \<Rightarrow> int list" where
  "act_classes E buf = map (\<lambda>i. OUNTOHS (ld16 E buf (2 * (i + 2)))) [0..<nat (OUNTOHS (ld16 E buf 2))]"

text \<open>
  C28. Class requests refine operations on the set of subscriptions: a well-formed request of
  a registered node subscribes it to (or removes it from) its classes in order, up to the
  first class where that is not possible, which makes the request fail; the lists of the hub
  stay a faithful representation of the set. A request to flush first is the same as a
  request to add: no node ever counts its classes, so there is nothing the flush would drop.
\<close>

theorem class_requests_refine:
  assumes "classes_ok (msg_classes h)" and "\<And>n. env_alloc E n"
    and "\<forall>n \<in> set (msg_nodes h). mn_klass_num n = 0"
    and "(pnwatch = None) \<noteq> (pagent = None)" and "find (\<lambda>n. acts_for pnwatch pagent n h) (msg_nodes h) = Some n"
    and "act = ONTOHS (ld16 E buf 0)" and "act \<in> {0, 1, 2}" and "len = OUNTOHS (ld16 E buf 2) * 2 + 4" and "6 \<le> len"
  shows "case ohubHandleMsgClassAct E pnwatch pagent kind type len buf h of (rc, h') \<Rightarrow>
    classes_ok (msg_classes h')
    \<and> (rc, subs (msg_classes h')) = subs_act (act \<noteq> 0) (mn_addr n) (act_classes E buf) (subs (msg_classes h))"
proof -
  have "ohubHandleMsgClassAct E pnwatch pagent kind type len buf h
      = class_acts E (act \<noteq> 0) (mn_addr n) (act_classes E buf) h"
    using assms(4-9) flush_does_nothing [OF assms(3)]
    by (auto simp: ohubHandleMsgClassAct_def Let_def act_classes_def)
  then show ?thesis using class_acts_refines [OF assms(1,2)] by simp
qed

definition node0 :: msgnode where
  "node0 = \<lparr>mn_addr = 1, mn_name = [97], mn_full = False, mn_klass_num = 0, mn_subject = None, mn_watch = Some 1\<rparr>"

definition hubmsg0 :: hubmsg where
  "hubmsg0 = hubdom.extend dom0 (hubmsg.fields [node0] [\<lparr>mc_klass = 5, mc_nodes = [1]\<rparr>] 2)"

lemma hubmsg0_simps [simp]:
  "msg_nodes hubmsg0 = [node0]" "msg_classes hubmsg0 = [\<lparr>mc_klass = 5, mc_nodes = [1]\<rparr>]" "msg_next hubmsg0 = 2"
  by (simp_all add: hubmsg0_def hubdom.defs hubmsg.defs)

theorem class_requests_refine_witness:
  "subs (msg_classes (snd (ohubHandleMsgClassAct env0 (Some 1) None OLANG_DATA OLANG_MSG_CLASS_ACT 8
      (st16 (OHTONS 1) @ st16 (OHTONS 2) @ st16 (OHTONS 7) @ st16 (OHTONS 5)) hubmsg0))) = {(5, 1), (7, 1)}"
proof -
  let ?buf = "st16 (OHTONS 1) @ st16 (OHTONS 2) @ st16 (OHTONS 7) @ st16 (OHTONS 5)"
  have b: "ONTOHS (ld16 env0 ?buf 0) = 1" "OUNTOHS (ld16 env0 ?buf 2) = 2" "act_classes env0 ?buf = [7, 5]"
    by code_simp+
  have s: "subs [\<lparr>mc_klass = 5, mc_nodes = [Suc 0]\<rparr>] = {(5, Suc 0)}" by (simp add: subs_def)
  show ?thesis
    using class_requests_refine [of hubmsg0 env0 "Some 1" None node0 1 ?buf 8 OLANG_DATA OLANG_MSG_CLASS_ACT]
    by (simp add: b s classes_ok_def acts_for_def node0_def case_prod_unfold OHTONS_back) auto
qed

section \<open>Delivery\<close>

lemma agent_send_net [intro]: "net_frame h (snd (agent_send E a kind ty len data h))"
  by (auto simp: agent_send_def split: option.split)

lemma send_to_node_net [intro]: "net_frame h (snd (send_to_node E n len buf h))"
  by (auto simp: send_to_node_def split: option.split)

lemma send_to_class_net: "net_frame h (snd (send_to_class E pw pa as len buf (err, h)))"
proof (induction as arbitrary: err h)
  case (Cons a as)
  have "net_frame h (snd (send_to_class E pw pa as len buf (e, set_fault True h)))"
    "net_frame h (snd (send_to_class E pw pa as len buf (e, snd (send_to_node E n len buf h))))" for e n
    by (rule net_frame_trans [OF _ Cons.IH], auto)+
  then show ?case using Cons.IH by (auto simp: case_prod_unfold Let_def split: option.split)
qed simp

lemma net_frame_nodes: "net_frame h h' \<Longrightarrow> msg_nodes h' = msg_nodes h \<and> msg_classes h' = msg_classes h \<and> msg_next h' = msg_next h"
  by (auto elim!: net_frameE)

lemma net_frame_fault_mono: "net_frame h h' \<Longrightarrow> fault h \<Longrightarrow> fault h'"
  by (auto elim!: net_frameE)

lemma send_to_freed_node:
  assumes "a \<in> set as" and "find_addr a (msg_nodes h) = None"
  shows "fault (snd (send_to_class E pw pa as len buf (err, h)))"
  using assms
proof (induction as arbitrary: err h)
  case (Cons b as)
  show ?case
  proof (cases "find_addr b (msg_nodes h)")
    case None
    have "net_frame (set_fault True h) (snd (send_to_class E pw pa as len buf (err, set_fault True h)))"
      by (rule send_to_class_net)
    from net_frame_fault_mono [OF this] show ?thesis using None by (simp add: set_fault_def)
  next
    case (Some n)
    then have a: "a \<in> set as" using Cons.prems by auto
    have "msg_nodes (snd (send_to_node E n len buf h)) = msg_nodes h"
      using net_frame_nodes [OF send_to_node_net, of E n len buf h] by simp
    then show ?thesis using Some Cons.IH [OF a] Cons.prems(2) by (auto simp: case_prod_unfold Let_def)
  qed
qed simp

text \<open>
  C29. A closed connection stays subscribed: removing the node of a watcher (as
  \<open>ohubWatchClose\<close> does) leaves its class entries in place, because its count of classes is
  never raised, so the entries point at freed memory, which the next message to one of the
  classes follows.
\<close>

theorem removed_node_stays_subscribed:
  assumes "find (\<lambda>n. mn_watch n = Some w \<and> mn_subject n = None) (msg_nodes h) = Some n" and "mn_klass_num n = 0"
    and "(k, mn_addr n) \<in> subs (msg_classes h)" and "k \<noteq> 0"
    and "ohubRegisterMsgNode E (Some w) None MSGNODE_REMOVE name h = (rc, h')"
  shows "rc = OK \<and> find_addr (mn_addr n) (msg_nodes h') = None \<and> subs (msg_classes h') = subs (msg_classes h)
    \<and> fault (snd (deliver_message E' pw pa s_len 0 k len buf h'))"
proof -
  have r: "rc = OK" "msg_classes h' = msg_classes h" "msg_nodes h' = filter (\<lambda>m. mn_addr m \<noteq> mn_addr n)
      (upd_node (mn_addr n) (\<lambda>n. n\<lparr>mn_klass_num := 0\<rparr>) (msg_nodes h))"
    using assms(1,2,5) by (auto simp: ohubRegisterMsgNode_def Let_def)
  have f: "find_addr (mn_addr n) (msg_nodes h') = None"
    by (auto simp: r(3) find_addr_def find_None_iff)
  have "mn_addr n \<in> set (concat (map mc_nodes (filter (\<lambda>c. mc_klass c = k) (msg_classes h'))))"
    using assms(3) by (auto simp: r(2) subs_def)
  from send_to_freed_node [OF this f] show ?thesis using r f assms(4) by (simp add: deliver_message_def)
qed

theorem removed_node_stays_subscribed_witness:
  "fault (snd (deliver_message env0 (Some 2) None 0 0 5 18 []
     (snd (ohubRegisterMsgNode env0 (Some 1) None MSGNODE_REMOVE [] hubmsg0))))"
  using removed_node_stays_subscribed [of 1 hubmsg0 node0 5 env0 "[]" _ _ env0 "Some 2" None 0 18 "[]",
    OF _ _ _ _ prod.collapse [symmetric]]
  by (auto simp: node0_def subs_def)

end
