(* ===== verification/Monitor.thy ===== *)
theory Monitor
  imports Info Msg
begin

text \<open>
  hub-monitor.c: the monitors (one per observed object identifier, each with up to eight
  watchers), the values the agents report, the accumulators that group the reports for a
  watcher, and registration with the agents. A pointer to a monitor is its index in
  \<open>ohub_mons\<close>, whose entry 0 is never used.
\<close>

section \<open>State\<close>

definition OHUB_MAX_WATCH_PER_MONITOR :: nat where "OHUB_MAX_WATCH_PER_MONITOR = 8"
definition OHUB_MON_SECURING_LIMIT :: int where "OHUB_MON_SECURING_LIMIT = 32"

text \<open>
  \<open>oval_t\<close>: the 8 bytes of the union, and the text \<open>v_str\<close> points at (None where the pointer
  is NULL or dangling).
\<close>

record oval =
  ov_type :: byte
  ov_undef :: bool
  ov_len :: int
  ov_time :: u32
  ov_v :: bytes
  ov_str :: "bytes option"

definition no_value :: oval where
  "no_value = \<lparr>ov_type = 0, ov_undef = False, ov_len = 0, ov_time = 0, ov_v = replicate 8 0, ov_str = None\<rparr>"

record monitor =
  mon_ooid :: u32
  mon_ref_count :: int
  mon_quark :: quark
  mon_value :: oval
  mon_has_buf :: bool
  mon_buf_len :: int
  mon_watchers :: "nat option list"
  mon_watch_qty :: nat
  mon_securing :: bool
  mon_agent :: "nat option"
  mon_nsubj :: "nat option"

definition no_monitor :: monitor where
  "no_monitor = \<lparr>mon_ooid = 0, mon_ref_count = 0, mon_quark = no_quark, mon_value = no_value,
     mon_has_buf = False, mon_buf_len = 0, mon_watchers = replicate 8 None, mon_watch_qty = 0,
     mon_securing = False, mon_agent = None, mon_nsubj = None\<rparr>"

record hubmon = hubmsg +
  mons :: "monitor option list"
  mon_securing_qty :: int
  by_ooid_mon_hash :: tree_t

definition the_mon :: "'a hubmon_scheme \<Rightarrow> nat \<Rightarrow> monitor" where
  "the_mon h no = the (mons h ! no)"

definition upd_mon :: "nat \<Rightarrow> (monitor \<Rightarrow> monitor) \<Rightarrow> 'a hubmon_scheme \<Rightarrow> 'a hubmon_scheme" where
  "upd_mon no f h = h\<lparr>mons := (mons h)[no := map_option f (mons h ! no)]\<rparr>"

text \<open>The state text of the agent of a monitor; a monitor without agent is dereferenced anyway.\<close>

definition mon_agent_off :: "monitor \<Rightarrow> 'a hubdom_scheme \<Rightarrow> bool" where
  "mon_agent_off m h = (case mon_agent m of None \<Rightarrow> True | Some a \<Rightarrow> ag_state (agents h ! a) = [])"

definition mon_fault :: "monitor \<Rightarrow> 'a hubnet_scheme \<Rightarrow> 'a hubnet_scheme" where
  "mon_fault m h = set_fault (mon_agent m = None) h"

section \<open>The table of monitors\<close>

definition ohubFindMonitorByOoid :: "u32 \<Rightarrow> 'a hubmon_scheme \<Rightarrow> nat option \<times> 'a hubmon_scheme" where
  "ohubFindMonitorByOoid ooid h =
     (if mons h = [] \<or> by_ooid_mon_hash h = None \<or> ooid = 0 then (None, h)
      else case treeNumFind (by_ooid_mon_hash h) (sint ooid) of (found, no, t) \<Rightarrow>
        let h1 = h\<lparr>by_ooid_mon_hash := t\<rparr> in
        if \<not> found \<or> no \<le> 0 \<or> no \<ge> int (length (mons h)) then (None, h1)
        else (case mons h ! nat no of
                None \<Rightarrow> (None, h1)
              | Some m \<Rightarrow> (if mon_ooid m \<noteq> ooid then None else Some (nat no), h1)))"

fun first_free :: "nat list \<Rightarrow> 'm option list \<Rightarrow> nat option" where
  "first_free [] ms = None"
| "first_free (no # ns) ms = (if ms ! no = None then Some no else first_free ns ms)"

text \<open>\<open>OhubMonitorRecord_t\<close> has 472 bytes on the target, an entry of the list 4.\<close>

definition ohubAllocateMonitor :: "env \<Rightarrow> 'a hubmon_scheme \<Rightarrow> nat option \<times> 'a hubmon_scheme" where
  "ohubAllocateMonitor E h =
     (if \<not> env_alloc E 472 then (None, h)
      else case first_free [1..<length (mons h)] (mons h) of
        Some no \<Rightarrow> (Some no, h\<lparr>mons := (mons h)[no := Some no_monitor]\<rparr>)
      | None \<Rightarrow>
          let qty = length (mons h);
              no = (if qty \<le> 0 then 1 else qty);
              new_qty = qty * 2 + 2
          in if \<not> env_alloc E (4 * new_qty) then (None, h)
             else (Some no, h\<lparr>mons := (mons h @ replicate (qty + 2) None)[no := Some no_monitor]\<rparr>))"

definition ohubDeallocateMonitor :: "nat \<Rightarrow> 'a hubmon_scheme \<Rightarrow> 'a hubmon_scheme" where
  "ohubDeallocateMonitor no h =
     (let h1 = (if mon_securing (the_mon h no)
                then h\<lparr>mon_securing_qty := max 0 (mon_securing_qty h - 1)\<rparr> else h)
      in h1\<lparr>mons := (mons h1)[no := None]\<rparr>)"

section \<open>Accumulators\<close>

definition ohubMonFlushMonAccum :: "env \<Rightarrow> nat \<Rightarrow> 'a hubnet_scheme \<Rightarrow> oret \<times> 'a hubnet_scheme" where
  "ohubMonFlushMonAccum E w h =
     (let pacc = accum (watchers h ! w);
          (rc, h1) = (if ac_qty pacc \<le> 0 then (OK, h)
            else ohubWatchSendPacket E (Some w) OLANG_DATA OLANG_MONITORING (int (length (ac_buf pacc)))
                   (Some (of_nat (ac_qty pacc) # tl (ac_buf pacc))) h)
      in (rc, upd_watch w (\<lambda>x. x\<lparr>accum := no_accum\<rparr>) h1))"

definition ohubMonFlushUnregAccum :: "env \<Rightarrow> nat \<Rightarrow> 'a hubnet_scheme \<Rightarrow> oret \<times> 'a hubnet_scheme" where
  "ohubMonFlushUnregAccum E s h =
     (let buf = ua_buf (unreg_accum (subjs h ! s)); qty = length buf;
          (rc, h1) = (if qty \<le> 0 then (OK, h)
            else ohubSubjSendPacket E s OLANG_DATA OLANG_DGROUP_UNREG_REQ (int ((qty + 1) * 4))
                   (Some (st32 (OHTONL (of_nat qty)) @ concat (map st32 buf))) h)
      in (rc, upd_subj s (\<lambda>x. x\<lparr>unreg_accum := no_unreg\<rparr>) h1))"

section \<open>Announcing a value\<close>

text \<open>
  The report of a value: identifier, type, flags with the length, time, low byte of a long
  length. The bytes of the value follow it.
\<close>

definition announce_head :: "monitor \<Rightarrow> nat \<Rightarrow> bytes" where
  "announce_head m n =
     (let undef = (if ov_undef (mon_value m) then 0x80 else 0 :: byte);
          time = st32 (OHTONL (ov_time (mon_value m)))
      in st32 (OHTONL (mon_ooid m)) @ [ov_type (mon_value m)]
         @ (if n < 0x20 then (of_nat n OR undef OR 0x40) # time
            else ((0x60 OR (of_nat (n div 256) AND 0x1f) OR undef) # time) @ [of_nat (n mod 256)]))"

definition announce_body :: "env \<Rightarrow> monitor \<Rightarrow> nat \<Rightarrow> bytes" where
  "announce_body E m n =
     (if ov_type (mon_value m) = 115 then rd_bytes E (the_bytes (ov_str (mon_value m))) 0 n
      else rd_bytes E (ov_v (mon_value m)) 0 n)"

text \<open>Append one report to the accumulator of a watcher, after a flush if it is full or old.\<close>

definition accum_put :: "env \<Rightarrow> nat \<Rightarrow> bytes \<Rightarrow> 'a hubnet_scheme \<Rightarrow> 'a hubnet_scheme" where
  "accum_put E w report h =
     (let pacc = accum (watchers h ! w);
          h1 = (if length (ac_buf pacc) + (length report + 1) > OHUB_MON_ACCUM_SIZE \<or> ac_qty pacc + 1 > 250
                   \<or> (ac_qty pacc > 0 \<and> env_now E - ac_start pacc > OHUB_MON_ACCUM_TTL)
                then snd (ohubMonFlushMonAccum E w h) else h)
      in upd_watch w (\<lambda>x. x\<lparr>accum := \<lparr>ac_buf = ac_buf (accum x) @ report, ac_qty = ac_qty (accum x) + 1,
             ac_start = (if ac_qty (accum x) = 0 then env_now E else ac_start (accum x))\<rparr>\<rparr>) h1)"

text \<open>
  The loop over the watchers of the monitor. The value bytes are turned when the byte order
  of a watcher differs from that of the previous one, so the buffer carries its orientation.
\<close>

fun announce_loop ::
  "env \<Rightarrow> nat option \<Rightarrow> byte \<Rightarrow> bytes \<Rightarrow> nat option list \<Rightarrow> bool \<Rightarrow> bytes \<Rightarrow> 'a hubnet_scheme \<Rightarrow> 'a hubnet_scheme" where
  "announce_loop E my type hdr [] en body h = h"
| "announce_loop E my type hdr (None # ws) en body h = announce_loop E my type hdr ws en body h"
| "announce_loop E my type hdr (Some w # ws) en body h =
     (if (my \<noteq> None \<and> my \<noteq> Some w) \<or> ohubWatchAnnounceBlocked (Some w) h
      then announce_loop E my type hdr ws en body h
      else
        let rotor = ohubWatchNeedsRotor (Some w) h;
            (en1, body1) = (if body \<noteq> [] \<and> en \<noteq> rotor
              then (rotor, snd (ohubRotate True type (int (length body)) body)) else (en, body))
        in announce_loop E my type hdr ws en1 body1 (accum_put E w (hdr @ body1) h))"

definition ohubAnnounceChange ::
  "env \<Rightarrow> nat \<Rightarrow> nat option \<Rightarrow> 'a hubmon_scheme \<Rightarrow> int \<times> 'a hubmon_scheme" where
  "ohubAnnounceChange E no my h =
     (let m = the_mon h no; v = mon_value m in
      if mon_watch_qty m = 0 then (OK, h)
      else if 1 + ov_len v + 16 > int OHUB_MON_ACCUM_SIZE then (ERROR, h)
      else
        let n = (if ov_undef v then 0 else nat (ov_len v));
            h1 = set_fault (n > 0 \<and> ov_type v = 115 \<and> ov_str v = None) h
        in (1, announce_loop E my (ov_type v) (announce_head m n)
                 (take (mon_watch_qty m) (mon_watchers m)) False (announce_body E m n) h1))"

section \<open>Values from agents\<close>

text \<open>The head of one report: identifier, type, undef flag, time, length, next position.\<close>

definition parse_report :: "env \<Rightarrow> bytes \<Rightarrow> nat \<Rightarrow> u32 \<times> byte \<times> bool \<times> u32 \<times> int \<times> nat" where
  "parse_report E buf p =
     (let ooid = OUNTOHL (ld32 E buf p);
          v_type = rd E buf (p + 4);
          fl = rd E buf (p + 5);
          p1 = p + 6;
          (v_time, p2) = (if fl AND 0x40 \<noteq> 0 then (OUNTOHL (ld32 E buf p1), p1 + 4) else (0, p1));
          (v_len, p3) = (if fl AND 0x20 \<noteq> 0
             then (uint (fl AND 0x1f) * 256 + uint (rd E buf p2), p2 + 1)
             else (uint (fl AND 0x1f), p2))
      in (ooid, v_type, fl AND 0x80 \<noteq> 0, v_time, v_len, p3))"

text \<open>
  Storing a value. The first component is the error code of the source (6 and 7: no memory
  for a text). A scalar longer than the union is written past its end: a fault, reported by
  the second component.
\<close>

definition store_value ::
  "env \<Rightarrow> bool \<Rightarrow> byte \<Rightarrow> bool \<Rightarrow> u32 \<Rightarrow> int \<Rightarrow> bytes \<Rightarrow> monitor \<Rightarrow> nat \<times> bool \<times> monitor" where
  "store_value E rotor v_type v_undef v_time v_len src m =
     (let v = (mon_value m)\<lparr>ov_type := v_type, ov_undef := v_undef, ov_time := v_time\<rparr> in
      if v_undef then
        (if v_type \<noteq> 115 then (0, False, m\<lparr>mon_value := v\<lparr>ov_v := replicate 8 0, ov_len := v_len, ov_str := None\<rparr>\<rparr>)
         else (0, False, m\<lparr>mon_value := v\<lparr>ov_str := None, ov_len := 0\<rparr>\<rparr>))
      else if v_type \<noteq> 115 then
        let raw = take (nat v_len) src @ drop (nat v_len) (ov_v v);
            val = snd (ohubRotate rotor v_type v_len raw)
        in (0, v_len > 8, m\<lparr>mon_value := v\<lparr>ov_v := val, ov_len := v_len, ov_str := None\<rparr>\<rparr>)
      else if v_len \<noteq> 0 then
        (if mon_buf_len m \<ge> v_len then
           (if \<not> mon_has_buf m \<and> \<not> env_alloc E (nat (mon_buf_len m)) then (6, False, m\<lparr>mon_value := v\<rparr>)
            else (0, False, m\<lparr>mon_has_buf := True,
                    mon_value := v\<lparr>ov_str := Some (take (nat v_len) src), ov_len := v_len\<rparr>\<rparr>))
         else if \<not> env_alloc E (nat v_len) then
           (7, False, m\<lparr>mon_has_buf := False, mon_value := v\<lparr>ov_str := None\<rparr>\<rparr>)
         else (0, False, m\<lparr>mon_has_buf := True, mon_buf_len := v_len,
                 mon_value := v\<lparr>ov_str := Some (take (nat v_len) src), ov_len := v_len\<rparr>\<rparr>))
      else (0, False, m\<lparr>mon_value := v\<lparr>ov_str := None, ov_len := 0\<rparr>\<rparr>))"

text \<open>The loop over the reports of a packet: an error code (0 for none) and the position reached.\<close>

fun mon_reports ::
  "env \<Rightarrow> nat \<Rightarrow> nat \<Rightarrow> int \<Rightarrow> bytes \<Rightarrow> nat \<Rightarrow> 'a hubmon_scheme \<Rightarrow> nat \<times> nat \<times> 'a hubmon_scheme" where
  "mon_reports E 0 p len buf pagent h = (0, p, h)"
| "mon_reports E (Suc k) p len buf pagent h =
     (if int (p + 6) > len then (2, p, h)
      else case parse_report E buf p of (ooid, v_type, v_undef0, v_time, v_len0, p1) \<Rightarrow>
        if v_undef0 \<and> v_len0 \<noteq> 0 then (3, p1, h)
        else
          let src = rd_bytes E buf p1 (nat v_len0);
              p2 = (if v_undef0 then p1 else p1 + nat v_len0)
          in case ohubFindMonitorByOoid ooid h of
            (None, h1) \<Rightarrow> mon_reports E k p2 len buf pagent h1
          | (Some no, h1) \<Rightarrow>
              let m = the_mon h1 no;
                  mismatch = (v_type \<noteq> qk_type (mon_quark m));
                  v_undef = (v_undef0 \<or> mismatch);
                  v_len = (if mismatch then 0 else v_len0)
              in if v_type \<noteq> 115 \<and> v_len \<noteq> qk_len (mon_quark m) then (4, p2, h1)
                 else if int p2 > len then (5, p2, h1)
                 else case store_value E (ohubSubjNeedsRotor (ag_nsubj (agents h1 ! pagent)) h1)
                             v_type v_undef v_time v_len src m of
                   (err, over, m1) \<Rightarrow>
                     let h2 = set_fault over (upd_mon no (\<lambda>_. m1) h1)
                     in if err \<noteq> 0 then (err, p2, h2)
                        else mon_reports E k p2 len buf pagent (snd (ohubAnnounceChange E no None h2)))"

definition ohubHandleMonitoring ::
  "env \<Rightarrow> int \<Rightarrow> int \<Rightarrow> int \<Rightarrow> bytes \<Rightarrow> nat \<Rightarrow> 'a hubmon_scheme \<Rightarrow> oret \<times> 'a hubmon_scheme" where
  "ohubHandleMonitoring E kind type len buf pagent h =
     (let num = unat (rd E buf 0) in
      if num < 1 then (ERROR, h)
      else case mon_reports E num 1 len buf pagent h of (err, p, h1) \<Rightarrow>
        if err \<noteq> 0 then (ERROR, h1)
        else if int p \<noteq> len then (ERROR, h1)
        else (OK, h1))"

text \<open>A copy of the current value; a value without bytes is reported as undefined.\<close>

definition ohubMonGetValue :: "env \<Rightarrow> u32 \<Rightarrow> 'a hubmon_scheme \<Rightarrow> oval option \<times> 'a hubmon_scheme" where
  "ohubMonGetValue E ooid h =
     (case ohubFindMonitorByOoid ooid h of
        (None, h1) \<Rightarrow> (None, h1)
      | (Some no, h1) \<Rightarrow>
          let src = mon_value (the_mon h1 no) in
          if ov_type src \<noteq> 115 \<or> ov_undef src \<or> ov_len src \<le> 0 then
            (Some (if ov_len src \<le> 0 then src\<lparr>ov_len := 0, ov_undef := True\<rparr> else src), h1)
          else if \<not> env_alloc E (nat (ov_len src)) then (None, h1)
          else (Some src, set_fault (ov_str src = None) h1))"

section \<open>Registration with the agent\<close>

definition reg_request :: "monitor \<Rightarrow> bytes" where
  "reg_request m = (let q = mon_quark m in
     st32 (OHTONL (mon_ooid m)) @ st32 (OHTONL (word_of_int (qk_phys_addr q)))
     @ st32 (OHTONL (word_of_int (qk_off q))) @ st16 (OHTONS (qk_len q))
     @ [qk_ptr q, qk_type q, word_of_int (qk_bit_off q), word_of_int (qk_bit_len q)])"

definition ohubMonAgentRegister :: "env \<Rightarrow> nat \<Rightarrow> 'a hubmon_scheme \<Rightarrow> oret \<times> 'a hubmon_scheme" where
  "ohubMonAgentRegister E no h =
     (let m = the_mon h no; h1 = mon_fault m h in
      if mon_agent_off m h1 then (ERROR, h1)
      else case mon_nsubj m of
        None \<Rightarrow> (ERROR, h1)
      | Some s \<Rightarrow> ohubSubjSendPacket E s OLANG_DATA OLANG_DATA_REG_REQ 18 (Some (reg_request m)) h1)"

text \<open>Note an identifier for the next grouped unregistration of an agent.\<close>

definition unreg_put :: "env \<Rightarrow> nat \<Rightarrow> u32 \<Rightarrow> 'a hubnet_scheme \<Rightarrow> 'a hubnet_scheme" where
  "unreg_put E s ulv h =
     (let pacc = unreg_accum (subjs h ! s);
          h1 = (if length (ua_buf pacc) \<ge> OHUB_UNREG_ACCUM_SIZE
                   \<or> (length (ua_buf pacc) > 0 \<and> env_now E - ua_start pacc > OHUB_UNREG_ACCUM_TTL)
                then snd (ohubMonFlushUnregAccum E s h) else h)
      in upd_subj s (\<lambda>x. x\<lparr>unreg_accum := \<lparr>ua_buf = ua_buf (unreg_accum x) @ [ulv],
             ua_start = (if ua_buf (unreg_accum x) = [] then env_now E else ua_start (unreg_accum x))\<rparr>\<rparr>) h1)"

definition ohubMonRemoveMonitor :: "env \<Rightarrow> nat \<Rightarrow> 'a hubmon_scheme \<Rightarrow> int \<times> 'a hubmon_scheme" where
  "ohubMonRemoveMonitor E no h0 =
     (let h = upd_mon no (\<lambda>m. m\<lparr>mon_ref_count := mon_ref_count m - 1\<rparr>) h0;
          m = the_mon h no
      in if mon_ref_count m > 0 then (0, h)
         else
           let h1 = mon_fault m (h\<lparr>by_ooid_mon_hash :=
                      snd (treeNumAddOrSet E (by_ooid_mon_hash h) (sint (mon_ooid m)) 0)\<rparr>)
           in if mon_agent_off m h1 \<or> mon_nsubj m = None then (1, ohubDeallocateMonitor no h1)
              else (1, ohubDeallocateMonitor no (unreg_put E (the (mon_nsubj m)) (OHTONL (mon_ooid m)) h1)))"

definition index_of :: "'x \<Rightarrow> 'x list \<Rightarrow> nat option" where
  "index_of x xs = find (\<lambda>i. xs ! i = x) [0..<length xs]"

text \<open>Clear entry \<open>i\<close> of the watchers of a monitor.\<close>

definition detach :: "nat \<Rightarrow> monitor \<Rightarrow> monitor" where
  "detach i m = m\<lparr>mon_watchers := (mon_watchers m)[i := None],
     mon_watch_qty := (if mon_watch_qty m = i + 1 then mon_watch_qty m - 1 else mon_watch_qty m)\<rparr>"

fun remove_watch_loop :: "env \<Rightarrow> nat \<Rightarrow> nat list \<Rightarrow> nat \<times> 'a hubmon_scheme \<Rightarrow> nat \<times> 'a hubmon_scheme" where
  "remove_watch_loop E w [] (qty, h) = (qty, h)"
| "remove_watch_loop E w (no # ns) (qty, h) =
     (case mons h ! no of
        None \<Rightarrow> remove_watch_loop E w ns (qty, h)
      | Some m \<Rightarrow>
          (case index_of (Some w) (mon_watchers m) of
             None \<Rightarrow> remove_watch_loop E w ns (qty, h)
           | Some i \<Rightarrow> remove_watch_loop E w ns
               (Suc qty, snd (ohubMonRemoveMonitor E no (upd_mon no (detach i) h)))))"

definition ohubMonRemoveWatch :: "env \<Rightarrow> nat \<Rightarrow> 'a hubmon_scheme \<Rightarrow> nat \<times> 'a hubmon_scheme" where
  "ohubMonRemoveWatch E w h = remove_watch_loop E w [1..<length (mons h)] (0, h)"

fun renew_loop :: "env \<Rightarrow> nat \<Rightarrow> nat list \<Rightarrow> nat \<times> 'a hubmon_scheme \<Rightarrow> nat \<times> 'a hubmon_scheme" where
  "renew_loop E w [] (qty, h) = (qty, h)"
| "renew_loop E w (no # ns) (qty, h) =
     (case mons h ! no of
        None \<Rightarrow> renew_loop E w ns (qty, h)
      | Some m \<Rightarrow>
          (if \<not> ov_undef (mon_value m) \<and> ov_len (mon_value m) > 0
              \<and> Some w \<in> set (take (mon_watch_qty m) (mon_watchers m))
           then renew_loop E w ns (Suc qty, snd (ohubAnnounceChange E no (Some w) h))
           else renew_loop E w ns (qty, h)))"

definition ohubMonRenewWatch :: "env \<Rightarrow> nat \<Rightarrow> 'a hubmon_scheme \<Rightarrow> nat \<times> 'a hubmon_scheme" where
  "ohubMonRenewWatch E w h = renew_loop E w [1..<length (mons h)] (0, h)"

section \<open>Address changes\<close>

definition update_mon_address :: "int list \<Rightarrow> nat \<Rightarrow> 'a hubmon_scheme \<Rightarrow> 'a hubmon_scheme" where
  "update_mon_address mods no h =
     (case mons h ! no of
        None \<Rightarrow> h
      | Some m \<Rightarrow>
          (if qk_obj_ikey (mon_quark m) \<notin> set mods then h
           else
             let q = snd (ohubRefineQuarkAddress (mon_quark m) h);
                 sec = (qk_phys_addr q \<noteq> -1 \<and> \<not> mon_securing m)
             in (upd_mon no (\<lambda>m. m\<lparr>mon_quark := q, mon_securing := mon_securing m \<or> sec\<rparr>) h)
                  \<lparr>mon_securing_qty := mon_securing_qty h + (if sec then 1 else 0)\<rparr>))"

definition ohubUpdateMonAddresses :: "int list \<Rightarrow> 'a hubmon_scheme \<Rightarrow> 'a hubmon_scheme" where
  "ohubUpdateMonAddresses mods h = fold (update_mon_address mods) [1..<length (mons h)] h"

definition end_securing :: "nat \<Rightarrow> 'a hubmon_scheme \<Rightarrow> 'a hubmon_scheme" where
  "end_securing no h = (upd_mon no (\<lambda>m. m\<lparr>mon_securing := False\<rparr>) h)
     \<lparr>mon_securing_qty := mon_securing_qty h - 1\<rparr>"

fun secure_loop :: "env \<Rightarrow> nat list \<Rightarrow> int \<times> 'a hubmon_scheme \<Rightarrow> int \<times> 'a hubmon_scheme" where
  "secure_loop E [] (qty, h) = (qty, h)"
| "secure_loop E (no # ns) (qty, h) =
     (if qty \<ge> OHUB_MON_SECURING_LIMIT \<or> mon_securing_qty h \<le> 0 then (qty, h)
      else case mons h ! no of
        None \<Rightarrow> secure_loop E ns (qty, h)
      | Some m \<Rightarrow>
          (if \<not> mon_securing m then secure_loop E ns (qty, h)
           else
             let h0 = mon_fault m h in
             if mon_agent_off m h0 \<or> mon_nsubj m = None then secure_loop E ns (qty + 1, end_securing no h0)
             else if ag_reg_count (agents h0 ! the (mon_agent m)) > OHUB_MON_SECURING_LIMIT
             then secure_loop E ns (qty, h0)
             else
               let gap = ohubSubjSendQueueGap (mon_nsubj m) h0 in
               if gap \<ge> 0 \<and> gap < 10 then secure_loop E ns (qty, h0)
               else
                 let h1 = snd (ohubMonAgentRegister E no h0);
                     h2 = upd_agent (the (mon_agent m)) (\<lambda>a. a\<lparr>ag_reg_count := ag_reg_count a + 1\<rparr>) h1
                 in secure_loop E ns (qty + 1, end_securing no h2)))"

definition ohubSecureMoreMonitors :: "env \<Rightarrow> 'a hubmon_scheme \<Rightarrow> int \<times> 'a hubmon_scheme" where
  "ohubSecureMoreMonitors E h =
     (if mons h = [] \<or> mon_securing_qty h \<le> 0 then (0, h)
      else secure_loop E [1..<length (mons h)] (0, h))"

section \<open>Requests of watchers\<close>

definition last_index_of :: "'x \<Rightarrow> 'x list \<Rightarrow> nat option" where
  "last_index_of x xs = find (\<lambda>i. xs ! i = x) (rev [0..<length xs])"

definition ohubMonUnregister :: "env \<Rightarrow> u32 \<Rightarrow> nat \<Rightarrow> 'a hubmon_scheme \<Rightarrow> oret \<times> 'a hubmon_scheme" where
  "ohubMonUnregister E ooid w h =
     (let reply = Some (st32 (OHTONL ooid));
          nak = (\<lambda>h. (ERROR, snd (ohubWatchSendPacket E (Some w) OLANG_DATA OLANG_MON_UNREG_NAK 4 reply h)))
      in if ooid = 0 then nak h
         else case ohubFindMonitorByOoid ooid h of
           (None, h1) \<Rightarrow> nak h1
         | (Some no, h1) \<Rightarrow>
             (case last_index_of (Some w) (take (mon_watch_qty (the_mon h1 no)) (mon_watchers (the_mon h1 no))) of
                None \<Rightarrow> nak h1
              | Some i \<Rightarrow>
                  let h2 = snd (ohubMonRemoveMonitor E no (upd_mon no (detach i) h1))
                  in (OK, snd (ohubWatchSendPacket E (Some w) OLANG_DATA OLANG_MON_UNREG_ACK 4 reply h2))))"

text \<open>
  The steps of \<open>ohubMonRegisterInternal\<close>: find or create the monitor, attach the watcher,
  announce a new monitor to the agent. The label FAIL frees a monitor nobody refers to.
\<close>

definition reg_fail :: "nat option \<Rightarrow> 'a hubmon_scheme \<Rightarrow> nat option \<times> 'a hubmon_scheme" where
  "reg_fail pmon h =
     (case pmon of None \<Rightarrow> (None, h)
      | Some no \<Rightarrow> (None, if mon_ref_count (the_mon h no) = 0 then ohubDeallocateMonitor no h else h))"

definition reg_create :: "env \<Rightarrow> u32 \<Rightarrow> 'a hubmon_scheme \<Rightarrow> nat option \<times> 'a hubmon_scheme" where
  "reg_create E ooid h =
     (case ohubAllocateMonitor E h of
        (None, h1) \<Rightarrow> (None, h1)
      | (Some no, h1) \<Rightarrow>
          (case ohubGetInfoByOoid E ooid h1 of (rc, q, res, h2) \<Rightarrow>
            let h3 = upd_mon no (\<lambda>m. m\<lparr>mon_quark := q\<rparr>) h2 in
            if rc \<noteq> OK then reg_fail (Some no) h3
            else
              let mod_no = qk_obj_ikey q in
              if mod_no \<ge> 0 \<and> mod_no < int (length (modules h3)) then
                let a = sb_agent (subjects h3 ! mo_subject (modules h3 ! nat mod_no))
                in (Some no, upd_mon no (\<lambda>m. m\<lparr>mon_agent := Some a, mon_nsubj := ag_nsubj (agents h3 ! a)\<rparr>) h3)
              else (Some no, h3)))"

definition reg_first :: "env \<Rightarrow> nat \<Rightarrow> u32 \<Rightarrow> 'a hubmon_scheme \<Rightarrow> nat option \<times> 'a hubmon_scheme" where
  "reg_first E no ooid h =
     (let h1 = upd_mon no (\<lambda>m. m\<lparr>mon_value := (mon_value m)\<lparr>ov_undef := True\<rparr>, mon_ooid := ooid\<rparr>) h;
          (rc, t) = treeNumAddOrSet E (by_ooid_mon_hash h1) (sint ooid) (int no);
          h2 = h1\<lparr>by_ooid_mon_hash := t\<rparr>;
          m = the_mon h2 no
      in if rc \<noteq> OK then reg_fail (Some no) h2
         else if qk_phys_addr (mon_quark m) = -1 then (Some no, h2)
         else
           let h3 = mon_fault m h2 in
           if mon_agent_off m h3 \<or> mon_nsubj m = None \<or> mon_securing m then (Some no, h3)
           else if ohubSubjSendQueueGap (mon_nsubj m) h3 < 10
                   \<or> ag_reg_count (agents h3 ! the (mon_agent m)) > OHUB_MON_SECURING_LIMIT
           then (Some no, (upd_mon no (\<lambda>m. m\<lparr>mon_securing := True\<rparr>) h3)
                            \<lparr>mon_securing_qty := mon_securing_qty h3 + 1\<rparr>)
           else (Some no, upd_agent (the (mon_agent m)) (\<lambda>a. a\<lparr>ag_reg_count := ag_reg_count a + 1\<rparr>)
                            (snd (ohubMonAgentRegister E no h3))))"

definition reg_attach :: "env \<Rightarrow> nat \<Rightarrow> u32 \<Rightarrow> nat \<Rightarrow> 'a hubmon_scheme \<Rightarrow> nat option \<times> 'a hubmon_scheme" where
  "reg_attach E no ooid w h =
     (let m = the_mon h no in
      if Some w \<in> set (mon_watchers m) then reg_fail (Some no) h
      else case index_of None (mon_watchers m) of
        None \<Rightarrow> reg_fail (Some no) h
      | Some i \<Rightarrow>
          let h1 = upd_mon no (\<lambda>m. m\<lparr>mon_watchers := (mon_watchers m)[i := Some w],
                     mon_watch_qty := (if i \<ge> mon_watch_qty m then i + 1 else mon_watch_qty m),
                     mon_ref_count := mon_ref_count m + 1\<rparr>) h
          in if mon_ref_count (the_mon h1 no) = 1 then reg_first E no ooid h1 else (Some no, h1))"

definition ohubMonRegisterInternal ::
  "env \<Rightarrow> u32 \<Rightarrow> nat \<Rightarrow> 'a hubmon_scheme \<Rightarrow> nat option \<times> 'a hubmon_scheme" where
  "ohubMonRegisterInternal E ooid w h =
     (case ohubFindMonitorByOoid ooid h of
        (Some no, h1) \<Rightarrow> reg_attach E no ooid w h1
      | (None, h1) \<Rightarrow>
          (case reg_create E ooid h1 of
             (None, h2) \<Rightarrow> (None, h2)
           | (Some no, h2) \<Rightarrow> reg_attach E no ooid w h2))"

definition has_value :: "monitor \<Rightarrow> bool" where
  "has_value m \<longleftrightarrow> \<not> ov_undef (mon_value m) \<and> ov_len (mon_value m) > 0"

definition ohubMonRegister :: "env \<Rightarrow> u32 \<Rightarrow> nat \<Rightarrow> 'a hubmon_scheme \<Rightarrow> oret \<times> 'a hubmon_scheme" where
  "ohubMonRegister E ooid w h =
     (let (r, h1) = (if ooid \<noteq> 0 then ohubMonRegisterInternal E ooid w h else (None, h));
          h2 = snd (ohubWatchSendPacket E (Some w) OLANG_DATA
                 (if r \<noteq> None then OLANG_MON_REG_ACK else OLANG_MON_REG_NAK) 4 (Some (st32 (OHTONL ooid))) h1)
      in case r of
           None \<Rightarrow> (ERROR, h2)
         | Some no \<Rightarrow> (OK, if has_value (the_mon h2 no) then snd (ohubAnnounceChange E no (Some w) h2) else h2))"

definition ohubHandleMonComboRequest ::
  "env \<Rightarrow> nat \<Rightarrow> int \<Rightarrow> int \<Rightarrow> int \<Rightarrow> bytes \<Rightarrow> 'a hubmon_scheme \<Rightarrow> oret \<times> 'a hubmon_scheme" where
  "ohubHandleMonComboRequest E w kind type len buf h =
     (let n = unat (rd E buf 4) in
      if len < 6 \<or> n \<le> 0 \<or> n \<ge> OHUB_MAX_PATH then (ERROR, h)
      else if int (n + 5) \<noteq> len then (ERROR, h)
      else case ohubGetInfoByDesc E (takeWhile (\<lambda>c. c \<noteq> 0) (rd_bytes E buf 5 n)) h of
        (rc, q, res, h1) \<Rightarrow>
          let sres = (case res of None \<Rightarrow> rd_cstr [env_junk E 0] 0 | Some s \<Rightarrow> s);
              h2 = set_fault (res = None) h1;
              info = ohubPackInfoReply E 8 rc q sres;
              (r, h3) = (if rc = OK \<and> qk_ooid q \<noteq> 0 then ohubMonRegisterInternal E (qk_ooid q) w h2 else (None, h2));
              reply = st32 (ld32 E buf 0) @ st32 (if r \<noteq> None then 0 else - 1) @ info;
              announce = (case r of None \<Rightarrow> False | Some no \<Rightarrow> has_value (the_mon h3 no));
              h4 = snd (ohubWatchSendPacket E (Some w) OLANG_DATA OLANG_MON_COMBO_REPLY
                     (int (length reply)) (Some reply) h3)
          in (OK, if announce then snd (ohubAnnounceChange E (the r) (Some w) h4) else h4))"

definition ohubHandleMonRegistration ::
  "env \<Rightarrow> nat \<Rightarrow> int \<Rightarrow> int \<Rightarrow> int \<Rightarrow> bytes \<Rightarrow> 'a hubmon_scheme \<Rightarrow> oret \<times> 'a hubmon_scheme" where
  "ohubHandleMonRegistration E w kind type len buf h =
     (if len \<noteq> 4 then (ERROR, h)
      else
        let ooid = OUNTOHL (ld32 E buf 0) in
        if type = OLANG_MON_REG_REQ then ohubMonRegister E ooid w h
        else if type = OLANG_MON_UNREG_REQ then ohubMonUnregister E ooid w h
        else (ERROR, h))"

text \<open>The agent's answers to the grouped requests: each one lowers the count of pending ones.\<close>

definition reg_answer :: "nat \<Rightarrow> int \<Rightarrow> 'a hubdom_scheme \<Rightarrow> 'a hubdom_scheme" where
  "reg_answer pagent ctype h =
     (if ctype = OLANG_DATA_REG_ACK \<or> ctype = OLANG_DATA_REG_NAK
      then upd_agent pagent (\<lambda>a. a\<lparr>ag_reg_count := max 0 (ag_reg_count a - 1)\<rparr>) h else h)"

definition ohubHandleDataMonReply ::
  "env \<Rightarrow> nat \<Rightarrow> int \<Rightarrow> int \<Rightarrow> int \<Rightarrow> bytes \<Rightarrow> 'a hubdom_scheme \<Rightarrow> 'a hubdom_scheme" where
  "ohubHandleDataMonReply E pagent kind type len buf h =
     (let m = ONTOHL (ld32 E buf 0) in
      if m < 1 \<or> m > 4000 \<or> len \<noteq> (m * 2 + 1) * 4 then h
      else fold (\<lambda>i. reg_answer pagent (ONTOHL (ld32 E buf (4 * (1 + 2 * i))))) [0..<nat m] h)"

definition ohubInitMonitoring :: "'a hubmon_scheme \<Rightarrow> oret \<times> 'a hubmon_scheme" where
  "ohubInitMonitoring h = (OK, h\<lparr>by_ooid_mon_hash := treeAlloc NUMERIC_TREE\<rparr>)"

definition ohubExitMonitoring :: "'a hubmon_scheme \<Rightarrow> oret \<times> 'a hubmon_scheme" where
  "ohubExitMonitoring h =
     (let h1 = fold (\<lambda>no h. if mons h ! no \<noteq> None then ohubDeallocateMonitor no h else h) [0..<length (mons h)] h
      in (OK, h1\<lparr>mons := [], mon_securing_qty := 0, by_ooid_mon_hash := None\<rparr>))"

section \<open>A report can be read back\<close>

text \<open>The bits of the flag byte: length below 32, undefined value, time present.\<close>

lemma byte_bits: "(\<And>n. n \<in> {0, 1, 2, 3, 4, 5, 6, 7} \<Longrightarrow> bit (x :: byte) n = bit y n) \<Longrightarrow> x = y"
  using less_cases(3) by (intro bit_word_eqI) auto

lemma nat_byte_bits: "n < 256 \<Longrightarrow> uint (of_nat n :: byte) = int n"
  by (simp add: unsigned_of_nat take_bit_nat_eq_self)

lemma small_len: "n < 32 \<Longrightarrow> take_bit 5 (of_nat n :: byte) = of_nat n"
  by (rule word_uint_eqI) (simp add: unsigned_take_bit_eq nat_byte_bits take_bit_int_eq_self)

lemma head_flags:
  fixes w u l t :: byte
  assumes "take_bit 5 w = w" and "u = 0 \<or> u = 0x80" and "l = 0 \<or> l = 0x20" and "t = 0 \<or> t = 0x40"
  shows "(l OR w OR u OR t) AND 0x1f = w" "(l OR w OR u OR t) AND 0x20 = l"
    "(l OR w OR u OR t) AND 0x40 = t" "(l OR w OR u OR t) AND 0x80 = u"
proof -
  have w: "\<not> bit w 5" "\<not> bit w 6" "\<not> bit w 7"
    using assms(1) bit_take_bit_iff [of 5 w 5] bit_take_bit_iff [of 5 w 6] bit_take_bit_iff [of 5 w 7] by auto
  show "(l OR w OR u OR t) AND 0x1f = w" "(l OR w OR u OR t) AND 0x20 = l"
    "(l OR w OR u OR t) AND 0x40 = t" "(l OR w OR u OR t) AND 0x80 = u"
    using assms(2-4) w by (auto intro!: byte_bits simp: bit_and_iff bit_or_iff)
qed

text \<open>The parser reads the parts of a head where they stand.\<close>

lemma parse_report_at:
  assumes "buf = pre @ st32 (OHTONL ooid) @ [ty, f] @ tb @ lb @ rest"
    and "tb = (if f AND 0x40 \<noteq> 0 then st32 (OHTONL time) else [])"
    and "length lb = (if f AND 0x20 \<noteq> 0 then 1 else 0)"
  shows "parse_report E buf (length pre) =
    (ooid, ty, f AND 0x80 \<noteq> 0, if f AND 0x40 \<noteq> 0 then time else 0,
     if f AND 0x20 \<noteq> 0 then uint (f AND 0x1f) * 256 + uint (lb ! 0) else uint (f AND 0x1f),
     length pre + 6 + length tb + length lb)"
proof -
  have o: "ld32 E buf (length pre) = OHTONL ooid" unfolding assms(1) by simp
  have h: "rd E buf (length pre + 4) = ty" "rd E buf (length pre + 5) = f"
    unfolding assms(1) by (simp_all add: nth_append)
  have t: "ld32 E buf (length pre + 6) = OHTONL time" if "f AND 0x40 \<noteq> 0"
  proof -
    have e: "buf = (pre @ st32 (OHTONL ooid) @ [ty, f]) @ st32 (OHTONL time) @ (lb @ rest)"
      using assms(1,2) that by simp
    show ?thesis unfolding e by (rule ld32_st32) simp
  qed
  have l: "rd E buf (length pre + 6 + length tb) = lb ! 0" if "f AND 0x20 \<noteq> 0"
  proof -
    have "length lb = 1" using assms(3) that by simp
    then obtain x where "lb = [x]" by (auto simp: length_Suc_conv)
    then show ?thesis unfolding assms(1) by (simp add: nth_append)
  qed
  have n: "length tb = (if f AND 0x40 \<noteq> 0 then 4 else 0)" using assms(2) by simp
  show ?thesis using o h t l n assms(3)
    by (cases "f AND 0x20 = 0"; cases "f AND 0x40 = 0") (simp_all add: parse_report_def OUNTOHL_def OHTONL_def)
qed

lemma report_head_parsed:
  assumes "n < 8192" and "u = 0 \<or> u = 0x80"
  shows "parse_report E (pre @ report_head use_time time ooid ty u n @ rest) (length pre)
    = (ooid, ty, u \<noteq> 0, if use_time then time else 0, int n, length pre + length (report_head use_time time ooid ty u n))"
proof -
  let ?t = "if use_time then 0x40 else 0 :: byte" and ?tb = "if use_time then st32 (OHTONL time) else []"
  have t: "?t = 0 \<or> ?t = 0x40" "?t \<noteq> 0 \<longleftrightarrow> use_time" by simp_all
  show ?thesis
  proof (cases "n < 0x20")
    case True
    define fl where "fl = of_nat n OR u OR ?t"
    have f: "fl AND 0x1f = of_nat n" "fl AND 0x20 = 0" "fl AND 0x40 = ?t" "fl AND 0x80 = u"
      using head_flags [OF small_len [OF True] assms(2) _ t(1), where l = 0] by (simp_all add: fl_def)
    have e: "pre @ report_head use_time time ooid ty u n @ rest = pre @ st32 (OHTONL ooid) @ [ty, fl] @ ?tb @ [] @ rest"
      using True by (simp add: report_head_def fl_def)
    have tb: "?tb = (if fl AND 0x40 \<noteq> 0 then st32 (OHTONL time) else [])" by (simp add: f)
    show ?thesis
      unfolding e by (subst parse_report_at [OF refl tb]) (use True in \<open>simp_all add: f report_head_def nat_byte_bits\<close>)
  next
    case False
    let ?h = "of_nat (n div 256) :: byte"
    have h: "n div 256 < 32" using assms by auto
    have hs: "take_bit 5 ?h = ?h" by (rule small_len [OF h])
    have m5: "(0x1f :: byte) = mask 5" by (simp add: mask_eq_exp_minus_1)
    have ha: "?h AND 0x1f = ?h" unfolding m5 using hs by (simp add: take_bit_eq_mask)
    define fl where "fl = 0x20 OR ?h OR u OR ?t"
    have f: "fl AND 0x1f = ?h" "fl AND 0x20 = 0x20" "fl AND 0x40 = ?t" "fl AND 0x80 = u"
      using head_flags [OF hs assms(2) _ t(1), where l = "0x20"] by (simp_all add: fl_def)
    have e: "pre @ report_head use_time time ooid ty u n @ rest
        = pre @ st32 (OHTONL ooid) @ [ty, fl] @ ?tb @ [of_nat (n mod 256)] @ rest"
      using False by (simp add: report_head_def fl_def ha)
    have tb: "?tb = (if fl AND 0x40 \<noteq> 0 then st32 (OHTONL time) else [])" by (simp add: f)
    have "uint ?h * 256 + uint (of_nat (n mod 256) :: byte) = int n"
      using h div_mult_mod_eq [of "int n" 256] by (simp add: nat_byte_bits zdiv_int zmod_int)
    then show ?thesis
      unfolding e by (subst parse_report_at [OF refl tb]) (use False in \<open>simp_all add: f report_head_def\<close>)
  qed
qed

lemma announce_head_report:
  "announce_head m n = report_head True (ov_time (mon_value m)) (mon_ooid m) (ov_type (mon_value m))
     (if ov_undef (mon_value m) then 0x80 else 0) n"
proof -
  have "(0x60 :: byte) OR x OR u = 0x20 OR x OR u OR 0x40" for x u :: byte
    by (auto intro!: byte_bits simp: bit_or_iff)
  then show ?thesis by (simp add: announce_head_def report_head_def Let_def)
qed
text \<open>
  C27. What the hub writes as the head of a report, the parser of reports reads back: the
  identifier, type, undefined flag, time and length of the value, and the position behind
  the head, wherever the report stands in a packet, for every length up to 8191.
\<close>

theorem report_head_roundtrip:
  assumes "n < 8192"
  shows "parse_report E (pre @ announce_head m n @ rest) (length pre)
    = (mon_ooid m, ov_type (mon_value m), ov_undef (mon_value m), ov_time (mon_value m), int n,
       length pre + length (announce_head m n))"
  using report_head_parsed [OF assms, of "if ov_undef (mon_value m) then 0x80 else 0" E pre True]
  by (simp add: announce_head_report)

theorem report_head_roundtrip_witness:
  "parse_report env0 (announce_head (no_monitor\<lparr>mon_ooid := 77\<rparr>) 300 @ replicate 300 0) 0
    = (77, 0, False, 0, 300, 11)"
  using report_head_roundtrip [of 300 env0 "[]" "no_monitor\<lparr>mon_ooid := 77\<rparr>" "replicate 300 0"]
  by (simp add: announce_head_report report_head_def Let_def no_monitor_def no_value_def)

section \<open>Every watcher gets a value in its own byte order\<close>

lemma ohubMonFlushMonAccum_net [intro]: "net_frame h (snd (ohubMonFlushMonAccum E w h))"
  unfolding ohubMonFlushMonAccum_def Let_def case_prod_unfold snd_conv
  by (rule net_frame_trans [OF _ net_frame_upd_watch]) auto

lemma accum_put_net [intro]: "net_frame h (accum_put E w r h)"
  unfolding accum_put_def Let_def
  by (rule net_frame_trans [OF _ net_frame_upd_watch]) auto

lemma announce_loop_net: "net_frame h (announce_loop E my type hdr ws en body h)"
proof (induction ws arbitrary: en body h)
  case (Cons x ws)
  have "net_frame h (announce_loop E my type hdr ws en' b' (accum_put E w r h))" for en' b' w r
    by (rule net_frame_trans [OF accum_put_net Cons.IH])
  then show ?case using Cons.IH by (cases x) (simp_all add: Let_def case_prod_unfold)
qed simp

lemma ohubAnnounceChange_net [intro]: "net_frame h (snd (ohubAnnounceChange E no my h))"
  by (simp add: ohubAnnounceChange_def Let_def net_frame_trans [OF net_frame_fault announce_loop_net])

text \<open>
  The reference: who gets the report, and the bytes a watcher gets, each looked up in the
  state before the announcement and independent of the other watchers.
\<close>

definition announce_targets :: "nat option \<Rightarrow> nat option list \<Rightarrow> 'a hubnet_scheme \<Rightarrow> nat list" where
  "announce_targets my ws h =
     filter (\<lambda>w. (my = None \<or> my = Some w) \<and> \<not> announce_blocked (watchers h ! w)) (map the (filter (\<lambda>x. x \<noteq> None) ws))"

definition oriented :: "byte \<Rightarrow> bytes \<Rightarrow> bool \<Rightarrow> bytes" where
  "oriented type body rotor = (if rotor then snd (ohubRotate True type (int (length body)) body) else body)"

lemma oriented_turn:
  "oriented type (oriented type body en) True = oriented type body (\<not> en)"
  by (simp add: oriented_def) (simp add: oriented_def ohubRotate_back)

lemma length_oriented [simp]: "length (oriented type body r) = length body"
  by (simp add: oriented_def)

lemma announce_loop_step:
  "announce_loop E my type hdr (Some w # ws) en (oriented type body en) h =
     (if (my \<noteq> None \<and> my \<noteq> Some w) \<or> announce_blocked (watchers h ! w)
      then announce_loop E my type hdr ws en (oriented type body en) h
      else let r = (if body = [] then en else needs_rotor (watchers h ! w))
        in announce_loop E my type hdr ws r (oriented type body r)
             (accum_put E w (hdr @ oriented type body (needs_rotor (watchers h ! w))) h))"
proof -
  have e: "oriented type body r = [] \<longleftrightarrow> body = []" for r by (metis length_0_conv length_oriented)
  have z: "oriented type [] r = []" for r by (metis length_0_conv length_oriented)
  have t: "snd (ohubRotate True type (int (length body)) (oriented type body r)) = oriented type body (\<not> r)" for r
    using oriented_turn [of type body r] by (simp add: oriented_def [of type "oriented type body r"])
  show ?thesis
    by (cases my; cases "body = []"; cases en; cases "needs_rotor (watchers h ! w)")
      (simp_all add: ohubWatchAnnounceBlocked_def ohubWatchNeedsRotor_def Let_def e z t)
qed

lemma announce_loop_ref:
  assumes "\<forall>w. Some w \<in> set ws \<longrightarrow> w < length (watchers h)"
  shows "announce_loop E my type hdr ws en (oriented type body en) h
    = fold (\<lambda>w. accum_put E w (hdr @ oriented type body (needs_rotor (watchers h ! w)))) (announce_targets my ws h) h"
  using assms
proof (induction ws arbitrary: en h)
  case (Cons x ws)
  show ?case
  proof (cases x)
    case None
    then show ?thesis using Cons by (simp add: announce_targets_def)
  next
    case (Some w)
    let ?h = "accum_put E w (hdr @ oriented type body (needs_rotor (watchers h ! w))) h"
    have f: "net_frame h ?h" by (rule accum_put_net)
    have l: "length (watchers ?h) = length (watchers h)" by (rule net_frame_fields(10) [OF f])
    have k: "announce_blocked (watchers ?h ! v) = announce_blocked (watchers h ! v)"
      "needs_rotor (watchers ?h ! v) = needs_rotor (watchers h ! v)" if "Some v \<in> set ws" for v
    proof -
      have "watch_frame (watchers h ! v) (watchers ?h ! v)"
        using net_frame_watch [OF f] Cons.prems that by auto
      then show "announce_blocked (watchers ?h ! v) = announce_blocked (watchers h ! v)"
        "needs_rotor (watchers ?h ! v) = needs_rotor (watchers h ! v)"
        by (auto simp: watch_frame_def peer_frame_def peer.truncate_def)
    qed
    have t: "announce_targets my ws ?h = announce_targets my ws h"
      unfolding announce_targets_def by (rule filter_cong) (auto simp: k)
    have g: "fold (\<lambda>w. accum_put E w (hdr @ oriented type body (needs_rotor (watchers ?h ! w)))) (announce_targets my ws h) s
      = fold (\<lambda>w. accum_put E w (hdr @ oriented type body (needs_rotor (watchers h ! w)))) (announce_targets my ws h) s" for s
      by (rule fold_cong) (auto simp: announce_targets_def k)
    show ?thesis
    proof (cases "(my \<noteq> None \<and> my \<noteq> Some w) \<or> announce_blocked (watchers h ! w)")
      case True
      have "announce_targets my (x # ws) h = announce_targets my ws h"
        using True Some by (auto simp: announce_targets_def)
      then show ?thesis using True Cons unfolding Some announce_loop_step by simp
    next
      case False
      have "announce_targets my (x # ws) h = w # announce_targets my ws h"
        using False Some by (auto simp: announce_targets_def)
      moreover have "\<forall>v. Some v \<in> set ws \<longrightarrow> v < length (watchers ?h)" using Cons.prems l by simp
      note Cons.IH [OF this, unfolded t g]
      ultimately show ?thesis using False unfolding Some announce_loop_step by (auto simp: Let_def)
    qed
  qed
qed (simp add: announce_targets_def)

text \<open>
  C12. The optimised announcement, which turns the shared copy of the value only when the
  byte order changes from one watcher to the next, is equivalent to the plain one: every
  attached watcher that is not blocked gets one report, in the order of the table, with the
  value turned exactly when that watcher needs it.
\<close>

theorem announce_equivalent:
  assumes "\<forall>w. Some w \<in> set (mon_watchers (the_mon h no)) \<longrightarrow> w < length (watchers h)"
  shows "ohubAnnounceChange E no my h =
    (let m = the_mon h no; v = mon_value m; n = (if ov_undef v then 0 else nat (ov_len v)) in
     if mon_watch_qty m = 0 then (OK, h)
     else if 1 + ov_len v + 16 > int OHUB_MON_ACCUM_SIZE then (ERROR, h)
     else (1, fold (\<lambda>w. accum_put E w (announce_head m n
                    @ oriented (ov_type v) (announce_body E m n) (needs_rotor (watchers h ! w))))
                (announce_targets my (take (mon_watch_qty m) (mon_watchers m)) h)
                (set_fault (n > 0 \<and> ov_type v = 115 \<and> ov_str v = None) h)))"
proof -
  have s: "watchers (set_fault b h) = watchers h" for b by (simp add: set_fault_def)
  have "announce_targets my ws (set_fault b h) = announce_targets my ws h" for ws b
    by (simp add: announce_targets_def s)
  moreover have "\<forall>w. Some w \<in> set (take k (mon_watchers (the_mon h no))) \<longrightarrow> w < length (watchers (set_fault b h))" for k b
    using assms s by (metis in_set_takeD)
  note announce_loop_ref [OF this, where en = False, unfolded oriented_def [where rotor = False] if_False]
  ultimately show ?thesis by (simp add: ohubAnnounceChange_def Let_def s)
qed

text \<open>A state with one monitor, of a 4 byte scalar with three watchers.\<close>

definition monitor0 :: monitor where
  "monitor0 = no_monitor\<lparr>mon_ooid := 77, mon_ref_count := 3, mon_watchers := [Some 2, None, Some 3, Some 4, None, None, None, None],
     mon_watch_qty := 4, mon_value := no_value\<lparr>ov_type := 105, ov_len := 4, ov_v := [1, 2, 3, 4, 0, 0, 0, 0]\<rparr>\<rparr>"

definition msg0 :: hubmsg where
  "msg0 = hubdom.extend dom0 (hubmsg.fields [] [] 1)"

definition mon0 :: hubmon where
  "mon0 = hubmsg.extend msg0 (hubmon.fields [None, Some monitor0] 0 (treeAlloc NUMERIC_TREE))"

lemma mon0_simps [simp]:
  "mons mon0 = [None, Some monitor0]" "watchers mon0 = replicate 33 watch0" "subjs mon0 = replicate 33 subj0"
  "mon_securing_qty mon0 = 0" "by_ooid_mon_hash mon0 = treeAlloc NUMERIC_TREE" "agents mon0 = [agent0]"
  "subjects mon0 = [subject0]" "modules mon0 = [module0]" "msg_nodes mon0 = []" "msg_classes mon0 = []"
  by (simp_all add: mon0_def msg0_def dom0_def hubdom.defs hubmsg.defs hubmon.defs)

lemma monitor0_simps [simp]:
  "mon_ooid monitor0 = 77" "mon_ref_count monitor0 = 3" "mon_watch_qty monitor0 = 4"
  "mon_watchers monitor0 = [Some 2, None, Some 3, Some 4, None, None, None, None]" "\<not> mon_securing monitor0"
  "ov_type (mon_value monitor0) = 105" "ov_len (mon_value monitor0) = 4" "\<not> ov_undef (mon_value monitor0)"
  "ov_v (mon_value monitor0) = [1, 2, 3, 4, 0, 0, 0, 0]" "mon_agent monitor0 = None" "mon_nsubj monitor0 = None"
  by (simp_all add: monitor0_def no_monitor_def no_value_def)

theorem announce_equivalent_witness:
  "fst (ohubAnnounceChange env0 1 None mon0) = 1"
  using announce_equivalent [of mon0 1 env0 None]
  by (simp add: the_mon_def Let_def OHUB_MON_ACCUM_SIZE_def)

end
