(* ===== verification/Data.thy ===== *)
theory Data
  imports Monitor
begin

text \<open>
  hub-data.c: pending reads and writes of single values. Each has a record in a growing table
  and an identifier that holds the index of the record and a sequence number; the agent's
  reply is matched by that identifier. Writes are postponed (\<open>securing_flag\<close>) when the queue
  to the agent is nearly full.
\<close>

section \<open>State\<close>

definition OHUB_WRITE_SECURING_LIMIT :: int where "OHUB_WRITE_SECURING_LIMIT = 32"

text \<open>\<open>securing_flag\<close> is 0, 1 or -1 (ERROR), the last for a write whose watcher is gone.\<close>

record data =
  dt_busy :: bool
  dt_no :: nat
  dt_write :: bool
  dt_id :: u32
  dt_ooid :: u32
  dt_op :: u32
  dt_quark :: quark
  dt_val :: oval
  dt_agent :: "nat option"
  dt_watch :: "nat option"
  dt_securing :: int

definition no_data :: data where
  "no_data = \<lparr>dt_busy = False, dt_no = 0, dt_write = False, dt_id = 0, dt_ooid = 0, dt_op = 0,
     dt_quark = no_quark, dt_val = no_value, dt_agent = None, dt_watch = None, dt_securing = 0\<rparr>"

record hubdata = hubmon +
  data_chain :: "data list"
  data_chain_len :: int
  next_data_id :: u32
  write_securing_qty :: int

definition upd_data :: "nat \<Rightarrow> (data \<Rightarrow> data) \<Rightarrow> 'a hubdata_scheme \<Rightarrow> 'a hubdata_scheme" where
  "upd_data no f h = h\<lparr>data_chain := (data_chain h)[no := f (data_chain h ! no)]\<rparr>"

section \<open>The table\<close>

definition bump_data_id :: "u32 \<Rightarrow> u32" where
  "bump_data_id n = (if (n + 1) AND 0xFFFF = 0 then n + 2 else n + 1)"

definition make_data_id :: "u32 \<Rightarrow> nat \<Rightarrow> u32" where
  "make_data_id n no = push_bit 16 (n AND 0xFFFF) OR of_nat no"

text \<open>\<open>OhubDataRecord_t\<close> has 456 bytes on the target.\<close>

definition ohubAllocateData :: "env \<Rightarrow> 'a hubdata_scheme \<Rightarrow> nat option \<times> 'a hubdata_scheme" where
  "ohubAllocateData E h =
     (let size = length (data_chain h);
          place = (\<lambda>no h.
            let n = bump_data_id (next_data_id h)
            in (Some no, (upd_data no (\<lambda>_. no_data\<lparr>dt_busy := True, dt_no := no, dt_id := make_data_id n no\<rparr>) h)
                 \<lparr>next_data_id := n, data_chain_len := data_chain_len h + 1\<rparr>))
      in case find (\<lambda>no. \<not> dt_busy (data_chain h ! no)) [1..<size] of
           Some no \<Rightarrow> place no h
         | None \<Rightarrow>
             let new_size = min 65535 (size * 2 + 4) in
             if new_size = size \<or> \<not> env_alloc E (456 * new_size) then (None, h)
             else place (max 1 size) (h\<lparr>data_chain := data_chain h @ replicate (new_size - size) no_data\<rparr>))"

definition ohubDeallocateData :: "nat \<Rightarrow> 'a hubdata_scheme \<Rightarrow> 'a hubdata_scheme" where
  "ohubDeallocateData no h =
     (let h1 = (if dt_securing (data_chain h ! no) \<noteq> 0
                then h\<lparr>write_securing_qty := max 0 (write_securing_qty h - 1)\<rparr> else h)
      in (upd_data no (\<lambda>_. no_data) h1)\<lparr>data_chain_len := data_chain_len h - 1\<rparr>)"

definition ohubFindData :: "u32 \<Rightarrow> 'a hubdata_scheme \<Rightarrow> nat option" where
  "ohubFindData i h =
     (let no = unat (i AND 65535) in
      if no \<le> 0 \<or> no \<ge> length (data_chain h) then None
      else if dt_busy (data_chain h ! no) \<and> dt_id (data_chain h ! no) = i then Some no else None)"

section \<open>Writes\<close>

definition ohubCompleteWriteReply :: "env \<Rightarrow> nat \<Rightarrow> int \<Rightarrow> 'a hubdata_scheme \<Rightarrow> oret \<times> 'a hubdata_scheme" where
  "ohubCompleteWriteReply E no err h =
     (let d = data_chain h ! no in
      case dt_watch d of
        None \<Rightarrow> (ERROR, h)
      | Some w \<Rightarrow>
          (if \<not> dt_write d then (ERROR, h)
           else
             let reply = st32 (OHTONL (dt_op d)) @ st32 (OHTONL (dt_ooid d)) @ st32 (OHTONL (word_of_int err));
                 (rc, h1) = ohubWatchSendPacket E (Some w) OLANG_DATA OLANG_OOID_WRITE_REPLY 12 (Some reply) h
             in (rc, ohubDeallocateData no h1)))"

definition request_head :: "data \<Rightarrow> bytes" where
  "request_head d = (let q = dt_quark d in
     st32 (OHTONL (dt_id d)) @ st32 (OHTONL (ov_time (dt_val d)))
     @ st32 (OHTONL (word_of_int (qk_phys_addr q))) @ st32 (OHTONL (word_of_int (qk_off q)))
     @ st16 (OHTONS (ov_len (dt_val d)))
     @ [qk_ptr q, qk_type q, word_of_int (qk_bit_off q), word_of_int (qk_bit_len q)] @ st16 0)"

definition ohubSendWriteRequest :: "env \<Rightarrow> nat \<Rightarrow> 'a hubdata_scheme \<Rightarrow> oret \<times> 'a hubdata_scheme" where
  "ohubSendWriteRequest E no h =
     (let d = data_chain h ! no; v = dt_val d; vlen = nat (ov_len v) in
      if \<not> dt_write d then (ERROR, h)
      else if ov_len v + 48 \<ge> 128 \<and> \<not> env_alloc E (nat (ov_len v + 48)) then (ERROR, h)
      else case dt_agent d of
        None \<Rightarrow> (ERROR, set_fault True h)
      | Some a \<Rightarrow>
          let body = (if ov_type v = 115 then rd_bytes E (the_bytes (ov_str v)) 0 vlen
                      else snd (ohubRotate (ohubSubjNeedsRotor (ag_nsubj (agents h ! a)) h)
                                 (qk_type (dt_quark d)) (ov_len v) (rd_bytes E (ov_v v) 0 vlen)));
              req = request_head d @ body
          in agent_send E a OLANG_DATA OLANG_DATA_WRITE_REQ (24 + ov_len v) (Some req) h)"

definition data_agent_off :: "data \<Rightarrow> 'a hubdom_scheme \<Rightarrow> bool" where
  "data_agent_off d h = (case dt_agent d of None \<Rightarrow> True | Some a \<Rightarrow> ag_state (agents h ! a) = [])"

definition data_nsubj :: "data \<Rightarrow> 'a hubdom_scheme \<Rightarrow> nat option" where
  "data_nsubj d h = (case dt_agent d of None \<Rightarrow> None | Some a \<Rightarrow> ag_nsubj (agents h ! a))"

definition count_write :: "data \<Rightarrow> 'a hubdom_scheme \<Rightarrow> 'a hubdom_scheme" where
  "count_write d h = upd_agent (the (dt_agent d)) (\<lambda>a. a\<lparr>ag_write_count := ag_write_count a + 1\<rparr>) h"

definition ohubSendSecureWriteRequest :: "env \<Rightarrow> nat \<Rightarrow> 'a hubdata_scheme \<Rightarrow> oret \<times> 'a hubdata_scheme" where
  "ohubSendSecureWriteRequest E no h =
     (let d = data_chain h ! no in
      if \<not> dt_write d then (ERROR, h)
      else if dt_agent d = None \<or> data_agent_off d h \<or> data_nsubj d h = None then (ERROR, h)
      else if dt_securing d \<noteq> 0 then (OK, h)
      else if ohubSubjSendQueueGap (data_nsubj d h) h < 10
              \<or> ag_write_count (agents h ! the (dt_agent d)) > OHUB_WRITE_SECURING_LIMIT
      then (OK, (upd_data no (\<lambda>d. d\<lparr>dt_securing := 1\<rparr>) h)\<lparr>write_securing_qty := write_securing_qty h + 1\<rparr>)
      else let (rc, h1) = ohubSendWriteRequest E no h in (rc, count_write d h1))"

fun secure_writes :: "env \<Rightarrow> nat list \<Rightarrow> int \<times> 'a hubdata_scheme \<Rightarrow> int \<times> 'a hubdata_scheme" where
  "secure_writes E [] (qty, h) = (qty, h)"
| "secure_writes E (no # ns) (qty, h) =
     (if qty \<ge> OHUB_WRITE_SECURING_LIMIT \<or> write_securing_qty h \<le> 0 then (qty, h)
      else
        let d = data_chain h ! no in
        if \<not> dt_busy d \<or> \<not> dt_write d \<or> dt_securing d = 0 then secure_writes E ns (qty, h)
        else
          let h0 = set_fault (dt_agent d = None) h in
          if data_agent_off d h0 \<or> data_nsubj d h0 = None
          then secure_writes E ns (qty, if dt_securing d = -1 then ohubDeallocateData no h0 else h0)
          else if ag_write_count (agents h0 ! the (dt_agent d)) > OHUB_WRITE_SECURING_LIMIT
          then secure_writes E ns (qty, h0)
          else
            let gap = ohubSubjSendQueueGap (data_nsubj d h0) h0 in
            if gap \<ge> 0 \<and> gap < 10 then secure_writes E ns (qty, h0)
            else
              let h1 = count_write d (snd (ohubSendWriteRequest E no h0))
              in secure_writes E ns (qty + 1,
                   if dt_securing d = -1 then ohubDeallocateData no h1
                   else (upd_data no (\<lambda>d. d\<lparr>dt_securing := 0\<rparr>) h1)\<lparr>write_securing_qty := write_securing_qty h1 - 1\<rparr>))"

definition ohubSecureMoreWrites :: "env \<Rightarrow> 'a hubdata_scheme \<Rightarrow> int \<times> 'a hubdata_scheme" where
  "ohubSecureMoreWrites E h =
     (if write_securing_qty h \<le> 0 \<or> data_chain h = [] then (0, h)
      else secure_writes E [1..<length (data_chain h)] (0, h))"

text \<open>
  The checks of \<open>ohubHandleOoidWrite\<close> on the value, in the order of the code: None when one
  fails. A scalar longer than the union overflows it (second component).
\<close>

definition write_value :: "env \<Rightarrow> bool \<Rightarrow> int \<Rightarrow> bytes \<Rightarrow> quark \<Rightarrow> oval \<Rightarrow> bool \<times> oval option" where
  "write_value E rotor len buf q v0 =
     (let v_type = rd E buf 8; fl = rd E buf 9; p1 = 10;
          (v_time, p2) = (if fl AND 0x40 \<noteq> 0 then (OUNTOHL (ld32 E buf p1), p1 + 4) else (0, p1));
          (v_len, p3) = (if fl AND 0x20 \<noteq> 0
             then (uint (fl AND 0x1f) * 256 + uint (rd E buf p2), p2 + 1) else (uint (fl AND 0x1f), p2));
          v = v0\<lparr>ov_type := v_type, ov_undef := (fl AND 0x80 \<noteq> 0), ov_time := v_time, ov_len := v_len\<rparr>
      in if fl AND 0x80 \<noteq> 0 then (False, None)
         else if v_type \<noteq> qk_type q then (False, None)
         else if v_type = 115 \<and> v_len > qk_len q then (False, None)
         else if v_type \<noteq> 115 \<and> v_len \<noteq> qk_len q then (False, None)
         else if v_len \<le> 0 then (False, None)
         else if int p3 + v_len \<noteq> len then (False, None)
         else if v_type = 115 then
           (if \<not> env_alloc E (nat v_len) then (False, None)
            else (False, Some (v\<lparr>ov_str := Some (rd_bytes E buf p3 (nat v_len))\<rparr>)))
         else (v_len > 8,
               Some (v\<lparr>ov_v := snd (ohubRotate rotor v_type v_len
                         (rd_bytes E buf p3 (nat v_len) @ drop (nat v_len) (ov_v v0)))\<rparr>)))"

text \<open>
  The agent of a quark, for both request handlers: None when the module number is invalid or
  the agent has no connection.
\<close>

definition quark_agent :: "quark \<Rightarrow> 'a hubdom_scheme \<Rightarrow> nat option" where
  "quark_agent q h =
     (let mod_no = qk_obj_ikey q in
      if mod_no < 0 \<or> mod_no \<ge> int (length (modules h)) then None
      else Some (sb_agent (subjects h ! mo_subject (modules h ! nat mod_no))))"

definition write_fail :: "env \<Rightarrow> nat \<Rightarrow> 'a hubdata_scheme \<Rightarrow> oret \<times> 'a hubdata_scheme" where
  "write_fail E no h = (ERROR, snd (ohubCompleteWriteReply E no ERROR h))"

definition ohubHandleOoidWrite ::
  "env \<Rightarrow> nat \<Rightarrow> int \<Rightarrow> int \<Rightarrow> int \<Rightarrow> bytes \<Rightarrow> 'a hubdata_scheme \<Rightarrow> oret \<times> 'a hubdata_scheme" where
  "ohubHandleOoidWrite E w kind type len buf h =
     (case ohubAllocateData E h of
        (None, h1) \<Rightarrow> (ERROR, h1)
      | (Some no, h1) \<Rightarrow>
          let h2 = upd_data no (\<lambda>d. d\<lparr>dt_watch := Some w, dt_write := True\<rparr>) h1 in
          if len < 7 then write_fail E no h2
          else
            let ooid = OUNTOHL (ld32 E buf 4);
                h3 = upd_data no (\<lambda>d. d\<lparr>dt_op := OUNTOHL (ld32 E buf 0), dt_ooid := ooid\<rparr>) h2
            in case ohubGetInfoByOoid E ooid h3 of (rc, q, res, h4) \<Rightarrow>
              let h5 = upd_data no (\<lambda>d. d\<lparr>dt_quark := q\<rparr>) h4 in
              if rc \<noteq> OK then write_fail E no h5
              else case write_value E (ohubWatchNeedsRotor (Some w) h5) len buf q (dt_val (data_chain h5 ! no)) of
                (over, None) \<Rightarrow> write_fail E no h5
              | (over, Some v) \<Rightarrow>
                  let h6 = set_fault over (upd_data no (\<lambda>d. d\<lparr>dt_val := v\<rparr>) h5) in
                  (case quark_agent q h6 of
                     None \<Rightarrow> write_fail E no h6
                   | Some a \<Rightarrow>
                       let h7 = upd_data no (\<lambda>d. d\<lparr>dt_agent := Some a\<rparr>) h6 in
                       if ag_nsubj (agents h7 ! a) = None then write_fail E no h7
                       else if ag_state (agents h7 ! a) \<noteq> [] \<and> qk_phys_addr q \<noteq> -1 then
                         (case ohubSendSecureWriteRequest E no h7 of
                            (rc2, h8) \<Rightarrow> if rc2 \<noteq> OK then write_fail E no h8 else (OK, h8))
                       else (OK, h7)))"

definition ohubHandleDataWrite ::
  "env \<Rightarrow> nat \<Rightarrow> int \<Rightarrow> int \<Rightarrow> int \<Rightarrow> bytes \<Rightarrow> 'a hubdata_scheme \<Rightarrow> oret \<times> 'a hubdata_scheme" where
  "ohubHandleDataWrite E pagent kind type len buf h =
     (if len \<noteq> 6 then (ERROR, h)
      else case ohubFindData (OUNTOHL (ld32 E buf 0)) h of
        None \<Rightarrow> (ERROR, h)
      | Some no \<Rightarrow>
          (if \<not> dt_write (data_chain h ! no) then (ERROR, h)
           else ohubCompleteWriteReply E no (ONTOHS (ld16 E buf 4)) h))"

section \<open>Reads\<close>

definition read_reply :: "env \<Rightarrow> data \<Rightarrow> int \<Rightarrow> 'a hubnet_scheme \<Rightarrow> bytes" where
  "read_reply E d err h =
     (let v = dt_val d; vlen = nat (ov_len v) in
      st32 (OHTONL (dt_op d)) @ st32 (OHTONL (dt_ooid d)) @ st32 (OHTONL (ov_time v))
      @ st32 (OHTONL (word_of_int err))
      @ (if err = 0 then
           [ov_type v, 0] @ st16 (OHTONS (ov_len v))
           @ (if ov_type v = 115 then rd_bytes E (the_bytes (ov_str v)) 0 vlen
              else snd (ohubRotate (ohubWatchNeedsRotor (dt_watch d) h) (ov_type v) (ov_len v)
                          (rd_bytes E (ov_v v) 0 vlen)))
         else []))"

definition ohubCompleteReadReply :: "env \<Rightarrow> nat \<Rightarrow> int \<Rightarrow> 'a hubdata_scheme \<Rightarrow> oret \<times> 'a hubdata_scheme" where
  "ohubCompleteReadReply E no err h =
     (let d = data_chain h ! no; plen = (if err \<noteq> 0 then 16 else 20 + ov_len (dt_val d)) in
      case dt_watch d of
        None \<Rightarrow> (ERROR, h)
      | Some w \<Rightarrow>
          (if dt_write d then (ERROR, h)
           else if plen \<ge> 128 \<and> \<not> env_alloc E (nat plen) then (ERROR, ohubDeallocateData no h)
           else
             let (rc, h1) = ohubWatchSendPacket E (Some w) OLANG_DATA OLANG_OOID_READ_REPLY plen
                              (Some (read_reply E d err h)) h
             in (rc, ohubDeallocateData no h1)))"

definition ohubSendReadRequest :: "env \<Rightarrow> nat \<Rightarrow> 'a hubdata_scheme \<Rightarrow> oret \<times> 'a hubdata_scheme" where
  "ohubSendReadRequest E no h =
     (let d = data_chain h ! no in
      if dt_write d then (ERROR, h)
      else case dt_agent d of
        None \<Rightarrow> (ERROR, set_fault True h)
      | Some a \<Rightarrow> agent_send E a OLANG_DATA OLANG_DATA_READ_REQ 24 (Some (request_head d)) h)"

definition read_fail :: "env \<Rightarrow> nat \<Rightarrow> 'a hubdata_scheme \<Rightarrow> oret \<times> 'a hubdata_scheme" where
  "read_fail E no h = (ERROR, snd (ohubCompleteReadReply E no ERROR h))"

text \<open>The part of \<open>ohubHandleOoidRead\<close> that asks the agent.\<close>

definition read_remote :: "env \<Rightarrow> nat \<Rightarrow> u32 \<Rightarrow> 'a hubdata_scheme \<Rightarrow> oret \<times> 'a hubdata_scheme" where
  "read_remote E no ooid h3 =
     (case ohubGetInfoByOoid E ooid h3 of (rc, q, res, h4) \<Rightarrow>
        let h5 = upd_data no (\<lambda>d. d\<lparr>dt_quark := q\<rparr>) h4 in
        if rc \<noteq> OK then read_fail E no h5
        else
          let h6 = upd_data no (\<lambda>d. d\<lparr>dt_val := (dt_val d)\<lparr>ov_type := qk_type q, ov_len := qk_len q,
                     ov_undef := True\<rparr>\<rparr>) h5
          in case quark_agent q h6 of
               None \<Rightarrow> read_fail E no h6
             | Some a \<Rightarrow>
                 let h7 = upd_data no (\<lambda>d. d\<lparr>dt_agent := Some a\<rparr>) h6 in
                 if ag_nsubj (agents h7 ! a) = None then read_fail E no h7
                 else if ag_state (agents h7 ! a) \<noteq> [] \<and> qk_phys_addr q \<noteq> -1 then
                   (case ohubSendReadRequest E no h7 of
                      (rc2, h8) \<Rightarrow> if rc2 \<noteq> OK then read_fail E no h8 else (OK, h8))
                 else (OK, h7))"

definition ohubHandleOoidRead ::
  "env \<Rightarrow> nat \<Rightarrow> int \<Rightarrow> int \<Rightarrow> int \<Rightarrow> bytes \<Rightarrow> 'a hubdata_scheme \<Rightarrow> oret \<times> 'a hubdata_scheme" where
  "ohubHandleOoidRead E w kind type len buf h =
     (case ohubAllocateData E h of
        (None, h1) \<Rightarrow> (ERROR, h1)
      | (Some no, h1) \<Rightarrow>
          let h2 = upd_data no (\<lambda>d. d\<lparr>dt_watch := Some w, dt_write := False\<rparr>) h1 in
          if len \<noteq> 12 then read_fail E no h2
          else
            let ooid = OUNTOHL (ld32 E buf 4);
                h3 = upd_data no (\<lambda>d. d\<lparr>dt_op := OUNTOHL (ld32 E buf 0), dt_ooid := ooid,
                       dt_val := (dt_val d)\<lparr>ov_time := OUNTOHL (ld32 E buf 8)\<rparr>\<rparr>) h2
            in case ohubMonGetValue E ooid h3 of
                 (None, h4) \<Rightarrow> read_remote E no ooid h4
               | (Some v, h4) \<Rightarrow>
                   let h5 = upd_data no (\<lambda>d. d\<lparr>dt_val := v\<rparr>) h4
                   in if \<not> ov_undef v then (OK, snd (ohubCompleteReadReply E no 0 h5))
                      else read_remote E no ooid h5)"

definition ohubHandleDataRead ::
  "env \<Rightarrow> nat \<Rightarrow> int \<Rightarrow> int \<Rightarrow> int \<Rightarrow> bytes \<Rightarrow> 'a hubdata_scheme \<Rightarrow> oret \<times> 'a hubdata_scheme" where
  "ohubHandleDataRead E pagent kind type len buf h =
     (if len < 6 then (ERROR, h)
      else
        let err = ONTOHS (ld16 E buf 4) in
        case ohubFindData (OUNTOHL (ld32 E buf 0)) h of
          None \<Rightarrow> (ERROR, h)
        | Some no \<Rightarrow>
            let d = data_chain h ! no; q = dt_quark d; cancel = (ERROR, snd (ohubCompleteReadReply E no (-1) h)) in
            if dt_write d then (ERROR, h)
            else
              let v_len = (if err \<noteq> 0 then 0 else ONTOHS (ld16 E buf 6)) in
              if err = 0 \<and> v_len \<noteq> qk_len q then cancel
              else if (if err \<noteq> 0 then 6 else 8 + v_len) \<noteq> len then cancel
              else if v_len \<le> 0 then
                ohubCompleteReadReply E no err (upd_data no (\<lambda>d. d\<lparr>dt_val := (dt_val d)\<lparr>ov_undef := True,
                  ov_type := qk_type q, ov_str := None,
                  ov_v := [0, 0, 0, 0] @ drop 4 (ov_v (dt_val d))\<rparr>\<rparr>) h)
              else if qk_type q = 115 then
                (if \<not> env_alloc E (nat v_len)
                 then (ERROR, snd (ohubCompleteReadReply E no (-1) (upd_data no (\<lambda>d. d\<lparr>dt_val :=
                        (dt_val d)\<lparr>ov_undef := False, ov_type := qk_type q, ov_len := v_len\<rparr>\<rparr>) h)))
                 else ohubCompleteReadReply E no err (upd_data no (\<lambda>d. d\<lparr>dt_val := (dt_val d)\<lparr>ov_undef := False,
                        ov_type := qk_type q, ov_len := v_len,
                        ov_str := Some (rd_bytes E buf 8 (nat v_len))\<rparr>\<rparr>) h))
              else
                ohubCompleteReadReply E no err (set_fault (v_len > 8) (upd_data no (\<lambda>d. d\<lparr>dt_val :=
                  (dt_val d)\<lparr>ov_undef := False, ov_type := qk_type q,
                    ov_v := snd (ohubRotate (ohubSubjNeedsRotor (ag_nsubj (agents h ! pagent)) h) (qk_type q) v_len
                      (rd_bytes E buf 8 (nat v_len) @ drop (nat v_len) (ov_v (dt_val d))))\<rparr>\<rparr>) h)))"

section \<open>Cancelling and address changes\<close>

definition cancel_data :: "env \<Rightarrow> nat \<Rightarrow> 'a hubdata_scheme \<Rightarrow> 'a hubdata_scheme" where
  "cancel_data E no h =
     (if dt_write (data_chain h ! no) then snd (ohubCompleteWriteReply E no (-1) h)
      else snd (ohubCompleteReadReply E no (-1) h))"

definition ohubCancelAgentData :: "env \<Rightarrow> nat \<Rightarrow> 'a hubdata_scheme \<Rightarrow> 'a hubdata_scheme" where
  "ohubCancelAgentData E a h =
     fold (\<lambda>no h. if dt_busy (data_chain h ! no) \<and> dt_agent (data_chain h ! no) = Some a
                  then cancel_data E no h else h) [0..<length (data_chain h)] h"

definition cancel_watch_data :: "nat \<Rightarrow> nat \<Rightarrow> 'a hubdata_scheme \<Rightarrow> 'a hubdata_scheme" where
  "cancel_watch_data w no h =
     (let d = data_chain h ! no in
      if dt_busy d \<and> dt_watch d = Some w then
        (if dt_securing d \<noteq> 0 \<and> \<not> data_agent_off d h \<and> data_nsubj d h \<noteq> None
         then upd_data no (\<lambda>d. d\<lparr>dt_securing := -1\<rparr>) h
         else ohubDeallocateData no h)
      else h)"

definition ohubCancelWatchData :: "nat \<Rightarrow> 'a hubdata_scheme \<Rightarrow> 'a hubdata_scheme" where
  "ohubCancelWatchData w h = fold (cancel_watch_data w) [0..<length (data_chain h)] h"

definition update_data_address :: "env \<Rightarrow> int list \<Rightarrow> nat \<Rightarrow> 'a hubdata_scheme \<Rightarrow> 'a hubdata_scheme" where
  "update_data_address E mods no h =
     (let d = data_chain h ! no in
      if \<not> dt_busy d \<or> qk_obj_ikey (dt_quark d) \<notin> set mods then h
      else
        let h1 = upd_data no (\<lambda>d. d\<lparr>dt_quark := (dt_quark d)\<lparr>qk_phys_addr := quark_address (dt_quark d) h\<rparr>\<rparr>) h;
            h2 = set_fault (quark_address (dt_quark d) h \<noteq> -1 \<and> dt_agent d = None) h1
        in if quark_address (dt_quark d) h \<noteq> -1 \<and> \<not> data_agent_off d h2 then
             (if dt_write d then
                (case ohubSendSecureWriteRequest E no h2 of
                   (rc, h3) \<Rightarrow> if rc \<noteq> OK then snd (ohubCompleteWriteReply E no (-1) h3) else h3)
              else
                (case ohubSendReadRequest E no h2 of
                   (rc, h3) \<Rightarrow> if rc \<noteq> OK then snd (ohubCompleteReadReply E no (-1) h3) else h3))
           else h2)"

definition ohubUpdateDataAddresses :: "env \<Rightarrow> int list \<Rightarrow> 'a hubdata_scheme \<Rightarrow> 'a hubdata_scheme" where
  "ohubUpdateDataAddresses E mods h = fold (update_data_address E mods) [0..<length (data_chain h)] h"

definition ohubExitData :: "env \<Rightarrow> 'a hubdata_scheme \<Rightarrow> 'a hubdata_scheme" where
  "ohubExitData E h = (fold (cancel_data E) [0..<length (data_chain h)] h)
     \<lparr>data_chain := [], data_chain_len := 0, write_securing_qty := 0\<rparr>"

definition ohubInitData :: "env \<Rightarrow> 'a hubdata_scheme \<Rightarrow> oret \<times> 'a hubdata_scheme" where
  "ohubInitData E h = (OK, (ohubExitData E h)\<lparr>next_data_id := word_of_int (env_now E)\<rparr>)"

end
