(* ===== verification/Subject.thy ===== *)
theory Subject
  imports Data
begin

text \<open>
  hub-subject.c: the states of agents and subjects, the segment tables agents report, the
  list of subjects sent to watchers, and the watchers that wait for a subject they triggered.
\<close>

section \<open>State changes\<close>

definition UNDEFINED_STATE :: bytes where "UNDEFINED_STATE = bstr ''???????''"
definition OHUB_TRIGGER_TIMEOUT_MS :: int where "OHUB_TRIGGER_TIMEOUT_MS = 240"

definition subject_mods :: "nat \<Rightarrow> 'a hubdom_scheme \<Rightarrow> nat list" where
  "subject_mods s h = filter (\<lambda>i. mo_subject (modules h ! i) = s) [0..<length (modules h)]"

text \<open>The second component is \<open>*changed_p\<close>.\<close>

definition ohubSetSubjectStateByRef ::
  "env \<Rightarrow> nat \<Rightarrow> bytes \<Rightarrow> bool \<times> 'a hubdata_scheme \<Rightarrow> bool \<times> 'a hubdata_scheme" where
  "ohubSetSubjectStateByRef E s state = (\<lambda>(changed, h).
     if sb_state (subjects h ! s) = state then (changed, h)
     else
       let h1 = upd_subject s (\<lambda>x. x\<lparr>sb_state := state\<rparr>) h;
           is_off = (state = []);
           mods = subject_mods s h1;
           h2 = set_fault (mods \<noteq> [] \<and> \<not> env_alloc E (4 * length (modules h1))) h1;
           h3 = (if is_off then fold (\<lambda>i. upd_module i (\<lambda>m. m\<lparr>mo_segment_addr := replicate SEG_MAX_NO (-1)\<rparr>)) mods h2
                 else h2);
           h4 = snd (ohubRegisterMsgNode E None (Some s) (if is_off then MSGNODE_REMOVE else MSGNODE_ADD)
                       (sb_name (subjects h3 ! s)) h3);
           h5 = ohubUpdateMonAddresses (map int mods) h4;
           h6 = ohubUpdateDataAddresses E (map int mods) h5
       in (True, h6))"

section \<open>The list of subjects\<close>

text \<open>
  \<open>ohubSendSubjects\<close> fills a buffer of 256 bytes; None when it is too small or there are more
  than 80 subjects. The count in byte 1 is filled in at the end.
\<close>

definition avail_char :: "avail \<Rightarrow> byte" where
  "avail_char a = (case a of AVAIL_OFF \<Rightarrow> 48 | AVAIL_TEMP \<Rightarrow> 84 | AVAIL_PERM \<Rightarrow> 80)"

fun pack_subjects :: "subject list \<Rightarrow> agent list \<Rightarrow> nat \<times> bytes \<Rightarrow> (nat \<times> bytes) option" where
  "pack_subjects [] ags (k, buf) = Some (k, buf)"
| "pack_subjects (sb # sbs) ags (k, buf) =
     (if \<not> ag_enable (ags ! sb_agent sb) then pack_subjects sbs ags (k, buf)
      else if length buf + length (sb_name sb) + 4 > 256 then None
      else
        let b1 = buf @ [of_nat (length (sb_name sb) + 40)] @ sb_name sb @ [47, avail_char (sb_avail sb), 61]
        in if length b1 + length (sb_state sb) + 4 > 256 then None
           else
             let b2 = b1 @ [of_nat (length (sb_state sb) + 40)] @ sb_state sb @ [59]
             in if Suc k > 80 then None else pack_subjects sbs ags (Suc k, b2))"

definition ohubSendSubjects :: "env \<Rightarrow> nat option \<Rightarrow> bool \<Rightarrow> 'a hubdom_scheme \<Rightarrow> oret \<times> 'a hubdom_scheme" where
  "ohubSendSubjects E pnwatch initial h =
     (case pack_subjects (subjects h) (agents h) (0, [of_nat ((if initial then 1 else 0) + 40), 46]) of
        None \<Rightarrow> (ERROR, h)
      | Some (k, buf) \<Rightarrow>
          let msg = buf[1 := of_nat (k + 40)]
          in ohubWatchSendPacket E pnwatch OLANG_DATA OLANG_SUBJECTS (int (length msg)) (Some msg) h)"

section \<open>Agent state\<close>

definition trigger_reply :: "u32 \<Rightarrow> int \<Rightarrow> bytes" where
  "trigger_reply op err = st32 (OHTONL op) @ st16 (OHTONS err)"

text \<open>
  Answering the waiters of one subject when its agent comes on. As in the code the waiter
  keeps its \<open>pnwatch\<close>.
\<close>

fun answer_waiters :: "env \<Rightarrow> nat \<Rightarrow> nat list \<Rightarrow> 'a hubdom_scheme \<Rightarrow> 'a hubdom_scheme" where
  "answer_waiters E s [] h = h"
| "answer_waiters E s (j # js) h =
     (let w = sb_waiters (subjects h ! s) ! j in
      case wt_watch w of
        None \<Rightarrow> answer_waiters E s js h
      | Some i \<Rightarrow>
          let h1 = snd (ohubWatchSendPacket E (Some i) OLANG_DATA OLANG_TRIGGER_REPLY 6
                     (Some (trigger_reply (wt_op w) 0)) h);
              h2 = upd_subject s (\<lambda>x. x\<lparr>sb_waiters_qty := sb_waiters_qty x - 1\<rparr>)
                     (h1\<lparr>waiters_qty := waiters_qty h1 - 1\<rparr>)
          in answer_waiters E s js h2)"

definition clamp_waiters :: "nat \<Rightarrow> 'a hubdom_scheme \<Rightarrow> 'a hubdom_scheme" where
  "clamp_waiters s h = upd_subject s (\<lambda>x. x\<lparr>sb_waiters_qty := max 0 (sb_waiters_qty x)\<rparr>) h"

definition answer_subject :: "env \<Rightarrow> nat \<Rightarrow> nat \<Rightarrow> 'a hubdom_scheme \<Rightarrow> 'a hubdom_scheme" where
  "answer_subject E a s h =
     (if sb_agent (subjects h ! s) \<noteq> a then h
      else
        let h1 = clamp_waiters s h in
        if sb_waiters_qty (subjects h1 ! s) = 0 then h1
        else answer_waiters E s [0..<OHUB_MAX_SUBJECT_WAITERS] h1)"

definition ohubSetAgentState :: "env \<Rightarrow> nat \<Rightarrow> bytes \<Rightarrow> 'a hubdata_scheme \<Rightarrow> oret \<times> 'a hubdata_scheme" where
  "ohubSetAgentState E a state h =
     (let is_undef = (state = UNDEFINED_STATE); is_off = (state = []);
          is_on = (\<not> is_undef \<and> \<not> is_off)
      in if state = ag_state (agents h ! a) \<and> \<not> is_undef then (OK, h)
         else
           let h1 = (if is_undef then upd_agent a (\<lambda>x. x\<lparr>ag_state := UNDEFINED_STATE\<rparr>) h
                     else if is_off then
                       upd_agent a (\<lambda>x. x\<lparr>ag_reg_count := 0, ag_write_count := 0\<rparr>)
                         (ohubCancelAgentData E a (upd_agent a (\<lambda>x. x\<lparr>ag_state := []\<rparr>) h))
                     else upd_agent a (\<lambda>x. x\<lparr>ag_state := bstr ''ON'', ag_reg_count := 0, ag_write_count := 0\<rparr>) h);
               (changed, h2) = (if is_on then (False, h1)
                 else fold (\<lambda>s (c, h).
                        if sb_agent (subjects h ! s) = a then
                          (if is_undef then (c, upd_subject s (\<lambda>x. x\<lparr>sb_state := UNDEFINED_STATE\<rparr>) h)
                           else ohubSetSubjectStateByRef E s [] (c, h))
                        else (c, h)) [0..<length (subjects h1)] (False, h1));
               h3 = (if changed then snd (ohubSendSubjects E None False h2) else h2);
               h4 = (if is_on \<and> waiters_qty h3 > 0
                     then fold (answer_subject E a) [0..<length (subjects h3)] h3 else h3)
           in (OK, h4))"

section \<open>Segments\<close>

text \<open>First pass: the packet is well formed. The result is the position behind a part.\<close>

fun check_segs :: "int \<Rightarrow> nat \<Rightarrow> nat \<Rightarrow> nat option" where
  "check_segs len 0 p = Some p"
| "check_segs len (Suc k) p = (if int (p + 5) > len then None else check_segs len k (p + 5))"

fun check_mods :: "env \<Rightarrow> int \<Rightarrow> bytes \<Rightarrow> nat \<Rightarrow> nat \<Rightarrow> nat option" where
  "check_mods E len buf 0 p = Some p"
| "check_mods E len buf (Suc j) p =
     (let q = sint (rd E buf p) in
      if q \<ge> int OHUB_MAX_NAME \<or> q \<le> 0 \<or> int (p + 1) + q > len then None
      else
        let p1 = p + 1 + nat q; nk = sint (rd E buf p1) in
        if nk < 0 then None
        else case check_segs len (nat nk) (p1 + 1) of
          None \<Rightarrow> None
        | Some p2 \<Rightarrow> check_mods E len buf j p2)"

fun check_subjs :: "env \<Rightarrow> int \<Rightarrow> bytes \<Rightarrow> nat \<Rightarrow> nat \<Rightarrow> nat option" where
  "check_subjs E len buf 0 p = Some p"
| "check_subjs E len buf (Suc i) p =
     (let q = sint (rd E buf p) in
      if q \<ge> int OHUB_MAX_NAME \<or> q \<le> 0 \<or> int (p + 1) + q > len then None
      else
        let p1 = p + 1 + nat q; nj = sint (rd E buf p1) in
        if nj < 0 then None
        else case check_mods E len buf (nat nj) (p1 + 1) of
          None \<Rightarrow> None
        | Some p2 \<Rightarrow> check_subjs E len buf i p2)"

definition segments_valid :: "env \<Rightarrow> int \<Rightarrow> bytes \<Rightarrow> bool" where
  "segments_valid E len buf =
     (let f = sint (rd E buf 0); ni = sint (rd E buf 1) in
      0 \<le> f \<and> f \<le> 1 \<and> 0 \<le> ni \<and>
      (case check_subjs E len buf (nat ni) 2 of
         None \<Rightarrow> False
       | Some p \<Rightarrow> rd E buf p = 0 \<and> int (p + 1) = len))"

definition rd_name :: "env \<Rightarrow> bytes \<Rightarrow> nat \<Rightarrow> nat \<Rightarrow> bytes" where
  "rd_name E buf p n = takeWhile (\<lambda>c. c \<noteq> 0) (rd_bytes E buf p n)"

definition find_subject :: "nat \<Rightarrow> bytes \<Rightarrow> 'a hubdom_scheme \<Rightarrow> nat option" where
  "find_subject a name h =
     find (\<lambda>m. sb_agent (subjects h ! m) = a \<and> sb_name (subjects h ! m) = name) [0..<length (subjects h)]"

definition find_module :: "nat option \<Rightarrow> bytes \<Rightarrow> 'a hubdom_scheme \<Rightarrow> nat option" where
  "find_module s name h =
     (let look = (\<lambda>nm. find (\<lambda>m. Some (mo_subject (modules h ! m)) = s \<and> mo_nick_name (modules h ! m) = nm)
                     [0..<length (modules h)]);
          l = length name
      in if s = None then None
         else case look name of
           Some m \<Rightarrow> Some m
         | None \<Rightarrow> (if l > 2 \<and> drop (l - 2) name = [46, 111] then look (take (l - 2) name) else None))"

fun apply_segs :: "env \<Rightarrow> bytes \<Rightarrow> nat option \<Rightarrow> nat \<Rightarrow> nat \<Rightarrow> 'a hubdom_scheme \<Rightarrow> 'a hubdom_scheme" where
  "apply_segs E buf pmod 0 p h = h"
| "apply_segs E buf pmod (Suc k) p h =
     (let c = rd E buf p; addr = ONTOHL (ld32 E buf (p + 1));
          h1 = (case pmod of
                  None \<Rightarrow> h
                | Some m \<Rightarrow>
                    (if SEG_IS_VALID c
                     then upd_module m (\<lambda>x. x\<lparr>mo_segment_addr := (mo_segment_addr x)[SEG_NAME_2_NO c := addr]\<rparr>) h
                     else h))
      in apply_segs E buf pmod k (p + 5) h1)"

fun apply_mods :: "env \<Rightarrow> bytes \<Rightarrow> nat option \<Rightarrow> nat \<Rightarrow> nat \<Rightarrow> 'a hubdom_scheme \<Rightarrow> nat \<times> 'a hubdom_scheme" where
  "apply_mods E buf psub 0 p h = (p, h)"
| "apply_mods E buf psub (Suc j) p h =
     (let q = unat (rd E buf p);
          pmod = find_module psub (rd_name E buf (p + 1) q) h;
          p1 = p + 1 + q;
          nk = unat (rd E buf p1)
      in apply_mods E buf psub j (p1 + 1 + 5 * nk) (apply_segs E buf pmod nk (p1 + 1) h))"

fun apply_subjs ::
  "env \<Rightarrow> bytes \<Rightarrow> nat \<Rightarrow> nat \<Rightarrow> nat \<Rightarrow> bool \<times> 'a hubdata_scheme \<Rightarrow> bool \<times> 'a hubdata_scheme" where
  "apply_subjs E buf a 0 p (c, h) = (c, h)"
| "apply_subjs E buf a (Suc i) p (c, h) =
     (let q = unat (rd E buf p);
          name = rd_name E buf (p + 1) q;
          psub = find_subject a name h;
          p1 = p + 1 + q;
          nj = unat (rd E buf p1);
          (p2, h1) = apply_mods E buf psub nj (p1 + 1) h
      in apply_subjs E buf a i p2
           (case psub of None \<Rightarrow> (c, h1) | Some s \<Rightarrow> ohubSetSubjectStateByRef E s name (c, h1)))"

definition ohubHandleSegments ::
  "env \<Rightarrow> nat \<Rightarrow> int \<Rightarrow> int \<Rightarrow> int \<Rightarrow> bytes \<Rightarrow> 'a hubdata_scheme \<Rightarrow> oret \<times> 'a hubdata_scheme" where
  "ohubHandleSegments E a kind type len buf h =
     (if \<not> segments_valid E len buf then (ERROR, h)
      else
        let h1 = (if rd E buf 0 \<noteq> 0 then snd (ohubSetAgentState E a UNDEFINED_STATE h) else h);
            (c2, h2) = apply_subjs E buf a (unat (rd E buf 1)) 2 (False, h1);
            (c3, h3) = fold (\<lambda>s (c, h).
                if sb_agent (subjects h ! s) = a \<and> sb_state (subjects h ! s) = UNDEFINED_STATE
                then ohubSetSubjectStateByRef E s [] (c, h) else (c, h)) [0..<length (subjects h2)] (c2, h2)
        in (OK, if c3 then snd (ohubSendSubjects E None False h3) else h3))"

section \<open>Triggers\<close>

definition trigger_error ::
  "env \<Rightarrow> nat \<Rightarrow> u32 \<Rightarrow> int \<Rightarrow> 'a hubnet_scheme \<Rightarrow> oret \<times> 'a hubnet_scheme" where
  "trigger_error E w ulv err h =
     (ERROR, snd (ohubWatchSendPacket E (Some w) OLANG_DATA OLANG_TRIGGER_REPLY 6
               (Some (st32 ulv @ st16 (OHTONS err))) h))"

definition ohubHandleTriggerSubject ::
  "env \<Rightarrow> nat \<Rightarrow> int \<Rightarrow> int \<Rightarrow> int \<Rightarrow> bytes \<Rightarrow> 'a hubdom_scheme \<Rightarrow> oret \<times> 'a hubdom_scheme" where
  "ohubHandleTriggerSubject E w kind type len buf h =
     (if len < 5 \<or> len > int OHUB_MAX_NAME then (ERROR, h)
      else
        let ulv = ld32 E buf 0; name = rd_name E buf 4 (nat (len - 4)) in
        case find (\<lambda>s. sb_name (subjects h ! s) = name) [0..<length (subjects h)] of
          None \<Rightarrow> trigger_error E w ulv 1 h
        | Some s \<Rightarrow>
            let sb = subjects h ! s in
            if sb_state sb \<noteq> [] then trigger_error E w ulv 0 h
            else case ag_nsubj (agents h ! sb_agent sb) of
              None \<Rightarrow> trigger_error E w ulv 3 h
            | Some ns \<Rightarrow>
                (case ohubSubjTrigger E ns h of (rc, h1) \<Rightarrow>
                  if rc \<noteq> OK then trigger_error E w ulv 3 h1
                  else if sb_waiters_qty sb \<ge> int OHUB_MAX_SUBJECT_WAITERS then trigger_error E w ulv 3 h1
                  else case find (\<lambda>j. wt_watch (sb_waiters sb ! j) = None) [0..<OHUB_MAX_SUBJECT_WAITERS] of
                    None \<Rightarrow> trigger_error E w ulv 3 h1
                  | Some j \<Rightarrow>
                      (OK, (upd_subject s (\<lambda>x. x\<lparr>sb_waiters := (sb_waiters x)[j := \<lparr>wt_watch = Some w,
                               wt_op = OUNTOHL ulv, wt_watchdog = env_now E + OHUB_TRIGGER_TIMEOUT_MS\<rparr>],
                             sb_waiters_qty := sb_waiters_qty x + 1\<rparr>) h1)\<lparr>waiters_qty := waiters_qty h1 + 1\<rparr>)))"

definition clear_waiter :: "nat \<Rightarrow> nat \<Rightarrow> 'a hubdom_scheme \<Rightarrow> 'a hubdom_scheme" where
  "clear_waiter s j h =
     (upd_subject s (\<lambda>x. x\<lparr>sb_waiters := (sb_waiters x)[j := (sb_waiters x ! j)\<lparr>wt_watch := None, wt_watchdog := 0\<rparr>],
        sb_waiters_qty := sb_waiters_qty x - 1\<rparr>) h)\<lparr>waiters_qty := waiters_qty h - 1\<rparr>"

fun clear_loop :: "nat \<Rightarrow> nat \<Rightarrow> nat list \<Rightarrow> 'a hubdom_scheme \<Rightarrow> 'a hubdom_scheme" where
  "clear_loop w s [] h = h"
| "clear_loop w s (j # js) h =
     (if wt_watch (sb_waiters (subjects h ! s) ! j) \<noteq> Some w then clear_loop w s js h
      else
        let h1 = clear_waiter s j h
        in if sb_waiters_qty (subjects h1 ! s) \<le> 0 then h1 else clear_loop w s js h1)"

fun clear_subjects :: "nat \<Rightarrow> nat list \<Rightarrow> 'a hubdom_scheme \<Rightarrow> 'a hubdom_scheme" where
  "clear_subjects w [] h = h"
| "clear_subjects w (s # ss) h =
     (let h1 = clamp_waiters s h in
      if sb_waiters_qty (subjects h1 ! s) = 0 then clear_subjects w ss h1
      else
        let h2 = clear_loop w s [0..<OHUB_MAX_SUBJECT_WAITERS] h1
        in if waiters_qty h2 \<le> 0 then h2 else clear_subjects w ss h2)"

definition ohubClearSubjectWaiters :: "nat option \<Rightarrow> 'a hubdom_scheme \<Rightarrow> 'a hubdom_scheme" where
  "ohubClearSubjectWaiters pnwatch h =
     (case pnwatch of
        Some w \<Rightarrow> clear_subjects w [0..<length (subjects h)] h
      | None \<Rightarrow> h\<lparr>subjects := map (\<lambda>x. x\<lparr>sb_waiters := replicate OHUB_MAX_SUBJECT_WAITERS
                   \<lparr>wt_watch = None, wt_op = 0, wt_watchdog = 0\<rparr>, sb_waiters_qty := 0\<rparr>) (subjects h),
                 waiters_qty := 0\<rparr>)"

fun timeout_loop :: "env \<Rightarrow> nat \<Rightarrow> nat list \<Rightarrow> 'a hubdom_scheme \<Rightarrow> 'a hubdom_scheme" where
  "timeout_loop E s [] h = h"
| "timeout_loop E s (j # js) h =
     (let w = sb_waiters (subjects h ! s) ! j in
      case wt_watch w of
        None \<Rightarrow> timeout_loop E s js h
      | Some i \<Rightarrow>
          (if env_now E - wt_watchdog w < 0 then timeout_loop E s js h
           else
             let h1 = clear_waiter s j (snd (ohubWatchSendPacket E (Some i) OLANG_DATA OLANG_TRIGGER_REPLY 6
                        (Some (trigger_reply (wt_op w) 2)) h))
             in if sb_waiters_qty (subjects h1 ! s) \<le> 0 then h1 else timeout_loop E s js h1))"

fun timeout_subjects :: "env \<Rightarrow> nat list \<Rightarrow> 'a hubdom_scheme \<Rightarrow> 'a hubdom_scheme" where
  "timeout_subjects E [] h = h"
| "timeout_subjects E (s # ss) h =
     (let h1 = clamp_waiters s h in
      if sb_waiters_qty (subjects h1 ! s) = 0 then timeout_subjects E ss h1
      else
        let h2 = timeout_loop E s [0..<OHUB_MAX_SUBJECT_WAITERS] h1
        in if waiters_qty h2 \<le> 0 then h2 else timeout_subjects E ss h2)"

definition ohubHandleTriggerTimeouts :: "env \<Rightarrow> 'a hubdom_scheme \<Rightarrow> 'a hubdom_scheme" where
  "ohubHandleTriggerTimeouts E h =
     (if waiters_qty h \<le> 0 then h else timeout_subjects E [0..<length (subjects h)] h)"

end
