(* ===== verification/Conn.thy ===== *)
theory Conn
  imports Subject
begin

text \<open>
  The life of a connection, where hub-watch.c and hub-subj.c call the other components: close
  and open, the protocol handlers, the dispatch of packets (hub-proper.c) and the loops that
  read streams and datagrams.
\<close>

section \<open>State\<close>

text \<open>
  The rest of the hub: its description, the port of the agents' control socket, and the
  times at which the two networks are enabled.
\<close>

record hub = hubdata +
  hub_desc :: bytes
  subj_cntl_port :: u16
  subj_start :: int
  watchers_start :: int

section \<open>Closing\<close>

definition ohubWatchClose :: "env \<Rightarrow> nat \<Rightarrow> 'a hubdata_scheme \<Rightarrow> 'a hubdata_scheme" where
  "ohubWatchClose E i h =
     (let h1 = (if data_sock (watchers h ! i) > 0 then
                  let ha = snd (ohubMonRemoveWatch E i h);
                      hb = ohubCancelWatchData i ha;
                      hc = ohubClearSubjectWaiters (Some i) hb
                  in snd (ohubRegisterMsgNode E (Some i) None MSGNODE_REMOVE (watch_desc (watchers hc ! i)) hc)
                else h)
      in upd_watch i watch_reset h1)"

definition ohubWatchersShutdownNetwork :: "env \<Rightarrow> 'a hubdata_scheme \<Rightarrow> 'a hubdata_scheme" where
  "ohubWatchersShutdownNetwork E h =
     (if watchers h \<noteq> [] then fold (ohubWatchClose E) [0..<OHUB_MAX_WATCH] h else h)\<lparr>watchers := []\<rparr>"

definition subj_clear :: "netsubj \<Rightarrow> netsubj" where
  "subj_clear s = s\<lparr>q_buf := map (\<lambda>i. if i < q_len s then no_packet else q_buf s ! i) [0..<length (q_buf s)],
     q_rd := 0, q_wr := 0, q_len := 0,
     hdr_off := 0, reget_buf := None, reget_len := -1, reget_off := -1, reget_type := -1,
     reput_buf := None, reput_len := -1, reput_type := -1, unreg_accum := no_unreg,
     data_sock := 0, p_state := ST_WAIT\<rparr>"

definition notify_agent :: "env \<Rightarrow> nat option \<Rightarrow> bytes \<Rightarrow> 'a hubdata_scheme \<Rightarrow> 'a hubdata_scheme" where
  "notify_agent E a state h = (case a of None \<Rightarrow> h | Some i \<Rightarrow> snd (ohubSetAgentState E i state h))"

definition ohubSubjDisconnect :: "env \<Rightarrow> nat \<Rightarrow> 'a hubdata_scheme \<Rightarrow> 'a hubdata_scheme" where
  "ohubSubjDisconnect E i h =
     (let h1 = notify_agent E (ns_agent (subjs h ! i)) [] h;
          h2 = upd_subj i subj_clear h1
      in notify_agent E (ns_agent (subjs h2 ! i)) [] h2)"

definition ohubSubjClose :: "env \<Rightarrow> nat \<Rightarrow> 'a hubdata_scheme \<Rightarrow> 'a hubdata_scheme" where
  "ohubSubjClose E i h =
     upd_subj i (\<lambda>s. s\<lparr>q_buf := [], q_size := 0, p_url := [], cntl_addr := no_addr, data_addr := no_addr,
         cmnd_addr := no_addr, ping_cur_ms := 0, ping_wd := 0, alive_get_wd := 0, alive_put_wd := 0,
         p_state := ST_NONE, p_id := 0, ns_agent := None, needs_rotor := False\<rparr>)
       (ohubSubjDisconnect E i h)"

definition ohubSubjShutdownNetwork :: "env \<Rightarrow> 'a hubdata_scheme \<Rightarrow> 'a hubdata_scheme" where
  "ohubSubjShutdownNetwork E h0 =
     (let h = h0\<lparr>subjs_enable := False\<rparr> in
      (if subjs h \<noteq> [] then fold (ohubSubjClose E) [0..<OHUB_MAX_SUBJ] h else h)\<lparr>subjs := []\<rparr>)"

section \<open>Opening\<close>

text \<open>\<open>atoi\<close>: white space, a sign, decimal digits.\<close>

definition c_atoi :: "bytes \<Rightarrow> int" where
  "c_atoi s =
     (let t = dropWhile (\<lambda>c. c = 32 \<or> (9 \<le> c \<and> c \<le> 13)) s;
          neg = (t \<noteq> [] \<and> hd t = 45);
          u = (if t \<noteq> [] \<and> (hd t = 45 \<or> hd t = 43) then tl t else t);
          v = digits_value (takeWhile is_digit u)
      in if neg then - v else v)"

text \<open>Host and port of an agent's URL; None when it is invalid.\<close>

definition parse_url :: "bytes \<Rightarrow> (bytes \<times> int) option" where
  "parse_url url =
     (let s = dropWhile (\<lambda>c. c = 32) url;
          s1 = (if c_strncmp s (bstr ''olang://'') 8 = 0 then drop 8 s else s);
          host = takeWhile (\<lambda>c. c \<noteq> 58) s1;
          rest = drop (length host) s1;
          port = (if length rest > 1 then c_atoi (tl rest) else 0)
      in if length host \<ge> OHUB_MAX_NAME \<or> host = [] then None
         else if port < 0 \<or> port > 65534 then None
         else Some (host, if port = 0 then OLANG_SUBJ_PORT else port))"

text \<open>
  \<open>ohubSubjOpen\<close>. Name resolution is not code of the repository: the address of a host, if
  any, is an argument.
\<close>

definition ohubSubjOpen ::
  "env \<Rightarrow> (bytes \<Rightarrow> u32 option) \<Rightarrow> bytes \<Rightarrow> nat option \<Rightarrow> 'a hubdata_scheme \<Rightarrow> nat option \<times> 'a hubdata_scheme" where
  "ohubSubjOpen E resolve url pagent h =
     (if url = [] \<or> subjs h = [] then (None, h)
      else case find_idle [1..<OHUB_MAX_SUBJ] (subjs h) of
        None \<Rightarrow> (None, h)
      | Some i \<Rightarrow>
          let size = subj_q_size h;
              bad = (\<lambda>h. (None, ohubSubjClose E i h));
              h1 = upd_subj i (\<lambda>s. s\<lparr>q_size := size, q_buf := []\<rparr>) h
          in if size = 0 \<or> \<not> env_alloc E (12 * size) then bad h1
             else
               let h2 = upd_subj i (\<lambda>s. s\<lparr>q_buf := replicate size no_packet, q_len := 0, q_rd := 0, q_wr := 0,
                          p_url := url\<rparr>) h1
               in case parse_url url of
                    None \<Rightarrow> bad h2
                  | Some (host, port) \<Rightarrow>
                      (case resolve host of
                         None \<Rightarrow> bad h2
                       | Some ip \<Rightarrow>
                           let adr = (\<lambda>p. \<lparr>sin_addr = ip, sin_port = OHTONS p\<rparr>);
                               nid = bump_id (next_subj_id h2)
                           in (Some i, upd_subj i (\<lambda>s. (clear_streams s)\<lparr>cntl_addr := adr port, data_addr := adr (port + 1),
                                 cmnd_addr := adr (port + 1), unreg_accum := no_unreg, p_state := ST_WAIT,
                                 p_id := make_id i nid, data_sock := 0, alive_get_wd := 0, alive_put_wd := 0,
                                 ping_cur_ms := OLANG_PING_MIN_MS, ping_wd := 0, ns_agent := pagent,
                                 needs_rotor := False\<rparr>) (h2\<lparr>next_subj_id := nid\<rparr>))))"

text \<open>The dotted text of an address and a port, for the URL of a watcher.\<close>

fun dec :: "nat \<Rightarrow> bytes" where
  "dec n = (if n < 10 then [of_nat (48 + n)] else dec (n div 10) @ [of_nat (48 + n mod 10)])"

declare dec.simps [simp del]

definition inet_ntoa :: "u32 \<Rightarrow> bytes" where
  "inet_ntoa a = (let b = (\<lambda>k. dec (unat (drop_bit k a AND 0xff))) in
     b 0 @ [46] @ b 8 @ [46] @ b 16 @ [46] @ b 24)"

definition addr_text :: "sockaddr \<Rightarrow> bytes" where
  "addr_text a = inet_ntoa (sin_addr a) @ [58] @ dec (unat (OROTS (sin_port a)))"

definition ohubWatchAcceptConnection ::
  "env \<Rightarrow> (int \<times> sockaddr) option \<Rightarrow> 'a hubnet_scheme \<Rightarrow> oret \<times> 'a hubnet_scheme" where
  "ohubWatchAcceptConnection E incoming h =
     (case incoming of
        None \<Rightarrow> (ERROR, h)
      | Some (sock, addr) \<Rightarrow>
          (case ohubWatchOpen E h of
             (None, h1) \<Rightarrow> (ERROR, h1)
           | (Some i, h1) \<Rightarrow>
               (OK, upd_watch i (\<lambda>w. w\<lparr>cntl_addr := addr\<lparr>sin_port := 0\<rparr>, data_sock := sock,
                      p_url := [60] @ addr_text addr @ [62], p_state := ST_OPEN,
                      alive_get_wd := env_now E, alive_put_wd := env_now E\<rparr>) h1)))"

section \<open>Packets from watchers\<close>

definition is_nl :: "byte \<Rightarrow> bool" where "is_nl c \<longleftrightarrow> c = 10 \<or> c = 0"

text \<open>
  \<open>ohubHandleRemoteLog\<close> only logs, but it writes a NUL behind the text, also when the packet
  is empty and has no buffer.
\<close>

definition ohubHandleRemoteLog :: "bytes option \<Rightarrow> 'a hubnet_scheme \<Rightarrow> oret \<times> 'a hubnet_scheme" where
  "ohubHandleRemoteLog buf h = (OK, set_fault (buf = None) h)"

text \<open>
  The packet types whose handlers read the data before they look at the length. An empty
  packet of a stream has a NULL buffer.
\<close>

definition null_read :: "int \<Rightarrow> bool" where
  "null_read type \<longleftrightarrow> type \<in> {OLANG_INFO_BY_DESC_REQ, OLANG_INFO_BY_OOID_REQ, OLANG_MON_COMBO_REQ,
     OLANG_MON_GROUP_REQ, OLANG_SEGMENTS, OLANG_DATA_MON_REPLY, OLANG_MONITORING, OLANG_SEL_MONITORING}"

definition ohubWatchHandleIncoming ::
  "env \<Rightarrow> nat \<Rightarrow> int \<Rightarrow> int \<Rightarrow> int \<Rightarrow> bytes option \<Rightarrow> 'a hubdata_scheme \<Rightarrow> oret \<times> 'a hubdata_scheme" where
  "ohubWatchHandleIncoming E w kind type len buf h0 =
     (let h = set_fault (buf = None \<and> null_read type) h0; b = the_bytes buf in
      if type = OLANG_INFO_BY_DESC_REQ \<or> type = OLANG_INFO_BY_OOID_REQ then
        (OK, snd (ohubHandleInfoReq E w kind type len b h))
      else if type = OLANG_MON_REG_REQ \<or> type = OLANG_MON_UNREG_REQ then
        (OK, snd (ohubHandleMonRegistration E w kind type len b h))
      else if type = OLANG_MON_COMBO_REQ then (OK, snd (ohubHandleMonComboRequest E w kind type len b h))
      else if type = OLANG_MON_GROUP_REQ then (OK, snd (ohubHandleMonGroupReq E w kind type len b h))
      else if type = OLANG_OOID_WRITE_REQ then (OK, snd (ohubHandleOoidWrite E w kind type len b h))
      else if type = OLANG_OOID_READ_REQ then (OK, snd (ohubHandleOoidRead E w kind type len b h))
      else if type = OLANG_TRIGGER_REQUEST then (OK, snd (ohubHandleTriggerSubject E w kind type len b h))
      else if type = OLANG_MSG_CLASS_ACT then
        (OK, snd (ohubHandleMsgClassAct E (Some w) None kind type len b h))
      else if type = OLANG_MSG_SEND_REQ then
        (OK, snd (ohubHandleMsgSend E (Some w) None kind type len b h))
      else if type = OLANG_MSG_HIMARK \<or> type = OLANG_MSG_LOMARK then
        (OK, snd (ohubHandleMsgWaterMark E (Some w) None kind type len b h))
      else if type = OLANG_REMOTE_LOG then (OK, snd (ohubHandleRemoteLog buf h))
      else (ERROR, h))"

text \<open>
  The connection request: version, control port, magic number, length and text of the
  description. The length byte is compared with the packet only, so a long description is
  copied past the end of \<open>watch_desc\<close>.
\<close>

definition ohubWatchConnect ::
  "env \<Rightarrow> nat \<Rightarrow> int \<Rightarrow> int \<Rightarrow> int \<Rightarrow> bytes option \<Rightarrow> 'a hubdata_scheme \<Rightarrow> oret \<times> 'a hubdata_scheme" where
  "ohubWatchConnect E w kind type len pbuf h0 =
     (let h = set_fault (pbuf = None) h0; buf = the_bytes pbuf;
          n = unat (rd E buf 8);
          version = OUNTOHS (ld16 E buf 0);
          magic = (if len < 10 \<or> len \<noteq> int (9 + n) \<or> version \<noteq> OLANG_VERSION then 0 else ld32 E buf 4);
          h1 = upd_watch w (\<lambda>x. x\<lparr>nw_version := version\<rparr>) h
      in if magic \<noteq> OLANG_MAGIC \<and> magic \<noteq> OROTL OLANG_MAGIC
         then (OK, upd_watch w (\<lambda>x. x\<lparr>p_state := ST_EXIT\<rparr>) h1)
         else
           let desc = takeWhile (\<lambda>c. c \<noteq> 0) (rd_bytes E buf 9 n);
               h2 = set_fault (n + 1 > OHUB_MAX_PATH)
                      (upd_watch w (\<lambda>x. x\<lparr>needs_rotor := (magic \<noteq> OLANG_MAGIC),
                         cntl_addr := (cntl_addr x)\<lparr>sin_port := ld16 E buf 2\<rparr>, watch_desc := desc,
                         p_url := addr_text ((cntl_addr x)\<lparr>sin_port := ld16 E buf 2\<rparr>)\<rparr>) h1);
               h3 = snd (ohubSendSubjects E (Some w) True h2);
               h4 = snd (ohubWatchSendPacket E (Some w) OLANG_DATA OLANG_CONN_ACK 4 (Some (st32 OLANG_MAGIC)) h3);
               h5 = snd (ohubRegisterMsgNode E (Some w) None MSGNODE_ADD (watch_desc (watchers h4 ! w)) h4)
           in (OK, h5))"

text \<open>
  In BLOCK_ANNOUNCE the flag \<open>f\<close> is the result of the assignment, so it equals the new value
  and the test for a change never holds.
\<close>

definition ohubWatchHandleProtocol ::
  "env \<Rightarrow> nat \<Rightarrow> int \<Rightarrow> int \<Rightarrow> int \<Rightarrow> bytes option \<Rightarrow> 'a hubdata_scheme \<Rightarrow> oret \<times> 'a hubdata_scheme" where
  "ohubWatchHandleProtocol E w kind type len buf h =
     (if type = OLANG_PING_REQ then
        (if \<not> watchers_enable h then (OK, h)
         else
           let version = OUNTOHS (ld16 E (the_bytes buf) 0);
               h1 = upd_watch w (\<lambda>x. x\<lparr>nw_version := version\<rparr>) (set_fault (buf = None) h)
           in if version \<noteq> OLANG_VERSION then (OK, h1)
              else (OK, snd (ohubWatchSendPacket E (Some w) OLANG_CONTROL OLANG_PING_ACK 4
                     (Some (st16 (OHTONS version) @ st16 0)) h1)))
      else if type = OLANG_CONN_REQ then ohubWatchConnect E w kind type len buf h
      else if type = OLANG_ALIVE then (OK, h)
      else if type = OLANG_BLOCK_ANNOUNCE then
        let h1 = (if len > 0 then upd_watch w (\<lambda>x. x\<lparr>announce_blocked := (rd E (the_bytes buf) 0 \<noteq> 0)\<rparr>) h else h);
            f = (if len > 0 then rd E (the_bytes buf) 0 \<noteq> 0 else announce_blocked (watchers h1 ! w))
        in (OK, if announce_blocked (watchers h1 ! w) \<and> \<not> f \<and> len > 1 \<and> rd E (the_bytes buf) 1 \<noteq> 0
                then snd (ohubMonRenewWatch E w h1) else h1)
      else ohubWatchHandleIncoming E w kind type len buf h)"

section \<open>Packets from agents\<close>

text \<open>
  \<open>ohubAgentHandleIncoming\<close>. A datagram without identifier comes from no agent. The handlers
  do not expect that; the model reports a fault for every type whose handler works on the
  agent.
\<close>

definition null_agent :: "int \<Rightarrow> bool" where
  "null_agent type \<longleftrightarrow> type \<in> {OLANG_SEGMENTS, OLANG_DATA_REG_ACK, OLANG_DATA_REG_NAK, OLANG_DATA_MON_REPLY,
     OLANG_MONITORING, OLANG_SEL_MONITORING, OLANG_DATA_WRITE_REPLY, OLANG_DATA_READ_REPLY}"

definition ohubAgentHandleIncoming ::
  "env \<Rightarrow> nat option \<Rightarrow> int \<Rightarrow> int \<Rightarrow> int \<Rightarrow> bytes option \<Rightarrow> 'a hubdata_scheme \<Rightarrow> oret \<times> 'a hubdata_scheme" where
  "ohubAgentHandleIncoming E pagent kind type len buf h0 =
     (if pagent = None \<and> null_agent type then (ERROR, set_fault True h0)
      else
        let h = set_fault (buf = None \<and> null_read type) h0; b = the_bytes buf; a = the pagent in
        if type = OLANG_SEGMENTS then (OK, snd (ohubHandleSegments E a kind type len b h))
        else if type = OLANG_DATA_REG_ACK \<or> type = OLANG_DATA_REG_NAK then
          (OK, upd_agent a (\<lambda>x. x\<lparr>ag_reg_count := max 0 (ag_reg_count x - 1)\<rparr>) h)
        else if type = OLANG_DATA_UNREG_ACK \<or> type = OLANG_DATA_UNREG_NAK then (OK, h)
        else if type = OLANG_DATA_MON_REPLY then (OK, ohubHandleDataMonReply E a kind type len b h)
        else if type = OLANG_MONITORING \<or> type = OLANG_SEL_MONITORING then
          (OK, snd (ohubHandleMonitoring E kind type len b a h))
        else if type = OLANG_DATA_WRITE_REPLY then
          (OK, upd_agent a (\<lambda>x. x\<lparr>ag_write_count := max 0 (ag_write_count x - 1)\<rparr>)
                 (snd (ohubHandleDataWrite E a kind type len b h)))
        else if type = OLANG_DATA_READ_REPLY then (OK, snd (ohubHandleDataRead E a kind type len b h))
        else if type = OLANG_MSG_CLASS_ACT then
          (OK, snd (ohubHandleMsgClassAct E None pagent kind type len b h))
        else if type = OLANG_MSG_SEND_REQ then
          (OK, snd (ohubHandleMsgSend E None pagent kind type len b h))
        else if type = OLANG_MSG_HIMARK \<or> type = OLANG_MSG_LOMARK then
          (OK, snd (ohubHandleMsgWaterMark E None pagent kind type len b h))
        else if type = OLANG_REMOTE_LOG then (OK, snd (ohubHandleRemoteLog buf h))
        else (ERROR, h))"

definition ohubSubjHandlePingReply ::
  "env \<Rightarrow> nat \<Rightarrow> int \<Rightarrow> int \<Rightarrow> int \<Rightarrow> bytes \<Rightarrow> 'a hub_scheme \<Rightarrow> oret \<times> 'a hub_scheme" where
  "ohubSubjHandlePingReply E i kind type len data h =
     (if (type \<noteq> OLANG_PING_ACK \<and> type \<noteq> OLANG_PING_NAK) \<or> len \<noteq> 4 \<or> kind \<noteq> OLANG_CONTROL
         \<or> ld16 E data 0 \<noteq> OHTONS OLANG_VERSION then (ERROR, h)
      else if type = OLANG_PING_NAK then
        (OK, upd_subj i (\<lambda>s. s\<lparr>ping_cur_ms := OLANG_PING_MAX_MS\<rparr>) h)
      else
        let h1 = upd_subj i (\<lambda>s. s\<lparr>ping_cur_ms := OLANG_PING_MIN_MS\<rparr>) h in
        if p_state (subjs h1 ! i) = ST_OPEN then (OK, h1)
        else case env_connect E of
          SockFail \<Rightarrow> (ERROR, upd_subj i (\<lambda>s. s\<lparr>data_sock := 0\<rparr>) h1)
        | ConnFail \<Rightarrow> (ERROR, upd_subj i (\<lambda>s. s\<lparr>p_state := ST_WAIT, data_sock := 0\<rparr>) h1)
        | Connected sock \<Rightarrow>
            let n = length (hub_desc h1);
                buf = st16 (OHTONS OLANG_VERSION) @ st16 (subj_cntl_port h1) @ st32 OLANG_MAGIC
                      @ [of_nat n] @ hub_desc h1;
                h2 = upd_subj i (\<lambda>s. s\<lparr>data_sock := sock, p_state := ST_OPEN\<rparr>) h1;
                (rc, h3) = ohubSubjSendPacket E i OLANG_DATA OLANG_CONN_REQ (int (9 + n)) (Some buf) h2
            in if rc \<noteq> OK then (ERROR, upd_subj i (\<lambda>s. s\<lparr>p_state := ST_WAIT, data_sock := 0\<rparr>) h3)
               else (OK, upd_subj i (\<lambda>s. s\<lparr>alive_get_wd := env_now E, alive_put_wd := env_now E\<rparr>) h3))"

definition ohubSubjConnect ::
  "env \<Rightarrow> nat \<Rightarrow> int \<Rightarrow> int \<Rightarrow> int \<Rightarrow> bytes \<Rightarrow> 'a hubdata_scheme \<Rightarrow> oret \<times> 'a hubdata_scheme" where
  "ohubSubjConnect E i kind type len buf h =
     (let magic = (if len \<noteq> 4 then 0 else ld32 E buf 0) in
      if magic \<noteq> OLANG_MAGIC \<and> magic \<noteq> OROTL OLANG_MAGIC
      then (OK, upd_subj i (\<lambda>s. s\<lparr>p_state := ST_EXIT\<rparr>) h)
      else
        let h1 = upd_subj i (\<lambda>s. s\<lparr>needs_rotor := (magic \<noteq> OLANG_MAGIC)\<rparr>) h
        in (OK, notify_agent E (ns_agent (subjs h1 ! i)) (bstr ''ON'') h1))"

definition ohubSubjHandleProtocol ::
  "env \<Rightarrow> nat \<Rightarrow> int \<Rightarrow> int \<Rightarrow> int \<Rightarrow> bytes option \<Rightarrow> 'a hub_scheme \<Rightarrow> oret \<times> 'a hub_scheme" where
  "ohubSubjHandleProtocol E i kind type len buf h =
     (if type = OLANG_PING_ACK \<or> type = OLANG_PING_NAK then
        (OK, snd (ohubSubjHandlePingReply E i kind type len (the_bytes buf) h))
      else if type = OLANG_CONN_ACK then ohubSubjConnect E i kind type len (the_bytes buf) h
      else if type = OLANG_CONN_NAK then
        (let h1 = upd_subj i (\<lambda>s. s\<lparr>p_state := ST_EXIT\<rparr>) h
         in (OK, notify_agent E (ns_agent (subjs h1 ! i)) [] h1))
      else if type = OLANG_ALIVE then (OK, h)
      else ohubAgentHandleIncoming E (ns_agent (subjs h ! i)) kind type len buf h)"

section \<open>Reading streams\<close>

text \<open>
  The loops over the packets of a stream. Arguments: is it the first turn, has the peer closed
  its end, the bytes in the kernel. The result is what stays in the kernel and the new state.
\<close>

function ohubWatchReceiveStream ::
  "env \<Rightarrow> nat \<Rightarrow> bool \<Rightarrow> bool \<Rightarrow> bytes \<Rightarrow> 'a hubdata_scheme \<Rightarrow> bytes \<times> 'a hubdata_scheme" where
  "ohubWatchReceiveStream E i first_pass eof rx h =
     (case ReceiveStep E first_pass eof rx (watchers h ! i) of
        (False, rx1, w) \<Rightarrow> (rx1, upd_watch i (\<lambda>_. recv_end w) h)
      | (True, rx1, w) \<Rightarrow>
          let h1 = upd_watch i (\<lambda>_. w) h;
              h2 = snd (ohubWatchHandleProtocol E i OLANG_DATA (reget_type w) (reget_len w)
                     (map_option (take (nat (reget_len w))) (reget_buf w)) h1)
          in ohubWatchReceiveStream E i False eof rx1 (upd_watch i recv_clear h2))"
  by pat_completeness auto
termination
  by (relation "measure (\<lambda>(E, i, fp, eof, rx, h). length rx)") (auto dest!: ReceiveStep_shrinks [OF sym])

function ohubSubjReceiveStream ::
  "env \<Rightarrow> nat \<Rightarrow> bool \<Rightarrow> bool \<Rightarrow> bytes \<Rightarrow> 'a hub_scheme \<Rightarrow> bytes \<times> 'a hub_scheme" where
  "ohubSubjReceiveStream E i first_pass eof rx h =
     (case ReceiveStep E first_pass eof rx (subjs h ! i) of
        (False, rx1, s) \<Rightarrow> (rx1, upd_subj i (\<lambda>_. recv_end s) h)
      | (True, rx1, s) \<Rightarrow>
          let h1 = upd_subj i (\<lambda>_. s) h;
              h2 = snd (ohubSubjHandleProtocol E i OLANG_DATA (reget_type s) (reget_len s)
                     (map_option (take (nat (reget_len s))) (reget_buf s)) h1)
          in ohubSubjReceiveStream E i False eof rx1 (upd_subj i recv_clear h2))"
  by pat_completeness auto
termination
  by (relation "measure (\<lambda>(E, i, fp, eof, rx, h). length rx)") (auto dest!: ReceiveStep_shrinks [OF sym])

declare ohubWatchReceiveStream.simps [simp del] ohubSubjReceiveStream.simps [simp del]

section \<open>Reading datagrams\<close>

text \<open>One datagram and its sender; the entry is \<open>ohub_cntl_watch\<close> until an identifier is seen.\<close>

definition ohubWatchReceiveDatagram ::
  "env \<Rightarrow> nat \<Rightarrow> sockaddr \<Rightarrow> bytes \<Rightarrow> 'a hubdata_scheme \<Rightarrow> 'a hubdata_scheme" where
  "ohubWatchReceiveDatagram E i addr dg h0 =
     (let h = (if p_state (watchers h0 ! i) = ST_OPEN then h0
               else upd_watch i (\<lambda>w. w\<lparr>cntl_addr := addr\<rparr>) h0);
          len = OUNTOHS (ld16 E dg 0); type = OUNTOHS (ld16 E dg 2); wid = OROTS (ld16 E dg 4);
          blen = frame_len (nat len)
      in if length dg < OLANG_HEAD_LEN then h
         else if len > OLANG_MAX_PACKET then h
         else case (if wid \<noteq> 0 then ohubWatchGetById wid h else Some i) of
           None \<Rightarrow> h
         | Some w \<Rightarrow>
             (if \<not> env_alloc E blen then h
              else if length dg < blen then h
              else if OROTS (ld16 E dg (blen - OLANG_TAIL_LEN)) \<noteq> ohubWatchCheckSum dg (int blen - 2) then h
              else snd (ohubWatchHandleProtocol E w OLANG_CONTROL type len
                     (Some (take (nat len) (drop OLANG_HEAD_LEN dg)))
                     (upd_watch w (\<lambda>x. x\<lparr>alive_get_wd := env_now E\<rparr>) h))))"

definition ohubSubjReceiveDatagram ::
  "env \<Rightarrow> nat \<Rightarrow> bytes \<Rightarrow> 'a hub_scheme \<Rightarrow> 'a hub_scheme" where
  "ohubSubjReceiveDatagram E i dg h =
     (let len = OUNTOHS (ld16 E dg 0); type = OUNTOHS (ld16 E dg 2); wid = OROTS (ld16 E dg 4);
          n = unat (wid AND 255); blen = frame_len (nat len)
      in if length dg < OLANG_HEAD_LEN then h
         else if len > OLANG_MAX_PACKET then h
         else if wid \<noteq> 0 \<and> (n < 1 \<or> n \<ge> OHUB_MAX_SUBJ) then h
         else if wid \<noteq> 0 \<and> p_state (subjs h ! n) \<noteq> ST_WAIT \<and> p_state (subjs h ! n) \<noteq> ST_OPEN then h
         else
           let s = (if wid \<noteq> 0 then n else i) in
           if \<not> env_alloc E blen then h
           else if length dg < blen then h
           else if OROTS (ld16 E dg (blen - OLANG_TAIL_LEN)) \<noteq> ohubSubjCheckSum dg (int blen - 2) then h
           else snd (ohubSubjHandleProtocol E s OLANG_CONTROL type len
                  (Some (take (nat len) (drop OLANG_HEAD_LEN dg)))
                  (upd_subj s (\<lambda>x. x\<lparr>alive_get_wd := env_now E\<rparr>) h)))"

end
