(* ===== verification/HubMain.thy ===== *)
theory HubMain
  imports Conn
begin

text \<open>
  One pass of the hub's main loop: the periodic tasks of hub-watch.c and hub-subj.c, the
  handling of socket events, the closing of connections that were given up, and the pass
  itself with start and stop of the hub (hub-proper.c).
\<close>

section \<open>Periodic tasks\<close>

definition drop_hanging :: "'a peer_scheme \<Rightarrow> 'a peer_scheme" where
  "drop_hanging p = p\<lparr>q_buf := map (\<lambda>k. if pk_len k \<le> 0 then k\<lparr>pk_buf := None\<rparr> else k) (q_buf p)\<rparr>"

definition watch_background :: "env \<Rightarrow> nat \<Rightarrow> 'a hubdata_scheme \<Rightarrow> 'a hubdata_scheme" where
  "watch_background E i h =
     (let h1 = (if p_state (watchers h ! i) = ST_OPEN \<and> env_now E - alive_get_wd (watchers h ! i) > OLANG_DEAD_MS
                then ohubWatchClose E i (upd_watch i (\<lambda>w. w\<lparr>p_state := ST_EXIT\<rparr>) h) else h)
      in if p_state (watchers h1 ! i) = ST_OPEN then
           let h2 = upd_watch i drop_hanging h1
           in if env_now E - alive_put_wd (watchers h2 ! i) > OLANG_ALIVE_MS
              then upd_watch i (\<lambda>w. w\<lparr>alive_put_wd := env_now E\<rparr>)
                     (snd (ohubWatchSendPacket E (Some i) OLANG_CONTROL OLANG_ALIVE 0 None h2))
              else h2
         else h1)"

definition ohubWatchBackgroundTask :: "env \<Rightarrow> 'a hubdata_scheme \<Rightarrow> 'a hubdata_scheme" where
  "ohubWatchBackgroundTask E h = fold (watch_background E) [0..<OHUB_MAX_WATCH] h"

definition subj_background :: "env \<Rightarrow> nat \<Rightarrow> 'a hubnet_scheme \<Rightarrow> 'a hubnet_scheme" where
  "subj_background E i h =
     (let h1 = (if p_state (subjs h ! i) = ST_OPEN \<and> env_now E - alive_get_wd (subjs h ! i) > OLANG_DEAD_MS
                then upd_subj i (\<lambda>s. s\<lparr>p_state := ST_EXIT\<rparr>) h else h)
      in if p_state (subjs h1 ! i) = ST_OPEN \<and> env_now E - alive_put_wd (subjs h1 ! i) > OLANG_ALIVE_MS
         then upd_subj i (\<lambda>s. s\<lparr>alive_put_wd := env_now E\<rparr>)
                (snd (ohubSubjSendPacket E i OLANG_CONTROL OLANG_ALIVE 0 None (upd_subj i drop_hanging h1)))
         else h1)"

definition ohubSubjBackgroundTask :: "env \<Rightarrow> 'a hubnet_scheme \<Rightarrow> 'a hubnet_scheme" where
  "ohubSubjBackgroundTask E h = fold (subj_background E) [0..<OHUB_MAX_SUBJ] h"

section \<open>Socket events\<close>

text \<open>
  The flush of old accumulators and pings; then the sockets to watch are those of the open
  connections, for writing those that owe bytes.
\<close>

definition watch_prepare :: "env \<Rightarrow> nat \<Rightarrow> 'a hubnet_scheme \<Rightarrow> 'a hubnet_scheme" where
  "watch_prepare E i h =
     (let a = accum (watchers h ! i) in
      if ac_qty a > 0 \<and> env_now E - ac_start a > OHUB_MON_ACCUM_TTL
      then snd (ohubMonFlushMonAccum E i h) else h)"

definition wants_write :: "'a peer_scheme \<Rightarrow> bool" where
  "wants_write p \<longleftrightarrow> p_state p = ST_OPEN \<and> (q_len p > 0 \<or> reput_len p \<ge> 0)"

definition ohubWatchPrepareEvents :: "env \<Rightarrow> 'a hubnet_scheme \<Rightarrow> nat list \<times> nat list \<times> 'a hubnet_scheme" where
  "ohubWatchPrepareEvents E h =
     (let h1 = fold (watch_prepare E) [1..<OHUB_MAX_WATCH] h in
      (filter (\<lambda>i. p_state (watchers h1 ! i) = ST_OPEN) [1..<OHUB_MAX_WATCH],
       filter (\<lambda>i. wants_write (watchers h1 ! i)) [1..<OHUB_MAX_WATCH], h1))"

definition subj_prepare :: "env \<Rightarrow> nat \<Rightarrow> 'a hubnet_scheme \<Rightarrow> 'a hubnet_scheme" where
  "subj_prepare E i h =
     (let u = unreg_accum (subjs h ! i);
          h1 = (if ua_buf u \<noteq> [] \<and> env_now E - ua_start u > OHUB_UNREG_ACCUM_TTL
                then snd (ohubMonFlushUnregAccum E i h) else h)
      in if p_state (subjs h1 ! i) = ST_WAIT then ohubSubjPing E i h1 else h1)"

definition ohubSubjPrepareEvents :: "env \<Rightarrow> 'a hubnet_scheme \<Rightarrow> nat list \<times> nat list \<times> 'a hubnet_scheme" where
  "ohubSubjPrepareEvents E h =
     (let h1 = fold (subj_prepare E) [1..<OHUB_MAX_SUBJ] h in
      (filter (\<lambda>i. p_state (subjs h1 ! i) = ST_OPEN) [1..<OHUB_MAX_SUBJ],
       filter (\<lambda>i. wants_write (subjs h1 ! i)) [1..<OHUB_MAX_SUBJ], h1))"

text \<open>
  What \<open>select\<close> found: its result, the datagrams and the connection request waiting, and per
  connection the bytes that can be read (with the mark that the peer closed) and whether it
  can be written.
\<close>

record events =
  ev_num :: int
  ev_watch_dgram :: "(sockaddr \<times> bytes) option"
  ev_accept :: "(int \<times> sockaddr) option option"
  ev_watch_read :: "nat \<Rightarrow> (bytes \<times> bool) option"
  ev_watch_write :: "nat \<Rightarrow> bool"
  ev_subj_dgram :: "bytes option"
  ev_subj_read :: "nat \<Rightarrow> (bytes \<times> bool) option"
  ev_subj_write :: "nat \<Rightarrow> bool"

definition watch_event :: "env \<Rightarrow> events \<Rightarrow> nat \<Rightarrow> nat \<times> 'a hubdata_scheme \<Rightarrow> nat \<times> 'a hubdata_scheme" where
  "watch_event E ev i = (\<lambda>(n, h).
     if p_state (watchers h ! i) = ST_NONE \<or> p_state (watchers h ! i) = ST_EXIT then (n, h)
     else
       let (n1, h1) = (case ev_watch_read ev i of
              None \<Rightarrow> (n, h)
            | Some (rx, eof) \<Rightarrow> (n + 1, snd (ohubWatchReceiveStream E i True eof rx h)))
       in if p_state (watchers h1 ! i) = ST_EXIT then (n1, h1)
          else if ev_watch_write ev i then (n1 + 1, upd_watch i (ohubWatchResendStream E) h1)
          else (n1, h1))"

definition ohubWatchHandleEvents :: "env \<Rightarrow> events \<Rightarrow> 'a hubdata_scheme \<Rightarrow> nat \<times> 'a hubdata_scheme" where
  "ohubWatchHandleEvents E ev h =
     (let (n1, h1) = (case ev_watch_dgram ev of
            None \<Rightarrow> (0, h)
          | Some (addr, dg) \<Rightarrow> (1, ohubWatchReceiveDatagram E OHUB_MAX_WATCH addr dg h));
          (n2, h2) = (case ev_accept ev of
            None \<Rightarrow> (n1, h1)
          | Some inc \<Rightarrow> (n1 + 1, snd (ohubWatchAcceptConnection E inc h1)))
      in fold (watch_event E ev) [1..<OHUB_MAX_WATCH] (n2, h2))"

definition subj_event :: "env \<Rightarrow> events \<Rightarrow> nat \<Rightarrow> nat \<times> 'a hub_scheme \<Rightarrow> nat \<times> 'a hub_scheme" where
  "subj_event E ev i = (\<lambda>(n, h).
     if p_state (subjs h ! i) = ST_NONE \<or> p_state (subjs h ! i) = ST_EXIT then (n, h)
     else
       let (n1, h1) = (case ev_subj_read ev i of
              None \<Rightarrow> (n, h)
            | Some (rx, eof) \<Rightarrow> (n + 1, snd (ohubSubjReceiveStream E i True eof rx h)))
       in if p_state (subjs h1 ! i) = ST_EXIT then (n1, h1)
          else if ev_subj_write ev i then (n1 + 1, upd_subj i (ohubSubjResendStream E) h1)
          else (n1, h1))"

definition ohubSubjHandleEvents :: "env \<Rightarrow> events \<Rightarrow> 'a hub_scheme \<Rightarrow> nat \<times> 'a hub_scheme" where
  "ohubSubjHandleEvents E ev h =
     (let (n1, h1) = (case ev_subj_dgram ev of
            None \<Rightarrow> (0, h)
          | Some dg \<Rightarrow> (1, ohubSubjReceiveDatagram E OHUB_MAX_SUBJ dg h))
      in fold (subj_event E ev) [1..<OHUB_MAX_SUBJ] (n1, h1))"

section \<open>Closing what was given up\<close>

definition ohubWatchLazyShutdown :: "env \<Rightarrow> 'a hubdata_scheme \<Rightarrow> 'a hubdata_scheme" where
  "ohubWatchLazyShutdown E h =
     fold (\<lambda>i h. if p_state (watchers h ! i) = ST_EXIT then ohubWatchClose E i h else h) [1..<OHUB_MAX_WATCH] h"

definition ohubSubjLazyShutdown :: "env \<Rightarrow> 'a hubdata_scheme \<Rightarrow> 'a hubdata_scheme" where
  "ohubSubjLazyShutdown E h =
     fold (\<lambda>i h. if p_state (subjs h ! i) \<noteq> ST_EXIT then h
                 else ohubSubjPing E i (upd_subj i (\<lambda>s. s\<lparr>p_state := ST_WAIT\<rparr>) (ohubSubjDisconnect E i h)))
       [1..<OHUB_MAX_SUBJ] h"

section \<open>The loop and start and stop\<close>

text \<open>
  \<open>routine_wd\<close> is a local variable of \<open>ohubInternalDaemonLoop\<close> that starts at 0 in each call.
\<close>

definition enable_networks :: "env \<Rightarrow> 'a hub_scheme \<Rightarrow> 'a hub_scheme" where
  "enable_networks E h =
     (let h1 = (if \<not> subjs_enable h \<and> subj_start h \<noteq> 0 \<and> env_now E - subj_start h > 0
                then h\<lparr>subjs_enable := True, subj_start := 0\<rparr> else h)
      in if \<not> watchers_enable h1 \<and> watchers_start h1 \<noteq> 0 \<and> env_now E - watchers_start h1 > 0
         then h1\<lparr>watchers_enable := True, watchers_start := 0\<rparr> else h1)"

definition ohubInternalDaemonLoop :: "env \<Rightarrow> events \<Rightarrow> 'a hub_scheme \<Rightarrow> 'a hub_scheme" where
  "ohubInternalDaemonLoop E ev h =
     (let routine_wd = 0 :: int;
          h1 = enable_networks E h;
          delta = env_now E - routine_wd;
          h2 = (if delta < 0 \<or> delta > OLANG_STAT_MS \<or> routine_wd = 0
                then ohubSubjBackgroundTask E (ohubWatchBackgroundTask E h1) else h1);
          h3 = ohubHandleTriggerTimeouts E h2;
          h4 = snd (ohubSecureMoreMonitors E h3);
          h5 = snd (ohubSecureMoreWrites E h4);
          h6 = snd (snd (ohubWatchPrepareEvents E h5));
          h7 = snd (snd (ohubSubjPrepareEvents E h6))
      in if ev_num ev < 0 then h7
         else
           let h8 = (if ev_num ev > 0
                     then snd (ohubSubjHandleEvents E ev (snd (ohubWatchHandleEvents E ev h7))) else h7)
           in ohubSubjLazyShutdown E (ohubWatchLazyShutdown E h8))"

definition new_watch :: netwatch where
  "new_watch = \<lparr>p_state = ST_NONE, p_id = 0, needs_rotor = False, data_sock = 0, cntl_addr = no_addr,
     alive_get_wd = 0, alive_put_wd = 0, q_buf = [], q_len = 0, q_size = 0, q_rd = 0, q_wr = 0,
     hdr_buf = replicate 16 0, hdr_off = 0, reget_type = -1, reget_len = -1, reget_off = -1,
     reget_buf = None, reput_type = -1, reput_len = -1, reput_off = -1, reput_buf = None, p_url = [],
     p_tx = [], p_utx = [], p_wire = [], p_dgrams = [],
     announce_blocked = False, nw_version = 0, watch_desc = [], accum = no_accum\<rparr>"

definition new_subj :: netsubj where
  "new_subj = \<lparr>p_state = ST_NONE, p_id = 0, needs_rotor = False, data_sock = 0, cntl_addr = no_addr,
     alive_get_wd = 0, alive_put_wd = 0, q_buf = [], q_len = 0, q_size = 0, q_rd = 0, q_wr = 0,
     hdr_buf = replicate 16 0, hdr_off = 0, reget_type = -1, reget_len = -1, reget_off = -1,
     reget_buf = None, reput_type = -1, reput_len = -1, reput_off = -1, reput_buf = None, p_url = [],
     p_tx = [], p_utx = [], p_wire = [], p_dgrams = [],
     data_addr = no_addr, cmnd_addr = no_addr, ping_cur_ms = 0, ping_wd = 0, ns_agent = None,
     unreg_accum = no_unreg\<rparr>"

text \<open>
  The two network initialisations; \<open>sockets_ok\<close> tells whether the socket calls succeed. The
  record of the last index is the one for datagrams, which is only zeroed.
\<close>

definition zero_packet_state :: "'a peer_scheme \<Rightarrow> 'a peer_scheme" where
  "zero_packet_state p = p\<lparr>reget_type := 0, reget_len := 0, reget_off := 0,
     reput_type := 0, reput_len := 0, reput_off := 0\<rparr>"

definition ohubWatchInitNetwork :: "env \<Rightarrow> bool \<Rightarrow> 'a hubdata_scheme \<Rightarrow> oret \<times> 'a hubdata_scheme" where
  "ohubWatchInitNetwork E sockets_ok h0 =
     (let h = (ohubWatchersShutdownNetwork E (h0\<lparr>watchers_enable := False\<rparr>))
                \<lparr>next_watch_id := word_of_int (env_now E)\<rparr>
      in if \<not> env_alloc E (OHUB_MAX_WATCH * 3208) then (ERROR, ohubWatchersShutdownNetwork E h)
         else
           let h1 = h\<lparr>watchers := replicate OHUB_MAX_WATCH new_watch @ [zero_packet_state new_watch]\<rparr>
           in if \<not> sockets_ok then (ERROR, ohubWatchersShutdownNetwork E h1)
              else (OK, upd_watch OHUB_MAX_WATCH (\<lambda>w. w\<lparr>p_url := bstr ''[CNTL]''\<rparr>) h1))"

definition ohubSubjInitNetwork :: "env \<Rightarrow> bool \<Rightarrow> 'a hubdata_scheme \<Rightarrow> oret \<times> 'a hubdata_scheme" where
  "ohubSubjInitNetwork E sockets_ok h0 =
     (let h = (ohubSubjShutdownNetwork E h0)\<lparr>next_subj_id := word_of_int (env_now E)\<rparr>
      in if \<not> env_alloc E (OHUB_MAX_SUBJ * 1000) then (ERROR, ohubSubjShutdownNetwork E h)
         else
           let h1 = h\<lparr>subjs := replicate OHUB_MAX_SUBJ new_subj @ [zero_packet_state new_subj]\<rparr>
           in if \<not> sockets_ok then (ERROR, ohubSubjShutdownNetwork E h1)
              else (OK, upd_subj OHUB_MAX_SUBJ (\<lambda>s. s\<lparr>p_url := bstr ''{CNTL}''\<rparr>) h1))"

definition exit_agent :: "env \<Rightarrow> nat \<Rightarrow> 'a hubdata_scheme \<Rightarrow> 'a hubdata_scheme" where
  "exit_agent E a h =
     (if \<not> ag_enable (agents h ! a) then h
      else
        let h1 = ohubCancelAgentData E a h;
            h2 = (case ag_nsubj (agents h1 ! a) of None \<Rightarrow> h1 | Some s \<Rightarrow> ohubSubjClose E s h1)
        in upd_agent a (\<lambda>x. x\<lparr>ag_nsubj := None\<rparr>) h2)"

definition ohubExit :: "env \<Rightarrow> 'a hubdata_scheme \<Rightarrow> 'a hubdata_scheme" where
  "ohubExit E h0 =
     (let h = fold (exit_agent E) [0..<length (agents h0)] (h0\<lparr>watchers_enable := False, subjs_enable := False\<rparr>);
          h1 = snd (ohubExitMonitoring (ohubExitData E h));
          h2 = ohubWatchersShutdownNetwork E (ohubSubjShutdownNetwork E h1);
          h3 = ohubClearSubjectWaiters None (ohubFlushInfoCache h2)
      in h3\<lparr>by_path_hash := None, by_ooid_hash := None, path_heap := [], path_heap_size := 0\<rparr>)"

definition OHUB_SUBJ_START_DELAY :: int where "OHUB_SUBJ_START_DELAY = 500"
definition OHUB_WATCH_START_DELAY :: int where "OHUB_WATCH_START_DELAY = 1000"

text \<open>\<open>ohubInit\<close> with the lines of the identifier cache file.\<close>

definition ohubInit :: "env \<Rightarrow> bool \<Rightarrow> bool \<Rightarrow> (u32 \<times> bytes) list \<Rightarrow> 'a hub_scheme \<Rightarrow> oret \<times> 'a hub_scheme" where
  "ohubInit E wsock_ok ssock_ok cache h0 =
     (let h = ohubFlushInfoCache (snd (ohubLoadOoidHash E cache
                (ohubInitOoidFactory (h0\<lparr>watchers_enable := False, subjs_enable := False\<rparr>))));
          (rc1, h1) = ohubWatchInitNetwork E wsock_ok h
      in if rc1 \<noteq> OK then (ERROR, ohubExit E h1)
         else
           let (rc2, h2) = ohubSubjInitNetwork E ssock_ok h1 in
           if rc2 \<noteq> OK then (ERROR, ohubExit E h2)
           else
             let h3 = snd (ohubInitData E (snd (ohubInitMonitoring h2)))
             in (OK, h3\<lparr>subj_start := env_now E + OHUB_SUBJ_START_DELAY,
                        watchers_start := env_now E + OHUB_WATCH_START_DELAY\<rparr>))"

end
