(* ===== verification/DomFrame.thy ===== *)
theory DomFrame
  imports Info Msg
begin

text \<open>
  What the operations of the domain and of the information requests leave alone: the layout of
  the tables, the waiters of subjects, and everything of the components above the domain.
\<close>

section \<open>The layout of the hub\<close>

text \<open>
  What only a change of the configuration could alter: the sizes of the tables and the
  references between agents, subjects, modules and connections.
\<close>

definition agent_layout :: "agent \<Rightarrow> bytes \<times> bytes \<times> bool \<times> nat option" where
  "agent_layout a = (ag_name a, ag_url a, ag_enable a, ag_nsubj a)"

definition subject_layout :: "subject \<Rightarrow> int \<times> bytes \<times> avail \<times> nat \<times> nat" where
  "subject_layout s = (sb_ikey s, sb_name s, sb_avail s, sb_agent s, length (sb_waiters s))"

definition module_layout :: "module \<Rightarrow> int \<times> bytes \<times> bytes \<times> qrec list \<times> nat" where
  "module_layout m = (mo_ikey m, mo_subject_name m, mo_nick_name m, mo_records m, mo_subject m)"

definition net_layout :: "'a hubnet_scheme \<Rightarrow> nat \<times> nat option list" where
  "net_layout h = (length (watchers h), map ns_agent (subjs h))"

definition layout where
  "layout h = (net_layout h, map agent_layout (agents h), map subject_layout (subjects h), map module_layout (modules h))"

text \<open>The watchers that wait for each subject.\<close>

definition waits :: "'a hubdom_scheme \<Rightarrow> nat option list list" where
  "waits h = map (\<lambda>s. map wt_watch (sb_waiters s)) (subjects h)"

definition dom_frame :: "'a hubdom_scheme \<Rightarrow> 'a hubdom_scheme \<Rightarrow> bool" where
  "dom_frame h h' \<longleftrightarrow> hubdom.more h' = hubdom.more h \<and> layout h' = layout h \<and> waits h' = waits h"

lemma dom_frame_refl [simp]: "dom_frame h h" by (simp add: dom_frame_def)

lemma dom_frame_trans: "dom_frame h1 h2 \<Longrightarrow> dom_frame h2 h3 \<Longrightarrow> dom_frame h1 h3"
  by (simp add: dom_frame_def)

lemma net_frame_layout: "net_frame h h' \<Longrightarrow> net_layout h' = net_layout h"
  by (auto elim!: net_frameE simp: net_layout_def list_all2_conv_all_nth subj_frame_def intro: nth_equalityI)

lemma net_frame_dom: "net_frame h h' \<Longrightarrow> dom_frame h h'"
  using net_frame_layout [of h h'] by (auto elim!: net_frameE simp: dom_frame_def layout_def waits_def)

lemma layout_simps [simp]:
  "layout (set_fault b h) = layout h" "waits (set_fault b h) = waits h"
  "hubnet.more (set_fault b h) = hubnet.more h"
  "layout (ooid_seq_update f1 h) = layout h" "waits (ooid_seq_update f1 h) = waits h"
  "layout (by_path_hash_update f2 h) = layout h" "waits (by_path_hash_update f2 h) = waits h"
  "layout (by_ooid_hash_update f2 h) = layout h" "waits (by_ooid_hash_update f2 h) = waits h"
  "layout (path_heap_update f3 h) = layout h" "waits (path_heap_update f3 h) = waits h"
  "layout (path_heap_size_update f4 h) = layout h" "waits (path_heap_size_update f4 h) = waits h"
  "layout (quark_cache_update f5 h) = layout h" "waits (quark_cache_update f5 h) = waits h"
  "layout (quark_cache_size_update f4 h) = layout h" "waits (quark_cache_size_update f4 h) = waits h"
  "layout (by_desc_quark_hash_update f2 h) = layout h" "waits (by_desc_quark_hash_update f2 h) = waits h"
  "layout (by_ooid_quark_hash_update f2 h) = layout h" "waits (by_ooid_quark_hash_update f2 h) = waits h"
  "layout (waiters_qty_update f6 h) = layout h" "waits (waiters_qty_update f6 h) = waits h"
  "hubdom.more (set_fault b h) = hubdom.more h"
  by (simp_all add: layout_def waits_def net_layout_def set_fault_def)

lemma map_update_self: "f y = f (xs ! i) \<Longrightarrow> map f (xs[i := y]) = map f xs"
  by (metis list_update_beyond list_update_id map_update not_le)

lemma dom_frame_upd_module:
  "(\<And>m. module_layout (f m) = module_layout m) \<Longrightarrow> dom_frame h (upd_module i f h)"
  by (simp add: dom_frame_def layout_def waits_def net_layout_def upd_module_def map_update_self)

lemma dom_frame_upd_agent:
  "(\<And>m. agent_layout (f m) = agent_layout m) \<Longrightarrow> dom_frame h (upd_agent i f h)"
  by (simp add: dom_frame_def layout_def waits_def net_layout_def upd_agent_def map_update_self)

lemma dom_frame_upd_subject:
  "(\<And>s. subject_layout (f s) = subject_layout s) \<Longrightarrow> (\<And>s. map wt_watch (sb_waiters (f s)) = map wt_watch (sb_waiters s))
    \<Longrightarrow> dom_frame h (upd_subject i f h)"
  by (simp add: dom_frame_def layout_def waits_def net_layout_def upd_subject_def map_update_self)

section \<open>Identifiers and quarks\<close>

lemma ohubAddOoidPath_dom: "dom_frame h (snd (ohubAddOoidPath E path ooid h))"
  by (simp add: ohubAddOoidPath_def Let_def case_prod_unfold dom_frame_def split: option.split)

lemma ohubFindOoidByName_dom: "dom_frame h (snd (ohubFindOoidByName E path can_add h))"
proof -
  have "dom_frame h (snd (ohubAddOoidPath E path n (h\<lparr>by_path_hash := t, ooid_seq := n\<rparr>)))" for n t
    by (rule dom_frame_trans [OF _ ohubAddOoidPath_dom])
      (simp add: dom_frame_def)
  then show ?thesis by (simp add: dom_frame_def ohubFindOoidByName_def Let_def case_prod_unfold)
qed

lemma ohubFindNameByOoid_dom: "dom_frame h (snd (ohubFindNameByOoid ooid h))"
  by (simp add: dom_frame_def ohubFindNameByOoid_def case_prod_unfold)

lemma find_canonical_dom: "dom_frame h (snd (find_canonical is mdl subj path h))"
proof (induction "is" arbitrary: h)
  case (Cons i "is")
  have m: "dom_frame h (upd_module i (\<lambda>m. m\<lparr>mo_quarks_byname := t\<rparr>) h)" for t
    by (rule dom_frame_upd_module) (simp add: module_layout_def)
  then show ?case using Cons dom_frame_trans [OF m Cons] by (simp add: Let_def case_prod_unfold)
qed simp

lemma ohubFindQuarkByDesc_dom: "dom_frame h (snd (snd (snd (ohubFindQuarkByDesc E spath h))))"
proof -
  have F: "dom_frame h (snd (ohubFindCanonicalRecord m s p h))" for m s p and h :: "'a hubdom_scheme"
    unfolding ohubFindCanonicalRecord_def by (rule find_canonical_dom)
  have F2: "dom_frame h (snd (ohubFindCanonicalRecord m s p (snd (ohubFindCanonicalRecord m' s' p' h))))" for m s p m' s' p'
    by (rule dom_frame_trans [OF F F])
  have G: "dom_frame h (set_fault b h') \<longleftrightarrow> dom_frame h h'" for b h'
    by (simp add: dom_frame_def)
  have M: "dom_frame h h' \<Longrightarrow> dom_frame h (snd (ohubMakeStaticOoid E q (set_fault b h')))" for q b h'
    unfolding ohubMakeStaticOoid_def by (rule dom_frame_trans [OF _ ohubFindOoidByName_dom]) (simp add: G)
  show ?thesis
    by (auto simp: ohubFindQuarkByDesc_def Let_def case_prod_unfold F F2 G M split: option.split prod.split)
qed

section \<open>Information requests\<close>

lemma ohubFindCachedInfoByDesc_dom: "dom_frame h (snd (ohubFindCachedInfoByDesc desc h))"
  by (simp add: ohubFindCachedInfoByDesc_def case_prod_unfold dom_frame_def)

lemma ohubFindCachedInfoByOoid_dom: "dom_frame h (snd (ohubFindCachedInfoByOoid ooid h))"
  by (simp add: ohubFindCachedInfoByOoid_def case_prod_unfold dom_frame_def)

lemma ohubAddInfoToCache_dom: "dom_frame h (snd (ohubAddInfoToCache E q h))"
proof -
  obtain r h1 where r: "ohubFindCachedInfoByDesc (qk_path q) h = (r, h1)" by (metis prod.exhaust)
  then have "dom_frame h h1" using ohubFindCachedInfoByDesc_dom [of h "qk_path q"] by simp
  then show ?thesis
    by (auto simp: ohubAddInfoToCache_def r Let_def case_prod_unfold dom_frame_def split: option.split)
qed

lemma ohubGetInfoByDesc_dom: "dom_frame h (snd (snd (snd (ohubGetInfoByDesc E desc h))))"
proof -
  obtain r h1 where r: "ohubFindCachedInfoByDesc desc h = (r, h1)" by (metis prod.exhaust)
  then have a: "dom_frame h h1" using ohubFindCachedInfoByDesc_dom [of h desc] by simp
  obtain c q s h2 where q: "ohubFindQuarkByDesc E desc h1 = (c, q, s, h2)" by (metis prod.exhaust)
  then have b: "dom_frame h h2" using ohubFindQuarkByDesc_dom [of h1 E desc] dom_frame_trans [OF a] by simp
  show ?thesis using a b dom_frame_trans [OF b ohubAddInfoToCache_dom]
    by (auto simp: ohubGetInfoByDesc_def r q split: option.split)
qed

lemma ohubGetInfoByOoid_dom: "dom_frame h (snd (snd (snd (ohubGetInfoByOoid E ooid h))))"
proof -
  obtain r h1 where r: "ohubFindCachedInfoByOoid ooid h = (r, h1)" by (metis prod.exhaust)
  then have a: "dom_frame h h1" using ohubFindCachedInfoByOoid_dom [of h ooid] by simp
  obtain d h2 where d: "ohubFindNameByOoid ooid h1 = (d, h2)" by (metis prod.exhaust)
  then have b: "dom_frame h h2" using ohubFindNameByOoid_dom [of h1 ooid] dom_frame_trans [OF a] by simp
  obtain c q s h3 where q: "ohubFindQuarkByDesc E (the d) h2 = (c, q, s, h3)" by (metis prod.exhaust)
  then have e: "dom_frame h h3" using ohubFindQuarkByDesc_dom [of h2 E "the d"] dom_frame_trans [OF b] by simp
  show ?thesis using a b e q dom_frame_trans [OF e ohubAddInfoToCache_dom]
    by (auto simp: ohubGetInfoByOoid_def r d split: option.split)
qed

lemma ohubHandleInfoReq_dom: "dom_frame h (snd (ohubHandleInfoReq E w kind type len buf h))"
proof -
  have s: "dom_frame h h' \<Longrightarrow> dom_frame h (snd (ohubWatchSendPacket E x k t l d (set_fault b h')))" for h' x k t l d b
    by (rule dom_frame_trans [OF _ net_frame_dom [OF net_frame_trans [OF net_frame_fault ohubWatchSendPacket_net]]])
  show ?thesis
    by (simp add: ohubHandleInfoReq_def Let_def case_prod_unfold s ohubGetInfoByDesc_dom ohubGetInfoByOoid_dom)
qed

lemma ohubHandleMonGroupReq_dom: "dom_frame h (snd (ohubHandleMonGroupReq E w kind type len buf h))"
  using ohubGetInfoByDesc_dom by (auto simp: ohubHandleMonGroupReq_def Let_def case_prod_unfold dom_frame_def)

lemma layout_sizes:
  assumes "layout h' = layout h"
  shows "length (watchers h') = length (watchers h)" "length (subjs h') = length (subjs h)"
    "length (agents h') = length (agents h)" "length (subjects h') = length (subjects h)"
    "length (modules h') = length (modules h)"
  using assms by (auto simp: layout_def net_layout_def dest: map_eq_imp_length_eq)

section \<open>Messages\<close>

text \<open>
  The invariant of the message component: nodes have their own addresses and name either a
  watcher or a subject, and no node counts its classes.
\<close>

definition node_ok :: "'a hubmsg_scheme \<Rightarrow> msgnode \<Rightarrow> bool" where
  "node_ok h n \<longleftrightarrow> mn_addr n < msg_next h \<and> mn_klass_num n = 0 \<and> (mn_watch n = None) \<noteq> (mn_subject n = None)
     \<and> (\<forall>w. mn_watch n = Some w \<longrightarrow> w < length (watchers h))
     \<and> (\<forall>s. mn_subject n = Some s \<longrightarrow> s < length (subjects h))"

text \<open>Nodes have an address, a name and an owner of their own.\<close>

definition owner :: "msgnode \<Rightarrow> nat option \<times> nat option" where "owner n = (mn_watch n, mn_subject n)"

definition msg_ok :: "'a hubmsg_scheme \<Rightarrow> bool" where
  "msg_ok h \<longleftrightarrow> distinct (map mn_addr (msg_nodes h)) \<and> distinct (map mn_name (msg_nodes h))
     \<and> distinct (map owner (msg_nodes h)) \<and> (\<forall>n \<in> set (msg_nodes h). node_ok h n)
     \<and> classes_ok (msg_classes h)"

definition msg_frame :: "'a hubmsg_scheme \<Rightarrow> 'a hubmsg_scheme \<Rightarrow> bool" where
  "msg_frame h h' \<longleftrightarrow> hubmsg.more h' = hubmsg.more h \<and> layout h' = layout h \<and> waits h' = waits h
     \<and> (msg_ok h \<longrightarrow> msg_ok h')"

lemma msg_frame_refl [simp]: "msg_frame h h" by (simp add: msg_frame_def)

lemma msg_frame_trans: "msg_frame h1 h2 \<Longrightarrow> msg_frame h2 h3 \<Longrightarrow> msg_frame h1 h3"
  by (simp add: msg_frame_def)

lemma dom_frame_msg:
  fixes h h' :: "'a hubmsg_scheme"
  assumes "dom_frame h h'"
  shows "msg_frame h h'"
proof -
  have "hubdom.more h' = hubdom.more h" "layout h' = layout h" "waits h' = waits h"
    using assms by (simp_all add: dom_frame_def)
  moreover have "msg_nodes h' = msg_nodes h \<and> msg_classes h' = msg_classes h \<and> msg_next h' = msg_next h
      \<and> hubmsg.more h' = hubmsg.more h"
    using calculation(1) by (cases h, cases h') simp
  ultimately show ?thesis
    using layout_sizes [of h' h] by (auto simp: msg_frame_def msg_ok_def node_ok_def)
qed

lemma net_frame_msg: "net_frame h h' \<Longrightarrow> msg_frame h h'"
  by (rule dom_frame_msg, rule net_frame_dom)

lemma layout_msg_simps [simp]:
  "layout (msg_nodes_update f1 h) = layout h" "waits (msg_nodes_update f1 h) = waits h"
  "layout (msg_classes_update f2 h) = layout h" "waits (msg_classes_update f2 h) = waits h"
  "layout (msg_next_update f3 h) = layout h" "waits (msg_next_update f3 h) = waits h"
  by (simp_all add: layout_def waits_def net_layout_def)

lemma ohubRegisterMsgNode_frame:
  assumes "action = MSGNODE_ADD \<longrightarrow> (\<forall>x. w = Some x \<longrightarrow> x < length (watchers h)) \<and> (\<forall>x. s = Some x \<longrightarrow> x < length (subjects h))"
  shows "msg_frame h (snd (ohubRegisterMsgNode E w s action name h))"
proof -
  have u: "upd_node a (mn_klass_num_update (\<lambda>_. 0)) (msg_nodes h) = msg_nodes h" if "msg_ok h" for a
    using that by (auto simp: upd_node_def msg_ok_def node_ok_def intro: map_idI)
  have k: "mn_klass_num n = 0" if "find P (msg_nodes h) = Some n" "msg_ok h" for P n
    using that by (auto simp: find_Some_iff msg_ok_def node_ok_def)
  show ?thesis
  proof (cases action)
    case MSGNODE_ADD
    then show ?thesis using assms by (auto simp: msg_frame_def ohubRegisterMsgNode_def msg_ok_def node_ok_def owner_def)
  qed (auto simp: msg_frame_def ohubRegisterMsgNode_def Let_def case_prod_unfold u k msg_ok_def node_ok_def
        distinct_map_filter split: option.split)
qed

lemma class_enable_frame: "class_enable E a k h = Some h' \<Longrightarrow> msg_frame h h'"
proof -
  assume e: "class_enable E a k h = Some h'"
  have "classes_ok (msg_classes h')" if "classes_ok (msg_classes h)"
  proof (cases "class_nodes k (msg_classes h)")
    case None
    then have "msg_classes h' = \<lparr>mc_klass = k, mc_nodes = [a]\<rparr> # msg_classes h"
      using e by (auto simp: class_enable_def split: if_splits)
    moreover have "k \<notin> set (map mc_klass (msg_classes h))" using None by (auto simp: class_nodes_None)
    ultimately show ?thesis using that by (simp add: classes_ok_Cons)
  next
    case (Some ns)
    then have "distinct ns" using that by (auto simp: class_nodes_def classes_ok_def find_Some_iff)
    then show ?thesis using Some e set_class_ok [OF that, of "a # ns" k] by (auto simp: class_enable_def split: if_splits)
  qed
  moreover have "hubmsg.more h' = hubmsg.more h \<and> layout h' = layout h \<and> waits h' = waits h \<and> msg_nodes h' = msg_nodes h
      \<and> msg_next h' = msg_next h \<and> watchers h' = watchers h \<and> subjects h' = subjects h"
    using e by (auto simp: class_enable_def split: option.splits if_splits)
  ultimately show ?thesis by (auto simp: msg_frame_def msg_ok_def node_ok_def)
qed

lemma class_disable_frame: "class_disable a k h = Some h' \<Longrightarrow> msg_frame h h'"
proof -
  assume e: "class_disable a k h = Some h'"
  then have h: "h' = h\<lparr>msg_classes := msg_classes h', msg_nodes := upd_node a (\<lambda>n. n\<lparr>mn_klass_num := mn_klass_num n - 1\<rparr>) (msg_nodes h)\<rparr>"
    by (auto simp: class_disable_def split: option.splits if_splits)
  have "classes_ok (msg_classes h')" if "classes_ok (msg_classes h)"
    using class_disable_refines [OF that, where a = a and k = k] e by simp
  moreover have "upd_node a (\<lambda>n. n\<lparr>mn_klass_num := mn_klass_num n - 1\<rparr>) (msg_nodes h) = msg_nodes h" if "msg_ok h"
    using that by (auto simp: upd_node_def msg_ok_def node_ok_def intro: map_idI)
  ultimately show ?thesis
    by (subst h, auto simp: msg_frame_def msg_ok_def node_ok_def)
qed

lemma class_acts_frame: "msg_frame h (snd (class_acts E enable a ks h))"
proof (induction ks arbitrary: h)
  case (Cons k ks)
  have "msg_frame h (snd (class_acts E enable a ks h1))"
    if "(if enable then class_enable E a k h else class_disable a k h) = Some h1" for h1
    by (rule msg_frame_trans [OF _ Cons.IH])
      (use that in \<open>auto split: if_splits intro: class_enable_frame class_disable_frame\<close>)
  then show ?case using Cons.IH by (auto split: option.split)
qed simp

lemma ohubHandleMsgClassAct_frame: "msg_frame h (snd (ohubHandleMsgClassAct E w a kind type len buf h))"
proof -
  have "msg_frame h (snd (class_acts E en x ks (snd (ohubRegisterMsgNode E w' s' MSGNODE_FLUSH nm h))))" for en x ks w' s' nm
    by (rule msg_frame_trans [OF ohubRegisterMsgNode_frame class_acts_frame]) simp
  then show ?thesis using class_acts_frame
    by (auto simp: ohubHandleMsgClassAct_def Let_def split: option.split)
qed

lemma upd_node_full: "map mn_addr (upd_node a (\<lambda>n. n\<lparr>mn_full := b\<rparr>) ns) = map mn_addr ns"
  "map mn_name (upd_node a (\<lambda>n. n\<lparr>mn_full := b\<rparr>) ns) = map mn_name ns"
  "map owner (upd_node a (\<lambda>n. n\<lparr>mn_full := b\<rparr>) ns) = map owner ns"
  by (auto simp: upd_node_def owner_def)

lemma ohubHandleMsgWaterMark_frame: "msg_frame h (snd (ohubHandleMsgWaterMark E w a kind type len buf h))"
proof -
  have "msg_frame h (h\<lparr>msg_nodes := upd_node x (\<lambda>n. n\<lparr>mn_full := b\<rparr>) (msg_nodes h)\<rparr>)" for x b
    by (auto simp: msg_frame_def msg_ok_def upd_node_full) (auto simp: upd_node_def node_ok_def)
  then show ?thesis by (auto simp: ohubHandleMsgWaterMark_def split: option.split)
qed

lemma deliver_message_net [intro]: "net_frame h (snd (deliver_message E w a s d k len buf h))"
  using send_to_class_net send_to_node_net
  by (auto simp: deliver_message_def case_prod_unfold Let_def split: option.split)

lemma ohubHandleMsgSend_net [intro]: "net_frame h (snd (ohubHandleMsgSend E w a kind type len buf h))"
proof -
  have "net_frame h (snd (ohubWatchSendPacket E x k t l d (snd (deliver_message E w a s dl kl len buf h))))"
    "net_frame h (snd (agent_send E y k t l d (snd (deliver_message E w a s dl kl len buf h))))" for x y k t l d s dl kl
    by (rule net_frame_trans [OF deliver_message_net], auto)+
  then show ?thesis
    by (auto simp: ohubHandleMsgSend_def case_prod_unfold Let_def split: option.split)
qed
end
