(* ===== verification/MonInv.thy ===== *)
theory MonInv
  imports DomFrame Monitor
begin

text \<open>
  The invariant of the monitor table, kept by every operation of hub-monitor.c: a monitor's
  reference count is the number of its watchers, no watcher is attached twice, \<open>watch_qty\<close>
  bounds the used entries, a monitor without watchers is not kept, and the number of monitors
  that wait for their agent is the one the hub counts.
\<close>

section \<open>The invariant\<close>

definition somes :: "'b option list \<Rightarrow> 'b list" where
  "somes xs = map the (filter (\<lambda>x. x \<noteq> None) xs)"

definition attached :: "monitor \<Rightarrow> nat list" where
  "attached m = somes (mon_watchers m)"

type_synonym sizes = "nat \<times> nat \<times> nat"

definition sizes :: "'a hubdom_scheme \<Rightarrow> sizes" where
  "sizes h = (length (watchers h), length (agents h), length (subjs h))"

definition monitor_ok :: "sizes \<Rightarrow> monitor \<Rightarrow> bool" where
  "monitor_ok sz m \<longleftrightarrow> (case sz of (lw, la, ls) \<Rightarrow>
     length (mon_watchers m) = OHUB_MAX_WATCH_PER_MONITOR \<and> mon_watch_qty m \<le> OHUB_MAX_WATCH_PER_MONITOR
     \<and> (\<forall>i. mon_watch_qty m \<le> i \<and> i < OHUB_MAX_WATCH_PER_MONITOR \<longrightarrow> mon_watchers m ! i = None)
     \<and> distinct (attached m) \<and> mon_ref_count m = int (length (attached m))
     \<and> (\<forall>w \<in> set (attached m). w < lw)
     \<and> (\<forall>a. mon_agent m = Some a \<longrightarrow> a < la) \<and> (\<forall>s. mon_nsubj m = Some s \<longrightarrow> s < ls))"

definition securing_of :: "monitor option \<Rightarrow> int" where
  "securing_of x = (case x of None \<Rightarrow> 0 | Some m \<Rightarrow> if mon_securing m then 1 else 0)"

text \<open>\<open>K\<close> holds monitors just created, which have no watcher yet.\<close>

definition table_ok :: "nat set \<Rightarrow> sizes \<Rightarrow> monitor option list \<Rightarrow> int \<Rightarrow> bool" where
  "table_ok K sz ms sq \<longleftrightarrow>
     (\<forall>no < length ms. \<forall>m. ms ! no = Some m \<longrightarrow> monitor_ok sz m \<and> (no \<in> K \<or> mon_ref_count m > 0) \<and> no \<noteq> 0)
     \<and> sq = sum_list (map securing_of ms)"

abbreviation mons_in :: "nat set \<Rightarrow> 'a hubmon_scheme \<Rightarrow> bool" where
  "mons_in K h \<equiv> table_ok K (sizes h) (mons h) (mon_securing_qty h)"

text \<open>The references inside the domain are valid; \<open>mons_ok\<close> relies on it for new monitors.\<close>

definition dom_ok :: "'a hubdom_scheme \<Rightarrow> bool" where
  "dom_ok h \<longleftrightarrow> (\<forall>a \<in> set (agents h). \<forall>s. ag_nsubj a = Some s \<longrightarrow> s < length (subjs h))
     \<and> (\<forall>s \<in> set (subjects h). sb_agent s < length (agents h) \<and> length (sb_waiters s) = OHUB_MAX_SUBJECT_WAITERS)
     \<and> (\<forall>m \<in> set (modules h). mo_subject m < length (subjects h))
     \<and> (\<forall>a \<in> set (map ns_agent (subjs h)). \<forall>i. a = Some i \<longrightarrow> i < length (agents h))"

lemma dom_ok_layout:
  assumes "layout h' = layout h"
  shows "dom_ok h' = dom_ok h"
proof -
  have a: "(\<forall>a \<in> set (agents x). \<forall>s. ag_nsubj a = Some s \<longrightarrow> s < n) \<longleftrightarrow>
      (\<forall>a \<in> set (map agent_layout (agents x)). \<forall>s. snd (snd (snd a)) = Some s \<longrightarrow> s < n)" for x :: "'c hubdom_scheme" and n
    by (simp add: agent_layout_def)
  have b: "(\<forall>s \<in> set (subjects x). sb_agent s < n \<and> length (sb_waiters s) = k) \<longleftrightarrow>
      (\<forall>s \<in> set (map subject_layout (subjects x)). fst (snd (snd (snd s))) < n \<and> snd (snd (snd (snd s))) = k)" for x :: "'c hubdom_scheme" and n k
    by (simp add: subject_layout_def)
  have c: "(\<forall>m \<in> set (modules x). mo_subject m < n) \<longleftrightarrow>
      (\<forall>m \<in> set (map module_layout (modules x)). snd (snd (snd (snd m))) < n)" for x :: "'c hubdom_scheme" and n
    by (simp add: module_layout_def)
  have "map agent_layout (agents h') = map agent_layout (agents h)" "map subject_layout (subjects h') = map subject_layout (subjects h)"
    "map module_layout (modules h') = map module_layout (modules h)" "map ns_agent (subjs h') = map ns_agent (subjs h)"
    using assms by (simp_all add: layout_def net_layout_def)
  then show ?thesis unfolding dom_ok_def a b c using layout_sizes [OF assms] by simp
qed

lemma dom_okD:
  assumes "dom_ok h"
  shows "a < length (agents h) \<Longrightarrow> ag_nsubj (agents h ! a) = Some s \<Longrightarrow> s < length (subjs h)"
    "i < length (subjects h) \<Longrightarrow> sb_agent (subjects h ! i) < length (agents h)"
    "i < length (subjects h) \<Longrightarrow> length (sb_waiters (subjects h ! i)) = OHUB_MAX_SUBJECT_WAITERS"
    "m < length (modules h) \<Longrightarrow> mo_subject (modules h ! m) < length (subjects h)"
    "j < length (subjs h) \<Longrightarrow> ns_agent (subjs h ! j) = Some a \<Longrightarrow> a < length (agents h)"
  using assms nth_mem unfolding dom_ok_def by fastforce+

definition mons_ok :: "'a hubmon_scheme \<Rightarrow> bool" where
  "mons_ok h \<longleftrightarrow> dom_ok h \<and> mons_in {} h"

lemma sum_list_update_int: "i < length xs \<Longrightarrow> sum_list (xs[i := x]) = sum_list xs + x - (xs ! i :: int)"
proof (induction xs arbitrary: i)
  case (Cons y xs) then show ?case by (cases i) auto
qed simp

lemma securing_of_nonneg: "0 \<le> securing_of x" by (simp add: securing_of_def split: option.split)

lemma securing_le_sum: "i < length ms \<Longrightarrow> securing_of (ms ! i) \<le> sum_list (map securing_of ms)"
proof (induction ms arbitrary: i)
  case (Cons y ms)
  have "0 \<le> sum_list (map securing_of ms)" by (rule sum_list_nonneg) (auto simp: securing_of_nonneg)
  then show ?case using Cons securing_of_nonneg [of y] by (cases i) (auto intro: add_increasing)
qed simp

lemma table_update:
  assumes "table_ok K sz ms sq" and "no < length ms"
    and "\<And>m. x = Some m \<Longrightarrow> monitor_ok sz m \<and> (no \<in> K' \<or> mon_ref_count m > 0) \<and> no \<noteq> 0"
    and "sq' = sq + securing_of x - securing_of (ms ! no)" and "K \<subseteq> insert no K'"
  shows "table_ok K' sz (ms[no := x]) sq'"
  using assms unfolding table_ok_def
  by (auto simp: nth_list_update map_update sum_list_update_int)

lemma table_grow:
  assumes "table_ok K sz ms sq" shows "table_ok K sz (ms @ replicate n None) sq"
  using assms by (auto simp: table_ok_def nth_append securing_of_def sum_list_replicate)

lemma table_mono: "table_ok K sz ms sq \<Longrightarrow> K \<subseteq> K' \<Longrightarrow> table_ok K' sz ms sq"
  by (auto simp: table_ok_def)

lemma table_nth: "table_ok K sz ms sq \<Longrightarrow> no < length ms \<Longrightarrow> ms ! no = Some m \<Longrightarrow> monitor_ok sz m"
  by (auto simp: table_ok_def)

lemma fresh_monitor_ok [simp]: "monitor_ok sz no_monitor"
  by (auto simp: monitor_ok_def no_monitor_def attached_def somes_def OHUB_MAX_WATCH_PER_MONITOR_def split: prod.split)

section \<open>Frames\<close>

definition mon_frame :: "'a hubmon_scheme \<Rightarrow> 'a hubmon_scheme \<Rightarrow> bool" where
  "mon_frame h h' \<longleftrightarrow> hubmon.more h' = hubmon.more h \<and> layout h' = layout h \<and> waits h' = waits h
     \<and> msg_nodes h' = msg_nodes h \<and> msg_classes h' = msg_classes h \<and> msg_next h' = msg_next h
     \<and> (mons_ok h \<longrightarrow> mons_ok h')"

text \<open>The same with the table left alone.\<close>

definition same_mons :: "'a hubmon_scheme \<Rightarrow> 'a hubmon_scheme \<Rightarrow> bool" where
  "same_mons h h' \<longleftrightarrow> hubmon.more h' = hubmon.more h \<and> layout h' = layout h \<and> waits h' = waits h
     \<and> msg_nodes h' = msg_nodes h \<and> msg_classes h' = msg_classes h \<and> msg_next h' = msg_next h"

lemma mon_frame_refl [simp]: "mon_frame h h" by (simp add: mon_frame_def)
lemma mon_frame_trans: "mon_frame h1 h2 \<Longrightarrow> mon_frame h2 h3 \<Longrightarrow> mon_frame h1 h3" by (simp add: mon_frame_def)
lemma same_mons_refl [simp]: "same_mons h h" by (simp add: same_mons_def)
lemma same_mons_trans: "same_mons h1 h2 \<Longrightarrow> same_mons h2 h3 \<Longrightarrow> same_mons h1 h3" by (simp add: same_mons_def)

lemma mon_frameI: "same_mons h h' \<Longrightarrow> (dom_ok h \<Longrightarrow> mons_in {} h \<Longrightarrow> mons_in {} h') \<Longrightarrow> mon_frame h h'"
  using dom_ok_layout [of h' h] by (simp add: mon_frame_def same_mons_def mons_ok_def)

lemma mon_frame_same: "mon_frame h h' \<Longrightarrow> same_mons h h'"
  by (simp add: mon_frame_def same_mons_def)

lemma layout_mon_simps [simp]:
  "layout (mons_update f1 h) = layout h" "waits (mons_update f1 h) = waits h"
  "layout (mon_securing_qty_update f2 h) = layout h" "waits (mon_securing_qty_update f2 h) = waits h"
  "layout (by_ooid_mon_hash_update f3 h) = layout h" "waits (by_ooid_mon_hash_update f3 h) = waits h"
  "layout (upd_mon no f h) = layout h" "waits (upd_mon no f h) = waits h"
  by (simp_all add: layout_def waits_def net_layout_def upd_mon_def)

lemma sizes_layout: "layout h' = layout h \<Longrightarrow> sizes h' = sizes h"
  using layout_sizes [of h' h] by (simp add: sizes_def)

lemma hubdom_more_mons:
  fixes h h' :: "'a hubmon_scheme"
  assumes "hubdom.more h' = hubdom.more h"
  shows "hubmon.more h' = hubmon.more h \<and> msg_nodes h' = msg_nodes h \<and> msg_classes h' = msg_classes h
    \<and> msg_next h' = msg_next h \<and> mons h' = mons h \<and> mon_securing_qty h' = mon_securing_qty h
    \<and> by_ooid_mon_hash h' = by_ooid_mon_hash h"
  using assms by (cases h, cases h') simp

lemma dom_frame_mons:
  fixes h h' :: "'a hubmon_scheme"
  assumes "dom_frame h h'"
  shows "same_mons h h'" "mons h' = mons h" "mon_securing_qty h' = mon_securing_qty h"
    "by_ooid_mon_hash h' = by_ooid_mon_hash h" "sizes h' = sizes h"
proof -
  have e: "hubdom.more h' = hubdom.more h" "layout h' = layout h" "waits h' = waits h"
    using assms by (simp_all add: dom_frame_def)
  show "same_mons h h'" "mons h' = mons h" "mon_securing_qty h' = mon_securing_qty h"
    "by_ooid_mon_hash h' = by_ooid_mon_hash h" "sizes h' = sizes h"
    using hubdom_more_mons [OF e(1)] e(2,3) sizes_layout [OF e(2)] by (simp_all add: same_mons_def)
qed

lemma dom_frame_mon:
  fixes h h' :: "'a hubmon_scheme"
  assumes "dom_frame h h'"
  shows "mon_frame h h'"
  using dom_frame_mons [OF assms] by (intro mon_frameI) simp_all

lemma net_frame_mon:
  fixes h h' :: "'a hubmon_scheme"
  shows "net_frame h h' \<Longrightarrow> mon_frame h h'"
  by (rule dom_frame_mon, rule net_frame_dom)

lemma ohubFindMonitorByOoid_same: "mon_frame h (snd (ohubFindMonitorByOoid ooid h))"
  by (rule mon_frameI)
    (auto simp: ohubFindMonitorByOoid_def case_prod_unfold Let_def same_mons_def sizes_def split: option.split)

section \<open>Attaching and detaching\<close>

lemma somes_split:
  assumes "i < length xs"
  shows "somes (xs[i := x]) = somes (take i xs) @ (case x of None \<Rightarrow> [] | Some w \<Rightarrow> [w]) @ somes (drop (Suc i) xs)"
    "somes xs = somes (take i xs) @ (case xs ! i of None \<Rightarrow> [] | Some w \<Rightarrow> [w]) @ somes (drop (Suc i) xs)"
proof -
  show 1: "somes (xs[i := x]) = somes (take i xs) @ (case x of None \<Rightarrow> [] | Some w \<Rightarrow> [w]) @ somes (drop (Suc i) xs)" for x
    by (subst upd_conv_take_nth_drop [OF assms]) (auto simp: somes_def split: option.split)
  show "somes xs = somes (take i xs) @ (case xs ! i of None \<Rightarrow> [] | Some w \<Rightarrow> [w]) @ somes (drop (Suc i) xs)"
    using 1 [of "xs ! i"] by simp
qed

lemma set_somes: "w \<in> set (somes xs) \<longleftrightarrow> Some w \<in> set xs"
  by (force simp: somes_def)

lemma detach_ok:
  assumes "monitor_ok sz m" and "i < OHUB_MAX_WATCH_PER_MONITOR" and "mon_watchers m ! i = Some w"
  shows "monitor_ok sz ((detach i m)\<lparr>mon_ref_count := mon_ref_count m - 1\<rparr>)"
    "w \<notin> set (attached (detach i m))" "set (attached (detach i m)) \<subseteq> set (attached m)"
proof -
  note s = somes_split [of i "mon_watchers m"]
  have l: "i < length (mon_watchers m)" using assms by (auto simp: monitor_ok_def split: prod.splits)
  have "\<not> mon_watch_qty m \<le> i" using assms by (auto simp: monitor_ok_def split: prod.splits)
  then have q: "mon_watch_qty m \<noteq> i + 1 \<Longrightarrow> i + 1 < mon_watch_qty m" by simp
  show "monitor_ok sz ((detach i m)\<lparr>mon_ref_count := mon_ref_count m - 1\<rparr>)"
    using assms q s(1) [OF l, of None] s(2) [OF l]
    by (auto simp: monitor_ok_def detach_def attached_def nth_list_update less_Suc_eq_le split: prod.splits)
  show "w \<notin> set (attached (detach i m))" "set (attached (detach i m)) \<subseteq> set (attached m)"
    using assms s(1) [OF l, of None] s(2) [OF l]
    by (auto simp: monitor_ok_def detach_def attached_def split: prod.splits)
qed

lemma attach_ok:
  assumes "monitor_ok (lw, la, ls) m" and "i < OHUB_MAX_WATCH_PER_MONITOR" and "mon_watchers m ! i = None"
    and "w \<notin> set (attached m)" and "w < lw"
  shows "monitor_ok (lw, la, ls) (m\<lparr>mon_watchers := (mon_watchers m)[i := Some w],
     mon_watch_qty := (if i \<ge> mon_watch_qty m then i + 1 else mon_watch_qty m), mon_ref_count := mon_ref_count m + 1\<rparr>)"
proof -
  have l: "i < length (mon_watchers m)" using assms by (simp add: monitor_ok_def)
  note s = somes_split [OF l]
  show ?thesis
    using assms s(1) [of "Some w"] s(2)
    by (auto simp: monitor_ok_def attached_def nth_list_update)
qed

section \<open>Tables\<close>

lemma first_free_SomeD: "first_free ns ms = Some no \<Longrightarrow> no \<in> set ns \<and> ms ! no = None"
  by (induction ns) (auto split: if_splits)

lemma ohubAllocateMonitor_law:
  assumes "ohubAllocateMonitor E h = (Some no, h')" and "mons_in K h"
  shows "same_mons h h'" "sizes h' = sizes h" "no < length (mons h')" "mons h' ! no = Some no_monitor" "mons_in (insert no K) h'"
proof -
  have z: "securing_of (Some no_monitor) = 0" "securing_of None = 0" by (simp_all add: securing_of_def no_monitor_def)
  show "same_mons h h'" "sizes h' = sizes h" using assms
    by (auto simp: ohubAllocateMonitor_def Let_def same_mons_def sizes_def split: option.splits if_splits)
  have al: "env_alloc E 472" using assms(1) by (simp add: ohubAllocateMonitor_def split: if_splits)
  have "no < length (mons h') \<and> mons h' ! no = Some no_monitor \<and> mons_in (insert no K) h'"
  proof (cases "first_free [1..<length (mons h)] (mons h)")
    case (Some f)
    then have free: "first_free [1..<length (mons h)] (mons h) = Some no" "h' = h\<lparr>mons := (mons h)[no := Some no_monitor]\<rparr>"
      using assms(1) al by (auto simp: ohubAllocateMonitor_def)
    have "mons_in (insert no K) h'"
      using table_update [OF assms(2), of no "Some no_monitor" "insert no K" "mon_securing_qty h"] first_free_SomeD [OF free(1)]
      by (auto simp: free(2) z sizes_def)
    then show ?thesis using free(2) first_free_SomeD [OF free(1)] by simp
  next
    case None
    then have grow: "h' = h\<lparr>mons := (mons h @ replicate (length (mons h) + 2) None)[no := Some no_monitor]\<rparr>"
      "no = (if length (mons h) \<le> 0 then 1 else length (mons h))"
      using assms(1) al unfolding ohubAllocateMonitor_def Let_def by (auto split: if_split_asm simp del: replicate_add replicate.simps)
    let ?ms = "mons h @ replicate (length (mons h) + 2) None"
    have n: "no < length ?ms" "?ms ! no = None" "no \<noteq> 0" using grow(2) by (auto simp: nth_append)
    have "mons_in (insert no K) h'"
      using table_update [OF table_grow [OF assms(2)] n(1), of "Some no_monitor" "insert no K" "mon_securing_qty h"] n(2,3)
      by (auto simp: grow(1) z sizes_def)
    then show ?thesis using grow(1) n by simp
  qed
  then show "no < length (mons h')" "mons h' ! no = Some no_monitor" "mons_in (insert no K) h'" by auto
qed

lemma ohubDeallocateMonitor_law:
  assumes "mons_in K h" and "no < length (mons h)" and "mons h ! no = Some m"
  shows "same_mons h (ohubDeallocateMonitor no h)" "mons_in (K - {no}) (ohubDeallocateMonitor no h)"
proof -
  show "same_mons h (ohubDeallocateMonitor no h)" by (simp add: ohubDeallocateMonitor_def Let_def same_mons_def)
  have s: "securing_of (Some m) \<le> mon_securing_qty h"
    using securing_le_sum [OF assms(2)] assms(1,3) by (simp add: table_ok_def)
  have e: "max 0 (mon_securing_qty h - 1) = mon_securing_qty h - securing_of (Some m)" if "mon_securing m"
    using s that by (simp add: securing_of_def)
  show "mons_in (K - {no}) (ohubDeallocateMonitor no h)"
    using table_update [OF assms(1,2), of None "K - {no}" "mon_securing_qty h - securing_of (Some m)"] assms(3) e
      subset_insertI [of K no]
    by (auto simp: ohubDeallocateMonitor_def the_mon_def Let_def sizes_def securing_of_def)
qed

section \<open>Operations that only send\<close>

lemma ohubMonFlushUnregAccum_net [intro]: "net_frame h (snd (ohubMonFlushUnregAccum E s h))"
  unfolding ohubMonFlushUnregAccum_def Let_def case_prod_unfold snd_conv
  by (rule net_frame_trans [OF _ net_frame_upd_subj]) auto

lemma unreg_put_net [intro]: "net_frame h (unreg_put E s u h)"
  unfolding unreg_put_def Let_def
  by (rule net_frame_trans [OF _ net_frame_upd_subj]) auto

lemma mon_fault_net [simp]: "net_frame h (mon_fault m h)"
  by (simp add: mon_fault_def)

lemma ohubMonAgentRegister_net [intro]: "net_frame h (snd (ohubMonAgentRegister E no h))"
  by (auto simp: ohubMonAgentRegister_def Let_def split: option.split intro: net_frame_trans [OF mon_fault_net])

section \<open>Removing a watcher from a monitor\<close>

text \<open>Which watcher observes which monitor.\<close>

definition watched :: "'a hubmon_scheme \<Rightarrow> (nat \<times> nat) set" where
  "watched h = {(no, w). no < length (mons h) \<and> (\<exists>m. mons h ! no = Some m \<and> w \<in> set (attached m))}"

lemma watched_update:
  "no < length (mons h) \<Longrightarrow> mons g = (mons h)[no := Some m] \<Longrightarrow>
    watched g = {p \<in> watched h. fst p \<noteq> no} \<union> Pair no ` set (attached m)"
  "no < length (mons h) \<Longrightarrow> mons g = (mons h)[no := None] \<Longrightarrow> watched g = {p \<in> watched h. fst p \<noteq> no}"
  by (auto simp: watched_def nth_list_update split: if_splits)

lemma watched_at: "no < length (mons h) \<Longrightarrow> mons h ! no = Some m \<Longrightarrow> (no, w) \<in> watched h \<longleftrightarrow> w \<in> set (attached m)"
  by (simp add: watched_def)

lemma watched_cong: "mons h' = mons h \<Longrightarrow> watched h' = watched h"
  by (simp add: watched_def)

lemma mons_upd_mon [simp]: "no < length (mons h) \<Longrightarrow> mons (upd_mon no f h) = (mons h)[no := map_option f (mons h ! no)]"
  by (simp add: upd_mon_def)

lemma upd_mon_twice: "no < length (mons h) \<Longrightarrow> upd_mon no g (upd_mon no f h) = upd_mon no (g \<circ> f) h"
  by (simp add: upd_mon_def option.map_comp)

lemma upd_mon_same: "same_mons h (upd_mon no f h)" "mon_securing_qty (upd_mon no f h) = mon_securing_qty h"
    "sizes (upd_mon no f h) = sizes h"
  by (simp_all add: same_mons_def upd_mon_def sizes_def)

lemma detach_remove:
  assumes "mons_ok h" and "no < length (mons h)" and "mons h ! no = Some m"
    and "i < OHUB_MAX_WATCH_PER_MONITOR" and "mon_watchers m ! i = Some w"
  shows "mon_frame h (snd (ohubMonRemoveMonitor E no (upd_mon no (detach i) h)))
    \<and> watched (snd (ohubMonRemoveMonitor E no (upd_mon no (detach i) h))) = watched h - {(no, w)}
    \<and> length (mons (snd (ohubMonRemoveMonitor E no (upd_mon no (detach i) h)))) = length (mons h)"
proof -
  define M where "M = (detach i m)\<lparr>mon_ref_count := mon_ref_count m - 1\<rparr>"
  define g where "g = upd_mon no (\<lambda>m. m\<lparr>mon_ref_count := mon_ref_count m - 1\<rparr>) (upd_mon no (detach i) h)"
  have mo: "monitor_ok (sizes h) m" and n0: "no \<noteq> 0" using assms(1-3) by (auto simp: mons_ok_def table_ok_def)
  have g: "mons g = (mons h)[no := Some M]" "the_mon g no = M" "same_mons h g" "mon_securing_qty g = mon_securing_qty h"
    "sizes g = sizes h"
    using assms(2,3) unfolding g_def by (simp_all add: the_mon_def M_def detach_def upd_mon_def same_mons_def sizes_def)
  have gn: "mons g ! no = Some M" "length (mons g) = length (mons h)" using g(1) assms(2) by simp_all
  have M: "monitor_ok (sizes h) M" unfolding M_def by (rule detach_ok(1) [OF mo assms(4,5)])
  have sc: "securing_of (Some M) = securing_of (mons h ! no)"
    by (simp add: assms(3) securing_of_def detach_def M_def)
  have gk: "mons_in {no} g"
    using table_update [OF assms(1) [unfolded mons_ok_def, THEN conjunct2] assms(2), of "Some M" "{no}" "mon_securing_qty h"] M sc n0
    unfolding g by simp
  have l: "i < length (mon_watchers m)" using mo assms(4) by (auto simp: monitor_ok_def split: prod.splits)
  have "set (attached m) = insert w (set (attached M))"
    using somes_split(1) [OF l, of None] somes_split(2) [OF l] assms(5) by (auto simp: attached_def detach_def M_def)
  moreover have "w \<notin> set (attached M)"
    using detach_ok(2) [OF mo assms(4,5)] by (simp add: attached_def M_def)
  ultimately have wa: "set (attached M) = set (attached m) - {w}" by auto
  have W: "watched g = watched h - {(no, w)}"
    unfolding watched_update(1) [OF assms(2) g(1)] wa using watched_at [OF assms(2,3)] by auto
  show ?thesis
  proof (cases "mon_ref_count M > 0")
    case True
    have "snd (ohubMonRemoveMonitor E no (upd_mon no (detach i) h)) = g"
      using True by (simp add: ohubMonRemoveMonitor_def Let_def g(2) flip: g_def)
    moreover have "mons_in {} g"
      using table_update [OF assms(1) [unfolded mons_ok_def, THEN conjunct2] assms(2), of "Some M" "{}" "mon_securing_qty h"] M sc True n0
      unfolding g by simp
    ultimately show ?thesis using W g gn by (simp add: mon_frameI mons_ok_def)
  next
    case False
    then have z: "attached M = []" using M by (auto simp: monitor_ok_def split: prod.splits)
    define h1 where "h1 = mon_fault M (g\<lparr>by_ooid_mon_hash := snd (treeNumAddOrSet E (by_ooid_mon_hash g) (sint (mon_ooid M)) 0)\<rparr>)"
    obtain h2 where h2: "snd (ohubMonRemoveMonitor E no (upd_mon no (detach i) h)) = ohubDeallocateMonitor no h2"
      "net_frame h1 h2"
    proof (cases "mon_agent_off M h1 \<or> mon_nsubj M = None")
      case True
      then show ?thesis using False that [of h1] by (simp add: ohubMonRemoveMonitor_def Let_def g(2) h1_def flip: g_def)
    next
      case b: False
      then have "snd (ohubMonRemoveMonitor E no (upd_mon no (detach i) h))
          = ohubDeallocateMonitor no (unreg_put E (the (mon_nsubj M)) (OHTONL (mon_ooid M)) h1)"
        using False by (auto simp add: ohubMonRemoveMonitor_def Let_def g(2) h1_def g_def [symmetric])
      then show ?thesis by (rule that) (rule unreg_put_net)
    qed
    have f1: "dom_frame (g\<lparr>by_ooid_mon_hash := snd (treeNumAddOrSet E (by_ooid_mon_hash g) (sint (mon_ooid M)) 0)\<rparr>) h2"
      by (rule net_frame_dom, rule net_frame_trans [OF _ h2(2)]) (simp add: h1_def)
    from dom_frame_mons [OF f1] have f: "same_mons g h2" "mons h2 = mons g" "mon_securing_qty h2 = mon_securing_qty g"
      "sizes h2 = sizes g" by (simp_all add: same_mons_def sizes_def)
    note d = ohubDeallocateMonitor_law [of "{no}" h2 no M]
    have k: "mons_in {no} h2" "no < length (mons h2)" "mons h2 ! no = Some M"
      using gk gn assms(2) by (simp_all add: f)
    have dm: "mons (ohubDeallocateMonitor no h2) = (mons g)[no := None]"
      by (simp add: ohubDeallocateMonitor_def Let_def f(2))
    have "watched (ohubDeallocateMonitor no h2) = watched g"
      unfolding watched_update(2) [OF _ dm, unfolded gn, OF assms(2)]
      using watched_at [of no g] gn assms(2) z by auto
    then show ?thesis
      unfolding h2(1) using d [OF k] W gn(2) same_mons_trans [OF g(3) same_mons_trans [OF f(1) d(1) [OF k]]]
      by (simp add: mon_frameI mons_ok_def dm)
  qed
qed

lemma index_of_Some: "index_of x xs = Some i \<Longrightarrow> i < length xs \<and> xs ! i = x"
  by (auto simp: index_of_def find_Some_iff)

lemma index_of_None: "index_of x xs = None \<longleftrightarrow> x \<notin> set xs"
  by (auto simp: index_of_def find_None_iff in_set_conv_nth)

lemma last_index_of_Some: "last_index_of x xs = Some i \<Longrightarrow> i < length xs \<and> xs ! i = x"
  using find_SomeD [of "\<lambda>i. xs ! i = x" "rev [0..<length xs]" i] by (simp add: last_index_of_def)

lemma monitor_len: "monitor_ok sz m \<Longrightarrow> length (mon_watchers m) = OHUB_MAX_WATCH_PER_MONITOR"
  by (auto simp: monitor_ok_def split: prod.splits)

lemma mons_ok_nth: "mons_ok h \<Longrightarrow> no < length (mons h) \<Longrightarrow> mons h ! no = Some m \<Longrightarrow> monitor_ok (sizes h) m"
  by (auto simp: mons_ok_def table_ok_def)

lemma attached_iff: "w \<in> set (attached m) \<longleftrightarrow> Some w \<in> set (mon_watchers m)"
  by (simp add: attached_def set_somes)

lemma remove_watch_loop_law:
  assumes "mons_ok h" and "\<forall>no \<in> set ns. no < length (mons h)"
  shows "case remove_watch_loop E w ns (q, h) of (q', h') \<Rightarrow>
    mon_frame h h' \<and> watched h' = watched h - {(no, w) | no. no \<in> set ns} \<and> length (mons h') = length (mons h)"
  using assms
proof (induction ns arbitrary: q h)
  case (Cons no ns)
  have no: "no < length (mons h)" using Cons.prems by simp
  consider (none) "(no, w) \<notin> watched h" "remove_watch_loop E w (no # ns) (q, h) = remove_watch_loop E w ns (q, h)"
    | (some) m i where "mons h ! no = Some m" "i < OHUB_MAX_WATCH_PER_MONITOR" "mon_watchers m ! i = Some w"
      "remove_watch_loop E w (no # ns) (q, h)
        = remove_watch_loop E w ns (Suc q, snd (ohubMonRemoveMonitor E no (upd_mon no (detach i) h)))"
  proof (cases "mons h ! no")
    case None
    then show ?thesis using none by (simp add: watched_def)
  next
    case (Some m)
    show ?thesis
    proof (cases "index_of (Some w) (mon_watchers m)")
      case None
      then show ?thesis using none Some watched_at [OF no Some, of w] index_of_None [THEN iffD1, OF None]
        by (simp add: attached_iff)
    next
      case i: (Some i)
      show ?thesis
        by (rule some [OF Some, of i]) (use i Some index_of_Some [OF i] monitor_len [OF mons_ok_nth [OF Cons.prems(1) no Some]] in simp_all)
    qed
  qed
  then show ?case
  proof cases
    case none
    then show ?thesis using Cons.IH [of h q] Cons.prems by auto
  next
    case some
    let ?h = "snd (ohubMonRemoveMonitor E no (upd_mon no (detach i) h))"
    have d: "mon_frame h ?h" "watched ?h = watched h - {(no, w)}" "length (mons ?h) = length (mons h)"
      using detach_remove [OF Cons.prems(1) no some(1-3), of E] by simp_all
    then have "mons_ok ?h" "\<forall>no \<in> set ns. no < length (mons ?h)" using Cons.prems by (simp_all add: mon_frame_def)
    from Cons.IH [OF this, of "Suc q"] show ?thesis unfolding some(4)
      using d mon_frame_trans [OF d(1)] by auto
  qed
qed simp

lemma watched_range: "mons_ok h \<Longrightarrow> (no, w) \<in> watched h \<Longrightarrow> w < length (watchers h) \<and> 0 < no \<and> no < length (mons h)"
  by (auto simp: watched_def mons_ok_def table_ok_def monitor_ok_def sizes_def split: prod.splits)

lemma ohubMonRemoveWatch_law:
  assumes "mons_ok h"
  shows "mon_frame h (snd (ohubMonRemoveWatch E w h))"
    "watched (snd (ohubMonRemoveWatch E w h)) = {p \<in> watched h. snd p \<noteq> w}"
  using remove_watch_loop_law [OF assms, where ns = "[1..<length (mons h)]" and E = E and w = w and q = 0] watched_range [OF assms]
  by (auto simp: ohubMonRemoveWatch_def case_prod_unfold Suc_le_eq)

lemma renew_loop_net: "net_frame h (snd (renew_loop E w ns (q, h)))"
proof (induction ns arbitrary: q h)
  case (Cons no ns)
  have "net_frame h (snd (renew_loop E w ns (k, snd (ohubAnnounceChange E no (Some w) h))))" for k
    by (rule net_frame_trans [OF ohubAnnounceChange_net Cons.IH])
  then show ?case using Cons.IH by (auto split: option.split)
qed simp

lemma ohubMonRenewWatch_net [intro]: "net_frame h (snd (ohubMonRenewWatch E w h))"
  unfolding ohubMonRenewWatch_def by (rule renew_loop_net)

section \<open>Updates of a monitor that keep its watchers\<close>

lemma upd_mon_frame:
  assumes "no < length (mons h)" and "mons h ! no = Some m"
    and "mon_watchers (f m) = mon_watchers m" and "mon_watch_qty (f m) = mon_watch_qty m"
    and "mon_ref_count (f m) = mon_ref_count m"
    and "mon_agent (f m) = mon_agent m" and "mon_nsubj (f m) = mon_nsubj m"
    and "mon_securing_qty g = mon_securing_qty h + securing_of (Some (f m)) - securing_of (Some m)"
    and "g = upd_mon no f h\<lparr>mon_securing_qty := mon_securing_qty g\<rparr>"
  shows "mon_frame h g" "watched g = watched h"
proof -
  have g: "mons g = (mons h)[no := Some (f m)]" "sizes g = sizes h" "same_mons h g"
    by (subst assms(9), simp add: upd_mon_def assms(2) sizes_def same_mons_def)+
  have at: "attached (f m) = attached m" by (simp add: attached_def assms(3))
  have "mons_in {} g" if "mons_in {} h"
  proof -
    have "monitor_ok (sizes h) m \<and> mon_ref_count m > 0 \<and> no \<noteq> 0" using that assms(1,2) by (auto simp: table_ok_def)
    then have "monitor_ok (sizes h) (f m) \<and> mon_ref_count (f m) > 0 \<and> no \<noteq> 0"
      using assms(3-7) at by (cases "sizes h") (auto simp: monitor_ok_def)
    then show ?thesis unfolding g using table_update [OF that assms(1), of "Some (f m)" "{}" "mon_securing_qty g"] assms(2,8)
      by simp
  qed
  then show "mon_frame h g" by (intro mon_frameI g(3))
  show "watched g = watched h"
    unfolding watched_update(1) [OF assms(1) g(1)] at using watched_at [OF assms(1,2)] by auto
qed

lemma update_mon_address_frame: 
  assumes "no < length (mons h)"
  shows "mon_frame h (update_mon_address mods no h)" "watched (update_mon_address mods no h) = watched h"
    "length (mons (update_mon_address mods no h)) = length (mons h)"
proof -
  have "mon_frame h (update_mon_address mods no h) \<and> watched (update_mon_address mods no h) = watched h
    \<and> length (mons (update_mon_address mods no h)) = length (mons h)"
  proof (cases "mons h ! no")
    case (Some m)
    let ?q = "snd (ohubRefineQuarkAddress (mon_quark m) h)"
    let ?sec = "qk_phys_addr ?q \<noteq> -1 \<and> \<not> mon_securing m"
    let ?f = "\<lambda>m. m\<lparr>mon_quark := ?q, mon_securing := mon_securing m \<or> ?sec\<rparr>"
    let ?g = "(upd_mon no ?f h)\<lparr>mon_securing_qty := mon_securing_qty h + (if ?sec then 1 else 0)\<rparr>"
    have "mon_frame h ?g" "watched ?g = watched h"
      by (rule upd_mon_frame [OF assms Some, where f = ?f]; simp add: securing_of_def)+
    moreover have "length (mons ?g) = length (mons h)" by (simp add: upd_mon_def)
    ultimately show ?thesis using Some by (simp add: update_mon_address_def Let_def)
  qed (simp add: update_mon_address_def)
  then show "mon_frame h (update_mon_address mods no h)" "watched (update_mon_address mods no h) = watched h"
    "length (mons (update_mon_address mods no h)) = length (mons h)" by simp_all
qed

lemma end_securing_frame:
  assumes "no < length (mons h)" and "mons h ! no = Some m" and "mon_securing m"
  shows "mon_frame h (end_securing no h)" "watched (end_securing no h) = watched h"
    "length (mons (end_securing no h)) = length (mons h)"
  unfolding end_securing_def
  by (rule upd_mon_frame [OF assms(1,2), where f = "\<lambda>m. m\<lparr>mon_securing := False\<rparr>"]; simp add: securing_of_def assms(3))+
    (simp add: upd_mon_def)

lemma ohubUpdateMonAddresses_frame: "mon_frame h (ohubUpdateMonAddresses mods h)"
proof -
  have "mon_frame h (fold (update_mon_address mods) ns h) \<and> length (mons (fold (update_mon_address mods) ns h)) = length (mons h)"
    if "\<forall>no \<in> set ns. no < length (mons h)" for ns using that
  proof (induction ns arbitrary: h)
    case (Cons no ns)
    then show ?case using update_mon_address_frame [of no h mods] by (auto intro: mon_frame_trans)
  qed simp
  then show ?thesis by (simp add: ohubUpdateMonAddresses_def)
qed

lemma upd_agent_mon:
  fixes h :: "'a hubmon_scheme"
  assumes "\<And>a. agent_layout (f a) = agent_layout a"
  shows "mon_frame h (upd_agent i f h)"
  by (rule dom_frame_mon, rule dom_frame_upd_agent, rule assms)

lemma upd_agent_count [simp]: "mon_frame h (upd_agent i (\<lambda>a. a\<lparr>ag_reg_count := f (ag_reg_count a)\<rparr>) h)"
  by (rule upd_agent_mon) (simp add: agent_layout_def)

lemma mons_upd_agent [simp]: "mons (upd_agent i f h) = mons h" "mons (mon_fault m h) = mons h"
  "mon_securing_qty (upd_agent i f h) = mon_securing_qty h"
  by (simp_all add: upd_agent_def mon_fault_def set_fault_def)

lemma mons_net: fixes h :: "'a hubmon_scheme" shows "net_frame h h' \<Longrightarrow> mons h' = mons h"
  by (auto elim!: net_frameE)

lemma mon_fault_mon [simp]: fixes h :: "'a hubmon_scheme" shows "mon_frame h (mon_fault m h)"
  by (rule net_frame_mon) simp

lemma secure_loop_frame:
  assumes "\<forall>no \<in> set ns. no < length (mons h)"
  shows "mon_frame h (snd (secure_loop E ns (q, h)))"
  using assms
proof (induction ns arbitrary: q h)
  case (Cons no ns)
  have no: "no < length (mons h)" using Cons.prems by simp
  have IH: "mon_frame h g \<Longrightarrow> length (mons g) = length (mons h) \<Longrightarrow> mon_frame h (snd (secure_loop E ns (k, g)))" for g k
    using Cons.IH [of g k] Cons.prems mon_frame_trans by auto
  show ?case
  proof (cases "mons h ! no")
    case None
    then show ?thesis using IH [of h] by simp
  next
    case (Some m)
    let ?f = "mon_fault m h"
    let ?r = "upd_agent (the (mon_agent m)) (\<lambda>a. a\<lparr>ag_reg_count := ag_reg_count a + 1\<rparr>) (snd (ohubMonAgentRegister E no ?f))"
    have f: "mon_frame h (end_securing no ?f)" "length (mons (end_securing no ?f)) = length (mons h)" if "mon_securing m"
      using end_securing_frame [of no ?f m] no Some that mon_frame_trans [OF mon_fault_mon] by auto
    have rm: "mon_frame h ?r"
      by (rule mon_frame_trans [OF mon_fault_mon mon_frame_trans [OF net_frame_mon [OF ohubMonAgentRegister_net] upd_agent_count]])
    have "mons (snd (ohubMonAgentRegister E no ?f)) = mons ?f" by (rule mons_net) auto
    then have r: "mons ?r = mons h" "mons (snd (ohubMonAgentRegister E no ?f)) = mons h" by simp_all
    have e: "mon_frame h (end_securing no ?r)" "length (mons (end_securing no ?r)) = length (mons h)" if "mon_securing m"
      using end_securing_frame [of no ?r m] no Some that mon_frame_trans [OF rm] by (auto simp: r simp del: mons_upd_agent)
    have "mon_frame h (snd (secure_loop E ns (k, ?f)))" "mon_frame h (snd (secure_loop E ns (k, h)))" for k
      by (rule IH; simp)+
    moreover have "mon_frame h (snd (secure_loop E ns (k, end_securing no ?f)))"
      "mon_frame h (snd (secure_loop E ns (k, end_securing no ?r)))" if "mon_securing m" for k
      using IH [OF f [OF that]] IH [OF e [OF that]] .
    ultimately show ?thesis by (simp add: Some Let_def)
  qed
qed simp

lemma ohubSecureMoreMonitors_frame: "mon_frame h (snd (ohubSecureMoreMonitors E h))"
  unfolding ohubSecureMoreMonitors_def by (auto intro: secure_loop_frame)

section \<open>Requests\<close>

lemma ohubFindMonitorByOoid_Some:
  assumes "ohubFindMonitorByOoid ooid h = (Some no, h1)"
  obtains m where "no < length (mons h1)" "mons h1 ! no = Some m" "mon_frame h h1"
proof -
  have "no < length (mons h1) \<and> mons h1 ! no \<noteq> None"
    using assms by (auto simp: ohubFindMonitorByOoid_def Let_def case_prod_unfold split: if_splits option.splits)
  then show ?thesis using that ohubFindMonitorByOoid_same [of h ooid] assms by auto
qed

lemma ohubFindMonitorByOoid_frame: "ohubFindMonitorByOoid ooid h = (r, h1) \<Longrightarrow> mon_frame h h1"
  using ohubFindMonitorByOoid_same [of h ooid] by simp

lemma watch_send_mon [intro]:
  fixes h :: "'a hubmon_scheme"
  shows "mon_frame h h1 \<Longrightarrow> mon_frame h (snd (ohubWatchSendPacket E w k t l d h1))"
  by (rule mon_frame_trans [OF _ net_frame_mon]) auto

lemma announce_mon [intro]: "mon_frame h h1 \<Longrightarrow> mon_frame h (snd (ohubAnnounceChange E no my h1))"
  by (rule mon_frame_trans [OF _ net_frame_mon]) auto

lemma detach_remove_frame:
  assumes "no < length (mons h)" and "mons h ! no = Some m" and "mon_watchers m ! i = Some w" and "i < length (mon_watchers m)"
    and "mons_ok h"
  shows "mon_frame h (snd (ohubMonRemoveMonitor E no (upd_mon no (detach i) h)))"
  using detach_remove [OF assms(5,1,2) _ assms(3), of E] assms(4) monitor_len [OF mons_ok_nth [OF assms(5,1,2)]] by simp

text \<open>For operations that are frames only of a table in order.\<close>

lemma mon_frame_ok: "mon_frame h h' \<Longrightarrow> mons_ok h \<Longrightarrow> mons_ok h'"
  by (simp add: mon_frame_def)

lemma ohubMonUnregister_frame:
  assumes "mons_ok h"
  shows "mon_frame h (snd (ohubMonUnregister E ooid w h))"
proof -
  have nak: "mon_frame h h1 \<Longrightarrow> mon_frame h (snd (ohubWatchSendPacket E (Some w) k t l d h1))" for h1 k t l d by auto
  show ?thesis
  proof (cases "ohubFindMonitorByOoid ooid h")
    case (Pair r h1)
    note f = ohubFindMonitorByOoid_frame [OF Pair]
    show ?thesis
    proof (cases r)
      case None
      then show ?thesis using Pair f nak mon_frame_refl by (simp add: ohubMonUnregister_def Let_def)
    next
      case (Some no)
      obtain m where m: "no < length (mons h1)" "mons h1 ! no = Some m"
        by (rule ohubFindMonitorByOoid_Some [OF Pair [unfolded Some]])
      show ?thesis
      proof (cases "last_index_of (Some w) (take (mon_watch_qty m) (mon_watchers m))")
        case None
        then show ?thesis using Pair Some f nak m(2) mon_frame_refl by (simp add: ohubMonUnregister_def the_mon_def Let_def)
      next
        case i: (Some i)
        have "mon_watchers m ! i = Some w" "i < length (mon_watchers m)" using last_index_of_Some [OF i] by auto
        note d = detach_remove_frame [OF m this mon_frame_ok [OF f assms]]
        show ?thesis using Pair Some i f m(2) nak [OF mon_frame_trans [OF f d]] nak [OF mon_frame_refl]
          by (simp add: ohubMonUnregister_def the_mon_def Let_def)
      qed
    qed
  qed
qed

text \<open>The steps of a registration, on a table where the monitor may still be without watchers.\<close>

lemma same_mons_dom: "same_mons h h' \<Longrightarrow> dom_ok h' = dom_ok h" "same_mons h h' \<Longrightarrow> sizes h' = sizes h"
  using dom_ok_layout [of h' h] sizes_layout [of h' h] by (simp_all add: same_mons_def)

lemma monitor_ok_quark [simp]: "monitor_ok sz (m\<lparr>mon_quark := q\<rparr>) = monitor_ok sz m"
  by (simp add: monitor_ok_def attached_def)

lemma reg_fail_law:
  assumes "mons_in {no} h" and "no < length (mons h)" and "mons h ! no = Some m"
  shows "same_mons h (snd (reg_fail (Some no) h))" "mons_in {} (snd (reg_fail (Some no) h))"
proof -
  note d = ohubDeallocateMonitor_law [OF assms]
  have m: "monitor_ok (sizes h) m" "no \<noteq> 0" using assms by (auto simp: table_ok_def)
  have e: "(mons h)[no := Some m] = mons h" by (metis assms(3) list_update_id)
  have "mons_in {} h" if "mon_ref_count m \<noteq> 0"
  proof -
    have "mon_ref_count m > 0" using m(1) that by (auto simp: monitor_ok_def split: prod.splits)
    then have "table_ok {} (sizes h) ((mons h)[no := Some m]) (mon_securing_qty h)"
      using m by (intro table_update [OF assms(1,2)]) (simp_all add: assms(3))
    then show ?thesis by (simp only: e)
  qed
  then show "same_mons h (snd (reg_fail (Some no) h))" "mons_in {} (snd (reg_fail (Some no) h))"
    using d assms(3) by (auto simp: reg_fail_def the_mon_def)
qed

lemma reg_create_law:
  assumes "mons_ok h"
  shows "case reg_create E ooid h of
      (None, h') \<Rightarrow> mon_frame h h'
    | (Some no, h') \<Rightarrow> same_mons h h' \<and> mons_in {no} h' \<and> no < length (mons h') \<and> mons h' ! no \<noteq> None"
proof (cases "ohubAllocateMonitor E h")
  case (Pair r h1)
  show ?thesis
  proof (cases r)
    case None
    have "h1 = h" using Pair None unfolding ohubAllocateMonitor_def Let_def
      by (simp split: if_split_asm option.split_asm)
    then show ?thesis using Pair None by (simp add: reg_create_def)
  next
    case (Some no)
    have k: "mons_in {} h" "dom_ok h" using assms by (simp_all add: mons_ok_def)
    note al = ohubAllocateMonitor_law [OF Pair [unfolded Some] k(1)]
    obtain rc q res h2 where q: "ohubGetInfoByOoid E ooid h1 = (rc, q, res, h2)" by (metis prod.exhaust)
    from ohubGetInfoByOoid_dom [of h1 E ooid] have "dom_frame h1 h2" by (simp add: q)
    note f2 = dom_frame_mons [OF this]
    define h3 where "h3 = upd_mon no (\<lambda>m. m\<lparr>mon_quark := q\<rparr>) h2"
    have h3: "same_mons h h3" "mons h3 = (mons h1)[no := Some (no_monitor\<lparr>mon_quark := q\<rparr>)]"
      "mon_securing_qty h3 = mon_securing_qty h1" "sizes h3 = sizes h1"
      unfolding h3_def by (rule same_mons_trans [OF al(1) same_mons_trans [OF f2(1) upd_mon_same(1)]])
        (use al(3,4) f2 in \<open>simp_all add: upd_mon_same\<close>)
    have ok: "monitor_ok sz (no_monitor\<lparr>mon_quark := q\<rparr>)" for sz
      by simp
    have n0: "no \<noteq> 0" using al(3-5) by (auto simp: table_ok_def)
    have t3: "mons_in {no} h3" "no < length (mons h3)" "mons h3 ! no = Some (no_monitor\<lparr>mon_quark := q\<rparr>)"
      using table_update [OF al(5,3), of "Some (no_monitor\<lparr>mon_quark := q\<rparr>)" "{no}" "mon_securing_qty h1"] ok n0 al(3,4)
      by (simp_all add: h3 securing_of_def no_monitor_def)
    show ?thesis
    proof (cases "rc = OK")
      case False
      have "reg_create E ooid h = (None, snd (reg_fail (Some no) h3))"
        using Pair Some q False by (simp add: reg_create_def Let_def h3_def reg_fail_def)
      then show ?thesis using reg_fail_law [OF t3] same_mons_trans [OF h3(1)] k by (auto intro: mon_frameI)
    next
      case rc: True
      show ?thesis
      proof (cases "qk_obj_ikey q \<ge> 0 \<and> qk_obj_ikey q < int (length (modules h3))")
        case False
        then show ?thesis using Pair Some q rc t3 h3(1) by (auto simp: reg_create_def Let_def h3_def)
      next
        case True
        let ?s = "mo_subject (modules h3 ! nat (qk_obj_ikey q))"
        let ?a = "sb_agent (subjects h3 ! ?s)"
        let ?f = "\<lambda>m. m\<lparr>mon_agent := Some ?a, mon_nsubj := ag_nsubj (agents h3 ! ?a)\<rparr>"
        have d: "dom_ok h3" using k(2) same_mons_dom(1) [OF h3(1)] by simp
        have "?s < length (subjects h3)" using dom_okD(4) [OF d] True by (simp add: nat_less_iff)
        then have "?a < length (agents h3)" by (rule dom_okD(2) [OF d])
        moreover from dom_okD(1) [OF d this] have "ag_nsubj (agents h3 ! ?a) = Some x \<longrightarrow> x < length (subjs h3)" for x by blast
        ultimately have okf: "monitor_ok (sizes h3) (?f (no_monitor\<lparr>mon_quark := q\<rparr>))"
          using ok [of "sizes h3"] by (simp add: monitor_ok_def attached_def sizes_def)
        have "mons_in {no} (upd_mon no ?f h3)"
          using table_update [OF t3(1,2), of "Some (?f (no_monitor\<lparr>mon_quark := q\<rparr>))" "{no}" "mon_securing_qty h3"] okf n0 t3(2,3)
          by (simp add: upd_mon_same securing_of_def)
        moreover have "same_mons h (upd_mon no ?f h3)" by (rule same_mons_trans [OF h3(1) upd_mon_same(1)])
        moreover have "reg_create E ooid h = (Some no, upd_mon no ?f h3)"
          using Pair Some q rc True by (simp add: reg_create_def Let_def h3_def)
        ultimately show ?thesis using t3(2,3) by simp
      qed
    qed
  qed
qed

lemma mon_frame_hash [simp]: "mon_frame h (h\<lparr>by_ooid_mon_hash := t\<rparr>)"
  by (rule mon_frameI) (simp_all add: same_mons_def sizes_def)

lemma upd_mon_frame':
  assumes "no < length (mons h)" and "mons h ! no = Some m"
    and "mon_watchers (f m) = mon_watchers m" and "mon_watch_qty (f m) = mon_watch_qty m"
    and "mon_ref_count (f m) = mon_ref_count m"
    and "mon_agent (f m) = mon_agent m" and "mon_nsubj (f m) = mon_nsubj m" and "mon_securing (f m) = mon_securing m"
  shows "mon_frame h (upd_mon no f h)"
  by (rule upd_mon_frame(1) [where f = f, OF assms(1-7)])
    (simp add: upd_mon_same securing_of_def assms(8), simp add: upd_mon_def)

lemma reg_fail_frame:
  assumes "no < length (mons h)" and "mons h ! no = Some m"
  shows "mon_frame h (snd (reg_fail (Some no) h))"
proof (rule mon_frameI)
  show "same_mons h (snd (reg_fail (Some no) h))"
    by (simp add: reg_fail_def same_mons_def ohubDeallocateMonitor_def Let_def)
  assume "mons_in {} h"
  then have "mons_in {no} h" by (rule table_mono) simp
  then show "mons_in {} (snd (reg_fail (Some no) h))" by (rule reg_fail_law(2) [OF _ assms])
qed

lemma reg_first_frame:
  assumes "no < length (mons h)" and "mons h ! no = Some m"
  shows "mon_frame h (snd (reg_first E no ooid h))"
proof -
  let ?f = "\<lambda>m. m\<lparr>mon_value := (mon_value m)\<lparr>ov_undef := True\<rparr>, mon_ooid := ooid\<rparr>"
  obtain rc t where t: "treeNumAddOrSet E (by_ooid_mon_hash (upd_mon no ?f h)) (sint ooid) (int no) = (rc, t)"
    by (cases "treeNumAddOrSet E (by_ooid_mon_hash (upd_mon no ?f h)) (sint ooid) (int no)")
  define h2 where "h2 = (upd_mon no ?f h)\<lparr>by_ooid_mon_hash := t\<rparr>"
  have h2: "mon_frame h h2" "no < length (mons h2)" "mons h2 ! no = Some (?f m)"
    unfolding h2_def
    by (rule mon_frame_trans [OF upd_mon_frame' [where f = ?f, OF assms] mon_frame_hash], simp_all)
      (simp_all add: upd_mon_def assms)
  have tm: "the_mon h2 no = ?f m" by (simp add: the_mon_def h2(3))
  define h3 where "h3 = mon_fault (?f m) h2"
  have h3: "mon_frame h h3" "no < length (mons h3)" "mons h3 ! no = Some (?f m)"
    unfolding h3_def using h2 by (auto intro: mon_frame_trans)
  let ?g = "(upd_mon no (\<lambda>m. m\<lparr>mon_securing := True\<rparr>) h3)\<lparr>mon_securing_qty := mon_securing_qty h3 + 1\<rparr>"
  have s: "mon_frame h3 ?g" if "\<not> mon_securing m"
    by (rule upd_mon_frame(1) [OF h3(2,3), where f = "\<lambda>m. m\<lparr>mon_securing := True\<rparr>"]) (simp_all add: securing_of_def that)
  have r: "mon_frame h3 (upd_agent i (\<lambda>a. a\<lparr>ag_reg_count := ag_reg_count a + 1\<rparr>) (snd (ohubMonAgentRegister E no h3)))" for i
    by (rule mon_frame_trans [OF net_frame_mon [OF ohubMonAgentRegister_net] upd_agent_count])
  have "mon_frame h (snd (reg_fail (Some no) h2))"
    by (rule mon_frame_trans [OF h2(1) reg_fail_frame [OF h2(2,3)]])
  then show ?thesis
    using h2(1) h3(1) s mon_frame_trans [OF h3(1) r] mon_frame_trans [OF h3(1)]
    by (simp add: reg_first_def Let_def t tm flip: h2_def h3_def)
qed

lemma reg_attach_law:
  assumes "mons_in {no} h" and "no < length (mons h)" and "mons h ! no = Some m" and "dom_ok h" and "w < length (watchers h)"
  shows "same_mons h (snd (reg_attach E no ooid w h))" "mons_ok (snd (reg_attach E no ooid w h))"
proof -
  have m: "monitor_ok (sizes h) m" "no \<noteq> 0" using assms by (auto simp: table_ok_def)
  have fail: "same_mons h (snd (reg_fail (Some no) h)) \<and> mons_ok (snd (reg_fail (Some no) h))"
    using reg_fail_law [OF assms(1-3)] assms(4) same_mons_dom(1) by (auto simp: mons_ok_def)
  show "same_mons h (snd (reg_attach E no ooid w h))" "mons_ok (snd (reg_attach E no ooid w h))"
  proof -
    have "same_mons h (snd (reg_attach E no ooid w h)) \<and> mons_ok (snd (reg_attach E no ooid w h))"
    proof (cases "Some w \<in> set (mon_watchers m)")
      case True
      then show ?thesis using fail assms(3) by (simp add: reg_attach_def the_mon_def)
    next
      case w: False
      show ?thesis
      proof (cases "index_of None (mon_watchers m)")
        case None
        then show ?thesis using fail assms(3) by (simp add: reg_attach_def the_mon_def)
      next
        case (Some i)
        let ?f = "\<lambda>m. m\<lparr>mon_watchers := (mon_watchers m)[i := Some w],
                     mon_watch_qty := (if i \<ge> mon_watch_qty m then i + 1 else mon_watch_qty m),
                     mon_ref_count := mon_ref_count m + 1\<rparr>"
        define h1 where "h1 = upd_mon no ?f h"
        obtain lw la ls where sz: "sizes h = (lw, la, ls)" by (metis prod.exhaust)
        have "monitor_ok (sizes h) (?f m)" unfolding sz
          by (rule attach_ok) (use m(1) index_of_Some [OF Some] monitor_len [OF m(1)] w assms(5) sz in
            \<open>auto simp: attached_iff sizes_def\<close>)
        moreover have "mon_ref_count m \<ge> 0" using m(1) by (auto simp: monitor_ok_def sz)
        ultimately have "table_ok {} (sizes h) ((mons h)[no := Some (?f m)]) (mon_securing_qty h)"
          using m(2) by (intro table_update [OF assms(1,2)]) (auto simp: assms(3) securing_of_def)
        moreover have "dom_ok h1" unfolding h1_def using same_mons_dom(1) [OF upd_mon_same(1)] assms(4) by blast
        ultimately have h1: "same_mons h h1" "mons_ok h1" "no < length (mons h1)" "mons h1 ! no = Some (?f m)"
          using assms(2,3) unfolding mons_ok_def by (simp_all add: h1_def upd_mon_same)
        note rf = reg_first_frame [OF h1(3,4), of E ooid]
        have "snd (reg_attach E no ooid w h) = (if mon_ref_count (the_mon h1 no) = 1 then snd (reg_first E no ooid h1) else h1)"
          using w Some assms(3) by (simp add: reg_attach_def the_mon_def Let_def h1_def)
        then show ?thesis using h1 mon_frame_ok [OF rf] same_mons_trans [OF h1(1) mon_frame_same [OF rf]] by simp
      qed
    qed
    then show "same_mons h (snd (reg_attach E no ooid w h))" "mons_ok (snd (reg_attach E no ooid w h))" by simp_all
  qed
qed

lemma ohubMonRegisterInternal_frame:
  assumes "mons_ok h" and "w < length (watchers h)"
  shows "mon_frame h (snd (ohubMonRegisterInternal E ooid w h))"
proof (cases "ohubFindMonitorByOoid ooid h")
  case (Pair r h1)
  note f = ohubFindMonitorByOoid_frame [OF Pair]
  have k: "mons_ok h1" by (rule mon_frame_ok [OF f assms(1)])
  have lw: "length (watchers g) = length (watchers h)" if "same_mons h g" for g
    using that layout_sizes(1) [of g h] by (simp add: same_mons_def)
  have w1: "w < length (watchers h1)" using lw [OF mon_frame_same [OF f]] assms(2) by simp
  have A: "mon_frame h (snd (reg_attach E no ooid w g))" if "same_mons h g" "mons_in {no} g" "no < length (mons g)" "mons g ! no = Some m" for no g m
  proof -
    have "dom_ok g" using same_mons_dom(1) [OF that(1)] assms(1) by (simp add: mons_ok_def)
    from reg_attach_law [OF that(2-4) this, of w E ooid] lw [OF that(1)] assms(2) same_mons_trans [OF that(1)]
    show ?thesis by (auto simp: mon_frame_def same_mons_def)
  qed
  show ?thesis
  proof (cases r)
    case (Some no)
    obtain m where m: "no < length (mons h1)" "mons h1 ! no = Some m" by (rule ohubFindMonitorByOoid_Some [OF Pair [unfolded Some]])
    have "mons_in {no} h1" by (rule table_mono [of "{}"]) (use k in \<open>simp_all add: mons_ok_def\<close>)
    then show ?thesis using A [OF mon_frame_same [OF f] _ m] Pair Some by (simp add: ohubMonRegisterInternal_def)
  next
    case None
    obtain r2 h2 where c: "reg_create E ooid h1 = (r2, h2)" by (metis prod.exhaust)
    show ?thesis
    proof (cases r2)
      case None
      then show ?thesis using c Pair \<open>r = None\<close> reg_create_law [OF k, of E ooid] mon_frame_trans [OF f]
        by (simp add: ohubMonRegisterInternal_def)
    next
      case (Some no)
      then obtain m where m: "same_mons h1 h2" "mons_in {no} h2" "no < length (mons h2)" "mons h2 ! no = Some m"
        using reg_create_law [OF k, of E ooid] c by auto
      show ?thesis using c Pair \<open>r = None\<close> Some A [OF same_mons_trans [OF mon_frame_same [OF f] m(1)] m(2-4)]
        by (simp add: ohubMonRegisterInternal_def)
    qed
  qed
qed

lemma ohubMonRegister_frame:
  assumes "mons_ok h" and "w < length (watchers h)"
  shows "mon_frame h (snd (ohubMonRegister E ooid w h))"
  using ohubMonRegisterInternal_frame [OF assms] mon_frame_refl [of h]
  by (auto simp: ohubMonRegister_def Let_def case_prod_unfold intro!: announce_mon watch_send_mon split: option.split)

lemma ohubHandleMonRegistration_frame:
  assumes "mons_ok h" and "w < length (watchers h)"
  shows "mon_frame h (snd (ohubHandleMonRegistration E w kind type len buf h))"
  using ohubMonRegister_frame [OF assms] ohubMonUnregister_frame [OF assms(1)]
  by (simp add: ohubHandleMonRegistration_def Let_def)

lemma same_watchers: "mon_frame h h' \<Longrightarrow> length (watchers h') = length (watchers h)"
  using layout_sizes(1) [of h' h] by (simp add: mon_frame_def)

lemma fault_mon [simp]: "mon_frame h h' \<Longrightarrow> mon_frame h (set_fault b h')" for h' :: "'a hubmon_scheme"
  by (rule mon_frame_trans [OF _ net_frame_mon [OF net_frame_fault]])

lemma ohubHandleMonComboRequest_frame:
  assumes "mons_ok h" and "w < length (watchers h)"
  shows "mon_frame h (snd (ohubHandleMonComboRequest E w kind type len buf h))"
proof -
  let ?desc = "takeWhile (\<lambda>c. c \<noteq> 0) (rd_bytes E buf 5 (unat (rd E buf 4)))"
  obtain rc q res h1 where q: "ohubGetInfoByDesc E ?desc h = (rc, q, res, h1)"
    by (cases "ohubGetInfoByDesc E ?desc h")
  have "dom_frame h h1" using ohubGetInfoByDesc_dom [of h E ?desc] by (simp add: q)
  then have f: "mon_frame h (set_fault b h1)" for b by (simp add: dom_frame_mon)
  have g: "mon_frame h (snd (ohubMonRegisterInternal E o1 w (set_fault b h1)))" for o1 b
    using mon_frame_trans [OF f ohubMonRegisterInternal_frame] mon_frame_ok [OF f assms(1)] same_watchers [OF f] assms(2)
    by auto
  show ?thesis
    unfolding ohubHandleMonComboRequest_def Let_def q case_prod_unfold fst_conv snd_conv
    using f g by (auto intro!: announce_mon watch_send_mon)
qed

section \<open>Values\<close>

lemma store_value_keeps:
  "store_value E rotor ty undef time len src m = (err, over, m1) \<Longrightarrow>
     mon_watchers m1 = mon_watchers m \<and> mon_watch_qty m1 = mon_watch_qty m \<and> mon_ref_count m1 = mon_ref_count m
     \<and> mon_agent m1 = mon_agent m \<and> mon_nsubj m1 = mon_nsubj m \<and> mon_securing m1 = mon_securing m"
  by (auto simp: store_value_def Let_def split: if_splits)

lemma mon_reports_frame: "mon_frame h (snd (snd (mon_reports E k p len buf a h)))"
proof (induction k arbitrary: p h)
  case (Suc k)
  obtain ooid ty undef0 time len0 p1 where pr: "parse_report E buf p = (ooid, ty, undef0, time, len0, p1)"
    by (cases "parse_report E buf p")
  let ?src = "rd_bytes E buf p1 (nat len0)" and ?p2 = "if undef0 then p1 else p1 + nat len0"
  obtain r h1 where f: "ohubFindMonitorByOoid ooid h = (r, h1)" by (cases "ohubFindMonitorByOoid ooid h")
  note f1 = ohubFindMonitorByOoid_frame [OF f]
  show ?case
  proof (cases r)
    case None
    then show ?thesis using f f1 mon_frame_trans [OF f1 Suc.IH] by (simp add: pr Let_def)
  next
    case (Some no)
    obtain m where m: "no < length (mons h1)" "mons h1 ! no = Some m" by (rule ohubFindMonitorByOoid_Some [OF f [unfolded Some]])
    have tm: "the_mon h1 no = m" by (simp add: the_mon_def m(2))
    have S: "mon_frame h (snd (snd (case store_value E ro ty' un tm' l src m of (err, over, m1) \<Rightarrow>
        if 0 < err then (err, q, set_fault over (upd_mon no (\<lambda>_. m1) h1))
        else mon_reports E k q len buf a (snd (ohubAnnounceChange E no None (set_fault over (upd_mon no (\<lambda>_. m1) h1)))))))"
      for ro ty' un tm' l src q
    proof (cases "store_value E ro ty' un tm' l src m")
      case (fields err over m1)
      have u: "mon_frame h (set_fault over (upd_mon no (\<lambda>_. m1) h1))"
        using mon_frame_trans [OF f1 upd_mon_frame' [where f = "\<lambda>_. m1", OF m]] store_value_keeps [OF fields] by simp
      then show ?thesis using mon_frame_trans [OF announce_mon [OF u] Suc.IH] by (simp add: fields)
    qed
    show ?thesis using f f1 Some S by (simp add: pr tm Let_def)
  qed
qed simp

lemma ohubHandleMonitoring_frame: "mon_frame h (snd (ohubHandleMonitoring E kind type len buf a h))"
  using mon_reports_frame [of h E _ 1 len buf a]
  by (simp add: ohubHandleMonitoring_def Let_def case_prod_unfold)

lemma ohubMonGetValue_frame: "mon_frame h (snd (ohubMonGetValue E ooid h))"
  using ohubFindMonitorByOoid_same [of h ooid]
  by (auto simp: ohubMonGetValue_def case_prod_unfold Let_def split: option.split)

lemma fold_dom_frame: "(\<And>x h. dom_frame h (f x h)) \<Longrightarrow> dom_frame h (fold f xs h)"
proof (induction xs arbitrary: h)
  case (Cons x xs)
  show ?case using dom_frame_trans [OF Cons.prems Cons.IH [OF Cons.prems]] by simp
qed simp

lemma ohubHandleDataMonReply_dom: "dom_frame h (ohubHandleDataMonReply E a kind type len buf h)"
proof -
  have "dom_frame h (reg_answer a c h)" for c and h :: "'a hubdom_scheme"
    unfolding reg_answer_def by (auto intro!: dom_frame_upd_agent simp: agent_layout_def)
  then show ?thesis by (auto simp: ohubHandleDataMonReply_def Let_def intro: fold_dom_frame)
qed

section \<open>Property\<close>

text \<open>
  C11. The monitor table stays in order whatever watchers and agents send: registration,
  unregistration and combined requests, reports of values, the background work on pending
  registrations, changes of addresses and the removal of a watcher all keep the invariant
  (reference counts, no duplicate watchers, bounds, the count of pending monitors), and after
  the removal of a watcher no monitor refers to it while all other watchers stay attached.
\<close>

theorem monitor_table_kept:
  assumes "mons_ok h" and "w < length (watchers h)"
  shows "mons_ok (snd (ohubHandleMonRegistration E w kind type len buf h))
    \<and> mons_ok (snd (ohubHandleMonComboRequest E w kind type len buf h))
    \<and> mons_ok (snd (ohubHandleMonitoring E kind type len buf a h))
    \<and> mons_ok (snd (ohubSecureMoreMonitors E h)) \<and> mons_ok (ohubUpdateMonAddresses mods h)
    \<and> mons_ok (snd (ohubMonRemoveWatch E w h))
    \<and> watched (snd (ohubMonRemoveWatch E w h)) = {p \<in> watched h. snd p \<noteq> w}"
proof (intro conjI)
  show "watched (snd (ohubMonRemoveWatch E w h)) = {p \<in> watched h. snd p \<noteq> w}"
    by (rule ohubMonRemoveWatch_law(2) [OF assms(1)])
qed (rule mon_frame_ok [OF _ assms(1)], rule ohubHandleMonRegistration_frame [OF assms] ohubHandleMonComboRequest_frame [OF assms]
    ohubHandleMonitoring_frame ohubSecureMoreMonitors_frame ohubUpdateMonAddresses_frame ohubMonRemoveWatch_law(1) [OF assms(1)])+

lemma dom_ok0: "agents h = [agent0] \<Longrightarrow> subjects h = [subject0] \<Longrightarrow> modules h = [module0] \<Longrightarrow>
    subjs h = replicate 33 subj0 \<Longrightarrow> dom_ok h"
  by (simp add: dom_ok_def agent0_def subject0_def module0_def subj0_def OHUB_MAX_SUBJECT_WAITERS_def)

lemma table_ok0: "table_ok {} (33, 1, 33) [None, Some monitor0] 0"
proof -
  have "attached monitor0 = [2, 3, 4]" by (simp add: attached_def somes_def)
  then have "monitor_ok (33, 1, 33) monitor0"
    by (auto simp: monitor_ok_def OHUB_MAX_WATCH_PER_MONITOR_def nth_Cons split: nat.split)
  then show ?thesis by (auto simp: table_ok_def less_Suc_eq securing_of_def)
qed

lemma mons_ok_mon0: "mons_ok mon0"
  using dom_ok0 [of mon0] table_ok0 by (simp add: mons_ok_def sizes_def)

theorem monitor_table_kept_witness:
  "mons_ok (snd (ohubMonRemoveWatch env0 3 mon0)) \<and> (1, 3) \<notin> watched (snd (ohubMonRemoveWatch env0 3 mon0))"
  using monitor_table_kept [OF mons_ok_mon0, of 3 env0 0 0 0 "[]" 0 "[]"] by simp

end
