(* ===== verification/HubInv.thy ===== *)
theory HubInv
  imports HubMain MonInv
begin

text \<open>
  The invariant of the whole hub. Every component's tables are in order and every reference
  between components (watcher, agent, subject, module, monitor, pending operation) is valid;
  every operation of the main loop keeps that.
\<close>

section \<open>Pending operations\<close>

definition data_entry_ok :: "sizes \<Rightarrow> nat \<Rightarrow> data \<Rightarrow> bool" where
  "data_entry_ok sz no d \<longleftrightarrow> (case sz of (lw, la, ls) \<Rightarrow>
     if dt_busy d then 0 < no \<and> unat (dt_id d AND 65535) = no
       \<and> (\<forall>w. dt_watch d = Some w \<longrightarrow> w < lw) \<and> (\<forall>a. dt_agent d = Some a \<longrightarrow> a < la)
     else d = no_data)"

definition busy_of :: "data \<Rightarrow> int" where "busy_of d = (if dt_busy d then 1 else 0)"
definition pending_of :: "data \<Rightarrow> int" where "pending_of d = (if dt_securing d \<noteq> 0 then 1 else 0)"

definition chain_ok :: "sizes \<Rightarrow> data list \<Rightarrow> int \<Rightarrow> int \<Rightarrow> bool" where
  "chain_ok sz ds n sq \<longleftrightarrow> length ds \<le> 65535 \<and> (\<forall>no < length ds. data_entry_ok sz no (ds ! no))
     \<and> n = sum_list (map busy_of ds) \<and> sq = sum_list (map pending_of ds)"

definition data_ok :: "'a hubdata_scheme \<Rightarrow> bool" where
  "data_ok h \<longleftrightarrow> chain_ok (sizes h) (data_chain h) (data_chain_len h) (write_securing_qty h)"

definition waits_ok :: "'a hubdom_scheme \<Rightarrow> bool" where
  "waits_ok h \<longleftrightarrow> (\<forall>ws \<in> set (waits h). \<forall>w. Some w \<in> set ws \<longrightarrow> w < length (watchers h))"

definition hub_ok :: "'a hubdata_scheme \<Rightarrow> bool" where
  "hub_ok h \<longleftrightarrow> dom_ok h \<and> msg_ok h \<and> mons_ok h \<and> data_ok h \<and> waits_ok h"

definition hub_frame :: "'a hubdata_scheme \<Rightarrow> 'a hubdata_scheme \<Rightarrow> bool" where
  "hub_frame h h' \<longleftrightarrow> layout h' = layout h \<and> hubdata.more h' = hubdata.more h \<and> (hub_ok h \<longrightarrow> hub_ok h')"

lemma hub_frame_refl [simp]: "hub_frame h h" by (simp add: hub_frame_def)
lemma hub_frame_trans: "hub_frame h1 h2 \<Longrightarrow> hub_frame h2 h3 \<Longrightarrow> hub_frame h1 h3" by (simp add: hub_frame_def)
lemma hub_frame_ok: "hub_frame h h' \<Longrightarrow> hub_ok h \<Longrightarrow> hub_ok h'" by (simp add: hub_frame_def)

lemma hub_frame_sizes: "hub_frame h h' \<Longrightarrow> length (watchers h') = length (watchers h)"
  "hub_frame h h' \<Longrightarrow> length (subjs h') = length (subjs h)"
  "hub_frame h h' \<Longrightarrow> length (agents h') = length (agents h)"
  "hub_frame h h' \<Longrightarrow> length (subjects h') = length (subjects h)"
  "hub_frame h h' \<Longrightarrow> length (modules h') = length (modules h)"
  using layout_sizes [of h' h] by (simp_all add: hub_frame_def)

section \<open>Frames of the components are frames of the hub\<close>

lemma hubmon_more_data:
  fixes h h' :: "'a hubdata_scheme"
  assumes "hubmon.more h' = hubmon.more h"
  shows "hubdata.more h' = hubdata.more h \<and> data_chain h' = data_chain h \<and> data_chain_len h' = data_chain_len h
    \<and> write_securing_qty h' = write_securing_qty h \<and> next_data_id h' = next_data_id h"
  using assms by (cases h, cases h') simp

lemma hubmsg_more_mons:
  fixes h h' :: "'a hubmon_scheme"
  assumes "hubmsg.more h' = hubmsg.more h"
  shows "hubmon.more h' = hubmon.more h \<and> mons h' = mons h \<and> mon_securing_qty h' = mon_securing_qty h
    \<and> by_ooid_mon_hash h' = by_ooid_mon_hash h"
  using assms by (cases h, cases h') simp

lemma mon_frame_hub:
  fixes h h' :: "'a hubdata_scheme"
  assumes "mon_frame h h'"
  shows "hub_frame h h'"
proof -
  have e: "hubmon.more h' = hubmon.more h" "layout h' = layout h" "waits h' = waits h" "msg_nodes h' = msg_nodes h"
    "msg_classes h' = msg_classes h" "msg_next h' = msg_next h" "mons_ok h \<longrightarrow> mons_ok h'"
    using assms by (simp_all add: mon_frame_def)
  note m = hubmon_more_data [OF e(1)]
  have "msg_ok h' = msg_ok h" using layout_sizes [OF e(2)] e(4-6) by (simp add: msg_ok_def node_ok_def)
  moreover have "data_ok h' = data_ok h" using sizes_layout [OF e(2)] m by (simp add: data_ok_def)
  moreover have "waits_ok h' = waits_ok h" using layout_sizes [OF e(2)] e(3) by (simp add: waits_ok_def)
  ultimately show ?thesis using e(2,7) m dom_ok_layout [OF e(2)] by (simp add: hub_frame_def hub_ok_def)
qed

lemma msg_frame_hub:
  fixes h h' :: "'a hubdata_scheme"
  assumes "msg_frame h h'"
  shows "hub_frame h h'"
proof -
  have e: "hubmsg.more h' = hubmsg.more h" "layout h' = layout h" "waits h' = waits h" "msg_ok h \<longrightarrow> msg_ok h'"
    using assms by (simp_all add: msg_frame_def)
  note m = hubmsg_more_mons [OF e(1)]
  note d = hubmon_more_data [OF conjunct1 [OF m]]
  have "data_ok h' = data_ok h" using sizes_layout [OF e(2)] d by (simp add: data_ok_def)
  moreover have "mons_ok h' = mons_ok h" using sizes_layout [OF e(2)] m dom_ok_layout [OF e(2)] by (simp add: mons_ok_def)
  moreover have "waits_ok h' = waits_ok h" using layout_sizes [OF e(2)] e(3) by (simp add: waits_ok_def)
  ultimately show ?thesis using e(2,4) d dom_ok_layout [OF e(2)] by (simp add: hub_frame_def hub_ok_def)
qed

lemma dom_frame_hub: fixes h h' :: "'a hubdata_scheme" shows "dom_frame h h' \<Longrightarrow> hub_frame h h'"
  by (rule mon_frame_hub, rule dom_frame_mon)

lemma net_frame_hub: fixes h h' :: "'a hubdata_scheme" shows "net_frame h h' \<Longrightarrow> hub_frame h h'"
  by (rule dom_frame_hub, rule net_frame_dom)

lemma send_hub:
  fixes h h1 :: "'a hubdata_scheme"
  assumes "hub_frame h h1"
  shows "hub_frame h (snd (ohubWatchSendPacket E w k t l d h1))" "hub_frame h (snd (agent_send E a k t l d h1))"
    "hub_frame h (snd (ohubSubjSendPacket E s k t l d h1))" "hub_frame h (set_fault b h1)"
  by (rule hub_frame_trans [OF assms net_frame_hub], auto)+

section \<open>The table of pending operations\<close>

lemma chain_update:
  assumes "chain_ok sz ds n sq" and "no < length ds" and "data_entry_ok sz no d"
    and "n' = n + busy_of d - busy_of (ds ! no)" and "sq' = sq + pending_of d - pending_of (ds ! no)"
  shows "chain_ok sz (ds[no := d]) n' sq'"
  using assms unfolding chain_ok_def by (auto simp: nth_list_update map_update sum_list_update_int)

definition busy_at :: "nat \<Rightarrow> 'a hubdata_scheme \<Rightarrow> bool" where
  "busy_at no h \<longleftrightarrow> no < length (data_chain h) \<and> dt_busy (data_chain h ! no)"

text \<open>Work on one pending operation: the invariant, the operation is still there, nothing else.\<close>

definition on_data :: "nat \<Rightarrow> 'a hubdata_scheme \<Rightarrow> 'a hubdata_scheme \<Rightarrow> bool" where
  "on_data no h g \<longleftrightarrow> layout g = layout h \<and> hubdata.more g = hubdata.more h \<and> (hub_ok h \<longrightarrow> hub_ok g \<and> busy_at no g)"

lemma on_data_hub: "on_data no h g \<Longrightarrow> hub_frame h g"
  by (simp add: on_data_def hub_frame_def)

lemma on_data_refl: "busy_at no h \<Longrightarrow> on_data no h h"
  by (simp add: on_data_def)

lemma layout_data_simps [simp]:
  "layout (data_chain_update f1 h) = layout h" "waits (data_chain_update f1 h) = waits h"
  "layout (data_chain_len_update f2 h) = layout h" "waits (data_chain_len_update f2 h) = waits h"
  "layout (write_securing_qty_update f2 h) = layout h" "waits (write_securing_qty_update f2 h) = waits h"
  "layout (next_data_id_update f3 h) = layout h" "waits (next_data_id_update f3 h) = waits h"
  "layout (upd_data no f h) = layout h" "waits (upd_data no f h) = waits h"
  by (simp_all add: layout_def waits_def net_layout_def upd_data_def)

text \<open>The other components do not see the table.\<close>

lemma hub_ok_data:
  assumes "g = h\<lparr>data_chain := ds, data_chain_len := n, next_data_id := i, write_securing_qty := sq\<rparr>"
  shows "hub_ok g \<longleftrightarrow> dom_ok h \<and> msg_ok h \<and> mons_ok h \<and> waits_ok h \<and> chain_ok (sizes h) ds n sq"
    "layout g = layout h" "hubdata.more g = hubdata.more h" "data_chain g = ds"
proof -
  have l: "layout g = layout h" "waits g = waits h" by (simp_all add: assms)
  have "msg_ok g = msg_ok h" "mons_ok g \<longleftrightarrow> mons_ok h"
    using dom_ok_layout [OF l(1)] sizes_layout [OF l(1)] layout_sizes [OF l(1)]
    by (simp_all add: msg_ok_def node_ok_def mons_ok_def assms)
  moreover have "waits_ok g = waits_ok h" using l layout_sizes [OF l(1)] by (simp add: waits_ok_def)
  ultimately show "hub_ok g \<longleftrightarrow> dom_ok h \<and> msg_ok h \<and> mons_ok h \<and> waits_ok h \<and> chain_ok (sizes h) ds n sq"
    using dom_ok_layout [OF l(1)] sizes_layout [OF l(1)] by (auto simp: hub_ok_def data_ok_def assms)
  show "layout g = layout h" by (rule l(1))
qed (simp_all add: assms)

lemma upd_data_as: "upd_data no f h = h\<lparr>data_chain := (data_chain h)[no := f (data_chain h ! no)],
    data_chain_len := data_chain_len h, next_data_id := next_data_id h, write_securing_qty := write_securing_qty h\<rparr>"
  by (cases h) (simp add: upd_data_def)

lemma on_data_upd:
  assumes "on_data no h g"
    and "\<And>d. dt_busy (f d) = dt_busy d \<and> dt_id (f d) = dt_id d \<and> dt_securing (f d) = dt_securing d"
    and "\<And>d w. dt_watch (f d) = Some w \<Longrightarrow> dt_watch d = Some w \<or> w < length (watchers h)"
    and "\<And>d a. dt_agent (f d) = Some a \<Longrightarrow> dt_agent d = Some a \<or> (hub_ok g \<longrightarrow> a < length (agents g))"
  shows "on_data no h (upd_data no f g)"
proof -
  let ?d = "data_chain g ! no"
  have l: "layout g = layout h" "hubdata.more g = hubdata.more h" using assms(1) by (simp_all add: on_data_def)
  have "hub_ok (upd_data no f g) \<and> busy_at no (upd_data no f g)" if "hub_ok h"
  proof -
    have g: "hub_ok g" "no < length (data_chain g)" "dt_busy ?d"
      using assms(1) that by (simp_all add: on_data_def busy_at_def)
    obtain lw la ls where sz: "sizes g = (lw, la, ls)" by (cases "sizes g")
    have c: "chain_ok (sizes g) (data_chain g) (data_chain_len g) (write_securing_qty g)"
      using g(1) by (simp add: hub_ok_def data_ok_def)
    have "data_entry_ok (sizes g) no ?d" using c g(2) by (simp add: chain_ok_def)
    then have "data_entry_ok (sizes g) no (f ?d)"
      using g assms(2) [of ?d] assms(3) [of ?d] assms(4) [of ?d] sz layout_sizes(1) [OF l(1)]
      by (fastforce simp: data_entry_ok_def sizes_def)
    then have "chain_ok (sizes g) ((data_chain g)[no := f ?d]) (data_chain_len g) (write_securing_qty g)"
      by (rule chain_update [OF c g(2)]) (simp_all add: busy_of_def pending_of_def assms(2))
    then have "hub_ok (upd_data no f g)"
      using g(1) hub_ok_data(1) [OF upd_data_as, of no f g] by (simp add: hub_ok_def)
    then show ?thesis using g assms(2) by (simp add: busy_at_def upd_data_def)
  qed
  then show ?thesis using l by (simp add: on_data_def) (simp add: upd_data_def)
qed

lemma on_data_mon:
  assumes "on_data no h g" and "mon_frame g g'"
  shows "on_data no h g'"
proof -
  have "hubmon.more g' = hubmon.more g" using assms(2) by (simp add: mon_frame_def)
  note m = hubmon_more_data [OF this]
  show ?thesis using assms(1) mon_frame_hub [OF assms(2)] m
    by (auto simp: on_data_def busy_at_def hub_frame_def)
qed

lemma on_data_net: "on_data no h g \<Longrightarrow> net_frame g g' \<Longrightarrow> on_data no h g'"
  by (rule on_data_mon [OF _ net_frame_mon])

lemma on_data_dom: "on_data no h g \<Longrightarrow> dom_frame g g' \<Longrightarrow> on_data no h g'"
  by (rule on_data_mon [OF _ dom_frame_mon])

lemma nth_le_sum:
  fixes f :: "'b \<Rightarrow> int"
  assumes "\<And>x. 0 \<le> f x"
  shows "i < length xs \<Longrightarrow> f (xs ! i) \<le> sum_list (map f xs)"
proof (induction xs arbitrary: i)
  case (Cons y xs)
  have "0 \<le> sum_list (map f xs)" by (rule sum_list_nonneg) (auto simp: assms)
  then show ?case using Cons assms [of y] by (cases i) (auto intro: add_increasing)
qed simp

lemma pending_le_sum: "no < length ds \<Longrightarrow> pending_of (ds ! no) \<le> sum_list (map pending_of ds)"
  by (rule nth_le_sum) (simp add: pending_of_def)

lemma ohubDeallocateData_hub:
  assumes "on_data no h g"
  shows "hub_frame h (ohubDeallocateData no g)"
proof -
  let ?d = "data_chain g ! no"
  let ?sq = "if dt_securing ?d \<noteq> 0 then max 0 (write_securing_qty g - 1) else write_securing_qty g"
  have e: "ohubDeallocateData no g = g\<lparr>data_chain := (data_chain g)[no := no_data], data_chain_len := data_chain_len g - 1,
      next_data_id := next_data_id g, write_securing_qty := ?sq\<rparr>"
    by (cases g) (simp add: ohubDeallocateData_def upd_data_def)
  have "hub_ok (ohubDeallocateData no g)" if "hub_ok h"
  proof -
    have g: "hub_ok g" "no < length (data_chain g)" "dt_busy ?d" using assms that by (simp_all add: on_data_def busy_at_def)
    have c: "chain_ok (sizes g) (data_chain g) (data_chain_len g) (write_securing_qty g)"
      using g(1) by (simp add: hub_ok_def data_ok_def)
    have "?sq = write_securing_qty g - pending_of ?d"
      using pending_le_sum [OF g(2)] c by (auto simp: pending_of_def chain_ok_def)
    then have "chain_ok (sizes g) ((data_chain g)[no := no_data]) (data_chain_len g - 1) ?sq"
      using g(3) by (intro chain_update [OF c g(2)])
        (simp_all add: data_entry_ok_def busy_of_def pending_of_def no_data_def split: prod.split)
    then show ?thesis using hub_ok_data(1) [OF e] g(1) by (simp add: hub_ok_def)
  qed
  then show ?thesis using assms hub_ok_data(2,3) [OF e] by (simp add: on_data_def hub_frame_def)
qed

lemma ohubCompleteWriteReply_hub:
  assumes "on_data no h g"
  shows "hub_frame h (snd (ohubCompleteWriteReply E no err g))"
  using on_data_hub [OF assms] ohubDeallocateData_hub [OF on_data_net [OF assms ohubWatchSendPacket_net]]
  by (auto simp: ohubCompleteWriteReply_def Let_def case_prod_unfold split: option.split)

lemma ohubCompleteReadReply_hub:
  assumes "on_data no h g"
  shows "hub_frame h (snd (ohubCompleteReadReply E no err g))"
  using on_data_hub [OF assms] ohubDeallocateData_hub [OF assms]
    ohubDeallocateData_hub [OF on_data_net [OF assms ohubWatchSendPacket_net]]
  by (auto simp: ohubCompleteReadReply_def Let_def case_prod_unfold split: option.split)

lemma make_data_id_low: "no < 65536 \<Longrightarrow> unat (make_data_id n no AND 65535) = no"
proof -
  assume no: "no < 65536"
  have m: "(65535 :: u32) = mask 16" by (simp add: mask_eq_exp_minus_1)
  have "take_bit 16 (make_data_id n no) = take_bit 16 (of_nat no :: u32)"
    unfolding make_data_id_def by (rule bit_word_eqI) (auto simp: bit_simps)
  then show ?thesis using no unfolding m take_bit_eq_mask [symmetric]
    by (simp add: unsigned_take_bit_eq unsigned_of_nat take_bit_nat_eq_self)
qed

text \<open>Allocation, on a table in order: a new busy entry with an identifier that finds it.\<close>

lemma ohubAllocateData_law:
  assumes "ohubAllocateData E h = (r, g)" and "hub_ok h"
  shows "case r of None \<Rightarrow> g = h
    | Some no \<Rightarrow> on_data no h g \<and> 0 < no \<and> no < 65535 \<and> ohubFindData (dt_id (data_chain g ! no)) g = Some no
        \<and> dt_watch (data_chain g ! no) = None \<and> dt_agent (data_chain g ! no) = None"
proof -
  let ?n = "bump_data_id (next_data_id h)"
  let ?d = "\<lambda>no. no_data\<lparr>dt_busy := True, dt_no := no, dt_id := make_data_id ?n no\<rparr>"
  have c: "chain_ok (sizes h) (data_chain h) (data_chain_len h) (write_securing_qty h)"
    using assms(2) by (simp add: hub_ok_def data_ok_def)
  have P: "on_data no h g \<and> 0 < no \<and> no < 65535 \<and> ohubFindData (dt_id (data_chain g ! no)) g = Some no
      \<and> dt_watch (data_chain g ! no) = None \<and> dt_agent (data_chain g ! no) = None"
    if "g = h\<lparr>data_chain := ds[no := ?d no], data_chain_len := data_chain_len h + 1, next_data_id := ?n,
          write_securing_qty := write_securing_qty h\<rparr>"
      "chain_ok (sizes h) ds (data_chain_len h) (write_securing_qty h)" "no < length ds" "\<not> dt_busy (ds ! no)" "0 < no" for no ds
  proof -
    have no: "no < 65535" using that(2,3) by (simp add: chain_ok_def)
    have z: "dt_securing (ds ! no) = 0"
    proof -
      have "data_entry_ok (sizes h) no (ds ! no)" using that(2,3) by (simp add: chain_ok_def)
      then have "ds ! no = no_data" using that(4) by (simp add: data_entry_ok_def split: prod.splits)
      then show ?thesis by (simp add: no_data_def)
    qed
    have "chain_ok (sizes h) (ds[no := ?d no]) (data_chain_len h + 1) (write_securing_qty h)"
      using that(4,5) z make_data_id_low [of no ?n] no
      by (intro chain_update [OF that(2,3)])
        (auto simp: data_entry_ok_def busy_of_def pending_of_def no_data_def split: prod.split)
    then have "hub_ok g" using hub_ok_data(1) [OF that(1)] assms(2) by (simp add: hub_ok_def)
    moreover have "data_chain g = ds[no := ?d no]" by (rule hub_ok_data(4) [OF that(1)])
    ultimately show ?thesis using hub_ok_data(2,3) [OF that(1)] that(3,5) no make_data_id_low [of no ?n]
      by (simp add: on_data_def busy_at_def ohubFindData_def no_data_def)
  qed
  have F: "upd_data no (\<lambda>_. d) g'\<lparr>next_data_id := i, data_chain_len := data_chain_len g' + 1\<rparr>
      = g'\<lparr>data_chain := (data_chain g')[no := d], data_chain_len := data_chain_len g' + 1, next_data_id := i,
           write_securing_qty := write_securing_qty g'\<rparr>" for no d i and g' :: "'a hubdata_scheme"
    by (cases g') (simp add: upd_data_def)
  show ?thesis
  proof (cases "find (\<lambda>no. \<not> dt_busy (data_chain h ! no)) [1..<length (data_chain h)]")
    case (Some no)
    then have "r = Some no" "no < length (data_chain h)" "\<not> dt_busy (data_chain h ! no)" "0 < no"
      using assms(1) find_SomeD [OF Some] by (auto simp: ohubAllocateData_def Let_def)
    moreover have "g = h\<lparr>data_chain := (data_chain h)[no := ?d no], data_chain_len := data_chain_len h + 1, next_data_id := ?n,
          write_securing_qty := write_securing_qty h\<rparr>"
      using assms(1) Some F by (auto simp: ohubAllocateData_def Let_def)
    ultimately show ?thesis using P [of "data_chain h" no] c by simp
  next
    case None
    let ?size = "length (data_chain h)" and ?new = "min 65535 (length (data_chain h) * 2 + 4)"
    let ?ds = "data_chain h @ replicate (?new - ?size) no_data"
    show ?thesis
    proof (cases "?new = ?size \<or> \<not> env_alloc E (456 * ?new)")
      case True
      then show ?thesis using assms(1) None by (auto simp: ohubAllocateData_def Let_def)
    next
      case False
      have s: "?size \<le> 65535" using c by (simp add: chain_ok_def)
      then have l: "?size < ?new" "length ?ds = ?new" using False by (auto simp: min_def split: if_splits)
      have ce: "chain_ok (sizes h) ?ds (data_chain_len h) (write_securing_qty h)"
        using c l by (auto simp: chain_ok_def nth_append data_entry_ok_def no_data_def busy_of_def pending_of_def
            sum_list_replicate split: prod.splits)
      let ?no = "max 1 ?size"
      have n: "?no < length ?ds" "\<not> dt_busy (?ds ! ?no)" using l by (auto simp: nth_append no_data_def max_def min_def)
      have rg: "r = Some ?no" "g = upd_data ?no (\<lambda>_. ?d ?no) (h\<lparr>data_chain := ?ds\<rparr>)
          \<lparr>next_data_id := ?n, data_chain_len := data_chain_len h + 1\<rparr>"
        using assms(1) None False unfolding ohubAllocateData_def Let_def by simp_all
      moreover have "g = h\<lparr>data_chain := ?ds[?no := ?d ?no], data_chain_len := data_chain_len h + 1, next_data_id := ?n,
          write_securing_qty := write_securing_qty h\<rparr>"
        unfolding rg(2) by (cases h) (simp add: upd_data_def)
      ultimately show ?thesis using P [OF _ ce n] by simp
    qed
  qed
qed

section \<open>Requests to agents\<close>

lemma ohubSendWriteRequest_net [intro]: "net_frame h (snd (ohubSendWriteRequest E no h))"
  by (auto simp: ohubSendWriteRequest_def Let_def split: option.split)

lemma ohubSendReadRequest_net [intro]: "net_frame h (snd (ohubSendReadRequest E no h))"
  by (auto simp: ohubSendReadRequest_def Let_def split: option.split)

lemma count_write_dom [simp]: "dom_frame h (count_write d h)"
  unfolding count_write_def by (rule dom_frame_upd_agent) (simp add: agent_layout_def)

text \<open>Setting and clearing the mark of a postponed write.\<close>

lemma on_data_mark:
  assumes "on_data no h g" and "dt_securing (data_chain g ! no) \<noteq> 0 \<longleftrightarrow> b = 0" and "b = 0 \<or> b = 1"
    and "g' = (upd_data no (\<lambda>d. d\<lparr>dt_securing := b\<rparr>) g)\<lparr>write_securing_qty := write_securing_qty g + (if b = 0 then -1 else 1)\<rparr>"
  shows "on_data no h g'"
proof -
  let ?d = "data_chain g ! no"
  let ?f = "\<lambda>d. d\<lparr>dt_securing := b\<rparr>"
  have e: "g' = g\<lparr>data_chain := (data_chain g)[no := ?f ?d], data_chain_len := data_chain_len g,
      next_data_id := next_data_id g, write_securing_qty := write_securing_qty g + (if b = 0 then -1 else 1)\<rparr>"
    unfolding assms(4) by (cases g) (simp add: upd_data_def)
  have l: "layout g = layout h" "hubdata.more g = hubdata.more h" using assms(1) by (simp_all add: on_data_def)
  have "hub_ok g' \<and> busy_at no g'" if "hub_ok h"
  proof -
    have g: "hub_ok g" "no < length (data_chain g)" "dt_busy ?d" using assms(1) that by (simp_all add: on_data_def busy_at_def)
    have c: "chain_ok (sizes g) (data_chain g) (data_chain_len g) (write_securing_qty g)"
      using g(1) by (simp add: hub_ok_def data_ok_def)
    have "data_entry_ok (sizes g) no ?d" using c g(2) by (simp add: chain_ok_def)
    then have "data_entry_ok (sizes g) no (?f ?d)" using g(3) by (auto simp: data_entry_ok_def split: prod.splits)
    then have "chain_ok (sizes g) ((data_chain g)[no := ?f ?d]) (data_chain_len g)
        (write_securing_qty g + (if b = 0 then -1 else 1))"
      using assms(2,3) by (intro chain_update [OF c g(2)]) (auto simp: busy_of_def pending_of_def)
    then have "hub_ok g'" using hub_ok_data(1) [OF e] g(1) by (simp add: hub_ok_def)
    then show ?thesis using g hub_ok_data(4) [OF e] by (simp add: busy_at_def)
  qed
  then show ?thesis using l hub_ok_data(2,3) [OF e] by (simp add: on_data_def)
qed

lemma ohubSendSecureWriteRequest_on:
  assumes "on_data no h g"
  shows "on_data no h (snd (ohubSendSecureWriteRequest E no g))"
proof -
  have m: "on_data no h ((upd_data no (\<lambda>d. d\<lparr>dt_securing := 1\<rparr>) g)\<lparr>write_securing_qty := write_securing_qty g + 1\<rparr>)"
    if "dt_securing (data_chain g ! no) = 0"
    by (rule on_data_mark [OF assms, of 1]) (simp_all add: that)
  have c: "on_data no h (count_write d (snd (ohubSendWriteRequest E no g)))" for d
    by (rule on_data_dom [OF on_data_net [OF assms ohubSendWriteRequest_net] count_write_dom])
  show ?thesis using assms m c by (simp add: ohubSendSecureWriteRequest_def Let_def case_prod_unfold)
qed

lemma net_chain: fixes h h' :: "'a hubdata_scheme" shows "net_frame h h' \<Longrightarrow> data_chain h' = data_chain h"
  by (auto elim!: net_frameE)

lemma count_write_chain [simp]: "data_chain (count_write d h) = data_chain h"
  by (simp add: count_write_def upd_agent_def)

text \<open>The length of the table, for the loops over its indices.\<close>

definition keeps :: "'a hubdata_scheme \<Rightarrow> 'a hubdata_scheme \<Rightarrow> bool" where
  "keeps h g \<longleftrightarrow> hub_frame h g \<and> length (data_chain g) = length (data_chain h)"

lemma keeps_refl [simp]: "keeps h h" by (simp add: keeps_def)
lemma keeps_trans: "keeps h1 h2 \<Longrightarrow> keeps h2 h3 \<Longrightarrow> keeps h1 h3" by (auto simp: keeps_def intro: hub_frame_trans)

lemma keeps_hub: "keeps h g \<Longrightarrow> hub_frame h g" by (simp add: keeps_def)

lemma keeps_net: fixes h h' :: "'a hubdata_scheme" shows "net_frame h h' \<Longrightarrow> keeps h h'"
  using net_chain net_frame_hub by (auto simp: keeps_def)

lemma length_data_simps [simp]:
  "length (data_chain (upd_data no f h)) = length (data_chain h)"
  "length (data_chain (ohubDeallocateData no h)) = length (data_chain h)"
  "data_chain (set_fault b h) = data_chain h"
  by (simp_all add: upd_data_def ohubDeallocateData_def Let_def set_fault_def)

lemma length_complete [simp]:
  "length (data_chain (snd (ohubCompleteWriteReply E no err h))) = length (data_chain h)"
  "length (data_chain (snd (ohubCompleteReadReply E no err h))) = length (data_chain h)"
  "length (data_chain (snd (ohubSendSecureWriteRequest E no h))) = length (data_chain h)"
  by (simp_all add: ohubCompleteWriteReply_def ohubCompleteReadReply_def ohubSendSecureWriteRequest_def
      Let_def case_prod_unfold net_chain [OF ohubWatchSendPacket_net] net_chain [OF ohubSendWriteRequest_net] split: option.split)

lemma on_data_here: "no < length (data_chain h) \<Longrightarrow> dt_busy (data_chain h ! no) \<Longrightarrow> on_data no h h"
  by (simp add: on_data_refl busy_at_def)

lemma fold_keeps:
  assumes "\<And>no h. hub_ok h \<Longrightarrow> no < length (data_chain h) \<Longrightarrow> keeps h (f no h)"
    and "hub_ok h" and "\<forall>no \<in> set ns. no < length (data_chain h)"
  shows "keeps h (fold f ns h)"
  using assms(2,3)
proof (induction ns arbitrary: h)
  case (Cons no ns)
  then have k: "keeps h (f no h)" using assms(1) by simp
  then have "hub_ok (f no h)" "\<forall>k \<in> set ns. k < length (data_chain (f no h))"
    using Cons.prems by (auto simp: keeps_def hub_frame_def) 
  then show ?case using keeps_trans [OF k] Cons.IH k Cons.prems by (simp add: keeps_def)
qed simp

lemma secure_writes_hub:
  assumes "hub_ok h" and "\<forall>no \<in> set ns. no < length (data_chain h)"
  shows "keeps h (snd (secure_writes E ns (q, h)))"
  using assms
proof (induction ns arbitrary: q h)
  case (Cons no ns)
  let ?d = "data_chain h ! no"
  have IH: "keeps h g \<Longrightarrow> keeps h (snd (secure_writes E ns (k, g)))" for g k
  proof -
    assume g: "keeps h g"
    then have "hub_ok g" "\<forall>no \<in> set ns. no < length (data_chain g)"
      using Cons.prems by (auto simp: keeps_def hub_frame_def)
    from keeps_trans [OF g Cons.IH [OF this]] show ?thesis .
  qed
  have on: "on_data no h g \<Longrightarrow> length (data_chain g) = length (data_chain h) \<Longrightarrow> keeps h g" for g
    using on_data_hub by (simp add: keeps_def)
  have de: "on_data no h g \<Longrightarrow> length (data_chain g) = length (data_chain h) \<Longrightarrow> keeps h (ohubDeallocateData no g)" for g
    using ohubDeallocateData_hub by (simp add: keeps_def)
  show ?case
  proof (cases "dt_busy ?d \<and> dt_securing ?d \<noteq> 0")
    case True
    then have o: "on_data no h h" using Cons.prems by (simp add: on_data_here)
    define h0 where "h0 = set_fault (dt_agent ?d = None) h"
    have h0: "on_data no h h0" "data_chain h0 = data_chain h" unfolding h0_def
      using on_data_net [OF o net_frame_fault] by simp_all
    define h1 where "h1 = count_write ?d (snd (ohubSendWriteRequest E no h0))"
    have h1: "on_data no h h1" "data_chain h1 = data_chain h" unfolding h1_def
      using on_data_dom [OF on_data_net [OF h0(1) ohubSendWriteRequest_net] count_write_dom] net_chain [OF ohubSendWriteRequest_net, of E no h0] h0(2)
      by simp_all
    have "on_data no h ((upd_data no (\<lambda>d. d\<lparr>dt_securing := 0\<rparr>) h1)\<lparr>write_securing_qty := write_securing_qty h1 - 1\<rparr>)"
      by (rule on_data_mark [OF h1(1), of 0]) (use True in \<open>simp_all add: h1(2)\<close>)
    from IH [OF on [OF this]] IH [OF on [OF h0(1)]] IH [OF de [OF h0(1)]] IH [OF de [OF h1(1)]] IH [OF keeps_refl]
    show ?thesis by (simp add: Let_def h0(2) h1(2) flip: h0_def h1_def)
  next
    case False
    then show ?thesis using IH [OF keeps_refl] by (auto simp: Let_def)
  qed
qed simp

lemma ohubSecureMoreWrites_hub: "hub_ok h \<Longrightarrow> keeps h (snd (ohubSecureMoreWrites E h))"
  unfolding ohubSecureMoreWrites_def by (simp add: secure_writes_hub)

section \<open>Requests of watchers for single values\<close>

lemma write_fail_hub: "on_data no h g \<Longrightarrow> hub_frame h (snd (write_fail E no g))"
  by (simp add: write_fail_def ohubCompleteWriteReply_hub)

lemma read_fail_hub: "on_data no h g \<Longrightarrow> hub_frame h (snd (read_fail E no g))"
  by (simp add: read_fail_def ohubCompleteReadReply_hub)

lemma quark_agent_range: "quark_agent q h = Some a \<Longrightarrow> dom_ok h \<Longrightarrow> a < length (agents h)"
  by (auto simp: quark_agent_def Let_def nat_less_iff dom_okD split: if_splits)

lemma on_data_agent:
  assumes "on_data no h g" and "quark_agent q g = Some a"
  shows "on_data no h (upd_data no (\<lambda>d. d\<lparr>dt_agent := Some a\<rparr>) g)"
  by (rule on_data_upd [OF assms(1)]) (use quark_agent_range [OF assms(2)] in \<open>auto simp: hub_ok_def\<close>)

lemma on_data_info:
  assumes "on_data no h g" and "ohubGetInfoByOoid E ooid g = (rc, q, res, g1)"
  shows "on_data no h (upd_data no (\<lambda>d. d\<lparr>dt_quark := q\<rparr>) g1)"
  by (rule on_data_upd [OF on_data_dom [OF assms(1)]])
    (use ohubGetInfoByOoid_dom [of g E ooid] assms(2) in auto)

lemma ohubHandleOoidWrite_hub:
  assumes "hub_ok h" and "w < length (watchers h)"
  shows "hub_frame h (snd (ohubHandleOoidWrite E w kind type len buf h))"
proof (cases "ohubAllocateData E h")
  case (Pair r h1)
  show ?thesis
  proof (cases r)
    case None
    then show ?thesis using Pair ohubAllocateData_law [OF Pair assms(1)] by (simp add: ohubHandleOoidWrite_def)
  next
    case (Some no)
    have o1: "on_data no h h1" using ohubAllocateData_law [OF Pair assms(1)] Some by simp
    define h2 where "h2 = upd_data no (\<lambda>d. d\<lparr>dt_watch := Some w, dt_write := True\<rparr>) h1"
    have o2: "on_data no h h2" unfolding h2_def by (rule on_data_upd [OF o1]) (use assms(2) in auto)
    define h3 where "h3 = upd_data no (\<lambda>d. d\<lparr>dt_op := OUNTOHL (ld32 E buf 0), dt_ooid := OUNTOHL (ld32 E buf 4)\<rparr>) h2"
    have o3: "on_data no h h3" unfolding h3_def by (rule on_data_upd [OF o2]) auto
    obtain rc q res h4 where q: "ohubGetInfoByOoid E (OUNTOHL (ld32 E buf 4)) h3 = (rc, q, res, h4)"
      by (cases "ohubGetInfoByOoid E (OUNTOHL (ld32 E buf 4)) h3")
    define h5 where "h5 = upd_data no (\<lambda>d. d\<lparr>dt_quark := q\<rparr>) h4"
    have o5: "on_data no h h5" unfolding h5_def by (rule on_data_info [OF o3 q])
    have o6: "on_data no h (set_fault b (upd_data no (\<lambda>d. d\<lparr>dt_val := v\<rparr>) h5))" for b v
      by (rule on_data_net [OF on_data_upd [OF o5] net_frame_fault]) auto
    note o7 = on_data_agent [OF o6]
    note o8 = ohubSendSecureWriteRequest_on [OF o7]
    show ?thesis
      unfolding ohubHandleOoidWrite_def Pair Some
      using write_fail_hub [OF o2] write_fail_hub [OF o5] write_fail_hub [OF o6] write_fail_hub [OF o7] write_fail_hub [OF o8]
        on_data_hub [OF o7] on_data_hub [OF o8]
      by (auto simp: Let_def q case_prod_unfold simp flip: h2_def h3_def h5_def split: option.split)
  qed
qed

lemma busy_find: "ohubFindData i h = Some no \<Longrightarrow> on_data no h h"
  by (auto simp: ohubFindData_def Let_def on_data_here split: if_splits)

lemma ohubHandleDataWrite_hub: "hub_frame h (snd (ohubHandleDataWrite E a kind type len buf h))"
  using ohubCompleteWriteReply_hub [OF busy_find] by (auto simp: ohubHandleDataWrite_def split: option.split)

lemma read_remote_hub:
  assumes "on_data no h g"
  shows "hub_frame h (snd (read_remote E no ooid g))"
proof -
  obtain rc q res h4 where q: "ohubGetInfoByOoid E ooid g = (rc, q, res, h4)"
    by (cases "ohubGetInfoByOoid E ooid g")
  define h5 where "h5 = upd_data no (\<lambda>d. d\<lparr>dt_quark := q\<rparr>) h4"
  have o5: "on_data no h h5" unfolding h5_def by (rule on_data_info [OF assms q])
  define h6 where "h6 = upd_data no (\<lambda>d. d\<lparr>dt_val := (dt_val d)\<lparr>ov_type := qk_type q, ov_len := qk_len q, ov_undef := True\<rparr>\<rparr>) h5"
  have o6: "on_data no h h6" unfolding h6_def by (rule on_data_upd [OF o5]) auto
  note o7 = on_data_agent [OF o6]
  note o8 = on_data_net [OF o7 ohubSendReadRequest_net]
  show ?thesis unfolding read_remote_def
    using read_fail_hub [OF o5] read_fail_hub [OF o6] read_fail_hub [OF o7] read_fail_hub [OF o8]
      on_data_hub [OF o7] on_data_hub [OF o8]
    by (auto simp: Let_def q case_prod_unfold simp flip: h5_def h6_def split: option.split)
qed

lemma ohubHandleOoidRead_hub:
  assumes "hub_ok h" and "w < length (watchers h)"
  shows "hub_frame h (snd (ohubHandleOoidRead E w kind type len buf h))"
proof (cases "ohubAllocateData E h")
  case (Pair r h1)
  show ?thesis
  proof (cases r)
    case None
    then show ?thesis using Pair ohubAllocateData_law [OF Pair assms(1)] by (simp add: ohubHandleOoidRead_def)
  next
    case (Some no)
    have o1: "on_data no h h1" using ohubAllocateData_law [OF Pair assms(1)] Some by simp
    define h2 where "h2 = upd_data no (\<lambda>d. d\<lparr>dt_watch := Some w, dt_write := False\<rparr>) h1"
    have o2: "on_data no h h2" unfolding h2_def by (rule on_data_upd [OF o1]) (use assms(2) in auto)
    define h3 where "h3 = upd_data no (\<lambda>d. d\<lparr>dt_op := OUNTOHL (ld32 E buf 0), dt_ooid := OUNTOHL (ld32 E buf 4),
        dt_val := (dt_val d)\<lparr>ov_time := OUNTOHL (ld32 E buf 8)\<rparr>\<rparr>) h2"
    have o3: "on_data no h h3" unfolding h3_def by (rule on_data_upd [OF o2]) auto
    obtain v h4 where v: "ohubMonGetValue E (OUNTOHL (ld32 E buf 4)) h3 = (v, h4)"
      by (cases "ohubMonGetValue E (OUNTOHL (ld32 E buf 4)) h3")
    have o4: "on_data no h h4" using on_data_mon [OF o3 ohubMonGetValue_frame, of E "OUNTOHL (ld32 E buf 4)"] v by simp
    have o5: "on_data no h (upd_data no (\<lambda>d. d\<lparr>dt_val := x\<rparr>) h4)" for x by (rule on_data_upd [OF o4]) auto
    show ?thesis
      unfolding ohubHandleOoidRead_def Pair Some
      using read_fail_hub [OF o2] read_remote_hub [OF o4] read_remote_hub [OF o5] ohubCompleteReadReply_hub [OF o5]
      by (auto simp: Let_def v simp flip: h2_def h3_def split: option.split)
  qed
qed

lemma ohubHandleDataRead_hub: "hub_frame h (snd (ohubHandleDataRead E a kind type len buf h))"
proof -
  have V: "on_data no h (upd_data no (\<lambda>d. d\<lparr>dt_val := f (dt_val d)\<rparr>) h)" if "ohubFindData i h = Some no" for no i f
    by (rule on_data_upd [OF busy_find [OF that]]) auto
  note W = on_data_net [OF V net_frame_fault]
  show ?thesis
    unfolding ohubHandleDataRead_def
    using ohubCompleteReadReply_hub [OF V] ohubCompleteReadReply_hub [OF W] ohubCompleteReadReply_hub [OF busy_find]
    by (auto simp: Let_def split: option.split)
qed

section \<open>Cancelling and address changes\<close>

lemma cancel_data_keeps:
  assumes "no < length (data_chain h)" and "dt_busy (data_chain h ! no)"
  shows "keeps h (cancel_data E no h)"
  using ohubCompleteWriteReply_hub [OF on_data_here [OF assms]] ohubCompleteReadReply_hub [OF on_data_here [OF assms]]
  by (simp add: cancel_data_def keeps_def)

lemma ohubCancelAgentData_hub: "hub_ok h \<Longrightarrow> keeps h (ohubCancelAgentData E a h)"
  unfolding ohubCancelAgentData_def by (rule fold_keeps) (auto intro: cancel_data_keeps)

lemma cancel_watch_data_keeps:
  assumes "no < length (data_chain h)"
  shows "keeps h (cancel_watch_data w no h)"
proof (cases "dt_busy (data_chain h ! no)")
  case True
  let ?d = "data_chain h ! no"
  have o: "on_data no h h" by (rule on_data_here [OF assms True])
  have "on_data no h (upd_data no (\<lambda>d. d\<lparr>dt_securing := -1\<rparr>) h)" if "dt_securing ?d \<noteq> 0"
  proof -
    have e: "upd_data no (\<lambda>d. d\<lparr>dt_securing := -1\<rparr>) h = h\<lparr>data_chain := (data_chain h)[no := ?d\<lparr>dt_securing := -1\<rparr>],
        data_chain_len := data_chain_len h, next_data_id := next_data_id h, write_securing_qty := write_securing_qty h\<rparr>"
      by (rule upd_data_as)
    have "hub_ok (upd_data no (\<lambda>d. d\<lparr>dt_securing := -1\<rparr>) h)" if "hub_ok h"
    proof -
      have c: "chain_ok (sizes h) (data_chain h) (data_chain_len h) (write_securing_qty h)"
        using that by (simp add: hub_ok_def data_ok_def)
      then have "data_entry_ok (sizes h) no (?d\<lparr>dt_securing := -1\<rparr>)"
        using assms True by (auto simp: chain_ok_def data_entry_ok_def split: prod.splits)
      then have "chain_ok (sizes h) ((data_chain h)[no := ?d\<lparr>dt_securing := -1\<rparr>]) (data_chain_len h) (write_securing_qty h)"
        using \<open>dt_securing ?d \<noteq> 0\<close> by (intro chain_update [OF c assms]) (simp_all add: busy_of_def pending_of_def)
      then show ?thesis using hub_ok_data(1) [OF e] that by (simp add: hub_ok_def)
    qed
    then show ?thesis using hub_ok_data(2,3) [OF e] o by (simp add: on_data_def busy_at_def upd_data_def)
  qed
  from on_data_hub [OF this] show ?thesis using ohubDeallocateData_hub [OF o]
    by (simp add: cancel_watch_data_def Let_def keeps_def)
qed (simp add: cancel_watch_data_def)

lemma ohubCancelWatchData_hub: "hub_ok h \<Longrightarrow> keeps h (ohubCancelWatchData w h)"
  unfolding ohubCancelWatchData_def by (rule fold_keeps) (auto intro: cancel_watch_data_keeps)

lemma update_data_address_keeps:
  assumes "no < length (data_chain h)"
  shows "keeps h (update_data_address E mods no h)"
proof (cases "dt_busy (data_chain h ! no)")
  case True
  define h1 where "h1 = upd_data no (\<lambda>d. d\<lparr>dt_quark := (dt_quark d)\<lparr>qk_phys_addr := quark_address (dt_quark d) h\<rparr>\<rparr>) h"
  have o1: "on_data no h h1" unfolding h1_def by (rule on_data_upd [OF on_data_here [OF assms True]]) auto
  have l: "length (data_chain h1) = length (data_chain h)" by (simp add: h1_def)
  note o2 = on_data_net [OF o1 net_frame_fault]
  note ow = ohubSendSecureWriteRequest_on [OF o2] and orr = on_data_net [OF o2 ohubSendReadRequest_net]
  have lr: "length (data_chain (snd (ohubSendReadRequest E no g))) = length (data_chain g)" for g :: "'a hubdata_scheme"
    by (simp add: net_chain [OF ohubSendReadRequest_net])
  show ?thesis
    using True on_data_hub [OF o2] on_data_hub [OF ow] on_data_hub [OF orr]
      ohubCompleteWriteReply_hub [OF ow] ohubCompleteReadReply_hub [OF orr]
    by (simp add: update_data_address_def Let_def keeps_def l lr case_prod_unfold flip: h1_def)
qed (simp add: update_data_address_def)

lemma ohubUpdateDataAddresses_hub: "hub_ok h \<Longrightarrow> keeps h (ohubUpdateDataAddresses E mods h)"
  unfolding ohubUpdateDataAddresses_def by (rule fold_keeps) (auto intro: update_data_address_keeps)

section \<open>Subjects and agents\<close>

lemma hubdom_more_data:
  fixes h h' :: "'a hubdata_scheme"
  assumes "hubdom.more h' = hubdom.more h"
  shows "hubdata.more h' = hubdata.more h" "data_chain h' = data_chain h" "data_chain_len h' = data_chain_len h"
    "write_securing_qty h' = write_securing_qty h"
  using hubmon_more_data hubdom_more_mons [OF assms] by blast+

lemma hub_frame_waits:
  fixes h h' :: "'a hubdata_scheme"
  assumes "hubdom.more h' = hubdom.more h" and "layout h' = layout h" and "waits_ok h \<Longrightarrow> waits_ok h'"
  shows "hub_frame h h'"
proof -
  note m = hubdom_more_mons [OF assms(1)] and d = hubdom_more_data [OF assms(1)]
  have "msg_ok h' = msg_ok h" using layout_sizes [OF assms(2)] m by (simp add: msg_ok_def node_ok_def)
  moreover have "mons_ok h' = mons_ok h" using sizes_layout [OF assms(2)] m dom_ok_layout [OF assms(2)] by (simp add: mons_ok_def)
  moreover have "data_ok h' = data_ok h" using sizes_layout [OF assms(2)] d by (simp add: data_ok_def)
  ultimately show ?thesis using assms(2,3) d dom_ok_layout [OF assms(2)] by (auto simp: hub_frame_def hub_ok_def)
qed

lemma upd_subject_hub:
  fixes h :: "'a hubdata_scheme"
  assumes "subject_layout (f (subjects h ! s)) = subject_layout (subjects h ! s)"
    and "\<And>w. Some w \<in> wt_watch ` set (sb_waiters (f (subjects h ! s))) \<Longrightarrow>
      Some w \<in> wt_watch ` set (sb_waiters (subjects h ! s)) \<or> w < length (watchers h)"
  shows "hub_frame h (upd_subject s f h)"
proof (rule hub_frame_waits)
  show "hubdom.more (upd_subject s f h) = hubdom.more h" by (simp add: upd_subject_def)
  show "layout (upd_subject s f h) = layout h"
    using assms(1) by (simp add: layout_def net_layout_def upd_subject_def map_update_self)
  assume w: "waits_ok h"
  show "waits_ok (upd_subject s f h)"
  proof (cases "s < length (subjects h)")
    case False
    then have "subjects (upd_subject s f h) = subjects h" by (simp add: upd_subject_def list_update_beyond not_less)
    then show ?thesis using w by (simp add: waits_ok_def waits_def) (simp add: upd_subject_def)
  next
    case True
    then have "map wt_watch (sb_waiters (subjects h ! s)) \<in> set (waits h)" by (simp add: waits_def)
    then have "\<forall>w. Some w \<in> wt_watch ` set (sb_waiters (subjects h ! s)) \<longrightarrow> w < length (watchers h)"
      using w by (auto simp: waits_ok_def)
    then have n: "\<forall>w. Some w \<in> set (map wt_watch (sb_waiters (f (subjects h ! s)))) \<longrightarrow> w < length (watchers h)"
      using assms(2) unfolding set_map by blast
    have "waits (upd_subject s f h) = (waits h)[s := map wt_watch (sb_waiters (f (subjects h ! s)))]"
      by (simp add: waits_def upd_subject_def map_update)
    moreover have "watchers (upd_subject s f h) = watchers h" by (simp add: upd_subject_def)
    ultimately show ?thesis using w n set_update_subset_insert unfolding waits_ok_def by fastforce
  qed
qed

lemma upd_subject_dom:
  fixes h :: "'a hubdata_scheme"
  shows "(\<And>s. subject_layout (f s) = subject_layout s) \<Longrightarrow> (\<And>s. sb_waiters (f s) = sb_waiters s) \<Longrightarrow> hub_frame h (upd_subject i f h)"
  by (rule dom_frame_hub, rule dom_frame_upd_subject) simp_all

lemma waiters_qty_hub [simp]:
  fixes h :: "'a hubdata_scheme"
  shows "hub_frame h g \<Longrightarrow> hub_frame h (waiters_qty_update f g)"
  by (rule hub_frame_trans [OF _ dom_frame_hub]) (simp_all add: dom_frame_def)

lemma upd_agent_hub:
  fixes h :: "'a hubdata_scheme"
  shows "hub_frame h g \<Longrightarrow> (\<And>a. agent_layout (f a) = agent_layout a) \<Longrightarrow> hub_frame h (upd_agent i f g)"
  by (rule hub_frame_trans [OF _ dom_frame_hub [OF dom_frame_upd_agent]])

lemma fold_hub:
  assumes "\<And>x h. x \<in> set xs \<Longrightarrow> hub_ok h \<Longrightarrow> layout h = layout h0 \<Longrightarrow> hub_frame h (f x h)"
    and "hub_ok h" and "layout h = layout h0"
  shows "hub_frame h (fold f xs h)"
  using assms
proof (induction xs arbitrary: h)
  case (Cons x xs)
  have k: "hub_frame h (f x h)" using Cons.prems by simp
  then have "hub_ok (f x h)" "layout (f x h) = layout h0" using Cons.prems(2,3) by (simp_all add: hub_frame_def)
  then show ?case using hub_frame_trans [OF k] Cons by simp
qed simp

lemma fold_hub2:
  assumes "\<And>x c h. x \<in> set xs \<Longrightarrow> hub_ok h \<Longrightarrow> layout h = layout h0 \<Longrightarrow> hub_frame h (snd (f x (c, h)))"
    and "hub_ok h" and "layout h = layout h0"
  shows "hub_frame h (snd (fold f xs (c, h)))"
  using assms
proof (induction xs arbitrary: c h)
  case (Cons x xs)
  obtain c' h' where e: "f x (c, h) = (c', h')" by (cases "f x (c, h)")
  have k: "hub_frame h h'" using Cons.prems(1) [of x h c] Cons.prems(2,3) e by simp
  then have "hub_ok h'" "layout h' = layout h0" using Cons.prems(2,3) by (simp_all add: hub_frame_def)
  then show ?case using hub_frame_trans [OF k] Cons e by simp
qed simp

lemma ohubSetSubjectStateByRef_hub:
  assumes "hub_ok h" and "s < length (subjects h)"
  shows "hub_frame h (snd (ohubSetSubjectStateByRef E s state (c, h)))"
proof -
  let ?h1 = "upd_subject s (\<lambda>x. x\<lparr>sb_state := state\<rparr>) h"
  let ?mods = "subject_mods s ?h1"
  let ?h2 = "set_fault (?mods \<noteq> [] \<and> \<not> env_alloc E (4 * length (modules ?h1))) ?h1"
  let ?h3 = "if state = [] then fold (\<lambda>i. upd_module i (\<lambda>m. m\<lparr>mo_segment_addr := replicate SEG_MAX_NO (-1)\<rparr>)) ?mods ?h2 else ?h2"
  let ?h4 = "snd (ohubRegisterMsgNode E None (Some s) (if state = [] then MSGNODE_REMOVE else MSGNODE_ADD) (sb_name (subjects ?h3 ! s)) ?h3)"
  let ?h5 = "ohubUpdateMonAddresses (map int ?mods) ?h4"
  have 1: "dom_frame h ?h1" by (rule dom_frame_upd_subject) (simp_all add: subject_layout_def)
  have 2: "dom_frame h ?h2" by (rule dom_frame_trans [OF 1 net_frame_dom [OF net_frame_fault]])
  have "dom_frame ?h2 (fold (\<lambda>i. upd_module i (\<lambda>m. m\<lparr>mo_segment_addr := replicate SEG_MAX_NO (-1)\<rparr>)) ?mods ?h2)"
    by (rule fold_dom_frame, rule dom_frame_upd_module) (simp add: module_layout_def)
  then have 3: "dom_frame h ?h3" using 2 dom_frame_trans by auto
  then have "s < length (subjects ?h3)" using assms(2) layout_sizes(4) [of ?h3 h] by (simp add: dom_frame_def)
  then have "msg_frame ?h3 ?h4" by (intro ohubRegisterMsgNode_frame) simp
  note 4 = hub_frame_trans [OF dom_frame_hub [OF 3] msg_frame_hub [OF this]]
  note 5 = hub_frame_trans [OF 4 mon_frame_hub [OF ohubUpdateMonAddresses_frame [of _ "map int ?mods"]]]
  have "hub_frame ?h5 (ohubUpdateDataAddresses E (map int ?mods) ?h5)"
    using ohubUpdateDataAddresses_hub [OF hub_frame_ok [OF 5 assms(1)]] by (simp add: keeps_def)
  from hub_frame_trans [OF 5 this] show ?thesis
    by (simp add: ohubSetSubjectStateByRef_def Let_def)
qed

lemma ohubSendSubjects_net [intro]: "net_frame h (snd (ohubSendSubjects E w i h))"
  by (auto simp: ohubSendSubjects_def Let_def split: option.split)

lemma answer_waiters_hub:
  fixes h :: "'a hubdata_scheme"
  shows "hub_frame h (answer_waiters E s js h)"
proof (induction js arbitrary: h)
  case (Cons j js)
  have "hub_frame h (upd_subject s (\<lambda>x. x\<lparr>sb_waiters_qty := sb_waiters_qty x - 1\<rparr>)
      ((snd (ohubWatchSendPacket E w k t l d h))\<lparr>waiters_qty := n\<rparr>))" for w k t l d n
    by (rule hub_frame_trans [OF _ upd_subject_dom]) (simp_all add: subject_layout_def send_hub)
  from hub_frame_trans [OF this Cons.IH] show ?case using Cons.IH by (auto simp: Let_def split: option.split)
qed simp

lemma clamp_waiters_hub [simp]:
  fixes h :: "'a hubdata_scheme"
  shows "hub_frame h (clamp_waiters s h)"
  unfolding clamp_waiters_def by (rule upd_subject_dom) (simp_all add: subject_layout_def)

lemma answer_subject_hub:
  fixes h :: "'a hubdata_scheme"
  shows "hub_frame h (answer_subject E a s h)"
  by (auto simp: answer_subject_def Let_def intro: hub_frame_trans [OF clamp_waiters_hub answer_waiters_hub])

lemma same_layout: "hub_frame h g \<Longrightarrow> layout g = layout h" by (simp add: hub_frame_def)

lemma subjects_layout: "layout h = layout h0 \<Longrightarrow> length (subjects h) = length (subjects h0)"
  by (rule layout_sizes(4))

lemma ohubSetAgentState_hub:
  assumes "hub_ok h"
  shows "hub_frame h (snd (ohubSetAgentState E a state h))"
proof -
  let ?undef = "state = UNDEFINED_STATE" and ?off = "state = []"
  let ?on = "\<not> ?undef \<and> \<not> ?off"
  define h1 where "h1 = (if ?undef then upd_agent a (\<lambda>x. x\<lparr>ag_state := UNDEFINED_STATE\<rparr>) h
                     else if ?off then
                       upd_agent a (\<lambda>x. x\<lparr>ag_reg_count := 0, ag_write_count := 0\<rparr>)
                         (ohubCancelAgentData E a (upd_agent a (\<lambda>x. x\<lparr>ag_state := []\<rparr>) h))
                     else upd_agent a (\<lambda>x. x\<lparr>ag_state := bstr ''ON'', ag_reg_count := 0, ag_write_count := 0\<rparr>) h)"
  have u: "hub_frame h (upd_agent a (\<lambda>x. x\<lparr>ag_state := st\<rparr>) h)" for st
    by (rule upd_agent_hub) (simp_all add: agent_layout_def)
  have "hub_frame h (ohubCancelAgentData E a (upd_agent a (\<lambda>x. x\<lparr>ag_state := []\<rparr>) h))"
    by (rule hub_frame_trans [OF u keeps_hub [OF ohubCancelAgentData_hub [OF hub_frame_ok [OF u assms]]]])
  then have h1: "hub_frame h h1" unfolding h1_def using u
    by (auto intro!: upd_agent_hub simp: agent_layout_def)
  have k1: "hub_ok h1" by (rule hub_frame_ok [OF h1 assms])
  let ?f = "\<lambda>s (c, h). if sb_agent (subjects h ! s) = a then
          (if ?undef then (c, upd_subject s (\<lambda>x. x\<lparr>sb_state := UNDEFINED_STATE\<rparr>) h)
           else ohubSetSubjectStateByRef E s [] (c, h)) else (c, h)"
  have "hub_frame h1 (snd (fold ?f [0..<length (subjects h1)] (False, h1)))"
  proof (rule fold_hub2 [where h0 = h1])
    fix s c g assume "s \<in> set [0..<length (subjects h1)]" "hub_ok g" "layout g = layout h1"
    then show "hub_frame g (snd (?f s (c, g)))"
      using ohubSetSubjectStateByRef_hub [of g s E "[]" c] subjects_layout [of g h1]
      by (auto intro: upd_subject_dom simp: subject_layout_def)
  qed (simp_all add: k1)
  note h2 = hub_frame_trans [OF h1 this]
  define r2 where "r2 = (if ?on then (False, h1) else fold ?f [0..<length (subjects h1)] (False, h1))"
  have r2: "hub_frame h (snd r2)" unfolding r2_def using h1 h2 by simp
  define h3 where "h3 = (if fst r2 then snd (ohubSendSubjects E None False (snd r2)) else snd r2)"
  have h3: "hub_frame h h3" unfolding h3_def using r2 hub_frame_trans [OF r2 net_frame_hub [OF ohubSendSubjects_net]] by simp
  have "hub_frame h3 (fold (answer_subject E a) [0..<length (subjects h3)] h3)"
    by (rule fold_hub [where ?h0.0 = h3]) (simp_all add: answer_subject_hub hub_frame_ok [OF h3 assms])
  note h4 = hub_frame_trans [OF h3 this]
  have "snd (ohubSetAgentState E a state h) = (if state = ag_state (agents h ! a) \<and> \<not> ?undef then h
      else if ?on \<and> waiters_qty h3 > 0 then fold (answer_subject E a) [0..<length (subjects h3)] h3 else h3)"
    unfolding ohubSetAgentState_def Let_def h3_def r2_def h1_def by (simp add: case_prod_unfold)
  then show ?thesis using h3 h4 by simp
qed

section \<open>Segments\<close>

lemma apply_segs_dom: "dom_frame h (apply_segs E buf pmod k p h)"
proof (induction k arbitrary: p h)
  case (Suc k)
  have "dom_frame h (upd_module m (\<lambda>x. x\<lparr>mo_segment_addr := (mo_segment_addr x)[i := b]\<rparr>) h)" for m i b
    by (rule dom_frame_upd_module) (simp add: module_layout_def)
  from dom_frame_trans [OF this Suc.IH] show ?case using Suc.IH by (auto simp: Let_def split: option.split)
qed simp

lemma apply_mods_dom: "dom_frame h (snd (apply_mods E buf psub j p h))"
proof (induction j arbitrary: p h)
  case (Suc j)
  show ?case by (simp add: Let_def dom_frame_trans [OF apply_segs_dom Suc.IH])
qed simp

lemma apply_subjs_hub:
  assumes "hub_ok h"
  shows "hub_frame h (snd (apply_subjs E buf a i p (c, h)))"
  using assms
proof (induction i arbitrary: p c h)
  case (Suc i)
  let ?q = "unat (rd E buf p)"
  let ?name = "rd_name E buf (p + 1) ?q"
  let ?psub = "find_subject a ?name h"
  obtain p2 h1 where m: "apply_mods E buf ?psub (unat (rd E buf (p + 1 + ?q))) (p + 1 + ?q + 1) h = (p2, h1)"
    by (cases "apply_mods E buf ?psub (unat (rd E buf (p + 1 + ?q))) (p + 1 + ?q + 1) h")
  have f1: "hub_frame h h1" using dom_frame_hub [OF apply_mods_dom, of h E buf ?psub "unat (rd E buf (p + 1 + ?q))" "p + 1 + ?q + 1"] m
    by simp
  note k1 = hub_frame_ok [OF f1 Suc.prems]
  show ?case
  proof (cases ?psub)
    case None
    then show ?thesis using m hub_frame_trans [OF f1 Suc.IH [OF k1]] by (simp add: Let_def)
  next
    case (Some s)
    then have "s < length (subjects h)" using find_SomeD [OF Some [unfolded find_subject_def]] by simp
    then have "s < length (subjects h1)" using hub_frame_sizes(4) [OF f1] by simp
    obtain c2 h2 where s2: "ohubSetSubjectStateByRef E s ?name (c, h1) = (c2, h2)"
      by (cases "ohubSetSubjectStateByRef E s ?name (c, h1)")
    have f2: "hub_frame h1 h2"
      using ohubSetSubjectStateByRef_hub [OF k1 \<open>s < length (subjects h1)\<close>, of E ?name c] s2 by simp
    show ?thesis
      using m Some s2 hub_frame_trans [OF hub_frame_trans [OF f1 f2] Suc.IH [OF hub_frame_ok [OF f2 k1]]]
      by (simp add: Let_def)
  qed
qed simp

lemma ohubHandleSegments_hub:
  assumes "hub_ok h"
  shows "hub_frame h (snd (ohubHandleSegments E a kind type len buf h))"
proof -
  define h1 where "h1 = (if rd E buf 0 \<noteq> 0 then snd (ohubSetAgentState E a UNDEFINED_STATE h) else h)"
  have h1: "hub_frame h h1" unfolding h1_def using ohubSetAgentState_hub [OF assms] by simp
  define r2 where "r2 = apply_subjs E buf a (unat (rd E buf 1)) 2 (False, h1)"
  have h2: "hub_frame h (snd r2)" unfolding r2_def
    by (rule hub_frame_trans [OF h1 apply_subjs_hub [OF hub_frame_ok [OF h1 assms]]])
  note k2 = hub_frame_ok [OF h2 assms]
  define r3 where "r3 = fold (\<lambda>s (c, h). if sb_agent (subjects h ! s) = a \<and> sb_state (subjects h ! s) = UNDEFINED_STATE
                then ohubSetSubjectStateByRef E s [] (c, h) else (c, h)) [0..<length (subjects (snd r2))] r2"
  have "hub_frame (snd r2) (snd r3)" unfolding r3_def
  proof (subst prod.collapse [of r2, symmetric], rule fold_hub2 [where ?h0.0 = "snd r2"])
    fix s c g assume "s \<in> set [0..<length (subjects (snd r2))]" "hub_ok g" "layout g = layout (snd r2)"
    then show "hub_frame g (snd (case (c, g) of (c, h) \<Rightarrow> if sb_agent (subjects h ! s) = a \<and> sb_state (subjects h ! s) = UNDEFINED_STATE
                then ohubSetSubjectStateByRef E s [] (c, h) else (c, h)))"
      using ohubSetSubjectStateByRef_hub [of g s E "[]" c] subjects_layout [of g "snd r2"] by auto
  qed (simp_all add: k2)
  note h3 = hub_frame_trans [OF h2 this]
  have "snd (ohubHandleSegments E a kind type len buf h) = (if \<not> segments_valid E len buf then h
      else if fst r3 then snd (ohubSendSubjects E None False (snd r3)) else snd r3)"
    unfolding ohubHandleSegments_def Let_def r3_def r2_def h1_def by (simp add: case_prod_unfold)
  then show ?thesis using h3 hub_frame_trans [OF h3 net_frame_hub [OF ohubSendSubjects_net]] by simp
qed

section \<open>Triggers\<close>

lemma trigger_error_net [intro]: "net_frame h (snd (trigger_error E w u e h))"
  by (auto simp: trigger_error_def)

lemma ohubHandleTriggerSubject_hub:
  assumes "w < length (watchers h)"
  shows "hub_frame h (snd (ohubHandleTriggerSubject E w kind type len buf (h :: 'a hubdata_scheme)))"
proof -
  have t: "hub_frame h (snd (ohubSubjTrigger E ns h))" for ns by (rule net_frame_hub) auto
  have e: "hub_frame h (snd (trigger_error E w u e h))" "hub_frame h (snd (trigger_error E w u e (snd (ohubSubjTrigger E ns h))))" for u e ns
    by (rule net_frame_hub, auto intro: net_frame_trans [OF ohubSubjTrigger_net trigger_error_net])+
  have u: "hub_frame h (upd_subject s (\<lambda>x. x\<lparr>sb_waiters := (sb_waiters x)[j := \<lparr>wt_watch = Some w, wt_op = o1, wt_watchdog = d\<rparr>],
      sb_waiters_qty := sb_waiters_qty x + 1\<rparr>) (snd (ohubSubjTrigger E ns h)))" for s j o1 d ns
    by (rule hub_frame_trans [OF t upd_subject_hub])
      (use assms hub_frame_sizes(1) [OF t, of ns] set_update_subset_insert in \<open>fastforce simp: subject_layout_def\<close>)+
  show ?thesis
    unfolding ohubHandleTriggerSubject_def Let_def case_prod_unfold
    using e u by (auto split: option.split)
qed

lemma clear_waiter_hub [simp]:
  fixes h :: "'a hubdata_scheme"
  shows "hub_frame h (clear_waiter s j h)"
  unfolding clear_waiter_def
proof (rule waiters_qty_hub, rule upd_subject_hub)
  fix w
  let ?l = "sb_waiters (subjects h ! s)"
  assume "Some w \<in> wt_watch ` set (sb_waiters ((subjects h ! s)\<lparr>sb_waiters := ?l[j := (?l ! j)\<lparr>wt_watch := None, wt_watchdog := 0\<rparr>],
      sb_waiters_qty := sb_waiters_qty (subjects h ! s) - 1\<rparr>))"
  then show "Some w \<in> wt_watch ` set ?l \<or> w < length (watchers h)"
    using set_update_subset_insert [of ?l j "(?l ! j)\<lparr>wt_watch := None, wt_watchdog := 0\<rparr>"] by auto
qed (simp add: subject_layout_def)

lemma clear_loop_hub: fixes h :: "'a hubdata_scheme" shows "hub_frame h (clear_loop w s js h)"
proof (induction js arbitrary: h)
  case (Cons j js)
  show ?case using Cons.IH hub_frame_trans [OF clear_waiter_hub Cons.IH] by (simp add: Let_def)
qed simp

lemma clear_subjects_hub: fixes h :: "'a hubdata_scheme" shows "hub_frame h (clear_subjects w ss h)"
proof (induction ss arbitrary: h)
  case (Cons s ss)
  note c = hub_frame_trans [OF clamp_waiters_hub clear_loop_hub]
  show ?case by (simp add: Let_def hub_frame_trans [OF clamp_waiters_hub Cons.IH] c hub_frame_trans [OF c Cons.IH])
qed simp

lemma ohubClearSubjectWaiters_hub:
  fixes h :: "'a hubdata_scheme"
  shows "hub_frame h (ohubClearSubjectWaiters (Some w) h)"
  by (simp add: ohubClearSubjectWaiters_def clear_subjects_hub)

lemma timeout_loop_hub: fixes h :: "'a hubdata_scheme" shows "hub_frame h (timeout_loop E s js h)"
proof (induction js arbitrary: h)
  case (Cons j js)
  have c: "hub_frame h (clear_waiter s j (snd (ohubWatchSendPacket E w k t l d h)))" for w k t l d
    by (rule hub_frame_trans [OF send_hub(1) clear_waiter_hub]) simp
  show ?case using Cons.IH c hub_frame_trans [OF c Cons.IH] by (auto simp: Let_def split: option.split)
qed simp

lemma timeout_subjects_hub: fixes h :: "'a hubdata_scheme" shows "hub_frame h (timeout_subjects E ss h)"
proof (induction ss arbitrary: h)
  case (Cons s ss)
  note c = hub_frame_trans [OF clamp_waiters_hub timeout_loop_hub]
  show ?case by (simp add: Let_def hub_frame_trans [OF clamp_waiters_hub Cons.IH] c hub_frame_trans [OF c Cons.IH])
qed simp

lemma ohubHandleTriggerTimeouts_hub: fixes h :: "'a hubdata_scheme" shows "hub_frame h (ohubHandleTriggerTimeouts E h)"
  by (simp add: ohubHandleTriggerTimeouts_def timeout_subjects_hub)

section \<open>Connections\<close>

lemma upd_watch_dom [simp]: "dom_frame h (upd_watch i f h)"
  by (simp add: dom_frame_def layout_def waits_def net_layout_def upd_watch_def)

lemma upd_subj_dom: "(\<And>s. ns_agent (f s) = ns_agent s) \<Longrightarrow> dom_frame h (upd_subj i f h)"
  by (simp add: dom_frame_def layout_def waits_def net_layout_def upd_subj_def map_update_self)

lemma upd_watch_hub: fixes h :: "'a hubdata_scheme" shows "hub_frame h g \<Longrightarrow> hub_frame h (upd_watch i f g)"
  by (rule hub_frame_trans [OF _ dom_frame_hub [OF upd_watch_dom]])

lemma upd_subj_hub:
  fixes h :: "'a hubdata_scheme"
  shows "hub_frame h g \<Longrightarrow> (\<And>s. ns_agent (f s) = ns_agent s) \<Longrightarrow> hub_frame h (upd_subj i f g)"
  by (rule hub_frame_trans [OF _ dom_frame_hub [OF upd_subj_dom]])

lemma ohubWatchClose_hub:
  assumes "hub_ok h"
  shows "hub_frame h (ohubWatchClose E i h)"
proof -
  let ?a = "snd (ohubMonRemoveWatch E i h)"
  let ?b = "ohubCancelWatchData i ?a"
  let ?c = "ohubClearSubjectWaiters (Some i) ?b"
  have a: "hub_frame h ?a" by (rule mon_frame_hub, rule ohubMonRemoveWatch_law(1)) (use assms in \<open>simp add: hub_ok_def\<close>)
  have b: "hub_frame h ?b" by (rule hub_frame_trans [OF a keeps_hub [OF ohubCancelWatchData_hub [OF hub_frame_ok [OF a assms]]]])
  have c: "hub_frame h ?c" by (rule hub_frame_trans [OF b ohubClearSubjectWaiters_hub])
  have "hub_frame h (snd (ohubRegisterMsgNode E (Some i) None MSGNODE_REMOVE nm ?c))" for nm
    by (rule hub_frame_trans [OF c msg_frame_hub [OF ohubRegisterMsgNode_frame]]) simp
  then show ?thesis by (simp add: ohubWatchClose_def Let_def upd_watch_hub)
qed

lemma notify_agent_hub: "hub_ok h \<Longrightarrow> hub_frame h (notify_agent E a state h)"
  by (simp add: notify_agent_def ohubSetAgentState_hub split: option.split)

lemma ohubSubjDisconnect_hub:
  assumes "hub_ok h"
  shows "hub_frame h (ohubSubjDisconnect E i h)"
proof -
  note 1 = notify_agent_hub [OF assms, of E "ns_agent (subjs h ! i)" "[]"]
  have 2: "hub_frame h (upd_subj i subj_clear (notify_agent E (ns_agent (subjs h ! i)) [] h))"
    by (rule upd_subj_hub [OF 1]) (simp add: subj_clear_def)
  show ?thesis unfolding ohubSubjDisconnect_def Let_def
    by (rule hub_frame_trans [OF 2 notify_agent_hub [OF hub_frame_ok [OF 2 assms]]])
qed

lemma ohubWatchAcceptConnection_hub: 
  fixes h :: "'a hubdata_scheme"
  shows "hub_frame h (snd (ohubWatchAcceptConnection E inc h))"
proof -
  have "dom_frame h (snd (ohubWatchOpen E h))"
    by (auto simp: ohubWatchOpen_def Let_def dom_frame_def layout_def waits_def net_layout_def upd_watch_def split: option.split)
  from dom_frame_hub [OF this] show ?thesis
    by (auto simp: ohubWatchAcceptConnection_def case_prod_unfold intro!: upd_watch_hub split: option.split)
qed

section \<open>Packets of watchers\<close>

lemma ohubHandleRemoteLog_hub: fixes h :: "'a hubdata_scheme" shows "hub_frame h (snd (ohubHandleRemoteLog buf h))"
  by (simp add: ohubHandleRemoteLog_def send_hub)

lemma ohubWatchHandleIncoming_hub:
  assumes "hub_ok h" and "w < length (watchers h)"
  shows "hub_frame h (snd (ohubWatchHandleIncoming E w kind type len buf h))"
proof -
  define g where "g = set_fault (buf = None \<and> null_read type) h"
  have f: "hub_frame h g" by (simp add: send_hub g_def)
  have k: "hub_ok g" "mons_ok g" "w < length (watchers g)"
    using hub_frame_ok [OF f assms(1)] assms(2) hub_frame_sizes(1) [OF f] by (simp_all add: hub_ok_def)
  note T = hub_frame_trans [OF f]
  note all = T [OF dom_frame_hub [OF ohubHandleInfoReq_dom]] T [OF dom_frame_hub [OF ohubHandleMonGroupReq_dom]]
    T [OF mon_frame_hub [OF ohubHandleMonRegistration_frame [OF k(2,3)]]]
    T [OF mon_frame_hub [OF ohubHandleMonComboRequest_frame [OF k(2,3)]]]
    T [OF ohubHandleOoidWrite_hub [OF k(1,3)]] T [OF ohubHandleOoidRead_hub [OF k(1,3)]]
    T [OF ohubHandleTriggerSubject_hub [OF k(3)]]
    T [OF msg_frame_hub [OF ohubHandleMsgClassAct_frame]] T [OF msg_frame_hub [OF ohubHandleMsgWaterMark_frame]]
    T [OF net_frame_hub [OF ohubHandleMsgSend_net]] T [OF ohubHandleRemoteLog_hub]
  show ?thesis unfolding ohubWatchHandleIncoming_def Let_def g_def [symmetric] using f
    by (simp add: all)
qed

lemma ohubWatchConnect_hub:
  assumes "w < length (watchers h)"
  shows "hub_frame h (snd (ohubWatchConnect E w kind type len buf (h :: 'a hubdata_scheme)))"
proof -
  have e: "hub_frame h g \<Longrightarrow> hub_frame h (snd (ohubSendSubjects E x b g))" for g x b
    by (rule hub_frame_trans [OF _ net_frame_hub [OF ohubSendSubjects_net]])
  have r: "hub_frame h g \<Longrightarrow> hub_frame h (snd (ohubRegisterMsgNode E (Some w) None MSGNODE_ADD nm g))" for g nm
    by (rule hub_frame_trans [OF _ msg_frame_hub [OF ohubRegisterMsgNode_frame]])
      (use assms hub_frame_sizes(1) [of h g] in auto)
  show ?thesis unfolding ohubWatchConnect_def Let_def
    by (auto intro!: r e send_hub upd_watch_hub)
qed

lemma ohubWatchHandleProtocol_hub:
  assumes "hub_ok h" and "w < length (watchers h)"
  shows "hub_frame h (snd (ohubWatchHandleProtocol E w kind type len buf h))"
proof -
  have rn: "hub_frame h g \<Longrightarrow> hub_frame h (snd (ohubMonRenewWatch E w g))" for g
    by (rule hub_frame_trans [OF _ net_frame_hub [OF ohubMonRenewWatch_net]])
  show ?thesis
    unfolding ohubWatchHandleProtocol_def Let_def
    using ohubWatchConnect_hub [OF assms(2)] ohubWatchHandleIncoming_hub [OF assms]
    by (auto intro!: rn send_hub upd_watch_hub)
qed

lemma ohubWatchReceiveStream_hub:
  assumes "hub_ok h" and "i < length (watchers h)"
  shows "hub_frame h (snd (ohubWatchReceiveStream E i fp eof rx h))"
  using assms
proof (induction E i fp eof rx h rule: ohubWatchReceiveStream.induct)
  case (1 E i fp eof rx h)
  obtain b rx1 w where s: "ReceiveStep E fp eof rx (watchers h ! i) = (b, rx1, w)"
    by (cases "ReceiveStep E fp eof rx (watchers h ! i)")
  show ?case
  proof (cases b)
    case False
    then show ?thesis using s by (subst ohubWatchReceiveStream.simps) (simp add: upd_watch_hub)
  next
    case True
    let ?h1 = "upd_watch i (\<lambda>_. w) h"
    have f1: "hub_frame h ?h1" by (simp add: upd_watch_hub)
    define h2 where "h2 = snd (ohubWatchHandleProtocol E i OLANG_DATA (reget_type w) (reget_len w)
                     (map_option (take (nat (reget_len w))) (reget_buf w)) ?h1)"
    have "hub_frame h h2" unfolding h2_def
      by (rule hub_frame_trans [OF f1 ohubWatchHandleProtocol_hub])
        (use hub_frame_ok [OF f1 1(2)] 1(3) hub_frame_sizes(1) [OF f1] in simp_all)
    then have f3: "hub_frame h (upd_watch i recv_clear h2)" by (rule upd_watch_hub)
    have "hub_frame (upd_watch i recv_clear h2) (snd (ohubWatchReceiveStream E i False eof rx1 (upd_watch i recv_clear h2)))"
      using 1(1) [OF s [symmetric] _ refl refl refl] s True hub_frame_ok [OF f3 1(2)] hub_frame_sizes(1) [OF f3] 1(3)
      by (simp add: h2_def)
    from hub_frame_trans [OF f3 this] show ?thesis using s True
      by (subst ohubWatchReceiveStream.simps) (simp add: Let_def h2_def)
  qed
qed

section \<open>Packets of agents\<close>

lemma ohubAgentHandleIncoming_hub:
  assumes "hub_ok h"
  shows "hub_frame h (snd (ohubAgentHandleIncoming E a kind type len buf h))"
proof -
  define g where "g = set_fault (buf = None \<and> null_read type) h"
  have f: "hub_frame h g" by (simp add: send_hub g_def)
  have k: "hub_ok g" by (rule hub_frame_ok [OF f assms])
  have u: "hub_frame h g' \<Longrightarrow> hub_frame h (upd_agent i (\<lambda>x. x\<lparr>ag_reg_count := max 0 (ag_reg_count x - 1)\<rparr>) g')"
    "hub_frame h g' \<Longrightarrow> hub_frame h (upd_agent i (\<lambda>x. x\<lparr>ag_write_count := max 0 (ag_write_count x - 1)\<rparr>) g')" for g' i
    by (rule upd_agent_hub; simp add: agent_layout_def)+
  note T = hub_frame_trans [OF f]
  note all = T [OF ohubHandleSegments_hub [OF k]] T [OF dom_frame_hub [OF ohubHandleDataMonReply_dom]]
    T [OF mon_frame_hub [OF ohubHandleMonitoring_frame]] u(2) [OF T [OF ohubHandleDataWrite_hub]]
    T [OF ohubHandleDataRead_hub] u(1) [OF f]
    T [OF msg_frame_hub [OF ohubHandleMsgClassAct_frame]] T [OF msg_frame_hub [OF ohubHandleMsgWaterMark_frame]]
    T [OF net_frame_hub [OF ohubHandleMsgSend_net]] T [OF ohubHandleRemoteLog_hub]
  show ?thesis unfolding ohubAgentHandleIncoming_def Let_def g_def [symmetric] using f
    by (simp add: all send_hub)
qed

lemma ohubSubjHandlePingReply_hub:
  fixes h :: "'a hub_scheme"
  shows "hub_frame h (snd (ohubSubjHandlePingReply E i kind type len data h))"
  unfolding ohubSubjHandlePingReply_def Let_def case_prod_unfold
  by (auto intro!: upd_subj_hub send_hub split: connres.split)

lemma ohubSubjConnect_hub:
  assumes "hub_ok h"
  shows "hub_frame h (snd (ohubSubjConnect E i kind type len buf h))"
proof -
  have u: "hub_frame h (upd_subj i (\<lambda>s. s\<lparr>needs_rotor := b\<rparr>) h)" "hub_frame h (upd_subj i (\<lambda>s. s\<lparr>p_state := ST_EXIT\<rparr>) h)" for b
    by (rule upd_subj_hub; simp)+
  show ?thesis unfolding ohubSubjConnect_def Let_def
    using u hub_frame_trans [OF u(1) notify_agent_hub [OF hub_frame_ok [OF u(1) assms]]] by simp
qed

lemma ohubSubjHandleProtocol_hub:
  assumes "hub_ok h"
  shows "hub_frame h (snd (ohubSubjHandleProtocol E i kind type len buf h))"
proof -
  have u: "hub_frame h (upd_subj i (\<lambda>s. s\<lparr>p_state := ST_EXIT\<rparr>) h)" by (rule upd_subj_hub; simp)
  show ?thesis unfolding ohubSubjHandleProtocol_def Let_def
    using ohubSubjConnect_hub [OF assms] ohubAgentHandleIncoming_hub [OF assms]
      hub_frame_trans [OF u notify_agent_hub [OF hub_frame_ok [OF u assms]]]
    by (simp add: ohubSubjHandlePingReply_hub)
qed

text \<open>What the reader changes of a connection.\<close>

lemma subj_more_agent: "peer.more s' = peer.more (s :: netsubj) \<Longrightarrow> ns_agent s' = ns_agent s"
  by (cases s, cases s') simp

lemma recv_more:
  "recv_ready E c rx p = (b, rx', p') \<Longrightarrow> peer.more p' = peer.more p"
  "recv_body E eof rx p = (b, rx', p') \<Longrightarrow> peer.more p' = peer.more p"
  "recv_again E eof rx p = (b, rx', p') \<Longrightarrow> peer.more p' = peer.more p"
proof -
  show r: "recv_ready E c rx p = (b, rx', p') \<Longrightarrow> peer.more p' = peer.more p" for E c rx p b rx' and p' :: "'b peer_scheme"
    by (auto simp: recv_ready_def split: if_splits)
  show "recv_body E eof rx p = (b, rx', p') \<Longrightarrow> peer.more p' = peer.more p"
    by (auto simp: recv_body_def Let_def split: if_splits prod.splits dest!: r)
  show "recv_again E eof rx p = (b, rx', p') \<Longrightarrow> peer.more p' = peer.more p"
    by (auto simp: recv_again_def Let_def split: if_splits prod.splits option.splits dest!: r)
qed

lemma ReceiveStep_more:
  assumes "ReceiveStep E fp eof rx p = (b, rx', p')"
  shows "peer.more p' = peer.more p"
proof (cases "reget_len p \<ge> 0")
  case True
  then show ?thesis using assms recv_more(3) by (simp add: ReceiveStep_def)
next
  case False
  then show ?thesis using assms
    by (auto simp: ReceiveStep_def Let_def split: if_splits prod.splits dest!: recv_more(2))
qed

lemma ohubSubjReceiveStream_hub:
  assumes "hub_ok h"
  shows "hub_frame h (snd (ohubSubjReceiveStream E i fp eof rx h))"
  using assms
proof (induction E i fp eof rx h rule: ohubSubjReceiveStream.induct)
  case (1 E i fp eof rx h)
  obtain b rx1 s where s: "ReceiveStep E fp eof rx (subjs h ! i) = (b, rx1, s)"
    by (cases "ReceiveStep E fp eof rx (subjs h ! i)")
  have ag: "ns_agent s = ns_agent (subjs h ! i)" by (rule subj_more_agent [OF ReceiveStep_more [OF s]])
  have K: "hub_frame h (upd_subj i (\<lambda>_. x) h)" if "ns_agent x = ns_agent (subjs h ! i)" for x
    by (rule dom_frame_hub) (simp add: dom_frame_def layout_def waits_def net_layout_def upd_subj_def map_update_self that)
  show ?case
  proof (cases b)
    case False
    have "ns_agent (recv_end s) = ns_agent (subjs h ! i)" by (simp add: recv_end_def recv_clear_def ag)
    then show ?thesis using s False K by (subst ohubSubjReceiveStream.simps) simp
  next
    case True
    let ?h1 = "upd_subj i (\<lambda>_. s) h"
    have f1: "hub_frame h ?h1" by (rule K [OF ag])
    define h2 where "h2 = snd (ohubSubjHandleProtocol E i OLANG_DATA (reget_type s) (reget_len s)
                     (map_option (take (nat (reget_len s))) (reget_buf s)) ?h1)"
    have "hub_frame h h2" unfolding h2_def
      by (rule hub_frame_trans [OF f1 ohubSubjHandleProtocol_hub [OF hub_frame_ok [OF f1 1(2)]]])
    then have f3: "hub_frame h (upd_subj i recv_clear h2)" by (rule upd_subj_hub) (simp add: recv_clear_def)
    have "hub_frame (upd_subj i recv_clear h2) (snd (ohubSubjReceiveStream E i False eof rx1 (upd_subj i recv_clear h2)))"
      using 1(1) [OF s [symmetric] _ refl refl refl] s True hub_frame_ok [OF f3 1(2)]
      by (simp add: h2_def)
    from hub_frame_trans [OF f3 this] show ?thesis using s True
      by (subst ohubSubjReceiveStream.simps) (simp add: Let_def h2_def)
  qed
qed

section \<open>Datagrams\<close>

lemma ohubWatchReceiveDatagram_hub:
  assumes "hub_ok h" and "length (watchers h) = 33" and "i < 33"
  shows "hub_frame h (ohubWatchReceiveDatagram E i addr dg h)"
proof -
  define g where "g = (if p_state (watchers h ! i) = ST_OPEN then h else upd_watch i (\<lambda>w. w\<lparr>cntl_addr := addr\<rparr>) h)"
  have g: "hub_frame h g" unfolding g_def by (simp add: upd_watch_hub)
  have P: "hub_frame h (snd (ohubWatchHandleProtocol E w k t l b (upd_watch w (\<lambda>x. x\<lparr>alive_get_wd := n\<rparr>) g)))"
    if "w < 33" for w k t l b n
    using hub_frame_trans [OF upd_watch_hub [OF g] ohubWatchHandleProtocol_hub]
      hub_frame_ok [OF upd_watch_hub [OF g] assms(1)] hub_frame_sizes(1) [OF upd_watch_hub [OF g]] assms(2) that by auto
  have W: "w < 33" if "ohubWatchGetById wid g = Some w" for wid w
    using that by (auto simp: ohubWatchGetById_def Let_def OHUB_MAX_WATCH_def split: if_splits)
  show ?thesis unfolding ohubWatchReceiveDatagram_def Let_def g_def [symmetric]
    using g P W assms(3) by (auto split: option.split)
qed

lemma ohubSubjReceiveDatagram_hub:
  assumes "hub_ok h"
  shows "hub_frame h (ohubSubjReceiveDatagram E i dg h)"
proof -
  have u: "hub_frame h (upd_subj s (\<lambda>x. x\<lparr>alive_get_wd := n\<rparr>) h)" for s n by (rule upd_subj_hub) simp_all
  have "hub_frame h (snd (ohubSubjHandleProtocol E s k t l b (upd_subj s (\<lambda>x. x\<lparr>alive_get_wd := n\<rparr>) h)))" for s k t l b n
    by (rule hub_frame_trans [OF u ohubSubjHandleProtocol_hub [OF hub_frame_ok [OF u assms]]])
  then show ?thesis unfolding ohubSubjReceiveDatagram_def Let_def by simp
qed

section \<open>The main loop\<close>

lemma PokeRetry_more: "peer.more (snd (PokeRetry E p)) = peer.more p"
  by (simp add: PokeRetry_def Let_def case_prod_unfold)

lemma PokeNew_more: "peer.more (snd (PokeNew E ty n dp p)) = peer.more p"
  by (simp add: PokeNew_def Let_def case_prod_unfold)

lemma PokeStream_more: "peer.more (snd (PokeStream E ty len dq p)) = peer.more p"
  using PokeRetry_more [of E p] by (simp add: PokeStream_def Let_def case_prod_unfold PokeNew_more)

lemma ring_get_more: "peer.more (ring_get p) = peer.more p"
  by (simp add: ring_get_def)

lemma ResendStream_more: "peer.more (ResendStream E p) = peer.more p"
proof (induction E p rule: ResendStream.induct)
  case (1 E p)
  obtain rc p1 where s1: "(if reput_len p \<ge> 0 then PokeStream E (-1) (-1) None p else (OK, p)) = (rc, p1)"
    by (metis prod.exhaust)
  have m1: "peer.more p1 = peer.more p" using s1 PokeStream_more [of E "-1" "-1" None p] by (auto split: if_splits)
  let ?pk = "q_buf p1 ! q_rd p1"
  obtain rc2 p2 where s2: "PokeStream E (pk_type ?pk) (pk_len ?pk) (pk_buf ?pk) p1 = (rc2, p2)"
    by (metis prod.exhaust)
  have m2: "peer.more p2 = peer.more p"
    using m1 PokeStream_more [of E "pk_type ?pk" "pk_len ?pk" "pk_buf ?pk" p1] s2 by simp
  let ?p3 = "ring_get p2"
  have m3: "peer.more ?p3 = peer.more p" using m2 by (simp add: ring_get_more)
  show ?case
  proof (cases "rc = OK \<and> q_len p1 \<noteq> 0 \<and> rc2 = OK")
    case False
    then show ?thesis using s1 s2 m1 m2 by (auto simp: ResendStream.simps [of E p])
  next
    case True
    have ex: "ResendStream E p = (if q_len ?p3 = 0 \<or> reput_len ?p3 \<ge> 0 then ?p3 else ResendStream E ?p3)"
      using s1 s2 True by (simp add: ResendStream.simps [of E p])
    show ?thesis
      using ex m3 1 [OF s1 [symmetric]] s2 True
      by (cases "q_len ?p3 = 0 \<or> reput_len ?p3 \<ge> 0") auto
  qed
qed

end
