(* ===== verification/LoopInv.thy ===== *)
theory LoopInv
  imports HubInv
begin

text \<open>
  The main loop keeps the invariant of the hub: first each task of one pass, then the pass,
  then every state that the hub reaches from one in order.
\<close>

section \<open>The tasks of one pass\<close>

lemma watch_background_hub:
  fixes h :: "'a hubdata_scheme"
  assumes "hub_ok h"
  shows "hub_frame h (watch_background E i h)"
proof -
  define h1 where "h1 = (if p_state (watchers h ! i) = ST_OPEN \<and> env_now E - alive_get_wd (watchers h ! i) > OLANG_DEAD_MS
                then ohubWatchClose E i (upd_watch i (\<lambda>w. w\<lparr>p_state := ST_EXIT\<rparr>) h) else h)"
  have u: "hub_frame h (upd_watch i f h)" for f by (rule upd_watch_hub) simp
  have 1: "hub_frame h h1"
    unfolding h1_def using hub_frame_trans [OF u ohubWatchClose_hub [OF hub_frame_ok [OF u assms]]] by simp
  show ?thesis unfolding watch_background_def Let_def h1_def [symmetric]
    using 1 by (auto intro!: upd_watch_hub send_hub)
qed

lemma subj_background_hub:
  fixes h :: "'a hubdata_scheme"
  shows "hub_frame h (subj_background E i h)"
proof -
  define h1 where "h1 = (if p_state (subjs h ! i) = ST_OPEN \<and> env_now E - alive_get_wd (subjs h ! i) > OLANG_DEAD_MS
                then upd_subj i (\<lambda>s. s\<lparr>p_state := ST_EXIT\<rparr>) h else h)"
  have 1: "hub_frame h h1" unfolding h1_def by (auto intro!: upd_subj_hub)
  show ?thesis unfolding subj_background_def Let_def h1_def [symmetric]
    using 1 by (auto intro!: upd_subj_hub send_hub simp: drop_hanging_def)
qed

lemma ohubWatchBackgroundTask_hub:
  fixes h :: "'a hubdata_scheme"
  assumes "hub_ok h"
  shows "hub_frame h (ohubWatchBackgroundTask E h)"
  unfolding ohubWatchBackgroundTask_def by (rule fold_hub [OF watch_background_hub assms refl])

lemma ohubSubjBackgroundTask_hub:
  fixes h :: "'a hubdata_scheme"
  assumes "hub_ok h"
  shows "hub_frame h (ohubSubjBackgroundTask E h)"
  unfolding ohubSubjBackgroundTask_def by (rule fold_hub [OF subj_background_hub assms refl])

lemma watch_prepare_hub:
  fixes h :: "'a hubdata_scheme"
  shows "hub_frame h (watch_prepare E i h)"
  by (auto simp: watch_prepare_def ohubMonFlushMonAccum_def Let_def case_prod_unfold intro!: upd_watch_hub send_hub)

lemma subj_prepare_hub:
  fixes h :: "'a hubdata_scheme"
  shows "hub_frame h (subj_prepare E i h)"
proof -
  define h1 where "h1 = (if ua_buf (unreg_accum (subjs h ! i)) \<noteq> [] \<and> env_now E - ua_start (unreg_accum (subjs h ! i)) > OHUB_UNREG_ACCUM_TTL
                then snd (ohubMonFlushUnregAccum E i h) else h)"
  have 1: "hub_frame h h1" unfolding h1_def
    by (auto simp: ohubMonFlushUnregAccum_def Let_def case_prod_unfold intro!: upd_subj_hub send_hub)
  show ?thesis unfolding subj_prepare_def Let_def h1_def [symmetric]
    using hub_frame_trans [OF 1 net_frame_hub [OF ohubSubjPing_net]] 1 by simp
qed

lemma prepare_hub:
  fixes h :: "'a hubdata_scheme"
  assumes "hub_ok h"
  shows "hub_frame h (snd (snd (ohubWatchPrepareEvents E h)))" "hub_frame h (snd (snd (ohubSubjPrepareEvents E h)))"
  by (simp_all add: ohubWatchPrepareEvents_def ohubSubjPrepareEvents_def Let_def fold_hub [OF _ assms refl]
      watch_prepare_hub subj_prepare_hub)

section \<open>Socket events\<close>

lemma watch_event_hub:
  fixes h :: "'a hubdata_scheme"
  assumes "hub_ok h" and "i < length (watchers h)"
  shows "hub_frame h (snd (watch_event E ev i (n, h)))"
  using ohubWatchReceiveStream_hub [OF assms]
  by (auto simp: watch_event_def Let_def intro!: upd_watch_hub split: option.split prod.split)

lemma subj_event_hub:
  fixes h :: "'a hub_scheme"
  assumes "hub_ok h"
  shows "hub_frame h (snd (subj_event E ev i (n, h)))"
proof -
  have K: "hub_frame h (upd_subj i (ohubSubjResendStream E) g)" if "hub_frame h g" for g :: "'a hub_scheme"
    by (rule upd_subj_hub [OF that]) (simp add: ohubSubjResendStream_def subj_more_agent [OF ResendStream_more])
  show ?thesis using ohubSubjReceiveStream_hub [OF assms] K
    by (auto simp: subj_event_def Let_def split: option.split prod.split)
qed

lemma ohubWatchHandleEvents_hub:
  fixes h :: "'a hubdata_scheme"
  assumes ok: "hub_ok h" and len: "length (watchers h) = 33"
  shows "hub_frame h (snd (ohubWatchHandleEvents E ev h))"
proof -
  define r1 where "r1 = (case ev_watch_dgram ev of None \<Rightarrow> (0 :: nat, h)
      | Some (addr, dg) \<Rightarrow> (1, ohubWatchReceiveDatagram E OHUB_MAX_WATCH addr dg h))"
  obtain n1 h1 where r1: "r1 = (n1, h1)" by (cases r1)
  have 1: "hub_frame h h1"
    using r1 ohubWatchReceiveDatagram_hub [OF ok len, of OHUB_MAX_WATCH] unfolding r1_def
    by (auto simp: OHUB_MAX_WATCH_def split: option.splits prod.splits)
  define r2 where "r2 = (case ev_accept ev of None \<Rightarrow> (n1, h1)
      | Some inc \<Rightarrow> (n1 + 1, snd (ohubWatchAcceptConnection E inc h1)))"
  obtain n2 h2 where r2: "r2 = (n2, h2)" by (cases r2)
  have "hub_frame h1 h2" using r2 ohubWatchAcceptConnection_hub unfolding r2_def by (auto split: option.splits)
  then have 2: "hub_frame h h2" by (rule hub_frame_trans [OF 1])
  have "hub_frame h2 (snd (fold (watch_event E ev) [1..<OHUB_MAX_WATCH] (n2, h2)))"
  proof (rule fold_hub2 [OF watch_event_hub hub_frame_ok [OF 2 ok] refl])
    fix i c and g :: "'a hubdata_scheme"
    assume "i \<in> set [1..<OHUB_MAX_WATCH]" "layout g = layout h2"
    then show "i < length (watchers g)"
      using layout_sizes(1) [of g h2] hub_frame_sizes(1) [OF 2] len by (simp add: OHUB_MAX_WATCH_def)
  qed
  then show ?thesis unfolding ohubWatchHandleEvents_def
    using hub_frame_trans [OF 2] r1 r2 by (simp add: r1_def [symmetric] r2_def [symmetric])
qed

lemma ohubSubjHandleEvents_hub:
  fixes h :: "'a hub_scheme"
  assumes ok: "hub_ok h"
  shows "hub_frame h (snd (ohubSubjHandleEvents E ev h))"
proof -
  define r1 where "r1 = (case ev_subj_dgram ev of None \<Rightarrow> (0 :: nat, h)
      | Some dg \<Rightarrow> (1, ohubSubjReceiveDatagram E OHUB_MAX_SUBJ dg h))"
  obtain n1 h1 where r1: "r1 = (n1, h1)" by (cases r1)
  have 1: "hub_frame h h1"
    using r1 ohubSubjReceiveDatagram_hub [OF ok, of E OHUB_MAX_SUBJ] unfolding r1_def by (auto split: option.splits)
  have "hub_frame h1 (snd (fold (subj_event E ev) [1..<OHUB_MAX_SUBJ] (n1, h1)))"
    by (rule fold_hub2 [OF subj_event_hub hub_frame_ok [OF 1 ok] refl])
  then show ?thesis unfolding ohubSubjHandleEvents_def
    using hub_frame_trans [OF 1] r1 by (simp add: r1_def [symmetric])
qed

section \<open>Closing what was given up\<close>

lemma ohubWatchLazyShutdown_hub:
  fixes h :: "'a hubdata_scheme"
  assumes "hub_ok h"
  shows "hub_frame h (ohubWatchLazyShutdown E h)"
  unfolding ohubWatchLazyShutdown_def by (rule fold_hub [OF _ assms refl]) (simp add: ohubWatchClose_hub)

lemma ohubSubjLazyShutdown_hub:
  fixes h :: "'a hubdata_scheme"
  assumes "hub_ok h"
  shows "hub_frame h (ohubSubjLazyShutdown E h)"
  unfolding ohubSubjLazyShutdown_def
proof (rule fold_hub [OF _ assms refl])
  fix i and g :: "'a hubdata_scheme"
  assume "hub_ok g"
  then have "hub_frame g (upd_subj i (\<lambda>s. s\<lparr>p_state := ST_WAIT\<rparr>) (ohubSubjDisconnect E i g))"
    by (intro upd_subj_hub ohubSubjDisconnect_hub) auto
  then have "hub_frame g (ohubSubjPing E i (upd_subj i (\<lambda>s. s\<lparr>p_state := ST_WAIT\<rparr>) (ohubSubjDisconnect E i g)))"
    by (rule hub_frame_trans [OF _ net_frame_hub [OF ohubSubjPing_net]])
  then show "hub_frame g (if p_state (subjs g ! i) \<noteq> ST_EXIT then g
      else ohubSubjPing E i (upd_subj i (\<lambda>s. s\<lparr>p_state := ST_WAIT\<rparr>) (ohubSubjDisconnect E i g)))"
    by simp
qed

section \<open>The pass and the states the hub reaches\<close>

definition hub_sized :: "'a hubdata_scheme \<Rightarrow> bool" where
  "hub_sized h \<longleftrightarrow> hub_ok h \<and> length (watchers h) = 33 \<and> length (subjs h) = 33"

lemma more_ok:
  fixes h :: "'a hub_scheme"
  shows "hub_ok (subj_start_update f h) = hub_ok h" "layout (subj_start_update f h) = layout h"
    "hub_ok (watchers_start_update f h) = hub_ok h" "layout (watchers_start_update f h) = layout h"
  by (simp_all add: hub_ok_def dom_ok_def msg_ok_def mons_ok_def data_ok_def waits_ok_def layout_def waits_def
      net_layout_def sizes_def node_ok_def)

lemma enable_networks_ok:
  fixes h :: "'a hub_scheme"
  assumes "hub_ok h"
  shows "hub_ok (enable_networks E h) \<and> layout (enable_networks E h) = layout h"
proof -
  have f: "hub_frame g (subjs_enable_update u g)" "hub_frame g (watchers_enable_update u g)" for g :: "'a hub_scheme" and u
    by (rule dom_frame_hub, simp add: dom_frame_def layout_def waits_def net_layout_def)+
  have "hub_ok (subjs_enable_update u g) \<and> layout (subjs_enable_update u g) = layout g"
    "hub_ok (watchers_enable_update u g) \<and> layout (watchers_enable_update u g) = layout g"
    if "hub_ok g" for g :: "'a hub_scheme" and u
    using f [of g u] that by (simp_all add: hub_frame_def)
  then show ?thesis using assms by (simp add: enable_networks_def Let_def more_ok)
qed

lemma ohubInternalDaemonLoop_sized:
  fixes h :: "'a hub_scheme"
  assumes "hub_sized h"
  shows "hub_sized (ohubInternalDaemonLoop E ev h) \<and> layout (ohubInternalDaemonLoop E ev h) = layout h"
proof -
  define h1 where "h1 = enable_networks E h"
  have "hub_ok h1 \<and> layout h1 = layout h"
    unfolding h1_def by (rule enable_networks_ok) (use assms in \<open>simp add: hub_sized_def\<close>)
  then have ok1: "hub_ok h1" and l1: "layout h1 = layout h" by simp_all
  define h2 where "h2 = ohubSubjBackgroundTask E (ohubWatchBackgroundTask E h1)"
  note s1 = ohubWatchBackgroundTask_hub [OF ok1, of E]
  have f2: "hub_frame h1 h2" unfolding h2_def
    by (rule hub_frame_trans [OF s1 ohubSubjBackgroundTask_hub [OF hub_frame_ok [OF s1 ok1]]])
  define h3 where "h3 = ohubHandleTriggerTimeouts E h2"
  have f3: "hub_frame h1 h3" unfolding h3_def by (rule hub_frame_trans [OF f2 ohubHandleTriggerTimeouts_hub])
  define h4 where "h4 = snd (ohubSecureMoreMonitors E h3)"
  have f4: "hub_frame h1 h4" unfolding h4_def
    by (rule hub_frame_trans [OF f3 mon_frame_hub [OF ohubSecureMoreMonitors_frame]])
  define h5 where "h5 = snd (ohubSecureMoreWrites E h4)"
  have f5: "hub_frame h1 h5" unfolding h5_def
    by (rule hub_frame_trans [OF f4 keeps_hub [OF ohubSecureMoreWrites_hub [OF hub_frame_ok [OF f4 ok1]]]])
  define h6 where "h6 = snd (snd (ohubWatchPrepareEvents E h5))"
  have f6: "hub_frame h1 h6" unfolding h6_def
    by (rule hub_frame_trans [OF f5 prepare_hub(1) [OF hub_frame_ok [OF f5 ok1]]])
  define h7 where "h7 = snd (snd (ohubSubjPrepareEvents E h6))"
  have f7: "hub_frame h1 h7" unfolding h7_def
    by (rule hub_frame_trans [OF f6 prepare_hub(2) [OF hub_frame_ok [OF f6 ok1]]])
  define h8 where "h8 = (if ev_num ev > 0
      then snd (ohubSubjHandleEvents E ev (snd (ohubWatchHandleEvents E ev h7))) else h7)"
  have "length (watchers h7) = 33"
    using assms hub_frame_sizes(1) [OF f7] layout_sizes(1) [OF l1] by (simp add: hub_sized_def)
  note w7 = ohubWatchHandleEvents_hub [OF hub_frame_ok [OF f7 ok1] this, of E ev]
  have f8: "hub_frame h1 h8" unfolding h8_def
    using hub_frame_trans [OF f7 hub_frame_trans [OF w7 ohubSubjHandleEvents_hub [OF hub_frame_ok [OF w7 hub_frame_ok [OF f7 ok1]]]]]
      f7 by simp
  note s8 = ohubWatchLazyShutdown_hub [OF hub_frame_ok [OF f8 ok1], of E]
  have f9: "hub_frame h1 (ohubSubjLazyShutdown E (ohubWatchLazyShutdown E h8))"
    by (rule hub_frame_trans [OF f8 hub_frame_trans [OF s8
          ohubSubjLazyShutdown_hub [OF hub_frame_ok [OF s8 hub_frame_ok [OF f8 ok1]]]]])
  have eq: "ohubInternalDaemonLoop E ev h
      = (if ev_num ev < 0 then h7 else ohubSubjLazyShutdown E (ohubWatchLazyShutdown E h8))"
    by (simp add: ohubInternalDaemonLoop_def Let_def h1_def h2_def h3_def h4_def h5_def h6_def h7_def h8_def)
  have f: "hub_frame h1 (ohubInternalDaemonLoop E ev h)" unfolding eq using f7 f9 by simp
  have "layout (ohubInternalDaemonLoop E ev h) = layout h" using f l1 by (simp add: hub_frame_def)
  moreover from this have "hub_sized (ohubInternalDaemonLoop E ev h)"
    using assms hub_frame_ok [OF f ok1] layout_sizes(1,2) [of "ohubInternalDaemonLoop E ev h" h]
    by (simp add: hub_sized_def)
  ultimately show ?thesis by simp
qed

inductive hub_reach :: "'a hub_scheme \<Rightarrow> 'a hub_scheme \<Rightarrow> bool" for h where
  start: "hub_reach h h"
| pass: "hub_reach h g \<Longrightarrow> hub_reach h (ohubInternalDaemonLoop E ev g)"

lemmas hub_reach_once = hub_reach.pass [OF hub_reach.start]

lemma hub_reach_sized:
  "hub_reach h g \<Longrightarrow> hub_sized h \<Longrightarrow> hub_sized g \<and> layout g = layout h"
  by (induction rule: hub_reach.induct) (simp_all add: ohubInternalDaemonLoop_sized)

section \<open>A hub at work\<close>

text \<open>One monitor with three watchers, a read of watcher 3 waiting for the agent.\<close>

definition data1 :: data where
  "data1 = no_data\<lparr>dt_busy := True, dt_id := 65537, dt_watch := Some 3, dt_agent := Some 0\<rparr>"

definition hub0 :: hub where
  "hub0 = hubdata.extend (hubmon.extend mon0 (hubdata.fields [no_data, data1] 1 2 0)) (hub.fields [] 0 0 0)"

lemma hub0_simps [simp]:
  "mons hub0 = [None, Some monitor0]" "watchers hub0 = replicate 33 watch0" "subjs hub0 = replicate 33 subj0"
  "mon_securing_qty hub0 = 0" "agents hub0 = [agent0]" "subjects hub0 = [subject0]" "modules hub0 = [module0]"
  "msg_nodes hub0 = []" "msg_classes hub0 = []" "data_chain hub0 = [no_data, data1]" "data_chain_len hub0 = 1"
  "write_securing_qty hub0 = 0"
  by (simp_all add: hub0_def mon0_def msg0_def dom0_def hubdom.defs hubmsg.defs hubmon.defs hubdata.defs hub.defs)

lemma hub0_sized: "hub_sized hub0"
proof -
  have "dom_ok hub0" by (rule dom_ok0) simp_all
  moreover have "table_ok {} (33, 1, 33) [None, Some monitor0] 0" by (rule table_ok0)
  moreover have "unat ((65537 :: u32) AND 65535) = 1" by simp
  then have "chain_ok (33, 1, 33) [no_data, data1] 1 0"
    by (auto simp: chain_ok_def data_entry_ok_def data1_def no_data_def busy_of_def pending_of_def less_Suc_eq)
  moreover have "waits_ok hub0" by (simp add: waits_ok_def waits_def subject0_def)
  ultimately show ?thesis
    by (simp add: hub_sized_def hub_ok_def msg_ok_def mons_ok_def data_ok_def sizes_def classes_ok_def)
qed

text \<open>
  C1. The hub never loses track: in every state reached by passes of the main loop, whatever
  the peers send and in whatever order, the tables are as in the beginning and every reference
  between watchers, agents, subjects, modules, message nodes, monitors and pending operations
  is valid.
\<close>

theorem main_loop_keeps_tables:
  assumes "hub_reach h g" and "hub_ok h" and "length (watchers h) = 33" and "length (subjs h) = 33"
  shows "hub_ok g \<and> layout g = layout h \<and> length (watchers g) = 33 \<and> length (subjs g) = 33"
  using hub_reach_sized [OF assms(1)] assms(2-4) by (simp add: hub_sized_def)

definition quiet :: events where
  "quiet = \<lparr>ev_num = 0, ev_watch_dgram = None, ev_accept = None, ev_watch_read = (\<lambda>_. None),
     ev_watch_write = (\<lambda>_. False), ev_subj_dgram = None, ev_subj_read = (\<lambda>_. None), ev_subj_write = (\<lambda>_. False)\<rparr>"

theorem main_loop_keeps_tables_witness:
  "hub_ok (ohubInternalDaemonLoop env0 quiet hub0) \<and> length (watchers (ohubInternalDaemonLoop env0 quiet hub0)) = 33"
  using main_loop_keeps_tables [OF hub_reach_once, of hub0 env0 quiet] hub0_sized by (simp add: hub_sized_def)

end
