(* ===== verification/Closing.thy ===== *)
theory Closing
  imports LoopInv
begin

text \<open>
  What is left of a watcher when its connection is closed, and what becomes of the watchers
  that wait for a subject to come up.
\<close>

section \<open>Pending operations of a closed watcher\<close>

definition orphan :: "nat \<Rightarrow> data \<Rightarrow> bool" where
  "orphan w d \<longleftrightarrow> (dt_busy d \<and> dt_watch d = Some w \<longrightarrow> dt_securing d = -1)"

lemma cancel_watch_data_entry:
  fixes h :: "'a hubdata_scheme"
  assumes "no < length (data_chain h)"
  shows "\<exists>d. data_chain (cancel_watch_data w no h) = (data_chain h)[no := d] \<and> orphan w d"
proof -
  let ?d = "data_chain h ! no"
  have d: "data_chain (upd_data no f h) = (data_chain h)[no := f ?d]" for f by (simp add: upd_data_def)
  have "data_chain (ohubDeallocateData no h) = (data_chain h)[no := no_data]"
    by (simp add: ohubDeallocateData_def upd_data_def Let_def)
  moreover have "(data_chain h)[no := ?d] = data_chain h" by simp
  ultimately show ?thesis
    by (cases "dt_busy ?d \<and> dt_watch ?d = Some w")
      (auto simp: cancel_watch_data_def Let_def d orphan_def no_data_def intro: exI [where x = ?d])
qed

lemma cancel_watch_data_rest [simp]:
  fixes h :: "'a hubdata_scheme"
  shows "mons (cancel_watch_data w no h) = mons h" "msg_nodes (cancel_watch_data w no h) = msg_nodes h"
  by (simp_all add: cancel_watch_data_def ohubDeallocateData_def Let_def upd_data_def)

lemma cancel_watch_data_fold:
  fixes h :: "'a hubdata_scheme"
  assumes "n \<le> length (data_chain h)"
  shows "length (data_chain (fold (cancel_watch_data w) [0..<n] h)) = length (data_chain h)
    \<and> (\<forall>k < n. orphan w (data_chain (fold (cancel_watch_data w) [0..<n] h) ! k))
    \<and> mons (fold (cancel_watch_data w) [0..<n] h) = mons h
    \<and> msg_nodes (fold (cancel_watch_data w) [0..<n] h) = msg_nodes h"
  using assms
proof (induction n)
  case (Suc n)
  let ?g = "fold (cancel_watch_data w) [0..<n] h"
  have g: "length (data_chain ?g) = length (data_chain h)" "\<forall>k < n. orphan w (data_chain ?g ! k)"
    "mons ?g = mons h" "msg_nodes ?g = msg_nodes h" using Suc by simp_all
  obtain d where d: "data_chain (cancel_watch_data w n ?g) = (data_chain ?g)[n := d]" "orphan w d"
    using cancel_watch_data_entry [of n ?g w] g(1) Suc.prems by auto
  show ?case using g d Suc.prems by (auto simp: less_Suc_eq)
qed simp

lemma ohubCancelWatchData_law:
  fixes h :: "'a hubdata_scheme"
  shows "\<forall>d \<in> set (data_chain (ohubCancelWatchData w h)). orphan w d"
    "mons (ohubCancelWatchData w h) = mons h" "msg_nodes (ohubCancelWatchData w h) = msg_nodes h"
  using cancel_watch_data_fold [of "length (data_chain h)" h w]
  by (auto simp: ohubCancelWatchData_def in_set_conv_nth)

section \<open>Waiters\<close>

lemma clear_more:
  "hubdom.more (clear_loop w s js h) = hubdom.more h"
  "hubdom.more (clear_subjects w ss h) = hubdom.more h"
  "hubdom.more (ohubClearSubjectWaiters (Some w) h) = hubdom.more h"
proof -
  show l: "hubdom.more (clear_loop w s js h) = hubdom.more h" for s js and h :: "'b hubdom_scheme"
    by (induction js arbitrary: h) (simp_all add: Let_def clear_waiter_def upd_subject_def)
  show c: "hubdom.more (clear_subjects w ss h) = hubdom.more h" for ss and h :: "'b hubdom_scheme"
    by (induction ss arbitrary: h) (simp_all add: Let_def clamp_waiters_def upd_subject_def l)
  show "hubdom.more (ohubClearSubjectWaiters (Some w) h) = hubdom.more h"
    by (simp add: ohubClearSubjectWaiters_def c)
qed

section \<open>The node of a closed watcher\<close>

lemma node_removed:
  assumes ok: "msg_ok h"
  shows "\<forall>n \<in> set (msg_nodes (snd (ohubRegisterMsgNode E (Some w) None MSGNODE_REMOVE name h))). mn_watch n \<noteq> Some w"
proof -
  let ?P = "\<lambda>n. mn_watch n = Some w \<and> mn_subject n = None"
  have sub: "mn_subject n = None" if "n \<in> set (msg_nodes h)" "mn_watch n = Some w" for n
    using ok that by (auto simp: msg_ok_def node_ok_def)
  show ?thesis
  proof (cases "find ?P (msg_nodes h)")
    case None
    then have "mn_watch n \<noteq> Some w" if "n \<in> set (msg_nodes h)" for n
      using that sub by (auto simp: find_None_iff)
    then show ?thesis using None by (simp add: ohubRegisterMsgNode_def)
  next
    case (Some p)
    then have p: "p \<in> set (msg_nodes h)" "?P p" by (auto simp: find_Some_iff)
    have uniq: "n = p" if "n \<in> set (msg_nodes h)" "mn_watch n = Some w" for n
    proof (rule inj_onD [of owner "set (msg_nodes h)"])
      show "inj_on owner (set (msg_nodes h))" using ok by (simp add: msg_ok_def distinct_map)
    qed (use that p sub in \<open>simp_all add: owner_def\<close>)
    show ?thesis using Some uniq
      by (auto simp: ohubRegisterMsgNode_def Let_def case_prod_unfold upd_node_def)
  qed
qed

lemma register_more:
  "hubmsg.more (snd (ohubRegisterMsgNode E w s act name h)) = hubmsg.more h"
  by (simp add: ohubRegisterMsgNode_def Let_def case_prod_unfold split: node_action.split option.split)

section \<open>Closing a watcher\<close>

lemma ohubWatchClose_law:
  fixes h :: "'a hubdata_scheme"
  assumes ok: "hub_ok h" and up: "data_sock (watchers h ! w) > 0"
  shows "watched (ohubWatchClose E w h) = {p \<in> watched h. snd p \<noteq> w}"
    "\<forall>d \<in> set (data_chain (ohubWatchClose E w h)). orphan w d"
    "\<forall>n \<in> set (msg_nodes (ohubWatchClose E w h)). mn_watch n \<noteq> Some w"
proof -
  define a where "a = snd (ohubMonRemoveWatch E w h)"
  define b where "b = ohubCancelWatchData w a"
  define c where "c = ohubClearSubjectWaiters (Some w) b"
  define d where "d = snd (ohubRegisterMsgNode E (Some w) None MSGNODE_REMOVE (watch_desc (watchers c ! w)) c)"
  have mons: "mons_ok h" using ok by (simp add: hub_ok_def)
  have fa: "hub_frame h a" unfolding a_def by (rule mon_frame_hub [OF ohubMonRemoveWatch_law(1) [OF mons]])
  have fb: "hub_frame h b" unfolding b_def
    by (rule hub_frame_trans [OF fa keeps_hub [OF ohubCancelWatchData_hub [OF hub_frame_ok [OF fa ok]]]])
  have fc: "hub_frame h c" unfolding c_def by (rule hub_frame_trans [OF fb ohubClearSubjectWaiters_hub])
  have "msg_ok c" using hub_frame_ok [OF fc ok] by (simp add: hub_ok_def)
  note rem = node_removed [OF this, of E w "watch_desc (watchers c ! w)"]
  have hc: "hubdom.more c = hubdom.more b" unfolding c_def by (rule clear_more)
  have mc: "mons c = mons b" "data_chain c = data_chain b" using hc by (cases c, cases b, simp)+
  have hd: "hubmsg.more d = hubmsg.more c" unfolding d_def by (rule register_more)
  have md: "mons d = mons c" "data_chain d = data_chain c" using hd by (cases d, cases c, simp)+
  have mb: "mons b = mons a" unfolding b_def by (rule ohubCancelWatchData_law)
  have eq: "ohubWatchClose E w h = upd_watch w watch_reset d"
    using up by (simp add: ohubWatchClose_def Let_def a_def b_def c_def d_def)
  have "watched (upd_watch w watch_reset d) = watched a"
    by (simp add: watched_def upd_watch_def md mc mb)
  then show "watched (ohubWatchClose E w h) = {p \<in> watched h. snd p \<noteq> w}"
    using ohubMonRemoveWatch_law(2) [OF mons, of E w] eq by (simp add: a_def)
  have "data_chain (upd_watch w watch_reset d) = data_chain b" by (simp add: upd_watch_def md mc)
  then show "\<forall>d \<in> set (data_chain (ohubWatchClose E w h)). orphan w d"
    using ohubCancelWatchData_law(1) [where w = w and h = a] eq by (simp add: b_def)
  have "msg_nodes (upd_watch w watch_reset d) = msg_nodes d" by (simp add: upd_watch_def)
  then show "\<forall>n \<in> set (msg_nodes (ohubWatchClose E w h)). mn_watch n \<noteq> Some w"
    using rem eq by (simp add: d_def)
qed


text \<open>The watcher of the sample hub that waits for a read, connected.\<close>

definition hub1 :: hub where "hub1 = upd_watch 3 (\<lambda>w. w\<lparr>data_sock := 7, p_state := ST_OPEN\<rparr>) hub0"

lemma hub1_ok: "hub_ok hub1" "length (watchers hub1) = 33" "data_sock (watchers hub1 ! 3) = 7"
proof -
  have "hub_frame hub0 hub1" unfolding hub1_def by (rule upd_watch_hub) simp
  then show "hub_ok hub1" "length (watchers hub1) = 33"
    using hub0_sized hub_frame_ok [of hub0 hub1] hub_frame_sizes(1) [of hub0 hub1] by (auto simp: hub_sized_def)
  show "data_sock (watchers hub1 ! 3) = 7" by (simp add: hub1_def upd_watch_def)
qed


section \<open>The watchers that wait for a subject\<close>

text \<open>The slots of a subject that hold a watcher, in a list of slots.\<close>

definition held :: "waiter list \<Rightarrow> nat list \<Rightarrow> nat list" where
  "held ws js = filter (\<lambda>j. wt_watch (ws ! j) \<noteq> None) js"

lemma send_subjects [simp]: "subjects (snd (ohubWatchSendPacket E w k t l d h)) = subjects h"
proof -
  have "hubnet.more (snd (ohubWatchSendPacket E w k t l d h)) = hubnet.more h"
    by (rule net_frame_fields) auto
  then show ?thesis by (cases h, cases "snd (ohubWatchSendPacket E w k t l d h)") simp
qed

lemma answer_waiters_law:
  "length (subjects (answer_waiters E s js h)) = length (subjects h)
    \<and> (\<forall>t. t \<noteq> s \<longrightarrow> subjects (answer_waiters E s js h) ! t = subjects h ! t)
    \<and> (s < length (subjects h) \<longrightarrow>
        subjects (answer_waiters E s js h) ! s
          = (subjects h ! s)\<lparr>sb_waiters_qty := sb_waiters_qty (subjects h ! s) - int (length (held (sb_waiters (subjects h ! s)) js))\<rparr>)"
proof (induction js arbitrary: h)
  case (Cons j js)
  show ?case
  proof (cases "wt_watch (sb_waiters (subjects h ! s) ! j)")
    case None
    then show ?thesis using Cons by (simp add: held_def)
  next
    case (Some i)
    define g where "g = upd_subject s (\<lambda>x. x\<lparr>sb_waiters_qty := sb_waiters_qty x - 1\<rparr>)
       ((snd (ohubWatchSendPacket E (Some i) OLANG_DATA OLANG_TRIGGER_REPLY 6
          (Some (trigger_reply (wt_op (sb_waiters (subjects h ! s) ! j)) 0)) h))
        \<lparr>waiters_qty := waiters_qty (snd (ohubWatchSendPacket E (Some i) OLANG_DATA OLANG_TRIGGER_REPLY 6
          (Some (trigger_reply (wt_op (sb_waiters (subjects h ! s) ! j)) 0)) h)) - 1\<rparr>)"
    have e: "answer_waiters E s (j # js) h = answer_waiters E s js g"
      using Some by (simp add: g_def Let_def)
    have g: "subjects g = (subjects h)[s := (subjects h ! s)\<lparr>sb_waiters_qty := sb_waiters_qty (subjects h ! s) - 1\<rparr>]"
      by (simp add: g_def upd_subject_def)
    show ?thesis unfolding e using Cons.IH [of g] Some by (simp add: g held_def)
  qed
qed (simp add: held_def)

lemma answer_subject_law:
  shows "length (subjects (answer_subject E a s h)) = length (subjects h)"
    "t \<noteq> s \<Longrightarrow> subjects (answer_subject E a s h) ! t = subjects h ! t"
    "s < length (subjects h) \<Longrightarrow> sb_agent (subjects h ! s) = a \<Longrightarrow>
      sb_waiters_qty (subjects h ! s) = int (length (held (sb_waiters (subjects h ! s)) [0..<OHUB_MAX_SUBJECT_WAITERS])) \<Longrightarrow>
      subjects (answer_subject E a s h) ! s = (subjects h ! s)\<lparr>sb_waiters_qty := 0\<rparr>"
proof -
  have c: "subjects (clamp_waiters s h) = (subjects h)[s := (subjects h ! s)\<lparr>sb_waiters_qty := max 0 (sb_waiters_qty (subjects h ! s))\<rparr>]"
    by (simp add: clamp_waiters_def upd_subject_def)
  note law = answer_waiters_law [of E s "[0..<OHUB_MAX_SUBJECT_WAITERS]" "clamp_waiters s h"]
  show "length (subjects (answer_subject E a s h)) = length (subjects h)"
    "t \<noteq> s \<Longrightarrow> subjects (answer_subject E a s h) ! t = subjects h ! t"
    using law by (simp_all add: answer_subject_def Let_def c)
  assume "s < length (subjects h)" "sb_agent (subjects h ! s) = a"
    "sb_waiters_qty (subjects h ! s) = int (length (held (sb_waiters (subjects h ! s)) [0..<OHUB_MAX_SUBJECT_WAITERS]))"
  then show "subjects (answer_subject E a s h) ! s = (subjects h ! s)\<lparr>sb_waiters_qty := 0\<rparr>"
    using law by (simp add: answer_subject_def Let_def c)
qed

lemma answer_fold_law:
  assumes "s < length (subjects h)" and "n \<le> length (subjects h)" and "sb_agent (subjects h ! s) = a"
    and "sb_waiters_qty (subjects h ! s) = int (length (held (sb_waiters (subjects h ! s)) [0..<OHUB_MAX_SUBJECT_WAITERS]))"
  shows "length (subjects (fold (answer_subject E a) [0..<n] h)) = length (subjects h)
    \<and> subjects (fold (answer_subject E a) [0..<n] h) ! s =
      (if s < n then (subjects h ! s)\<lparr>sb_waiters_qty := 0\<rparr> else subjects h ! s)"
  using assms(2)
proof (induction n)
  case (Suc n)
  let ?g = "fold (answer_subject E a) [0..<n] h"
  have g: "length (subjects ?g) = length (subjects h)"
    "subjects ?g ! s = (if s < n then (subjects h ! s)\<lparr>sb_waiters_qty := 0\<rparr> else subjects h ! s)"
    using Suc by simp_all
  show ?case
  proof (cases "s = n")
    case False
    then show ?thesis using answer_subject_law(1) [of E a n ?g] answer_subject_law(2) [of s n E a ?g] g by (simp add: less_Suc_eq)
  next
    case True
    then show ?thesis using answer_subject_law(1) [of E a n ?g] answer_subject_law(3) [of n ?g a E] g assms(1,3,4) by simp
  qed
qed simp

text \<open>A subject whose count is zero is passed over when waiters are cleared.\<close>

lemma clear_loop_other: "t \<noteq> s \<Longrightarrow> subjects (clear_loop w s js h) ! t = subjects h ! t"
  by (induction js arbitrary: h) (simp_all add: Let_def clear_waiter_def upd_subject_def)

lemma clear_subjects_zero:
  "sb_waiters_qty (subjects h ! t) = 0 \<Longrightarrow> sb_waiters (subjects (clear_subjects w ss h) ! t) = sb_waiters (subjects h ! t)"
proof (induction ss arbitrary: h)
  case (Cons s ss)
  let ?h1 = "clamp_waiters s h"
  have c: "subjects ?h1 ! t = (if t = s \<and> t < length (subjects h) then (subjects h ! s)\<lparr>sb_waiters_qty := max 0 (sb_waiters_qty (subjects h ! s))\<rparr>
      else subjects h ! t)"
    by (cases "s < length (subjects h)") (auto simp: clamp_waiters_def upd_subject_def nth_list_update list_update_beyond)
  then have z: "sb_waiters_qty (subjects ?h1 ! t) = 0" "sb_waiters (subjects ?h1 ! t) = sb_waiters (subjects h ! t)"
    using Cons.prems by auto
  show ?case
  proof (cases "sb_waiters_qty (subjects ?h1 ! s) = 0")
    case True
    then show ?thesis using Cons.IH [OF z(1)] z(2) by simp
  next
    case False
    then have "t \<noteq> s" using z by auto
    note o = clear_loop_other [OF this, of w "[0..<OHUB_MAX_SUBJECT_WAITERS]" ?h1]
    show ?thesis using False Cons.IH [of "clear_loop w s [0..<OHUB_MAX_SUBJECT_WAITERS] ?h1"] o z
      by (simp add: Let_def)
  qed
qed simp


text \<open>A hub with one waiter.\<close>

definition hub2 :: hub where
  "hub2 = hub0\<lparr>subjects := [subject0\<lparr>sb_waiters := \<lparr>wt_watch = Some 3, wt_op = 9, wt_watchdog = 0\<rparr>
      # replicate 7 \<lparr>wt_watch = None, wt_op = 0, wt_watchdog = 0\<rparr>, sb_waiters_qty := 1\<rparr>], waiters_qty := 1\<rparr>"


section \<open>The table of pending operations is a map\<close>

definition pending :: "'a hubdata_scheme \<Rightarrow> u32 \<rightharpoonup> data" where
  "pending h j = map_option (\<lambda>no. data_chain h ! no) (ohubFindData j h)"

lemma pending_at:
  "pending h j = (let no = unat (j AND 65535) in
     if 0 < no \<and> no < length (data_chain h) \<and> dt_busy (data_chain h ! no) \<and> dt_id (data_chain h ! no) = j
     then Some (data_chain h ! no) else None)"
  by (simp add: pending_def ohubFindData_def Let_def)

lemma pending_set:
  assumes "data_chain g = ds[no := d]" and "no < length ds" and "0 < no" and "unat (dt_id d AND 65535) = no" and "dt_busy d"
    and "\<not> dt_busy (ds ! no)" and "\<And>k. k < length (data_chain h) \<Longrightarrow> dt_busy (data_chain h ! k) \<Longrightarrow> k < length ds \<and> ds ! k = data_chain h ! k"
    and "\<And>k. k < length ds \<Longrightarrow> dt_busy (ds ! k) \<Longrightarrow> k < length (data_chain h) \<and> ds ! k = data_chain h ! k"
  shows "pending g = (pending h)(dt_id d \<mapsto> d) \<and> pending h (dt_id d) = None"
proof
  have none: "pending h j = None" if "unat (j AND 65535) = no" for j :: u32
    using assms(6) assms(7) [of no] that by (auto simp: pending_at Let_def)
  then show "pending h (dt_id d) = None" using assms(4) by simp
  show "pending g = (pending h)(dt_id d \<mapsto> d)"
  proof
    fix j :: u32
    define k where "k = unat (j AND 65535)"
    show "pending g j = ((pending h)(dt_id d \<mapsto> d)) j"
    proof (cases "k = no")
      case True
      then show ?thesis using none [of j] assms(1-5) by (auto simp: pending_at Let_def k_def)
    next
      case False
      then have j: "j \<noteq> dt_id d" using assms(4) by (auto simp: k_def)
      have g: "pending g j = (if 0 < k \<and> k < length ds \<and> dt_busy (ds ! k) \<and> dt_id (ds ! k) = j then Some (ds ! k) else None)"
        unfolding pending_at Let_def k_def [symmetric] assms(1) using False by simp
      have h: "pending h j = (if 0 < k \<and> k < length (data_chain h) \<and> dt_busy (data_chain h ! k) \<and> dt_id (data_chain h ! k) = j
          then Some (data_chain h ! k) else None)"
        unfolding pending_at Let_def k_def [symmetric] by simp
      have "pending g j = pending h j"
      proof (cases "k < length ds \<and> dt_busy (ds ! k)")
        case True
        then show ?thesis using assms(8) [of k] unfolding g h by simp
      next
        case F: False
        then have "\<not> (k < length (data_chain h) \<and> dt_busy (data_chain h ! k))" using assms(7) [of k] by auto
        then show ?thesis using F unfolding g h by auto
      qed
      then show ?thesis using j by simp
    qed
  qed
qed

lemma ohubAllocateData_map:
  fixes h :: "'a hubdata_scheme"
  assumes "ohubAllocateData E h = (Some no, g)" and "hub_ok h"
  shows "pending g = (pending h)(dt_id (data_chain g ! no) \<mapsto> data_chain g ! no) \<and> pending h (dt_id (data_chain g ! no)) = None"
proof -
  let ?n = "bump_data_id (next_data_id h)"
  let ?d = "\<lambda>no. no_data\<lparr>dt_busy := True, dt_no := no, dt_id := make_data_id ?n no\<rparr>"
  note law = ohubAllocateData_law [OF assms]
  have no: "0 < no" "no < 65535" using law by simp_all
  have id: "unat (dt_id (?d no) AND 65535) = no" using make_data_id_low [of no ?n] no by (simp add: no_data_def)
  have P: "pending g = (pending h)(dt_id (data_chain g ! no) \<mapsto> data_chain g ! no) \<and> pending h (dt_id (data_chain g ! no)) = None"
    if "data_chain g = ds[no := ?d no]" "no < length ds" "\<not> dt_busy (ds ! no)"
      "\<And>k. k < length (data_chain h) \<Longrightarrow> dt_busy (data_chain h ! k) \<Longrightarrow> k < length ds \<and> ds ! k = data_chain h ! k"
      "\<And>k. k < length ds \<Longrightarrow> dt_busy (ds ! k) \<Longrightarrow> k < length (data_chain h) \<and> ds ! k = data_chain h ! k" for ds
    using pending_set [OF that(1,2) no(1) id _ that(3-5)] that(1,2) by simp
  show ?thesis
  proof (cases "find (\<lambda>no. \<not> dt_busy (data_chain h ! no)) [1..<length (data_chain h)]")
    case (Some k)
    then have "k = no" "data_chain g = (data_chain h)[no := ?d no]"
      using assms(1) by (auto simp: ohubAllocateData_def Let_def upd_data_def)
    then show ?thesis using find_SomeD [OF Some] by (intro P) auto
  next
    case None
    let ?size = "length (data_chain h)" and ?new = "min 65535 (length (data_chain h) * 2 + 4)"
    let ?ds = "data_chain h @ replicate (?new - ?size) no_data"
    have ne: "?new \<noteq> ?size" using assms(1) None by (auto simp: ohubAllocateData_def Let_def)
    have rg: "no = max 1 ?size" "data_chain g = ?ds[no := ?d no]"
      using assms(1) None by (auto simp: ohubAllocateData_def Let_def upd_data_def split: if_splits)
    have "?size \<le> 65535" using assms(2) by (simp add: hub_ok_def data_ok_def chain_ok_def)
    then have "?size < ?new" "1 < ?new" using ne by (auto simp: min_def)
    then have n: "no < length ?ds" "?size \<le> no" unfolding rg(1) by (auto simp: max_def)
    have free: "\<not> dt_busy (?ds ! k)" if "?size \<le> k" "k < length ?ds" for k
      using that by (auto simp: nth_append no_data_def)
    have old: "?ds ! k = data_chain h ! k" if "k < ?size" for k using that by (simp add: nth_append)
    show ?thesis
    proof (rule P [OF rg(2) n(1) free [OF n(2,1)]])
      show "k < length ?ds \<and> ?ds ! k = data_chain h ! k" if "k < ?size" "dt_busy (data_chain h ! k)" for k
        using that(1) old by simp
      show "k < ?size \<and> ?ds ! k = data_chain h ! k" if "k < length ?ds" "dt_busy (?ds ! k)" for k
      proof (cases "k < ?size")
        case True
        then show ?thesis using old [OF True] by simp
      next
        case False
        then show ?thesis using free [OF _ that(1)] that(2) by simp
      qed
    qed
  qed
qed

lemma ohubDeallocateData_map:
  fixes h :: "'a hubdata_scheme"
  assumes "busy_at no h" and "hub_ok h"
  shows "pending (ohubDeallocateData no h) = (pending h)(dt_id (data_chain h ! no) := None)"
proof
  fix j
  have n: "no < length (data_chain h)" "dt_busy (data_chain h ! no)" using assms(1) by (simp_all add: busy_at_def)
  have "data_entry_ok (sizes h) no (data_chain h ! no)" using assms(2) n by (simp add: hub_ok_def data_ok_def chain_ok_def)
  then have i: "unat (dt_id (data_chain h ! no) AND 65535) = no" using n by (simp add: data_entry_ok_def split: prod.splits)
  have d: "data_chain (ohubDeallocateData no h) = (data_chain h)[no := no_data]"
    by (simp add: ohubDeallocateData_def upd_data_def Let_def)
  show "pending (ohubDeallocateData no h) j = ((pending h)(dt_id (data_chain h ! no) := None)) j"
    using n i by (cases "unat (j AND 65535) = no") (auto simp: pending_at Let_def d no_data_def)
qed

text \<open>
  C7. The growing table of pending reads and writes is a map from identifiers to operations:
  taking a place in it adds one binding, under an identifier that no other pending operation
  has, and giving the place back removes that binding. So a reply of an agent reaches the
  operation it belongs to and no other.
\<close>

theorem pending_table_refines_map:
  assumes "hub_ok h" and "ohubAllocateData E h = (Some no, g)"
  shows "pending g = (pending h)(dt_id (data_chain g ! no) \<mapsto> data_chain g ! no)
    \<and> pending h (dt_id (data_chain g ! no)) = None \<and> hub_ok g
    \<and> pending (ohubDeallocateData no g) = pending h"
proof -
  note m = ohubAllocateData_map [OF assms(2,1)]
  have o: "on_data no h g" using ohubAllocateData_law [OF assms(2,1)] by simp
  then have ok: "hub_ok g" "busy_at no g" using assms(1) by (simp_all add: on_data_def)
  have none: "pending h (dt_id (data_chain g ! no)) = None"
    using m by simp
  have "pending (ohubDeallocateData no g) = pending h"
    using ohubDeallocateData_map [OF ok(2,1)] m none by (simp add: fun_upd_idem)
  then show ?thesis using m ok(1) by simp
qed

theorem pending_table_refines_map_witness:
  "\<exists>no g. ohubAllocateData env0 hub0 = (Some no, g) \<and> pending (ohubDeallocateData no g) = pending hub0"
proof -
  have "fst (ohubAllocateData env0 hub0) = Some 2"
    by (simp add: ohubAllocateData_def Let_def data1_def no_data_def env0_def)
  then obtain g where g: "ohubAllocateData env0 hub0 = (Some 2, g)" by (cases "ohubAllocateData env0 hub0") simp
  have "hub_ok hub0" using hub0_sized by (simp add: hub_sized_def)
  from pending_table_refines_map [OF this g] g show ?thesis by blast
qed

end
