(* ===== verification/Agent.thy ===== *)
theory Agent
  imports Peer
begin

text \<open>
  The agent library, part one: its state, sending to the hub and the collected replies about
  monitors (subj-network.c), the subjects it offers (subj-proper.c) and its message classes
  (subj-msg.c). The stream engine is the one of the hub, with one connection in global
  variables; the queue's unused offset is left out. A \<open>fault\<close> marks what C leaves undefined.
\<close>

section \<open>State\<close>

definition OSUBJ_MAX_CLASS :: nat where "OSUBJ_MAX_CLASS = 64"
definition OSUBJ_MAX_NAME :: nat where "OSUBJ_MAX_NAME = 40"
definition OSUBJ_MAX_EVER_WRITE :: nat where "OSUBJ_MAX_EVER_WRITE = 32"
definition OSUBJ_Q_SIZE :: nat where "OSUBJ_Q_SIZE = 100"
definition OSUBJ_DATA_MON_TTL :: int where "OSUBJ_DATA_MON_TTL = 50"
definition OSUBJ_MAX_DATA_MON_REPLY :: nat where "OSUBJ_MAX_DATA_MON_REPLY = 100"
definition OSUBJ_MON_BUF_SIZE :: nat where "OSUBJ_MON_BUF_SIZE = 2048"

record osegment =
  sg_name :: byte
  sg_addr :: u32

record omodule =
  om_name :: bytes
  om_segments :: "osegment list"

record osubject =
  os_name :: bytes
  os_symtable :: bytes
  os_modules :: "omodule list"

text \<open>
  \<open>OsubjMonitorRecord_t\<close>; the two halves of its buffer are the last value and the one before.
  The records are a doubly linked list, here a list; a pointer to one is its identifier, which
  is unique and not 0.
\<close>

record monrec =
  mr_ooid :: u32
  mr_adr :: u32
  mr_off :: u32
  mr_len :: nat
  mr_boff :: nat
  mr_blen :: nat
  mr_ptr :: byte
  mr_type :: byte
  mr_undef :: byte
  mr_hibit :: bool
  mr_force :: nat
  mr_buf :: bytes
  mr_old :: bytes

record omessage =
  ms_id :: u32
  ms_src :: bytes
  ms_dest :: bytes
  ms_klass :: int
  ms_type :: int
  ms_data :: bytes

text \<open>
  The globals of the library. \<open>osubj_mem\<close> is the memory of the process that values are read from
  and written to, \<open>osubj_dests\<close> the addresses of the datagrams sent, \<open>osubj_received\<close> the calls of
  the installed message handler; \<open>osubj_time\<close> is what the installed time function returns.
\<close>

record agentst = peer +
  osubj_initialized :: bool
  osubj_aborted :: bool
  osubj_temp_id :: u16
  osubj_tmp_addr :: sockaddr
  osubj_hub_desc :: bytes
  osubj_allow_reconnect :: bool
  osubj_serv_sock :: int
  osubj_cmnd_sock :: int
  osubj_cntl_sock :: int
  osubj_polling_mask :: u32
  osubj_routine_ms :: int
  osubj_can_immed :: int
  osubj_init_q_size :: nat
  osubj_resend_limit :: int
  osubj_resend_suspend_ms :: int
  osubj_replies :: "(int \<times> u32) list"
  osubj_has_replies :: bool
  osubj_data_mon_start :: int
  osubj_mons :: "monrec list"
  osubj_cur_mon :: "u32 option"
  osubj_mem :: "u32 \<Rightarrow> byte"
  osubj_ever_write :: "u32 list"
  osubj_ban_write :: bool
  osubj_use_time :: bool
  osubj_time :: u32
  osubj_sel_address :: u32
  osubj_mon_buf_size :: nat
  osubj_max_sent_bytes :: int
  osubj_max_polled_qty :: int
  osubj_max_changed_qty :: int
  osubj_max_time_ms :: int
  osubj_subjects :: "osubject list"
  osubj_msg_classes :: "u16 list"
  osubj_msg_handler :: bool
  osubj_auto_msg_id :: u32
  osubj_received :: "omessage list"
  osubj_dests :: "sockaddr list"
  osubj_fault :: bool

definition osubj_down :: "'a agentst_scheme \<Rightarrow> bool" where
  "osubj_down s \<longleftrightarrow> \<not> osubj_initialized s \<or> osubj_aborted s"

definition osubj_mark :: "bool \<Rightarrow> 'a agentst_scheme \<Rightarrow> 'a agentst_scheme" where
  "osubj_mark b s = (if b then s\<lparr>osubj_fault := True\<rparr> else s)"

definition osubjIsConnected :: "'a agentst_scheme \<Rightarrow> bool" where
  "osubjIsConnected s \<longleftrightarrow> p_state s = ST_OPEN"

text \<open>\<open>osubjAlloc\<close> gives nothing for a size of 0 and after an abort.\<close>

definition osubj_new :: "env \<Rightarrow> nat \<Rightarrow> 'a agentst_scheme \<Rightarrow> bool" where
  "osubj_new E n s \<longleftrightarrow> \<not> osubj_aborted s \<and> n > 0 \<and> env_alloc E n"

section \<open>Sending\<close>

text \<open>Unlike the hub, the agent notes the time of a send before it looks at its result.\<close>

definition osubjPokeNew :: "env \<Rightarrow> int \<Rightarrow> nat \<Rightarrow> bytes \<Rightarrow> 'a peer_scheme \<Rightarrow> oret \<times> 'a peer_scheme" where
  "osubjPokeNew E ty len dp p =
     (let (rc, p1) = PokeNew E ty len dp p
      in (rc, if env_alloc E (frame_len len) then p1\<lparr>alive_put_wd := env_now E\<rparr> else p1))"

definition osubjPokeStream ::
  "env \<Rightarrow> int \<Rightarrow> int \<Rightarrow> bytes option \<Rightarrow> 'a peer_scheme \<Rightarrow> oret \<times> 'a peer_scheme" where
  "osubjPokeStream E ty len dp p =
     (let (rc, p1) = PokeRetry E p in
      if rc \<noteq> OK then (ERROR, p1)
      else if len < 0 then (OK, p1)
      else if len > 0 \<and> dp = None then (ERROR, p1)
      else osubjPokeNew E ty (nat len) (the_bytes dp) p1)"

lemma osubjPokeStream_len: "q_len (snd (osubjPokeStream E ty len dp p)) = q_len p"
proof (cases "PokeRetry E p")
  case (Pair rc p1)
  then show ?thesis
    using PokeRetry_len [of E p] PokeNew_len [of E ty "nat len" "the_bytes dp" p1]
    by (simp add: osubjPokeStream_def osubjPokeNew_def case_prod_unfold Let_def)
qed

text \<open>
  The loop of \<open>osubjResendStream\<close>: \<open>total\<close> counts the bytes of the packets taken from the queue;
  over the limit the loop pauses for ten milliseconds.
\<close>

function resend_loop :: "env \<Rightarrow> int \<Rightarrow> 'a agentst_scheme \<Rightarrow> 'a agentst_scheme" where
  "resend_loop E tot p =
     (let (rc, p1) = (if reput_len p \<ge> 0 then osubjPokeStream E (-1) (-1) None p else (OK, p)) in
      if rc \<noteq> OK then p1
      else if q_len p1 = 0 then p1
      else
        let pk = q_buf p1 ! q_rd p1;
            (rc2, p2) = osubjPokeStream E (pk_type pk) (pk_len pk) (pk_buf pk) p1
        in if rc2 \<noteq> OK then p2
           else
             let tot1 = tot + pk_len pk; p3 = ring_get p2
             in if q_len p3 = 0 \<or> reput_len p3 \<ge> 0 then p3
                else if osubj_resend_limit p3 \<noteq> 0 \<and> tot1 > osubj_resend_limit p3
                then p3\<lparr>osubj_resend_suspend_ms := env_now E + 10\<rparr>
                else resend_loop E tot1 p3)"
  by pat_completeness auto
termination
proof (relation "measure (\<lambda>(E, tot, p). q_len p)")
  fix E :: env and tot :: int and p :: "'a agentst_scheme" and x rc p1 pk y rc2 p2 tot1 p3
  assume x: "x = (if 0 \<le> reput_len p then osubjPokeStream E (- 1) (- 1) None p else (OK, p))" "(rc, p1) = x"
    and y: "\<not> q_len p1 = 0" "y = osubjPokeStream E (pk_type pk) (pk_len pk) (pk_buf pk) p1" "(rc2, p2) = y"
    and z: "p3 = ring_get p2"
  have "q_len p1 = q_len p" using x osubjPokeStream_len [of E "-1" "-1" None p] by (metis snd_conv)
  moreover have "q_len p2 = q_len p1" using y osubjPokeStream_len by (metis snd_conv)
  ultimately show "((E, tot1, p3), E, tot, p) \<in> measure (\<lambda>(E, tot, p). q_len p)"
    using y(1) z by (simp add: ring_get_def)
qed simp

declare resend_loop.simps [simp del]

definition osubjResendStream :: "env \<Rightarrow> 'a agentst_scheme \<Rightarrow> 'a agentst_scheme" where
  "osubjResendStream E p = resend_loop E 0 p"

text \<open>
  The datagram goes to the hub under the identifier of the connection (\<open>id\<close> OK), or to the sender
  of the last datagram under the identifier it used (\<open>id\<close> ERROR).
\<close>

definition osubj_datagram :: "env \<Rightarrow> int \<Rightarrow> int \<Rightarrow> int \<Rightarrow> bytes option \<Rightarrow> 'a agentst_scheme \<Rightarrow> oret \<times> 'a agentst_scheme" where
  "osubj_datagram E id0 ty len data s =
     (if id0 \<noteq> OK \<and> id0 \<noteq> ERROR then (ERROR, s)
      else
        let (ident, dest) = (if id0 = OK then (p_id s, cntl_addr s) else (osubj_temp_id s, osubj_tmp_addr s));
            (rc, s1) = DatagramSend E ty len data (s\<lparr>p_id := ident\<rparr>);
            s2 = s1\<lparr>p_id := p_id s\<rparr>
        in if rc = OK then (OK, s2\<lparr>alive_put_wd := env_now E, osubj_dests := osubj_dests s2 @ [dest]\<rparr>)
           else (ERROR, s2))"

definition osubj_stream :: "env \<Rightarrow> int \<Rightarrow> int \<Rightarrow> bytes option \<Rightarrow> 'a agentst_scheme \<Rightarrow> oret \<times> 'a agentst_scheme" where
  "osubj_stream E ty len data s =
     (if q_len s = 0 \<and> reput_len s < 0 \<and> osubj_can_immed s \<noteq> 0
         \<and> (len < OLANG_SMALL_PACKET \<or> osubj_can_immed s > 1) then
        let (rc, s1) = osubjPokeStream E ty len data s in
        if rc = OK then (OK, s1) else QueuePacket E ty len data s1
      else QueuePacket E ty len data s)"

definition osubjSendPacket ::
  "env \<Rightarrow> int \<Rightarrow> int \<Rightarrow> int \<Rightarrow> int \<Rightarrow> bytes option \<Rightarrow> 'a agentst_scheme \<Rightarrow> oret \<times> 'a agentst_scheme" where
  "osubjSendPacket E id0 kind ty len data s =
     (if osubj_down s \<or> len < 0 \<or> (len > 0 \<and> data = None) then (ERROR, s)
      else if kind \<noteq> OLANG_CONTROL \<and> kind \<noteq> OLANG_COMMAND \<and> kind \<noteq> OLANG_DATA then (ERROR, s)
      else
        let sock = (if kind = OLANG_CONTROL then osubj_cntl_sock s
                    else if kind = OLANG_COMMAND then osubj_cmnd_sock s else 0)
        in if sock \<noteq> 0 then osubj_datagram E id0 ty len data s
           else if p_state s \<noteq> ST_OPEN then (ERROR, s)
           else osubj_stream E ty len data s)"

section \<open>Collected replies about monitors\<close>

text \<open>
  The reply buffer: a count and, for each entry, the type of the reply and the identifier. It
  is sent when it holds 100 entries or is older than 50 ms.
\<close>

definition reply_packet :: "(int \<times> u32) list \<Rightarrow> bytes" where
  "reply_packet rs = st32 (OHTONL (of_nat (length rs)))
     @ concat (map (\<lambda>(ty, ooid). st32 (OHTONL (word_of_int ty)) @ st32 (OHTONL ooid)) rs)"

definition osubjAddDataMonReply :: "env \<Rightarrow> int \<Rightarrow> u32 \<Rightarrow> 'a agentst_scheme \<Rightarrow> oret \<times> 'a agentst_scheme" where
  "osubjAddDataMonReply E ty ooid s0 =
     (let s = osubj_mark (\<not> osubj_has_replies s0) s0;
          k = length (osubj_replies s);
          (rc, s1) = (if (osubj_data_mon_start s \<noteq> 0 \<and> k > 0 \<and> env_now E - osubj_data_mon_start s > OSUBJ_DATA_MON_TTL)
                         \<or> k \<ge> OSUBJ_MAX_DATA_MON_REPLY
            then (case osubjSendPacket E OK OLANG_DATA OLANG_DATA_MON_REPLY (int (k * 8 + 4))
                         (Some (reply_packet (osubj_replies s))) s of
                    (rc, s1) \<Rightarrow> (rc, s1\<lparr>osubj_replies := [], osubj_data_mon_start := 0\<rparr>))
            else (OK, s))
      in (rc, if ty = 0 then s1
              else s1\<lparr>osubj_data_mon_start := (if osubj_replies s1 = [] then env_now E else osubj_data_mon_start s1),
                      osubj_replies := osubj_replies s1 @ [(ty, ooid)]\<rparr>))"

section \<open>Disconnecting\<close>

definition osubjClearMonitoring :: "'a agentst_scheme \<Rightarrow> 'a agentst_scheme" where
  "osubjClearMonitoring s = s\<lparr>osubj_mons := [], osubj_cur_mon := None\<rparr>"

text \<open>The offset of the packet to be sent on is left as it is, as in the source.\<close>

definition osubjDisconnectData :: "'a agentst_scheme \<Rightarrow> 'a agentst_scheme" where
  "osubjDisconnectData s = (osubjClearMonitoring s)\<lparr>
     osubj_replies := (if osubj_has_replies s then [] else osubj_replies s), osubj_data_mon_start := 0,
     q_buf := map (\<lambda>_. no_packet) (q_buf s), osubj_resend_suspend_ms := 0, q_rd := 0, q_wr := 0, q_len := 0,
     hdr_off := 0, reget_buf := None, reget_len := -1, reget_off := -1, reget_type := -1,
     reput_buf := None, reput_len := -1, reput_type := -1, data_sock := 0\<rparr>"

text \<open>The descriptor of the accepting socket keeps its number: the source clears another one twice.\<close>

definition osubjExitNetwork :: "'a agentst_scheme \<Rightarrow> 'a agentst_scheme" where
  "osubjExitNetwork s = (osubjDisconnectData s)\<lparr>
     osubj_cntl_sock := 0, osubj_cmnd_sock := 0, q_buf := [], q_len := 0, q_size := 0, q_rd := 0, q_wr := 0,
     osubj_replies := [], osubj_has_replies := False, osubj_data_mon_start := 0, p_state := ST_NONE,
     osubj_polling_mask := 0, osubj_routine_ms := 0, p_id := 0, osubj_temp_id := 0\<rparr>"

text \<open>
  The sockets the operating system gives are an argument; None when one of the calls fails. The
  two buffers are used without a check of their allocation.
\<close>

definition osubjInitNetwork :: "env \<Rightarrow> (int \<times> int \<times> int) option \<Rightarrow> 'a agentst_scheme \<Rightarrow> oret \<times> 'a agentst_scheme" where
  "osubjInitNetwork E socks s0 =
     (let s = osubjExitNetwork s0;
          got = osubj_new E (4 * (OSUBJ_MAX_DATA_MON_REPLY * 2 + 8)) s;
          s1 = (osubj_mark (\<not> got) s)\<lparr>osubj_has_replies := got, osubj_replies := [], osubj_data_mon_start := 0,
                 q_size := osubj_init_q_size s,
                 q_buf := (if osubj_new E (16 * osubj_init_q_size s) s
                           then replicate (osubj_init_q_size s) no_packet else []),
                 q_len := 0, q_rd := 0, q_wr := 0\<rparr>
      in case socks of
           None \<Rightarrow> (ERROR, osubjExitNetwork s1)
         | Some (cntl, serv, cmnd) \<Rightarrow>
             (OK, s1\<lparr>osubj_cntl_sock := cntl, osubj_serv_sock := serv, osubj_cmnd_sock := cmnd, data_sock := 0,
                     p_id := 0, osubj_temp_id := 0\<rparr>))"

text \<open>The caller's buffer has \<open>n\<close> places; the check asks for two, but three are written.\<close>

definition osubjGetFileHandles :: "nat option \<Rightarrow> 'a agentst_scheme \<Rightarrow> oret \<times> int list \<times> nat option \<times> 'a agentst_scheme" where
  "osubjGetFileHandles buf_size s =
     (if osubj_down s then (ERROR, [], buf_size, s)
      else case buf_size of
        None \<Rightarrow> (ERROR, [], None, s)
      | Some n \<Rightarrow>
          if n < 2 then (ERROR, [], Some 2, s)
          else (OK, [data_sock s, osubj_cntl_sock s, osubj_cmnd_sock s], Some 3, osubj_mark (n < 3) s))"

section \<open>Subjects\<close>

text \<open>The parts of the segments packet; None when the buffer of 2048 bytes is too small.\<close>

definition pack_segment :: "osegment \<Rightarrow> bytes" where
  "pack_segment g = sg_name g # st32 (OHTONL (sg_addr g))"

fun pack_segments :: "osegment list \<Rightarrow> bytes \<Rightarrow> bytes option" where
  "pack_segments [] b = Some b"
| "pack_segments (g # gs) b = (if length b + 6 > 2048 then None else pack_segments gs (b @ pack_segment g))"

fun pack_modules :: "omodule list \<Rightarrow> bytes \<Rightarrow> bytes option" where
  "pack_modules [] b = Some b"
| "pack_modules (m # ms) b =
     (let q = length (om_name m) in
      if length b + q + 10 > 2048 \<or> length (om_segments m) > 127 then None
      else case pack_segments (om_segments m) (b @ [of_nat q] @ om_name m @ [of_nat (length (om_segments m))]) of
        None \<Rightarrow> None
      | Some b1 \<Rightarrow> pack_modules ms b1)"

fun pack_osubjects :: "osubject list \<Rightarrow> bytes \<Rightarrow> bytes option" where
  "pack_osubjects [] b = Some b"
| "pack_osubjects (u # us) b =
     (let q = length (os_name u) in
      if length b + q + 14 > 2048 \<or> length (os_modules u) > 127 then None
      else case pack_modules (os_modules u) (b @ [of_nat q] @ os_name u @ [of_nat (length (os_modules u))]) of
        None \<Rightarrow> None
      | Some b1 \<Rightarrow> pack_osubjects us b1)"

definition segments_packet :: "bool \<Rightarrow> osubject list \<Rightarrow> bytes option" where
  "segments_packet initial us =
     (if length us > 127 then None
      else map_option (\<lambda>b. b @ [0]) (pack_osubjects us [if initial then 1 else 0, of_nat (length us)]))"

text \<open>The terminating byte has no check of its own: a packet of 2048 bytes gets one more.\<close>

definition osubjSendSegments :: "env \<Rightarrow> bool \<Rightarrow> 'a agentst_scheme \<Rightarrow> oret \<times> 'a agentst_scheme" where
  "osubjSendSegments E initial s =
     (if osubj_down s then (ERROR, s)
      else case segments_packet initial (osubj_subjects s) of
        None \<Rightarrow> (ERROR, s)
      | Some b \<Rightarrow> osubjSendPacket E OK OLANG_DATA OLANG_SEGMENTS (int (length b)) (Some b)
                    (osubj_mark (length b > 2048) s))"

text \<open>
  A new subject has one module, named by its symbol table, with one absolute segment. The names
  are copied into 40 bytes each without a check. None for a null pointer.
\<close>

definition new_osubject :: "bytes \<Rightarrow> bytes \<Rightarrow> osubject" where
  "new_osubject name symtable = \<lparr>os_name = name, os_symtable = symtable,
     os_modules = [\<lparr>om_name = symtable, om_segments = [\<lparr>sg_name = 65, sg_addr = 0\<rparr>]\<rparr>]\<rparr>"

definition osubjAddSubject :: "env \<Rightarrow> bytes option \<Rightarrow> bytes option \<Rightarrow> 'a agentst_scheme \<Rightarrow> oret \<times> 'a agentst_scheme" where
  "osubjAddSubject E name symtable s =
     (case (name, symtable) of
        (Some nm, Some st) \<Rightarrow>
          if osubj_down s \<or> nm = [] \<or> st = [] then (ERROR, s)
          else if \<not> osubj_new E (88 * (length (osubj_subjects s) + 1)) s then (ERROR, s\<lparr>osubj_aborted := True\<rparr>)
          else
            let s1 = (osubj_mark (length nm \<ge> OSUBJ_MAX_NAME \<or> length st \<ge> OSUBJ_MAX_NAME
                        \<or> \<not> osubj_new E 48 s \<or> \<not> osubj_new E 8 s) s)
                       \<lparr>osubj_subjects := osubj_subjects s @ [new_osubject nm st]\<rparr>
            in (OK, if osubjIsConnected s1 then snd (osubjSendSegments E False s1) else s1)
      | _ \<Rightarrow> (ERROR, s))"

text \<open>The address of a symbol, which \<open>dlsym\<close> (an argument) looks up.\<close>

definition osubjAddress :: "(bytes \<Rightarrow> int) \<Rightarrow> bytes \<Rightarrow> bytes \<Rightarrow> 'a agentst_scheme \<Rightarrow> int" where
  "osubjAddress dlsym name symbol s =
     (if osubj_down s then 0
      else if \<exists>u \<in> set (osubj_subjects s). os_name u = name
      then (if dlsym symbol = -1 then 0 else dlsym symbol) else 0)"

section \<open>Message classes\<close>

definition class_packet :: "int \<Rightarrow> u16 list \<Rightarrow> bytes" where
  "class_packet act cs = st16 (OHTONS act) @ st16 (OHTONS (int (length cs)))
     @ concat (map (\<lambda>c. st16 (OHTONS (uint c))) cs)"

text \<open>With all 64 classes in use the buffer of 65 words is one too short.\<close>

definition osubjSendClasses :: "env \<Rightarrow> 'a agentst_scheme \<Rightarrow> oret \<times> 'a agentst_scheme" where
  "osubjSendClasses E s =
     (let cs = filter (\<lambda>c. c \<noteq> 0) (osubj_msg_classes s) in
      if osubj_down s then (ERROR, s)
      else if cs = [] then (OK, s)
      else osubjSendPacket E OK OLANG_DATA OLANG_MSG_CLASS_ACT (int ((length cs + 2) * 2)) (Some (class_packet 2 cs))
             (osubj_mark (length cs + 2 > 1 + OSUBJ_MAX_CLASS) s))"

definition osubjEnableMsgClass :: "env \<Rightarrow> int \<Rightarrow> bool \<Rightarrow> 'a agentst_scheme \<Rightarrow> oret \<times> 'a agentst_scheme" where
  "osubjEnableMsgClass E klass enable s =
     (if klass < 0 \<or> klass > OLANG_MAX_MSG_KLASS then (ERROR, s)
      else if klass = 0 then (OK, s)
      else
        let cs = osubj_msg_classes s; k = word_of_int klass :: u16;
            place = (if enable then (if k \<in> set cs then None else find (\<lambda>i. cs ! i = 0) [0..<length cs])
                     else find (\<lambda>i. cs ! i = k) [0..<length cs])
        in case place of
             None \<Rightarrow> (ERROR, s)
           | Some i \<Rightarrow>
               let s1 = s\<lparr>osubj_msg_classes := cs[i := (if enable then k else 0)]\<rparr>
               in (OK, if osubjIsConnected s1
                       then snd (osubjSendPacket E OK OLANG_DATA OLANG_MSG_CLASS_ACT 6
                              (Some (class_packet (if enable then 1 else 0) [k])) s1)
                       else s1))"

definition osubjInitMessages :: "env \<Rightarrow> bool \<Rightarrow> 'a agentst_scheme \<Rightarrow> oret \<times> 'a agentst_scheme" where
  "osubjInitMessages E handler s =
     (OK, s\<lparr>osubj_msg_handler := handler, osubj_auto_msg_id := (word_of_int (env_now E) AND 0x1ff) * 3 + 4\<rparr>)"

definition osubjClearMessages :: "env \<Rightarrow> 'a agentst_scheme \<Rightarrow> oret \<times> 'a agentst_scheme" where
  "osubjClearMessages E s =
     (let cs = filter (\<lambda>c. c \<noteq> 0) (osubj_msg_classes s);
          s1 = s\<lparr>osubj_msg_handler := False, osubj_msg_classes := map (\<lambda>_. 0) (osubj_msg_classes s)\<rparr>
      in (OK, if cs \<noteq> [] \<and> osubjIsConnected s1
              then snd (osubjSendPacket E OK OLANG_DATA OLANG_MSG_CLASS_ACT (int ((length cs + 2) * 2))
                     (Some (class_packet 0 cs)) s1)
              else s1))"

end
