(* ===== verification/AgentMon.thy ===== *)
theory AgentMon
  imports Agent
begin

text \<open>
  The agent library, part two (subj-monitor.c): values in the memory of the process, found
  through up to two pointers and cut out of bit fields; monitors that report changes of values,
  and single reads and writes. Addresses are 32 bit words, scalars little-endian.
\<close>

section \<open>Memory\<close>

definition null_addr :: "u32 \<Rightarrow> bool" where
  "null_addr a \<longleftrightarrow> sint a \<le> 0 \<and> sint a \<ge> - 8"

definition mem_bytes :: "(u32 \<Rightarrow> byte) \<Rightarrow> u32 \<Rightarrow> nat \<Rightarrow> bytes" where
  "mem_bytes m a n = map (\<lambda>i. m (a + of_nat i)) [0..<n]"

definition mem_word :: "(u32 \<Rightarrow> byte) \<Rightarrow> u32 \<Rightarrow> u32" where
  "mem_word m a = mk32 (m a) (m (a + 1)) (m (a + 2)) (m (a + 3))"

definition mem_store :: "(u32 \<Rightarrow> byte) \<Rightarrow> u32 \<Rightarrow> bytes \<Rightarrow> u32 \<Rightarrow> byte" where
  "mem_store m a bs = (\<lambda>x. if unat (x - a) < length bs then bs ! unat (x - a) else m x)"

text \<open>
  The address of a value: direct (D), indirect (I), register relative (R) or both (P). The
  second part tells whether no null pointer was met on the way.
\<close>

definition resolve :: "(u32 \<Rightarrow> byte) \<Rightarrow> byte \<Rightarrow> u32 \<Rightarrow> u32 \<Rightarrow> u32 \<times> bool" where
  "resolve m ptr adr off =
     (if ptr = 68 then (adr + off, \<not> null_addr (adr + off))
      else if null_addr adr then (adr, False)
      else if ptr = 73 then (let a = mem_word m (adr + off) in (a, \<not> null_addr a))
      else if ptr = 82 then (let a = mem_word m adr + off in (a, \<not> null_addr a))
      else if ptr = 80 then
        (let a1 = mem_word m adr + off in
         if null_addr a1 then (a1, False) else (let a = mem_word m a1 in (a, \<not> null_addr a)))
      else (adr, False))"

section \<open>Bit fields\<close>

text \<open>
  A scalar of 1, 2 or 4 bytes as a word. Shifts by 32 and more are left undefined by C; they are
  marked as a fault where they happen.
\<close>

definition scalar_val :: "nat \<Rightarrow> bytes \<Rightarrow> u32" where
  "scalar_val n bs = mk32 (bs ! 0) (if n > 1 then bs ! 1 else 0) (if n > 2 then bs ! 2 else 0) (if n > 2 then bs ! 3 else 0)"

definition is_scalar :: "nat \<Rightarrow> bool" where "is_scalar n \<longleftrightarrow> n = 1 \<or> n = 2 \<or> n = 4"

definition bad_shift :: "nat \<Rightarrow> nat \<Rightarrow> bool" where "bad_shift boff blen \<longleftrightarrow> blen \<noteq> 0 \<and> (boff \<ge> 32 \<or> blen \<ge> 32)"

definition bits_mask :: "nat \<Rightarrow> nat \<Rightarrow> u32" where
  "bits_mask n blen = take_bit (8 * n) (push_bit blen 1 - 1)"

definition bits_get :: "nat \<Rightarrow> nat \<Rightarrow> nat \<Rightarrow> bool \<Rightarrow> u32 \<Rightarrow> u32" where
  "bits_get n boff blen hibit v =
     (let u = drop_bit boff v AND bits_mask n blen
      in if hibit \<and> u AND push_bit (blen - 1) 1 \<noteq> 0 then take_bit (8 * n) (u OR NOT (bits_mask n blen)) else u)"

definition bits_put :: "nat \<Rightarrow> nat \<Rightarrow> nat \<Rightarrow> u32 \<Rightarrow> u32 \<Rightarrow> u32" where
  "bits_put n boff blen old dat =
     (let d = take_bit (8 * n) (push_bit boff (dat AND bits_mask n blen));
          m = take_bit (8 * n) (push_bit boff (bits_mask n blen))
      in (old AND NOT m) OR d)"

text \<open>The bytes a read yields; None for a bit field of another size.\<close>

definition read_cell :: "(u32 \<Rightarrow> byte) \<Rightarrow> u32 \<Rightarrow> nat \<Rightarrow> nat \<Rightarrow> nat \<Rightarrow> bool \<Rightarrow> bytes option" where
  "read_cell m a n boff blen hibit =
     (if blen = 0 then Some (mem_bytes m a n)
      else if is_scalar n then Some (take n (st32 (bits_get n boff blen hibit (scalar_val n (mem_bytes m a n)))))
      else None)"

definition write_cell :: "(u32 \<Rightarrow> byte) \<Rightarrow> u32 \<Rightarrow> nat \<Rightarrow> nat \<Rightarrow> nat \<Rightarrow> bytes \<Rightarrow> (u32 \<Rightarrow> byte) option" where
  "write_cell m a n boff blen dat =
     (if blen = 0 then Some (mem_store m a dat)
      else if is_scalar n then
        Some (mem_store m a (take n (st32 (bits_put n boff blen (scalar_val n (mem_bytes m a n)) (scalar_val n dat)))))
      else None)"

definition signed_type :: "byte \<Rightarrow> bool" where
  "signed_type t \<longleftrightarrow> t = 98 \<or> t = 104 \<or> t = 105 \<or> t = 108 \<or> t = 113"

section \<open>Monitors\<close>

definition osubjAllocateMonitor :: "env \<Rightarrow> monrec \<Rightarrow> 'a agentst_scheme \<Rightarrow> 'a agentst_scheme option" where
  "osubjAllocateMonitor E r s =
     (if osubj_new E (48 + mr_len r * 2) s then Some (s\<lparr>osubj_mons := osubj_mons s @ [r]\<rparr>) else None)"

definition osubjDeallocateMonitor :: "u32 \<Rightarrow> 'a agentst_scheme \<Rightarrow> 'a agentst_scheme" where
  "osubjDeallocateMonitor ooid s = s\<lparr>osubj_mons := filter (\<lambda>r. mr_ooid r \<noteq> ooid) (osubj_mons s)\<rparr>"

text \<open>One poll of a value: the new \<open>undef\<close>, the record with the value and the address used.\<close>

definition mon_poll :: "(u32 \<Rightarrow> byte) \<Rightarrow> monrec \<Rightarrow> byte \<times> monrec \<times> u32" where
  "mon_poll m r =
     (case resolve m (mr_ptr r) (mr_adr r) (mr_off r) of (a, ok) \<Rightarrow>
        if \<not> ok then (0x80, r, a)
        else case read_cell m a (mr_len r) (mr_boff r) (mr_blen r) (mr_hibit r) of
          None \<Rightarrow> (1, r, a)
        | Some b \<Rightarrow> (0, r\<lparr>mr_old := mr_buf r, mr_buf := b\<rparr>, a))"

text \<open>\<open>strncmp\<close> for texts, equality of all bytes otherwise.\<close>

definition same_value :: "monrec \<Rightarrow> bool" where
  "same_value r =
     (if mr_type r = 115 then takeWhile (\<lambda>c. c \<noteq> 0) (mr_buf r) = takeWhile (\<lambda>c. c \<noteq> 0) (mr_old r)
      else mr_buf r = mr_old r)"

definition mon_changed :: "byte \<Rightarrow> monrec \<Rightarrow> bool \<times> monrec" where
  "mon_changed u r =
     (if mr_force r > 0 then (True, r\<lparr>mr_force := mr_force r - 1\<rparr>)
      else if u \<noteq> 0 \<and> mr_undef r \<noteq> 0 then (False, r)
      else if u = 0 \<and> mr_undef r = 0 then (\<not> same_value r, r)
      else (True, r))"

text \<open>The report of a value: as in the hub, with the time left out when it is not used.\<close>

definition mon_report :: "bool \<Rightarrow> u32 \<Rightarrow> byte \<Rightarrow> monrec \<Rightarrow> bytes" where
  "mon_report use_time time u r =
     (let n = (if u \<noteq> 0 then 0 else mr_len r)
      in report_head use_time time (mr_ooid r) (mr_type r) u n @ take n (mr_buf r))"

text \<open>The packet in the making (without its first byte, the count) and the counters of the scan.\<close>

record scan =
  sc_rep :: bytes
  sc_qty :: nat
  sc_polled :: int
  sc_changed :: int
  sc_sent :: int
  sc_kind :: int

definition scan_start :: scan where
  "scan_start = \<lparr>sc_rep = [], sc_qty = 0, sc_polled = 0, sc_changed = 0, sc_sent = 0, sc_kind = OLANG_MONITORING\<rparr>"

definition send_scan :: "env \<Rightarrow> scan \<Rightarrow> 'a agentst_scheme \<Rightarrow> oret \<times> 'a agentst_scheme" where
  "send_scan E sc s =
     osubjSendPacket E OK OLANG_DATA (sc_kind sc) (int (length (sc_rep sc) + 1)) (Some (of_nat (sc_qty sc) # sc_rep sc)) s"

definition flush_scan :: "env \<Rightarrow> scan \<Rightarrow> 'a agentst_scheme \<Rightarrow> scan \<times> 'a agentst_scheme" where
  "flush_scan E sc s =
     (if osubjIsConnected s \<and> sc_qty sc > 0 then
        (sc\<lparr>sc_rep := [], sc_qty := 0, sc_kind := OLANG_MONITORING, sc_sent := sc_sent sc + int (length (sc_rep sc) + 1)\<rparr>,
         snd (send_scan E sc s))
      else (sc\<lparr>sc_rep := [], sc_qty := 0\<rparr>, s))"

definition rate_limited :: "(int \<Rightarrow> int) \<Rightarrow> scan \<Rightarrow> 'a agentst_scheme \<Rightarrow> bool" where
  "rate_limited elapsed sc s \<longleftrightarrow>
     (osubj_max_polled_qty s > 0 \<and> sc_polled sc > osubj_max_polled_qty s)
     \<or> (osubj_max_changed_qty s > 0 \<and> sc_changed sc > osubj_max_changed_qty s)
     \<or> (osubj_max_time_ms s > 0 \<and> sc_polled sc mod 10 = 0 \<and> elapsed (sc_polled sc) > osubj_max_time_ms s)"

definition take_value :: "byte \<Rightarrow> monrec \<Rightarrow> u32 \<Rightarrow> scan \<Rightarrow> 'a agentst_scheme \<Rightarrow> monrec \<times> scan" where
  "take_value u r a sc s =
     (let sc1 = sc\<lparr>sc_polled := sc_polled sc + 1\<rparr>; (ch, r1) = mon_changed u r
      in if \<not> ch then (r1, sc1)
         else (r1\<lparr>mr_undef := u\<rparr>,
               sc1\<lparr>sc_changed := sc_changed sc + 1, sc_rep := sc_rep sc @ mon_report (osubj_use_time s) (osubj_time s) u r1,
                   sc_qty := sc_qty sc + 1,
                   sc_kind := (if osubj_sel_address s \<noteq> 0 \<and> a = osubj_sel_address s then OLANG_SEL_MONITORING else sc_kind sc)\<rparr>))"

text \<open>
  The loop over the records from the current one on. \<open>elapsed\<close> is the time passed since the
  start of the scan by the number of polled values. The last component is the record to go on
  with, when the scan was cut short.
\<close>

fun mon_loop :: "env \<Rightarrow> (int \<Rightarrow> int) \<Rightarrow> monrec list \<Rightarrow> scan \<Rightarrow> 'a agentst_scheme
    \<Rightarrow> monrec list \<times> scan \<times> 'a agentst_scheme \<times> u32 option" where
  "mon_loop E elapsed [] sc s = ([], sc, s, None)"
| "mon_loop E elapsed (r # rs) sc s =
     (if mr_ooid r = 0 \<or> mr_len r + 16 > osubj_mon_buf_size s then
        (case mon_loop E elapsed rs sc s of (rs1, x) \<Rightarrow> (r # rs1, x))
      else
        let full = (sc_qty sc > 254 \<or> length (sc_rep sc) + 1 + mr_len r + 16 > osubj_mon_buf_size s);
            (sc1, s1) = (if full then flush_scan E sc s else (sc, s))
        in if (full \<and> osubj_max_sent_bytes s > 0 \<and> sc_sent sc1 > osubj_max_sent_bytes s) \<or> rate_limited elapsed sc1 s1
           then (r # rs, sc1, s1, Some (mr_ooid r))
           else
             let (u, r1, a) = mon_poll (osubj_mem s1) r;
                 s2 = osubj_mark (u = 0 \<and> bad_shift (mr_boff r) (mr_blen r)) s1;
                 (r2, sc2) = take_value u r1 a sc1 s2
             in (case mon_loop E elapsed rs sc2 s2 of (rs1, x) \<Rightarrow> (r2 # rs1, x)))"

definition osubjMonitoring :: "env \<Rightarrow> (int \<Rightarrow> int) \<Rightarrow> 'a agentst_scheme \<Rightarrow> oret \<times> 'a agentst_scheme" where
  "osubjMonitoring E elapsed s =
     (if osubj_down s then (ERROR, s)
      else if osubj_mons s = [] then (OK, s)
      else if \<not> osubj_new E (osubj_mon_buf_size s) s then (ERROR, s)
      else
        let pre = (case osubj_cur_mon s of None \<Rightarrow> [] | Some c \<Rightarrow> takeWhile (\<lambda>r. mr_ooid r \<noteq> c) (osubj_mons s))
        in case mon_loop E elapsed (drop (length pre) (osubj_mons s)) scan_start s of (rs, sc, s1, cur) \<Rightarrow>
          let s2 = s1\<lparr>osubj_mons := pre @ rs, osubj_cur_mon := cur\<rparr>
          in if sc_qty sc = 0 then (OK, s2)
             else if \<not> osubjIsConnected s2 then (ERROR, s2)
             else send_scan E sc s2)"

definition next_mon :: "u32 \<Rightarrow> monrec list \<Rightarrow> u32 option" where
  "next_mon ooid rs = (case dropWhile (\<lambda>r. mr_ooid r \<noteq> ooid) rs of _ # r # _ \<Rightarrow> Some (mr_ooid r) | _ \<Rightarrow> None)"

definition osubjUnregisterMonitoring :: "env \<Rightarrow> u32 \<Rightarrow> 'a agentst_scheme \<Rightarrow> oret \<times> 'a agentst_scheme" where
  "osubjUnregisterMonitoring E ooid s =
     (if ooid \<in> mr_ooid ` set (osubj_mons s) then
        let s1 = s\<lparr>osubj_cur_mon := (if osubj_cur_mon s = Some ooid then next_mon ooid (osubj_mons s) else osubj_cur_mon s)\<rparr>
        in osubjAddDataMonReply E OLANG_DATA_UNREG_ACK ooid (osubjDeallocateMonitor ooid s1)
      else (ERROR, snd (osubjAddDataMonReply E OLANG_DATA_UNREG_NAK ooid s)))"

text \<open>
  The check of the length multiplies in 32 bits, so a count beyond 2^30 can pass it; the loop
  then reads past the packet.
\<close>

definition osubjHandleDataGroupUnreg :: "env \<Rightarrow> int \<Rightarrow> bytes \<Rightarrow> 'a agentst_scheme \<Rightarrow> oret \<times> 'a agentst_scheme" where
  "osubjHandleDataGroupUnreg E len buf s =
     (if osubj_down s \<or> len < 8 then (ERROR, s)
      else
        let qty = ONTOHL (ld32 E buf 0) in
        if qty < 1 \<or> len \<noteq> (qty + 1) * 4 mod 4294967296 then (ERROR, s)
        else (OK, fold (\<lambda>i s. let ooid = OUNTOHL (ld32 E buf (4 * i)) in
                    if ooid = 0 then s else snd (osubjUnregisterMonitoring E ooid s))
                  [1..<Suc (nat qty)] (osubj_mark ((qty + 1) * 4 > len) s)))"

definition osubjHandleDataUnreg :: "env \<Rightarrow> int \<Rightarrow> bytes \<Rightarrow> 'a agentst_scheme \<Rightarrow> oret \<times> 'a agentst_scheme" where
  "osubjHandleDataUnreg E len buf s =
     (if osubj_down s \<or> len \<noteq> 4 then (ERROR, s)
      else
        let ooid = OUNTOHL (ld32 E buf 0) in
        if ooid = 0 then (ERROR, s) else osubjUnregisterMonitoring E ooid s)"

definition osubjHandleDataReg :: "env \<Rightarrow> int \<Rightarrow> bytes \<Rightarrow> 'a agentst_scheme \<Rightarrow> oret \<times> 'a agentst_scheme" where
  "osubjHandleDataReg E len buf s =
     (if osubj_down s \<or> len \<noteq> 18 then (ERROR, s)
      else
        let ooid = OUNTOHL (ld32 E buf 0);
            v_adr = OUNTOHL (ld32 E buf 4); v_off = OUNTOHL (ld32 E buf 8);
            v_len = ONTOHS (ld16 E buf 12);
            v_ptr = rd E buf 14; v_type = rd E buf 15;
            fail = (ERROR, snd (osubjAddDataMonReply E OLANG_DATA_REG_NAK ooid s))
        in if ooid = 0 \<or> ooid \<in> mr_ooid ` set (osubj_mons s)
              \<or> (v_ptr \<noteq> 68 \<and> v_ptr \<noteq> 73 \<and> v_ptr \<noteq> 82 \<and> v_ptr \<noteq> 80)
              \<or> v_len \<le> 0 \<or> v_len \<ge> 4192 then fail
           else
             let r = \<lparr>mr_ooid = ooid, mr_adr = (if v_ptr = 68 then v_adr + v_off else v_adr),
                      mr_off = (if v_ptr = 68 then 0 else v_off), mr_len = nat v_len,
                      mr_boff = unat (rd E buf 16), mr_blen = unat (rd E buf 17), mr_ptr = v_ptr, mr_type = v_type,
                      mr_undef = 0, mr_hibit = signed_type v_type, mr_force = 1,
                      mr_buf = replicate (nat v_len) 0, mr_old = replicate (nat v_len) 0\<rparr>
             in case osubjAllocateMonitor E r s of
                  None \<Rightarrow> fail
                | Some s1 \<Rightarrow> (OK, snd (osubjAddDataMonReply E OLANG_DATA_REG_ACK ooid s1)))"

section \<open>Single writes and reads\<close>

definition osubjEverWrite :: "u32 \<Rightarrow> bool \<Rightarrow> 'a agentst_scheme \<Rightarrow> oret \<times> 'a agentst_scheme" where
  "osubjEverWrite adr enable s =
     (let ws = osubj_ever_write s; at = (\<lambda>x. find (\<lambda>i. ws ! i = x) [0..<length ws]) in
      if enable then
        (if adr \<in> set ws then (OK, s)
         else case at 0 of
           Some i \<Rightarrow> (OK, s\<lparr>osubj_ever_write := ws[i := adr]\<rparr>)
         | None \<Rightarrow> (ERROR, s))
      else case at adr of
        Some i \<Rightarrow> (OK, s\<lparr>osubj_ever_write := ws[i := 0]\<rparr>)
      | None \<Rightarrow> (ERROR, s))"

definition access_reply :: "bytes \<Rightarrow> int \<Rightarrow> bytes" where
  "access_reply ident err = ident @ st16 (OHTONS err)"

text \<open>The error code of a write and the memory after it.\<close>

definition poke_value :: "env \<Rightarrow> int \<Rightarrow> bytes \<Rightarrow> 'a agentst_scheme \<Rightarrow> int \<times> 'a agentst_scheme" where
  "poke_value E n buf s =
     (let v_ptr = rd E buf 18;
          boff = unat (rd E buf 20); blen = unat (rd E buf 21);
          dat = rd_bytes E buf 24 (nat n)
      in if n \<le> 0 \<or> n \<ge> 4192 then (-1, s)
         else if v_ptr \<noteq> 68 \<and> v_ptr \<noteq> 73 \<and> v_ptr \<noteq> 82 \<and> v_ptr \<noteq> 80 then (-1, s)
         else case resolve (osubj_mem s) v_ptr (OUNTOHL (ld32 E buf 8)) (OUNTOHL (ld32 E buf 12)) of (a, ok) \<Rightarrow>
           if \<not> ok then (-127, s)
           else if osubj_ban_write s \<and> (a = 0 \<or> a \<notin> set (osubj_ever_write s)) then (-1, s)
           else case write_cell (osubj_mem s) a (nat n) boff blen dat of
             None \<Rightarrow> (-1, s)
           | Some m \<Rightarrow> (0, (osubj_mark (bad_shift boff blen) s)\<lparr>osubj_mem := m\<rparr>))"

definition osubjHandleDataWrite :: "env \<Rightarrow> int \<Rightarrow> bytes \<Rightarrow> 'a agentst_scheme \<Rightarrow> oret \<times> 'a agentst_scheme" where
  "osubjHandleDataWrite E len buf s =
     (if osubj_down s \<or> len < 25 then (ERROR, s)
      else
        let n = ONTOHS (ld16 E buf 16) in
        if len \<noteq> 24 + n then (ERROR, s)
        else case poke_value E n buf s of (err, s1) \<Rightarrow>
          (OK, snd (osubjSendPacket E OK OLANG_DATA OLANG_DATA_WRITE_REPLY 6
                      (Some (access_reply (rd_bytes E buf 0 4) err)) s1)))"

text \<open>
  The bytes a read finds, or an error code. For a bit field of another size the source sets an
  error and then clears it: the reply has what was in the buffer.
\<close>

definition peek_value :: "env \<Rightarrow> int \<Rightarrow> bytes \<Rightarrow> 'a agentst_scheme \<Rightarrow> int \<times> bytes \<times> 'a agentst_scheme" where
  "peek_value E n buf s =
     (let v_ptr = rd E buf 18; v_type = rd E buf 19;
          boff = unat (rd E buf 20); blen = unat (rd E buf 21)
      in if n \<le> 0 \<or> n \<ge> 4192 then (-2, [], s)
         else if n + 32 \<ge> 128 \<and> \<not> osubj_new E (nat (n + 32)) s then (-3, [], s)
         else case resolve (osubj_mem s) v_ptr (OUNTOHL (ld32 E buf 8)) (OUNTOHL (ld32 E buf 12)) of (a, ok) \<Rightarrow>
           if \<not> ok then (-127, [], s)
           else case read_cell (osubj_mem s) a (nat n) boff blen (signed_type v_type) of
             None \<Rightarrow> (0, map (\<lambda>i. if n + 32 < 128 then env_junk E (8 + i) else 0) [0..<nat n], osubj_mark (n + 32 < 128) s)
           | Some b \<Rightarrow> (0, b, osubj_mark (bad_shift boff blen) s))"

definition osubjHandleDataRead :: "env \<Rightarrow> int \<Rightarrow> bytes \<Rightarrow> 'a agentst_scheme \<Rightarrow> oret \<times> 'a agentst_scheme" where
  "osubjHandleDataRead E len buf s =
     (if osubj_down s \<or> len \<noteq> 24 then (ERROR, s)
      else
        let n = ONTOHS (ld16 E buf 16) in
        case peek_value E n buf s of (err, b, s1) \<Rightarrow>
          let reply = access_reply (rd_bytes E buf 0 4) err @ (if err = 0 then st16 (OHTONS n) @ b else [])
          in (OK, snd (osubjSendPacket E OK OLANG_DATA OLANG_DATA_READ_REPLY (if err \<noteq> 0 then 6 else 8 + n)
                         (Some reply) s1)))"

end
