(* ===== verification/AgentMain.thy ===== *)
theory AgentMain
  imports AgentMon
begin

text \<open>
  The agent library, part three: messages (subj-msg.c), the dispatch of packets, receiving from
  the stream and from datagrams, one poll (subj-network.c), start and stop (subj-proper.c).
\<close>

section \<open>Messages\<close>

text \<open>
  The names are moved two and one bytes down inside the packet, to make room for their NULs; the
  handler gets them as C strings.
\<close>

definition osubjHandleMsgRecv :: "env \<Rightarrow> int \<Rightarrow> bytes \<Rightarrow> 'a agentst_scheme \<Rightarrow> oret \<times> 'a agentst_scheme" where
  "osubjHandleMsgRecv E len buf s =
     (if len < 18 then (ERROR, s)
      else
        let m_len = nat (OUNTOHS (ld16 E buf 8)); s_len = nat (OUNTOHS (ld16 E buf 10));
            d_len = nat (OUNTOHS (ld16 E buf 12))
        in if len \<noteq> int (18 + s_len + d_len + m_len) \<or> \<not> osubj_msg_handler s then (ERROR, s)
           else (OK, s\<lparr>osubj_received := osubj_received s @ [\<lparr>ms_id = OUNTOHL (ld32 E buf 4),
                    ms_src = takeWhile (\<lambda>c. c \<noteq> 0) (rd_bytes E buf 18 s_len),
                    ms_dest = takeWhile (\<lambda>c. c \<noteq> 0) (rd_bytes E buf (18 + s_len) d_len),
                    ms_klass = OUNTOHS (ld16 E buf 14), ms_type = OUNTOHS (ld16 E buf 16),
                    ms_data = rd_bytes E buf (18 + s_len + d_len) m_len\<rparr>]\<rparr>))"

definition message_packet :: "u32 \<Rightarrow> bytes \<Rightarrow> bytes \<Rightarrow> int \<Rightarrow> int \<Rightarrow> bytes \<Rightarrow> bytes" where
  "message_packet ident src dest klass ty dat =
     st32 (OHTONL 0) @ st32 (OHTONL ident) @ st16 (OHTONS (int (length dat))) @ st16 (OHTONS (int (length src)))
     @ st16 (OHTONS (int (length dest))) @ st16 (OHTONS klass) @ st16 (OHTONS ty) @ src @ dest @ dat"

definition message_source :: "'a agentst_scheme \<Rightarrow> bytes" where
  "message_source s = (case osubj_subjects s of [] \<Rightarrow> [46] | u # _ \<Rightarrow> os_name u)"

definition osubjSendMessage ::
  "env \<Rightarrow> u32 \<Rightarrow> bytes option \<Rightarrow> int \<Rightarrow> int \<Rightarrow> bytes option \<Rightarrow> int \<Rightarrow> 'a agentst_scheme \<Rightarrow> oret \<times> 'a agentst_scheme" where
  "osubjSendMessage E ident dest klass ty dat len s0 =
     (if len < 0 \<or> len > OLANG_MAX_PACKET \<or> (len > 0 \<and> dat = None) \<or> klass < 0 \<or> klass > OLANG_MAX_MSG_KLASS
         \<or> ty < 0 \<or> ty > OLANG_MAX_MSG_TYPE then (ERROR, s0)
      else
        let s = (if ident = 0 then s0\<lparr>osubj_auto_msg_id := osubj_auto_msg_id s0 + 1\<rparr> else s0);
            n_id = (if ident = 0 then osubj_auto_msg_id s else ident);
            b = message_packet n_id (message_source s) (the_bytes dest) klass ty (rd_bytes E (the_bytes dat) 0 (nat len))
        in if \<not> osubj_new E (length b) s then (ERROR, s)
           else osubjSendPacket E OK OLANG_DATA OLANG_MSG_SEND_REQ (int (length b)) (Some b) s)"

section \<open>Dispatch\<close>

text \<open>
  A ping that comes over the stream has its own buffer freed before the version is read from it:
  a fault.
\<close>

definition handle_ping :: "env \<Rightarrow> int \<Rightarrow> bytes \<Rightarrow> 'a agentst_scheme \<Rightarrow> 'a agentst_scheme" where
  "handle_ping E kind buf s0 =
     (let s = (if osubj_allow_reconnect s0
               then (osubjDisconnectData (osubj_mark (kind = OLANG_DATA) s0))\<lparr>p_state := ST_NONE\<rparr> else s0);
          version = OUNTOHS (ld16 E buf 0)
      in if version \<noteq> OLANG_VERSION \<or> p_state s = ST_OPEN
         then snd (osubjSendPacket E ERROR OLANG_CONTROL OLANG_PING_NAK 4 (Some (st16 (OHTONS OLANG_VERSION) @ st16 0)) s)
         else snd (osubjSendPacket E OK OLANG_CONTROL OLANG_PING_ACK 4 (Some (st16 (OHTONS version) @ st16 0))
                     (s\<lparr>p_id := osubj_temp_id s\<rparr>)))"

text \<open>The description of up to 255 bytes goes into 140 bytes.\<close>

definition handle_conn :: "env \<Rightarrow> int \<Rightarrow> bytes \<Rightarrow> 'a agentst_scheme \<Rightarrow> 'a agentst_scheme" where
  "handle_conn E len buf s =
     (let q = unat (rd E buf 8) in
      if len < 10 \<or> len \<noteq> 9 + int q \<or> OUNTOHS (ld16 E buf 0) \<noteq> OLANG_VERSION then s\<lparr>p_state := ST_EXIT\<rparr>
      else
        let s1 = (osubj_mark (q \<ge> 140) s)\<lparr>cntl_addr := (cntl_addr s)\<lparr>sin_port := ld16 E buf 2\<rparr>,
                   p_id := osubj_temp_id s, osubj_hub_desc := rd_bytes E buf 9 q\<rparr>;
            s2 = snd (osubjSendPacket E OK OLANG_DATA OLANG_CONN_ACK 4 (Some (st32 OLANG_MAGIC)) s1);
            s3 = snd (osubjSendSegments E True s2)
        in snd (osubjSendClasses E s3))"

definition osubjHandleIncoming ::
  "env \<Rightarrow> int \<Rightarrow> int \<Rightarrow> int \<Rightarrow> bytes \<Rightarrow> 'a agentst_scheme \<Rightarrow> oret \<times> 'a agentst_scheme" where
  "osubjHandleIncoming E kind ty len buf s =
     (if osubj_down s then (ERROR, s)
      else if ty = OLANG_PING_REQ then (OK, handle_ping E kind buf s)
      else if ty = OLANG_CONN_REQ then (OK, handle_conn E len buf s)
      else if ty = OLANG_ALIVE then (OK, s)
      else if ty = OLANG_DATA_REG_REQ then (OK, snd (osubjHandleDataReg E len buf s))
      else if ty = OLANG_DATA_UNREG_REQ then (OK, snd (osubjHandleDataUnreg E len buf s))
      else if ty = OLANG_DGROUP_UNREG_REQ then (OK, snd (osubjHandleDataGroupUnreg E len buf s))
      else if ty = OLANG_DATA_WRITE_REQ then (OK, snd (osubjHandleDataWrite E len buf s))
      else if ty = OLANG_DATA_READ_REQ then (OK, snd (osubjHandleDataRead E len buf s))
      else if ty = OLANG_MSG_RECV then (OK, snd (osubjHandleMsgRecv E len buf s))
      else (ERROR, s))"

section \<open>Receiving\<close>

text \<open>The identifier of the packet is noted when its header is complete.\<close>

definition note_id :: "env \<Rightarrow> bool \<Rightarrow> bytes \<Rightarrow> 'a agentst_scheme \<Rightarrow> 'a agentst_scheme \<Rightarrow> 'a agentst_scheme" where
  "note_id E eof rx s s1 =
     (let len = OLANG_HEAD_LEN - nat (hdr_off s) in
      if reget_len s < 0 \<and> fst (sock_recv rx eof len) = int len
      then s1\<lparr>osubj_temp_id := word_of_int (OUNTOHS (ld16 E (hdr_buf s1) 4))\<rparr> else s1)"

text \<open>
  A handler that disconnects leaves descriptor 0 behind, from which the source goes on reading;
  the loop ends there and the fault is marked.
\<close>

function osubjReceiveStream :: "env \<Rightarrow> bool \<Rightarrow> bool \<Rightarrow> bytes \<Rightarrow> 'a agentst_scheme \<Rightarrow> bytes \<times> 'a agentst_scheme" where
  "osubjReceiveStream E first_pass eof rx s =
     (case ReceiveStep E first_pass eof rx s of (ready, rest, s0) \<Rightarrow>
        let s1 = note_id E eof rx s s0 in
        if \<not> ready then (rest, recv_end s1)
        else
          let s2 = snd (osubjHandleIncoming E OLANG_DATA (reget_type s1) (reget_len s1) (the_bytes (reget_buf s1)) s1);
              s3 = recv_clear s2
          in if data_sock s1 > 0 \<and> data_sock s3 = 0 then (rest, osubj_mark True s3)
             else osubjReceiveStream E False eof rest s3)"
  by pat_completeness auto
termination
  by (relation "measure (\<lambda>(E, fp, eof, rx, s). length rx)") (auto dest: ReceiveStep_shrinks [OF sym])

declare osubjReceiveStream.simps [simp del]

definition osubjReceiveDatagram :: "env \<Rightarrow> int \<Rightarrow> sockaddr \<Rightarrow> bytes \<Rightarrow> 'a agentst_scheme \<Rightarrow> 'a agentst_scheme" where
  "osubjReceiveDatagram E kind addr dg s =
     (let s1 = (if p_state s = ST_OPEN then s\<lparr>osubj_tmp_addr := addr\<rparr> else s\<lparr>cntl_addr := addr\<rparr>) in
      if length dg < OLANG_HEAD_LEN then s1
      else
        let len = OUNTOHS (ld16 E dg 0); ty = OUNTOHS (ld16 E dg 2);
            s2 = s1\<lparr>osubj_temp_id := word_of_int (OUNTOHS (ld16 E dg 4))\<rparr>;
            blen = frame_len (nat len)
        in if len > OLANG_MAX_PACKET \<or> \<not> osubj_new E blen s2 \<or> length dg < blen then s2
           else if OROTS (ld16 E dg (blen - OLANG_TAIL_LEN)) \<noteq> ohubWatchCheckSum dg (int (blen - OLANG_TAIL_LEN)) then s2
           else snd (osubjHandleIncoming E kind ty len (drop OLANG_HEAD_LEN (take blen dg)) (s2\<lparr>alive_get_wd := env_now E\<rparr>)))"

definition osubjAcceptConnection :: "env \<Rightarrow> (int \<times> sockaddr) option \<Rightarrow> 'a agentst_scheme \<Rightarrow> oret \<times> 'a agentst_scheme" where
  "osubjAcceptConnection E inc s =
     (case inc of
        None \<Rightarrow> (ERROR, s)
      | Some (sock, addr) \<Rightarrow>
          if p_state s = ST_OPEN then (ERROR, s)
          else (OK, s\<lparr>cntl_addr := addr\<lparr>sin_port := 0\<rparr>, data_sock := sock, p_state := ST_OPEN,
                      alive_get_wd := env_now E, alive_put_wd := env_now E\<rparr>))"

section \<open>One poll\<close>

definition drop_hanging_packets :: "packet list \<Rightarrow> packet list" where
  "drop_hanging_packets ks = map (\<lambda>k. if pk_len k \<le> 0 then k\<lparr>pk_buf := None\<rparr> else k) ks"

definition osubjBackgroundTask :: "env \<Rightarrow> 'a agentst_scheme \<Rightarrow> 'a agentst_scheme" where
  "osubjBackgroundTask E s =
     (let s1 = (if p_state s = ST_OPEN \<and> env_now E - alive_get_wd s > OLANG_DEAD_MS then s\<lparr>p_state := ST_EXIT\<rparr> else s)
      in if p_state s1 = ST_OPEN \<and> env_now E - alive_put_wd s1 > OLANG_ALIVE_MS
         then snd (osubjSendPacket E OK OLANG_CONTROL OLANG_ALIVE 0 None (s1\<lparr>q_buf := drop_hanging_packets (q_buf s1)\<rparr>))
         else s1)"

definition OSUBJ_WORK_DATA :: u32 where "OSUBJ_WORK_DATA = 1"
definition OSUBJ_WORK_COMMAND :: u32 where "OSUBJ_WORK_COMMAND = 2"
definition OSUBJ_WORK_CONTROL :: u32 where "OSUBJ_WORK_CONTROL = 4"
definition OSUBJ_WORK_MONITOR :: u32 where "OSUBJ_WORK_MONITOR = 8"
definition OSUBJ_WORK_MESSAGE :: u32 where "OSUBJ_WORK_MESSAGE = 16"
definition OSUBJ_WORK_ALL :: u32 where "OSUBJ_WORK_ALL = 31"

definition wants :: "u32 \<Rightarrow> u32 \<Rightarrow> bool" where "wants wk w \<longleftrightarrow> wk AND w \<noteq> 0"

text \<open>What \<open>select\<close> finds on the sockets it is asked about.\<close>

record agent_events =
  ae_num :: int
  ae_elapsed :: "int \<Rightarrow> int"
  ae_cntl :: "(sockaddr \<times> bytes) option"
  ae_cmnd :: "(sockaddr \<times> bytes) option"
  ae_accept :: "(int \<times> sockaddr) option option"
  ae_read :: "(bytes \<times> bool) option"
  ae_write :: bool

text \<open>The tasks before \<open>select\<close>; the second part tells whether the stream may be written.\<close>

definition poll_prepare :: "env \<Rightarrow> agent_events \<Rightarrow> u32 \<Rightarrow> 'a agentst_scheme \<Rightarrow> 'a agentst_scheme \<times> bool" where
  "poll_prepare E ev wk s0 =
     (let s1 = (if wants wk OSUBJ_WORK_MONITOR then snd (osubjMonitoring E (ae_elapsed ev) s0) else s0);
          delta = env_now E - osubj_routine_ms s1;
          s2 = (if wants wk OSUBJ_WORK_CONTROL
                   \<and> (delta < 0 \<or> delta > OLANG_STAT_MS \<or> delta > OLANG_ALIVE_MS \<or> osubj_routine_ms s1 = 0)
                then osubjBackgroundTask E (s1\<lparr>osubj_routine_ms := env_now E\<rparr>) else s1);
          s3 = (if wants wk OSUBJ_WORK_DATA then snd (osubjAddDataMonReply E 0 0 s2) else s2);
          owes = (wants wk OSUBJ_WORK_DATA \<and> p_state s3 = ST_OPEN \<and> (q_len s3 > 0 \<or> reput_len s3 \<ge> 0));
          s4 = (if owes \<and> osubj_resend_suspend_ms s3 \<noteq> 0 \<and> env_now E - osubj_resend_suspend_ms s3 > 0
                then s3\<lparr>osubj_resend_suspend_ms := 0\<rparr> else s3)
      in (s4, owes \<and> osubj_resend_suspend_ms s4 = 0))"

definition poll_events :: "env \<Rightarrow> agent_events \<Rightarrow> u32 \<Rightarrow> bool \<Rightarrow> 'a agentst_scheme \<Rightarrow> int \<times> 'a agentst_scheme" where
  "poll_events E ev wk writable s0 =
     (let open0 = (wants wk OSUBJ_WORK_DATA \<and> p_state s0 = ST_OPEN); sock0 = data_sock s0;
          (n1, s1) = (case ae_cntl ev of
             Some (a, dg) \<Rightarrow> if wants wk OSUBJ_WORK_CONTROL then (1, osubjReceiveDatagram E OLANG_CONTROL a dg s0) else (0, s0)
           | None \<Rightarrow> (0, s0));
          (n2, s2) = (case ae_cmnd ev of
             Some (a, dg) \<Rightarrow> if wants wk OSUBJ_WORK_COMMAND then (n1 + 1, osubjReceiveDatagram E OLANG_COMMAND a dg s1) else (n1, s1)
           | None \<Rightarrow> (n1, s1));
          (n3, s3) = (case ae_accept ev of
             Some inc \<Rightarrow> if wants wk OSUBJ_WORK_COMMAND then (n2 + 1, snd (osubjAcceptConnection E inc s2)) else (n2, s2)
           | None \<Rightarrow> (n2, s2));
          (n4, s4) = (case ae_read ev of
             Some (rx, eof) \<Rightarrow> if open0 \<and> data_sock s3 = sock0 \<and> p_state s3 \<noteq> ST_EXIT
               then (n3 + 1, snd (osubjReceiveStream E True eof rx s3)) else (n3, s3)
           | None \<Rightarrow> (n3, s3))
      in if ae_write ev \<and> writable \<and> data_sock s4 = sock0 \<and> p_state s4 \<noteq> ST_EXIT
         then (n4 + 1, osubjResendStream E s4) else (n4, s4))"

definition osubjInternalPoll :: "env \<Rightarrow> agent_events \<Rightarrow> u32 \<Rightarrow> 'a agentst_scheme \<Rightarrow> int \<times> 'a agentst_scheme" where
  "osubjInternalPoll E ev wk s =
     (if osubj_down s \<or> osubj_polling_mask s AND wk \<noteq> 0 then (ERROR, s)
      else
        let (s1, writable) = poll_prepare E ev wk (s\<lparr>osubj_polling_mask := osubj_polling_mask s OR wk\<rparr>);
            unmark = (\<lambda>x. x\<lparr>osubj_polling_mask := osubj_polling_mask x AND NOT wk\<rparr>)
        in if ae_num ev < 0 then (ERROR, unmark s1)
           else
             let (n, s2) = (if ae_num ev > 0 then poll_events E ev wk writable s1 else (0, s1));
                 s3 = (if p_state s2 = ST_EXIT then (osubjDisconnectData s2)\<lparr>p_state := ST_NONE\<rparr> else s2)
             in (n, unmark s3))"

text \<open>
  \<open>osubjWork\<close>: polls until the time is over. The clock and the events of the successive polls
  are given as a list.
\<close>

fun work_loop :: "int \<Rightarrow> u32 \<Rightarrow> (env \<times> agent_events) list \<Rightarrow> 'a agentst_scheme \<Rightarrow> 'a agentst_scheme" where
  "work_loop end_ms wk [] s = s"
| "work_loop end_ms wk ((E, ev) # r) s =
     (if end_ms - env_now E > 0 then work_loop end_ms wk r (snd (osubjInternalPoll E ev wk s)) else s)"

definition osubjWork :: "env \<Rightarrow> int \<Rightarrow> u32 \<Rightarrow> (env \<times> agent_events) list \<Rightarrow> 'a agentst_scheme \<Rightarrow> oret \<times> 'a agentst_scheme" where
  "osubjWork E timeout work_type evs s =
     (let wk = (if work_type = 0 then OSUBJ_WORK_ALL else work_type) in
      if osubj_down s \<or> wk AND OSUBJ_WORK_ALL = 0 \<or> wk AND NOT OSUBJ_WORK_ALL \<noteq> 0 \<or> timeout < -1 then (ERROR, s)
      else if timeout = 0 \<or> timeout = -1 then
        (OK, case evs of [] \<Rightarrow> s | (E1, ev) # _ \<Rightarrow> snd (osubjInternalPoll E1 ev wk s))
      else (OK, work_loop (env_now E + timeout) wk evs s))"

section \<open>Start and stop\<close>

definition osubjExit :: "env \<Rightarrow> 'a agentst_scheme \<Rightarrow> 'a agentst_scheme" where
  "osubjExit E s =
     (osubjExitNetwork ((snd (osubjClearMessages E (osubjClearMonitoring s)))\<lparr>osubj_subjects := []\<rparr>))
       \<lparr>osubj_ban_write := False, osubj_ever_write := replicate OSUBJ_MAX_EVER_WRITE 0, osubj_initialized := False\<rparr>"

text \<open>The start: dynamic linking (\<open>dl_ok\<close>), the sockets, the message handler, the thread if one is asked for.\<close>

definition osubjInit ::
  "env \<Rightarrow> bool \<Rightarrow> bool \<Rightarrow> (int \<times> int \<times> int) option \<Rightarrow> bool \<Rightarrow> u32 \<Rightarrow> 'a agentst_scheme \<Rightarrow> oret \<times> 'a agentst_scheme" where
  "osubjInit E dl_ok thread_ok socks handler ban_addr s0 =
     (let s = osubjExit E s0 in
      if \<not> dl_ok then (ERROR, s)
      else case osubjInitNetwork E socks s of (rc, s1) \<Rightarrow>
        if rc \<noteq> OK then (ERROR, osubjExit E s1)
        else
          let s2 = snd (osubjInitMessages E handler s1) in
          if \<not> thread_ok then (ERROR, osubjExit E s2)
          else (OK, (snd (osubjEverWrite ban_addr True s2))\<lparr>osubj_initialized := True\<rparr>))"

end
