(* ===== verification/CText.thy ===== *)
theory CText
  imports Domain
begin

text \<open>
  What the program uses of the C library to turn numbers into text and back: the conversions
  \<open>%d\<close>, \<open>%u\<close> and \<open>%g\<close> of \<open>sprintf\<close> and \<open>sscanf\<close>, and the IEEE 754 formats of \<open>float\<close> and
  \<open>double\<close> with rounding to nearest even. A floating point number is its bits.
\<close>

section \<open>Integers as text\<close>

fun dec_nat :: "nat \<Rightarrow> bytes" where
  "dec_nat n = (if n < 10 then [of_nat (48 + n)] else dec_nat (n div 10) @ [of_nat (48 + n mod 10)])"

declare dec_nat.simps [simp del]

definition dec_int :: "int \<Rightarrow> bytes" where
  "dec_int x = (if x < 0 then 45 # dec_nat (nat (- x)) else dec_nat (nat x))"

definition base_value :: "nat \<Rightarrow> nat list \<Rightarrow> nat" where
  "base_value b ds = foldl (\<lambda>n d. n * b + d) 0 ds"

definition c_isspace :: "byte \<Rightarrow> bool" where
  "c_isspace c \<longleftrightarrow> c = 32 \<or> 9 \<le> uint c \<and> uint c \<le> 13"

definition digit_of :: "byte \<Rightarrow> nat" where
  "digit_of c = (if is_digit c then unat c - 48 else if 97 \<le> uint c then unat c - 87 else unat c - 55)"

definition is_hexdigit :: "byte \<Rightarrow> bool" where
  "is_hexdigit c \<longleftrightarrow> is_digit c \<or> 97 \<le> uint c \<and> uint c \<le> 102 \<or> 65 \<le> uint c \<and> uint c \<le> 70"

definition take_sign :: "bytes \<Rightarrow> bool \<times> bytes" where
  "take_sign s = (if s \<noteq> [] \<and> (hd s = 45 \<or> hd s = 43) then (hd s = 45, tl s) else (False, s))"

definition scan_digits :: "bytes \<Rightarrow> (bool \<times> nat) option" where
  "scan_digits s =
     (let (neg, t) = take_sign (dropWhile c_isspace s); ds = takeWhile is_digit t in
      if ds = [] then None else Some (neg, base_value 10 (map digit_of ds)))"

text \<open>\<open>%ld\<close> and \<open>%lu\<close> with a 32 bit \<open>long\<close>: a value out of range becomes the nearest limit.\<close>

definition scan_long :: "bytes \<Rightarrow> int option" where
  "scan_long s = map_option (\<lambda>(neg, n). if neg then max (- 2147483648) (- int n) else min 2147483647 (int n)) (scan_digits s)"

definition scan_ulong :: "bytes \<Rightarrow> int option" where
  "scan_ulong s = map_option (\<lambda>(neg, n). if int n > 4294967295 then 4294967295
     else if neg then (- int n) mod 4294967296 else int n) (scan_digits s)"

section \<open>Floating point numbers\<close>

datatype fval = FNan bool | FInf bool | FNum bool nat int

text \<open>
  The formats: 23 and 8 bits of fraction and exponent for \<open>float\<close>, 52 and 11 for \<open>double\<close>.
  \<open>FNum s m x\<close> is \<open>m * 2 ^ x\<close> with the sign \<open>s\<close>. The payload of a NaN is left out.
\<close>

definition fl_emin :: "nat \<Rightarrow> nat \<Rightarrow> int" where
  "fl_emin mb eb = 2 - 2 ^ (eb - 1) - int mb"

definition fl_decode :: "nat \<Rightarrow> nat \<Rightarrow> nat \<Rightarrow> fval" where
  "fl_decode mb eb w =
     (let s = odd (w div 2 ^ (mb + eb)); e = w div 2 ^ mb mod 2 ^ eb; f = w mod 2 ^ mb in
      if e = 2 ^ eb - 1 then (if f = 0 then FInf s else FNan s)
      else if e = 0 then FNum s f (fl_emin mb eb)
      else FNum s (f + 2 ^ mb) (fl_emin mb eb + int e - 1))"

fun bit_len :: "nat \<Rightarrow> nat" where
  "bit_len n = (if n = 0 then 0 else Suc (bit_len (n div 2)))"

declare bit_len.simps [simp del]

text \<open>The quotient rounded to nearest, ties to even.\<close>

definition round_div :: "nat \<Rightarrow> nat \<Rightarrow> nat" where
  "round_div n d = (let k = n div d; r = n mod d in if 2 * r > d \<or> 2 * r = d \<and> odd k then k + 1 else k)"

definition fl_round :: "nat \<Rightarrow> nat \<Rightarrow> bool \<Rightarrow> nat \<Rightarrow> nat \<Rightarrow> nat" where
  "fl_round mb eb s n d =
     (let sg = (if s then 2 ^ (mb + eb) else 0); emin = fl_emin mb eb; inf = (2 ^ eb - 1) * 2 ^ mb in
      if n = 0 then sg
      else
        let q0 = max emin (int (bit_len n) - int (bit_len d) - int (mb + 1));
            scaled = (\<lambda>q. (n * 2 ^ nat (- q), d * 2 ^ nat q));
            q = (case scaled q0 of (a, b) \<Rightarrow> if a div b \<ge> 2 ^ (mb + 1) then q0 + 1 else q0);
            mant = (case scaled q of (a, b) \<Rightarrow> round_div a b);
            w = (if mant < 2 ^ mb then mant else (nat (q - emin) + 1) * 2 ^ mb + (mant - 2 ^ mb))
        in sg + (if w \<ge> inf then inf else w))"

definition fl_encode :: "nat \<Rightarrow> nat \<Rightarrow> fval \<Rightarrow> nat" where
  "fl_encode mb eb v =
     (case v of
        FNan s \<Rightarrow> (if s then 2 ^ (mb + eb) else 0) + (2 ^ eb - 1) * 2 ^ mb + 2 ^ (mb - 1)
      | FInf s \<Rightarrow> (if s then 2 ^ (mb + eb) else 0) + (2 ^ eb - 1) * 2 ^ mb
      | FNum s m x \<Rightarrow> fl_round mb eb s (m * 2 ^ nat x) (2 ^ nat (- x)))"

definition fl_of_int :: "int \<Rightarrow> fval" where
  "fl_of_int x = FNum (x < 0) (nat \<bar>x\<bar>) 0"

text \<open>The integer part, towards zero; None for an infinity or a NaN.\<close>

definition fl_trunc :: "fval \<Rightarrow> int option" where
  "fl_trunc v = (case v of
     FNum s m x \<Rightarrow> (let k = int (m * 2 ^ nat x div 2 ^ nat (- x)) in Some (if s then - k else k))
   | _ \<Rightarrow> None)"

section \<open>Floating point numbers as text\<close>

text \<open>
  \<open>%g\<close> prints six significant digits without trailing zeros, with an exponent when it is less
  than -4 or more than 5.
\<close>

definition dec_len :: "nat \<Rightarrow> nat" where
  "dec_len n = length (dec_nat n)"

definition dec_exponent :: "nat \<Rightarrow> nat \<Rightarrow> int" where
  "dec_exponent n d =
     (let x = int (dec_len n) - int (dec_len d) in
      if n * 10 ^ nat (- x) \<ge> d * 10 ^ nat x then x else x - 1)"

definition six_digits :: "nat \<Rightarrow> nat \<Rightarrow> nat \<times> int" where
  "six_digits n d =
     (let x = dec_exponent n d; y = 5 - x; k = round_div (n * 10 ^ nat y) (d * 10 ^ nat (- y)) in
      if k \<ge> 1000000 then (k div 10, x + 1) else (k, x))"

definition strip_zeros :: "bytes \<Rightarrow> bytes" where
  "strip_zeros ds = rev (dropWhile (\<lambda>c. c = 48) (rev ds))"

definition with_point :: "bytes \<Rightarrow> bytes \<Rightarrow> bytes" where
  "with_point a b = (let f = strip_zeros b in if f = [] then a else a @ [46] @ f)"

definition fmt_digits :: "nat \<Rightarrow> int \<Rightarrow> bytes" where
  "fmt_digits k x =
     (let ds = dec_nat k in
      if x < - 4 \<or> x \<ge> 6 then
        with_point (take 1 ds) (drop 1 ds) @ [101, if x < 0 then 45 else 43]
          @ (if \<bar>x\<bar> < 10 then [48] else []) @ dec_nat (nat \<bar>x\<bar>)
      else if x < 0 then with_point [48] (replicate (nat (- x - 1)) 48 @ ds)
      else with_point (take (nat x + 1) ds) (drop (nat x + 1) ds))"

definition fmt_g :: "fval \<Rightarrow> bytes" where
  "fmt_g v =
     (case v of
        FNan s \<Rightarrow> (if s then [45] else []) @ bstr ''nan''
      | FInf s \<Rightarrow> (if s then [45] else []) @ bstr ''inf''
      | FNum s m x \<Rightarrow> (if s then [45] else [])
          @ (if m = 0 then [48] else (case six_digits (m * 2 ^ nat x) (2 ^ nat (- x)) of (k, y) \<Rightarrow> fmt_digits k y)))"

text \<open>\<open>%g\<close> of \<open>sscanf\<close>: decimal and hexadecimal constants, infinities and NaNs.\<close>

definition lower :: "byte \<Rightarrow> byte" where
  "lower c = (if 65 \<le> uint c \<and> uint c \<le> 90 then c + 32 else c)"

definition scan_exponent :: "byte \<Rightarrow> bytes \<Rightarrow> int" where
  "scan_exponent e s =
     (if s = [] \<or> lower (hd s) \<noteq> e then 0
      else case take_sign (tl s) of (neg, t) \<Rightarrow>
        let k = int (base_value 10 (map digit_of (takeWhile is_digit t))) in if neg then - k else k)"

text \<open>Mantissa as numerator and denominator; None without a digit.\<close>

definition scan_ratio :: "bool \<Rightarrow> bytes \<Rightarrow> (nat \<times> nat) option" where
  "scan_ratio hex s =
     (let dig = (if hex then is_hexdigit else is_digit); b = (if hex then 16 else 10);
          ds = takeWhile dig s; r = dropWhile dig s;
          fs = (if r \<noteq> [] \<and> hd r = 46 then takeWhile dig (tl r) else []);
          r2 = (if r \<noteq> [] \<and> hd r = 46 then dropWhile dig (tl r) else r);
          x = scan_exponent (if hex then 112 else 101) r2; c = (if hex then 2 else 10 :: nat)
      in if ds @ fs = [] then None
         else Some (base_value b (map digit_of (ds @ fs)) * c ^ nat x, b ^ length fs * c ^ nat (- x)))"

definition scan_float :: "nat \<Rightarrow> nat \<Rightarrow> bytes \<Rightarrow> nat option" where
  "scan_float mb eb s =
     (case take_sign (dropWhile c_isspace s) of (neg, t) \<Rightarrow>
        let l = map lower t in
        if take 3 l = bstr ''nan'' then Some (fl_encode mb eb (FNan neg))
        else if take 3 l = bstr ''inf'' then
          (if take 1 (drop 3 l) = bstr ''i'' \<and> take 5 (drop 3 l) \<noteq> bstr ''inity'' then None
           else Some (fl_encode mb eb (FInf neg)))
        else
          map_option (\<lambda>(n, d). fl_round mb eb neg n d)
            (if take 2 l = bstr ''0x'' then scan_ratio True (drop 2 t) else scan_ratio False t))"

end
