(* ===== verification/WatchVal.thy ===== *)
theory WatchVal
  imports Monitor CText
begin

text \<open>
  Values in the watcher library (watch-convert.c): conversion between the types of a value, and
  the copy of a value into the caller's buffer. The value is the record of the hub; its union
  is eight bytes, little-endian, and a string pointer is the bytes it points to. Operations
  return, last, whether they did something C leaves undefined: an out of range conversion of
  a floating point number, a read past the end of a string.
\<close>

section \<open>The union\<close>

definition sizeof_variant :: int where "sizeof_variant = 8"

definition v_u8 :: "oval \<Rightarrow> byte" where "v_u8 p = ov_v p ! 0"
definition v_u16 :: "oval \<Rightarrow> u16" where "v_u16 p = mk16 (ov_v p ! 0) (ov_v p ! 1)"
definition v_u32 :: "oval \<Rightarrow> u32" where
  "v_u32 p = mk32 (ov_v p ! 0) (ov_v p ! 1) (ov_v p ! 2) (ov_v p ! 3)"
definition v_hi32 :: "oval \<Rightarrow> u32" where
  "v_hi32 p = mk32 (ov_v p ! 4) (ov_v p ! 5) (ov_v p ! 6) (ov_v p ! 7)"
definition v_double :: "oval \<Rightarrow> nat" where
  "v_double p = unat (v_u32 p) + unat (v_hi32 p) * 2 ^ 32"

definition put_v :: "bytes \<Rightarrow> oval \<Rightarrow> oval" where
  "put_v bs p = p\<lparr>ov_v := store (ov_v p) 0 bs\<rparr>"

definition put_u8 :: "int \<Rightarrow> oval \<Rightarrow> oval" where "put_u8 x = put_v [word_of_int x]"
definition put_u16 :: "int \<Rightarrow> oval \<Rightarrow> oval" where "put_u16 x = put_v (st16 (word_of_int x))"
definition put_u32 :: "int \<Rightarrow> oval \<Rightarrow> oval" where "put_u32 x = put_v (st32 (word_of_int x))"
definition put_double :: "nat \<Rightarrow> oval \<Rightarrow> oval" where
  "put_double w = put_v (st32 (of_nat w) @ st32 (of_nat (w div 2 ^ 32)))"

section \<open>Lengths\<close>

definition owatchGetValueLength :: "oval \<Rightarrow> int" where
  "owatchGetValueLength p =
     (let t = ov_type p in
      if t = 98 \<or> t = 66 then 1 else if t = 104 \<or> t = 72 then 2
      else if t = 105 \<or> t = 73 \<or> t = 108 \<or> t = 76 then 4
      else if t = 113 \<or> t = 81 then 8 else if t = 102 then 4 else if t = 100 then 8
      else if t = 68 then 16 else if t = 112 then 4 else if t = 118 then 0
      else if t = 115 then ov_len p else if t = 69 then 4 else 0)"

section \<open>From integers\<close>

text \<open>
  The eleven functions differ in the type of their argument only: every cast chain keeps the
  low bytes. \<open>b\<close> and \<open>B\<close> are 98 and 66, \<open>h\<close> and \<open>H\<close> 104 and 72, \<open>i\<close> and \<open>I\<close> 105 and 73,
  \<open>l\<close> and \<open>L\<close> 108 and 76, \<open>f\<close> 102, \<open>d\<close> 100, \<open>E\<close> 69.
\<close>

definition convert_int :: "int \<Rightarrow> byte \<Rightarrow> oval \<Rightarrow> oret \<times> oval" where
  "convert_int v t p =
     (if t = 98 \<or> t = 66 then (OK, put_u8 v p)
      else if t = 104 \<or> t = 72 then (OK, put_u16 v p)
      else if t = 105 \<or> t = 73 \<or> t = 108 \<or> t = 76 \<or> t = 69 then (OK, put_u32 v p)
      else if t = 102 then (OK, put_u32 (int (fl_encode 23 8 (fl_of_int v))) p)
      else if t = 100 then (OK, put_double (fl_encode 52 11 (fl_of_int v)) p)
      else (ERROR, p))"

definition convertSignedChar :: "byte \<Rightarrow> byte \<Rightarrow> oval \<Rightarrow> oret \<times> oval" where
  "convertSignedChar v t p = convert_int (sint v) t p"
definition convertUnsignedChar :: "byte \<Rightarrow> byte \<Rightarrow> oval \<Rightarrow> oret \<times> oval" where
  "convertUnsignedChar v t p = convert_int (uint v) t p"
definition convertSignedShort :: "u16 \<Rightarrow> byte \<Rightarrow> oval \<Rightarrow> oret \<times> oval" where
  "convertSignedShort v t p = convert_int (sint v) t p"
definition convertUnsignedShort :: "u16 \<Rightarrow> byte \<Rightarrow> oval \<Rightarrow> oret \<times> oval" where
  "convertUnsignedShort v t p = convert_int (uint v) t p"
definition convertSignedInt :: "u32 \<Rightarrow> byte \<Rightarrow> oval \<Rightarrow> oret \<times> oval" where
  "convertSignedInt v t p = convert_int (sint v) t p"
definition convertUnsignedInt :: "u32 \<Rightarrow> byte \<Rightarrow> oval \<Rightarrow> oret \<times> oval" where
  "convertUnsignedInt v t p = convert_int (uint v) t p"
definition convertSignedLong :: "u32 \<Rightarrow> byte \<Rightarrow> oval \<Rightarrow> oret \<times> oval" where
  "convertSignedLong v t p = convert_int (sint v) t p"
definition convertUnsignedLong :: "u32 \<Rightarrow> byte \<Rightarrow> oval \<Rightarrow> oret \<times> oval" where
  "convertUnsignedLong v t p = convert_int (uint v) t p"
definition convertEnum :: "u32 \<Rightarrow> byte \<Rightarrow> oval \<Rightarrow> oret \<times> oval" where
  "convertEnum v t p = convert_int (sint v) t p"

section \<open>From floating point numbers\<close>

definition fl_in :: "fval \<Rightarrow> int \<Rightarrow> int \<Rightarrow> bool" where
  "fl_in v lo hi = (case fl_trunc v of None \<Rightarrow> False | Some k \<Rightarrow> lo \<le> k \<and> k \<le> hi)"

definition fl_int :: "fval \<Rightarrow> int" where
  "fl_int v = (case fl_trunc v of None \<Rightarrow> 0 | Some k \<Rightarrow> k)"

definition convert_fl :: "fval \<Rightarrow> byte \<Rightarrow> oval \<Rightarrow> oret \<times> oval \<times> bool" where
  "convert_fl v t p =
     (if t = 98 then (OK, put_u8 (fl_int v) p, \<not> fl_in v (- 128) 127)
      else if t = 66 then (OK, put_u8 (fl_int v) p, \<not> fl_in v 0 255)
      else if t = 104 then (OK, put_u16 (fl_int v) p, \<not> fl_in v (- 32768) 32767)
      else if t = 72 then (OK, put_u16 (fl_int v) p, \<not> fl_in v 0 65535)
      else if t = 105 \<or> t = 108 \<or> t = 69 then
        (OK, put_u32 (fl_int v) p, \<not> fl_in v (- 2147483648) 2147483647)
      else if t = 73 \<or> t = 76 then (OK, put_u32 (fl_int v) p, \<not> fl_in v 0 4294967295)
      else if t = 102 then (OK, put_u32 (int (fl_encode 23 8 v)) p, False)
      else if t = 100 then (OK, put_double (fl_encode 52 11 v) p, False)
      else (ERROR, p, False))"

definition convertFloat :: "u32 \<Rightarrow> byte \<Rightarrow> oval \<Rightarrow> oret \<times> oval \<times> bool" where
  "convertFloat v t p = convert_fl (fl_decode 23 8 (unat v)) t p"
definition convertDouble :: "nat \<Rightarrow> byte \<Rightarrow> oval \<Rightarrow> oret \<times> oval \<times> bool" where
  "convertDouble v t p = convert_fl (fl_decode 52 11 v) t p"

section \<open>Text\<close>

definition convertFromString :: "bytes option \<Rightarrow> byte \<Rightarrow> oval \<Rightarrow> oret \<times> oval \<times> bool" where
  "convertFromString str t p =
     (case str of
        None \<Rightarrow> (ERROR, p, False)
      | Some b \<Rightarrow>
          let s = cstr_at b 0; ub = (0 \<notin> set b);
              got = (\<lambda>x put. case x of None \<Rightarrow> (ERROR, p, ub) | Some k \<Rightarrow> (OK, put k p, ub))
          in if t = 98 then
               (case scan_long s of None \<Rightarrow> (ERROR, p, ub)
                | Some i \<Rightarrow> if i < - 128 \<or> i > 127 then (ERROR, p, ub) else (OK, put_u8 i p, ub))
             else if t = 66 then
               (case scan_ulong s of None \<Rightarrow> (ERROR, p, ub)
                | Some i \<Rightarrow> if i > 255 then (ERROR, p, ub) else (OK, put_u8 i p, ub))
             else if t = 104 then got (scan_long s) put_u16
             else if t = 72 then got (scan_ulong s) put_u16
             else if t = 105 \<or> t = 108 \<or> t = 69 then got (scan_long s) put_u32
             else if t = 73 \<or> t = 76 then got (scan_ulong s) put_u32
             else if t = 102 then got (map_option int (scan_float 23 8 s)) put_u32
             else if t = 100 then
               (case scan_float 52 11 s of None \<Rightarrow> (ERROR, p, ub) | Some w \<Rightarrow> (OK, put_double w p, ub))
             else (ERROR, p, False))"

text \<open>The text with its NUL; None when there is no such conversion or the buffer is too small.\<close>

definition value_text :: "byte \<Rightarrow> oval \<Rightarrow> bytes option" where
  "value_text t p =
     (if t = 98 then Some (dec_int (sint (v_u8 p))) else if t = 66 then Some (dec_int (uint (v_u8 p)))
      else if t = 104 then Some (dec_int (sint (v_u16 p))) else if t = 72 then Some (dec_int (uint (v_u16 p)))
      else if t = 105 \<or> t = 108 \<or> t = 69 then Some (dec_int (sint (v_u32 p)))
      else if t = 73 \<or> t = 76 then Some (dec_int (uint (v_u32 p)))
      else if t = 102 then Some (fmt_g (fl_decode 23 8 (unat (v_u32 p))))
      else if t = 100 then Some (fmt_g (fl_decode 52 11 (v_double p)))
      else None)"

definition convertToString :: "byte \<Rightarrow> oval \<Rightarrow> bytes option \<Rightarrow> int \<Rightarrow> bytes option" where
  "convertToString t p buf buf_len =
     (if buf = None \<or> buf_len < 1 then None
      else case value_text t p of
        None \<Rightarrow> None
      | Some s \<Rightarrow> if int (length s) + 1 > buf_len then None else Some (s @ [0]))"

section \<open>Conversion\<close>

text \<open>
  The result is the code, the destination, the buffer and whether C leaves the outcome
  undefined. \<open>put_buf\<close> is a write at the beginning of the buffer.
\<close>

definition put_buf :: "bytes \<Rightarrow> bytes option \<Rightarrow> bytes option" where
  "put_buf bs b = map_option (\<lambda>x. store x 0 bs) b"

definition convert_number :: "oval \<Rightarrow> oval \<Rightarrow> oret \<times> oval \<times> bool" where
  "convert_number src dst =
     (let s = ov_type src; t = ov_type dst; int_case = (\<lambda>(rc, p). (rc, p, False)) in
      if s = 98 then int_case (convertSignedChar (v_u8 src) t dst)
      else if s = 66 then int_case (convertUnsignedChar (v_u8 src) t dst)
      else if s = 104 then int_case (convertSignedShort (v_u16 src) t dst)
      else if s = 72 then int_case (convertUnsignedShort (v_u16 src) t dst)
      else if s = 105 then int_case (convertSignedInt (v_u32 src) t dst)
      else if s = 73 then int_case (convertUnsignedInt (v_u32 src) t dst)
      else if s = 108 then int_case (convertSignedLong (v_u32 src) t dst)
      else if s = 76 then int_case (convertUnsignedLong (v_u32 src) t dst)
      else if s = 102 then convertFloat (v_u32 src) t dst
      else if s = 100 then convertDouble (v_double src) t dst
      else if s = 69 then int_case (convertEnum (v_u32 src) t dst)
      else if s = 115 then convertFromString (ov_str src) t dst
      else (ERROR, dst, False))"

text \<open>The length of the destination by its type; None for a type without one.\<close>

definition number_len :: "byte \<Rightarrow> int option" where
  "number_len t =
     (if t = 98 \<or> t = 66 then Some 1 else if t = 104 \<or> t = 72 then Some 2
      else if t = 105 \<or> t = 73 \<or> t = 108 \<or> t = 76 then Some 4
      else if t = 113 \<or> t = 81 then Some 16 else if t = 102 then Some 4 else if t = 100 then Some 8
      else if t = 68 then Some 16 else if t = 112 \<or> t = 69 then Some 4 else None)"

definition convert_string :: "oval \<Rightarrow> oval \<Rightarrow> bytes option \<Rightarrow> int \<Rightarrow> oret \<times> oval \<times> bytes option \<times> bool" where
  "convert_string src dst buf buf_len =
     (let empty = (if buf_len \<noteq> 0 then [0] else []);
          n = nat (ov_len src);
          done = (\<lambda>str len b ub. (OK, dst\<lparr>ov_str := str, ov_len := len, ov_time := ov_time src\<rparr>, b, ub))
      in if ov_type src = 115 then
           (case ov_str src of
              None \<Rightarrow> done None 0 (put_buf empty buf) False
            | Some s \<Rightarrow>
                if ov_len src = 0 then done (map_option (\<lambda>_. empty) buf) 0 (put_buf empty buf) False
                else if ov_len src < 0 then (ERROR, dst, buf, False)
                else if buf = None \<or> buf_len < ov_len src then (ERROR, dst, buf, False)
                else
                  let t = take n s @ (if ov_len src < buf_len then [0] else [])
                  in done (Some t) (ov_len src) (put_buf t buf) (length s < n))
         else
           (case convertToString (ov_type src) src buf buf_len of
              None \<Rightarrow> (ERROR, dst, buf, False)
            | Some t \<Rightarrow> done (Some t) (int (length t)) (put_buf t buf) False))"

definition owatchConvertValue ::
  "oval option \<Rightarrow> oval option \<Rightarrow> bytes option \<Rightarrow> int \<Rightarrow> oret \<times> oval option \<times> bytes option \<times> bool" where
  "owatchConvertValue src_val dst_val buf buf_len =
     (case (src_val, dst_val) of
        (Some src, Some dst) \<Rightarrow>
          if ov_type dst = 115 then
            (case convert_string src dst buf buf_len of (rc, p, b, ub) \<Rightarrow> (rc, Some p, b, ub))
          else
            (case convert_number src dst of
               (rc, p, ub) \<Rightarrow>
                 if rc = ERROR then (ERROR, Some p, buf, ub)
                 else case number_len (ov_type p) of
                   None \<Rightarrow> (ERROR, Some p, buf, ub)
                 | Some n \<Rightarrow> (OK, Some (p\<lparr>ov_len := n, ov_time := ov_time src\<rparr>), buf, ub))
      | _ \<Rightarrow> (ERROR, dst_val, buf, False))"

section \<open>Copy\<close>

text \<open>A string that does not fit is copied as far as it goes and the copy reported as failed.\<close>

definition owatchCopyValue ::
  "oval \<Rightarrow> oval option \<Rightarrow> bytes option \<Rightarrow> int \<Rightarrow> oret \<times> oval option \<times> bytes option \<times> bool" where
  "owatchCopyValue src dst0 buf buf_len =
     (case dst0 of
        None \<Rightarrow> (ERROR, None, buf, False)
      | Some dst \<Rightarrow>
          if ov_len src < 0 then (ERROR, dst0, buf, False)
          else if ov_type src \<noteq> 115 then
            (if ov_len src > sizeof_variant then (ERROR, dst0, buf, False) else (OK, Some src, buf, False))
          else
            let n = nat (ov_len src); s = the_bytes (ov_str src);
                empty = (if buf_len > 0 then [0] else []);
                head = (\<lambda>p. p\<lparr>ov_type := ov_type src, ov_undef := ov_undef src, ov_len := ov_len src,
                              ov_time := ov_time src\<rparr>)
            in if ov_undef src then (OK, Some (head (dst\<lparr>ov_v := replicate 8 0, ov_str := None\<rparr>)), buf, False)
               else if n \<noteq> 0 then
                 (if buf = None \<or> buf_len < ov_len src then
                    let k = (if buf \<noteq> None then nat buf_len else 0)
                    in (ERROR, Some (head dst), put_buf (take k s) buf, length s < k)
                  else
                    let t = take n s @ (if ov_len src < buf_len then [0] else [])
                    in (OK, Some (head (dst\<lparr>ov_str := Some t\<rparr>)), put_buf t buf, length s < n))
               else (OK, Some (head (dst\<lparr>ov_str := map_option (\<lambda>_. empty) buf\<rparr>)), put_buf empty buf, False))"

section \<open>Integers\<close>

definition is_int_type :: "byte \<Rightarrow> bool" where
  "is_int_type t \<longleftrightarrow> t \<in> {98, 66, 104, 72, 105, 73, 108, 76, 69}"

text \<open>The integer a value stands for, and what the type makes of an integer.\<close>

definition int_val :: "oval \<Rightarrow> int" where
  "int_val p =
     (let t = ov_type p in
      if t = 98 then sint (v_u8 p) else if t = 66 then uint (v_u8 p)
      else if t = 104 then sint (v_u16 p) else if t = 72 then uint (v_u16 p)
      else if t = 73 \<or> t = 76 then uint (v_u32 p) else sint (v_u32 p))"

definition int_wrap :: "byte \<Rightarrow> int \<Rightarrow> int" where
  "int_wrap t x =
     (if t = 98 then to_schar x else if t = 66 then x mod 256
      else if t = 104 then to_short x else if t = 72 then x mod 65536
      else if t = 73 \<or> t = 76 then x mod 4294967296 else to_int32 x)"

lemma sint_of_int8: "sint (word_of_int x :: byte) = to_schar x"
  by (simp add: to_schar_def sint_sbintrunc' signed_take_bit_eq_take_bit_shift take_bit_eq_mod)

lemma sint_of_int16: "sint (word_of_int x :: u16) = to_short x"
  by (simp add: to_short_def sint_sbintrunc' signed_take_bit_eq_take_bit_shift take_bit_eq_mod)

lemma sint_of_int32: "sint (word_of_int x :: u32) = to_int32 x"
  by (simp add: to_int32_def sint_sbintrunc' signed_take_bit_eq_take_bit_shift take_bit_eq_mod)

lemma v_put_v:
  assumes "length (ov_v p) = 8"
  shows "v_u8 (put_u8 x p) = word_of_int x" and "v_u16 (put_u16 x p) = word_of_int x"
    and "v_u32 (put_u32 x p) = word_of_int x"
  using assms
  by (simp_all add: v_u8_def v_u16_def v_u32_def put_u8_def put_u16_def put_u32_def put_v_def store_def
      st16_def st32_def mk16_st16 mk32_st32)

lemma put_v_fields [simp]:
  "ov_type (put_u8 x p) = ov_type p" "ov_type (put_u16 x p) = ov_type p" "ov_type (put_u32 x p) = ov_type p"
  by (simp_all add: put_u8_def put_u16_def put_u32_def put_v_def)

lemma convert_int_law:
  assumes "is_int_type t" and "t = ov_type p" and "length (ov_v p) = 8"
  shows "\<exists>q. convert_int x t p = (OK, q) \<and> ov_type q = t \<and> int_val q = int_wrap t x"
  using assms
  by (auto simp: is_int_type_def convert_int_def int_val_def int_wrap_def Let_def v_put_v
      sint_of_int8 sint_of_int16 sint_of_int32 uint_word_of_int)

lemma convert_number_int:
  assumes "is_int_type (ov_type s)"
  shows "convert_number s d = (case convert_int (int_val s) (ov_type d) d of (rc, p) \<Rightarrow> (rc, p, False))"
  using assms
  by (auto simp: is_int_type_def convert_number_def int_val_def Let_def convertSignedChar_def convertUnsignedChar_def
      convertSignedShort_def convertUnsignedShort_def convertSignedInt_def convertUnsignedInt_def
      convertSignedLong_def convertUnsignedLong_def convertEnum_def)

lemma int_type_len: "is_int_type t \<Longrightarrow> ov_type p = t \<Longrightarrow> number_len t = Some (owatchGetValueLength p)"
  by (auto simp: is_int_type_def number_len_def owatchGetValueLength_def Let_def)

lemma int_type_not_text: "is_int_type t \<Longrightarrow> t \<noteq> 115"
  by (auto simp: is_int_type_def)

lemma int_val_update [simp]: "int_val (p\<lparr>ov_len := n, ov_time := u\<rparr>) = int_val p"
  by (simp add: int_val_def v_u8_def v_u16_def v_u32_def Let_def)

lemma owatchGetValueLength_update: "is_int_type (ov_type p) \<Longrightarrow> owatchGetValueLength (p\<lparr>ov_len := n\<rparr>) = owatchGetValueLength p"
  by (auto simp: is_int_type_def owatchGetValueLength_def Let_def)


section \<open>Text of integers\<close>

lemma unat_small_byte: "k < 256 \<Longrightarrow> unat (of_nat k :: byte) = k"
  by (simp add: unat_of_nat)

lemma digit_char: "d < 10 \<Longrightarrow> unat (of_nat (48 + d) :: byte) = 48 + d"
  by (rule unat_small_byte) simp

lemma digit_of_char: "d < 10 \<Longrightarrow> digit_of (of_nat (48 + d)) = d \<and> is_digit (of_nat (48 + d))"
  using digit_char [of d] unfolding digit_of_def is_digit_def
  by (simp add: uint_nat)

lemma base_value_snoc: "base_value b (ds @ [d]) = base_value b ds * b + d"
  by (simp add: base_value_def)

lemma dec_nat_value: "base_value 10 (map digit_of (dec_nat n)) = n \<and> (\<forall>c \<in> set (dec_nat n). is_digit c) \<and> dec_nat n \<noteq> []"
proof (induction n rule: dec_nat.induct)
  case (1 n)
  show ?case
  proof (cases "n < 10")
    case True
    then show ?thesis using digit_of_char [of n] by (simp add: dec_nat.simps [of n] base_value_def)
  next
    case False
    then have d: "dec_nat n = dec_nat (n div 10) @ [of_nat (48 + n mod 10)]" by (simp add: dec_nat.simps [of n])
    have "digit_of (of_nat (48 + n mod 10)) = n mod 10 \<and> is_digit (of_nat (48 + n mod 10))"
      by (rule digit_of_char) simp
    moreover have "n div 10 * 10 + n mod 10 = n" by simp
    ultimately show ?thesis using 1 [OF False] unfolding d map_append list.map base_value_snoc by auto
  qed
qed

lemma is_digit_bounds: "is_digit c \<Longrightarrow> \<not> c_isspace c \<and> c \<noteq> 45 \<and> c \<noteq> 43 \<and> c \<noteq> 0"
  by (auto simp: is_digit_def c_isspace_def)

lemma scan_dec_nat:
  assumes "rest = [] \<or> \<not> is_digit (hd rest)"
  shows "scan_digits (dec_nat n @ rest) = Some (False, n)"
proof -
  obtain c cs where c: "dec_nat n = c # cs" "is_digit c" using dec_nat_value [of n] by (cases "dec_nat n") auto
  have tw: "takeWhile is_digit (dec_nat n @ rest) = dec_nat n"
  proof -
    have "takeWhile is_digit rest = []" using assms by (cases rest) auto
    then show ?thesis using dec_nat_value [of n] by (simp add: takeWhile_append2)
  qed
  have "dropWhile c_isspace (dec_nat n @ rest) = dec_nat n @ rest" "take_sign (dec_nat n @ rest) = (False, dec_nat n @ rest)"
    using c is_digit_bounds [OF c(2)] by (auto simp: take_sign_def)
  then show ?thesis using tw dec_nat_value [of n] by (simp add: scan_digits_def Let_def)
qed

lemma scan_dec_int: "scan_digits (dec_int x) = Some (x < 0, nat \<bar>x\<bar>)"
proof (cases "x < 0")
  case True
  have d: "dropWhile c_isspace (45 # dec_nat (nat (- x))) = 45 # dec_nat (nat (- x))" by (simp add: c_isspace_def)
  have t: "takeWhile is_digit (dec_nat n) = dec_nat n" for n
    using dec_nat_value [of n] by (simp add: takeWhile_eq_all_conv)
  show ?thesis using True d dec_nat_value [of "nat (- x)"]
    by (simp add: t dec_int_def scan_digits_def take_sign_def Let_def)
next
  case False
  then show ?thesis using scan_dec_nat [of "[]" "nat x"] by (simp add: dec_int_def)
qed

lemma scan_long_dec: "int32_range x \<Longrightarrow> scan_long (dec_int x) = Some x"
  by (auto simp: scan_long_def scan_dec_int int32_range_def)

lemma scan_ulong_dec: "0 \<le> x \<Longrightarrow> x < 4294967296 \<Longrightarrow> scan_ulong (dec_int x) = Some x"
  by (auto simp: scan_ulong_def scan_dec_int)

lemma dec_int_no_nul: "0 \<notin> set (dec_int x)"
  using dec_nat_value [of "nat x"] dec_nat_value [of "nat (- x)"] is_digit_bounds
  by (auto simp: dec_int_def)

lemma cstr_text: "0 \<notin> set s \<Longrightarrow> cstr_at (s @ 0 # r) 0 = s"
  unfolding cstr_at_def drop_0 by (subst takeWhile_append2) auto

text \<open>The text of an integer value, and its range.\<close>

lemma value_text_int: "is_int_type (ov_type p) \<Longrightarrow> value_text (ov_type p) p = Some (dec_int (int_val p))"
  by (auto simp: is_int_type_def value_text_def int_val_def Let_def)

lemma int_val_ranges:
  assumes "is_int_type (ov_type p)" and "ov_type p = t"
  shows "t = 98 \<Longrightarrow> - 128 \<le> int_val p \<and> int_val p \<le> 127" and "t = 66 \<Longrightarrow> 0 \<le> int_val p \<and> int_val p \<le> 255"
    and "t = 104 \<Longrightarrow> - 32768 \<le> int_val p \<and> int_val p \<le> 32767" and "t = 72 \<Longrightarrow> 0 \<le> int_val p \<and> int_val p \<le> 65535"
    and "t = 73 \<or> t = 76 \<Longrightarrow> 0 \<le> int_val p \<and> int_val p < 4294967296"
    and "t = 105 \<or> t = 108 \<or> t = 69 \<Longrightarrow> int32_range (int_val p)"
  using assms sint_greater_eq [of "v_u8 p"] sint_lt [of "v_u8 p"] uint_bounded [of "v_u8 p"]
    sint_greater_eq [of "v_u16 p"] sint_lt [of "v_u16 p"] uint_bounded [of "v_u16 p"]
    uint_bounded [of "v_u32 p"] sint_u32_range [of "v_u32 p"]
  by (auto simp: int_val_def Let_def)

lemma int_wrap_val:
  assumes "is_int_type (ov_type p)"
  shows "int_wrap (ov_type p) (int_val p) = int_val p"
  using assms int_val_ranges [OF assms refl]
  by (auto simp: is_int_type_def int_wrap_def to_schar_def to_short_def to_int32_id)

lemma convertFromString_int:
  assumes t: "is_int_type (ov_type p)" "ov_type q = ov_type p" and l: "length (ov_v q) = 8"
  shows "\<exists>r. convertFromString (Some (dec_int (int_val p) @ [0])) (ov_type q) q = (OK, r, False)
    \<and> ov_type r = ov_type p \<and> int_val r = int_val p"
proof -
  let ?x = "int_val p"
  note r = int_val_ranges [OF t(1) refl]
  have i32: "int32_range ?x" if "ov_type p \<noteq> 73 \<and> ov_type p \<noteq> 76"
    using that t r by (auto simp: is_int_type_def int32_range_def)
  have pos: "0 \<le> ?x \<and> ?x < 4294967296" if "ov_type p \<in> {66, 72, 73, 76}"
    using that t r by auto
  have s: "cstr_at (dec_int ?x @ [0]) 0 = dec_int ?x" by (rule cstr_text) (rule dec_int_no_nul)
  have w: "int_wrap (ov_type p) ?x = ?x" by (rule int_wrap_val) (rule t)
  define v where "v = int_val p"
  note facts = t(2) l r i32 pos s w
  show ?thesis
    using t(1) facts unfolding v_def [symmetric] is_int_type_def insert_iff empty_iff
    by (elim disjE FalseE) (simp_all add: convertFromString_def Let_def scan_long_dec scan_ulong_dec int_val_def
        int_wrap_def v_put_v sint_of_int8 sint_of_int16 sint_of_int32 uint_word_of_int)
qed

lemma length_dec_nat: "n < 10 ^ Suc k \<Longrightarrow> length (dec_nat n) \<le> Suc k"
proof (induction k arbitrary: n)
  case 0
  then show ?case by (simp add: dec_nat.simps [of n])
next
  case (Suc k)
  then have "n div 10 < 10 ^ Suc k" by (simp add: div_less_iff_less_mult mult.commute)
  then show ?case using Suc.IH [of "n div 10"] by (simp add: dec_nat.simps [of n])
qed

lemma length_dec_int: "is_int_type (ov_type p) \<Longrightarrow> length (dec_int (int_val p)) \<le> 11"
proof -
  assume t: "is_int_type (ov_type p)"
  have "- 4294967296 < int_val p \<and> int_val p < 4294967296"
    using int_val_ranges [OF t refl] t by (auto simp: is_int_type_def int32_range_def)
  then have "nat (int_val p) < 10 ^ Suc 9" "nat (- int_val p) < 10 ^ Suc 9" by auto
  from this [THEN length_dec_nat] show ?thesis by (simp add: dec_int_def)
qed

text \<open>
  C32. an integer value turned into text in a large enough buffer and the text turned back into
  a value of the same type is the same integer.
\<close>

theorem integer_text_roundtrip:
  assumes "is_int_type (ov_type src)" and "ov_type dst = 115" and "12 \<le> n"
    and "ov_type back = ov_type src" and "length (ov_v back) = 8"
  shows "\<exists>tv b' p. owatchConvertValue (Some src) (Some dst) (Some b) n = (OK, Some tv, b', False)
    \<and> ov_str tv = Some (dec_int (int_val src) @ [0])
    \<and> owatchConvertValue (Some tv) (Some back) None 0 = (OK, Some p, None, False)
    \<and> int_val p = int_val src \<and> ov_time p = ov_time src"
proof -
  define tv where "tv = dst\<lparr>ov_str := Some (dec_int (int_val src) @ [0]),
      ov_len := int (length (dec_int (int_val src) @ [0])), ov_time := ov_time src\<rparr>"
  have one: "owatchConvertValue (Some src) (Some dst) (Some b) n
      = (OK, Some tv, put_buf (dec_int (int_val src) @ [0]) (Some b), False)"
    using assms length_dec_int [OF assms(1)] int_type_not_text [OF assms(1)]
    by (simp add: owatchConvertValue_def convert_string_def convertToString_def value_text_int tv_def Let_def)
  obtain r where r: "convertFromString (Some (dec_int (int_val src) @ [0])) (ov_type back) back = (OK, r, False)"
      "ov_type r = ov_type src" "int_val r = int_val src"
    using convertFromString_int [OF assms(1,4,5)] by blast
  have "convert_number tv back = (OK, r, False)"
    using r(1) assms(2) by (simp add: convert_number_def tv_def Let_def)
  then have "owatchConvertValue (Some tv) (Some back) None 0
      = (OK, Some (r\<lparr>ov_len := owatchGetValueLength r, ov_time := ov_time src\<rparr>), None, False)"
    using assms(1,4) r(2) int_type_len [OF assms(1), of r] int_type_not_text [OF assms(1)]
    by (simp add: owatchConvertValue_def tv_def)
  with one r(3) show ?thesis by (simp add: tv_def)
qed

definition val0 :: oval where "val0 = no_value\<lparr>ov_type := 104, ov_time := 5, ov_v := [0xFE, 0xFF, 0, 0, 0, 0, 0, 0]\<rparr>"


theorem integer_text_roundtrip_witness:
  "\<exists>tv b p. owatchConvertValue (Some val0) (Some (no_value\<lparr>ov_type := 115\<rparr>)) (Some (replicate 12 0)) 12 = (OK, Some tv, b, False)
    \<and> owatchConvertValue (Some tv) (Some (no_value\<lparr>ov_type := 104\<rparr>)) None 0 = (OK, Some p, None, False)
    \<and> int_val p = int_val val0"
  using integer_text_roundtrip [of val0 "no_value\<lparr>ov_type := 115\<rparr>" 12 "no_value\<lparr>ov_type := 104\<rparr>" "replicate 12 0"]
  by (auto simp: val0_def is_int_type_def no_value_def)

end
