(* ===== verification/WatchOp.thy ===== *)
theory WatchOp
  imports WatchVal
begin

text \<open>
  The operations of the watcher library (watch-op.c): the table of asynchronous operations, their
  chaining, completion and cancellation, the handlers the client installs. Waiting for an
  operation needs the poll and comes later. The function pointers stored in the table are names;
  what they do is a jump table, which the operations take as an argument, since a completion may
  run any other part of the library. The handlers of the client are names, too: their
  calls are recorded in \<open>ow_calls\<close>, and they are taken not to call the library back.
\<close>

section \<open>State\<close>

definition OWATCH_MAX_OP_HANDLERS :: nat where "OWATCH_MAX_OP_HANDLERS = 16"
definition OWATCH_MAX_OPS :: nat where "OWATCH_MAX_OPS = 8000"
definition OWATCH_MAX_IDLE_HANDLERS :: nat where "OWATCH_MAX_IDLE_HANDLERS = 8"
definition OWATCH_MAX_NAME :: nat where "OWATCH_MAX_NAME = 40"
definition OWATCH_MAX_PATH :: nat where "OWATCH_MAX_PATH = 140"

definition OWOP_ERROR :: int where "OWOP_ERROR = -1"
definition OWOP_OK :: int where "OWOP_OK = 0"
definition OWOP_ALL :: int where "OWOP_ALL = -2"
definition OWOP_NULL :: int where "OWOP_NULL = -3"
definition OWOP_SELF :: int where "OWOP_SELF = -4"

lemmas owop_defs = OWOP_ERROR_def OWOP_OK_def OWOP_ALL_def OWOP_NULL_def OWOP_SELF_def

definition OWATCH_NOWAIT :: int where "OWATCH_NOWAIT = 0"
definition OWATCH_FOREVER :: int where "OWATCH_FOREVER = -1"

definition OWATCH_ERR_OK :: int where "OWATCH_ERR_OK = 0"
definition OWATCH_ERR_PENDING :: int where "OWATCH_ERR_PENDING = 1"
definition OWATCH_ERR_ERROR :: int where "OWATCH_ERR_ERROR = -1"
definition OWATCH_ERR_INTERNAL :: int where "OWATCH_ERR_INTERNAL = -10"
definition OWATCH_ERR_CANCELLED :: int where "OWATCH_ERR_CANCELLED = -11"
definition OWATCH_ERR_FREEOP :: int where "OWATCH_ERR_FREEOP = -12"
definition OWATCH_ERR_NETWORK :: int where "OWATCH_ERR_NETWORK = -13"
definition OWATCH_ERR_REFUSED :: int where "OWATCH_ERR_REFUSED = -14"
definition OWATCH_ERR_SCREWED :: int where "OWATCH_ERR_SCREWED = -15"
definition OWATCH_ERR_INVALID :: int where "OWATCH_ERR_INVALID = -16"
definition OWATCH_ERR_TOOLATE :: int where "OWATCH_ERR_TOOLATE = -19"
definition OWATCH_ERR_NOSPACE :: int where "OWATCH_ERR_NOSPACE = -20"
definition OWATCH_ERR_NOINFO :: int where "OWATCH_ERR_NOINFO = -22"
definition OWATCH_ERR_NOTFOUND :: int where "OWATCH_ERR_NOTFOUND = -23"
definition OWATCH_ERR_MSG_TRUNC :: int where "OWATCH_ERR_MSG_TRUNC = -24"
definition OWATCH_ERR_RCVR_OFF :: int where "OWATCH_ERR_RCVR_OFF = -25"
definition OWATCH_ERR_RCVR_FULL :: int where "OWATCH_ERR_RCVR_FULL = -26"

definition OWATCH_OPT_CONNECT :: u32 where "OWATCH_OPT_CONNECT = 1"
definition OWATCH_OPT_DESC_INFO :: u32 where "OWATCH_OPT_DESC_INFO = 2"
definition OWATCH_OPT_OOID_INFO :: u32 where "OWATCH_OPT_OOID_INFO = 3"
definition OWATCH_OPT_OOID_MON :: u32 where "OWATCH_OPT_OOID_MON = 5"
definition OWATCH_OPT_WAIT_MON :: u32 where "OWATCH_OPT_WAIT_MON = 6"
definition OWATCH_OPT_SEND :: u32 where "OWATCH_OPT_SEND = 7"
definition OWATCH_OPT_WRITE :: u32 where "OWATCH_OPT_WRITE = 8"
definition OWATCH_OPT_READ :: u32 where "OWATCH_OPT_READ = 9"
definition OWATCH_OPT_TRIGGER :: u32 where "OWATCH_OPT_TRIGGER = 10"
definition OWATCH_OPT_COMBO_MON :: u32 where "OWATCH_OPT_COMBO_MON = 11"
definition OWATCH_OPT_MSG_SEND :: u32 where "OWATCH_OPT_MSG_SEND = 12"
definition OWATCH_OPT_MSG_RECV :: u32 where "OWATCH_OPT_MSG_RECV = 13"

datatype canceller = CancelConnection | CancelSecureSend | CancelTrigger | CancelGetInfo
  | CancelRead | CancelWrite | CancelMonitor | CancelMsgRecv

datatype chainer = LazyReadRequest | ReadGotDesc | LazyWriteRequest | WriteGotDesc | LazyInfoRequest
  | LazyMonRegRequest | AddMonitorGotDesc | LazyMonComboReq | MsgSendDone

datatype ophandler = UserHandler nat | OpDetacher | MonCheckInfo | MonBlockHandler | AutoMonitoringHandler

datatype opstate = OPS_FREE | OPS_PENDING | OPS_DONE

record oprec =
  or_op :: int
  or_state :: opstate
  or_err :: int
  or_data1 :: u32
  or_data2 :: u32
  or_canceller :: "canceller option"
  or_m_op :: int
  or_s_op :: int
  or_chainer :: "chainer option"
  or_param1 :: u32
  or_param2 :: u32
  or_handler :: "ophandler option"
  or_loc_param :: u32

definition zero_op :: oprec where
  "zero_op = \<lparr>or_op = 0, or_state = OPS_FREE, or_err = 0, or_data1 = 0, or_data2 = 0, or_canceller = None,
     or_m_op = 0, or_s_op = 0, or_chainer = None, or_param1 = 0, or_param2 = 0, or_handler = None, or_loc_param = 0\<rparr>"

text \<open>A call of a handler of the client.\<close>

datatype ucall = OpCall ophandler u32 int int | DataCall nat u32 u32 oval | AliveCall nat u32 bytes bytes
  | IdleCall nat | MsgCall nat u32 bytes bytes int int "bytes option" u32

datatype lazy_call = LazyData u32 | LazyAlive bytes bytes

text \<open>
  The connection with the hub is a \<open>peer\<close>, as in the other libraries. \<open>ow_ops\<close> is the table of
  operations, None before the start; entry 0 is not used. \<open>ow_aborted\<close> is set where the library
  ends the process, \<open>ow_fault\<close> where C leaves the behaviour undefined; \<open>ow_brk\<close> is the
  address the next allocated record gets.
\<close>

record watchop = peer +
  ow_ops :: "(nat \<Rightarrow> oprec) option"
  ow_free_count :: int
  ow_next_id :: u32
  ow_op_handlers :: "(ophandler \<times> u32) option list option"
  ow_async_timeout :: int
  ow_lazy :: bool
  ow_lazy_calls :: "lazy_call list"
  ow_idle :: "nat option list"
  ow_idle_qty :: nat
  ow_calls :: "ucall list"
  ow_brk :: u32
  ow_aborted :: bool
  ow_fault :: bool

definition ow_abort :: "'a watchop_scheme \<Rightarrow> oret \<times> 'a watchop_scheme" where
  "ow_abort s = (ERROR, s\<lparr>ow_aborted := True\<rparr>)"

definition ow_mark :: "bool \<Rightarrow> 'a watchop_scheme \<Rightarrow> 'a watchop_scheme" where
  "ow_mark b s = (if b then s\<lparr>ow_fault := True\<rparr> else s)"

definition ow_call :: "ucall \<Rightarrow> 'a watchop_scheme \<Rightarrow> 'a watchop_scheme" where
  "ow_call c s = s\<lparr>ow_calls := ow_calls s @ [c]\<rparr>"

text \<open>A fresh address for a record.\<close>

definition ow_new :: "'a watchop_scheme \<Rightarrow> u32 \<times> 'a watchop_scheme" where
  "ow_new s = (ow_brk s, s\<lparr>ow_brk := ow_brk s + 1\<rparr>)"

record 's jumps =
  j_cancel :: "canceller \<Rightarrow> int \<Rightarrow> u32 \<Rightarrow> u32 \<Rightarrow> 's \<Rightarrow> 's"
  j_chain :: "chainer \<Rightarrow> int \<Rightarrow> int \<Rightarrow> int \<Rightarrow> u32 \<Rightarrow> u32 \<Rightarrow> 's \<Rightarrow> 's"
  j_local :: "ophandler \<Rightarrow> u32 \<Rightarrow> int \<Rightarrow> int \<Rightarrow> 's \<Rightarrow> 's"

section \<open>The table\<close>

text \<open>
  The low 12 bits of an operation are its place in the table, the next 12 bits a counter that
  skips 0. The table has 8000 entries, so the place of an entry from 4096 on is cut.
\<close>

definition make_op :: "u32 \<Rightarrow> nat \<Rightarrow> int \<times> u32" where
  "make_op next no =
     (let n = (if next AND 0xfff = 0 then next + 1 else next)
      in (int no mod 4096 + uint (n AND 0xfff) * 4096, n + 1))"

definition op_no :: "int \<Rightarrow> nat" where "op_no op = nat (op mod 4096)"

definition the_ops :: "'a watchop_scheme \<Rightarrow> nat \<Rightarrow> oprec" where
  "the_ops s = (case ow_ops s of None \<Rightarrow> (\<lambda>_. zero_op) | Some r \<Rightarrow> r)"

definition upd_op :: "nat \<Rightarrow> (oprec \<Rightarrow> oprec) \<Rightarrow> 'a watchop_scheme \<Rightarrow> 'a watchop_scheme" where
  "upd_op no f s = s\<lparr>ow_ops := map_option (\<lambda>r. r(no := f (r no))) (ow_ops s)\<rparr>"

fun first_free_op :: "(nat \<Rightarrow> oprec) \<Rightarrow> nat \<Rightarrow> nat \<Rightarrow> nat option" where
  "first_free_op r 0 no = None"
| "first_free_op r (Suc k) no = (if or_state (r no) = OPS_FREE then Some no else first_free_op r k (Suc no))"

definition owatchAllocateOp :: "canceller option \<Rightarrow> u32 \<Rightarrow> u32 \<Rightarrow> 'a watchop_scheme \<Rightarrow> int \<times> 'a watchop_scheme" where
  "owatchAllocateOp pcanc data1 data2 s =
     (if ow_ops s = None \<or> ow_free_count s \<le> 0 then (OWOP_ERROR, s)
      else case first_free_op (the_ops s) (OWATCH_MAX_OPS - 1) 1 of
        None \<Rightarrow> (OWOP_ERROR, s)
      | Some no \<Rightarrow>
          let (op, nid) = make_op (ow_next_id s) no in
          (op, (upd_op no (\<lambda>_. \<lparr>or_op = op, or_state = OPS_PENDING, or_err = 0, or_data1 = data1, or_data2 = data2,
                  or_canceller = pcanc, or_m_op = OWOP_NULL, or_s_op = OWOP_NULL, or_chainer = None,
                  or_param1 = 0, or_param2 = 0, or_handler = None, or_loc_param = 0\<rparr>) s)
                \<lparr>ow_next_id := nid, ow_free_count := ow_free_count s - 1\<rparr>))"

text \<open>The place of the record of an operation, if the entry is in use; its number is not compared.\<close>

definition owatchGetOpRecord :: "int \<Rightarrow> 'a watchop_scheme \<Rightarrow> nat option" where
  "owatchGetOpRecord op s =
     (let no = op_no op in
      if no < 1 \<or> no \<ge> OWATCH_MAX_OPS \<or> ow_ops s = None \<or> or_state (the_ops s no) = OPS_FREE then None else Some no)"

definition find_op :: "int \<Rightarrow> 'a watchop_scheme \<Rightarrow> nat option" where
  "find_op op s = (case owatchGetOpRecord op s of
     None \<Rightarrow> None
   | Some no \<Rightarrow> if or_op (the_ops s no) = op then Some no else None)"

definition owatchIsValidOp :: "int \<Rightarrow> 'a watchop_scheme \<Rightarrow> bool" where
  "owatchIsValidOp op s =
     (let no = op_no op in
      \<not> (no < 1 \<or> no \<ge> OWATCH_MAX_OPS \<or> ow_ops s = None) \<and> or_state (the_ops s no) \<noteq> OPS_FREE
        \<and> or_op (the_ops s no) = op)"

definition owatchDeallocateOp :: "int \<Rightarrow> 'a watchop_scheme \<Rightarrow> oret \<times> 'a watchop_scheme" where
  "owatchDeallocateOp op s =
     (case owatchGetOpRecord op s of
        None \<Rightarrow> (ERROR, s)
      | Some no \<Rightarrow>
          (OK, (upd_op no (\<lambda>r. zero_op\<lparr>or_op := int (op_no (or_op r)), or_m_op := OWOP_NULL, or_s_op := OWOP_NULL\<rparr>) s)
                 \<lparr>ow_free_count := ow_free_count s + 1\<rparr>))"

text \<open>The test asks for \<open>s_op\<close> to be 0 (OWOP_OK), where an operation without a slave has OWOP_NULL.\<close>

definition owatchReuseSlaveOp ::
  "int \<Rightarrow> canceller option \<Rightarrow> u32 \<Rightarrow> u32 \<Rightarrow> 'a watchop_scheme \<Rightarrow> int \<times> 'a watchop_scheme" where
  "owatchReuseSlaveOp op pcanc data1 data2 s =
     (case find_op op s of
        None \<Rightarrow> ow_abort s
      | Some no \<Rightarrow>
          if or_s_op (the_ops s no) \<noteq> 0 \<or> or_m_op (the_ops s no) = OWOP_NULL then ow_abort s
          else
            let (op1, nid) = make_op (ow_next_id s) (op_no op) in
            (op1, (upd_op no (\<lambda>r. r\<lparr>or_op := op1, or_state := OPS_PENDING, or_err := 0, or_data1 := data1,
                                    or_data2 := data2, or_canceller := pcanc\<rparr>) s)\<lparr>ow_next_id := nid\<rparr>))"

definition owatchSetOpData :: "int \<Rightarrow> u32 \<Rightarrow> u32 \<Rightarrow> 'a watchop_scheme \<Rightarrow> oret \<times> 'a watchop_scheme" where
  "owatchSetOpData op data1 data2 s =
     (case find_op op s of
        None \<Rightarrow> (ERROR, s)
      | Some no \<Rightarrow> (OK, upd_op no (\<lambda>r. r\<lparr>or_data1 := data1, or_data2 := data2\<rparr>) s))"

definition owatchGetOpData :: "int \<Rightarrow> 'a watchop_scheme \<Rightarrow> oret \<times> u32 \<times> u32" where
  "owatchGetOpData op s =
     (case find_op op s of
        None \<Rightarrow> (ERROR, 0, 0)
      | Some no \<Rightarrow> (OK, or_data1 (the_ops s no), or_data2 (the_ops s no)))"

definition owatchFreeOpCount :: "'a watchop_scheme \<Rightarrow> int" where
  "owatchFreeOpCount s = ow_free_count s"

section \<open>Chains\<close>

text \<open>A master operation waits for a slave; when the slave ends the chainer of the master runs.\<close>

definition owatchChainOps ::
  "'a watchop_scheme jumps \<Rightarrow> int \<Rightarrow> int \<Rightarrow> chainer \<Rightarrow> u32 \<Rightarrow> u32 \<Rightarrow> 'a watchop_scheme \<Rightarrow> oret \<times> 'a watchop_scheme" where
  "owatchChainOps J m_op s_op chn param1 param2 s =
     (case owatchGetOpRecord m_op s of
        None \<Rightarrow> ow_abort s
      | Some m \<Rightarrow>
          if or_s_op (the_ops s m) \<noteq> OWOP_NULL then ow_abort s
          else
            let s1 = upd_op m (\<lambda>r. r\<lparr>or_chainer := Some chn, or_param1 := param1, or_param2 := param2\<rparr>) s in
            if s_op = OWOP_OK \<or> s_op = OWOP_ERROR then
              let s2 = j_chain J chn m_op s_op (if s_op = OWOP_OK then OK else ERROR) param1 param2
                         (upd_op m (\<lambda>r. r\<lparr>or_s_op := s_op\<rparr>) s1)
              in if or_s_op (the_ops s2 m) = s_op then ow_abort s2 else (OK, s2)
            else if s_op = OWOP_SELF then (OK, upd_op m (\<lambda>r. r\<lparr>or_s_op := s_op\<rparr>) s1)
            else if s_op = OWOP_ALL \<or> s_op = OWOP_NULL then ow_abort s1
            else case find_op s_op s1 of
              None \<Rightarrow> ow_abort s1
            | Some k \<Rightarrow>
                if or_m_op (the_ops s1 k) \<noteq> OWOP_NULL then ow_abort s1
                else (OK, upd_op k (\<lambda>r. r\<lparr>or_m_op := m_op\<rparr>) (upd_op m (\<lambda>r. r\<lparr>or_s_op := s_op\<rparr>) s1)))"

definition owatchUnchainOp :: "int \<Rightarrow> 'a watchop_scheme \<Rightarrow> oret \<times> 'a watchop_scheme" where
  "owatchUnchainOp m_op s =
     (case owatchGetOpRecord m_op s of
        None \<Rightarrow> ow_abort s
      | Some m \<Rightarrow>
          let s_op = or_s_op (the_ops s m) in
          if s_op = OWOP_NULL then ow_abort s
          else
            let s1 = upd_op m (\<lambda>r. r\<lparr>or_chainer := None, or_param1 := 0, or_param2 := 0, or_s_op := OWOP_NULL\<rparr>) s in
            if s_op = OWOP_OK \<or> s_op = OWOP_ERROR \<or> s_op = OWOP_SELF then (OK, s1)
            else if s_op = OWOP_ALL then ow_abort s1
            else case find_op s_op s1 of
              None \<Rightarrow> ow_abort s1
            | Some k \<Rightarrow>
                if or_m_op (the_ops s1 k) = 0 \<or> or_state (the_ops s1 k) \<noteq> OPS_DONE then ow_abort s1
                else (OK, snd (owatchDeallocateOp s_op (upd_op k (\<lambda>r. r\<lparr>or_m_op := OWOP_NULL\<rparr>) s1))))"

section \<open>Completion\<close>

definition call_ophandlers :: "int \<Rightarrow> int \<Rightarrow> 'a watchop_scheme \<Rightarrow> 'a watchop_scheme" where
  "call_ophandlers op err s =
     (case ow_op_handlers s of
        None \<Rightarrow> ow_mark True s
      | Some hs \<Rightarrow> s\<lparr>ow_calls := ow_calls s @ concat (map (\<lambda>h. case h of None \<Rightarrow> [] | Some (f, p) \<Rightarrow> [OpCall f p op err]) hs)\<rparr>)"

text \<open>The end of a completion: the handler given for this operation.\<close>

definition finish_local :: "'a watchop_scheme jumps \<Rightarrow> nat \<Rightarrow> int \<Rightarrow> int \<Rightarrow> 'a watchop_scheme \<Rightarrow> oret \<times> 'a watchop_scheme" where
  "finish_local J no op err s =
     (case or_handler (the_ops s no) of
        None \<Rightarrow> (OK, s)
      | Some h \<Rightarrow>
          let s1 = j_local J h (or_loc_param (the_ops s no)) op err s
          in (OK, if or_op (the_ops s1 no) = op then snd (owatchDeallocateOp op s1) else s1))"

text \<open>The step that informs the master; the flag tells whether the client's handlers are skipped.\<close>

definition finish_master ::
  "'a watchop_scheme jumps \<Rightarrow> nat \<Rightarrow> int \<Rightarrow> int \<Rightarrow> 'a watchop_scheme \<Rightarrow> (bool \<times> 'a watchop_scheme) option \<times> 'a watchop_scheme" where
  "finish_master J no op err s =
     (let m_op = or_m_op (the_ops s no) in
      if m_op = OWOP_NULL then (Some (False, s), s)
      else case find_op m_op s of
        None \<Rightarrow> (None, snd (ow_abort s))
      | Some m \<Rightarrow>
          (case or_chainer (the_ops s m) of
             None \<Rightarrow> (None, snd (ow_abort s))
           | Some chn \<Rightarrow>
               let s1 = j_chain J chn m_op op err (or_param1 (the_ops s m)) (or_param2 (the_ops s m)) s
               in if or_op (the_ops s1 no) = op \<or> or_s_op (the_ops s1 m) = op then (None, snd (ow_abort s1))
                  else (Some (or_handler (the_ops s1 no) \<noteq> None, s1), s1)))"

definition owatchFinalizeOp :: "'a watchop_scheme jumps \<Rightarrow> int \<Rightarrow> int \<Rightarrow> 'a watchop_scheme \<Rightarrow> oret \<times> 'a watchop_scheme" where
  "owatchFinalizeOp J op err s =
     (case find_op op s of
        None \<Rightarrow> (ERROR, s)
      | Some no \<Rightarrow>
          let r = the_ops s no in
          if or_state r \<noteq> OPS_PENDING \<or> err = OWATCH_ERR_PENDING
             \<or> (or_s_op r \<noteq> OWOP_NULL \<and> or_s_op r \<noteq> OWOP_SELF) then ow_abort s
          else
            let s1 = upd_op no (\<lambda>r. r\<lparr>or_state := OPS_DONE, or_err := err\<rparr>) s;
                self = (or_s_op r = OWOP_SELF);
                s2 = (if self then (case or_chainer r of
                         None \<Rightarrow> ow_mark True s1
                       | Some chn \<Rightarrow> j_chain J chn op OWOP_SELF err (or_param1 r) (or_param2 r) s1) else s1)
            in if self \<and> or_s_op (the_ops s2 no) = OWOP_SELF then ow_abort s2
               else if self \<and> or_m_op (the_ops s2 no) = OWOP_NULL then finish_local J no op err s2
               else case finish_master J no op err s2 of
                 (None, s3) \<Rightarrow> (ERROR, s3)
               | (Some (skip, s3), _) \<Rightarrow>
                   finish_local J no op err (if skip then s3 else call_ophandlers op err s3))"

section \<open>Cancelling\<close>

text \<open>
  The slaves of an operation are cancelled first. The recursion follows the chain, which is
  never longer than the table; the fuel is the size of the table.
\<close>

fun cancel_op :: "'a watchop_scheme jumps \<Rightarrow> nat \<Rightarrow> int \<Rightarrow> 'a watchop_scheme \<Rightarrow> oret \<times> 'a watchop_scheme" where
  "cancel_op J 0 op s = ow_abort s"
| "cancel_op J (Suc k) op s =
     (if op = OWOP_OK \<or> op = OWOP_ERROR \<or> ow_ops s = None then (ERROR, s)
      else case find_op op s of
        None \<Rightarrow> (ERROR, s)
      | Some no \<Rightarrow>
          let s_op = or_s_op (the_ops s no);
              s1 = (if s_op \<in> {OWOP_OK, OWOP_ERROR, OWOP_NULL, OWOP_ALL, OWOP_SELF} then s
                    else snd (cancel_op J k s_op s));
              r = the_ops s1 no
          in if or_state r = OPS_DONE then (ERROR, snd (owatchDeallocateOp op s1))
             else if or_state r \<noteq> OPS_PENDING then (ERROR, s1)
             else
               let s2 = (case or_canceller r of
                           None \<Rightarrow> s1
                         | Some c \<Rightarrow> j_cancel J c op (or_data1 r) (or_data2 r) s1);
                   s3 = snd (owatchFinalizeOp J op OWATCH_ERR_CANCELLED s2)
               in (OK, snd (owatchDeallocateOp op s3)))"

fun cancel_all :: "'a watchop_scheme jumps \<Rightarrow> nat \<Rightarrow> nat \<Rightarrow> 'a watchop_scheme \<Rightarrow> 'a watchop_scheme" where
  "cancel_all J 0 no s = s"
| "cancel_all J (Suc k) no s =
     cancel_all J k (Suc no) (snd (cancel_op J OWATCH_MAX_OPS (or_op (the_ops s no)) s))"

definition owatchCancelOp :: "'a watchop_scheme jumps \<Rightarrow> int \<Rightarrow> 'a watchop_scheme \<Rightarrow> oret \<times> 'a watchop_scheme" where
  "owatchCancelOp J op s =
     (if op = OWOP_OK \<or> op = OWOP_ERROR \<or> ow_ops s = None then (ERROR, s)
      else if op = OWOP_ALL then (OK, cancel_all J (OWATCH_MAX_OPS - 1) 1 s)
      else cancel_op J OWATCH_MAX_OPS op s)"

section \<open>Handlers\<close>

definition first_none :: "'b option list \<Rightarrow> nat option" where
  "first_none xs = find (\<lambda>i. xs ! i = None) [0..<length xs]"

definition owatchAddOpHandler :: "nat \<Rightarrow> u32 \<Rightarrow> 'a watchop_scheme \<Rightarrow> oret \<times> 'a watchop_scheme" where
  "owatchAddOpHandler f param s =
     (case ow_op_handlers s of
        None \<Rightarrow> (ERROR, s)
      | Some hs \<Rightarrow>
          (case first_none hs of
             None \<Rightarrow> (ERROR, s)
           | Some i \<Rightarrow> (OK, s\<lparr>ow_op_handlers := Some (hs[i := Some (UserHandler f, param)])\<rparr>)))"

definition owatchRemoveOpHandler :: "nat \<Rightarrow> 'a watchop_scheme \<Rightarrow> oret \<times> 'a watchop_scheme" where
  "owatchRemoveOpHandler f s =
     (case ow_op_handlers s of
        None \<Rightarrow> (ERROR, s)
      | Some hs \<Rightarrow>
          let mine = (\<lambda>h. case h of None \<Rightarrow> False | Some (g, p) \<Rightarrow> g = UserHandler f)
          in (if \<exists>h \<in> set hs. mine h then OK else ERROR,
              s\<lparr>ow_op_handlers := Some (map (\<lambda>h. if mine h then None else h) hs)\<rparr>))"

text \<open>
  The result of an operation that is done, as \<open>owatchWaitOp\<close> gives it: the code, and the entry is
  freed.
\<close>

definition take_result :: "int \<Rightarrow> nat \<Rightarrow> 'a watchop_scheme \<Rightarrow> oret \<times> int \<times> 'a watchop_scheme" where
  "take_result op no s =
     (let st = or_state (the_ops s no);
          err = (if or_err (the_ops s no) = 1 then OWATCH_ERR_INTERNAL else or_err (the_ops s no))
      in if st \<noteq> OPS_DONE then (ERROR, if st = OPS_FREE then OWATCH_ERR_FREEOP else OWATCH_ERR_INTERNAL, s)
         else (if err = OWATCH_ERR_OK then OK else ERROR, err, snd (owatchDeallocateOp op s)))"

definition owatchLocalOpHandler ::
  "'a watchop_scheme jumps \<Rightarrow> int \<Rightarrow> ophandler option \<Rightarrow> u32 \<Rightarrow> 'a watchop_scheme \<Rightarrow> oret \<times> 'a watchop_scheme" where
  "owatchLocalOpHandler J op phand param s =
     (if op = OWOP_ALL \<or> op = OWOP_NULL \<or> op = OWOP_SELF then (ERROR, s)
      else if op = OWOP_OK \<or> op = OWOP_ERROR then
        (case phand of
           None \<Rightarrow> (ERROR, s)
         | Some h \<Rightarrow> (OK, j_local J h param op (if op = OWOP_OK then OWATCH_ERR_OK else OWATCH_ERR_ERROR) s))
      else if \<not> owatchIsValidOp op s then (ERROR, s)
      else
        let no = op_no op; r = the_ops s no in
        case phand of
          None \<Rightarrow>
            if or_handler r = None then (ERROR, s)
            else (OK, upd_op no (\<lambda>r. r\<lparr>or_handler := None, or_loc_param := 0\<rparr>) s)
        | Some h \<Rightarrow>
            if or_handler r \<noteq> None then (ERROR, s)
            else if or_state r = OPS_DONE then
              (case take_result op no s of (_, err, s1) \<Rightarrow> (OK, j_local J h param op err s1))
            else (OK, upd_op no (\<lambda>r. r\<lparr>or_loc_param := param, or_handler := Some h\<rparr>) s))"

definition owatchDetachOp :: "'a watchop_scheme jumps \<Rightarrow> int \<Rightarrow> 'a watchop_scheme \<Rightarrow> oret \<times> 'a watchop_scheme" where
  "owatchDetachOp J op s = owatchLocalOpHandler J op (Some OpDetacher) 0 s"

definition owatchGetAsyncTimeout :: "'a watchop_scheme \<Rightarrow> int" where
  "owatchGetAsyncTimeout s = ow_async_timeout s"

definition owatchSetAsyncTimeout :: "int \<Rightarrow> 'a watchop_scheme \<Rightarrow> oret \<times> 'a watchop_scheme" where
  "owatchSetAsyncTimeout timeout s =
     (if timeout = OWATCH_NOWAIT \<or> timeout = OWATCH_FOREVER \<or> timeout > 0
      then (OK, s\<lparr>ow_async_timeout := timeout\<rparr>) else (ERROR, s))"

section \<open>Start and stop\<close>

definition owatchInitOperations :: "env \<Rightarrow> 'a watchop_scheme \<Rightarrow> oret \<times> 'a watchop_scheme" where
  "owatchInitOperations E s =
     (let s1 = s\<lparr>ow_next_id := 0x0ff8\<rparr> in
      if \<not> env_alloc E (8 * OWATCH_MAX_OP_HANDLERS) then (ERROR, s1\<lparr>ow_op_handlers := None\<rparr>)
      else
        let s2 = s1\<lparr>ow_op_handlers := Some (replicate OWATCH_MAX_OP_HANDLERS None)\<rparr> in
        if \<not> env_alloc E (52 * OWATCH_MAX_OPS) then (ERROR, s2\<lparr>ow_ops := None\<rparr>)
        else (OK, s2\<lparr>ow_ops := Some (\<lambda>_. zero_op), ow_free_count := int OWATCH_MAX_OPS\<rparr>))"

definition owatchExitOperations :: "'a watchop_scheme \<Rightarrow> 'a watchop_scheme" where
  "owatchExitOperations s =
     s\<lparr>ow_idle := replicate OWATCH_MAX_IDLE_HANDLERS None, ow_idle_qty := 0, ow_lazy_calls := [],
       ow_op_handlers := None, ow_ops := None, ow_free_count := 0\<rparr>"

section \<open>Lazy calls and idle handlers\<close>

definition owatchRecordLazyCall :: "env \<Rightarrow> lazy_call \<Rightarrow> 'a watchop_scheme \<Rightarrow> 'a watchop_scheme" where
  "owatchRecordLazyCall E c s = (ow_mark (\<not> env_alloc E 16) s)\<lparr>ow_lazy_calls := ow_lazy_calls s @ [c]\<rparr>"

definition owatchCallIdleHandler :: "'a watchop_scheme \<Rightarrow> 'a watchop_scheme" where
  "owatchCallIdleHandler s =
     s\<lparr>ow_calls := ow_calls s @ concat (map (\<lambda>h. case h of None \<Rightarrow> [] | Some f \<Rightarrow> [IdleCall f]) (take (ow_idle_qty s) (ow_idle s)))\<rparr>"

text \<open>Removing shifts the rest of the array left and looks at the next place, not at the one just filled.\<close>

fun remove_idle :: "nat \<Rightarrow> nat \<Rightarrow> nat \<Rightarrow> nat option list \<Rightarrow> nat \<Rightarrow> bool \<times> nat option list \<times> nat" where
  "remove_idle f 0 i hs q = (False, hs, q)"
| "remove_idle f (Suc k) i hs q =
     (if hs ! i = Some f
      then (case remove_idle f k (Suc i) (take i hs @ drop (Suc i) hs @ [None]) (q - 1) of (b, r) \<Rightarrow> (True, r))
      else remove_idle f k (Suc i) hs q)"

definition owatchRegisterIdleHandler :: "nat option \<Rightarrow> bool \<Rightarrow> 'a watchop_scheme \<Rightarrow> oret \<times> 'a watchop_scheme" where
  "owatchRegisterIdleHandler hand enable s =
     (case hand of
        None \<Rightarrow>
          if enable then (ERROR, s)
          else (OK, s\<lparr>ow_idle := replicate OWATCH_MAX_IDLE_HANDLERS None, ow_idle_qty := 0\<rparr>)
      | Some f \<Rightarrow>
          if enable then
            (if Some f \<in> set (ow_idle s) then (OK, s)
             else case first_none (ow_idle s) of
               None \<Rightarrow> (ERROR, s)
             | Some i \<Rightarrow> (OK, s\<lparr>ow_idle := (ow_idle s)[i := Some f], ow_idle_qty := max (ow_idle_qty s) (Suc i)\<rparr>))
          else
            (case remove_idle f OWATCH_MAX_IDLE_HANDLERS 0 (ow_idle s) (ow_idle_qty s) of
               (b, hs, q) \<Rightarrow> (if b then OK else ERROR, s\<lparr>ow_idle := hs, ow_idle_qty := q\<rparr>)))"

end
