(* ===== verification/WatchSend.thy ===== *)
theory WatchSend
  imports WatchOp
begin

text \<open>
  Sending in the watcher library (first part of watch-network.c): the stream and datagrams to
  the hub, and the sends that wait for the connection. The stream engine is the one of the hub.
\<close>

definition OWATCH_Q_SIZE :: nat where "OWATCH_Q_SIZE = 2200"
definition OWATCH_POLL_SIZE :: nat where "OWATCH_POLL_SIZE = 1000"
definition OWATCH_TOLERABLE_POLL_DEPTH :: int where "OWATCH_TOLERABLE_POLL_DEPTH = 1"

text \<open>A send that waits for the connection; the records are a doubly linked list, here a list.\<close>

record sendrec =
  sr_ptr :: u32
  sr_kind :: int
  sr_type :: int
  sr_len :: int
  sr_data :: "bytes option"
  sr_op :: int

text \<open>
  The globals of watch-network.c. The state \<open>OWATCH_CONN_*\<close> and the number of the watcher are
  \<open>p_state\<close> and \<open>p_id\<close>, the control address of the hub is \<open>cntl_addr\<close>. \<open>wn_poll_buf\<close> is
  None before the buffer is allocated.
\<close>

record watchsend = watchop +
  wn_conn_op :: int
  wn_cntl_sock :: int
  wn_data_addr :: sockaddr
  wn_my_addr :: sockaddr
  wn_ping_cur_ms :: int
  wn_ping_wd :: int
  wn_is_polling :: bool
  wn_poll_depth :: int
  wn_routine_ms :: int
  wn_poll_buf :: "packet list option"
  wn_poll_len :: int
  wn_poll_size :: nat
  wn_poll_rd :: nat
  wn_poll_wr :: nat
  wn_can_immed :: int
  wn_temp_id :: u16
  wn_sendrecs :: "sendrec list"
  wn_initialized :: bool
  wn_watcher_desc :: bytes

definition owatchIsConnected :: "'a watchsend_scheme \<Rightarrow> bool" where
  "owatchIsConnected s \<longleftrightarrow> p_state s = ST_OPEN"

definition owatchCheckSum :: "bytes \<Rightarrow> int \<Rightarrow> u16" where
  "owatchCheckSum buf nbytes = 0"

definition owatchPokeStream ::
  "env \<Rightarrow> int \<Rightarrow> int \<Rightarrow> bytes option \<Rightarrow> 'a peer_scheme \<Rightarrow> oret \<times> 'a peer_scheme" where
  "owatchPokeStream E ty len dp s = PokeStream E ty len dp s"

definition owatchResendStream :: "env \<Rightarrow> 'a peer_scheme \<Rightarrow> 'a peer_scheme" where
  "owatchResendStream E s = ResendStream E s"

text \<open>The watcher notes the time of a send on the stream also when it went out in part.\<close>

definition owatchSendPacket ::
  "env \<Rightarrow> int \<Rightarrow> int \<Rightarrow> int \<Rightarrow> bytes option \<Rightarrow> 'a watchsend_scheme \<Rightarrow> oret \<times> 'a watchsend_scheme" where
  "owatchSendPacket E kind ty len data s =
     (if len < 0 \<or> (len > 0 \<and> data = None) then (ERROR, s)
      else if kind = OLANG_CONTROL \<or> kind = OLANG_COMMAND then DatagramSend E ty len data s
      else if kind \<noteq> OLANG_DATA then (ERROR, s)
      else if q_len s = 0 \<and> reput_len s < 0 \<and> wn_can_immed s \<noteq> 0 \<and> (len < OLANG_SMALL_PACKET \<or> wn_can_immed s > 1) then
        let (rc, s1) = owatchPokeStream E ty len data s in
        if rc = OK then (OK, s1\<lparr>alive_put_wd := env_now E\<rparr>) else QueuePacket E ty len data s1
      else QueuePacket E ty len data s)"

section \<open>Sends that wait for the connection\<close>

definition owatchUnlinkSendRecord :: "u32 \<Rightarrow> 'a watchsend_scheme \<Rightarrow> 'a watchsend_scheme" where
  "owatchUnlinkSendRecord a s = s\<lparr>wn_sendrecs := filter (\<lambda>r. sr_ptr r \<noteq> a) (wn_sendrecs s)\<rparr>"

definition owatchCancelSecureSend :: "int \<Rightarrow> u32 \<Rightarrow> u32 \<Rightarrow> 'a watchsend_scheme \<Rightarrow> oret \<times> 'a watchsend_scheme" where
  "owatchCancelSecureSend op data1 data2 s =
     (if data2 = word_of_int OWOP_NULL \<or> data2 = word_of_int OWOP_SELF then (ERROR, s)
      else case find (\<lambda>r. sr_ptr r = data2) (wn_sendrecs s) of
        None \<Rightarrow> (ERROR, ow_mark (data2 \<noteq> 0) s)
      | Some r \<Rightarrow> if op \<noteq> sr_op r then (ERROR, s) else (OK, owatchUnlinkSendRecord data2 s))"

text \<open>
  The operation is given the field \<open>op\<close> of the record as its second datum, which is OWOP_NULL at
  that moment, so the canceller never finds the record.
\<close>

definition owatchSecureSend ::
  "env \<Rightarrow> int \<Rightarrow> int \<Rightarrow> int \<Rightarrow> bytes \<Rightarrow> 'a watchsend_scheme \<Rightarrow> int \<times> 'a watchsend_scheme" where
  "owatchSecureSend E kind ty len data s =
     (if p_state s = ST_OPEN \<and> p_id s \<noteq> 0 then
        (case owatchSendPacket E OLANG_DATA ty len (Some data) s of
           (rc, s1) \<Rightarrow> (if rc = OK then OWOP_OK else OWOP_ERROR, s1))
      else if \<not> env_alloc E 28 \<or> (len \<noteq> 0 \<and> \<not> env_alloc E (nat len)) then (OWOP_ERROR, s)
      else
        case ow_new s of (a, s1) \<Rightarrow>
        (case owatchAllocateOp (Some CancelSecureSend) OWATCH_OPT_SEND (word_of_int OWOP_NULL) s1 of
           (op, s2) \<Rightarrow>
             if op = OWOP_ERROR then (OWOP_ERROR, s2)
             else (op, s2\<lparr>wn_sendrecs := wn_sendrecs s2
                     @ [\<lparr>sr_ptr = a, sr_kind = kind, sr_type = ty, sr_len = len,
                         sr_data = (if len \<noteq> 0 then Some (rd_bytes E data 0 (nat len)) else None), sr_op = op\<rparr>]\<rparr>)))"

text \<open>
  After the hub's acknowledgement: the waiting packets go out in their order. One whose operation
  was cancelled is dropped; a record is never freed.
\<close>

fun resend_secure :: "env \<Rightarrow> 'a watchsend_scheme jumps \<Rightarrow> nat \<Rightarrow> 'a watchsend_scheme \<Rightarrow> 'a watchsend_scheme" where
  "resend_secure E J 0 s = s"
| "resend_secure E J (Suc k) s =
     (case wn_sendrecs s of
        [] \<Rightarrow> s
      | r # rs \<Rightarrow>
          let s1 = s\<lparr>wn_sendrecs := rs\<rparr> in
          if \<not> owatchIsValidOp (sr_op r) s1 then resend_secure E J k s1
          else case owatchSendPacket E (sr_kind r) (sr_type r) (sr_len r) (sr_data r) s1 of
            (rc, s2) \<Rightarrow>
              resend_secure E J k (snd (owatchFinalizeOp J (sr_op r) (if rc = OK then OWATCH_ERR_OK else OWATCH_ERR_NETWORK) s2)))"

section \<open>Pings\<close>

definition owatchPingHub :: "env \<Rightarrow> 'a watchsend_scheme \<Rightarrow> 'a watchsend_scheme" where
  "owatchPingHub E s =
     (let interval = wn_ping_cur_ms s; now = env_now E; delta = now - wn_ping_wd s in
      if delta \<ge> 0 \<and> delta < interval \<and> wn_ping_wd s \<noteq> 0 then s
      else
        let i1 = interval * 5 div 4 + 1; i2 = (if i1 > OLANG_PING_MAX_MS then OLANG_PING_MAX_MS else i1)
        in snd (owatchSendPacket E OLANG_CONTROL OLANG_PING_REQ 4
             (Some (st16 (OHTONS OLANG_VERSION) @ st16 0)) (s\<lparr>wn_ping_wd := now, wn_ping_cur_ms := i2\<rparr>)))"

end
