(* ===== verification/WatchInfo.thy ===== *)
theory WatchInfo
  imports WatchSend
begin

text \<open>
  Information about variables in the watcher library (watch-info.c): the cache, the requests to
  the hub and their replies. Records that other records point to lie in tables by their
  address; the \<open>info\<close> member of a read, write or monitor record is its first or only quark and has the
  address of the record. Addresses are given out in order and are not reused.
\<close>

section \<open>State\<close>

record owquark =
  wq_ooid :: u32
  wq_ptr :: byte
  wq_type :: byte
  wq_seg :: byte
  wq_len :: int
  wq_bit_off :: int
  wq_bit_len :: int
  wq_desc :: bytes

definition no_wquark :: owquark where
  "no_wquark = \<lparr>wq_ooid = 0, wq_ptr = 0, wq_type = 0, wq_seg = 0, wq_len = 0, wq_bit_off = 0, wq_bit_len = 0, wq_desc = []\<rparr>"

record getquark =
  gq_desc :: bytes
  gq_quark_p :: u32

record watchinfo = watchsend +
  wi_cache :: "owquark list"
  wi_cache_size :: nat
  wi_desc_hash :: tree_t
  wi_ooid_hash :: tree_t
  wi_reject_hash :: tree_t
  wi_quarks :: "u32 \<Rightarrow> owquark"
  wi_gets :: "u32 \<Rightarrow> getquark option"

definition put_quark :: "u32 \<Rightarrow> owquark \<Rightarrow> 'a watchinfo_scheme \<Rightarrow> 'a watchinfo_scheme" where
  "put_quark a q s = s\<lparr>wi_quarks := (wi_quarks s)(a := q)\<rparr>"

section \<open>The cache\<close>

definition owatchFlushInfoCache :: "'a watchinfo_scheme \<Rightarrow> 'a watchinfo_scheme" where
  "owatchFlushInfoCache s = s\<lparr>wi_cache := [], wi_cache_size := 0, wi_desc_hash := treeAlloc 0,
     wi_ooid_hash := treeAlloc NUMERIC_TREE, wi_reject_hash := treeAlloc 0\<rparr>"

definition cached_by_desc :: "bytes \<Rightarrow> 'a watchinfo_scheme \<Rightarrow> owquark option \<times> 'a watchinfo_scheme" where
  "cached_by_desc desc s =
     (case treeFind (wi_desc_hash s) desc of (found, no, t) \<Rightarrow>
        (if found then Some (wi_cache s ! nat no) else None, s\<lparr>wi_desc_hash := t\<rparr>))"

definition owatchFindCachedInfoByDesc :: "bytes \<Rightarrow> u32 \<Rightarrow> 'a watchinfo_scheme \<Rightarrow> oret \<times> 'a watchinfo_scheme" where
  "owatchFindCachedInfoByDesc desc quark_p s =
     (case cached_by_desc desc s of
        (None, s1) \<Rightarrow> (ERROR, s1)
      | (Some q, s1) \<Rightarrow> (OK, if quark_p \<noteq> 0 then put_quark quark_p q s1 else s1))"

definition owatchFindCachedInfoByOoid :: "u32 \<Rightarrow> u32 \<Rightarrow> 'a watchinfo_scheme \<Rightarrow> oret \<times> 'a watchinfo_scheme" where
  "owatchFindCachedInfoByOoid ooid quark_p s =
     (case treeNumFind (wi_ooid_hash s) (sint ooid) of (found, no, t) \<Rightarrow>
        let s1 = s\<lparr>wi_ooid_hash := t\<rparr> in
        if \<not> found then (ERROR, s1)
        else (OK, if quark_p \<noteq> 0 then put_quark quark_p (wi_cache s1 ! nat no) s1 else s1))"

text \<open>
  A failing allocation of the entry is a write through NULL. Failing to add the identifier is an
  error for the first description of a variable only. A quark has 168 bytes on the target.
\<close>

definition owatchAddInfoToCache :: "env \<Rightarrow> owquark \<Rightarrow> bool \<Rightarrow> 'a watchinfo_scheme \<Rightarrow> oret \<times> 'a watchinfo_scheme" where
  "owatchAddInfoToCache E q secondary s0 =
     (case cached_by_desc (wq_desc q) s0 of
        (Some _, s) \<Rightarrow> (OK, s)
      | (None, s) \<Rightarrow>
          let no = length (wi_cache s);
              grow = no + 2 > wi_cache_size s;
              new_size = wi_cache_size s * 2 + 2
          in if grow \<and> \<not> env_alloc E (4 * new_size) then (ERROR, s)
             else
               let s1 = (ow_mark (\<not> env_alloc E 168) s)\<lparr>wi_cache := wi_cache s @ [q],
                          wi_cache_size := (if grow then new_size else wi_cache_size s)\<rparr>
               in case treeAdd E (wi_desc_hash s1) (wq_desc q) (int no) of
                    None \<Rightarrow> (ERROR, ow_mark True s1)
                  | Some (rc1, t1) \<Rightarrow>
                      let (rc2, t2) = treeNumAdd E (wi_ooid_hash s1) (sint (wq_ooid q)) (int no)
                      in (if rc1 \<noteq> OK \<or> (rc2 \<noteq> OK \<and> \<not> secondary) then ERROR else OK,
                          s1\<lparr>wi_desc_hash := t1, wi_ooid_hash := t2\<rparr>))"

text \<open>
  A quark is kept under the description the hub gave it and under the one that was asked for; the
  caller's quark has the latter then. A refused description is noted.
\<close>

definition owatchUpdateInfoCache ::
  "env \<Rightarrow> bytes \<Rightarrow> owquark option \<Rightarrow> 'a watchinfo_scheme \<Rightarrow> owquark option \<times> 'a watchinfo_scheme" where
  "owatchUpdateInfoCache E desc quark_p s =
     (case quark_p of
        Some q \<Rightarrow>
          let s1 = snd (owatchAddInfoToCache E q False s) in
          if desc \<noteq> [] \<and> desc \<noteq> wq_desc q then
            let q1 = q\<lparr>wq_desc := desc\<rparr> in (Some q1, snd (owatchAddInfoToCache E q1 True s1))
          else (Some q, s1)
      | None \<Rightarrow>
          if desc \<noteq> [] then
            (case treeAdd E (wi_reject_hash s) desc 1 of
               None \<Rightarrow> (None, ow_mark True s)
             | Some (rc, t) \<Rightarrow> (None, s\<lparr>wi_reject_hash := t\<rparr>))
          else (None, s))"

section \<open>Replies\<close>

text \<open>The position after the description, the quark and the text of an error.\<close>

definition owatchUnpackInfoReply :: "env \<Rightarrow> bytes \<Rightarrow> nat \<Rightarrow> oret \<times> nat \<times> owquark \<times> bytes" where
  "owatchUnpackInfoReply E buf p =
     (let ooid = OROTL (ld32 E buf p) in
      if ooid = 0 then
        let n = min (unat (rd E buf (p + 4))) 38
        in (ERROR, p + 5 + n, no_wquark, takeWhile (\<lambda>c. c \<noteq> 0) (rd_bytes E buf (p + 5) n))
      else
        let n = nat (OUNTOHS (ld16 E buf (p + 14)));
            q = \<lparr>wq_ooid = ooid, wq_ptr = rd E buf (p + 6), wq_type = rd E buf (p + 7), wq_seg = rd E buf (p + 8),
                 wq_len = OUNTOHS (ld16 E buf (p + 4)), wq_bit_off = OUNTOHS (ld16 E buf (p + 10)),
                 wq_bit_len = OUNTOHS (ld16 E buf (p + 12)), wq_desc = []\<rparr>
        in if n > 0 \<and> n < OWATCH_MAX_PATH then
             let p1 = p + 16 + n
             in (OK, if odd p1 then p1 + 1 else p1,
                 q\<lparr>wq_desc := takeWhile (\<lambda>c. c \<noteq> 0) (rd_bytes E buf (p + 16) n)\<rparr>, [])
           else (ERROR, p + 16, q, []))"

definition free_get :: "u32 \<Rightarrow> 'a watchinfo_scheme \<Rightarrow> 'a watchinfo_scheme" where
  "free_get a s = s\<lparr>wi_gets := (wi_gets s)(a := None)\<rparr>"

definition owatchHandleGetInfoReply ::
  "env \<Rightarrow> 'a watchinfo_scheme jumps \<Rightarrow> int \<Rightarrow> bytes \<Rightarrow> 'a watchinfo_scheme \<Rightarrow> oret \<times> 'a watchinfo_scheme" where
  "owatchHandleGetInfoReply E J len buf s =
     (let op = ONTOHL (ld32 E buf 0) in
      if \<not> owatchIsValidOp op s then (ERROR, s)
      else case owatchGetOpData op s of (_, data1, a) \<Rightarrow>
        if (data1 \<noteq> OWATCH_OPT_DESC_INFO \<and> data1 \<noteq> OWATCH_OPT_OOID_INFO) \<or> a = 0 then (ERROR, s)
        else case wi_gets s a of
          None \<Rightarrow> (ERROR, ow_mark True s)
        | Some qrec \<Rightarrow>
            case owatchUnpackInfoReply E buf 4 of (rc, p, q, ermes) \<Rightarrow>
            let fail = (\<lambda>err s1. (ERROR, snd (owatchFinalizeOp J op err (free_get a s1)))) in
            if wq_ooid q = 0 then fail OWATCH_ERR_REFUSED (snd (owatchUpdateInfoCache E (gq_desc qrec) None s))
            else if wq_desc q = [] \<or> int p \<noteq> len then fail OWATCH_ERR_SCREWED s
            else
              let s1 = (if gq_quark_p qrec \<noteq> 0 then put_quark (gq_quark_p qrec) q s else s);
                  s2 = free_get a (snd (owatchUpdateInfoCache E (gq_desc qrec) (Some q) s1))
              in (OK, snd (owatchFinalizeOp J op OWATCH_ERR_OK s2)))"

section \<open>Requests\<close>

definition owatchLazyInfoRequest ::
  "'a watchinfo_scheme jumps \<Rightarrow> int \<Rightarrow> int \<Rightarrow> int \<Rightarrow> 'a watchinfo_scheme \<Rightarrow> 'a watchinfo_scheme" where
  "owatchLazyInfoRequest J m_op s_op err s =
     (let s1 = snd (owatchUnchainOp m_op s) in
      if err \<noteq> 0 then snd (owatchFinalizeOp J m_op err s1) else s1)"

definition owatchCancelGetInfoRequest :: "u32 \<Rightarrow> 'a watchinfo_scheme \<Rightarrow> 'a watchinfo_scheme" where
  "owatchCancelGetInfoRequest data2 s = free_get data2 (ow_mark (wi_gets s data2 = None) s)"

text \<open>
  The common end of a request: \<open>a\<close> is the record, \<open>m_op\<close> the operation, the packet begins with
  its number.
\<close>

definition send_info_request ::
  "env \<Rightarrow> 'a watchinfo_scheme jumps \<Rightarrow> int \<Rightarrow> bytes \<Rightarrow> u32 \<Rightarrow> u32 \<Rightarrow> int \<Rightarrow> u32 \<Rightarrow> 'a watchinfo_scheme \<Rightarrow> int \<times> 'a watchinfo_scheme" where
  "send_info_request E J ty body param1 param2 m_op a s =
     (case owatchSecureSend E OLANG_DATA ty (4 + int (length body))
             (st32 (OHTONL (word_of_int m_op)) @ body) s of
        (s_op, s1) \<Rightarrow>
          if s_op = OWOP_ERROR then (OWOP_ERROR, free_get a (snd (owatchDeallocateOp m_op s1)))
          else (m_op, if s_op = OWOP_OK then s1
                      else snd (owatchChainOps J m_op s_op LazyInfoRequest param1 param2 s1)))"

text \<open>
  The description is copied into the record of 140 bytes before its length is looked at. A failed
  request clears the caller's quark; a refused description does not.
\<close>

definition owatchNowaitGetInfoByDesc ::
  "env \<Rightarrow> 'a watchinfo_scheme jumps \<Rightarrow> bytes \<Rightarrow> u32 \<Rightarrow> 'a watchinfo_scheme \<Rightarrow> int \<times> 'a watchinfo_scheme" where
  "owatchNowaitGetInfoByDesc E J desc quark_p s0 =
     (let clear = (\<lambda>s. if quark_p \<noteq> 0 then put_quark quark_p no_wquark s else s);
          fail = (\<lambda>s. (OWOP_ERROR, clear s)) in
      if desc = [] \<or> quark_p = 0 then fail s0
      else case owatchFindCachedInfoByDesc desc quark_p s0 of (rc, s1) \<Rightarrow>
        if rc = OK then (OWOP_OK, s1)
        else case treeFind (wi_reject_hash s1) desc of (found, n, t) \<Rightarrow>
          let s2 = s1\<lparr>wi_reject_hash := t\<rparr> in
          if found then (OWOP_ERROR, s2)
          else
            let s3 = clear s2 in
            if owatchFreeOpCount s3 < 2 \<or> \<not> env_alloc E 144 then fail s3
            else case ow_new s3 of (a, s4) \<Rightarrow>
              let s5 = (ow_mark (length desc \<ge> OWATCH_MAX_PATH) s4)
                         \<lparr>wi_gets := (wi_gets s4)(a := Some \<lparr>gq_desc = desc, gq_quark_p = quark_p\<rparr>)\<rparr>
              in case owatchAllocateOp (Some CancelGetInfo) OWATCH_OPT_DESC_INFO a s5 of (m_op, s6) \<Rightarrow>
                if m_op = OWOP_ERROR then fail (free_get a s6)
                else if length desc > 255 \<or> length desc + 6 > OWATCH_MAX_PATH + 8
                then fail (free_get a (snd (owatchDeallocateOp m_op s6)))
                else case ow_new s6 of (str, s7) \<Rightarrow>
                  case send_info_request E J OLANG_INFO_BY_DESC_REQ (of_nat (length desc) # desc) str 0 m_op a s7 of
                    (op, s8) \<Rightarrow> if op = OWOP_ERROR then fail s8 else (op, s8))"

definition owatchNowaitGetInfoByOoid ::
  "env \<Rightarrow> 'a watchinfo_scheme jumps \<Rightarrow> u32 \<Rightarrow> u32 \<Rightarrow> 'a watchinfo_scheme \<Rightarrow> int \<times> 'a watchinfo_scheme" where
  "owatchNowaitGetInfoByOoid E J ooid quark_p s0 =
     (let clear = (\<lambda>s. if quark_p \<noteq> 0 then put_quark quark_p no_wquark s else s);
          fail = (\<lambda>s. (OWOP_ERROR, clear s)) in
      if ooid = 0 \<or> quark_p = 0 then fail s0
      else case owatchFindCachedInfoByOoid ooid quark_p s0 of (rc, s1) \<Rightarrow>
        if rc = OK then (OWOP_OK, s1)
        else
          let s2 = clear s1 in
          if \<not> env_alloc E 144 then fail s2
          else case ow_new s2 of (a, s3) \<Rightarrow>
            let s4 = s3\<lparr>wi_gets := (wi_gets s3)(a := Some \<lparr>gq_desc = [], gq_quark_p = quark_p\<rparr>)\<rparr>
            in case owatchAllocateOp (Some CancelGetInfo) OWATCH_OPT_OOID_INFO a s4 of (m_op, s5) \<Rightarrow>
              if m_op = OWOP_ERROR then fail (free_get a s5)
              else case send_info_request E J OLANG_INFO_BY_OOID_REQ (st32 (OHTONL ooid)) 0 ooid m_op a s5 of
                (op, s6) \<Rightarrow> if op = OWOP_ERROR then fail s6 else (op, s6))"

end
