(* ===== verification/WatchSubj.thy ===== *)
theory WatchSubj
  imports WatchInfo
begin

text \<open>
  Subjects in the watcher library (watch-subject.c): the states of the agents the hub announces,
  the handlers of changes, and the requests that make the hub connect to an agent.
\<close>

section \<open>State\<close>

definition OWATCH_MAX_ALIVE_HANDLERS :: nat where "OWATCH_MAX_ALIVE_HANDLERS = 16"
definition OWATCH_MAX_TRIGGER :: nat where "OWATCH_MAX_TRIGGER = 16"
definition OWATCH_TRIGGER_TIMEOUT_MS :: int where "OWATCH_TRIGGER_TIMEOUT_MS = 320"

text \<open>\<open>80\<close> is the availability \<open>P\<close>, permanent; the state of a subject that is off is empty.\<close>

record wsubject =
  ws_name :: bytes
  ws_state :: bytes
  ws_avail :: byte

record wtrigger =
  tr_op :: int
  tr_watchdog :: int
  tr_subject :: bytes

record watchsubj = watchinfo +
  wb_subjects :: "wsubject list"
  wb_alive_handlers :: "(nat \<times> u32) option list option"
  wb_conn_alive :: bool
  wb_domain_full :: bool
  wb_triggers :: "wtrigger list"
  wb_trigger_qty :: int

definition owatchInitSubjects :: "env \<Rightarrow> 'a watchsubj_scheme \<Rightarrow> oret \<times> 'a watchsubj_scheme" where
  "owatchInitSubjects E s =
     (if env_alloc E (8 * OWATCH_MAX_ALIVE_HANDLERS)
      then (OK, s\<lparr>wb_alive_handlers := Some (replicate OWATCH_MAX_ALIVE_HANDLERS None)\<rparr>)
      else (ERROR, s\<lparr>wb_alive_handlers := None\<rparr>))"

definition owatchExitSubjects :: "'a watchsubj_scheme \<Rightarrow> 'a watchsubj_scheme" where
  "owatchExitSubjects s =
     s\<lparr>wb_conn_alive := False, wb_domain_full := False, wb_alive_handlers := None, wb_subjects := []\<rparr>"

section \<open>Changes\<close>

definition call_alive :: "bytes \<Rightarrow> bytes \<Rightarrow> 'a watchsubj_scheme \<Rightarrow> 'a watchsubj_scheme" where
  "call_alive name state s =
     (case wb_alive_handlers s of
        None \<Rightarrow> ow_mark True s
      | Some hs \<Rightarrow>
          s\<lparr>ow_calls := ow_calls s @ concat (map (\<lambda>h. case h of None \<Rightarrow> [] | Some (f, p) \<Rightarrow> [AliveCall f p name state]) hs)\<rparr>)"

definition owatchLazyCallAliveHandlers :: "env \<Rightarrow> bytes \<Rightarrow> bytes \<Rightarrow> 'a watchsubj_scheme \<Rightarrow> 'a watchsubj_scheme" where
  "owatchLazyCallAliveHandlers E name state s =
     (if ow_lazy s then
        owatchRecordLazyCall E (LazyAlive name state) (ow_mark (\<not> env_alloc E (length name + length state + 2)) s)
      else call_alive name state s)"

definition owatchCallAliveHandlers :: "bytes \<Rightarrow> bytes \<Rightarrow> 'a watchsubj_scheme \<Rightarrow> 'a watchsubj_scheme" where
  "owatchCallAliveHandlers name state s = call_alive name state s"

text \<open>The state of the connection, under the name \<open>*\<close> (42).\<close>

definition set_conn_state :: "env \<Rightarrow> bytes option \<Rightarrow> 'a watchsubj_scheme \<Rightarrow> oret \<times> 'a watchsubj_scheme" where
  "set_conn_state E state s =
     (let alive = (state \<noteq> None \<and> state \<noteq> Some []) in
      if alive = wb_conn_alive s then (OK, s)
      else
        let s1 = s\<lparr>wb_conn_alive := alive\<rparr>;
            s2 = (if alive then s1 else owatchFlushInfoCache s1)
        in (OK, owatchLazyCallAliveHandlers E [42] (if alive then [42] else []) s2))"

text \<open>
  Removing a subject moves the names and states behind it one place down, not their
  availability, and reads one entry behind the array.
\<close>

definition remove_subject :: "nat \<Rightarrow> 'a watchsubj_scheme \<Rightarrow> 'a watchsubj_scheme" where
  "remove_subject i s =
     (let us = wb_subjects s; n = length us in
      (ow_mark True s)\<lparr>wb_subjects := map (\<lambda>j. if j < i then us ! j
         else (us ! j)\<lparr>ws_name := ws_name (us ! Suc j), ws_state := ws_state (us ! Suc j)\<rparr>) [0..<n - 1]\<rparr>)"

text \<open>A change of one subject; \<open>+\<close> (43) stands for the whole domain.\<close>

definition change_subject :: "env \<Rightarrow> nat \<Rightarrow> bytes \<Rightarrow> bytes \<Rightarrow> byte \<Rightarrow> 'a watchsubj_scheme \<Rightarrow> 'a watchsubj_scheme" where
  "change_subject E i name state avail s0 =
     (let upd = (\<lambda>f s. s\<lparr>wb_subjects := (wb_subjects s)[i := f (wb_subjects s ! i)]\<rparr>);
          alive = (state \<noteq> []);
          s = (if avail \<noteq> 0 then upd (\<lambda>u. u\<lparr>ws_avail := avail\<rparr>) s0 else s0);
          permanent = (ws_avail (wb_subjects s ! i) = 80)
      in if state = ws_state (wb_subjects s ! i) then s
         else
           let s1 = (if wb_domain_full s \<and> \<not> alive \<and> permanent
                     then owatchLazyCallAliveHandlers E [43] [] (s\<lparr>wb_domain_full := False\<rparr>) else s);
               s2 = owatchLazyCallAliveHandlers E name state
                      (upd (\<lambda>u. u\<lparr>ws_state := state\<rparr>) (ow_mark (length state \<ge> OWATCH_MAX_NAME) s1))
           in if \<not> wb_domain_full s2 \<and> alive \<and> permanent
              then owatchLazyCallAliveHandlers E [43] [43] (s2\<lparr>wb_domain_full := True\<rparr>) else s2)"

definition find_wsubject :: "bytes \<Rightarrow> 'a watchsubj_scheme \<Rightarrow> nat option" where
  "find_wsubject name s = find (\<lambda>i. ws_name (wb_subjects s ! i) = name) [0..<length (wb_subjects s)]"

text \<open>A new subject starts in a state that differs from the one it is to take.\<close>

definition fresh_subject :: "bytes \<Rightarrow> bytes \<Rightarrow> wsubject" where
  "fresh_subject name state = \<lparr>ws_name = name,
     ws_state = (let c = (if state = [] then 0 else hd state) + 1 in if c = 0 then [] else [c]), ws_avail = 0\<rparr>"

definition owatchSetSubjectState ::
  "env \<Rightarrow> bytes \<Rightarrow> bytes option \<Rightarrow> byte \<Rightarrow> 'a watchsubj_scheme \<Rightarrow> oret \<times> 'a watchsubj_scheme" where
  "owatchSetSubjectState E name state avail s =
     (if name = [] then (ERROR, s)
      else if name = [42] then set_conn_state E state s
      else
        let removal = (state = None); st = the_bytes state in
        case find_wsubject name s of
          Some i \<Rightarrow>
            let s1 = change_subject E i name st avail s
            in (OK, if removal then remove_subject i s1 else s1)
        | None \<Rightarrow>
            if removal \<or> \<not> env_alloc E (81 * (length (wb_subjects s) + 1)) then (ERROR, s)
            else (OK, change_subject E (length (wb_subjects s)) name st avail
                   ((ow_mark (length name \<ge> OWATCH_MAX_NAME) s)\<lparr>wb_subjects := wb_subjects s @ [fresh_subject name st]\<rparr>)))"

section \<open>The hub's announcement\<close>

text \<open>Lengths and counts are printable: 40 is added. Names and states are at most 40 bytes long.\<close>

definition rd_count :: "env \<Rightarrow> bytes \<Rightarrow> nat \<Rightarrow> int" where
  "rd_count E buf p = sint (rd E buf p) - 40"

fun check_subjects :: "env \<Rightarrow> bytes \<Rightarrow> int \<Rightarrow> nat \<Rightarrow> nat \<Rightarrow> nat \<Rightarrow> bool" where
  "check_subjects E buf len 0 i p = True"
| "check_subjects E buf len (Suc k) i p =
     (let q = rd_count E buf p; p1 = int p + 1 + q + 1 + (if even i then 2 else 0) in
      if q > int OWATCH_MAX_NAME \<or> q < 0 \<or> p1 > len then False
      else check_subjects E buf len k (Suc i) (nat p1))"

fun take_subjects :: "env \<Rightarrow> bytes \<Rightarrow> nat \<Rightarrow> nat \<Rightarrow> 'a watchsubj_scheme \<Rightarrow> 'a watchsubj_scheme" where
  "take_subjects E buf 0 p s = s"
| "take_subjects E buf (Suc k) p s =
     (let q1 = nat (rd_count E buf p);
          name = takeWhile (\<lambda>c. c \<noteq> 0) (rd_bytes E buf (p + 1) q1);
          p2 = p + 1 + q1 + 1;
          avail = rd E buf p2;
          q2 = nat (rd_count E buf (p2 + 2));
          state = takeWhile (\<lambda>c. c \<noteq> 0) (rd_bytes E buf (p2 + 3) q2);
          s1 = ow_mark (q1 \<ge> OWATCH_MAX_NAME \<or> q2 \<ge> OWATCH_MAX_NAME) s
      in take_subjects E buf k (p2 + 3 + q2 + 1) (snd (owatchSetSubjectState E name (Some state) avail s1)))"

definition owatchHandleSubjects :: "env \<Rightarrow> int \<Rightarrow> bytes \<Rightarrow> 'a watchsubj_scheme \<Rightarrow> oret \<times> 'a watchsubj_scheme" where
  "owatchHandleSubjects E len buf s =
     (let f = rd_count E buf 0; n = rd_count E buf 1 in
      if n < 1 \<or> f < 0 \<or> f > 1 \<or> \<not> check_subjects E buf len (nat (n + n)) 0 2 then (ERROR, s)
      else (OK, take_subjects E buf (nat n) 2 (if f \<noteq> 0 then s\<lparr>wb_subjects := []\<rparr> else s)))"

section \<open>Questions of the client\<close>

fun join_names :: "bytes list \<Rightarrow> int \<Rightarrow> bytes option" where
  "join_names [] buf_len = Some []"
| "join_names (nm # nms) buf_len =
     (let n = int (length nm) + 1 in
      if n \<ge> buf_len then None
      else map_option (\<lambda>r. nm @ (if nms = [] then [] else [32]) @ r) (join_names nms (buf_len - n)))"

definition owatchGetSubjectList :: "int \<Rightarrow> 'a watchsubj_scheme \<Rightarrow> oret \<times> bytes" where
  "owatchGetSubjectList buf_len s =
     (case join_names (map ws_name (wb_subjects s)) buf_len of
        None \<Rightarrow> (ERROR, [])
      | Some r \<Rightarrow> (OK, r))"

definition owatchGetSubjectState :: "bytes \<Rightarrow> 'a watchsubj_scheme \<Rightarrow> bytes" where
  "owatchGetSubjectState name s =
     (if name = [] \<or> \<not> wn_initialized s then []
      else if name = [63] then [63]
      else if name = [42] then (if wb_conn_alive s then [42] else [])
      else if name = [43] then (if wb_domain_full s then [43] else [])
      else case find_wsubject name s of
        None \<Rightarrow> []
      | Some i \<Rightarrow> ws_state (wb_subjects s ! i))"

definition owatchGetAlive :: "bytes \<Rightarrow> 'a watchsubj_scheme \<Rightarrow> bool" where
  "owatchGetAlive name s \<longleftrightarrow> owatchGetSubjectState name s \<noteq> []"

definition owatchAddAliveHandler :: "nat \<Rightarrow> u32 \<Rightarrow> 'a watchsubj_scheme \<Rightarrow> oret \<times> 'a watchsubj_scheme" where
  "owatchAddAliveHandler f param s =
     (case wb_alive_handlers s of
        None \<Rightarrow> (ERROR, s)
      | Some hs \<Rightarrow>
          (case first_none hs of
             None \<Rightarrow> (ERROR, s)
           | Some i \<Rightarrow> (OK, s\<lparr>wb_alive_handlers := Some (hs[i := Some (f, param)])\<rparr>)))"

definition owatchRemoveAliveHandler :: "nat \<Rightarrow> 'a watchsubj_scheme \<Rightarrow> oret \<times> 'a watchsubj_scheme" where
  "owatchRemoveAliveHandler f s =
     (case wb_alive_handlers s of
        None \<Rightarrow> (ERROR, s)
      | Some hs \<Rightarrow>
          let mine = (\<lambda>h. case h of None \<Rightarrow> False | Some (g, p) \<Rightarrow> g = f)
          in (if \<exists>h \<in> set hs. mine h then OK else ERROR,
              s\<lparr>wb_alive_handlers := Some (map (\<lambda>h. if mine h then None else h) hs)\<rparr>))"

section \<open>Triggers\<close>

definition clear_trigger :: "nat \<Rightarrow> 'a watchsubj_scheme \<Rightarrow> 'a watchsubj_scheme" where
  "clear_trigger no s =
     s\<lparr>wb_triggers := (wb_triggers s)[no := (wb_triggers s ! no)\<lparr>tr_op := OWOP_NULL, tr_watchdog := 0\<rparr>]\<rparr>"

definition owatchClearTriggers :: "'a watchsubj_scheme \<Rightarrow> 'a watchsubj_scheme" where
  "owatchClearTriggers s =
     s\<lparr>wb_triggers := map (\<lambda>t. t\<lparr>tr_op := OWOP_NULL, tr_watchdog := 0\<rparr>) (wb_triggers s), wb_trigger_qty := 0\<rparr>"

fun cancel_triggers :: "'a watchsubj_scheme jumps \<Rightarrow> nat \<Rightarrow> nat \<Rightarrow> 'a watchsubj_scheme \<Rightarrow> 'a watchsubj_scheme" where
  "cancel_triggers J 0 no s = s"
| "cancel_triggers J (Suc k) no s =
     cancel_triggers J k (Suc no)
       (if tr_op (wb_triggers s ! no) \<noteq> OWOP_NULL
        then clear_trigger no (snd (owatchFinalizeOp J (tr_op (wb_triggers s ! no)) OWATCH_ERR_NETWORK s)) else s)"

definition owatchCancelAllTriggers :: "'a watchsubj_scheme jumps \<Rightarrow> 'a watchsubj_scheme \<Rightarrow> 'a watchsubj_scheme" where
  "owatchCancelAllTriggers J s = (cancel_triggers J OWATCH_MAX_TRIGGER 0 s)\<lparr>wb_trigger_qty := 0\<rparr>"

definition trigger_code :: "int \<Rightarrow> int" where
  "trigger_code err =
     (if err = 0 then OWATCH_ERR_OK else if err = 1 then OWATCH_ERR_NOTFOUND
      else if err = 2 then OWATCH_ERR_REFUSED else if err = 3 then OWATCH_ERR_INTERNAL else OWATCH_ERR_SCREWED)"

definition owatchHandleTriggerReply ::
  "env \<Rightarrow> 'a watchsubj_scheme jumps \<Rightarrow> int \<Rightarrow> bytes \<Rightarrow> 'a watchsubj_scheme \<Rightarrow> oret \<times> 'a watchsubj_scheme" where
  "owatchHandleTriggerReply E J len buf s =
     (let op = ONTOHL (ld32 E buf 0); err = ONTOHS (ld16 E buf 4) in
      if len \<noteq> 6 \<or> \<not> owatchIsValidOp op s then (ERROR, s)
      else case owatchGetOpData op s of (_, data1, data2) \<Rightarrow>
        let no = sint data2 in
        if data1 \<noteq> OWATCH_OPT_TRIGGER \<or> no < 1 \<or> no \<ge> int OWATCH_MAX_TRIGGER
           \<or> tr_op (wb_triggers s ! nat no) = OWOP_NULL \<or> tr_op (wb_triggers s ! nat no) \<noteq> op then (ERROR, s)
        else
          let s1 = (clear_trigger (nat no) s)\<lparr>wb_trigger_qty := wb_trigger_qty s - 1\<rparr>
          in (OK, snd (owatchFinalizeOp J op (trigger_code err) s1)))"

fun trigger_timeouts :: "env \<Rightarrow> 'a watchsubj_scheme jumps \<Rightarrow> nat \<Rightarrow> nat \<Rightarrow> 'a watchsubj_scheme \<Rightarrow> 'a watchsubj_scheme" where
  "trigger_timeouts E J 0 no s = s"
| "trigger_timeouts E J (Suc k) no s =
     (let t = wb_triggers s ! no in
      if tr_op t = OWOP_NULL \<or> env_now E - tr_watchdog t < 0 then trigger_timeouts E J k (Suc no) s
      else
        let s1 = clear_trigger no (snd (owatchFinalizeOp J (tr_op t) OWATCH_ERR_TOOLATE s));
            s2 = s1\<lparr>wb_trigger_qty := wb_trigger_qty s1 - 1\<rparr>
        in if wb_trigger_qty s2 \<le> 0 then s2 else trigger_timeouts E J k (Suc no) s2)"

definition owatchHandleTriggerTimeouts :: "env \<Rightarrow> 'a watchsubj_scheme jumps \<Rightarrow> 'a watchsubj_scheme \<Rightarrow> 'a watchsubj_scheme" where
  "owatchHandleTriggerTimeouts E J s =
     (if wb_trigger_qty s \<le> 0 then s else trigger_timeouts E J OWATCH_MAX_TRIGGER 0 s)"

definition owatchTriggerSubjectCanceller :: "u32 \<Rightarrow> 'a watchsubj_scheme \<Rightarrow> 'a watchsubj_scheme" where
  "owatchTriggerSubjectCanceller data2 s =
     (clear_trigger (unat data2) s)\<lparr>wb_trigger_qty := wb_trigger_qty s - 1\<rparr>"

text \<open>
  The entry is taken (with the operation OWOP_OK) before the operation is allocated. When the send
  fails the operation is finished, and given to the client, who can still ask for its result.
\<close>

definition owatchTriggerSubject ::
  "env \<Rightarrow> 'a watchsubj_scheme jumps \<Rightarrow> bytes \<Rightarrow> 'a watchsubj_scheme \<Rightarrow> int \<times> 'a watchsubj_scheme" where
  "owatchTriggerSubject E J subject s =
     (if subject = [] \<or> length subject + 1 \<ge> OWATCH_MAX_NAME then (OWOP_ERROR, s)
      else case find_wsubject subject s of
        None \<Rightarrow> (OWOP_ERROR, s)
      | Some i \<Rightarrow>
          if ws_state (wb_subjects s ! i) \<noteq> [] then (OWOP_OK, s)
          else if \<exists>t \<in> set (tl (wb_triggers s)). tr_op t \<noteq> OWOP_NULL \<and> tr_subject t = subject then (OWOP_ERROR, s)
          else case find (\<lambda>no. tr_op (wb_triggers s ! no) = OWOP_NULL) [1..<OWATCH_MAX_TRIGGER] of
            None \<Rightarrow> (OWOP_ERROR, s)
          | Some no \<Rightarrow>
              let s1 = s\<lparr>wb_triggers := (wb_triggers s)[no := (wb_triggers s ! no)\<lparr>tr_op := OWOP_OK, tr_watchdog := 0\<rparr>]\<rparr>
              in case owatchAllocateOp (Some CancelTrigger) OWATCH_OPT_TRIGGER (of_nat no) s1 of (op, s2) \<Rightarrow>
                if op = OWOP_ERROR then (OWOP_ERROR, clear_trigger no s2)
                else case owatchSendPacket E OLANG_DATA OLANG_TRIGGER_REQUEST (4 + int (length subject))
                            (Some (st32 (OHTONL (word_of_int op)) @ subject)) s2 of (rc, s3) \<Rightarrow>
                  if rc \<noteq> OK then (op, clear_trigger no (snd (owatchFinalizeOp J op OWATCH_ERR_NETWORK s3)))
                  else (op, s3\<lparr>wb_triggers := (wb_triggers s3)[no := \<lparr>tr_op = op,
                               tr_watchdog = env_now E + OWATCH_TRIGGER_TIMEOUT_MS, tr_subject = subject\<rparr>],
                             wb_trigger_qty := wb_trigger_qty s3 + 1\<rparr>))"

end
