(* ===== verification/WatchMon.thy ===== *)
theory WatchMon
  imports WatchSubj
begin

text \<open>
  Monitors in the watcher library (watch-monitor.c): the table of monitored variables, their
  registration with the hub, the values that arrive, and the checks after a reconnection.
\<close>

section \<open>State\<close>

definition OWATCH_MAX_DATA_HANDLERS :: nat where "OWATCH_MAX_DATA_HANDLERS = 8"
definition OWATCH_MAX_OP_PER_MONITOR :: nat where "OWATCH_MAX_OP_PER_MONITOR = 4"

text \<open>The quark of a monitor is \<open>wi_quarks\<close> at its address.\<close>

record wmonitor =
  wm_no :: nat
  wm_ooid :: u32
  wm_ref_count :: int
  wm_active_count :: int
  wm_update_count :: int
  wm_incoming :: int
  wm_registered :: bool
  wm_value :: oval
  wm_data_buf :: "bytes option"
  wm_buf_len :: int
  wm_user_data :: u32
  wm_reg_ops :: "int list"
  wm_reg_qty :: nat
  wm_val_ops :: "int list"
  wm_val_qty :: nat
  wm_secure_op :: int
  wm_user_ooid :: u32

definition zero_wmon :: wmonitor where
  "zero_wmon = \<lparr>wm_no = 0, wm_ooid = 0, wm_ref_count = 0, wm_active_count = 0, wm_update_count = 0,
     wm_incoming = 0, wm_registered = False, wm_value = no_value, wm_data_buf = None, wm_buf_len = 0,
     wm_user_data = 0, wm_reg_ops = replicate OWATCH_MAX_OP_PER_MONITOR 0, wm_reg_qty = 0,
     wm_val_ops = replicate OWATCH_MAX_OP_PER_MONITOR 0, wm_val_qty = 0, wm_secure_op = 0, wm_user_ooid = 0\<rparr>"

text \<open>
  \<open>wm_mons\<close> is the table (0 for NULL), \<open>wm_recs\<close> the records by address, \<open>wm_checks\<close> the records of
  pending checks. \<open>wm_ooids\<close>, \<open>wm_vals\<close> and \<open>wm_bufs\<close> are memory of the client. \<open>wm_hung\<close> is set where
  the library loops for ever.
\<close>

record watchmon = watchsubj +
  wm_mons :: "u32 list"
  wm_recs :: "u32 \<Rightarrow> wmonitor option"
  wm_hash :: tree_t
  wm_updates :: int
  wm_data_handlers :: "(nat \<times> u32) option list option"
  wm_active :: bool
  wm_secure_count :: int
  wm_blocked :: bool
  wm_checks :: "u32 \<Rightarrow> u32 option"
  wm_ooids :: "u32 \<Rightarrow> u32"
  wm_vals :: "u32 \<Rightarrow> oval"
  wm_bufs :: "u32 \<Rightarrow> bytes"
  wm_hung :: bool

definition wmon :: "'a watchmon_scheme \<Rightarrow> u32 \<Rightarrow> wmonitor" where
  "wmon s a = (case wm_recs s a of None \<Rightarrow> zero_wmon | Some m \<Rightarrow> m)"

text \<open>A use of a record that was freed.\<close>

definition touch_mon :: "u32 \<Rightarrow> 'a watchmon_scheme \<Rightarrow> 'a watchmon_scheme" where
  "touch_mon a s = ow_mark (wm_recs s a = None) s"

definition upd_wmon :: "u32 \<Rightarrow> (wmonitor \<Rightarrow> wmonitor) \<Rightarrow> 'a watchmon_scheme \<Rightarrow> 'a watchmon_scheme" where
  "upd_wmon a f s = (touch_mon a s)\<lparr>wm_recs := (wm_recs s)(a := map_option f (wm_recs s a))\<rparr>"

section \<open>Handlers of the client\<close>

definition call_data :: "u32 \<Rightarrow> 'a watchmon_scheme \<Rightarrow> 'a watchmon_scheme" where
  "call_data a s0 =
     (let s = touch_mon a s0; m = wmon s a in
      case wm_data_handlers s of
        None \<Rightarrow> ow_mark True s
      | Some hs \<Rightarrow>
          s\<lparr>ow_calls := ow_calls s
              @ concat (map (\<lambda>h. case h of None \<Rightarrow> [] | Some (f, p) \<Rightarrow> [DataCall f p (wm_ooid m) (wm_value m)]) hs)\<rparr>)"

definition owatchLazyCallDataHandlers :: "env \<Rightarrow> u32 \<Rightarrow> 'a watchmon_scheme \<Rightarrow> 'a watchmon_scheme" where
  "owatchLazyCallDataHandlers E a s =
     (if ow_lazy s then owatchRecordLazyCall E (LazyData (wm_ooid (wmon s a))) (touch_mon a s) else call_data a s)"

definition owatchFindMonitorByOoid :: "u32 \<Rightarrow> 'a watchmon_scheme \<Rightarrow> u32 option \<times> 'a watchmon_scheme" where
  "owatchFindMonitorByOoid ooid s =
     (if wm_mons s = [] \<or> wm_hash s = None \<or> ooid = 0 then (None, s)
      else case treeNumFind (wm_hash s) (sint ooid) of (found, no, t) \<Rightarrow>
        let s1 = s\<lparr>wm_hash := t\<rparr> in
        if \<not> found \<or> no \<le> 0 \<or> no \<ge> int (length (wm_mons s1)) then (None, s1)
        else
          let a = wm_mons s1 ! nat no in
          if a = 0 \<or> wm_ooid (wmon s1 a) \<noteq> ooid then (None, s1) else (Some a, s1))"

definition owatchCallDataHandlers :: "u32 \<Rightarrow> 'a watchmon_scheme \<Rightarrow> 'a watchmon_scheme" where
  "owatchCallDataHandlers ooid s =
     (case owatchFindMonitorByOoid ooid s of
        (None, s1) \<Rightarrow> s1
      | (Some a, s1) \<Rightarrow> call_data a s1)"

fun finish_val_ops :: "'a watchmon_scheme jumps \<Rightarrow> u32 \<Rightarrow> nat \<Rightarrow> nat \<Rightarrow> 'a watchmon_scheme \<Rightarrow> 'a watchmon_scheme" where
  "finish_val_ops J a 0 i s = s"
| "finish_val_ops J a (Suc k) i s =
     (let op = wm_val_ops (wmon s a) ! i in
      finish_val_ops J a k (Suc i)
        (if op \<noteq> 0 then upd_wmon a (\<lambda>m. m\<lparr>wm_val_ops := (wm_val_ops m)[i := 0]\<rparr>) (snd (owatchFinalizeOp J op OWATCH_ERR_OK s))
         else s))"

text \<open>Without an active count the update count is set to 1, and the sum of all counts follows.\<close>

definition owatchAnnounceMonitor :: "env \<Rightarrow> 'a watchmon_scheme jumps \<Rightarrow> u32 \<Rightarrow> bool \<Rightarrow> 'a watchmon_scheme \<Rightarrow> int \<times> 'a watchmon_scheme" where
  "owatchAnnounceMonitor E J a later s =
     (if wm_incoming (wmon s a) = 0 then (-1, touch_mon a s)
      else
        let s1 = finish_val_ops J a (wm_val_qty (wmon s a)) 0 s; m = wmon s1 a in
        if wm_active s1 \<and> wm_active_count m \<noteq> 0 \<and> \<not> later then (1, owatchLazyCallDataHandlers E a s1)
        else if wm_active_count m \<noteq> 0 then
          (-2, (upd_wmon a (\<lambda>m. m\<lparr>wm_update_count := wm_update_count m + 1\<rparr>) s1)\<lparr>wm_updates := wm_updates s1 + 1\<rparr>)
        else
          (-3, (upd_wmon a (\<lambda>m. m\<lparr>wm_update_count := 1\<rparr>) s1)
                 \<lparr>wm_updates := wm_updates s1 + (1 - wm_update_count m)\<rparr>))"

section \<open>The table\<close>

text \<open>
  A record has 380 bytes on the target. Only in a new part of the table does the record get
  OWOP_NULL as its check; in a free place it keeps 0.
\<close>

definition owatchAllocateMonitor :: "env \<Rightarrow> 'a watchmon_scheme \<Rightarrow> u32 option \<times> 'a watchmon_scheme" where
  "owatchAllocateMonitor E s =
     (if \<not> env_alloc E 380 then (None, s)
      else case find (\<lambda>no. wm_mons s ! no = 0) [1..<length (wm_mons s)] of
        Some no \<Rightarrow>
          (case ow_new s of (a, s1) \<Rightarrow>
             (Some a, s1\<lparr>wm_mons := (wm_mons s1)[no := a], wm_recs := (wm_recs s1)(a := Some (zero_wmon\<lparr>wm_no := no\<rparr>)),
                         wi_quarks := (wi_quarks s1)(a := no_wquark)\<rparr>))
      | None \<Rightarrow>
          let no = max 1 (length (wm_mons s)); new_qty = length (wm_mons s) * 2 + 2 in
          if \<not> env_alloc E (4 * new_qty) then (None, s)
          else case ow_new s of (a, s1) \<Rightarrow>
            (Some a, s1\<lparr>wm_mons := (wm_mons s1 @ replicate (new_qty - length (wm_mons s1)) 0)[no := a],
                        wm_recs := (wm_recs s1)(a := Some (zero_wmon\<lparr>wm_no := no, wm_secure_op := OWOP_NULL\<rparr>)),
                        wi_quarks := (wi_quarks s1)(a := no_wquark)\<rparr>))"

definition owatchDeallocateMonitor :: "'a watchmon_scheme jumps \<Rightarrow> u32 \<Rightarrow> 'a watchmon_scheme \<Rightarrow> 'a watchmon_scheme" where
  "owatchDeallocateMonitor J a s0 =
     (let s = touch_mon a s0; m = wmon s a;
          s1 = (if wm_secure_op m \<noteq> OWOP_NULL \<and> wm_secure_op m \<noteq> OWOP_SELF
                then snd (owatchCancelOp J (wm_secure_op m) s) else s)
      in s1\<lparr>wm_mons := (wm_mons s1)[wm_no m := 0], wm_recs := (wm_recs s1)(a := None)\<rparr>)"

fun cancel_regs :: "'a watchmon_scheme jumps \<Rightarrow> u32 \<Rightarrow> nat \<Rightarrow> 'a watchmon_scheme \<Rightarrow> 'a watchmon_scheme" where
  "cancel_regs J a 0 s = s"
| "cancel_regs J a (Suc i) s =
     (let op = wm_reg_ops (wmon s a) ! i;
          s1 = upd_wmon a (\<lambda>m. m\<lparr>wm_reg_ops := (wm_reg_ops m)[i := 0]\<rparr>) s
      in cancel_regs J a i (if op \<noteq> 0 then snd (owatchCancelOp J op s1) else s1))"

fun cancel_vals :: "'a watchmon_scheme jumps \<Rightarrow> u32 \<Rightarrow> nat \<Rightarrow> 'a watchmon_scheme \<Rightarrow> 'a watchmon_scheme" where
  "cancel_vals J a 0 s = s"
| "cancel_vals J a (Suc i) s =
     (let op = wm_val_ops (wmon s a) ! i;
          s1 = upd_wmon a (\<lambda>m. m\<lparr>wm_val_ops := (wm_val_ops m)[i := 0]\<rparr>) s
      in cancel_vals J a i (if op \<noteq> 0 then snd (owatchCancelOp J op s1) else s1))"

text \<open>
  Cancelling a pending registration runs its canceller, which removes the monitor itself; the rest
  of this function then works on a record that was freed, and frees it again.
\<close>

definition owatchRemoveMonitorByRef :: "env \<Rightarrow> 'a watchmon_scheme jumps \<Rightarrow> u32 \<Rightarrow> 'a watchmon_scheme \<Rightarrow> oret \<times> 'a watchmon_scheme" where
  "owatchRemoveMonitorByRef E J a s0 =
     (let s1 = upd_wmon a (\<lambda>m. m\<lparr>wm_ref_count := wm_ref_count m - 1\<rparr>) s0 in
      if wm_ref_count (wmon s1 a) > 0 then (OK, s1)
      else
        let m = wmon s1 a;
            s2 = (if wm_registered m \<and> owatchIsConnected s1
                  then snd (owatchSendPacket E OLANG_DATA OLANG_MON_UNREG_REQ 4 (Some (st32 (OHTONL (wm_ooid m)))) s1) else s1);
            s3 = cancel_regs J a (wm_reg_qty m) s2;
            s4 = touch_mon a s3;
            s5 = cancel_vals J a (wm_val_qty (wmon s4 a)) s4;
            s6 = touch_mon a s5;
            s7 = s6\<lparr>wm_hash := snd (treeNumAddOrSet E (wm_hash s6) (sint (wm_ooid (wmon s6 a))) 0)\<rparr>
        in (OK, owatchDeallocateMonitor J a s7))"

fun drop_reg :: "int \<Rightarrow> nat \<Rightarrow> int list \<Rightarrow> nat \<Rightarrow> int list \<times> nat" where
  "drop_reg op 0 xs q = (xs, q)"
| "drop_reg op (Suc i) xs q =
     (if xs ! i = op then drop_reg op i (xs[i := 0]) (if q = Suc i then q - 1 else q) else drop_reg op i xs q)"

definition owatchMonitorAdditionCanceller :: "env \<Rightarrow> 'a watchmon_scheme jumps \<Rightarrow> int \<Rightarrow> u32 \<Rightarrow> 'a watchmon_scheme \<Rightarrow> 'a watchmon_scheme" where
  "owatchMonitorAdditionCanceller E J op data2 s =
     (if data2 = 0 then s
      else snd (owatchRemoveMonitorByRef E J data2 (upd_wmon data2 (\<lambda>m.
        (case drop_reg op (wm_reg_qty m) (wm_reg_ops m) (wm_reg_qty m) of
           (xs, q) \<Rightarrow> m\<lparr>wm_reg_ops := xs, wm_reg_qty := q, wm_registered := True\<rparr>)) s)))"

section \<open>Values that arrive\<close>

text \<open>The error flag, the flag of an overflow and the record; \<open>src\<close> has the bytes of the value.\<close>

definition take_report ::
  "env \<Rightarrow> byte \<Rightarrow> bool \<Rightarrow> u32 \<Rightarrow> int \<Rightarrow> bytes \<Rightarrow> wmonitor \<Rightarrow> bool \<times> bool \<times> wmonitor" where
  "take_report E v_type v_undef v_time v_len src m0 =
     (let v = (wm_value m0)\<lparr>ov_type := v_type, ov_undef := v_undef, ov_time := v_time\<rparr>; m = m0\<lparr>wm_value := v\<rparr> in
      if v_undef then
        (False, False, m\<lparr>wm_value := (if v_type \<noteq> 115 then v\<lparr>ov_v := replicate 8 0, ov_len := v_len, ov_str := None\<rparr>
                                       else v\<lparr>ov_str := None, ov_len := 0\<rparr>)\<rparr>)
      else if v_type \<noteq> 115 then
        (False, v_len > sizeof_variant,
         m\<lparr>wm_value := v\<lparr>ov_v := take 8 (store (ov_v v) 0 src), ov_len := v_len\<rparr>\<rparr>)
      else if v_len = 0 then (False, False, m\<lparr>wm_value := v\<lparr>ov_str := None, ov_len := 0\<rparr>\<rparr>)
      else
        let fits = (wm_buf_len m \<ge> v_len); size = (if fits then wm_buf_len m else v_len);
            fresh = (\<not> fits \<or> wm_data_buf m = None)
        in if fresh \<and> \<not> env_alloc E (nat size) then (True, False, m\<lparr>wm_data_buf := None\<rparr>)
           else
             let b = store (if fresh then replicate (nat size) 0 else the_bytes (wm_data_buf m)) 0 src
             in (False, False, m\<lparr>wm_data_buf := Some b, wm_buf_len := size, wm_value := v\<lparr>ov_str := Some b, ov_len := v_len\<rparr>\<rparr>))"

text \<open>The loop over the reports: whether it failed, and the position reached.\<close>

fun take_reports ::
  "env \<Rightarrow> 'a watchmon_scheme jumps \<Rightarrow> nat \<Rightarrow> nat \<Rightarrow> int \<Rightarrow> bytes \<Rightarrow> 'a watchmon_scheme \<Rightarrow> bool \<times> nat \<times> 'a watchmon_scheme" where
  "take_reports E J 0 p len buf s = (False, p, s)"
| "take_reports E J (Suc k) p len buf s =
     (if int (p + 6) > len then (True, p, s)
      else case parse_report E buf p of (ooid, v_type, v_undef0, v_time, v_len0, p1) \<Rightarrow>
        if v_undef0 \<and> v_len0 \<noteq> 0 then (True, p1, s)
        else
          let p2 = (if v_undef0 then p1 else p1 + nat v_len0) in
          case owatchFindMonitorByOoid ooid s of
            (None, s1) \<Rightarrow> take_reports E J k p2 len buf s1
          | (Some a, s1) \<Rightarrow>
              let q = wi_quarks s1 a;
                  mismatch = (v_type \<noteq> wq_type q);
                  v_undef = (v_undef0 \<or> mismatch);
                  v_len = (if mismatch then 0 else v_len0)
              in if v_type \<noteq> 115 \<and> \<not> v_undef \<and> v_len \<noteq> wq_len q then (True, p2, s1)
                 else if int p2 > len then (True, p2, s1)
                 else case take_report E v_type v_undef v_time v_len (rd_bytes E buf p1 (nat v_len)) (wmon s1 a) of
                   (err, over, m1) \<Rightarrow>
                     let s2 = ow_mark over (upd_wmon a (\<lambda>_. m1) s1) in
                     if err then (True, p2, s2)
                     else take_reports E J k p2 len buf
                       (snd (owatchAnnounceMonitor E J a False (upd_wmon a (\<lambda>m. m\<lparr>wm_incoming := wm_incoming m + 1\<rparr>) s2))))"

definition owatchHandleMonitoring ::
  "env \<Rightarrow> 'a watchmon_scheme jumps \<Rightarrow> int \<Rightarrow> bytes \<Rightarrow> 'a watchmon_scheme \<Rightarrow> oret \<times> 'a watchmon_scheme" where
  "owatchHandleMonitoring E J len buf s =
     (let num = unat (rd E buf 0) in
      if num < 1 then (ERROR, s)
      else if wm_blocked s then (OK, s)
      else case take_reports E J num 1 len buf s of (err, p, s1) \<Rightarrow>
        (if err \<or> int p \<noteq> len then ERROR else OK, s1))"

section \<open>Registration\<close>

fun finish_regs :: "'a watchmon_scheme jumps \<Rightarrow> u32 \<Rightarrow> int \<Rightarrow> nat \<Rightarrow> nat \<Rightarrow> 'a watchmon_scheme \<Rightarrow> 'a watchmon_scheme" where
  "finish_regs J a err 0 i s = s"
| "finish_regs J a err (Suc k) i s =
     (let op = wm_reg_ops (wmon s a) ! i;
          s1 = upd_wmon a (\<lambda>m. m\<lparr>wm_reg_ops := (wm_reg_ops m)[i := 0]\<rparr>) s
      in finish_regs J a err k (Suc i) (if op \<noteq> 0 then snd (owatchFinalizeOp J op err s1) else s1))"

definition owatchHandleRegistration ::
  "env \<Rightarrow> 'a watchmon_scheme jumps \<Rightarrow> int \<Rightarrow> int \<Rightarrow> bytes \<Rightarrow> 'a watchmon_scheme \<Rightarrow> oret \<times> 'a watchmon_scheme" where
  "owatchHandleRegistration E J ty len buf s =
     (let ooid = OROTL (ld32 E buf 0) in
      if len \<noteq> 4 \<or> ooid = 0 then (ERROR, s)
      else if ty = OLANG_MON_REG_ACK then
        (case owatchFindMonitorByOoid ooid s of
           (None, s1) \<Rightarrow> (ERROR, s1)
         | (Some a, s1) \<Rightarrow>
             if wm_registered (wmon s1 a) then (ERROR, s1)
             else
               let s2 = upd_wmon a (\<lambda>m. m\<lparr>wm_registered := True\<rparr>) s1
               in (OK, upd_wmon a (\<lambda>m. m\<lparr>wm_reg_qty := 0\<rparr>)
                    (finish_regs J a OWATCH_ERR_OK (wm_reg_qty (wmon s2 a)) 0 s2)))
      else if ty = OLANG_MON_REG_NAK then
        (case owatchFindMonitorByOoid ooid s of
           (None, s1) \<Rightarrow> (ERROR, s1)
         | (Some a, s1) \<Rightarrow>
             (OK, snd (owatchRemoveMonitorByRef E J a (upd_wmon a (\<lambda>m. m\<lparr>wm_reg_qty := 0\<rparr>)
                    (finish_regs J a OWATCH_ERR_REFUSED (wm_reg_qty (wmon s1 a)) 0 s1)))))
      else if ty = OLANG_MON_UNREG_ACK \<or> ty = OLANG_MON_UNREG_NAK then (OK, s)
      else (ERROR, s))"

definition owatchLazyMonRegRequest :: "'a watchmon_scheme jumps \<Rightarrow> int \<Rightarrow> int \<Rightarrow> int \<Rightarrow> 'a watchmon_scheme \<Rightarrow> 'a watchmon_scheme" where
  "owatchLazyMonRegRequest J m_op s_op err s =
     (let s1 = snd (owatchUnchainOp m_op s) in if err \<noteq> 0 then snd (owatchFinalizeOp J m_op err s1) else s1)"

text \<open>
  A variable that is monitored already gets one more reference; while its registration is still
  pending, one more operation waits for it, if there is room.
\<close>

definition owatchStickToExistingMonitor ::
  "env \<Rightarrow> 'a watchmon_scheme jumps \<Rightarrow> u32 \<Rightarrow> int \<Rightarrow> bool \<Rightarrow> 'a watchmon_scheme \<Rightarrow> int \<times> 'a watchmon_scheme" where
  "owatchStickToExistingMonitor E J ooid op0 dont_monitor s0 =
     (case owatchFindMonitorByOoid ooid s0 of
        (None, s) \<Rightarrow> (OWOP_NULL, s)
      | (Some a, s) \<Rightarrow>
          let refer = (\<lambda>m. m\<lparr>wm_ref_count := wm_ref_count m + 1,
                            wm_active_count := wm_active_count m + (if dont_monitor then 0 else 1)\<rparr>) in
          if wm_registered (wmon s a) then
            let s1 = upd_wmon a refer s;
                s2 = (if op0 \<noteq> OWOP_ERROR then snd (owatchFinalizeOp J op0 OWATCH_ERR_OK s1) else s1)
            in (OWOP_OK, snd (owatchAnnounceMonitor E J a True s2))
          else
            case (if op0 = OWOP_ERROR then owatchAllocateOp (Some CancelMonitor) OWATCH_OPT_WAIT_MON a s else (op0, s)) of
              (op, s1) \<Rightarrow>
                if op = OWOP_ERROR then (OWOP_ERROR, s1)
                else case find (\<lambda>i. wm_reg_ops (wmon s1 a) ! i = 0) [0..<OWATCH_MAX_OP_PER_MONITOR] of
                  None \<Rightarrow> (op, snd (owatchFinalizeOp J op OWATCH_ERR_NOSPACE s1))
                | Some i \<Rightarrow>
                    (op, upd_wmon a (\<lambda>m. refer (m\<lparr>wm_reg_ops := (wm_reg_ops m)[i := op],
                           wm_reg_qty := max (wm_reg_qty m) (Suc i)\<rparr>)) s1))"

definition owatchMonHashUp :: "env \<Rightarrow> u32 \<Rightarrow> 'a watchmon_scheme \<Rightarrow> oret \<times> 'a watchmon_scheme" where
  "owatchMonHashUp E a s =
     (let m = wmon s a; key = sint (wm_ooid m) in
      case treeNumAddOrSet E (wm_hash s) key (int (wm_no m)) of (rc, t) \<Rightarrow>
        if rc \<noteq> OK then (ERROR, s\<lparr>wm_hash := t\<rparr>)
        else case treeNumFind t key of (found, val, t1) \<Rightarrow>
          (if \<not> found \<or> val \<noteq> int (wm_no m) then ERROR else OK, s\<lparr>wm_hash := t1\<rparr>))"

definition tell_ooid :: "u32 \<Rightarrow> 'a watchmon_scheme \<Rightarrow> 'a watchmon_scheme" where
  "tell_ooid a s =
     (let p = wm_user_ooid (wmon s a) in
      if p = 0 then s
      else (upd_wmon a (\<lambda>m. m\<lparr>wm_user_ooid := 0\<rparr>) s)\<lparr>wm_ooids := (wm_ooids s)(p := wq_ooid (wi_quarks s a))\<rparr>)"

definition owatchAddMonitorGotDescStage ::
  "env \<Rightarrow> 'a watchmon_scheme jumps \<Rightarrow> int \<Rightarrow> int \<Rightarrow> int \<Rightarrow> u32 \<Rightarrow> 'a watchmon_scheme \<Rightarrow> 'a watchmon_scheme" where
  "owatchAddMonitorGotDescStage E J m_op s_op err a s0 =
     (let fail = (\<lambda>err s. snd (owatchFinalizeOp J m_op err (if a \<noteq> 0 then owatchDeallocateMonitor J a s else s)));
          s1 = touch_mon a (snd (owatchUnchainOp m_op s0))
      in if err \<noteq> 0 then fail err s1
         else
           let s2 = tell_ooid a s1; ooid = wq_ooid (wi_quarks s2 a) in
           case owatchStickToExistingMonitor E J ooid m_op (wm_active_count (wmon s2 a) = 0) s2 of (op, s3) \<Rightarrow>
             if op \<noteq> OWOP_NULL then owatchDeallocateMonitor J a s3
             else
               let s4 = upd_wmon a (\<lambda>m. m\<lparr>wm_ooid := ooid\<rparr>) s3 in
               case owatchMonHashUp E a s4 of (rc, s5) \<Rightarrow>
                 if rc \<noteq> OK then fail OWATCH_ERR_INTERNAL s5
                 else case owatchSecureSend E OLANG_DATA OLANG_MON_REG_REQ 4 (st32 (OHTONL ooid)) s5 of (op1, s6) \<Rightarrow>
                   if op1 = OWOP_ERROR then fail OWATCH_ERR_NETWORK s6
                   else if op1 \<noteq> OWOP_OK then snd (owatchChainOps J m_op op1 LazyMonRegRequest ooid 0 s6)
                   else s6)"

definition owatchNowaitAddMonitorByOoid ::
  "env \<Rightarrow> 'a watchmon_scheme jumps \<Rightarrow> u32 \<Rightarrow> 'a watchmon_scheme \<Rightarrow> int \<times> 'a watchmon_scheme" where
  "owatchNowaitAddMonitorByOoid E J ooid s0 =
     (case owatchStickToExistingMonitor E J ooid OWOP_ERROR False s0 of (op, s1) \<Rightarrow>
        if op \<noteq> OWOP_NULL then (op, s1)
        else case owatchAllocateMonitor E s1 of
          (None, s2) \<Rightarrow> (OWOP_ERROR, s2)
        | (Some a, s2) \<Rightarrow>
            (case owatchAllocateOp (Some CancelMonitor) OWATCH_OPT_OOID_MON a s2 of (m_op, s3) \<Rightarrow>
              if m_op = OWOP_ERROR then (OWOP_ERROR, owatchDeallocateMonitor J a s3)
              else
                let s4 = upd_wmon a (\<lambda>m. m\<lparr>wm_active_count := wm_active_count m + 1,
                           wm_reg_ops := (wm_reg_ops m)[0 := m_op], wm_reg_qty := 1, wm_ooid := ooid, wm_user_ooid := 0,
                           wm_registered := False, wm_ref_count := 1, wm_value := no_value\<lparr>ov_undef := True\<rparr>\<rparr>) s3;
                    fail = (\<lambda>err s. (OWOP_ERROR, snd (owatchFinalizeOp J m_op err s)))
                in case owatchNowaitGetInfoByOoid E J ooid a s4 of (s_op, s5) \<Rightarrow>
                  if s_op = OWOP_ERROR then fail OWATCH_ERR_NOINFO (owatchDeallocateMonitor J a s5)
                  else case owatchChainOps J m_op s_op AddMonitorGotDesc 0 a s5 of (rc, s6) \<Rightarrow>
                    if rc \<noteq> OK then
                      fail OWATCH_ERR_INTERNAL (snd (owatchCancelOp J s_op (owatchDeallocateMonitor J a s6)))
                    else (m_op, s6)))"

definition owatchFindMonitorOoidByDesc :: "bytes \<Rightarrow> 'a watchmon_scheme \<Rightarrow> u32 \<times> 'a watchmon_scheme" where
  "owatchFindMonitorOoidByDesc desc s =
     (case cached_by_desc desc s of
        (None, s1) \<Rightarrow> (0, s1)
      | (Some q, s1) \<Rightarrow>
          (case owatchFindMonitorByOoid (wq_ooid q) s1 of
             (None, s2) \<Rightarrow> (0, s2)
           | (Some a, s2) \<Rightarrow> (wq_ooid q, s2)))"

section \<open>Registration and information in one request\<close>

text \<open>The end of a failed request: all its operations are refused, and the monitor goes.\<close>

definition combo_fail ::
  "env \<Rightarrow> 'a watchmon_scheme jumps \<Rightarrow> int \<Rightarrow> int \<Rightarrow> u32 \<Rightarrow> 'a watchmon_scheme \<Rightarrow> oret \<times> 'a watchmon_scheme" where
  "combo_fail E J m_op err a s =
     (let m = wmon s a;
          mine = (m_op \<in> set (take (wm_reg_qty m) (wm_reg_ops m)));
          s1 = upd_wmon a (\<lambda>m. m\<lparr>wm_reg_qty := 0, wm_ref_count := 0\<rparr>)
                 (finish_regs J a OWATCH_ERR_REFUSED (wm_reg_qty m) 0 s);
          s2 = snd (owatchRemoveMonitorByRef E J a s1)
      in (ERROR, if mine then s2 else snd (owatchFinalizeOp J m_op err s2)))"

definition owatchHandleMonComboReply ::
  "env \<Rightarrow> 'a watchmon_scheme jumps \<Rightarrow> int \<Rightarrow> bytes \<Rightarrow> 'a watchmon_scheme \<Rightarrow> oret \<times> 'a watchmon_scheme" where
  "owatchHandleMonComboReply E J len buf s0 =
     (let m_op = ONTOHL (ld32 E buf 0); mon_rc = ONTOHL (ld32 E buf 4) in
      if \<not> owatchIsValidOp m_op s0 then (ERROR, s0)
      else case owatchGetOpData m_op s0 of (_, data1, a) \<Rightarrow>
        if data1 \<noteq> OWATCH_OPT_COMBO_MON \<or> a = 0 then (ERROR, s0)
        else
          let s = touch_mon a s0; asked = wq_desc (wi_quarks s a); fail = (\<lambda>err s. combo_fail E J m_op err a s) in
          case owatchUnpackInfoReply E buf 8 of (rc, p, info, ermes) \<Rightarrow>
            if wq_ooid info = 0 then fail OWATCH_ERR_REFUSED (snd (owatchUpdateInfoCache E asked None s))
            else if wq_desc info = [] \<or> int p \<noteq> len then fail OWATCH_ERR_SCREWED s
            else case owatchUpdateInfoCache E asked (Some info) s of (info1, s1) \<Rightarrow>
              let s2 = tell_ooid a (put_quark a (case info1 of None \<Rightarrow> info | Some q \<Rightarrow> q) s1);
                  ooid = wq_ooid info
              in case owatchStickToExistingMonitor E J ooid m_op (wm_active_count (wmon s2 a) = 0) s2 of (s_op, s3) \<Rightarrow>
                if s_op \<noteq> OWOP_NULL then (OK, owatchDeallocateMonitor J a s3)
                else
                  let s4 = upd_wmon a (\<lambda>m. m\<lparr>wm_ooid := ooid\<rparr>) s3 in
                  if mon_rc \<noteq> 0 then fail OWATCH_ERR_REFUSED s4
                  else case owatchMonHashUp E a s4 of (rc2, s5) \<Rightarrow>
                    if rc2 \<noteq> OK then fail OWATCH_ERR_INTERNAL s5
                    else
                      let s6 = upd_wmon a (\<lambda>m. m\<lparr>wm_registered := True\<rparr>) s5
                      in (OK, upd_wmon a (\<lambda>m. m\<lparr>wm_reg_qty := 0\<rparr>)
                           (finish_regs J a OWATCH_ERR_OK (wm_reg_qty (wmon s6 a)) 0 s6)))"

definition owatchLazyMonComboReq :: "'a watchmon_scheme jumps \<Rightarrow> int \<Rightarrow> int \<Rightarrow> int \<Rightarrow> 'a watchmon_scheme \<Rightarrow> 'a watchmon_scheme" where
  "owatchLazyMonComboReq J m_op s_op err s =
     (let s1 = snd (owatchUnchainOp m_op s) in if err \<noteq> 0 then snd (owatchFinalizeOp J m_op err s1) else s1)"

text \<open>The variant that \<open>OWATCH_FAST_REGISTRATION\<close> selects.\<close>

definition combo_request ::
  "env \<Rightarrow> 'a watchmon_scheme jumps \<Rightarrow> bytes \<Rightarrow> u32 \<Rightarrow> bool \<Rightarrow> 'a watchmon_scheme \<Rightarrow> int \<times> 'a watchmon_scheme" where
  "combo_request E J desc ooid_buf dont_monitor s0 =
     (case owatchAllocateMonitor E s0 of
        (None, s1) \<Rightarrow> (OWOP_ERROR, s1)
      | (Some a, s1) \<Rightarrow>
          (case owatchAllocateOp (Some CancelMonitor) OWATCH_OPT_COMBO_MON a s1 of (m_op, s2) \<Rightarrow>
            if m_op = OWOP_ERROR then (OWOP_ERROR, owatchDeallocateMonitor J a s2)
            else
              let s3 = upd_wmon a (\<lambda>m. m\<lparr>wm_active_count := wm_active_count m + (if dont_monitor then 0 else 1),
                         wm_reg_ops := (wm_reg_ops m)[0 := m_op], wm_reg_qty := 1, wm_ooid := 0, wm_user_ooid := ooid_buf,
                         wm_value := (wm_value m)\<lparr>ov_undef := True\<rparr>, wm_registered := False, wm_ref_count := 1\<rparr>)
                         (put_quark a ((wi_quarks s2 a)\<lparr>wq_desc := desc\<rparr>) (ow_mark (length desc \<ge> OWATCH_MAX_PATH) s2))
              in case owatchSecureSend E OLANG_DATA OLANG_MON_COMBO_REQ (int (length desc) + 5)
                        (st32 (OHTONL (word_of_int m_op)) @ [of_nat (length desc)] @ desc) s3 of (s_op, s4) \<Rightarrow>
                if s_op = OWOP_ERROR then
                  (OWOP_ERROR, snd (owatchFinalizeOp J m_op OWATCH_ERR_INTERNAL (owatchDeallocateMonitor J a s4)))
                else if s_op = OWOP_OK then (m_op, s4)
                else case ow_new s4 of (str, s5) \<Rightarrow> (m_op, snd (owatchChainOps J m_op s_op LazyMonComboReq str 0 s5))))"

definition owatchNowaitAddMonitorByDesc ::
  "env \<Rightarrow> 'a watchmon_scheme jumps \<Rightarrow> bytes \<Rightarrow> u32 \<Rightarrow> bool \<Rightarrow> 'a watchmon_scheme \<Rightarrow> int \<times> 'a watchmon_scheme" where
  "owatchNowaitAddMonitorByDesc E J desc ooid_buf dont_monitor s =
     (if desc = [] \<or> length desc > 255 \<or> length desc + 4 > OWATCH_MAX_PATH + 8 then (OWOP_ERROR, s)
      else
        let tell = (\<lambda>v s. if ooid_buf \<noteq> 0 then s\<lparr>wm_ooids := (wm_ooids s)(ooid_buf := v)\<rparr> else s) in
        case cached_by_desc desc (tell 0 s) of
          (None, s1) \<Rightarrow> combo_request E J desc ooid_buf dont_monitor s1
        | (Some q, s1) \<Rightarrow>
            (case owatchStickToExistingMonitor E J (wq_ooid q) OWOP_ERROR dont_monitor (tell (wq_ooid q) s1) of (op, s2) \<Rightarrow>
              if op \<noteq> OWOP_NULL then (op, s2) else owatchNowaitAddMonitorByOoid E J (wq_ooid q) s2))"

section \<open>Checks after a reconnection\<close>

text \<open>
  A registered monitor is registered again if the variable still has the type and length it had.
  \<open>a\<close> is the record of the check.
\<close>

definition owatchMonCheckInfo :: "env \<Rightarrow> u32 \<Rightarrow> int \<Rightarrow> 'a watchmon_scheme \<Rightarrow> 'a watchmon_scheme" where
  "owatchMonCheckInfo E a err s0 =
     (let s = ow_mark (wm_checks s0 a = None) s0; ooid = (case wm_checks s0 a of None \<Rightarrow> 0 | Some x \<Rightarrow> x);
          free = (\<lambda>s. s\<lparr>wm_checks := (wm_checks s)(a := None)\<rparr>)
      in case owatchFindMonitorByOoid ooid s of
           (None, s1) \<Rightarrow> free s1
         | (Some m, s1) \<Rightarrow>
             let q = wi_quarks s1 a; q0 = wi_quarks s1 m;
                 s2 = (if err \<noteq> 0 then s1
                       else if wq_type q = wq_type q0 \<and> wq_len q = wq_len q0 \<and> wq_bit_len q = wq_bit_len q0 then
                         snd (owatchSendPacket E OLANG_DATA OLANG_MON_REG_REQ 4 (Some (st32 (OHTONL (wm_ooid (wmon s1 m))))) s1)
                       else upd_wmon m (\<lambda>m. m\<lparr>wm_value := (wm_value m)\<lparr>ov_undef := True\<rparr>\<rparr>) s1)
             in free (upd_wmon m (\<lambda>m. m\<lparr>wm_secure_op := OWOP_NULL\<rparr>) s2))"

text \<open>The next monitor that waits for its check, from place \<open>i\<close> on.\<close>

definition to_check :: "'a watchmon_scheme \<Rightarrow> nat \<Rightarrow> bool" where
  "to_check s i \<longleftrightarrow> wm_mons s ! i \<noteq> 0 \<and> wm_registered (wmon s (wm_mons s ! i))
     \<and> wm_secure_op (wmon s (wm_mons s ! i)) = OWOP_SELF"

definition next_check :: "'a watchmon_scheme \<Rightarrow> nat \<Rightarrow> nat option" where
  "next_check s i = find (to_check s) [i..<length (wm_mons s)]"

definition start_check :: "env \<Rightarrow> 'a watchmon_scheme jumps \<Rightarrow> nat \<Rightarrow> 'a watchmon_scheme \<Rightarrow> bool \<times> 'a watchmon_scheme" where
  "start_check E J i s =
     (let a = wm_mons s ! i; m = wmon s a; done = upd_wmon a (\<lambda>m. m\<lparr>wm_secure_op := OWOP_NULL\<rparr>) in
      case ow_new (ow_mark (\<not> env_alloc E 172) s) of (c, s1) \<Rightarrow>
        case owatchNowaitGetInfoByDesc E J (wq_desc (wi_quarks s a)) c (s1\<lparr>wm_checks := (wm_checks s1)(c := Some (wm_ooid m))\<rparr>) of
          (op, s2) \<Rightarrow>
            if op = OWOP_OK then (False, done (snd (ow_abort s2)))
            else if op = OWOP_ERROR then (False, done (s2\<lparr>wm_checks := (wm_checks s2)(c := None)\<rparr>))
            else (True, upd_wmon a (\<lambda>m. m\<lparr>wm_secure_op := op\<rparr>) (snd (owatchLocalOpHandler J op (Some MonCheckInfo) c s2))))"

text \<open>
  The loop of \<open>owatchMonSecureMore\<close>. Each round starts one check and lowers the count of checks to
  start; when no monitor waits for its check, nothing changes any more and the loop never ends.
  The fuel is the count.
\<close>

fun secure_mons :: "env \<Rightarrow> 'a watchmon_scheme jumps \<Rightarrow> nat \<Rightarrow> nat \<Rightarrow> int \<Rightarrow> 'a watchmon_scheme \<Rightarrow> int \<times> 'a watchmon_scheme" where
  "secure_mons E J 0 i qty s = (qty, s)"
| "secure_mons E J (Suc k) i qty s =
     (if \<not> (owatchFreeOpCount s > 4 \<and> wm_secure_count s > 0) then (qty, s)
      else case next_check s i of
        None \<Rightarrow> (qty, s\<lparr>wm_hung := True\<rparr>)
      | Some j \<Rightarrow>
          (case start_check E J j s of (started, s1) \<Rightarrow>
             secure_mons E J k j (if started then qty + 1 else qty) (s1\<lparr>wm_secure_count := wm_secure_count s1 - 1\<rparr>)))"

fun drop_checks :: "'a watchmon_scheme jumps \<Rightarrow> nat \<Rightarrow> nat \<Rightarrow> 'a watchmon_scheme \<Rightarrow> 'a watchmon_scheme" where
  "drop_checks J 0 i s = s"
| "drop_checks J (Suc k) i s =
     (let a = wm_mons s ! i in
      drop_checks J k (Suc i)
        (if a = 0 \<or> \<not> wm_registered (wmon s a) then s
         else
           let op = wm_secure_op (wmon s a);
               s1 = (if op \<noteq> OWOP_NULL \<and> op \<noteq> OWOP_SELF then snd (owatchCancelOp J op s) else s)
           in upd_wmon a (\<lambda>m. m\<lparr>wm_secure_op := OWOP_NULL\<rparr>) s1))"

definition owatchMonSecureMore :: "env \<Rightarrow> 'a watchmon_scheme jumps \<Rightarrow> 'a watchmon_scheme \<Rightarrow> int \<times> 'a watchmon_scheme" where
  "owatchMonSecureMore E J s =
     (if wm_secure_count s = 0 then (0, s)
      else if \<not> owatchIsConnected s then
        (0, (drop_checks J (length (wm_mons s)) 0 s)\<lparr>wm_secure_count := 0\<rparr>)
      else secure_mons E J (nat (wm_secure_count s)) 0 0 s)"

definition owatchMonSecureStart :: "env \<Rightarrow> 'a watchmon_scheme jumps \<Rightarrow> 'a watchmon_scheme \<Rightarrow> int \<times> 'a watchmon_scheme" where
  "owatchMonSecureStart E J s =
     (let due = filter (\<lambda>a. a \<noteq> 0 \<and> wm_registered (wmon s a)) (wm_mons s);
          s1 = (fold (\<lambda>a. upd_wmon a (\<lambda>m. m\<lparr>wm_secure_op := OWOP_SELF\<rparr>)) due s)\<lparr>wm_secure_count := int (length due)\<rparr>;
          s2 = snd (owatchMonSecureMore E J s1)
      in (wm_secure_count s2, s2))"

section \<open>Switches\<close>

fun lazy_data :: "env \<Rightarrow> nat \<Rightarrow> nat \<Rightarrow> 'a watchmon_scheme \<Rightarrow> 'a watchmon_scheme" where
  "lazy_data E 0 i s = s"
| "lazy_data E (Suc k) i s =
     (let a = wm_mons s ! i in
      lazy_data E k (Suc i)
        (if a = 0 \<or> wm_update_count (wmon s a) = 0 then s
         else
           let s1 = owatchLazyCallDataHandlers E a s
           in (upd_wmon a (\<lambda>m. m\<lparr>wm_update_count := 0\<rparr>) s1)\<lparr>wm_updates := wm_updates s1 - wm_update_count (wmon s1 a)\<rparr>))"

definition owatchLazyDataHandlers :: "env \<Rightarrow> 'a watchmon_scheme \<Rightarrow> 'a watchmon_scheme" where
  "owatchLazyDataHandlers E s =
     (if \<not> wm_active s \<or> wm_updates s = 0 then s
      else if wm_updates s < 0 then s\<lparr>wm_updates := 0\<rparr>
      else lazy_data E (length (wm_mons s)) 0 s)"

definition owatchEnableMonitoring :: "env \<Rightarrow> bool \<Rightarrow> 'a watchmon_scheme \<Rightarrow> oret \<times> 'a watchmon_scheme" where
  "owatchEnableMonitoring E enable s =
     (OK, if wm_active s = enable then s else owatchLazyDataHandlers E (s\<lparr>wm_active := enable\<rparr>))"

definition owatchBlockMonitoring ::
  "env \<Rightarrow> 'a watchmon_scheme jumps \<Rightarrow> bool \<Rightarrow> bool \<Rightarrow> 'a watchmon_scheme \<Rightarrow> oret \<times> 'a watchmon_scheme" where
  "owatchBlockMonitoring E J block renew s =
     (if wm_blocked s = block then (OK, s)
      else case owatchSecureSend E OLANG_DATA OLANG_BLOCK_ANNOUNCE 2 [of_bool block, of_bool renew] s of (op, s1) \<Rightarrow>
        if op = OWOP_ERROR then (ERROR, s1)
        else (OK, (snd (owatchLocalOpHandler J op (Some MonBlockHandler) (of_bool block) s1))\<lparr>wm_blocked := block\<rparr>))"

section \<open>Start and stop\<close>

definition owatchInitMonitoring :: "env \<Rightarrow> 'a watchmon_scheme \<Rightarrow> oret \<times> 'a watchmon_scheme" where
  "owatchInitMonitoring E s0 =
     (let s = s0\<lparr>wm_updates := 0, wm_secure_count := 0, wm_blocked := False\<rparr> in
      if \<not> env_alloc E (8 * OWATCH_MAX_DATA_HANDLERS) then (ERROR, s\<lparr>wm_data_handlers := None\<rparr>)
      else (OK, s\<lparr>wm_data_handlers := Some (replicate OWATCH_MAX_DATA_HANDLERS None), wm_hash := treeAlloc NUMERIC_TREE\<rparr>))"

fun remove_mons :: "env \<Rightarrow> 'a watchmon_scheme jumps \<Rightarrow> nat \<Rightarrow> nat \<Rightarrow> 'a watchmon_scheme \<Rightarrow> 'a watchmon_scheme" where
  "remove_mons E J 0 i s = s"
| "remove_mons E J (Suc k) i s =
     (let a = wm_mons s ! i in
      remove_mons E J k (Suc i)
        (if a = 0 then s else snd (owatchRemoveMonitorByRef E J a (upd_wmon a (\<lambda>m. m\<lparr>wm_ref_count := 1\<rparr>) s))))"

definition owatchRemoveAllMonitors :: "env \<Rightarrow> 'a watchmon_scheme jumps \<Rightarrow> 'a watchmon_scheme \<Rightarrow> oret \<times> 'a watchmon_scheme" where
  "owatchRemoveAllMonitors E J s =
     (if wm_mons s = [] then (ERROR, s)
      else (OK, (remove_mons E J (length (wm_mons s)) 0 s)\<lparr>wm_mons := []\<rparr>))"

definition owatchExitMonitoring :: "env \<Rightarrow> 'a watchmon_scheme jumps \<Rightarrow> 'a watchmon_scheme \<Rightarrow> 'a watchmon_scheme" where
  "owatchExitMonitoring E J s =
     snd (owatchRemoveAllMonitors E J (s\<lparr>wm_updates := 0, wm_secure_count := 0, wm_blocked := False,
       wm_data_handlers := None, wm_hash := None\<rparr>))"

definition owatchRemoveMonitor :: "env \<Rightarrow> 'a watchmon_scheme jumps \<Rightarrow> u32 \<Rightarrow> 'a watchmon_scheme \<Rightarrow> oret \<times> 'a watchmon_scheme" where
  "owatchRemoveMonitor E J ooid s =
     (case owatchFindMonitorByOoid ooid s of
        (None, s1) \<Rightarrow> (ERROR, s1)
      | (Some a, s1) \<Rightarrow> owatchRemoveMonitorByRef E J a s1)"

section \<open>Questions of the client\<close>

text \<open>Copying a value into memory of the client; 0 is NULL.\<close>

definition copy_out :: "oval \<Rightarrow> u32 \<Rightarrow> u32 \<Rightarrow> int \<Rightarrow> 'a watchmon_scheme \<Rightarrow> oret \<times> 'a watchmon_scheme" where
  "copy_out v pvalue data_buf buf_len s =
     (case owatchCopyValue v (if pvalue = 0 then None else Some (wm_vals s pvalue))
             (if data_buf = 0 then None else Some (wm_bufs s data_buf)) buf_len of
        (rc, v1, b1, ub) \<Rightarrow>
          (rc, (ow_mark ub s)\<lparr>wm_vals := (case v1 of None \<Rightarrow> wm_vals s | Some w \<Rightarrow> (wm_vals s)(pvalue := w)),
                              wm_bufs := (case b1 of None \<Rightarrow> wm_bufs s | Some b \<Rightarrow> (wm_bufs s)(data_buf := b))\<rparr>))"

definition owatchGetValue :: "u32 \<Rightarrow> u32 \<Rightarrow> u32 \<Rightarrow> int \<Rightarrow> 'a watchmon_scheme \<Rightarrow> oret \<times> 'a watchmon_scheme" where
  "owatchGetValue ooid pvalue data_buf buf_len s =
     (case owatchFindMonitorByOoid ooid s of
        (None, s1) \<Rightarrow> (ERROR, s1)
      | (Some a, s1) \<Rightarrow> copy_out (wm_value (wmon s1 a)) pvalue data_buf buf_len s1)"

definition owatchAddDataHandler :: "nat \<Rightarrow> u32 \<Rightarrow> 'a watchmon_scheme \<Rightarrow> oret \<times> 'a watchmon_scheme" where
  "owatchAddDataHandler f param s =
     (case wm_data_handlers s of
        None \<Rightarrow> (ERROR, s)
      | Some hs \<Rightarrow>
          (case first_none hs of
             None \<Rightarrow> (ERROR, s)
           | Some i \<Rightarrow> (OK, s\<lparr>wm_data_handlers := Some (hs[i := Some (f, param)])\<rparr>)))"

text \<open>The loop runs to the number of alive handlers, 16, over an array of 8.\<close>

definition owatchRemoveDataHandler :: "nat \<Rightarrow> 'a watchmon_scheme \<Rightarrow> oret \<times> 'a watchmon_scheme" where
  "owatchRemoveDataHandler f s =
     (case wm_data_handlers s of
        None \<Rightarrow> (ERROR, s)
      | Some hs \<Rightarrow>
          let mine = (\<lambda>h. case h of None \<Rightarrow> False | Some (g, p) \<Rightarrow> g = f)
          in (if \<exists>h \<in> set hs. mine h then OK else ERROR,
              (ow_mark (length hs < OWATCH_MAX_ALIVE_HANDLERS) s)
                \<lparr>wm_data_handlers := Some (map (\<lambda>h. if mine h then None else h) hs)\<rparr>))"

definition owatchFlushMonitor :: "u32 \<Rightarrow> 'a watchmon_scheme \<Rightarrow> oret \<times> 'a watchmon_scheme" where
  "owatchFlushMonitor ooid s =
     (case owatchFindMonitorByOoid ooid s of
        (None, s1) \<Rightarrow> (ERROR, s1)
      | (Some a, s1) \<Rightarrow>
          (OK, (upd_wmon a (\<lambda>m. m\<lparr>wm_update_count := 0\<rparr>) s1)\<lparr>wm_updates := wm_updates s1 - wm_update_count (wmon s1 a)\<rparr>))"

definition owatchFlushAllMonitors :: "'a watchmon_scheme \<Rightarrow> oret \<times> 'a watchmon_scheme" where
  "owatchFlushAllMonitors s =
     (if wm_mons s = [] then (ERROR, s)
      else (OK, (fold (\<lambda>a. upd_wmon a (\<lambda>m. m\<lparr>wm_update_count := 0\<rparr>)) (filter (\<lambda>a. a \<noteq> 0) (wm_mons s)) s)\<lparr>wm_updates := 0\<rparr>))"

definition owatchInternalRenewMonitor :: "env \<Rightarrow> 'a watchmon_scheme jumps \<Rightarrow> u32 \<Rightarrow> 'a watchmon_scheme \<Rightarrow> int \<times> 'a watchmon_scheme" where
  "owatchInternalRenewMonitor E J a s =
     (if wm_incoming (wmon s a) \<noteq> 0 then (OWOP_OK, snd (owatchAnnounceMonitor E J a True s)) else (OWOP_ERROR, s))"

definition owatchRenewMonitor :: "env \<Rightarrow> 'a watchmon_scheme jumps \<Rightarrow> u32 \<Rightarrow> 'a watchmon_scheme \<Rightarrow> int \<times> 'a watchmon_scheme" where
  "owatchRenewMonitor E J ooid s =
     (case owatchFindMonitorByOoid ooid s of
        (None, s1) \<Rightarrow> (ERROR, s1)
      | (Some a, s1) \<Rightarrow> owatchInternalRenewMonitor E J a s1)"

definition owatchRenewAllMonitors :: "env \<Rightarrow> 'a watchmon_scheme jumps \<Rightarrow> 'a watchmon_scheme \<Rightarrow> oret \<times> 'a watchmon_scheme" where
  "owatchRenewAllMonitors E J s =
     (if wm_mons s = [] then (ERROR, s)
      else (OK, fold (\<lambda>a s. snd (owatchInternalRenewMonitor E J a s)) (filter (\<lambda>a. a \<noteq> 0) (wm_mons s)) s))"

definition owatchSetMonitorData :: "u32 \<Rightarrow> u32 \<Rightarrow> 'a watchmon_scheme \<Rightarrow> oret \<times> 'a watchmon_scheme" where
  "owatchSetMonitorData ooid user_data s =
     (case owatchFindMonitorByOoid ooid s of
        (None, s1) \<Rightarrow> (ERROR, s1)
      | (Some a, s1) \<Rightarrow> (OK, upd_wmon a (\<lambda>m. m\<lparr>wm_user_data := user_data\<rparr>) s1))"

definition owatchGetMonitorData :: "u32 \<Rightarrow> 'a watchmon_scheme \<Rightarrow> oret \<times> u32 \<times> 'a watchmon_scheme" where
  "owatchGetMonitorData ooid s =
     (case owatchFindMonitorByOoid ooid s of
        (None, s1) \<Rightarrow> (ERROR, 0, s1)
      | (Some a, s1) \<Rightarrow> (OK, wm_user_data (wmon s1 a), s1))"

end
