(* ===== verification/WatchData.thy ===== *)
theory WatchData
  imports WatchMon
begin

text \<open>
  Reads and writes of variables by the watcher library (watch-data.c): each first asks for the
  information about the variable, then for its value, and is answered by the hub.
\<close>

section \<open>State\<close>

text \<open>
  The read records hold pointers to memory of the client; a write record holds a copy of the
  value and of its text. Their quarks are \<open>wi_quarks\<close> at their addresses.
\<close>

record readrec =
  rr_pvalue :: u32
  rr_data_buf :: u32
  rr_buf_len :: int

record writerec =
  wr_src :: oval
  wr_str :: bytes

datatype readopt = ROPT_NEVER | ROPT_ALWAYS | ROPT_AUTO | ROPT_GET | ROPT_ERROR

record watchdata = watchmon +
  wd_optimize :: readopt
  wd_reads :: "u32 \<Rightarrow> readrec option"
  wd_writes :: "u32 \<Rightarrow> writerec option"

definition free_read :: "u32 \<Rightarrow> 'a watchdata_scheme \<Rightarrow> 'a watchdata_scheme" where
  "free_read a s = (ow_mark (wd_reads s a = None) s)\<lparr>wd_reads := (wd_reads s)(a := None)\<rparr>"

definition free_write :: "u32 \<Rightarrow> 'a watchdata_scheme \<Rightarrow> 'a watchdata_scheme" where
  "free_write a s = (ow_mark (wd_writes s a = None) s)\<lparr>wd_writes := (wd_writes s)(a := None)\<rparr>"

definition the_read :: "'a watchdata_scheme \<Rightarrow> u32 \<Rightarrow> readrec" where
  "the_read s a = (case wd_reads s a of None \<Rightarrow> \<lparr>rr_pvalue = 0, rr_data_buf = 0, rr_buf_len = 0\<rparr> | Some r \<Rightarrow> r)"

definition the_write :: "'a watchdata_scheme \<Rightarrow> u32 \<Rightarrow> writerec" where
  "the_write s a = (case wd_writes s a of None \<Rightarrow> \<lparr>wr_src = no_value, wr_str = []\<rparr> | Some w \<Rightarrow> w)"

section \<open>Reading\<close>

text \<open>The value in a reply; the union is junk behind the bytes that were sent.\<close>

definition reply_value :: "env \<Rightarrow> byte \<Rightarrow> int \<Rightarrow> bytes \<Rightarrow> oval" where
  "reply_value E v_type v_len buf =
     \<lparr>ov_type = v_type, ov_undef = False, ov_len = v_len, ov_time = 0,
      ov_v = (if v_type = 115 then replicate 8 0 else take 8 (rd_bytes E buf 20 (nat v_len) @ map (env_junk E) [0..<8])),
      ov_str = (if v_type = 115 then Some (drop 20 buf) else None)\<rparr>"

definition owatchHandleReadReply ::
  "env \<Rightarrow> 'a watchdata_scheme jumps \<Rightarrow> int \<Rightarrow> bytes \<Rightarrow> 'a watchdata_scheme \<Rightarrow> oret \<times> 'a watchdata_scheme" where
  "owatchHandleReadReply E J len buf s =
     (let op = ONTOHL (ld32 E buf 0); err = ONTOHL (ld32 E buf 12) in
      if len < 16 \<or> \<not> owatchIsValidOp op s then (ERROR, s)
      else case owatchGetOpData op s of (_, data1, a) \<Rightarrow>
        if data1 \<noteq> OWATCH_OPT_READ \<or> a = 0 then (ERROR, s)
        else
          let fail = (\<lambda>err s. (ERROR, free_read a (snd (owatchFinalizeOp J op err s))));
              q = wi_quarks s a; v_type = rd E buf 16; v_len = ONTOHS (ld16 E buf 18);
              r = the_read s a
          in if err \<noteq> 0 then fail err s
             else if len < 21 \<or> v_type \<noteq> wq_type q \<or> (v_type \<noteq> 115 \<and> v_len \<noteq> wq_len q) \<or> len \<noteq> v_len + 20
             then fail OWATCH_ERR_SCREWED s
             else
               let over = (v_type \<noteq> 115 \<and> v_len > sizeof_variant) in
               case copy_out (reply_value E v_type v_len buf) (rr_pvalue r) (rr_data_buf r) (rr_buf_len r) (ow_mark over s) of
                 (rc, s1) \<Rightarrow>
                   if rc \<noteq> OK then fail OWATCH_ERR_INVALID s1
                   else (OK, free_read a (snd (owatchFinalizeOp J op err s1))))"

definition owatchLazyReadRequest :: "'a watchop_scheme jumps \<Rightarrow> int \<Rightarrow> int \<Rightarrow> int \<Rightarrow> 'a watchop_scheme \<Rightarrow> 'a watchop_scheme" where
  "owatchLazyReadRequest J m_op s_op err s = snd (owatchFinalizeOp J m_op err (snd (owatchUnchainOp m_op s)))"

text \<open>
  The information is there: a value that is monitored is taken from the monitor, otherwise the
  hub is asked. With automatic optimization a monitor is added. \<open>add\<close> is the function of the
  library that adds a monitor and waits for it.
\<close>

definition owatchReadGotDescStage ::
  "env \<Rightarrow> 'a watchdata_scheme jumps \<Rightarrow> (u32 \<Rightarrow> 'a watchdata_scheme \<Rightarrow> int \<times> 'a watchdata_scheme)
    \<Rightarrow> int \<Rightarrow> int \<Rightarrow> int \<Rightarrow> u32 \<Rightarrow> 'a watchdata_scheme \<Rightarrow> 'a watchdata_scheme" where
  "owatchReadGotDescStage E J add m_op s_op err a s0 =
     (let s1 = snd (owatchUnchainOp m_op s0); ooid = wq_ooid (wi_quarks s1 a); r = the_read s1 a;
          fail = (\<lambda>err s. free_read a (snd (owatchFinalizeOp J m_op err s)))
      in if err \<noteq> 0 then fail err s1
         else
           let s3 = (if wd_optimize s1 = ROPT_ALWAYS \<or> wd_optimize s1 = ROPT_AUTO then
                       (case owatchFindMonitorByOoid ooid s1 of
                          (Some _, s2) \<Rightarrow> s2
                        | (None, s2) \<Rightarrow>
                            (case add ooid s2 of (op, s3) \<Rightarrow>
                               snd (owatchLocalOpHandler J op (Some AutoMonitoringHandler) ooid s3)))
                     else s1)
           in case owatchGetValue ooid (rr_pvalue r) (rr_data_buf r) (rr_buf_len r) s3 of (rc, s4) \<Rightarrow>
             if rc = OK \<and> \<not> ov_undef (wm_vals s4 (rr_pvalue r))
             then free_read a (snd (owatchFinalizeOp J m_op OWATCH_ERR_OK s4))
             else case owatchSecureSend E OLANG_DATA OLANG_OOID_READ_REQ 12
                         (st32 (OHTONL (word_of_int m_op)) @ st32 (OHTONL ooid) @ st32 0) s4 of (op, s5) \<Rightarrow>
               if op = OWOP_ERROR then fail OWATCH_ERR_NETWORK s5
               else if op \<noteq> OWOP_OK then snd (owatchChainOps J m_op op LazyReadRequest ooid 0 s5)
               else s5)"

definition owatchReadCanceller :: "u32 \<Rightarrow> 'a watchdata_scheme \<Rightarrow> 'a watchdata_scheme" where
  "owatchReadCanceller data2 s = free_read data2 s"

text \<open>The information is asked for by description or, without one, by identifier.\<close>

definition ask_info ::
  "env \<Rightarrow> 'a watchinfo_scheme jumps \<Rightarrow> bytes option \<Rightarrow> u32 \<Rightarrow> u32 \<Rightarrow> 'a watchinfo_scheme \<Rightarrow> int \<times> 'a watchinfo_scheme" where
  "ask_info E J desc ooid a s =
     (case desc of Some d \<Rightarrow> owatchNowaitGetInfoByDesc E J d a s | None \<Rightarrow> owatchNowaitGetInfoByOoid E J ooid a s)"

definition owatchNowaitReadByAny ::
  "env \<Rightarrow> 'a watchdata_scheme jumps \<Rightarrow> bytes option \<Rightarrow> u32 \<Rightarrow> u32 \<Rightarrow> u32 \<Rightarrow> int \<Rightarrow> 'a watchdata_scheme \<Rightarrow> int \<times> 'a watchdata_scheme" where
  "owatchNowaitReadByAny E J a_desc a_ooid pvalue data_buf buf_len s0 =
     (let s = s0\<lparr>wm_vals := (wm_vals s0)(pvalue := no_value),
                 wm_bufs := (if data_buf \<noteq> 0 then (wm_bufs s0)(data_buf := replicate (nat buf_len) 0) else wm_bufs s0)\<rparr> in
      if \<not> env_alloc E 180 then (OWOP_ERROR, s)
      else case ow_new s of (a, s1) \<Rightarrow>
        let s2 = s1\<lparr>wd_reads := (wd_reads s1)(a := Some \<lparr>rr_pvalue = pvalue, rr_data_buf = data_buf, rr_buf_len = buf_len\<rparr>),
                    wi_quarks := (wi_quarks s1)(a := no_wquark)\<rparr>
        in case owatchAllocateOp (Some CancelRead) OWATCH_OPT_READ a s2 of (m_op, s3) \<Rightarrow>
          if m_op = OWOP_ERROR then (OWOP_ERROR, free_read a s3)
          else case ask_info E J a_desc a_ooid a s3 of (s_op, s4) \<Rightarrow>
            if s_op = OWOP_ERROR then
              (OWOP_ERROR, snd (owatchFinalizeOp J m_op OWATCH_ERR_NOINFO (free_read a s4)))
            else case owatchChainOps J m_op s_op ReadGotDesc 0 a s4 of (rc, s5) \<Rightarrow>
              if rc \<noteq> OK then
                (OWOP_ERROR, snd (owatchFinalizeOp J m_op OWATCH_ERR_INTERNAL (snd (owatchCancelOp J s_op (free_read a s5)))))
              else (m_op, s5))"

section \<open>Writing\<close>

text \<open>Any reply is taken for the operation it names: its type is not checked.\<close>

definition owatchHandleWriteReply ::
  "env \<Rightarrow> 'a watchop_scheme jumps \<Rightarrow> int \<Rightarrow> bytes \<Rightarrow> 'a watchop_scheme \<Rightarrow> oret \<times> 'a watchop_scheme" where
  "owatchHandleWriteReply E J len buf s =
     (let op = ONTOHL (ld32 E buf 0); err = ONTOHL (ld32 E buf 8) in
      if len \<noteq> 12 \<or> \<not> owatchIsValidOp op s then (ERROR, s)
      else (OK, snd (owatchFinalizeOp J op err s)))"

definition owatchLazyWriteRequest :: "'a watchop_scheme jumps \<Rightarrow> int \<Rightarrow> int \<Rightarrow> int \<Rightarrow> 'a watchop_scheme \<Rightarrow> 'a watchop_scheme" where
  "owatchLazyWriteRequest J m_op s_op err s = snd (owatchFinalizeOp J m_op err (snd (owatchUnchainOp m_op s)))"

text \<open>
  The head of a write request; no undefined value is ever written. The length of the variable is
  stored in a \<open>short\<close> first.
\<close>

definition write_head :: "int \<Rightarrow> u32 \<Rightarrow> byte \<Rightarrow> int \<Rightarrow> bytes" where
  "write_head m_op ooid ty n =
     st32 (OHTONL (word_of_int m_op)) @ st32 (OHTONL ooid) @ [ty]
     @ (if n < 0x20 then [word_of_int n] else [0x20 OR (word_of_int (n div 256) AND 0x1f), word_of_int n])"

text \<open>
  The bytes of the value in the type of the variable; the flag tells that the conversion or the
  copy reads or writes out of bounds. A variable without length gets no bytes.
\<close>

definition write_body :: "env \<Rightarrow> owquark \<Rightarrow> writerec \<Rightarrow> bytes option \<times> bool" where
  "write_body E q w =
     (let n = nat (to_short (wq_len q)); src = wr_src w; dst = no_value\<lparr>ov_type := wq_type q, ov_len := wq_len q\<rparr> in
      if n = 0 then (Some [], False)
      else if ov_type src = wq_type q then
        (if ov_type src = 115 then (Some (rd_bytes E (wr_str w) 0 n), length (wr_str w) < n)
         else (Some (rd_bytes E (ov_v src) 0 n), 8 < n))
      else if wq_type q = 115 then
        (case owatchConvertValue (Some src) (Some dst) (Some (replicate n 0)) (int n) of
           (rc, p, b, ub) \<Rightarrow> (if rc \<noteq> OK then None else Some (take n (the_bytes b)), ub))
      else
        (case owatchConvertValue (Some src) (Some dst) None 0 of
           (rc, p, b, ub) \<Rightarrow>
             (if rc \<noteq> OK then None else Some (rd_bytes E (case p of None \<Rightarrow> [] | Some d \<Rightarrow> ov_v d) 0 n), ub \<or> 8 < n)))"

definition owatchWriteGotDescStage ::
  "env \<Rightarrow> 'a watchdata_scheme jumps \<Rightarrow> int \<Rightarrow> int \<Rightarrow> int \<Rightarrow> u32 \<Rightarrow> 'a watchdata_scheme \<Rightarrow> 'a watchdata_scheme" where
  "owatchWriteGotDescStage E J m_op s_op err a s0 =
     (let s1 = snd (owatchUnchainOp m_op s0); q = wi_quarks s1 a; w = the_write s1 a; n = to_short (wq_len q);
          forget = (\<lambda>s. free_write a (snd (owatchSetOpData m_op OWATCH_OPT_WRITE 0 s)));
          fail = (\<lambda>err s. snd (owatchFinalizeOp J m_op err (forget s)))
      in if err \<noteq> 0 then fail err s1
         else if n + 32 \<le> 0 \<or> \<not> env_alloc E (nat (n + 32)) then fail OWATCH_ERR_NOSPACE s1
         else case write_body E q w of (body, ub) \<Rightarrow>
           let s2 = ow_mark ub s1 in
           case body of
             None \<Rightarrow> fail OWATCH_ERR_INVALID s2
           | Some b \<Rightarrow>
               let pkt = write_head m_op (wq_ooid q) (wq_type q) n @ b in
               case owatchSecureSend E OLANG_DATA OLANG_OOID_WRITE_REQ (int (length pkt)) pkt s2 of (op, s3) \<Rightarrow>
                 if op = OWOP_ERROR then fail OWATCH_ERR_NETWORK s3
                 else forget (if op \<noteq> OWOP_OK then snd (owatchChainOps J m_op op LazyWriteRequest (wq_ooid q) 0 s3) else s3))"

definition owatchWriteCanceller :: "u32 \<Rightarrow> 'a watchdata_scheme \<Rightarrow> 'a watchdata_scheme" where
  "owatchWriteCanceller data2 s = (if data2 = 0 then s else free_write data2 s)"

text \<open>The record has place for the text, 4 bytes more than its length.\<close>

definition owatchNowaitWriteByAny ::
  "env \<Rightarrow> 'a watchdata_scheme jumps \<Rightarrow> bytes option \<Rightarrow> u32 \<Rightarrow> oval \<Rightarrow> 'a watchdata_scheme \<Rightarrow> int \<times> 'a watchdata_scheme" where
  "owatchNowaitWriteByAny E J a_desc a_ooid pval s =
     (let len = owatchGetValueLength pval + 4 in
      if \<not> env_alloc E (nat (204 + len)) then (OWOP_ERROR, s)
      else case ow_new s of (a, s1) \<Rightarrow>
        case owatchAllocateOp (Some CancelWrite) OWATCH_OPT_WRITE a s1 of (m_op, s2) \<Rightarrow>
          if m_op = OWOP_ERROR then (OWOP_ERROR, s2)
          else case owatchCopyValue pval (Some no_value) (Some (replicate (nat (len + 4)) 0)) len of (rc, v, b, ub) \<Rightarrow>
            let s3 = ow_mark ub s2; fail = (\<lambda>err s. (OWOP_ERROR, snd (owatchFinalizeOp J m_op err s))) in
            if rc \<noteq> OK then fail OWATCH_ERR_INVALID s3
            else
              let s4 = s3\<lparr>wd_writes := (wd_writes s3)(a := Some \<lparr>wr_src = (case v of None \<Rightarrow> no_value | Some x \<Rightarrow> x),
                            wr_str = the_bytes b\<rparr>), wi_quarks := (wi_quarks s3)(a := no_wquark)\<rparr>
              in case ask_info E J a_desc a_ooid a s4 of (s_op, s5) \<Rightarrow>
                if s_op = OWOP_ERROR then fail OWATCH_ERR_NOINFO (free_write a s5)
                else case owatchChainOps J m_op s_op WriteGotDesc 0 a s5 of (rc2, s6) \<Rightarrow>
                  if rc2 \<noteq> OK then fail OWATCH_ERR_INTERNAL (snd (owatchCancelOp J s_op (free_write a s6)))
                  else (m_op, s6))"

end
