(* ===== verification/WatchMsg.thy ===== *)
theory WatchMsg
  imports WatchData
begin

text \<open>
  Messages in the watcher library (watch-msg.c): the handlers of message classes, the queue of
  messages that arrived and its marks, the requests that wait for a message, sending.
  Control messages (\<open>owatchSendCtlMsg\<close>) are not modelled.
\<close>

section \<open>State\<close>

record wmsgclass =
  mc_klass :: int
  mc_handler :: nat
  mc_param :: u32

record pendingmsg =
  pm_ooid :: u32
  pm_src :: bytes
  pm_dest :: bytes
  pm_klass :: int
  pm_type :: int
  pm_len :: int
  pm_data :: "bytes option"

text \<open>A request for a message: the addresses of the client's variables, 0 for NULL.\<close>

record recvrec =
  rv_ptr :: u32
  rv_op :: int
  rv_ooid_p :: u32
  rv_src_p :: u32
  rv_dest_p :: u32
  rv_klass_p :: u32
  rv_type_p :: u32
  rv_len_p :: u32
  rv_data_p :: u32

text \<open>
  The lists are doubly linked in the code. \<open>wx_dangling\<close> tells that the last class still links to a
  record that was freed. \<open>wx_ints\<close> is memory of the client.
\<close>

record watchmsg = watchdata +
  wx_classes :: "wmsgclass list"
  wx_dangling :: bool
  wx_queue :: "pendingmsg list"
  wx_rcvrs :: "recvrec list"
  wx_himark :: bool
  wx_cur_count :: int
  wx_cur_bytes :: int
  wx_hi_count :: int
  wx_hi_bytes :: int
  wx_ack_count :: int
  wx_auto_ooid :: u32
  wx_ints :: "u32 \<Rightarrow> int"
  wx_remote_log :: bool

definition owatchSetupMessages :: "env \<Rightarrow> 'a watchmsg_scheme \<Rightarrow> oret \<times> 'a watchmsg_scheme" where
  "owatchSetupMessages E s = (OK, s\<lparr>wx_auto_ooid := (word_of_int (env_now E) AND 0x1ff) * 3 + 4, wx_ack_count := 0\<rparr>)"

definition owatchClearMessages :: "'a watchmsg_scheme jumps \<Rightarrow> 'a watchmsg_scheme \<Rightarrow> 'a watchmsg_scheme" where
  "owatchClearMessages J s =
     (let s1 = fold (\<lambda>r s. snd (owatchCancelOp J (rv_op r) (snd (owatchSetOpData (rv_op r) 0 0 s)))) (wx_rcvrs s)
                 (s\<lparr>wx_classes := [], wx_dangling := False, wx_queue := [], wx_rcvrs := []\<rparr>)
      in s1\<lparr>wx_himark := False, wx_cur_count := 0, wx_hi_count := 0, wx_cur_bytes := 0, wx_hi_bytes := 0, wx_ack_count := 0\<rparr>)"

section \<open>Message classes\<close>

definition class_act :: "int \<Rightarrow> int list \<Rightarrow> bytes" where
  "class_act act ks = st16 (OHTONS act) @ st16 (OHTONS (int (length ks))) @ concat (map (\<lambda>k. st16 (OHTONS k)) ks)"

definition owatchAddMsgHandler :: "env \<Rightarrow> int \<Rightarrow> nat \<Rightarrow> u32 \<Rightarrow> 'a watchmsg_scheme \<Rightarrow> oret \<times> 'a watchmsg_scheme" where
  "owatchAddMsgHandler E klass f param s =
     (let c = \<lparr>mc_klass = klass, mc_handler = f, mc_param = param\<rparr> in
      if klass < 0 \<or> klass > OLANG_MAX_MSG_KLASS then (ERROR, s)
      else if klass = 0 then
        (if wx_classes s \<noteq> [] \<and> mc_klass (last (wx_classes s)) = 0 then (ERROR, s)
         else if \<not> env_alloc E 20 then (ERROR, s)
         else (OK, s\<lparr>wx_classes := wx_classes s @ [c], wx_dangling := False\<rparr>))
      else if \<exists>d \<in> set (wx_classes s). mc_klass d = klass \<and> mc_handler d = f then (ERROR, s)
      else
        let s1 = ow_mark (wx_dangling s) s in
        if \<not> env_alloc E 20 then (ERROR, s1)
        else if (\<forall>d \<in> set (wx_classes s). mc_klass d \<noteq> klass) \<and> owatchIsConnected s1 then
          (case owatchSendPacket E OLANG_DATA OLANG_MSG_CLASS_ACT 6 (Some (class_act 1 [klass])) s1 of (rc, s2) \<Rightarrow>
             if rc \<noteq> OK then (ERROR, s2) else (OK, s2\<lparr>wx_classes := c # wx_classes s2\<rparr>))
        else (OK, s1\<lparr>wx_classes := c # wx_classes s1\<rparr>))"

text \<open>
  The handler of all classes (class 0) is the last one; when it is removed the link of the one
  before it is not cleared.
\<close>

definition owatchRemoveMsgHandler :: "env \<Rightarrow> int \<Rightarrow> nat \<Rightarrow> 'a watchmsg_scheme \<Rightarrow> oret \<times> 'a watchmsg_scheme" where
  "owatchRemoveMsgHandler E klass f s =
     (let cs = wx_classes s; mine = (\<lambda>d. mc_klass d = klass \<and> mc_handler d = f) in
      if klass < 0 \<or> klass > OLANG_MAX_MSG_KLASS then (ERROR, s)
      else if klass = 0 then
        (if cs = [] \<or> \<not> mine (last cs) then (ERROR, s)
         else (OK, s\<lparr>wx_classes := butlast cs, wx_dangling := (butlast cs \<noteq> [])\<rparr>))
      else
        let num = length (filter (\<lambda>d. mc_klass d = klass) cs);
            s1 = ow_mark (wx_dangling s \<and> (num \<le> 1 \<or> \<not> (\<exists>d \<in> set cs. mine d))) s
        in if \<not> (\<exists>d \<in> set cs. mine d) then (ERROR, s1)
           else
             case (if num = 1 \<and> owatchIsConnected s1
                   then owatchSendPacket E OLANG_DATA OLANG_MSG_CLASS_ACT 6 (Some (class_act 0 [klass])) s1 else (OK, s1)) of
               (rc, s2) \<Rightarrow>
                 if rc \<noteq> OK then (ERROR, s2)
                 else (OK, (ow_mark (wx_dangling s2 \<and> mine (last cs)) s2)\<lparr>wx_classes := filter (\<lambda>d. \<not> mine d) cs\<rparr>))"

text \<open>The buffer has 1025 words; all handlers are listed, also several of one class.\<close>

definition owatchMsgClassRegistration :: "env \<Rightarrow> bool \<Rightarrow> 'a watchmsg_scheme \<Rightarrow> oret \<times> 'a watchmsg_scheme" where
  "owatchMsgClassRegistration E enable s =
     (let ks = map mc_klass (wx_classes s); s1 = ow_mark (wx_dangling s \<or> length ks + 2 > 1025) s in
      if ks = [] then (OK, s1)
      else owatchSendPacket E OLANG_DATA OLANG_MSG_CLASS_ACT (int ((length ks + 2) * 2))
             (Some (class_act (if enable then 2 else 0) ks)) s1)"

definition owatchSetMsgQueueLimits :: "int \<Rightarrow> int \<Rightarrow> 'a watchmsg_scheme \<Rightarrow> oret \<times> 'a watchmsg_scheme" where
  "owatchSetMsgQueueLimits max_messages max_bytes s =
     (if (max_messages \<noteq> 0 \<and> max_messages < 4) \<or> (max_bytes \<noteq> 0 \<and> max_bytes < 4) then (ERROR, s)
      else (OK, s\<lparr>wx_hi_count := max_messages, wx_hi_bytes := max_bytes\<rparr>))"

definition owatchGetAckCount :: "bool \<Rightarrow> 'a watchmsg_scheme \<Rightarrow> int \<times> 'a watchmsg_scheme" where
  "owatchGetAckCount flush s = (wx_ack_count s, if flush then s\<lparr>wx_ack_count := 0\<rparr> else s)"

section \<open>Receiving\<close>

text \<open>A copy into memory of the client that is not checked against its size.\<close>

definition put_client :: "u32 \<Rightarrow> bytes \<Rightarrow> 'a watchmsg_scheme \<Rightarrow> 'a watchmsg_scheme" where
  "put_client a bs s =
     (if a = 0 then s
      else (ow_mark (length bs > length (wm_bufs s a)) s)\<lparr>wm_bufs := (wm_bufs s)(a := store (wm_bufs s a) 0 bs)\<rparr>)"

definition put_int :: "u32 \<Rightarrow> int \<Rightarrow> 'a watchmsg_scheme \<Rightarrow> 'a watchmsg_scheme" where
  "put_int a v s = (if a = 0 then s else s\<lparr>wx_ints := (wx_ints s)(a := v)\<rparr>)"

definition c_str :: "bytes \<Rightarrow> bytes" where "c_str b = takeWhile (\<lambda>c. c \<noteq> 0) b"

definition owatchGiveAwayMsg ::
  "'a watchmsg_scheme jumps \<Rightarrow> recvrec \<Rightarrow> pendingmsg \<Rightarrow> 'a watchmsg_scheme \<Rightarrow> int \<times> 'a watchmsg_scheme" where
  "owatchGiveAwayMsg J r m s =
     (let s1 = put_int (rv_type_p r) (pm_type m) (put_int (rv_klass_p r) (pm_klass m)
                 (if rv_ooid_p r = 0 then s else s\<lparr>wm_ooids := (wm_ooids s)(rv_ooid_p r := pm_ooid m)\<rparr>));
          s2 = put_client (rv_dest_p r) (c_str (pm_dest m) @ [0]) (put_client (rv_src_p r) (c_str (pm_src m) @ [0]) s1);
          room = wx_ints s2 (rv_len_p r);
          (m_len, err) = (if pm_len m \<le> room then (pm_len m, 0) else (room, OWATCH_ERR_MSG_TRUNC));
          s3 = (if pm_len m \<le> room then put_int (rv_len_p r) m_len s2 else s2);
          s4 = (if m_len > 0 then put_client (rv_data_p r) (take (nat m_len) (the_bytes (pm_data m))) s3 else s3)
      in (err, snd (owatchFinalizeOp J (rv_op r) err s4)))"

definition over_mark :: "int \<Rightarrow> 'a watchmsg_scheme \<Rightarrow> bool" where
  "over_mark third s \<longleftrightarrow> (wx_hi_count s > 0 \<and> wx_cur_count s > wx_hi_count s * third div 3)
     \<or> (wx_hi_bytes s \<noteq> 0 \<and> wx_cur_bytes s > wx_hi_bytes s * third div 3)"

text \<open>A message nobody waits for is queued, up to the limits; past two thirds the hub is told.\<close>

definition queue_msg :: "env \<Rightarrow> pendingmsg \<Rightarrow> 'a watchmsg_scheme \<Rightarrow> oret \<times> 'a watchmsg_scheme" where
  "queue_msg E m s =
     (if (wx_hi_count s > 0 \<and> wx_cur_count s + 1 > wx_hi_count s)
         \<or> (wx_hi_bytes s > 0 \<and> wx_cur_bytes s + pm_len m > wx_hi_bytes s) then (ERROR, s)
      else
        let s1 = s\<lparr>wx_queue := wx_queue s @ [m], wx_cur_count := wx_cur_count s + 1, wx_cur_bytes := wx_cur_bytes s + pm_len m\<rparr>
        in (OK, if \<not> wx_himark s1 \<and> over_mark 2 s1
                then snd (owatchSendPacket E OLANG_DATA OLANG_MSG_HIMARK 0 None (s1\<lparr>wx_himark := True\<rparr>)) else s1))"

text \<open>The packet of a message; class \<open>0x7030\<close> with type \<open>0x7031\<close> is an acknowledgement.\<close>

definition parse_message :: "env \<Rightarrow> int \<Rightarrow> bytes \<Rightarrow> pendingmsg option" where
  "parse_message E len buf =
     (let m_len = OUNTOHS (ld16 E buf 8); s_len = OUNTOHS (ld16 E buf 10); d_len = OUNTOHS (ld16 E buf 12) in
      if len < 18 \<or> len \<noteq> 18 + s_len + d_len + m_len then None
      else Some \<lparr>pm_ooid = OUNTOHL (ld32 E buf 4), pm_src = rd_bytes E buf 18 (nat s_len),
                 pm_dest = rd_bytes E buf (18 + nat s_len) (nat d_len), pm_klass = OUNTOHS (ld16 E buf 14),
                 pm_type = OUNTOHS (ld16 E buf 16), pm_len = m_len,
                 pm_data = (if m_len > 0 then Some (rd_bytes E buf (18 + nat s_len + nat d_len) (nat m_len)) else None)\<rparr>)"

definition is_ack :: "pendingmsg \<Rightarrow> bool" where
  "is_ack m \<longleftrightarrow> pm_klass m = 0x7030 \<and> pm_type m = 0x7031"

definition owatchHandleMsgRecv ::
  "env \<Rightarrow> 'a watchmsg_scheme jumps \<Rightarrow> int \<Rightarrow> bytes \<Rightarrow> 'a watchmsg_scheme \<Rightarrow> oret \<times> 'a watchmsg_scheme" where
  "owatchHandleMsgRecv E J len buf s0 =
     (case parse_message E len buf of
        None \<Rightarrow> (ERROR, s0)
      | Some m \<Rightarrow>
          let s = (if is_ack m then s0\<lparr>wx_ack_count := wx_ack_count s0 + 1\<rparr> else s0) in
          if \<not> env_alloc E 36 \<or> \<not> env_alloc E (length (pm_src m) + 1) \<or> \<not> env_alloc E (length (pm_dest m) + 1)
             \<or> (pm_len m > 0 \<and> \<not> env_alloc E (nat (pm_len m))) then (ERROR, s)
          else case find (\<lambda>c. mc_klass c = pm_klass m \<or> mc_klass c = 0) (wx_classes s) of
            Some c \<Rightarrow> (OK, ow_call (MsgCall (mc_handler c) (pm_ooid m) (c_str (pm_src m)) (c_str (pm_dest m)) (pm_klass m)
                             (pm_type m) (pm_data m) (mc_param c)) s)
          | None \<Rightarrow>
              let s1 = ow_mark (wx_dangling s) s in
              if is_ack m then (OK, s1)
              else case wx_rcvrs s1 of
                r # rs \<Rightarrow> (OK, snd (owatchGiveAwayMsg J r m (s1\<lparr>wx_rcvrs := rs\<rparr>)))
              | [] \<Rightarrow> queue_msg E m s1)"

definition owatchMsgRecvCanceller :: "u32 \<Rightarrow> 'a watchmsg_scheme \<Rightarrow> 'a watchmsg_scheme" where
  "owatchMsgRecvCanceller data2 s =
     (if data2 = 0 then s
      else (ow_mark (\<forall>r \<in> set (wx_rcvrs s). rv_ptr r \<noteq> data2) s)\<lparr>wx_rcvrs := filter (\<lambda>r. rv_ptr r \<noteq> data2) (wx_rcvrs s)\<rparr>)"

text \<open>Down to one third the hub is told to go on.\<close>

definition unqueue_msg :: "env \<Rightarrow> 'a watchmsg_scheme jumps \<Rightarrow> recvrec \<Rightarrow> 'a watchmsg_scheme \<Rightarrow> 'a watchmsg_scheme" where
  "unqueue_msg E J r s =
     (let m = hd (wx_queue s);
          s1 = snd (owatchGiveAwayMsg J r m (s\<lparr>wx_queue := tl (wx_queue s)\<rparr>));
          s2 = s1\<lparr>wx_cur_count := wx_cur_count s1 - 1, wx_cur_bytes := wx_cur_bytes s1 - pm_len m\<rparr>
      in if wx_himark s2 \<and> (wx_hi_count s2 \<le> 0 \<or> wx_cur_count s2 \<le> wx_hi_count s2 * 1 div 3)
            \<and> (wx_hi_bytes s2 \<le> 0 \<or> wx_cur_bytes s2 \<le> wx_hi_bytes s2 * 1 div 3)
         then snd (owatchSendPacket E OLANG_DATA OLANG_MSG_LOMARK 0 None (s2\<lparr>wx_himark := False\<rparr>)) else s2)"

definition owatchNowaitMsgRecv ::
  "env \<Rightarrow> 'a watchmsg_scheme jumps \<Rightarrow> u32 \<Rightarrow> u32 \<Rightarrow> u32 \<Rightarrow> u32 \<Rightarrow> u32 \<Rightarrow> u32 \<Rightarrow> u32 \<Rightarrow> 'a watchmsg_scheme \<Rightarrow> int \<times> 'a watchmsg_scheme" where
  "owatchNowaitMsgRecv E J ooid_p src_p dest_p klass_p type_p data_p len_p s =
     (if data_p = 0 \<or> len_p = 0 \<or> wx_ints s len_p \<le> 0 then (OWOP_ERROR, s)
      else case owatchAllocateOp (Some CancelMsgRecv) OWATCH_OPT_MSG_RECV 0 s of (op, s1) \<Rightarrow>
        if op = OWOP_ERROR then (OWOP_ERROR, s1)
        else if \<not> env_alloc E 40 then (op, snd (owatchFinalizeOp J op OWATCH_ERR_NOSPACE s1))
        else case ow_new s1 of (a, s2) \<Rightarrow>
          let r = \<lparr>rv_ptr = a, rv_op = op, rv_ooid_p = ooid_p, rv_src_p = src_p, rv_dest_p = dest_p,
                   rv_klass_p = klass_p, rv_type_p = type_p, rv_len_p = len_p, rv_data_p = data_p\<rparr>;
              s3 = snd (owatchSetOpData op OWATCH_OPT_MSG_RECV a s2)
          in (op, if wx_queue s3 \<noteq> [] then unqueue_msg E J r s3 else s3\<lparr>wx_rcvrs := wx_rcvrs s3 @ [r]\<rparr>))"

section \<open>Sending\<close>

definition msg_error :: "int \<Rightarrow> int" where
  "msg_error err =
     (if err = uint OLANG_ERR_RCVR_OFF then OWATCH_ERR_RCVR_OFF
      else if err = uint OLANG_ERR_RCVR_FULL then OWATCH_ERR_RCVR_FULL
      else if err = uint OLANG_ERR_RCVR_DOWN then OWATCH_ERR_NETWORK else err)"

definition owatchHandleMsgSendReply ::
  "env \<Rightarrow> 'a watchop_scheme jumps \<Rightarrow> int \<Rightarrow> bytes \<Rightarrow> 'a watchop_scheme \<Rightarrow> oret \<times> 'a watchop_scheme" where
  "owatchHandleMsgSendReply E J len buf s =
     (let op = sint (OUNTOHL (ld32 E buf 0)); err = msg_error (ONTOHL (ld32 E buf 4)) in
      if len \<noteq> 8 \<or> \<not> owatchIsValidOp op s then (ERROR, s)
      else (OK, snd (owatchFinalizeOp J op err s)))"

text \<open>When the packet could not be sent the operation is not finished; it stays pending.\<close>

definition owatchMsgSendDone :: "int \<Rightarrow> int \<Rightarrow> int \<Rightarrow> 'a watchop_scheme \<Rightarrow> 'a watchop_scheme" where
  "owatchMsgSendDone m_op s_op err s = snd (owatchUnchainOp m_op s)"

definition message_request :: "int \<Rightarrow> u32 \<Rightarrow> bytes \<Rightarrow> bytes \<Rightarrow> int \<Rightarrow> int \<Rightarrow> bytes \<Rightarrow> bytes" where
  "message_request op ooid src dest klass ty data =
     st32 (OHTONL (word_of_int op)) @ st32 (OHTONL ooid) @ st16 (OHTONS (int (length data)))
     @ st16 (OHTONS (int (length src))) @ st16 (OHTONS (int (length dest))) @ st16 (OHTONS klass) @ st16 (OHTONS ty)
     @ src @ dest @ data"

definition owatchNowaitMsgSend ::
  "env \<Rightarrow> 'a watchmsg_scheme jumps \<Rightarrow> u32 \<Rightarrow> bytes \<Rightarrow> int \<Rightarrow> int \<Rightarrow> bytes option \<Rightarrow> int \<Rightarrow> 'a watchmsg_scheme \<Rightarrow> int \<times> 'a watchmsg_scheme" where
  "owatchNowaitMsgSend E J ooid0 dest klass ty data len s =
     (if len < 0 \<or> len > OLANG_MAX_PACKET \<or> (len > 0 \<and> data = None) \<or> klass < 0 \<or> klass > OLANG_MAX_MSG_KLASS
         \<or> ty < 0 \<or> ty > OLANG_MAX_MSG_TYPE then (OWOP_ERROR, s)
      else
        let (ooid, s1) = (if ooid0 = 0 then (wx_auto_ooid s + 1, s\<lparr>wx_auto_ooid := wx_auto_ooid s + 1\<rparr>) else (ooid0, s)) in
        case owatchAllocateOp None OWATCH_OPT_MSG_SEND 0 s1 of (m_op, s2) \<Rightarrow>
          if m_op = OWOP_ERROR then (OWOP_ERROR, s2)
          else
            let body = rd_bytes E (the_bytes data) 0 (nat len);
                pkt = message_request m_op ooid (wn_watcher_desc s2) dest klass ty body
            in if \<not> env_alloc E (length pkt) then (OWOP_ERROR, snd (owatchFinalizeOp J m_op OWATCH_ERR_NOSPACE s2))
               else case owatchSecureSend E OLANG_DATA OLANG_MSG_SEND_REQ (int (length pkt)) pkt s2 of (s_op, s3) \<Rightarrow>
                 if s_op = OWOP_ERROR then (OWOP_ERROR, snd (owatchFinalizeOp J m_op OWATCH_ERR_NETWORK s3))
                 else (m_op, if s_op \<noteq> OWOP_OK then snd (owatchChainOps J m_op s_op MsgSendDone ooid 0 s3) else s3))"

section \<open>Remote logging\<close>

text \<open>A line of the log, sent to the hub with its NUL.\<close>

definition owatchRemoteLogHandler :: "env \<Rightarrow> bytes \<Rightarrow> 'a watchmsg_scheme \<Rightarrow> 'a watchmsg_scheme" where
  "owatchRemoteLogHandler E msg s =
     (if wn_initialized s \<and> wx_remote_log s
      then snd (owatchSendPacket E OLANG_DATA OLANG_REMOTE_LOG (int (length msg) + 1) (Some (msg @ [0])) s) else s)"

definition owatchRemoteLog :: "bool \<Rightarrow> 'a watchmsg_scheme \<Rightarrow> bool \<times> 'a watchmsg_scheme" where
  "owatchRemoteLog enable s = (wx_remote_log s, s\<lparr>wx_remote_log := enable\<rparr>)"

end
