(* ===== verification/WatchNet.thy ===== *)
theory WatchNet
  imports WatchMsg
begin

text \<open>
  The network part of the watcher library (watch-network.c): the connection with the hub, the
  dispatch of packets (watch-proper.c), receiving, one poll; then waiting for operations
  (watch-op.c).
\<close>

section \<open>State\<close>

definition OLANG_HUB_PORT :: int where "OLANG_HUB_PORT = 3210"
definition OWATCH_POLL_INTERVAL_MS :: int where "OWATCH_POLL_INTERVAL_MS = 50"

text \<open>What \<open>select\<close> finds on the sockets in one poll; \<open>we_num\<close> is its result.\<close>

record watch_events =
  we_num :: int
  we_eintr :: bool
  we_dgram :: "bytes option"
  we_read :: "(bytes \<times> bool) option"
  we_write :: bool

text \<open>
  \<open>wy_future\<close> is not in the code: the clock and the events of the polls to come, in their order. A
  wait that finds it empty is still blocked; \<open>wy_waiting\<close> tells so. \<open>wy_deep\<close> is set where the
  nesting of function pointers or of packets is deeper than the fuel of the model.
\<close>

record watchnet = watchmsg +
  wy_future :: "(env \<times> watch_events) list"
  wy_waiting :: bool
  wy_deep :: bool

section \<open>Closing\<close>

definition owatchDisconnectData :: "env \<Rightarrow> 'a watchnet_scheme jumps \<Rightarrow> 'a watchnet_scheme \<Rightarrow> 'a watchnet_scheme" where
  "owatchDisconnectData E J s0 =
     (let s1 = owatchCancelAllTriggers J (owatchFlushInfoCache s0);
          s2 = s1\<lparr>wn_poll_buf := map_option (\<lambda>_. replicate (wn_poll_size s1) no_packet) (wn_poll_buf s1),
                  wn_poll_rd := 0, wn_poll_wr := 0, wn_poll_len := 0,
                  q_buf := (if q_buf s1 = [] then [] else replicate (q_size s1) no_packet),
                  q_rd := 0, q_wr := 0, q_len := 0, hdr_off := 0,
                  reget_buf := None, reget_len := -1, reget_off := -1, reget_type := -1,
                  reput_buf := None, reput_len := -1, reput_type := -1, data_sock := 0\<rparr>
      in (snd (owatchSetSubjectState E [42] (Some []) 0 s2))\<lparr>p_id := 0, wn_temp_id := 0\<rparr>)"

definition owatchCancelConnection :: "env \<Rightarrow> 'a watchnet_scheme jumps \<Rightarrow> 'a watchnet_scheme \<Rightarrow> 'a watchnet_scheme" where
  "owatchCancelConnection E J s = (owatchDisconnectData E J s)\<lparr>wn_conn_op := OWOP_ERROR\<rparr>"

text \<open>The state is NONE before its old value is asked for, so the result is always ERROR.\<close>

definition owatchDisconnect :: "env \<Rightarrow> 'a watchnet_scheme jumps \<Rightarrow> 'a watchnet_scheme \<Rightarrow> oret \<times> 'a watchnet_scheme" where
  "owatchDisconnect E J s =
     (let s1 = owatchDisconnectData E J (snd (owatchCancelOp J OWOP_ALL s));
          s2 = s1\<lparr>wn_cntl_sock := 0, wn_poll_buf := None, wn_poll_len := 0, wn_poll_size := 0, wn_poll_rd := 0,
                  wn_poll_wr := 0, q_buf := [], q_len := 0, q_size := 0, q_rd := 0, q_wr := 0,
                  wn_data_addr := no_addr, cntl_addr := no_addr, wn_ping_cur_ms := 0, wn_ping_wd := 0,
                  alive_get_wd := 0, alive_put_wd := 0, p_state := ST_NONE, wn_is_polling := False,
                  wn_poll_depth := 0, wn_routine_ms := 0\<rparr>;
          rc = (if p_state s2 \<noteq> ST_NONE then OK else ERROR)
      in (rc, s2\<lparr>p_state := ST_NONE\<rparr>))"

definition owatchGetFileHandles :: "int \<Rightarrow> 'a watchnet_scheme \<Rightarrow> oret \<times> int list" where
  "owatchGetFileHandles buf_size s =
     (if buf_size < 2 then (ERROR, []) else (OK, [data_sock s, wn_cntl_sock s]))"

section \<open>Replies about the connection\<close>

definition connect_packet :: "u16 \<Rightarrow> bytes \<Rightarrow> bytes" where
  "connect_packet port desc =
     st16 (OHTONS OLANG_VERSION) @ st16 port @ st32 OLANG_MAGIC @ [of_nat (length desc)] @ desc"

definition owatchHandlePingReply ::
  "env \<Rightarrow> int \<Rightarrow> int \<Rightarrow> int \<Rightarrow> bytes \<Rightarrow> 'a watchnet_scheme \<Rightarrow> oret \<times> 'a watchnet_scheme" where
  "owatchHandlePingReply E kind ty len buf s0 =
     (if ty \<noteq> OLANG_PING_ACK \<or> len \<noteq> 4 \<or> kind \<noteq> OLANG_CONTROL \<or> ld16 E buf 0 \<noteq> OHTONS OLANG_VERSION then (ERROR, s0)
      else
        let s = s0\<lparr>wn_ping_cur_ms := OLANG_PING_MIN_MS\<rparr>;
            fail = (\<lambda>s. (ERROR, s\<lparr>p_state := ST_WAIT, data_sock := 0\<rparr>))
        in if p_state s = ST_OPEN then (OK, s)
           else case env_connect E of
             SockFail \<Rightarrow> (ERROR, s\<lparr>data_sock := 0\<rparr>)
           | ConnFail \<Rightarrow> fail s
           | Connected fd \<Rightarrow>
               let pkt = connect_packet (sin_port (wn_my_addr s)) (wn_watcher_desc s) in
               case owatchSendPacket E OLANG_DATA OLANG_CONN_REQ (int (length pkt)) (Some pkt)
                      (s\<lparr>data_sock := fd, p_state := ST_OPEN\<rparr>) of
                 (rc, s1) \<Rightarrow> if rc \<noteq> OK then fail s1
                             else (OK, s1\<lparr>alive_get_wd := env_now E, alive_put_wd := env_now E\<rparr>))"

text \<open>
  The acknowledgement: the operation of connecting ends, what waited is sent, the monitors are
  checked, the message classes announced. A completion may add a record to those that wait, with
  an operation of the table; the fuel allows for as many.
\<close>

definition owatchHandleConnAck :: "env \<Rightarrow> 'a watchnet_scheme jumps \<Rightarrow> 'a watchnet_scheme \<Rightarrow> oret \<times> 'a watchnet_scheme" where
  "owatchHandleConnAck E J s0 =
     (let s1 = s0\<lparr>p_id := wn_temp_id s0\<rparr>;
          s2 = (snd (owatchFinalizeOp J (wn_conn_op s1) OWATCH_ERR_OK s1))\<lparr>wn_conn_op := OWOP_OK\<rparr>;
          s3 = resend_secure E J (length (wn_sendrecs s2) + OWATCH_MAX_OPS) s2;
          s4 = snd (owatchMonSecureStart E J s3);
          s5 = snd (owatchMsgClassRegistration E True s4)
      in (OK, snd (owatchSetSubjectState E [42] (Some [42]) 0 s5)))"

text \<open>A refusal closes the data connection; the state of the connection stays.\<close>

definition handle_refusal :: "env \<Rightarrow> 'a watchnet_scheme jumps \<Rightarrow> 'a watchnet_scheme \<Rightarrow> 'a watchnet_scheme" where
  "handle_refusal E J s =
     (let s1 = owatchDisconnectData E J s
      in (snd (owatchFinalizeOp J (wn_conn_op s1) OWATCH_ERR_REFUSED s1))\<lparr>wn_conn_op := OWOP_ERROR\<rparr>)"

section \<open>Dispatch\<close>

definition owatchHandleIncoming ::
  "env \<Rightarrow> 'a watchnet_scheme jumps \<Rightarrow> int \<Rightarrow> int \<Rightarrow> bytes \<Rightarrow> 'a watchnet_scheme \<Rightarrow> oret \<times> 'a watchnet_scheme" where
  "owatchHandleIncoming E J ty len buf s =
     (if ty = OLANG_SUBJECTS then (OK, snd (owatchHandleSubjects E len buf s))
      else if ty = OLANG_INFO_BY_ANY_REPLY then (OK, snd (owatchHandleGetInfoReply E J len buf s))
      else if ty = OLANG_MON_REG_ACK \<or> ty = OLANG_MON_REG_NAK \<or> ty = OLANG_MON_UNREG_ACK \<or> ty = OLANG_MON_UNREG_NAK
      then (OK, snd (owatchHandleRegistration E J ty len buf s))
      else if ty = OLANG_MON_COMBO_REPLY then (OK, snd (owatchHandleMonComboReply E J len buf s))
      else if ty = OLANG_MONITORING then (OK, snd (owatchHandleMonitoring E J len buf s))
      else if ty = OLANG_OOID_WRITE_REPLY then (OK, snd (owatchHandleWriteReply E J len buf s))
      else if ty = OLANG_OOID_READ_REPLY then (OK, snd (owatchHandleReadReply E J len buf s))
      else if ty = OLANG_TRIGGER_REPLY then (OK, snd (owatchHandleTriggerReply E J len buf s))
      else if ty = OLANG_MSG_SEND_REPLY then (OK, snd (owatchHandleMsgSendReply E J len buf s))
      else if ty = OLANG_MSG_RECV then (OK, snd (owatchHandleMsgRecv E J len buf s))
      else (ERROR, s))"

text \<open>A packet that arrives during a poll waits in a ring until the poll is over.\<close>

definition buffer_packet :: "env \<Rightarrow> int \<Rightarrow> int \<Rightarrow> bytes \<Rightarrow> 'a watchnet_scheme \<Rightarrow> oret \<times> 'a watchnet_scheme" where
  "buffer_packet E ty len buf s0 =
     (if wn_poll_len s0 = int (wn_poll_size s0) then (ERROR, s0)
      else
        let s = ow_mark (wn_poll_buf s0 = None) s0;
            put = (\<lambda>b. s\<lparr>wn_poll_buf := map_option (\<lambda>ps. ps[wn_poll_wr s := \<lparr>pk_type = ty, pk_len = len, pk_buf = b\<rparr>]) (wn_poll_buf s)\<rparr>)
        in if len > 0 \<and> \<not> env_alloc E (nat len) then (ERROR, put None)
           else
             let s1 = put (if len > 0 then Some (rd_bytes E buf 0 (nat len)) else None)
             in (OK, s1\<lparr>wn_poll_wr := (if Suc (wn_poll_wr s1) = wn_poll_size s1 then 0 else Suc (wn_poll_wr s1)),
                        wn_poll_len := wn_poll_len s1 + 1\<rparr>))"

definition owatchHubHandleIncoming ::
  "env \<Rightarrow> 'a watchnet_scheme jumps \<Rightarrow> int \<Rightarrow> int \<Rightarrow> int \<Rightarrow> bytes \<Rightarrow> 'a watchnet_scheme \<Rightarrow> oret \<times> 'a watchnet_scheme" where
  "owatchHubHandleIncoming E J kind ty len buf s =
     (if ty = OLANG_PING_ACK then (OK, snd (owatchHandlePingReply E kind ty len buf s))
      else if ty = OLANG_CONN_ACK then (OK, snd (owatchHandleConnAck E J s))
      else if ty = OLANG_CONN_NAK then (OK, handle_refusal E J s)
      else if ty = OLANG_ALIVE then (OK, s)
      else if ty = OLANG_SUBJECTS then owatchHandleIncoming E J ty len buf s
      else if \<not> wn_is_polling s \<or> kind \<noteq> OLANG_DATA then owatchHandleIncoming E J ty len buf s
      else buffer_packet E ty len buf s)"

section \<open>Receiving\<close>

text \<open>The identifier of a packet of the stream is noted when its header is complete.\<close>

definition note_temp_id :: "env \<Rightarrow> bool \<Rightarrow> bytes \<Rightarrow> 'a watchnet_scheme \<Rightarrow> 'a watchnet_scheme \<Rightarrow> 'a watchnet_scheme" where
  "note_temp_id E eof rx s s1 =
     (let len = OLANG_HEAD_LEN - nat (hdr_off s) in
      if reget_len s < 0 \<and> fst (sock_recv rx eof len) = int len
      then s1\<lparr>wn_temp_id := word_of_int (OUNTOHS (ld16 E (hdr_buf s1) 4))\<rparr> else s1)"

text \<open>
  A refusal closes the data socket inside the loop, which goes on reading from descriptor 0; the
  model marks the fault and stops there.
\<close>

function owatchReceiveStream ::
  "env \<Rightarrow> 'a watchnet_scheme jumps \<Rightarrow> bool \<Rightarrow> bool \<Rightarrow> bytes \<Rightarrow> 'a watchnet_scheme \<Rightarrow> bytes \<times> 'a watchnet_scheme" where
  "owatchReceiveStream E J first_pass eof rx s =
     (case ReceiveStep E first_pass eof rx s of (ready, rest, s0) \<Rightarrow>
        let s1 = note_temp_id E eof rx s s0 in
        if \<not> ready then (rest, recv_end s1)
        else
          let s2 = snd (owatchHubHandleIncoming E J OLANG_DATA (reget_type s1) (reget_len s1) (the_bytes (reget_buf s1)) s1);
              s3 = recv_clear s2
          in if data_sock s1 > 0 \<and> data_sock s3 = 0 then (rest, ow_mark True s3)
             else owatchReceiveStream E J False eof rest s3)"
  by pat_completeness auto
termination
  by (relation "measure (\<lambda>(E, J, fp, eof, rx, s). length rx)") (auto dest: ReceiveStep_shrinks [OF sym])

declare owatchReceiveStream.simps [simp del]

definition owatchReceiveDatagram :: "env \<Rightarrow> 'a watchnet_scheme jumps \<Rightarrow> bytes \<Rightarrow> 'a watchnet_scheme \<Rightarrow> 'a watchnet_scheme" where
  "owatchReceiveDatagram E J dg s =
     (if length dg < OLANG_HEAD_LEN then s
      else
        let len = OUNTOHS (ld16 E dg 0); ty = OUNTOHS (ld16 E dg 2);
            s1 = s\<lparr>wn_temp_id := word_of_int (OUNTOHS (ld16 E dg 4))\<rparr>;
            blen = frame_len (nat len)
        in if len > OLANG_MAX_PACKET \<or> \<not> env_alloc E blen \<or> length dg < blen then s1
           else if OROTS (ld16 E dg (blen - OLANG_TAIL_LEN)) \<noteq> owatchCheckSum dg (int (blen - OLANG_TAIL_LEN)) then s1
           else snd (owatchHubHandleIncoming E J OLANG_CONTROL ty len (drop OLANG_HEAD_LEN (take blen dg))
                       (s1\<lparr>alive_get_wd := env_now E\<rparr>)))"

section \<open>One poll\<close>

definition free_hanging :: "packet list \<Rightarrow> packet list" where
  "free_hanging ks = map (\<lambda>k. if pk_len k \<le> 0 then k\<lparr>pk_buf := None\<rparr> else k) ks"

definition owatchBackgroundTask :: "env \<Rightarrow> 'a watchnet_scheme \<Rightarrow> 'a watchnet_scheme" where
  "owatchBackgroundTask E s =
     (let s1 = (if p_state s = ST_OPEN \<and> env_now E - alive_get_wd s > OLANG_DEAD_MS then s\<lparr>p_state := ST_EXIT\<rparr> else s)
      in if p_state s1 = ST_OPEN \<and> env_now E - alive_put_wd s1 > OLANG_ALIVE_MS
         then (snd (owatchSendPacket E OLANG_CONTROL OLANG_ALIVE 0 None (s1\<lparr>q_buf := free_hanging (q_buf s1)\<rparr>)))
                \<lparr>alive_put_wd := env_now E\<rparr>
         else s1)"

definition owatchIdleTask :: "env \<Rightarrow> 'a watchnet_scheme jumps \<Rightarrow> 'a watchnet_scheme \<Rightarrow> 'a watchnet_scheme" where
  "owatchIdleTask E J s =
     snd (owatchMonSecureMore E J (owatchHandleTriggerTimeouts E J (owatchLazyDataHandlers E s)))"

text \<open>The tasks before \<open>select\<close>; the second part tells whether the stream waits to be written.\<close>

definition wpoll_prepare :: "env \<Rightarrow> 'a watchnet_scheme jumps \<Rightarrow> 'a watchnet_scheme \<Rightarrow> 'a watchnet_scheme \<times> bool" where
  "wpoll_prepare E J s0 =
     (let s1 = owatchIdleTask E J s0;
          delta = env_now E - wn_routine_ms s1;
          s2 = (if delta < 0 \<or> delta > OLANG_STAT_MS \<or> delta > OLANG_ALIVE_MS \<or> wn_routine_ms s1 = 0
                then owatchBackgroundTask E (s1\<lparr>wn_routine_ms := env_now E\<rparr>) else s1);
          s3 = (if p_state s2 = ST_WAIT then owatchPingHub E s2 else s2)
      in (s3, p_state s3 = ST_OPEN \<and> (q_len s3 > 0 \<or> reput_len s3 \<ge> 0)))"

text \<open>The stream was in the sets only if the connection was open, under the descriptor it had then.\<close>

definition watch_events_step ::
  "env \<Rightarrow> 'a watchnet_scheme jumps \<Rightarrow> watch_events \<Rightarrow> bool \<Rightarrow> 'a watchnet_scheme \<Rightarrow> int \<times> 'a watchnet_scheme" where
  "watch_events_step E J ev writable s0 =
     (let open0 = (p_state s0 = ST_OPEN); sock0 = data_sock s0;
          (n1, s1) = (case we_dgram ev of Some dg \<Rightarrow> (1, owatchReceiveDatagram E J dg s0) | None \<Rightarrow> (0, s0));
          (n2, s2) = (case we_read ev of
             Some (rx, eof) \<Rightarrow> if open0 \<and> data_sock s1 = sock0 \<and> p_state s1 \<noteq> ST_EXIT
               then (n1 + 1, snd (owatchReceiveStream E J True eof rx s1)) else (n1, s1)
           | None \<Rightarrow> (n1, s1))
      in if we_write ev \<and> writable \<and> data_sock s2 = sock0 \<and> p_state s2 \<noteq> ST_EXIT
         then (n2 + 1, owatchResendStream E s2) else (n2, s2))"

text \<open>
  After the poll the packets in the ring are handled, in the outermost poll only. A handler that
  closes the connection empties the ring, and the count then falls below 0. Handlers may poll, and
  so fill the ring again; the fuel bounds the packets handled here.
\<close>

fun handle_buffered :: "env \<Rightarrow> 'a watchnet_scheme jumps \<Rightarrow> nat \<Rightarrow> 'a watchnet_scheme \<Rightarrow> 'a watchnet_scheme" where
  "handle_buffered E J 0 s = (if wn_poll_len s > 0 \<and> wn_poll_depth s \<le> OWATCH_TOLERABLE_POLL_DEPTH then s\<lparr>wy_deep := True\<rparr> else s)"
| "handle_buffered E J (Suc k) s =
     (if \<not> (wn_poll_len s > 0 \<and> wn_poll_depth s \<le> OWATCH_TOLERABLE_POLL_DEPTH) then s
      else
        let i = wn_poll_rd s; pkt = (case wn_poll_buf s of None \<Rightarrow> no_packet | Some ps \<Rightarrow> ps ! i);
            s1 = snd (owatchHandleIncoming E J (pk_type pkt) (pk_len pkt) (the_bytes (pk_buf pkt)) s);
            s2 = s1\<lparr>wn_poll_buf := map_option (\<lambda>ps. ps[i := no_packet]) (wn_poll_buf s1)\<rparr>
        in handle_buffered E J k
             (s2\<lparr>wn_poll_rd := (if Suc (wn_poll_rd s2) = wn_poll_size s2 then 0 else Suc (wn_poll_rd s2)),
                wn_poll_len := wn_poll_len s2 - 1\<rparr>))"

definition poll_fuel :: "'a watchnet_scheme \<Rightarrow> nat" where
  "poll_fuel s = nat (wn_poll_len s) + wn_poll_size s * length (wy_future s)"

text \<open>The timeout only goes to \<open>select\<close>, whose answer \<open>ev\<close> is.\<close>

definition owatchInternalPoll ::
  "env \<Rightarrow> watch_events \<Rightarrow> 'a watchnet_scheme jumps \<Rightarrow> 'a watchnet_scheme \<Rightarrow> int \<times> 'a watchnet_scheme" where
  "owatchInternalPoll E ev J s0 =
     (if wn_is_polling s0 \<or> p_state s0 = ST_NONE then (ERROR, s0)
      else
        let (s1, writable) = wpoll_prepare E J (s0\<lparr>wn_is_polling := True, wn_poll_depth := wn_poll_depth s0 + 1\<rparr>);
            num = (if we_num ev < 0 \<and> we_eintr ev then 0 else we_num ev)
        in if num < 0 then (ERROR, s1\<lparr>wn_is_polling := False, wn_poll_depth := wn_poll_depth s1 - 1\<rparr>)
           else
             let (n, s2) = (if num > 0 then watch_events_step E J ev writable s1 else (0, s1));
                 s3 = (if p_state s2 = ST_EXIT then owatchPingHub E ((owatchDisconnectData E J s2)\<lparr>p_state := ST_WAIT\<rparr>) else s2);
                 s4 = s3\<lparr>wn_is_polling := False\<rparr>;
                 s5 = handle_buffered E J (poll_fuel s4) s4
             in (n, s5\<lparr>wn_poll_depth := wn_poll_depth s5 - 1\<rparr>))"

section \<open>Lazy calls\<close>

definition perform_lazy :: "lazy_call \<Rightarrow> 'a watchnet_scheme \<Rightarrow> 'a watchnet_scheme" where
  "perform_lazy c s = (case c of
     LazyData ooid \<Rightarrow> owatchCallDataHandlers ooid s
   | LazyAlive name state \<Rightarrow> owatchCallAliveHandlers name state s)"

definition owatchPerformLazyCalls :: "'a watchnet_scheme \<Rightarrow> int \<times> 'a watchnet_scheme" where
  "owatchPerformLazyCalls s = (int (length (ow_lazy_calls s)), fold perform_lazy (ow_lazy_calls s) (s\<lparr>ow_lazy_calls := []\<rparr>))"

section \<open>Waiting\<close>

text \<open>
  A poll of a waiting loop takes the next element of the future; \<open>J\<close> gives the jump table for its
  clock. The lazy calls follow; \<open>idle\<close> tells whether the idle handlers are called, too.
\<close>

definition wait_poll ::
  "(env \<Rightarrow> 'a watchnet_scheme jumps) \<Rightarrow> bool \<Rightarrow> env \<times> watch_events \<Rightarrow> (env \<times> watch_events) list
    \<Rightarrow> 'a watchnet_scheme \<Rightarrow> int \<times> 'a watchnet_scheme" where
  "wait_poll J idle e r s =
     (case owatchInternalPoll (fst e) (snd e) (J (fst e)) (s\<lparr>wy_future := r\<rparr>) of (n, s1) \<Rightarrow>
        let s2 = snd (owatchPerformLazyCalls s1) in (n, if idle then owatchCallIdleHandler s2 else s2))"

definition timed_out :: "int option \<Rightarrow> env \<Rightarrow> bool \<Rightarrow> bool" where
  "timed_out fin E strict = (case fin of None \<Rightarrow> False | Some t \<Rightarrow> if strict then t - env_now E < 0 else t - env_now E \<le> 0)"

text \<open>
  Waiting for the operation at place \<open>no\<close> until the time \<open>fin\<close>, or for ever. Every turn takes an element
  of the future, whose length is the fuel.
\<close>

fun wait_one ::
  "(env \<Rightarrow> 'a watchnet_scheme jumps) \<Rightarrow> int option \<Rightarrow> nat \<Rightarrow> nat \<Rightarrow> 'a watchnet_scheme \<Rightarrow> 'a watchnet_scheme" where
  "wait_one J fin no k s =
     (if or_state (the_ops s no) \<noteq> OPS_PENDING then s
      else case wy_future s of
        [] \<Rightarrow> s\<lparr>wy_waiting := True\<rparr>
      | e # r \<Rightarrow>
          if timed_out fin (fst e) False then s
          else case k of 0 \<Rightarrow> s\<lparr>wy_deep := True\<rparr> | Suc k' \<Rightarrow> wait_one J fin no k' (snd (wait_poll J True e r s)))"

declare wait_one.simps [simp del]

text \<open>The numbers of operations that are pending, done well and done with an error.\<close>

definition count_ops :: "'a watchop_scheme \<Rightarrow> nat \<times> nat \<times> nat" where
  "count_ops s =
     (let rs = map (the_ops s) [1..<OWATCH_MAX_OPS]; done = filter (\<lambda>r. or_state r = OPS_DONE) rs in
      (length (filter (\<lambda>r. or_state r = OPS_PENDING) rs), length (filter (\<lambda>r. or_err r = OWATCH_ERR_OK) done),
       length (filter (\<lambda>r. or_err r \<noteq> OWATCH_ERR_OK) done)))"

text \<open>
  Waiting for all operations: the operations are counted at the start of each turn. Waiting for
  ever polls until something happened, without the idle handlers (\<open>again\<close>), before it counts.
\<close>

fun wait_all ::
  "(env \<Rightarrow> 'a watchnet_scheme jumps) \<Rightarrow> int option \<Rightarrow> bool \<Rightarrow> nat \<Rightarrow> 'a watchnet_scheme \<Rightarrow> nat \<times> nat \<times> 'a watchnet_scheme" where
  "wait_all J fin again k s =
     (case count_ops s of (n_pend, n_ok, n_err) \<Rightarrow>
        if \<not> again \<and> n_pend = 0 then (n_pend, n_err, s)
        else case wy_future s of
          [] \<Rightarrow> (n_pend, n_err, s\<lparr>wy_waiting := True\<rparr>)
        | e # r \<Rightarrow>
            if timed_out fin (fst e) True then (n_pend, n_err, s)
            else case k of
              0 \<Rightarrow> (n_pend, n_err, s\<lparr>wy_deep := True\<rparr>)
            | Suc k' \<Rightarrow>
                (case wait_poll J (fin \<noteq> None) e r s of (n, s1) \<Rightarrow>
                   wait_all J fin (fin = None \<and> n = 0) k' s1))"

declare wait_all.simps [simp del]

definition release_done :: "'a watchop_scheme \<Rightarrow> 'a watchop_scheme" where
  "release_done s =
     fold (\<lambda>i s. if or_state (the_ops s i) = OPS_DONE then snd (owatchDeallocateOp (or_op (the_ops s i)) s) else s)
       [1..<OWATCH_MAX_OPS] s"

definition wait_for_all ::
  "env \<Rightarrow> (env \<Rightarrow> 'a watchnet_scheme jumps) \<Rightarrow> int \<Rightarrow> 'a watchnet_scheme \<Rightarrow> oret \<times> int \<times> 'a watchnet_scheme" where
  "wait_for_all E J timeout s =
     (if timeout < 0 \<and> timeout \<noteq> OWATCH_FOREVER then (ERROR, OWATCH_ERR_INVALID, s)
      else
        let fin = (if timeout = OWATCH_FOREVER then None else Some (env_now E + timeout));
            (n_pend, n_err, s1) = (if timeout = OWATCH_NOWAIT then (case count_ops s of (p, ok, e) \<Rightarrow> (p, e, s))
                                   else wait_all J fin False (length (wy_future s)) s);
            s2 = (if timeout \<noteq> OWATCH_NOWAIT then release_done s1 else s1)
        in if n_pend = 0 then (OK, if n_err \<noteq> 0 then OWATCH_ERR_ERROR else OWATCH_ERR_OK, s2)
           else (ERROR, if n_err \<noteq> 0 then OWATCH_ERR_ERROR else OWATCH_ERR_PENDING, s2))"

definition owatchWaitOp ::
  "env \<Rightarrow> (env \<Rightarrow> 'a watchnet_scheme jumps) \<Rightarrow> int \<Rightarrow> int \<Rightarrow> 'a watchnet_scheme \<Rightarrow> oret \<times> int \<times> 'a watchnet_scheme" where
  "owatchWaitOp E J op timeout s =
     (if ow_ops s = None then (ERROR, OWATCH_ERR_ERROR, s)
      else if op = OWOP_OK then (OK, OWATCH_ERR_OK, s)
      else if op = OWOP_ERROR then (ERROR, OWATCH_ERR_ERROR, s)
      else if op = OWOP_ALL then wait_for_all E J timeout s
      else case find_op op s of
        None \<Rightarrow> (ERROR, OWATCH_ERR_INVALID, s)
      | Some no \<Rightarrow>
          if timeout = OWATCH_NOWAIT then
            (if or_state (the_ops s no) = OPS_PENDING then (ERROR, OWATCH_ERR_PENDING, s) else take_result op no s)
          else if timeout = OWATCH_FOREVER \<or> timeout > 0 then
            let fin = (if timeout = OWATCH_FOREVER then None else Some (env_now E + timeout));
                s1 = wait_one J fin no (length (wy_future s)) s
            in if or_state (the_ops s1 no) = OPS_PENDING then (ERROR, OWATCH_ERR_PENDING, s1) else take_result op no s1
          else (ERROR, OWATCH_ERR_INVALID, s))"

definition owatchInternalWaitOp ::
  "env \<Rightarrow> (env \<Rightarrow> 'a watchnet_scheme jumps) \<Rightarrow> int \<times> 'a watchnet_scheme \<Rightarrow> int \<times> 'a watchnet_scheme" where
  "owatchInternalWaitOp E J r =
     (case r of (op, s) \<Rightarrow>
        if ow_async_timeout s = 0 \<or> op = OWOP_OK \<or> op = OWOP_ERROR then (op, s)
        else case owatchWaitOp E J op (ow_async_timeout s) s of (rc, err, s1) \<Rightarrow>
          (if err = 0 then OWOP_OK else if err = 1 then op else OWOP_ERROR, s1))"

end
