(* ===== verification/WatchMain.thy ===== *)
theory WatchMain
  imports WatchNet Conn
begin

text \<open>
  The watcher library as a whole: the jump table that ties the function pointers to their
  functions, the calls of the client that wait (watch-info.c, watch-monitor.c, watch-data.c,
  watch-msg.c), connecting (watch-network.c), start, stop and work (watch-proper.c), reads and
  writes with conversion (watch-as.c).
\<close>

section \<open>Function pointers\<close>

definition call_canceller ::
  "env \<Rightarrow> 'a watchnet_scheme jumps \<Rightarrow> canceller \<Rightarrow> int \<Rightarrow> u32 \<Rightarrow> u32 \<Rightarrow> 'a watchnet_scheme \<Rightarrow> 'a watchnet_scheme" where
  "call_canceller E J c op data1 data2 s =
     (case c of
        CancelConnection \<Rightarrow> owatchCancelConnection E J s
      | CancelSecureSend \<Rightarrow> snd (owatchCancelSecureSend op data1 data2 s)
      | CancelTrigger \<Rightarrow> owatchTriggerSubjectCanceller data2 s
      | CancelGetInfo \<Rightarrow> owatchCancelGetInfoRequest data2 s
      | CancelRead \<Rightarrow> owatchReadCanceller data2 s
      | CancelWrite \<Rightarrow> owatchWriteCanceller data2 s
      | CancelMonitor \<Rightarrow> owatchMonitorAdditionCanceller E J op data2 s
      | CancelMsgRecv \<Rightarrow> owatchMsgRecvCanceller data2 s)"

text \<open>The handlers the library installs itself only write to the log, but for the check of a monitor.\<close>

definition call_local ::
  "env \<Rightarrow> ophandler \<Rightarrow> u32 \<Rightarrow> int \<Rightarrow> int \<Rightarrow> 'a watchnet_scheme \<Rightarrow> 'a watchnet_scheme" where
  "call_local E h param op err s =
     (case h of
        UserHandler f \<Rightarrow> ow_call (OpCall h param op err) s
      | MonCheckInfo \<Rightarrow> owatchMonCheckInfo E param err s
      | _ \<Rightarrow> s)"

text \<open>\<open>J\<close> is the table for calls from inside, \<open>JE\<close> the same for the clocks of polls inside.\<close>

definition owatchAddMonitorByOoid ::
  "env \<Rightarrow> (env \<Rightarrow> 'a watchnet_scheme jumps) \<Rightarrow> u32 \<Rightarrow> 'a watchnet_scheme \<Rightarrow> int \<times> 'a watchnet_scheme" where
  "owatchAddMonitorByOoid E JE ooid s = owatchInternalWaitOp E JE (owatchNowaitAddMonitorByOoid E (JE E) ooid s)"

definition call_chainer ::
  "env \<Rightarrow> (env \<Rightarrow> 'a watchnet_scheme jumps) \<Rightarrow> chainer \<Rightarrow> int \<Rightarrow> int \<Rightarrow> int \<Rightarrow> u32 \<Rightarrow> u32 \<Rightarrow> 'a watchnet_scheme \<Rightarrow> 'a watchnet_scheme" where
  "call_chainer E JE c m_op s_op err param1 param2 s =
     (let J = JE E in
      case c of
        LazyReadRequest \<Rightarrow> owatchLazyReadRequest J m_op s_op err s
      | ReadGotDesc \<Rightarrow> owatchReadGotDescStage E J (owatchAddMonitorByOoid E JE) m_op s_op err param2 s
      | LazyWriteRequest \<Rightarrow> owatchLazyWriteRequest J m_op s_op err s
      | WriteGotDesc \<Rightarrow> owatchWriteGotDescStage E J m_op s_op err param2 s
      | LazyInfoRequest \<Rightarrow> owatchLazyInfoRequest J m_op s_op err s
      | LazyMonRegRequest \<Rightarrow> owatchLazyMonRegRequest J m_op s_op err s
      | AddMonitorGotDesc \<Rightarrow> owatchAddMonitorGotDescStage E J m_op s_op err param2 s
      | LazyMonComboReq \<Rightarrow> owatchLazyMonComboReq J m_op s_op err s
      | MsgSendDone \<Rightarrow> owatchMsgSendDone m_op s_op err s)"

text \<open>
  The table. Its argument bounds the nesting of calls through pointers; a deeper call is noted in
  \<open>wy_deep\<close>. A completed request wakes at most three operations of a chain and a canceller, so
  that depths of more than eight need waits inside waits.
\<close>

fun jump :: "nat \<Rightarrow> env \<Rightarrow> 'a watchnet_scheme jumps" where
  "jump 0 E = \<lparr>j_cancel = (\<lambda>c op d1 d2 s. s\<lparr>wy_deep := True\<rparr>),
                j_chain = (\<lambda>c m_op s_op err p1 p2 s. s\<lparr>wy_deep := True\<rparr>),
                j_local = (\<lambda>h param op err s. s\<lparr>wy_deep := True\<rparr>)\<rparr>"
| "jump (Suc n) E = \<lparr>j_cancel = call_canceller E (jump n E), j_chain = call_chainer E (jump n), j_local = call_local E\<rparr>"

section \<open>Calls that wait\<close>

definition owatchGetInfoByDesc ::
  "env \<Rightarrow> (env \<Rightarrow> 'a watchnet_scheme jumps) \<Rightarrow> bytes \<Rightarrow> u32 \<Rightarrow> 'a watchnet_scheme \<Rightarrow> int \<times> 'a watchnet_scheme" where
  "owatchGetInfoByDesc E JE desc quark_p s = owatchInternalWaitOp E JE (owatchNowaitGetInfoByDesc E (JE E) desc quark_p s)"

definition owatchGetInfoByOoid ::
  "env \<Rightarrow> (env \<Rightarrow> 'a watchnet_scheme jumps) \<Rightarrow> u32 \<Rightarrow> u32 \<Rightarrow> 'a watchnet_scheme \<Rightarrow> int \<times> 'a watchnet_scheme" where
  "owatchGetInfoByOoid E JE ooid quark_p s = owatchInternalWaitOp E JE (owatchNowaitGetInfoByOoid E (JE E) ooid quark_p s)"

definition owatchAddMonitorByDesc ::
  "env \<Rightarrow> (env \<Rightarrow> 'a watchnet_scheme jumps) \<Rightarrow> bytes \<Rightarrow> u32 \<Rightarrow> bool \<Rightarrow> 'a watchnet_scheme \<Rightarrow> int \<times> 'a watchnet_scheme" where
  "owatchAddMonitorByDesc E JE desc ooid_buf dont_monitor s =
     owatchInternalWaitOp E JE (owatchNowaitAddMonitorByDesc E (JE E) desc ooid_buf dont_monitor s)"

definition owatchRead ::
  "env \<Rightarrow> (env \<Rightarrow> 'a watchnet_scheme jumps) \<Rightarrow> u32 \<Rightarrow> u32 \<Rightarrow> u32 \<Rightarrow> int \<Rightarrow> 'a watchnet_scheme \<Rightarrow> int \<times> 'a watchnet_scheme" where
  "owatchRead E JE ooid pvalue data_buf buf_len s =
     (if ooid = 0 \<or> pvalue = 0 \<or> buf_len < 0 then (OWOP_ERROR, s)
      else owatchInternalWaitOp E JE (owatchNowaitReadByAny E (JE E) None ooid pvalue data_buf buf_len s))"

definition owatchReadByName ::
  "env \<Rightarrow> (env \<Rightarrow> 'a watchnet_scheme jumps) \<Rightarrow> bytes \<Rightarrow> u32 \<Rightarrow> u32 \<Rightarrow> int \<Rightarrow> 'a watchnet_scheme \<Rightarrow> int \<times> 'a watchnet_scheme" where
  "owatchReadByName E JE desc pvalue data_buf buf_len s =
     (if desc = [] \<or> pvalue = 0 \<or> buf_len < 0 then (OWOP_ERROR, s)
      else owatchInternalWaitOp E JE (owatchNowaitReadByAny E (JE E) (Some desc) 0 pvalue data_buf buf_len s))"

definition owatchWrite ::
  "env \<Rightarrow> (env \<Rightarrow> 'a watchnet_scheme jumps) \<Rightarrow> u32 \<Rightarrow> oval \<Rightarrow> 'a watchnet_scheme \<Rightarrow> int \<times> 'a watchnet_scheme" where
  "owatchWrite E JE ooid v s =
     (if ooid = 0 \<or> ov_undef v then (OWOP_ERROR, s)
      else owatchInternalWaitOp E JE (owatchNowaitWriteByAny E (JE E) None ooid v s))"

definition owatchWriteByName ::
  "env \<Rightarrow> (env \<Rightarrow> 'a watchnet_scheme jumps) \<Rightarrow> bytes \<Rightarrow> oval \<Rightarrow> 'a watchnet_scheme \<Rightarrow> int \<times> 'a watchnet_scheme" where
  "owatchWriteByName E JE desc v s =
     (if desc = [] \<or> ov_undef v then (OWOP_ERROR, s)
      else owatchInternalWaitOp E JE (owatchNowaitWriteByAny E (JE E) (Some desc) 0 v s))"

definition owatchReceiveMessage ::
  "env \<Rightarrow> (env \<Rightarrow> 'a watchnet_scheme jumps) \<Rightarrow> u32 \<Rightarrow> u32 \<Rightarrow> u32 \<Rightarrow> u32 \<Rightarrow> u32 \<Rightarrow> u32 \<Rightarrow> u32 \<Rightarrow> 'a watchnet_scheme \<Rightarrow> int \<times> 'a watchnet_scheme" where
  "owatchReceiveMessage E JE id_p src_p dest_p klass_p type_p data_p len_p s =
     owatchInternalWaitOp E JE (owatchNowaitMsgRecv E (JE E) id_p src_p dest_p klass_p type_p data_p len_p s)"

definition owatchSendMessage ::
  "env \<Rightarrow> (env \<Rightarrow> 'a watchnet_scheme jumps) \<Rightarrow> u32 \<Rightarrow> bytes \<Rightarrow> int \<Rightarrow> int \<Rightarrow> bytes option \<Rightarrow> int \<Rightarrow> 'a watchnet_scheme \<Rightarrow> int \<times> 'a watchnet_scheme" where
  "owatchSendMessage E JE ooid dest klass ty dat len s =
     owatchInternalWaitOp E JE (owatchNowaitMsgSend E (JE E) ooid dest klass ty dat len s)"

text \<open>Reading through monitors, for all variables (no description, \<open>*\<close> or \<open>*.*\<close>) or for one.\<close>

definition owatchOptimizeReading ::
  "env \<Rightarrow> (env \<Rightarrow> 'a watchnet_scheme jumps) \<Rightarrow> bytes \<Rightarrow> readopt \<Rightarrow> int \<Rightarrow> 'a watchnet_scheme \<Rightarrow> readopt \<times> 'a watchnet_scheme" where
  "owatchOptimizeReading E JE desc opt timeout s =
     (if desc = [] \<or> desc = [42] \<or> desc = [42, 46, 42] then
        (wd_optimize s, if opt \<in> {ROPT_NEVER, ROPT_ALWAYS, ROPT_AUTO} then s\<lparr>wd_optimize := opt\<rparr> else s)
      else case owatchFindMonitorOoidByDesc desc s of (ooid, s1) \<Rightarrow>
        if opt = ROPT_ALWAYS \<or> opt = ROPT_AUTO then
          (if ooid \<noteq> 0 then (ROPT_ALWAYS, s1)
           else case ow_new s1 of (tmp, s2) \<Rightarrow>
             case owatchAddMonitorByDesc E JE desc tmp False s2 of (op, s3) \<Rightarrow>
             case owatchWaitOp E JE op timeout s3 of (rc, err, s4) \<Rightarrow>
               if rc \<noteq> OK then (ROPT_ERROR, snd (owatchDetachOp (JE E) op s4)) else (ROPT_NEVER, s4))
        else if opt = ROPT_NEVER then
          (if ooid = 0 then (ROPT_NEVER, s1)
           else case owatchRemoveMonitor E (JE E) ooid s1 of (rc, s2) \<Rightarrow> (if rc = OK then ROPT_ALWAYS else ROPT_ERROR, s2))
        else (if ooid = 0 then ROPT_NEVER else ROPT_ALWAYS, s1))"

text \<open>
  The write that the forms use. It sends at once and, with a timeout of 0, gives up its operation
  without waiting; an operation that could not be allocated is sent as -1.
\<close>

definition fast_info ::
  "env \<Rightarrow> (env \<Rightarrow> 'a watchnet_scheme jumps) \<Rightarrow> bytes \<Rightarrow> u32 \<Rightarrow> int \<Rightarrow> u32 \<Rightarrow> 'a watchnet_scheme \<Rightarrow> bool \<times> int \<times> 'a watchnet_scheme" where
  "fast_info E JE desc ooid timeout q s =
     (if timeout = 0 then
        (case (if ooid \<noteq> 0 then owatchFindCachedInfoByOoid ooid q s else owatchFindCachedInfoByDesc desc q s) of
           (rc, s1) \<Rightarrow> (rc = OK, OWOP_ERROR, s1))
      else
        case (if ooid \<noteq> 0 then owatchGetInfoByOoid E JE ooid q s else owatchGetInfoByDesc E JE desc q s) of (op, s1) \<Rightarrow>
          case owatchWaitOp E JE op timeout s1 of (rc, err, s2) \<Rightarrow> (rc = OK, op, s2))"

definition owatchFastFormsWrite ::
  "env \<Rightarrow> (env \<Rightarrow> 'a watchnet_scheme jumps) \<Rightarrow> bytes \<Rightarrow> u32 \<Rightarrow> byte \<Rightarrow> int \<Rightarrow> bytes \<Rightarrow> int \<Rightarrow> 'a watchnet_scheme \<Rightarrow> oret \<times> 'a watchnet_scheme" where
  "owatchFastFormsWrite E JE desc ooid0 ty0 timeout dat sz s0 =
     (let drop_op = (\<lambda>op s. if op \<noteq> OWOP_ERROR then snd (owatchDeallocateOp op s) else s) in
      case ow_new s0 of (q, s) \<Rightarrow>
      if ooid0 = 0 \<and> desc = [] then (ERROR, s)
      else
        case (if ty0 \<noteq> 0 \<and> ooid0 \<noteq> 0 then (True, OWOP_ERROR, s) else fast_info E JE desc ooid0 timeout q s) of
          (ok, op, s1) \<Rightarrow>
            let known = (ty0 \<noteq> 0 \<and> ooid0 \<noteq> 0); info = wi_quarks s1 q;
                ooid = (if ooid0 \<noteq> 0 then ooid0 else wq_ooid info); ty = (if known then ty0 else wq_type info);
                n = (if known then sz else wq_len info)
            in if \<not> ok \<or> n \<noteq> sz \<or> n + 32 < 0 \<or> \<not> env_alloc E (nat (n + 32)) then (ERROR, drop_op op s1)
               else case owatchAllocateOp (Some CancelWrite) OWATCH_OPT_WRITE 0 s1 of (op2, s2) \<Rightarrow>
                 let pkt = write_head op2 ooid ty n @ rd_bytes E dat 0 (nat n) in
                 case owatchSendPacket E OLANG_DATA OLANG_OOID_WRITE_REQ (int (length pkt)) (Some pkt) s2 of (rc, s3) \<Rightarrow>
                   if rc \<noteq> OK then (ERROR, drop_op op2 s3)
                   else if timeout = 0 then (OK, snd (owatchDeallocateOp op2 s3))
                   else case owatchWaitOp E JE op2 timeout s3 of (rc2, err, s4) \<Rightarrow>
                     (rc2, snd (owatchDeallocateOp op2 s4)))"

section \<open>Connecting\<close>

definition hub_url :: "bytes \<Rightarrow> (bytes \<times> int) option" where
  "hub_url url =
     (let s = dropWhile (\<lambda>c. c = 32) url;
          s1 = (if c_strncmp s (bstr ''olang://'') 8 = 0 then drop 8 s else s);
          host = takeWhile (\<lambda>c. c \<noteq> 58) s1; rest = drop (length host) s1;
          port = (if length rest > 1 then c_atoi (tl rest) else 0)
      in if length host \<ge> OWATCH_MAX_NAME \<or> host = [] \<or> port < 0 \<or> port > 65534 then None
         else Some (host, if port = 0 then OLANG_HUB_PORT else port))"

text \<open>
  \<open>resolve\<close> gives the address of a host; \<open>udp\<close> is the datagram socket with its port in network
  order, if it could be made, bound and made non-blocking. The arrays of packets are used without
  a test. A bad URL leaves the operation of connecting pending.
\<close>

definition owatchConnect ::
  "env \<Rightarrow> (env \<Rightarrow> 'a watchnet_scheme jumps) \<Rightarrow> (bytes \<Rightarrow> u32 option) \<Rightarrow> (int \<times> u16) option \<Rightarrow> bytes
    \<Rightarrow> 'a watchnet_scheme \<Rightarrow> int \<times> 'a watchnet_scheme" where
  "owatchConnect E JE resolve udp url s0 =
     (case owatchAllocateOp (Some CancelConnection) OWATCH_OPT_CONNECT 0 (snd (owatchDisconnect E (JE E) s0)) of (op, s1) \<Rightarrow>
        let s2 = s1\<lparr>wn_conn_op := op\<rparr>;
            fail = (\<lambda>s. (OWOP_ERROR, snd (owatchDisconnect E (JE E) s)))
        in if op = OWOP_ERROR then (OWOP_ERROR, s2)
           else
             let s3 = (ow_mark (\<not> env_alloc E (16 * OWATCH_Q_SIZE) \<or> \<not> env_alloc E (16 * OWATCH_POLL_SIZE)) s2)
                        \<lparr>q_size := OWATCH_Q_SIZE, q_buf := replicate OWATCH_Q_SIZE no_packet, q_len := 0, q_rd := 0, q_wr := 0,
                         wn_poll_size := OWATCH_POLL_SIZE, wn_poll_buf := Some (replicate OWATCH_POLL_SIZE no_packet),
                         wn_poll_len := 0, wn_poll_rd := 0, wn_poll_wr := 0\<rparr>
             in case hub_url url of
                  None \<Rightarrow> (OWOP_ERROR, s3)
                | Some (host, port) \<Rightarrow>
                    (case resolve host of
                       None \<Rightarrow> fail s3
                     | Some ip \<Rightarrow>
                         let s4 = s3\<lparr>wn_data_addr := \<lparr>sin_addr = ip, sin_port = OHTONS (port + 1)\<rparr>, data_sock := 0,
                                    wn_ping_cur_ms := OLANG_PING_MIN_MS\<rparr>
                         in case udp of
                              None \<Rightarrow> fail s4
                            | Some (sock, my_port) \<Rightarrow>
                                owatchInternalWaitOp E JE (wn_conn_op s4,
                                  s4\<lparr>wn_cntl_sock := sock, wn_my_addr := \<lparr>sin_addr = 0, sin_port = my_port\<rparr>,
                                     cntl_addr := \<lparr>sin_addr = ip, sin_port = OHTONS port\<rparr>, p_state := ST_WAIT,
                                     p_id := 0, wn_temp_id := 0\<rparr>)))"

section \<open>Start, stop, work\<close>

definition owatchExit :: "env \<Rightarrow> 'a watchnet_scheme jumps \<Rightarrow> 'a watchnet_scheme \<Rightarrow> oret \<times> 'a watchnet_scheme" where
  "owatchExit E J s =
     (let s1 = snd (owatchEnableMonitoring E False (owatchClearTriggers s));
          s2 = snd (owatchDisconnect E J (owatchClearMessages J s1));
          s3 = owatchFlushInfoCache (owatchExitMonitoring E J s2);
          s4 = owatchExitOperations (owatchExitSubjects s3)
      in (OK, (snd (owatchRemoteLog False s4))\<lparr>wn_initialized := False\<rparr>))"

text \<open>The name and the host are cut to 40 bytes.\<close>

definition watcher_desc :: "bytes \<Rightarrow> nat \<Rightarrow> bytes \<Rightarrow> bytes" where
  "watcher_desc client_name pid host =
     take OWATCH_MAX_NAME client_name @ [47] @ dec_nat pid @ [64] @ take OWATCH_MAX_NAME host"

definition owatchInit ::
  "env \<Rightarrow> 'a watchnet_scheme jumps \<Rightarrow> nat \<Rightarrow> bytes \<Rightarrow> bytes option \<Rightarrow> 'a watchnet_scheme \<Rightarrow> oret \<times> 'a watchnet_scheme" where
  "owatchInit E J pid host client_name s0 =
     (case client_name of
        None \<Rightarrow> (ERROR, s0)
      | Some name \<Rightarrow>
          let s = snd (owatchExit E J (s0\<lparr>wn_watcher_desc := watcher_desc name pid host\<rparr>));
              bad = (\<lambda>s. (ERROR, snd (owatchExit E J s)))
          in case owatchInitOperations E s of (rc1, s1) \<Rightarrow> if rc1 \<noteq> OK then bad s1
             else case owatchInitSubjects E s1 of (rc2, s2) \<Rightarrow> if rc2 \<noteq> OK then bad s2
             else case owatchSetupMessages E s2 of (rc3, s3) \<Rightarrow> if rc3 \<noteq> OK then bad s3
             else case owatchInitMonitoring E s3 of (rc4, s4) \<Rightarrow> if rc4 \<noteq> OK then bad s4
             else
               let s5 = snd (owatchSetAsyncTimeout OWATCH_NOWAIT (owatchFlushInfoCache s4))
               in (OK, (snd (owatchEnableMonitoring E True s5))\<lparr>wn_initialized := True\<rparr>))"

text \<open>The loop of \<open>owatchWork\<close>; the fuel is the length of the future.\<close>

fun watch_work :: "(env \<Rightarrow> 'a watchnet_scheme jumps) \<Rightarrow> int \<Rightarrow> nat \<Rightarrow> 'a watchnet_scheme \<Rightarrow> 'a watchnet_scheme" where
  "watch_work JE fin k s =
     (case wy_future s of
        [] \<Rightarrow> s\<lparr>wy_waiting := True\<rparr>
      | e # r \<Rightarrow>
          if fin - env_now (fst e) \<le> 0 then s
          else case k of 0 \<Rightarrow> s\<lparr>wy_deep := True\<rparr> | Suc k' \<Rightarrow> watch_work JE fin k' (snd (wait_poll JE True e r s)))"

declare watch_work.simps [simp del]

definition owatchWork ::
  "env \<Rightarrow> (env \<Rightarrow> 'a watchnet_scheme jumps) \<Rightarrow> int \<Rightarrow> 'a watchnet_scheme \<Rightarrow> oret \<times> 'a watchnet_scheme" where
  "owatchWork E JE timeout s =
     (if timeout = OWATCH_NOWAIT \<or> timeout = OWATCH_FOREVER then
        (OK, case wy_future s of [] \<Rightarrow> s\<lparr>wy_waiting := True\<rparr> | e # r \<Rightarrow> snd (wait_poll JE True e r s))
      else if timeout < 0 then (ERROR, s)
      else (OK, watch_work JE (env_now E + timeout) (length (wy_future s)) s))"

section \<open>Reads and writes with conversion\<close>

definition OWATCH_MAX_STRING_LEN :: nat where "OWATCH_MAX_STRING_LEN = 512"

text \<open>
  A read into a temporary value at a fresh address; a text of the client's buffer is read there
  directly. \<open>val\<close> and \<open>buf\<close> are addresses.
\<close>

definition owatchReadAs ::
  "env \<Rightarrow> (env \<Rightarrow> 'a watchnet_scheme jumps) \<Rightarrow> bytes \<Rightarrow> u32 \<Rightarrow> u32 \<Rightarrow> int \<Rightarrow> int \<Rightarrow> 'a watchnet_scheme
    \<Rightarrow> oret \<times> int option \<times> 'a watchnet_scheme" where
  "owatchReadAs E JE desc val buf len timeout s =
     (case ow_new s of (tmp, s1) \<Rightarrow>
      case ow_new s1 of (str, s2) \<Rightarrow>
      case (if len > 0 \<and> ov_type (wm_vals s2 val) = 115 then owatchReadByName E JE desc tmp buf len s2
            else owatchReadByName E JE desc tmp str (int OWATCH_MAX_STRING_LEN) s2) of (op, s3) \<Rightarrow>
        if op = OWOP_ERROR then (ERROR, None, s3)
        else case owatchWaitOp E JE op timeout s3 of (rc, err, s4) \<Rightarrow>
          if rc \<noteq> OK then (ERROR, Some err, snd (owatchCancelOp (JE E) op s4))
          else case owatchConvertValue (Some (wm_vals s4 tmp)) (Some (wm_vals s4 val))
                      (if buf = 0 then None else Some (wm_bufs s4 buf)) len of (rc2, v, b, ub) \<Rightarrow>
            (rc2, Some err, (ow_mark ub s4)\<lparr>wm_vals := (case v of None \<Rightarrow> wm_vals s4 | Some x \<Rightarrow> (wm_vals s4)(val := x)),
                              wm_bufs := (case b of None \<Rightarrow> wm_bufs s4 | Some x \<Rightarrow> (wm_bufs s4)(buf := x))\<rparr>))"

text \<open>A local \<open>oval_t\<close> of which only the type is set.\<close>

definition local_val :: "byte \<Rightarrow> 'a watchnet_scheme \<Rightarrow> u32 \<times> 'a watchnet_scheme" where
  "local_val ty s = (case ow_new s of (a, s1) \<Rightarrow> (a, s1\<lparr>wm_vals := (wm_vals s1)(a := no_value\<lparr>ov_type := ty\<rparr>)\<rparr>))"

definition read_number ::
  "env \<Rightarrow> (env \<Rightarrow> 'a watchnet_scheme jumps) \<Rightarrow> byte \<Rightarrow> bytes \<Rightarrow> int \<Rightarrow> 'a watchnet_scheme \<Rightarrow> oval option \<times> int \<times> 'a watchnet_scheme" where
  "read_number E JE ty desc timeout s =
     (case local_val ty s of (a, s1) \<Rightarrow>
      case owatchReadAs E JE desc a 0 0 timeout s1 of (rc, err, s2) \<Rightarrow>
        (if rc = OK then Some (wm_vals s2 a) else None, case err of None \<Rightarrow> 0 | Some e \<Rightarrow> e, s2))"

definition owatchReadAsLong ::
  "env \<Rightarrow> (env \<Rightarrow> 'a watchnet_scheme jumps) \<Rightarrow> bytes \<Rightarrow> int \<Rightarrow> 'a watchnet_scheme \<Rightarrow> int \<times> int \<times> 'a watchnet_scheme" where
  "owatchReadAsLong E JE desc timeout s =
     (case read_number E JE 108 desc timeout s of (v, err, s1) \<Rightarrow> (case v of None \<Rightarrow> 0 | Some x \<Rightarrow> sint (v_u32 x), err, s1))"

definition owatchReadAsFloat ::
  "env \<Rightarrow> (env \<Rightarrow> 'a watchnet_scheme jumps) \<Rightarrow> bytes \<Rightarrow> int \<Rightarrow> 'a watchnet_scheme \<Rightarrow> u32 \<times> int \<times> 'a watchnet_scheme" where
  "owatchReadAsFloat E JE desc timeout s =
     (case read_number E JE 102 desc timeout s of (v, err, s1) \<Rightarrow> (case v of None \<Rightarrow> 0 | Some x \<Rightarrow> v_u32 x, err, s1))"

definition owatchReadAsDouble ::
  "env \<Rightarrow> (env \<Rightarrow> 'a watchnet_scheme jumps) \<Rightarrow> bytes \<Rightarrow> int \<Rightarrow> 'a watchnet_scheme \<Rightarrow> nat \<times> int \<times> 'a watchnet_scheme" where
  "owatchReadAsDouble E JE desc timeout s =
     (case read_number E JE 100 desc timeout s of (v, err, s1) \<Rightarrow> (case v of None \<Rightarrow> 0 | Some x \<Rightarrow> v_double x, err, s1))"

text \<open>
  The result is as long as the value says, also after a failed read, whose length is junk of the
  stack; a text of more than 512 bytes is read a second time.
\<close>

definition owatchReadAsString ::
  "env \<Rightarrow> (env \<Rightarrow> 'a watchnet_scheme jumps) \<Rightarrow> bytes \<Rightarrow> int \<Rightarrow> 'a watchnet_scheme \<Rightarrow> bytes option \<times> int \<times> 'a watchnet_scheme" where
  "owatchReadAsString E JE desc timeout s =
     (case local_val 115 s of (a, s1) \<Rightarrow>
      case ow_new s1 of (str, s2) \<Rightarrow>
      case owatchReadAs E JE desc a str (int OWATCH_MAX_STRING_LEN) timeout s2 of (rc, err, s3) \<Rightarrow>
        let code = (\<lambda>e. case e of None \<Rightarrow> 0 | Some x \<Rightarrow> x); n = ov_len (wm_vals s3 a); s4 = ow_mark (rc \<noteq> OK) s3 in
        if n < 0 \<or> \<not> env_alloc E (nat n) then (None, code err, s4)
        else if n > int OWATCH_MAX_STRING_LEN then
          (case ow_new s4 of (res, s5) \<Rightarrow>
           case owatchReadAs E JE desc a res n timeout s5 of (rc2, err2, s6) \<Rightarrow>
             (Some (wm_bufs s6 res), code (if err2 = None then err else err2), s6))
        else
          let found = c_str (wm_bufs s4 str)
          in (Some (store (replicate (nat n) 0) 0 (found @ [0])), code err, ow_mark (length found + 1 > nat n) s4))"

definition owatchWriteAs ::
  "env \<Rightarrow> (env \<Rightarrow> 'a watchnet_scheme jumps) \<Rightarrow> bytes \<Rightarrow> oval \<Rightarrow> int \<Rightarrow> 'a watchnet_scheme \<Rightarrow> oret \<times> int \<times> 'a watchnet_scheme" where
  "owatchWriteAs E JE desc v timeout s =
     (case ow_new s of (q, s1) \<Rightarrow>
      case owatchGetInfoByDesc E JE desc q s1 of (op, s2) \<Rightarrow>
        if op = OWOP_ERROR then (ERROR, 0, s2)
        else case owatchWaitOp E JE op timeout s2 of (rc, err, s3) \<Rightarrow>
          if rc \<noteq> OK then (ERROR, err, snd (owatchDetachOp (JE E) op s3))
          else
            let info = wi_quarks s3 q;
                real = no_value\<lparr>ov_type := wq_type info, ov_len := wq_len info\<rparr>
            in case owatchConvertValue (Some v) (Some real) (Some (replicate OWATCH_MAX_STRING_LEN 0)) (int OWATCH_MAX_STRING_LEN) of
                 (rc2, r, b, ub) \<Rightarrow>
                   let s4 = ow_mark ub s3 in
                   if rc2 \<noteq> OK then (ERROR, err, s4)
                   else
                     case owatchWriteByName E JE desc (case r of None \<Rightarrow> real | Some x \<Rightarrow> x) s4 of (op2, s5) \<Rightarrow>
                          if op2 = OWOP_ERROR then (ERROR, err, s5) else owatchWaitOp E JE op2 timeout s5)"

definition owatchWriteAsLong ::
  "env \<Rightarrow> (env \<Rightarrow> 'a watchnet_scheme jumps) \<Rightarrow> bytes \<Rightarrow> int \<Rightarrow> int \<Rightarrow> 'a watchnet_scheme \<Rightarrow> oret \<times> int \<times> 'a watchnet_scheme" where
  "owatchWriteAsLong E JE desc x timeout s = owatchWriteAs E JE desc (put_u32 x (no_value\<lparr>ov_type := 108\<rparr>)) timeout s"

definition owatchWriteAsFloat ::
  "env \<Rightarrow> (env \<Rightarrow> 'a watchnet_scheme jumps) \<Rightarrow> bytes \<Rightarrow> u32 \<Rightarrow> int \<Rightarrow> 'a watchnet_scheme \<Rightarrow> oret \<times> int \<times> 'a watchnet_scheme" where
  "owatchWriteAsFloat E JE desc w timeout s = owatchWriteAs E JE desc (put_v (st32 w) (no_value\<lparr>ov_type := 102\<rparr>)) timeout s"

definition owatchWriteAsDouble ::
  "env \<Rightarrow> (env \<Rightarrow> 'a watchnet_scheme jumps) \<Rightarrow> bytes \<Rightarrow> nat \<Rightarrow> int \<Rightarrow> 'a watchnet_scheme \<Rightarrow> oret \<times> int \<times> 'a watchnet_scheme" where
  "owatchWriteAsDouble E JE desc w timeout s = owatchWriteAs E JE desc (put_double w (no_value\<lparr>ov_type := 100\<rparr>)) timeout s"

definition owatchWriteAsString ::
  "env \<Rightarrow> (env \<Rightarrow> 'a watchnet_scheme jumps) \<Rightarrow> bytes \<Rightarrow> bytes \<Rightarrow> int \<Rightarrow> 'a watchnet_scheme \<Rightarrow> oret \<times> int \<times> 'a watchnet_scheme" where
  "owatchWriteAsString E JE desc str timeout s =
     owatchWriteAs E JE desc (no_value\<lparr>ov_type := 115, ov_len := int (length str), ov_str := Some (str @ [0])\<rparr>) timeout s"

text \<open>The hub's address and the name of the client, then the wait for the connection.\<close>

definition owatchSetupConnection ::
  "env \<Rightarrow> (env \<Rightarrow> 'a watchnet_scheme jumps) \<Rightarrow> nat \<Rightarrow> bytes \<Rightarrow> (bytes \<Rightarrow> u32 option) \<Rightarrow> (int \<times> u16) option
    \<Rightarrow> bytes \<Rightarrow> bytes option \<Rightarrow> int \<Rightarrow> 'a watchnet_scheme \<Rightarrow> oret \<times> int \<times> 'a watchnet_scheme" where
  "owatchSetupConnection E JE pid host resolve udp url client_name timeout s =
     (case owatchInit E (JE E) pid host client_name s of (rc, s1) \<Rightarrow>
        if rc \<noteq> OK then (ERROR, 0, s1)
        else case owatchConnect E JE resolve udp url s1 of (op, s2) \<Rightarrow> owatchWaitOp E JE op timeout s2)"

definition owatchSetAutoCommit :: "bool \<Rightarrow> oret" where
  "owatchSetAutoCommit enable = (if enable then OK else ERROR)"

section \<open>The globals before the start\<close>

definition wnet0 :: watchnet where
  "wnet0 = \<lparr>p_state = ST_NONE, p_id = 0, needs_rotor = False, data_sock = 0, cntl_addr = no_addr, alive_get_wd = 0,
     alive_put_wd = 0, q_buf = [], q_len = 0, q_size = 0, q_rd = 0, q_wr = 0, hdr_buf = replicate 16 0, hdr_off = 0,
     reget_type = -1, reget_len = -1, reget_off = -1, reget_buf = None, reput_type = -1, reput_len = -1,
     reput_off = -1, reput_buf = None, p_url = [], p_tx = [], p_utx = [], p_wire = [], p_dgrams = [],
     ow_ops = None, ow_free_count = 0, ow_next_id = 0, ow_op_handlers = None, ow_async_timeout = 0, ow_lazy = False,
     ow_lazy_calls = [], ow_idle = replicate 8 None, ow_idle_qty = 0, ow_calls = [], ow_brk = 1, ow_aborted = False,
     ow_fault = False,
     wn_conn_op = -1, wn_cntl_sock = 0, wn_data_addr = no_addr, wn_my_addr = no_addr, wn_ping_cur_ms = 0,
     wn_ping_wd = 0, wn_is_polling = False, wn_poll_depth = 0, wn_routine_ms = 0, wn_poll_buf = None, wn_poll_len = 0,
     wn_poll_size = 0, wn_poll_rd = 0, wn_poll_wr = 0, wn_can_immed = 1, wn_temp_id = 0, wn_sendrecs = [],
     wn_initialized = False, wn_watcher_desc = [],
     wi_cache = [], wi_cache_size = 0, wi_desc_hash = None, wi_ooid_hash = None, wi_reject_hash = None, wi_quarks = (\<lambda>_. no_wquark),
     wi_gets = (\<lambda>_. None),
     wb_subjects = [], wb_alive_handlers = None, wb_conn_alive = False, wb_domain_full = False,
     wb_triggers = replicate 16 \<lparr>tr_op = 0, tr_watchdog = 0, tr_subject = []\<rparr>, wb_trigger_qty = 0,
     wm_mons = [], wm_recs = (\<lambda>_. None), wm_hash = None, wm_updates = 0, wm_data_handlers = None, wm_active = False,
     wm_secure_count = 0, wm_blocked = False, wm_checks = (\<lambda>_. None), wm_ooids = (\<lambda>_. 0), wm_vals = (\<lambda>_. no_value),
     wm_bufs = (\<lambda>_. []), wm_hung = False,
     wd_optimize = ROPT_NEVER, wd_reads = (\<lambda>_. None), wd_writes = (\<lambda>_. None),
     wx_classes = [], wx_dangling = False, wx_queue = [], wx_rcvrs = [], wx_himark = False, wx_cur_count = 0,
     wx_cur_bytes = 0, wx_hi_count = 0, wx_hi_bytes = 0, wx_ack_count = 0, wx_auto_ooid = 0, wx_ints = (\<lambda>_. 0),
     wx_remote_log = False, wy_future = [], wy_waiting = False, wy_deep = False\<rparr>"

end
