(* ===== verification/WatchWire.thy ===== *)
theory WatchWire
  imports WatchMain Info AgentMain
begin

text \<open>
  Packets between the programs: what one of the hub, the watcher library and the agent library
  writes, another reads back.
\<close>

section \<open>Reading fields behind one another\<close>

lemma rd_skip:
  assumes "length xs \<le> off" and "off < length xs + length ys"
  shows "rd E (xs @ ys) off = rd E ys (off - length xs)"
proof -
  have "off - length xs < length ys" using assms by linarith
  then show ?thesis using assms by (simp add: rd_def nth_append)
qed

lemma rd_skip_at:
  assumes "length xs \<le> off" and "off + k < length xs + length ys"
  shows "rd E (xs @ ys) (off + k) = rd E ys (off - length xs + k)"
proof -
  have "off + k - length xs = off - length xs + k" using assms by linarith
  then show ?thesis using rd_skip [of xs "off + k" ys E] assms by (simp only: trans_le_add1)
qed

lemma ld16_skip: "length xs \<le> off \<Longrightarrow> off + 2 \<le> length xs + length ys \<Longrightarrow> ld16 E (xs @ ys) off = ld16 E ys (off - length xs)"
  using rd_skip [of xs off ys E] rd_skip_at [of xs off 1 ys E] by (simp only: ld16_def)

lemma ld32_skip: "length xs \<le> off \<Longrightarrow> off + 4 \<le> length xs + length ys \<Longrightarrow> ld32 E (xs @ ys) off = ld32 E ys (off - length xs)"
  using rd_skip [of xs off ys E] rd_skip_at [of xs off 1 ys E] rd_skip_at [of xs off 2 ys E] rd_skip_at [of xs off 3 ys E]
  by (simp only: ld32_def)

lemma ld16_skip_one: "0 < off \<Longrightarrow> off + 1 \<le> length ys \<Longrightarrow> ld16 E (x # ys) off = ld16 E ys (off - 1)"
  using ld16_skip [of "[x]" off ys E] by simp

lemma ld32_skip_one: "0 < off \<Longrightarrow> off + 3 \<le> length ys \<Longrightarrow> ld32 E (x # ys) off = ld32 E ys (off - 1)"
  using ld32_skip [of "[x]" off ys E] by simp

lemma ld16_here: "ld16 E (st16 x @ ys) 0 = x" "ld16 E (st16 x) 0 = x"
  using ld16_st16 [of 0 "[]" E x ys] ld16_st16 [of 0 "[]" E x "[]"] by simp_all

lemma ld32_here: "ld32 E (st32 x @ ys) 0 = x" "ld32 E (st32 x) 0 = x"
  using ld32_st32 [of 0 "[]" E x ys] ld32_st32 [of 0 "[]" E x "[]"] by simp_all

lemma rd_bytes_skip:
  "length xs \<le> off \<Longrightarrow> off + n \<le> length xs + length ys \<Longrightarrow> rd_bytes E (xs @ ys) off n = rd_bytes E ys (off - length xs) n"
  by (simp add: rd_bytes_in)

lemma rd_bytes_skip_one: "0 < off \<Longrightarrow> off + n \<le> Suc (length ys) \<Longrightarrow> rd_bytes E (x # ys) off n = rd_bytes E ys (off - 1) n"
  using rd_bytes_skip [of "[x]" off n ys E] by simp

lemma nth_skip: "length xs \<le> i \<Longrightarrow> (xs @ ys) ! i = ys ! (i - length xs)"
  by (simp add: nth_append)

lemma rd_bytes_here: "n = length xs \<Longrightarrow> rd_bytes E (xs @ ys) 0 n = xs"
  by (simp add: rd_bytes_in)

lemmas fields = ld16_skip ld16_skip_one ld16_here ld32_skip ld32_skip_one ld32_here rd_skip rd_bytes_skip rd_bytes_skip_one
  rd_bytes_here nth_skip

section \<open>Messages\<close>

text \<open>
  C15. a message that the watcher library or an agent sends is parsed by the receiving watcher
  library into the same identifier, source, destination, class, type and data; the hub passes
  these bytes on as they are.
\<close>

theorem message_roundtrip:
  assumes "length src < 65536" and "length dest < 65536" and "length dat < 65536"
    and "0 \<le> klass" and "klass < 65536" and "0 \<le> ty" and "ty < 65536"
  shows "parse_message E (int (length (message_request op ooid src dest klass ty dat))) (message_request op ooid src dest klass ty dat)
    = Some \<lparr>pm_ooid = ooid, pm_src = src, pm_dest = dest, pm_klass = klass, pm_type = ty, pm_len = int (length dat),
            pm_data = (if dat = [] then None else Some dat)\<rparr>"
  using assms by (simp add: parse_message_def message_request_def fields OHTONS_back OUNTOHL_def OHTONL_def Let_def)

section \<open>Information\<close>

text \<open>
  C14. the reply the hub packs about a variable, behind the number of the operation, is unpacked
  by the watcher library into a quark with the same identifier, pointer and type, segment, length,
  bit position and description, and the position reached is the end of the packet.
\<close>

theorem info_reply_roundtrip:
  assumes "qk_ooid q \<noteq> 0" and "qk_path q \<noteq> []" and "length (qk_path q) < 140" and "0 \<notin> set (qk_path q)"
    and "0 \<le> qk_len q" "qk_len q < 65536" and "0 \<le> qk_bit_off q" "qk_bit_off q < 65536"
    and "0 \<le> qk_bit_len q" "qk_bit_len q < 65536"
  shows "owatchUnpackInfoReply E (st32 op @ ohubPackInfoReply E 4 OK q res) 4
    = (OK, length (st32 op @ ohubPackInfoReply E 4 OK q res),
       \<lparr>wq_ooid = qk_ooid q, wq_ptr = qk_ptr q, wq_type = qk_type q, wq_seg = qk_seg q, wq_len = qk_len q,
        wq_bit_off = qk_bit_off q, wq_bit_len = qk_bit_len q, wq_desc = qk_path q\<rparr>, [])"
proof -
  let ?n = "length (qk_path q)"
  obtain pad where r: "ohubPackInfoReply E 4 OK q res = st32 (OHTONL (qk_ooid q)) @ st16 (OHTONS (qk_len q)) @ [qk_ptr q, qk_type q, qk_seg q, 46]
      @ st16 (OHTONS (qk_bit_off q)) @ st16 (OHTONS (qk_bit_len q)) @ st16 (OHTONS (int ?n)) @ qk_path q @ pad"
    and pad: "length pad = (if odd ?n then 1 else 0)"
    by (cases "odd ?n") (simp_all add: ohubPackInfoReply_def Let_def)
  have name: "takeWhile (\<lambda>c. c \<noteq> 0) (qk_path q) = qk_path q"
    using assms(4) by (auto simp: takeWhile_eq_all_conv)
  show ?thesis
    using assms name pad unfolding r
    by (simp add: owatchUnpackInfoReply_def fields OHTONS_back OHTONL_def OWATCH_MAX_PATH_def Let_def)
qed

section \<open>The list of subjects\<close>

text \<open>One entry of the hub's list, and what the watcher library does with it.\<close>

definition subject_entry :: "subject \<Rightarrow> bytes" where
  "subject_entry u = [of_nat (length (sb_name u) + 40)] @ sb_name u @ [47, avail_char (sb_avail u), 61]
     @ [of_nat (length (sb_state u) + 40)] @ sb_state u @ [59]"

definition announced :: "env \<Rightarrow> subject list \<Rightarrow> 'a watchsubj_scheme \<Rightarrow> 'a watchsubj_scheme" where
  "announced E us s = fold (\<lambda>u s. snd (owatchSetSubjectState E (sb_name u) (Some (sb_state u)) (avail_char (sb_avail u)) s)) us s"

text \<open>What the watcher library takes without writing behind its buffers of 40 bytes.\<close>

definition short_subject :: "subject \<Rightarrow> bool" where
  "short_subject u \<longleftrightarrow> length (sb_name u) < 40 \<and> length (sb_state u) < 40 \<and> 0 \<notin> set (sb_name u) \<and> 0 \<notin> set (sb_state u)"

lemma pack_subjects_entries:
  assumes "pack_subjects us ags (k, buf) = Some (k', buf')"
  shows "k' = k + length (filter (\<lambda>u. ag_enable (ags ! sb_agent u)) us)
    \<and> buf' = buf @ concat (map subject_entry (filter (\<lambda>u. ag_enable (ags ! sb_agent u)) us)) \<and> (k \<le> 80 \<longrightarrow> k' \<le> 80)"
  using assms
proof (induction us arbitrary: k buf)
  case (Cons u us)
  show ?case
  proof (cases "ag_enable (ags ! sb_agent u)")
    case True
    then have "pack_subjects us ags (Suc k, buf @ subject_entry u) = Some (k', buf')" "Suc k \<le> 80"
      using Cons.prems by (simp_all add: subject_entry_def Let_def split: if_splits)
    then show ?thesis using Cons.IH True by fastforce
  next
    case False
    then show ?thesis using Cons.prems Cons.IH by simp
  qed
qed simp

lemma rd_count_here:
  assumes "off < length buf" and "buf ! off = of_nat (n + 40)" and "n \<le> 40"
  shows "rd_count E buf off = int n"
proof -
  have "sint (of_nat (n + 40) :: byte) = int (n + 40)"
    using assms(3) by (simp add: signed_of_nat signed_take_bit_int_eq_self del: of_nat_add)
  then show ?thesis using assms(1,2) by (simp add: rd_count_def)
qed

text \<open>The fields of an entry that starts at place \<open>p\<close>.\<close>

lemma subject_entry_fields:
  assumes "buf = pre @ subject_entry u @ post" and "p = length pre" and "short_subject u"
  shows "rd_count E buf p = int (length (sb_name u))"
    and "rd_bytes E buf (p + 1) (length (sb_name u)) = sb_name u"
    and "rd E buf (p + length (sb_name u) + 2) = avail_char (sb_avail u)"
    and "rd_count E buf (p + length (sb_name u) + 4) = int (length (sb_state u))"
    and "rd_bytes E buf (p + length (sb_name u) + 5) (length (sb_state u)) = sb_state u"
proof -
  let ?n = "length (sb_name u)"
  have b: "buf = pre @ [of_nat (?n + 40)] @ sb_name u @ [47, avail_char (sb_avail u), 61, of_nat (length (sb_state u) + 40)]
      @ sb_state u @ [59] @ post"
    using assms(1) by (simp add: subject_entry_def)
  show "rd_count E buf p = int ?n"
    using assms by (intro rd_count_here) (simp_all add: b short_subject_def)
  show "rd_bytes E buf (p + 1) ?n = sb_name u"
    using assms(2) by (subst rd_bytes_in) (simp_all add: b)
  show "rd E buf (p + ?n + 2) = avail_char (sb_avail u)"
    using assms(2) by (subst rd_in) (simp_all add: b nth_append)
  show "rd_count E buf (p + ?n + 4) = int (length (sb_state u))"
    using assms by (intro rd_count_here) (simp_all add: b short_subject_def nth_append)
  define xs where "xs = pre @ [of_nat (?n + 40)] @ sb_name u @ [47, avail_char (sb_avail u), 61, of_nat (length (sb_state u) + 40)]"
  have "buf = xs @ sb_state u @ [59] @ post" "length xs = p + ?n + 5"
    using b assms(2) by (simp_all add: xs_def)
  then show "rd_bytes E buf (p + ?n + 5) (length (sb_state u)) = sb_state u"
    by (subst rd_bytes_in) simp_all
qed

lemma length_subject_entry: "length (subject_entry u) = length (sb_name u) + length (sb_state u) + 6"
  by (simp add: subject_entry_def)

lemma check_subjects_entries:
  assumes "\<forall>u \<in> set us. short_subject u" and "buf = pre @ concat (map subject_entry us)" and "p = length pre" and "even i"
  shows "check_subjects E buf (int (length buf)) (2 * length us) i p"
  using assms
proof (induction us arbitrary: pre p i)
  case (Cons u us)
  have f: "buf = pre @ subject_entry u @ concat (map subject_entry us)" and u: "short_subject u"
    using Cons.prems by simp_all
  note F = subject_entry_fields [OF f Cons.prems(3) u]
  have l: "length buf = p + length (sb_name u) + length (sb_state u) + 6 + length (concat (map subject_entry us))"
    using f Cons.prems(3) by (simp add: length_subject_entry)
  have r: "check_subjects E buf (int (length buf)) (2 * length us) (Suc (Suc i)) (p + length (sb_name u) + length (sb_state u) + 6)"
    using Cons.prems by (intro Cons.IH [of "pre @ subject_entry u"]) (simp_all add: length_subject_entry)
  have a: "nat (4 + (int p + int (length (sb_name u)))) = p + length (sb_name u) + 4" by simp
  have b: "nat (6 + (int p + (int (length (sb_name u)) + int (length (sb_state u)))))
      = p + length (sb_name u) + length (sb_state u) + 6" by simp
  have c: "check_subjects E buf (int (length buf)) (Suc (2 * length us)) (Suc i) (p + length (sb_name u) + 4)"
    using r u Cons.prems(4) l F(4) by (simp add: b Let_def short_subject_def OWATCH_MAX_NAME_def)
  show ?case
    using c u Cons.prems(4) l F(1) by (simp add: a Let_def short_subject_def OWATCH_MAX_NAME_def)
qed simp

lemma take_subjects_entries:
  fixes s :: "'a watchsubj_scheme"
  assumes "\<forall>u \<in> set us. short_subject u" and "buf = pre @ concat (map subject_entry us)" and "p = length pre"
  shows "take_subjects E buf (length us) p s = announced E us s"
  using assms
proof (induction us arbitrary: pre p s)
  case (Cons u us)
  have f: "buf = pre @ subject_entry u @ concat (map subject_entry us)" and u: "short_subject u"
    using Cons.prems by simp_all
  note F = subject_entry_fields [OF f Cons.prems(3) u]
  have n: "takeWhile (\<lambda>c. c \<noteq> 0) (sb_name u) = sb_name u" "takeWhile (\<lambda>c. c \<noteq> 0) (sb_state u) = sb_state u"
    using u by (auto simp: short_subject_def takeWhile_eq_all_conv)
  have "take_subjects E buf (length us) (p + length (sb_name u) + length (sb_state u) + 6) s' = announced E us s'" for s' :: "'a watchsubj_scheme"
    using Cons.prems by (intro Cons.IH [of "pre @ subject_entry u"]) (simp_all add: length_subject_entry)
  moreover have "take_subjects E buf (Suc (length us)) p s = take_subjects E buf (length us)
      (p + length (sb_name u) + length (sb_state u) + 6)
      (snd (owatchSetSubjectState E (sb_name u) (Some (sb_state u)) (avail_char (sb_avail u)) s))"
  proof -
    let ?n = "length (sb_name u)" and ?m = "length (sb_state u)"
    have a: "p + 1 + ?n + 1 = p + ?n + 2" "p + ?n + 2 + 2 = p + ?n + 4" "p + ?n + 2 + 3 = p + ?n + 5"
      "p + ?n + 5 + ?m + 1 = p + ?n + ?m + 6" by simp_all
    have "\<not> (?n \<ge> OWATCH_MAX_NAME \<or> ?m \<ge> OWATCH_MAX_NAME)"
      using u by (simp add: short_subject_def OWATCH_MAX_NAME_def)
    then show ?thesis
      unfolding take_subjects.simps(2) Let_def F(1) nat_int a F(2-5) n ow_mark_def by (simp only: if_False)
  qed
  ultimately show ?case by (simp add: announced_def)
qed (simp add: announced_def)

text \<open>
  C13. the list of subjects that the hub sends is accepted by the watcher library, which sets
  each subject of an enabled agent, in the hub's order, to the state and availability it has in
  the hub, after it has forgotten all subjects when the list is the initial one.
\<close>

theorem subjects_roundtrip:
  fixes s :: "'a watchsubj_scheme"
  assumes "pack_subjects us ags (0, [of_nat ((if initial then 1 else 0) + 40), 46]) = Some (k, buf)"
    and "\<forall>u \<in> set us. short_subject u" and "\<exists>u \<in> set us. ag_enable (ags ! sb_agent u)"
  shows "owatchHandleSubjects E (int (length buf)) (buf[1 := of_nat (k + 40)]) s
    = (OK, announced E (filter (\<lambda>u. ag_enable (ags ! sb_agent u)) us) (if initial then s\<lparr>wb_subjects := []\<rparr> else s))"
proof -
  let ?vs = "filter (\<lambda>u. ag_enable (ags ! sb_agent u)) us"
  define b where "b = buf[1 := of_nat (k + 40)]"
  have k: "k = length ?vs" "k \<le> 80" "buf = [of_nat ((if initial then 1 else 0) + 40), 46] @ concat (map subject_entry ?vs)"
    using pack_subjects_entries [OF assms(1)] by simp_all
  have vs: "\<forall>u \<in> set ?vs. short_subject u" "?vs \<noteq> []" using assms(2,3) by (auto simp: filter_empty_conv)
  have b: "b = [of_nat ((if initial then 1 else 0) + 40), of_nat (k + 40)] @ concat (map subject_entry ?vs)"
    by (simp add: b_def k(3))
  have n: "nat (int k + int k) = 2 * length ?vs" using k(1) by linarith
  have "check_subjects E b (int (length b)) (nat (int k + int k)) 0 2"
    unfolding n by (rule check_subjects_entries [OF vs(1) b]) simp_all
  moreover have "rd_count E b 0 = int (if initial then 1 else 0)"
    by (rule rd_count_here) (simp_all add: b)
  moreover have "sint (of_nat (k + 40) :: byte) = int (k + 40)"
    using k(2) by (simp add: signed_of_nat signed_take_bit_int_eq_self del: of_nat_add)
  then have "rd_count E b 1 = int k" by (simp add: rd_count_def b)
  moreover have "take_subjects E b k 2 t = announced E ?vs t" for t :: "'a watchsubj_scheme"
    unfolding k(1) by (rule take_subjects_entries [OF vs(1) b]) simp
  moreover have "1 \<le> k" using vs(2) k(1) by (cases ?vs) simp_all
  moreover have "length b = length buf" by (simp add: b_def)
  ultimately have "owatchHandleSubjects E (int (length b)) b s = (OK, announced E ?vs (if initial then s\<lparr>wb_subjects := []\<rparr> else s))"
    by (simp add: owatchHandleSubjects_def Let_def)
  then show ?thesis by (simp add: b_def)
qed

section \<open>Values\<close>

text \<open>The record of a monitor after a report of a number.\<close>

definition reported :: "monitor \<Rightarrow> nat \<Rightarrow> bytes \<Rightarrow> wmonitor \<Rightarrow> wmonitor" where
  "reported m n body w = w\<lparr>wm_value := (wm_value w)\<lparr>ov_type := ov_type (mon_value m), ov_undef := False, ov_time := ov_time (mon_value m),
        ov_v := take 8 (store (ov_v (wm_value w)) 0 body), ov_len := int n\<rparr>, wm_incoming := wm_incoming w + 1\<rparr>"

text \<open>
  C6. a number that the hub announces to a watcher is stored in the watcher's monitor with its
  type, length and time, byte for byte, and the monitor is announced to the client.
\<close>

theorem announced_value_arrives:
  assumes "owatchFindMonitorByOoid (mon_ooid m) s = (Some a, s1)" and "wm_recs s1 a = Some w"
    and "\<not> wm_blocked s" and "\<not> ov_undef (mon_value m)" and "ov_type (mon_value m) \<noteq> 115"
    and "wq_type (wi_quarks s1 a) = ov_type (mon_value m)" and "wq_len (wi_quarks s1 a) = int n"
    and "length body = n" and "n \<le> 8" and "buf = [1] @ announce_head m n @ body"
  shows "owatchHandleMonitoring E J (int (length buf)) buf s
    = (OK, snd (owatchAnnounceMonitor E J a False (s1\<lparr>wm_recs := (wm_recs s1)(a \<mapsto> reported m n body w)\<rparr>)))"
proof -
  let ?h = "announce_head m n"
  have p: "parse_report E buf 1 = (mon_ooid m, ov_type (mon_value m), False, ov_time (mon_value m), int n, 1 + length ?h)"
    using report_head_parsed [of n "if ov_undef (mon_value m) then 0x80 else 0" E "[1]" True "ov_time (mon_value m)"
        "mon_ooid m" "ov_type (mon_value m)" body] assms(4,9,10)
    by (simp add: announce_head_report)
  have l: "length buf = 1 + length ?h + n" using assms(8,10) by simp
  have h: "6 \<le> length ?h" by (simp add: announce_head_def Let_def)
  have b: "rd_bytes E buf (Suc (length ?h)) n = body"
    using assms(8,10) by (subst rd_bytes_in) simp_all
  have one: "rd E buf 0 = 1" using assms(10) by simp
  show ?thesis
    using assms(1-9) p l h b one
    by (simp add: owatchHandleMonitoring_def take_report_def upd_wmon_def touch_mon_def ow_mark_def wmon_def reported_def
        sizeof_variant_def Let_def)
qed

section \<open>Samples\<close>

theorem message_roundtrip_witness:
  "parse_message env0 27 (message_request 5 9 [97] [98, 99] 3 4 [1, 2, 3, 4, 5, 6])
    = Some \<lparr>pm_ooid = 9, pm_src = [97], pm_dest = [98, 99], pm_klass = 3, pm_type = 4, pm_len = 6, pm_data = Some [1, 2, 3, 4, 5, 6]\<rparr>"
  using message_roundtrip [of "[97]" "[98, 99]" "[1, 2, 3, 4, 5, 6]" 3 4 env0 5 9] by (simp add: message_request_def)

theorem info_reply_roundtrip_witness:
  "fst (owatchUnpackInfoReply env0 (st32 7 @ ohubPackInfoReply env0 4 OK (no_quark\<lparr>qk_ooid := 7, qk_path := [97, 98]\<rparr>) []) 4) = OK"
  using info_reply_roundtrip [of "no_quark\<lparr>qk_ooid := 7, qk_path := [97, 98]\<rparr>" env0 7 "[]"]
  by (simp add: no_quark_def)

theorem subjects_roundtrip_witness:
  "fst (owatchHandleSubjects env0 9 ([41, 41] @ subject_entry subject0) wnet0) = OK"
  using subjects_roundtrip [of "[subject0]" "[agent0]" True 1 "[41, 46] @ subject_entry subject0" env0 wnet0]
  by (simp add: subject0_def agent0_def short_subject_def subject_entry_def bstr_def Let_def)

definition mon_sample :: watchnet where
  "mon_sample = wnet0\<lparr>wm_mons := [0, 5], wm_recs := [5 \<mapsto> zero_wmon\<lparr>wm_no := 1, wm_ooid := 77\<rparr>],
     wi_quarks := (\<lambda>_. no_wquark\<lparr>wq_type := 104, wq_len := 2\<rparr>),
     wm_hash := snd (treeNumAdd env0 (treeAlloc NUMERIC_TREE) 77 1)\<rparr>"

lemma mon_sample_find: "\<exists>t. owatchFindMonitorByOoid 77 mon_sample = (Some 5, mon_sample\<lparr>wm_hash := t\<rparr>)"
proof -
  obtain rc t where a: "treeNumAdd env0 (treeAlloc NUMERIC_TREE) 77 1 = (rc, t)" by (metis prod.collapse)
  have r: "env_alloc env0 n" for n by (simp add: env0_def)
  have "\<exists>t'. treeNumFind t 77 = (True, 1, t') \<and> num_holds (Suc 0) t' (Map.empty(77 \<mapsto> 1))"
    by (rule num_dict.find_after_add(2) [OF holds_alloc(1), of 77 env0 1 rc t]) (simp_all add: int32_range_def r a)
  then obtain t' where f: "treeNumFind t 77 = (True, 1, t')" by blast
  then have "t \<noteq> None" by (cases t) (simp_all add: treeNumFind_def treeNumFindInternal_def)
  then show ?thesis
    by (intro exI [of _ t']) (simp add: owatchFindMonitorByOoid_def mon_sample_def a f wmon_def Let_def)
qed

theorem announced_value_arrives_witness:
  "fst (owatchHandleMonitoring env0 (jump 0 env0) 13 ([1] @ announce_head (no_monitor\<lparr>mon_ooid := 77, mon_value := val0\<rparr>) 2 @ [1, 2])
      mon_sample) = OK"
proof -
  obtain t where "owatchFindMonitorByOoid 77 mon_sample = (Some 5, mon_sample\<lparr>wm_hash := t\<rparr>)" using mon_sample_find by blast
  then show ?thesis
    using announced_value_arrives [of "no_monitor\<lparr>mon_ooid := 77, mon_value := val0\<rparr>" mon_sample 5 "mon_sample\<lparr>wm_hash := t\<rparr>"
        "zero_wmon\<lparr>wm_no := 1, wm_ooid := 77\<rparr>" 2 "[1, 2]" _ env0 "jump 0 env0", OF _ _ _ _ _ _ _ _ _ refl]
    by (simp add: mon_sample_def wnet0_def val0_def no_value_def no_monitor_def no_wquark_def announce_head_def)
qed

end
