(* ===== verification/Steps.thy ===== *)
theory Steps
  imports Main
begin

text \<open>
  How a property of the state is carried through the control flow of an operation that passes the
  state along: branches, results taken apart, named states, loops over lists. The operations
  return the state, or a pair or triple that ends with it.
\<close>

locale flow =
  fixes P :: "'s \<Rightarrow> bool"
begin

lemma if_step:
  "(b \<Longrightarrow> P s) \<Longrightarrow> (\<not> b \<Longrightarrow> P t) \<Longrightarrow> P (if b then s else t)"
  "(b \<Longrightarrow> P (snd p)) \<Longrightarrow> (\<not> b \<Longrightarrow> P (snd q)) \<Longrightarrow> P (snd (if b then p else q))"
  "(b \<Longrightarrow> P (snd (snd u))) \<Longrightarrow> (\<not> b \<Longrightarrow> P (snd (snd v))) \<Longrightarrow> P (snd (snd (if b then u else v)))"
  by simp_all

lemma option_step:
  "(x = None \<Longrightarrow> P s) \<Longrightarrow> (\<And>y. x = Some y \<Longrightarrow> P (f y)) \<Longrightarrow> P (case x of None \<Rightarrow> s | Some y \<Rightarrow> f y)"
  "(x = None \<Longrightarrow> P (snd p)) \<Longrightarrow> (\<And>y. x = Some y \<Longrightarrow> P (snd (g y))) \<Longrightarrow> P (snd (case x of None \<Rightarrow> p | Some y \<Rightarrow> g y))"
  "(x = None \<Longrightarrow> P (snd (snd u))) \<Longrightarrow> (\<And>y. x = Some y \<Longrightarrow> P (snd (snd (h y))))
    \<Longrightarrow> P (snd (snd (case x of None \<Rightarrow> u | Some y \<Rightarrow> h y)))"
  by (cases x; simp)+

lemma list_step:
  "(xs = [] \<Longrightarrow> P s) \<Longrightarrow> (\<And>y ys. xs = y # ys \<Longrightarrow> P (f y ys)) \<Longrightarrow> P (case xs of [] \<Rightarrow> s | y # ys \<Rightarrow> f y ys)"
  "(xs = [] \<Longrightarrow> P (snd p)) \<Longrightarrow> (\<And>y ys. xs = y # ys \<Longrightarrow> P (snd (g y ys)))
    \<Longrightarrow> P (snd (case xs of [] \<Rightarrow> p | y # ys \<Rightarrow> g y ys))"
  "(xs = [] \<Longrightarrow> P (snd (snd u))) \<Longrightarrow> (\<And>y ys. xs = y # ys \<Longrightarrow> P (snd (snd (h y ys))))
    \<Longrightarrow> P (snd (snd (case xs of [] \<Rightarrow> u | y # ys \<Rightarrow> h y ys)))"
  by (cases xs; simp)+

lemma pair_step:
  "P s \<Longrightarrow> P (snd (a, s))" "P s \<Longrightarrow> P (snd (snd (a, b, s)))"
  by simp_all

text \<open>A result and a state taken apart.\<close>

lemma case_step:
  "P (snd p) \<Longrightarrow> (\<And>a t. p = (a, t) \<Longrightarrow> P t \<Longrightarrow> P (f a t)) \<Longrightarrow> P (case p of (a, t) \<Rightarrow> f a t)"
  "P (snd p) \<Longrightarrow> (\<And>a t. p = (a, t) \<Longrightarrow> P t \<Longrightarrow> P (snd (g a t))) \<Longrightarrow> P (snd (case p of (a, t) \<Rightarrow> g a t))"
  "P (snd p) \<Longrightarrow> (\<And>a t. p = (a, t) \<Longrightarrow> P t \<Longrightarrow> P (snd (snd (h a t))))
    \<Longrightarrow> P (snd (snd (case p of (a, t) \<Rightarrow> h a t)))"
  by (cases p; simp)+

lemma triple_step:
  "P (snd (snd p)) \<Longrightarrow> (\<And>a b t. p = (a, b, t) \<Longrightarrow> P t \<Longrightarrow> P (f a b t)) \<Longrightarrow> P (case p of (a, b, t) \<Rightarrow> f a b t)"
  "P (snd (snd p)) \<Longrightarrow> (\<And>a b t. p = (a, b, t) \<Longrightarrow> P t \<Longrightarrow> P (snd (g a b t)))
    \<Longrightarrow> P (snd (case p of (a, b, t) \<Rightarrow> g a b t))"
  "P (snd (snd p)) \<Longrightarrow> (\<And>a b t. p = (a, b, t) \<Longrightarrow> P t \<Longrightarrow> P (snd (snd (h a b t))))
    \<Longrightarrow> P (snd (snd (case p of (a, b, t) \<Rightarrow> h a b t)))"
  by (cases p; simp)+

text \<open>A state that is named.\<close>

lemma let_step:
  fixes e :: 's
  shows "P e \<Longrightarrow> (\<And>t. t = e \<Longrightarrow> P t \<Longrightarrow> P (f t)) \<Longrightarrow> P (let t = e in f t)"
    "P e \<Longrightarrow> (\<And>t. t = e \<Longrightarrow> P t \<Longrightarrow> P (snd (g t))) \<Longrightarrow> P (snd (let t = e in g t))"
    "P e \<Longrightarrow> (\<And>t. t = e \<Longrightarrow> P t \<Longrightarrow> P (snd (snd (h t)))) \<Longrightarrow> P (snd (snd (let t = e in h t)))"
  by simp_all

lemma plain_steps:
  "P (f e) \<Longrightarrow> P (let t = e in f t)" "P (snd (g e)) \<Longrightarrow> P (snd (let t = e in g t))"
  "P (snd (snd (h e))) \<Longrightarrow> P (snd (snd (let t = e in h t)))"
  "(\<And>a b. p = (a, b) \<Longrightarrow> P (i a b)) \<Longrightarrow> P (case p of (a, b) \<Rightarrow> i a b)"
  "(\<And>a b. p = (a, b) \<Longrightarrow> P (snd (k a b))) \<Longrightarrow> P (snd (case p of (a, b) \<Rightarrow> k a b))"
  "(\<And>a b. p = (a, b) \<Longrightarrow> P (snd (snd (l a b)))) \<Longrightarrow> P (snd (snd (case p of (a, b) \<Rightarrow> l a b)))"
  by (simp_all add: case_prod_unfold)

lemma fold_step:
  assumes "P s" and "\<And>x t. P t \<Longrightarrow> P (f x t)"
  shows "P (fold f xs s)"
  using assms(1) by (induction xs arbitrary: s) (auto intro: assms(2))

lemmas steps = if_step option_step list_step pair_step case_step triple_step let_step fold_step

end

end
