(* ===== verification/WatchInv.thy ===== *)
theory WatchInv
  imports WatchMain HubInv Steps
begin

text \<open>
  The invariant of the watcher library: the table of operations, the two rings of packets, the
  queue of messages and its counts. Every function keeps it, whatever the hub sends and however
  operations wake one another; no function but a wait uses up the future, and a wait only shortens it.
\<close>

named_theorems wk \<open>steps of the library keep its invariant\<close>

section \<open>The invariant\<close>

definition in_use :: "(nat \<Rightarrow> oprec) \<Rightarrow> nat set" where
  "in_use r = {no. or_state (r no) \<noteq> OPS_FREE}"

definition op_entry_ok :: "nat \<Rightarrow> oprec \<Rightarrow> bool" where
  "op_entry_ok no r \<longleftrightarrow> (or_state r \<noteq> OPS_FREE \<longrightarrow>
     0 < no \<and> no < OWATCH_MAX_OPS \<and> or_op r mod 4096 = int no mod 4096 \<and> 4096 \<le> or_op r \<and> or_op r < 16777216)"

definition ops_ok :: "'a watchop_scheme \<Rightarrow> bool" where
  "ops_ok s \<longleftrightarrow> (\<forall>r. ow_ops s = Some r \<longrightarrow>
     (\<forall>no. op_entry_ok no (r no)) \<and> ow_free_count s = int OWATCH_MAX_OPS - int (card (in_use r)))"

definition poll_ok :: "'a watchsend_scheme \<Rightarrow> bool" where
  "poll_ok s \<longleftrightarrow> wn_poll_len s \<le> int (wn_poll_size s)
     \<and> (\<forall>ps. wn_poll_buf s = Some ps \<longrightarrow> length ps = wn_poll_size s
          \<and> (wn_poll_size s = 0 \<or> wn_poll_rd s < wn_poll_size s \<and> wn_poll_wr s < wn_poll_size s))"

definition net_ok :: "'a watchnet_scheme \<Rightarrow> bool" where
  "net_ok s \<longleftrightarrow> ops_ok s \<and> ring_ok s \<and> poll_ok s \<and> length (wb_triggers s) = OWATCH_MAX_TRIGGER"

text \<open>What the counts of the message queue are ahead of the queue.\<close>

definition msg_slack :: "'a watchmsg_scheme \<Rightarrow> int \<times> int" where
  "msg_slack s = (wx_cur_count s - int (length (wx_queue s)), wx_cur_bytes s - sum_list (map pm_len (wx_queue s)))"

definition wkept :: "'a watchnet_scheme \<Rightarrow> 'a watchnet_scheme \<Rightarrow> bool" where
  "wkept s s' \<longleftrightarrow> (net_ok s \<longrightarrow> net_ok s') \<and> msg_slack s' = msg_slack s \<and> length (wy_future s') \<le> length (wy_future s)"

definition jumps_keep :: "'a watchnet_scheme jumps \<Rightarrow> bool" where
  "jumps_keep J \<longleftrightarrow> (\<forall>c op a b s. wkept s (j_cancel J c op a b s))
     \<and> (\<forall>c m k err a b s. wkept s (j_chain J c m k err a b s)) \<and> (\<forall>h p op err s. wkept s (j_local J h p op err s))"

lemma wkept_refl [wk]: "wkept s s" by (simp add: wkept_def)
lemma wkept_trans: "wkept s1 s2 \<Longrightarrow> wkept s2 s3 \<Longrightarrow> wkept s1 s3" by (simp add: wkept_def)

lemma jumps_keep_wk [wk]:
  assumes "jumps_keep J" and "wkept z s"
  shows "wkept z (j_cancel J c op a b s)" "wkept z (j_chain J d m k err a b s)" "wkept z (j_local J h p op err s)"
  using assms wkept_trans unfolding jumps_keep_def by blast+

section \<open>Fields outside the invariant\<close>

text \<open>The fields that the invariant speaks of, without the table of operations.\<close>

definition wrest :: "'a watchnet_scheme \<Rightarrow> (packet list \<times> nat \<times> nat \<times> nat \<times> nat) \<times> (packet list option \<times> int \<times> nat \<times> nat \<times> nat)
    \<times> wtrigger list \<times> (pendingmsg list \<times> int \<times> int) \<times> (env \<times> watch_events) list" where
  "wrest s = ((q_buf s, q_len s, q_size s, q_rd s, q_wr s),
     (wn_poll_buf s, wn_poll_len s, wn_poll_size s, wn_poll_rd s, wn_poll_wr s), wb_triggers s,
     (wx_queue s, wx_cur_count s, wx_cur_bytes s), wy_future s)"

lemma wrest_parts:
  assumes "wrest s' = wrest s"
  shows "ring_ok s' = ring_ok s" "poll_ok s' = poll_ok s" "wb_triggers s' = wb_triggers s"
    "msg_slack s' = msg_slack s" "wy_future s' = wy_future s"
  using assms by (simp_all add: ring_ok_def poll_ok_def msg_slack_def wrest_def)

lemma wkept_ops:
  assumes "wkept z s" and "ops_ok s \<Longrightarrow> ops_ok s'" and "wrest s' = wrest s"
  shows "wkept z s'"
  using assms(1,2) unfolding wkept_def net_ok_def by (simp add: wrest_parts [OF assms(3)])

lemma wkept_core:
  "wkept z s \<Longrightarrow> ow_ops s' = ow_ops s \<Longrightarrow> ow_free_count s' = ow_free_count s \<Longrightarrow> wrest s' = wrest s \<Longrightarrow> wkept z s'"
  by (rule wkept_ops) (simp_all add: ops_ok_def)

lemma wrest_fields [simp]:
  "wrest (p_state_update g0 s) = wrest s" "wrest (p_id_update g1 s) = wrest s" "wrest (needs_rotor_update g2 s) = wrest s"
  "wrest (data_sock_update g3 s) = wrest s" "wrest (cntl_addr_update g4 s) = wrest s" "wrest (alive_get_wd_update g5 s) = wrest s"
  "wrest (alive_put_wd_update g6 s) = wrest s" "wrest (hdr_buf_update g12 s) = wrest s" "wrest (hdr_off_update g13 s) = wrest s"
  "wrest (reget_type_update g14 s) = wrest s" "wrest (reget_len_update g15 s) = wrest s" "wrest (reget_off_update g16 s) = wrest s"
  "wrest (reget_buf_update g17 s) = wrest s" "wrest (reput_type_update g18 s) = wrest s" "wrest (reput_len_update g19 s) = wrest s"
  "wrest (reput_off_update g20 s) = wrest s" "wrest (reput_buf_update g21 s) = wrest s" "wrest (p_url_update g22 s) = wrest s"
  "wrest (p_tx_update g23 s) = wrest s" "wrest (p_utx_update g24 s) = wrest s" "wrest (p_wire_update g25 s) = wrest s"
  "wrest (p_dgrams_update g26 s) = wrest s" "wrest (ow_next_id_update g29 s) = wrest s" "wrest (ow_op_handlers_update g30 s) = wrest s"
  "wrest (ow_async_timeout_update g31 s) = wrest s" "wrest (ow_lazy_update g32 s) = wrest s" "wrest (ow_lazy_calls_update g33 s) = wrest s"
  "wrest (ow_idle_update g34 s) = wrest s" "wrest (ow_idle_qty_update g35 s) = wrest s" "wrest (ow_calls_update g36 s) = wrest s"
  "wrest (ow_brk_update g37 s) = wrest s" "wrest (ow_aborted_update g38 s) = wrest s" "wrest (ow_fault_update g39 s) = wrest s"
  "wrest (wn_conn_op_update g40 s) = wrest s" "wrest (wn_cntl_sock_update g41 s) = wrest s" "wrest (wn_data_addr_update g42 s) = wrest s"
  "wrest (wn_my_addr_update g43 s) = wrest s" "wrest (wn_ping_cur_ms_update g44 s) = wrest s" "wrest (wn_ping_wd_update g45 s) = wrest s"
  "wrest (wn_is_polling_update g46 s) = wrest s" "wrest (wn_poll_depth_update g47 s) = wrest s" "wrest (wn_routine_ms_update g48 s) = wrest s"
  "wrest (wn_can_immed_update g54 s) = wrest s" "wrest (wn_temp_id_update g55 s) = wrest s" "wrest (wn_sendrecs_update g56 s) = wrest s"
  "wrest (wn_initialized_update g57 s) = wrest s" "wrest (wn_watcher_desc_update g58 s) = wrest s" "wrest (wi_cache_update g59 s) = wrest s"
  "wrest (wi_cache_size_update g60 s) = wrest s" "wrest (wi_desc_hash_update g61 s) = wrest s" "wrest (wi_ooid_hash_update g62 s) = wrest s"
  "wrest (wi_reject_hash_update g63 s) = wrest s" "wrest (wi_quarks_update g64 s) = wrest s" "wrest (wi_gets_update g65 s) = wrest s"
  "wrest (wb_subjects_update g66 s) = wrest s" "wrest (wb_alive_handlers_update g67 s) = wrest s" "wrest (wb_conn_alive_update g68 s) = wrest s"
  "wrest (wb_domain_full_update g69 s) = wrest s" "wrest (wb_trigger_qty_update g71 s) = wrest s" "wrest (wm_mons_update g72 s) = wrest s"
  "wrest (wm_recs_update g73 s) = wrest s" "wrest (wm_hash_update g74 s) = wrest s" "wrest (wm_updates_update g75 s) = wrest s"
  "wrest (wm_data_handlers_update g76 s) = wrest s" "wrest (wm_active_update g77 s) = wrest s" "wrest (wm_secure_count_update g78 s) = wrest s"
  "wrest (wm_blocked_update g79 s) = wrest s" "wrest (wm_checks_update g80 s) = wrest s" "wrest (wm_ooids_update g81 s) = wrest s"
  "wrest (wm_vals_update g82 s) = wrest s" "wrest (wm_bufs_update g83 s) = wrest s" "wrest (wm_hung_update g84 s) = wrest s"
  "wrest (wd_optimize_update g85 s) = wrest s" "wrest (wd_reads_update g86 s) = wrest s" "wrest (wd_writes_update g87 s) = wrest s"
  "wrest (wx_classes_update g88 s) = wrest s" "wrest (wx_dangling_update g89 s) = wrest s" "wrest (wx_rcvrs_update g91 s) = wrest s"
  "wrest (wx_himark_update g92 s) = wrest s" "wrest (wx_hi_count_update g95 s) = wrest s" "wrest (wx_hi_bytes_update g96 s) = wrest s"
  "wrest (wx_ack_count_update g97 s) = wrest s" "wrest (wx_auto_ooid_update g98 s) = wrest s" "wrest (wx_ints_update g99 s) = wrest s"
  "wrest (wx_remote_log_update g100 s) = wrest s" "wrest (wy_waiting_update g102 s) = wrest s" "wrest (wy_deep_update g103 s) = wrest s"
  by (simp_all add: wrest_def)

lemma wkept_fields [wk]:
  assumes "wkept z s"
  shows
  "wkept z (p_state_update g0 s)" "wkept z (p_id_update g1 s)" "wkept z (needs_rotor_update g2 s)"
  "wkept z (data_sock_update g3 s)" "wkept z (cntl_addr_update g4 s)" "wkept z (alive_get_wd_update g5 s)"
  "wkept z (alive_put_wd_update g6 s)" "wkept z (hdr_buf_update g12 s)" "wkept z (hdr_off_update g13 s)"
  "wkept z (reget_type_update g14 s)" "wkept z (reget_len_update g15 s)" "wkept z (reget_off_update g16 s)"
  "wkept z (reget_buf_update g17 s)" "wkept z (reput_type_update g18 s)" "wkept z (reput_len_update g19 s)"
  "wkept z (reput_off_update g20 s)" "wkept z (reput_buf_update g21 s)" "wkept z (p_url_update g22 s)"
  "wkept z (p_tx_update g23 s)" "wkept z (p_utx_update g24 s)" "wkept z (p_wire_update g25 s)"
  "wkept z (p_dgrams_update g26 s)" "wkept z (ow_next_id_update g29 s)" "wkept z (ow_op_handlers_update g30 s)"
  "wkept z (ow_async_timeout_update g31 s)" "wkept z (ow_lazy_update g32 s)" "wkept z (ow_lazy_calls_update g33 s)"
  "wkept z (ow_idle_update g34 s)" "wkept z (ow_idle_qty_update g35 s)" "wkept z (ow_calls_update g36 s)"
  "wkept z (ow_brk_update g37 s)" "wkept z (ow_aborted_update g38 s)" "wkept z (ow_fault_update g39 s)"
  "wkept z (wn_conn_op_update g40 s)" "wkept z (wn_cntl_sock_update g41 s)" "wkept z (wn_data_addr_update g42 s)"
  "wkept z (wn_my_addr_update g43 s)" "wkept z (wn_ping_cur_ms_update g44 s)" "wkept z (wn_ping_wd_update g45 s)"
  "wkept z (wn_is_polling_update g46 s)" "wkept z (wn_poll_depth_update g47 s)" "wkept z (wn_routine_ms_update g48 s)"
  "wkept z (wn_can_immed_update g54 s)" "wkept z (wn_temp_id_update g55 s)" "wkept z (wn_sendrecs_update g56 s)"
  "wkept z (wn_initialized_update g57 s)" "wkept z (wn_watcher_desc_update g58 s)" "wkept z (wi_cache_update g59 s)"
  "wkept z (wi_cache_size_update g60 s)" "wkept z (wi_desc_hash_update g61 s)" "wkept z (wi_ooid_hash_update g62 s)"
  "wkept z (wi_reject_hash_update g63 s)" "wkept z (wi_quarks_update g64 s)" "wkept z (wi_gets_update g65 s)"
  "wkept z (wb_subjects_update g66 s)" "wkept z (wb_alive_handlers_update g67 s)" "wkept z (wb_conn_alive_update g68 s)"
  "wkept z (wb_domain_full_update g69 s)" "wkept z (wb_trigger_qty_update g71 s)" "wkept z (wm_mons_update g72 s)"
  "wkept z (wm_recs_update g73 s)" "wkept z (wm_hash_update g74 s)" "wkept z (wm_updates_update g75 s)"
  "wkept z (wm_data_handlers_update g76 s)" "wkept z (wm_active_update g77 s)" "wkept z (wm_secure_count_update g78 s)"
  "wkept z (wm_blocked_update g79 s)" "wkept z (wm_checks_update g80 s)" "wkept z (wm_ooids_update g81 s)"
  "wkept z (wm_vals_update g82 s)" "wkept z (wm_bufs_update g83 s)" "wkept z (wm_hung_update g84 s)"
  "wkept z (wd_optimize_update g85 s)" "wkept z (wd_reads_update g86 s)" "wkept z (wd_writes_update g87 s)"
  "wkept z (wx_classes_update g88 s)" "wkept z (wx_dangling_update g89 s)" "wkept z (wx_rcvrs_update g91 s)"
  "wkept z (wx_himark_update g92 s)" "wkept z (wx_hi_count_update g95 s)" "wkept z (wx_hi_bytes_update g96 s)"
  "wkept z (wx_ack_count_update g97 s)" "wkept z (wx_auto_ooid_update g98 s)" "wkept z (wx_ints_update g99 s)"
  "wkept z (wx_remote_log_update g100 s)" "wkept z (wy_waiting_update g102 s)" "wkept z (wy_deep_update g103 s)"
  by (rule wkept_core [OF assms]; simp)+

section \<open>Control flow\<close>

interpretation kept: flow "wkept z" for z .

lemmas kept_steps [wk] = kept.steps
lemmas wk_let = kept.plain_steps

section \<open>The table of operations\<close>

lemma upd_op_wk [wk]:
  fixes s :: "'a watchnet_scheme"
  assumes "wkept z s" and "or_op (f (the_ops s no)) = or_op (the_ops s no)"
    and "(or_state (f (the_ops s no)) = OPS_FREE) = (or_state (the_ops s no) = OPS_FREE)"
  shows "wkept z (upd_op no f s)"
proof (rule wkept_ops [OF assms(1)])
  show "wrest (upd_op no f s) = wrest s" by (simp add: upd_op_def wrest_def)
next
  assume ok: "ops_ok s"
  have "in_use (r(no := f (r no))) = in_use r" if "ow_ops s = Some r" for r
    using assms(3) that by (auto simp: in_use_def the_ops_def)
  moreover have "op_entry_ok no (f (r no))" if "ow_ops s = Some r" for r
    using ok assms(2,3) that by (auto simp: op_entry_ok_def the_ops_def ops_ok_def)
  ultimately show "ops_ok (upd_op no f s)"
    using ok by (auto simp: ops_ok_def upd_op_def)
qed

lemma finite_in_use: "(\<forall>no. op_entry_ok no (r no)) \<Longrightarrow> finite (in_use r)"
  by (rule finite_subset [of _ "{..<OWATCH_MAX_OPS}"]) (auto simp: in_use_def op_entry_ok_def)

lemma first_free_op_Some: "first_free_op r k i = Some no \<Longrightarrow> i \<le> no \<and> no < i + k \<and> or_state (r no) = OPS_FREE"
  by (induction r k i rule: first_free_op.induct) (auto split: if_splits)

lemma uint_low: "uint ((w :: u32) AND 0xfff) < 4096" "0 \<le> uint (w AND 0xfff)"
proof -
  have "w AND 0xfff = take_bit 12 w" by (simp add: take_bit_eq_mask mask_eq_exp_minus_1)
  then show "uint (w AND 0xfff) < 4096" "0 \<le> uint (w AND 0xfff)"
    by (simp_all only: unsigned_take_bit_eq) (simp_all add: take_bit_eq_mod)
qed

lemma in_use_put: "or_state x \<noteq> OPS_FREE \<Longrightarrow> in_use (r(no := x)) = insert no (in_use r)"
  by (auto simp: in_use_def)

lemma in_use_drop: "or_state x = OPS_FREE \<Longrightarrow> in_use (r(no := x)) = in_use r - {no}"
  by (auto simp: in_use_def)

lemma upd_op_rest [simp]:
  "wrest (upd_op no f s) = wrest s" "ow_free_count (upd_op no f s) = ow_free_count s"
  by (simp_all add: upd_op_def wrest_def)

lemma owatchAllocateOp_ok:
  fixes s :: "'a watchop_scheme"
  assumes ok: "ops_ok s"
  shows "ops_ok (snd (owatchAllocateOp c d1 d2 s))"
proof (cases "ow_ops s = None \<or> ow_free_count s \<le> 0 \<or> first_free_op (the_ops s) (OWATCH_MAX_OPS - 1) 1 = None")
  case True
  then show ?thesis using ok by (auto simp: owatchAllocateOp_def)
next
  case False
  then obtain no r where no: "first_free_op (the_ops s) (OWATCH_MAX_OPS - 1) 1 = Some no" and r: "ow_ops s = Some r"
    and pos: "0 < ow_free_count s" by auto
  have f: "1 \<le> no" "no < OWATCH_MAX_OPS" "or_state (r no) = OPS_FREE"
    using first_free_op_Some [OF no] r by (auto simp: OWATCH_MAX_OPS_def the_ops_def)
  obtain op nid where m: "make_op (ow_next_id s) no = (op, nid)" by (cases "make_op (ow_next_id s) no")
  define e where "e = \<lparr>or_op = op, or_state = OPS_PENDING, or_err = 0, or_data1 = d1, or_data2 = d2,
                  or_canceller = c, or_m_op = OWOP_NULL, or_s_op = OWOP_NULL, or_chainer = None,
                  or_param1 = 0, or_param2 = 0, or_handler = None, or_loc_param = 0\<rparr>"
  let ?n = "if ow_next_id s AND 0xfff = 0 then ow_next_id s + 1 else ow_next_id s"
  have op: "op = int no mod 4096 + uint (?n AND 0xfff) * 4096"
    using m by (auto simp: make_op_def Let_def)
  have nz: "?n AND 0xfff \<noteq> 0"
  proof (cases "ow_next_id s AND 0xfff = 0")
    case True
    have ev: "even w" if "w AND 0xfff = 0" for w :: u32
    proof -
      have "even (w AND 0xfff)" using that by simp
      then show ?thesis by (simp only: even_and_iff) simp
    qed
    have "\<not> (even (ow_next_id s) \<and> even (ow_next_id s + 1))" by simp
    then have "(ow_next_id s + 1) AND 0xfff \<noteq> 0" using ev [OF True] ev [of "ow_next_id s + 1"] by blast
    then show ?thesis using True by simp
  qed simp
  have "uint (?n AND 0xfff) \<noteq> 0" using nz by (simp add: uint_0_iff)
  then have u: "1 \<le> uint (?n AND 0xfff)" "uint (?n AND 0xfff) < 4096" using uint_low [of ?n] by linarith+
  have "0 \<le> int no mod 4096" "int no mod 4096 < 4096" by simp_all
  then have "4096 \<le> op" "op < 16777216" "op mod 4096 = int no mod 4096" using op u by auto
  then have e: "op_entry_ok no e" using f by (simp add: op_entry_ok_def e_def)
  have s': "snd (owatchAllocateOp c d1 d2 s) = (upd_op no (\<lambda>_. e) s)\<lparr>ow_next_id := nid, ow_free_count := ow_free_count s - 1\<rparr>"
    using r pos no m by (simp add: owatchAllocateOp_def e_def)
  have a: "\<forall>no. op_entry_ok no (r no)" "ow_free_count s = int OWATCH_MAX_OPS - int (card (in_use r))"
    using ok r by (auto simp: ops_ok_def)
  have "in_use (r(no := e)) = insert no (in_use r)" by (rule in_use_put) (simp add: e_def)
  moreover have "no \<notin> in_use r" using f by (simp add: in_use_def)
  ultimately have "card (in_use (r(no := e))) = Suc (card (in_use r))"
    using finite_in_use [OF a(1)] by simp
  then show ?thesis using a e r by (simp add: s' ops_ok_def upd_op_def)
qed

lemma owatchDeallocateOp_ok:
  fixes s :: "'a watchop_scheme"
  assumes ok: "ops_ok s"
  shows "ops_ok (snd (owatchDeallocateOp op s))"
proof (cases "owatchGetOpRecord op s")
  case None
  then show ?thesis using ok by (simp add: owatchDeallocateOp_def)
next
  case (Some no)
  then obtain r where r: "ow_ops s = Some r" "or_state (r no) \<noteq> OPS_FREE"
    by (cases "ow_ops s") (auto simp: owatchGetOpRecord_def the_ops_def Let_def split: if_splits)
  define e where "e = zero_op\<lparr>or_op := int (op_no (or_op (r no))), or_m_op := OWOP_NULL, or_s_op := OWOP_NULL\<rparr>"
  have e: "or_state e = OPS_FREE" by (simp add: e_def zero_op_def)
  have a: "\<forall>no. op_entry_ok no (r no)" "ow_free_count s = int OWATCH_MAX_OPS - int (card (in_use r))"
    using ok r by (auto simp: ops_ok_def)
  have n: "no \<in> in_use r" using r by (simp add: in_use_def)
  have "in_use (r(no := e)) = in_use r - {no}" by (rule in_use_drop [OF e])
  then have "Suc (card (in_use (r(no := e)))) = card (in_use r)"
    using card_Suc_Diff1 [OF finite_in_use [OF a(1)] n] by simp
  then show ?thesis using a e r Some
    by (simp add: owatchDeallocateOp_def ops_ok_def upd_op_def e_def [symmetric] op_entry_ok_def)
qed

lemma wrest_ops [simp]:
  "wrest (ow_free_count_update f s) = wrest s" "wrest (ow_ops_update g s) = wrest s"
  by (simp_all add: wrest_def)

lemma owatchAllocateOp_wk [wk]: "wkept z s \<Longrightarrow> wkept z (snd (owatchAllocateOp pcanc data1 data2 s))"
  by (erule wkept_ops, erule owatchAllocateOp_ok)
    (simp add: owatchAllocateOp_def case_prod_beta split: option.split)

lemma owatchDeallocateOp_wk [wk]: "wkept z s \<Longrightarrow> wkept z (snd (owatchDeallocateOp op s))"
  by (erule wkept_ops, erule owatchDeallocateOp_ok) (simp add: owatchDeallocateOp_def split: option.split)

lemma find_op_valid:
  assumes "find_op op s = Some no"
  shows "or_state (the_ops s no) \<noteq> OPS_FREE" "or_op (the_ops s no) = op" "no = op_no op" "0 < no" "no < OWATCH_MAX_OPS"
  using assms by (auto simp: find_op_def owatchGetOpRecord_def Let_def split: option.splits if_splits)

lemma owatchSetOpData_wk [wk]: "wkept z s \<Longrightarrow> wkept z (snd (owatchSetOpData op data1 data2 s))"
  unfolding owatchSetOpData_def by (assumption | rule wk | rule wk_let | simp)+

lemma ow_small_wk [wk]:
  fixes s :: "'a watchnet_scheme"
  assumes "wkept z s"
  shows "wkept z (ow_mark b s)" "wkept z (snd (ow_abort s))" "wkept z (ow_call c s)" "wkept z (snd (ow_new s))"
  unfolding ow_mark_def ow_abort_def ow_call_def ow_new_def by (assumption | rule wk assms)+

lemma owatchChainOps_wk [wk]: "jumps_keep J \<Longrightarrow> wkept z s \<Longrightarrow> wkept z (snd (owatchChainOps J m_op s_op chn param1 param2 s))"
  unfolding owatchChainOps_def by (assumption | rule wk | rule wk_let | simp)+

lemma owatchUnchainOp_wk [wk]: "wkept z s \<Longrightarrow> wkept z (snd (owatchUnchainOp m_op s))"
  unfolding owatchUnchainOp_def by (assumption | rule wk | rule wk_let | simp)+


lemma finish_local_wk [wk]:
  "jumps_keep J \<Longrightarrow> wkept z s \<Longrightarrow> wkept z (snd (finish_local J no op err s))"
  unfolding finish_local_def by (assumption | rule wk | rule wk_let | simp)+

lemma finish_master_wk:
  assumes "jumps_keep J" and "wkept z s"
  shows "wkept z (snd (finish_master J no op err s))"
    "fst (finish_master J no op err s) = Some (b, t) \<Longrightarrow> wkept z t"
proof -
  have "wkept z (snd (finish_master J no op err s)) \<and>
    (\<forall>b t. fst (finish_master J no op err s) = Some (b, t) \<longrightarrow> wkept z t)"
    using assms jumps_keep_wk(2) [OF assms] ow_small_wk(2) [OF assms(2)] ow_small_wk(2) [OF jumps_keep_wk(2) [OF assms]]
    by (auto simp: finish_master_def Let_def split: option.split)
  then show "wkept z (snd (finish_master J no op err s))"
    "fst (finish_master J no op err s) = Some (b, t) \<Longrightarrow> wkept z t" by blast+
qed

lemma call_ophandlers_wk [wk]: "wkept z s \<Longrightarrow> wkept z (call_ophandlers op err s)"
  unfolding call_ophandlers_def by (assumption | rule wk | rule wk_let | simp)+

lemma owatchFinalizeOp_wk [wk]:
  assumes "jumps_keep J" and "wkept z s"
  shows "wkept z (snd (owatchFinalizeOp J op err s))"
proof -
  have m: "wkept z (snd (case finish_master J no op err s2 of (None, s3) \<Rightarrow> (ERROR, s3)
               | (Some (skip, s3), _) \<Rightarrow> finish_local J no op err (if skip then s3 else call_ophandlers op err s3)))"
    if "wkept z s2" for no s2
    using finish_master_wk [OF assms(1) that, of no op err]
    by (auto split: prod.split option.split intro!: wk assms)
  show ?thesis
    unfolding owatchFinalizeOp_def
    by (rule assms m | assumption | rule wk | rule wk_let | simp)+
qed

lemma cancel_op_wk [wk]:
  "jumps_keep J \<Longrightarrow> wkept z s \<Longrightarrow> wkept z (snd (cancel_op J k op s))"
proof (induction k arbitrary: op s)
  case 0
  then show ?case by (simp add: ow_small_wk)
next
  case (Suc k)
  show ?case unfolding cancel_op.simps(2)
    by (rule Suc | assumption | rule wk | rule wk_let | simp)+
qed

lemma cancel_all_wk [wk]:
  "jumps_keep J \<Longrightarrow> wkept z s \<Longrightarrow> wkept z (cancel_all J k no s)"
  by (induction k arbitrary: no s) (simp_all add: cancel_op_wk)

lemma owatchCancelOp_wk [wk]: "jumps_keep J \<Longrightarrow> wkept z s \<Longrightarrow> wkept z (snd (owatchCancelOp J op s))"
  unfolding owatchCancelOp_def by (assumption | rule wk | rule wk_let | simp)+

section \<open>Sending\<close>

lemma watchnet_more:
  fixes s s' :: "'a watchnet_scheme"
  assumes "peer.more s' = peer.more s"
  shows "ow_ops s' = ow_ops s \<and> ow_free_count s' = ow_free_count s \<and> wn_poll_buf s' = wn_poll_buf s
    \<and> wn_poll_len s' = wn_poll_len s \<and> wn_poll_size s' = wn_poll_size s \<and> wn_poll_rd s' = wn_poll_rd s
    \<and> wn_poll_wr s' = wn_poll_wr s \<and> wb_triggers s' = wb_triggers s \<and> wx_queue s' = wx_queue s
    \<and> wx_cur_count s' = wx_cur_count s \<and> wx_cur_bytes s' = wx_cur_bytes s \<and> wy_future s' = wy_future s"
  using assms by (cases s, cases s') simp

lemma wkept_peer:
  fixes s s' :: "'a watchnet_scheme"
  assumes "wkept z s" and "peer.more s' = peer.more s" and "ring_ok s \<Longrightarrow> ring_ok s'"
  shows "wkept z s'"
proof -
  note m = watchnet_more [OF assms(2)]
  have "ops_ok s' = ops_ok s" "poll_ok s' = poll_ok s" "msg_slack s' = msg_slack s"
    using m by (simp_all add: ops_ok_def poll_ok_def msg_slack_def)
  then show ?thesis using assms(1,3) m by (auto simp: wkept_def net_ok_def)
qed

lemma peer_frame_wk:
  assumes "wkept z s" and "peer_frame s s'"
  shows "wkept z s'"
proof (rule wkept_peer [OF assms(1)])
  show "peer.more s' = peer.more s" using assms(2) by (simp add: peer_frame_def)
  show "ring_ok s \<Longrightarrow> ring_ok s'" using assms(2) by (simp add: peer_frame_def)
qed

lemma owatchSendPacket_wk [wk]:
  assumes "wkept z s"
  shows "wkept z (snd (owatchSendPacket E kind ty len data s))"
proof -
  have S: "wkept z (snd (StreamSend E c ty len data s))" if "0 \<le> len" "len > 0 \<longrightarrow> data \<noteq> None" for c
    by (rule peer_frame_wk [OF assms StreamSend_frame [OF that prod.collapse [symmetric]]])
  have D: "wkept z (snd (DatagramSend E ty len data s))"
    by (rule peer_frame_wk [OF assms DatagramSend_frame [OF prod.collapse [symmetric]]])
  let ?c = "wn_can_immed s"
  obtain rc s1 where p: "PokeStream E ty len data s = (rc, s1)" by (cases "PokeStream E ty len data s")
  show ?thesis
  proof (cases "len < 0 \<or> (len > 0 \<and> data = None) \<or> kind = OLANG_CONTROL \<or> kind = OLANG_COMMAND \<or> kind \<noteq> OLANG_DATA")
    case True
    then show ?thesis using D assms by (auto simp: owatchSendPacket_def)
  next
    case False
    have "wkept z (snd (StreamSend E (wn_can_immed s) ty len data s))" using S False by auto
    moreover have "snd (owatchSendPacket E kind ty len data s) = snd (StreamSend E (wn_can_immed s) ty len data s)
      \<or> (\<exists>w. snd (owatchSendPacket E kind ty len data s) = (snd (StreamSend E (wn_can_immed s) ty len data s))\<lparr>alive_put_wd := w\<rparr>)"
      using False p by (auto simp: owatchSendPacket_def StreamSend_def owatchPokeStream_def)
    ultimately show ?thesis using wkept_fields by fastforce
  qed
qed

lemma PokeStream_queue:
  "PokeStream E ty len dp p = (rc, p') \<Longrightarrow> q_buf p' = q_buf p \<and> q_len p' = q_len p \<and> q_size p' = q_size p
    \<and> q_rd p' = q_rd p \<and> q_wr p' = q_wr p"
  by (auto simp: PokeStream_def PokeRetry_def PokeNew_def Let_def split: if_splits prod.splits)

lemma ResendStream_ring:
  "ring_ok p \<Longrightarrow> ring_ok (ResendStream E p)"
proof (induction E p rule: ResendStream.induct)
  case (1 E p)
  obtain rc p1 where s1: "(if reput_len p \<ge> 0 then PokeStream E (-1) (-1) None p else (OK, p)) = (rc, p1)"
    by (metis prod.exhaust)
  have r1: "ring_ok p1" using 1(2) s1 by (auto simp: ring_ok_def split: if_splits dest!: PokeStream_queue)
  let ?pk = "q_buf p1 ! q_rd p1"
  obtain rc2 p2 where s2: "PokeStream E (pk_type ?pk) (pk_len ?pk) (pk_buf ?pk) p1 = (rc2, p2)"
    by (metis prod.exhaust)
  have r2: "ring_ok p2" "q_len p2 = q_len p1" using r1 PokeStream_queue [OF s2] by (auto simp: ring_ok_def)
  show ?case
  proof (cases "rc = OK \<and> q_len p1 \<noteq> 0 \<and> rc2 = OK")
    case False
    then show ?thesis using s1 s2 r1 r2 by (auto simp: ResendStream.simps [of E p])
  next
    case True
    then have r3: "ring_ok (ring_get p2)" using r2 by (intro ring_get_ok) (auto simp: queued_def)
    have ex: "ResendStream E p = (if q_len (ring_get p2) = 0 \<or> reput_len (ring_get p2) \<ge> 0 then ring_get p2
        else ResendStream E (ring_get p2))"
      using s1 s2 True by (simp add: ResendStream.simps [of E p])
    show ?thesis using ex r3 1(1) [OF s1 [symmetric]] s2 True
      by (cases "q_len (ring_get p2) = 0 \<or> reput_len (ring_get p2) \<ge> 0") auto
  qed
qed

lemma owatchResendStream_wk [wk]: "wkept z s \<Longrightarrow> wkept z (owatchResendStream E s)"
  unfolding owatchResendStream_def by (erule wkept_peer) (simp_all add: ResendStream_more ResendStream_ring)

lemma recv_queue:
  "recv_ready E c rx p = (b, rx', p') \<Longrightarrow> ring_ok p' = ring_ok p"
  "recv_body E eof rx p = (b, rx', p') \<Longrightarrow> ring_ok p' = ring_ok p"
  "recv_again E eof rx p = (b, rx', p') \<Longrightarrow> ring_ok p' = ring_ok p"
proof -
  show r: "recv_ready E c rx p = (b, rx', p') \<Longrightarrow> ring_ok p' = ring_ok p" for E c rx p b rx' and p' :: "'b peer_scheme"
    by (auto simp: recv_ready_def ring_ok_def split: if_splits)
  show "recv_body E eof rx p = (b, rx', p') \<Longrightarrow> ring_ok p' = ring_ok p"
    by (auto simp: recv_body_def Let_def split: if_splits prod.splits dest!: r) (simp_all add: ring_ok_def)
  show "recv_again E eof rx p = (b, rx', p') \<Longrightarrow> ring_ok p' = ring_ok p"
    by (auto simp: recv_again_def Let_def split: if_splits prod.splits option.splits dest!: r) (simp_all add: ring_ok_def)
qed


lemma ReceiveStep_wk:
  assumes "ReceiveStep E fp eof rx s = (b, rx', s')" and "wkept z s"
  shows "wkept z s'"
proof (rule wkept_peer [OF assms(2) ReceiveStep_more [OF assms(1)]])
  assume r: "ring_ok s"
  show "ring_ok s'"
  proof (cases "reget_len s \<ge> 0")
    case True
    then have "recv_again E eof rx s = (b, rx', s')" using assms(1) by (simp add: ReceiveStep_def)
    from recv_queue(3) [OF this] show ?thesis using r by simp
  next
    case False
    then show ?thesis using assms(1) r
      by (auto simp: ReceiveStep_def Let_def split: if_splits prod.splits dest!: recv_queue(2)) (simp_all add: ring_ok_def)
  qed
qed

lemma owatchSecureSend_wk [wk]: "wkept z s \<Longrightarrow> wkept z (snd (owatchSecureSend E kind ty len data s))"
  unfolding owatchSecureSend_def by (assumption | rule wk | rule wk_let | simp)+

lemma owatchCancelSecureSend_wk [wk]: "wkept z s \<Longrightarrow> wkept z (snd (owatchCancelSecureSend op data1 data2 s))"
  unfolding owatchCancelSecureSend_def owatchUnlinkSendRecord_def by (assumption | rule wk | rule wk_let | simp)+

lemma resend_secure_wk [wk]: "jumps_keep J \<Longrightarrow> wkept z s \<Longrightarrow> wkept z (resend_secure E J k s)"
proof (induction k arbitrary: s)
  case (Suc k)
  show ?case unfolding resend_secure.simps(2)
    by (cases "wn_sendrecs s") (simp_all only: list.case, (rule Suc | assumption | rule wk | rule wk_let | simp)+)
qed simp

lemma owatchPingHub_wk [wk]: "wkept z s \<Longrightarrow> wkept z (owatchPingHub E s)"
  unfolding owatchPingHub_def by (assumption | rule wk | rule wk_let | simp)+

lemma owatchAddOpHandler_wk [wk]: "wkept z s \<Longrightarrow> wkept z (snd (owatchAddOpHandler f param s))"
  unfolding owatchAddOpHandler_def by (assumption | rule wk | rule wk_let | simp)+

lemma owatchRemoveOpHandler_wk [wk]: "wkept z s \<Longrightarrow> wkept z (snd (owatchRemoveOpHandler f s))"
  unfolding owatchRemoveOpHandler_def by (assumption | rule wk | rule wk_let | simp)+

lemma take_result_wk [wk]: "wkept z s \<Longrightarrow> wkept z (snd (snd (take_result op no s)))"
  unfolding take_result_def by (assumption | rule wk | rule wk_let | simp)+

lemma owatchLocalOpHandler_wk [wk]: "jumps_keep J \<Longrightarrow> wkept z s \<Longrightarrow> wkept z (snd (owatchLocalOpHandler J op phand param s))"
  unfolding owatchLocalOpHandler_def by (assumption | rule wk | rule wk_let | simp)+

lemma owatchDetachOp_wk [wk]: "jumps_keep J \<Longrightarrow> wkept z s \<Longrightarrow> wkept z (snd (owatchDetachOp J op s))"
  unfolding owatchDetachOp_def by (assumption | rule wk | rule wk_let | simp)+

lemma owatchSetAsyncTimeout_wk [wk]: "wkept z s \<Longrightarrow> wkept z (snd (owatchSetAsyncTimeout timeout s))"
  unfolding owatchSetAsyncTimeout_def by (assumption | rule wk | rule wk_let | simp)+

lemma owatchExitOperations_wk [wk]: "wkept z s \<Longrightarrow> wkept z (owatchExitOperations s)"
  by (erule wkept_ops) (simp_all add: owatchExitOperations_def ops_ok_def)

lemma owatchInitOperations_wk [wk]: "wkept z s \<Longrightarrow> wkept z (snd (owatchInitOperations E s))"
  by (erule wkept_ops) (auto simp: owatchInitOperations_def Let_def ops_ok_def in_use_def op_entry_ok_def zero_op_def)

lemma owatchRecordLazyCall_wk [wk]: "wkept z s \<Longrightarrow> wkept z (owatchRecordLazyCall E c s)"
  unfolding owatchRecordLazyCall_def by (assumption | rule wk | rule wk_let | simp)+

lemma owatchCallIdleHandler_wk [wk]: "wkept z s \<Longrightarrow> wkept z (owatchCallIdleHandler s)"
  unfolding owatchCallIdleHandler_def by (assumption | rule wk | rule wk_let | simp)+

lemma owatchRegisterIdleHandler_wk [wk]: "wkept z s \<Longrightarrow> wkept z (snd (owatchRegisterIdleHandler hand enable s))"
  unfolding owatchRegisterIdleHandler_def by (assumption | rule wk | rule wk_let | simp)+

lemma put_quark_wk [wk]: "wkept z s \<Longrightarrow> wkept z (put_quark a b s)"
  unfolding put_quark_def by (assumption | rule wk | rule wk_let | simp)+

lemma owatchFlushInfoCache_wk [wk]: "wkept z s \<Longrightarrow> wkept z (owatchFlushInfoCache s)"
  unfolding owatchFlushInfoCache_def by (assumption | rule wk | rule wk_let | simp)+

lemma cached_by_desc_wk [wk]: "wkept z s \<Longrightarrow> wkept z (snd (cached_by_desc desc s))"
  unfolding cached_by_desc_def by (assumption | rule wk | rule wk_let | simp)+

lemma owatchFindCachedInfoByDesc_wk [wk]: "wkept z s \<Longrightarrow> wkept z (snd (owatchFindCachedInfoByDesc desc quark_p s))"
  unfolding owatchFindCachedInfoByDesc_def by (assumption | rule wk | rule wk_let | simp)+

lemma owatchFindCachedInfoByOoid_wk [wk]: "wkept z s \<Longrightarrow> wkept z (snd (owatchFindCachedInfoByOoid ooid quark_p s))"
  unfolding owatchFindCachedInfoByOoid_def by (assumption | rule wk | rule wk_let | simp)+

lemma owatchAddInfoToCache_wk [wk]: "wkept z s \<Longrightarrow> wkept z (snd (owatchAddInfoToCache E q secondary s))"
  unfolding owatchAddInfoToCache_def by (assumption | rule wk | rule wk_let | simp)+

lemma owatchUpdateInfoCache_wk [wk]: "wkept z s \<Longrightarrow> wkept z (snd (owatchUpdateInfoCache E desc quark_p s))"
  unfolding owatchUpdateInfoCache_def by (assumption | rule wk | rule wk_let | simp)+

lemma free_get_wk [wk]: "wkept z s \<Longrightarrow> wkept z (free_get a s)"
  unfolding free_get_def by (assumption | rule wk | rule wk_let | simp)+

lemma owatchHandleGetInfoReply_wk [wk]: "jumps_keep J \<Longrightarrow> wkept z s \<Longrightarrow> wkept z (snd (owatchHandleGetInfoReply E J len buf s))"
  unfolding owatchHandleGetInfoReply_def by (assumption | rule wk | rule wk_let | simp)+

lemma owatchLazyInfoRequest_wk [wk]: "jumps_keep J \<Longrightarrow> wkept z s \<Longrightarrow> wkept z (owatchLazyInfoRequest J m_op s_op err s)"
  unfolding owatchLazyInfoRequest_def by (assumption | rule wk | rule wk_let | simp)+

lemma owatchCancelGetInfoRequest_wk [wk]: "wkept z s \<Longrightarrow> wkept z (owatchCancelGetInfoRequest data2 s)"
  unfolding owatchCancelGetInfoRequest_def by (assumption | rule wk | rule wk_let | simp)+

lemma send_info_request_wk [wk]: "jumps_keep J \<Longrightarrow> wkept z s \<Longrightarrow> wkept z (snd (send_info_request E J ty body param1 param2 m_op a s))"
  unfolding send_info_request_def by (assumption | rule wk | rule wk_let | simp)+

lemma owatchNowaitGetInfoByDesc_wk [wk]: "jumps_keep J \<Longrightarrow> wkept z s \<Longrightarrow> wkept z (snd (owatchNowaitGetInfoByDesc E J desc quark_p s))"
  unfolding owatchNowaitGetInfoByDesc_def by (assumption | rule wk | rule wk_let | simp)+

lemma owatchNowaitGetInfoByOoid_wk [wk]: "jumps_keep J \<Longrightarrow> wkept z s \<Longrightarrow> wkept z (snd (owatchNowaitGetInfoByOoid E J ooid quark_p s))"
  unfolding owatchNowaitGetInfoByOoid_def by (assumption | rule wk | rule wk_let | simp)+

lemma wb_triggers_wk [wk]:
  fixes s :: "'a watchnet_scheme"
  assumes "wkept z s" and "length (f (wb_triggers s)) = length (wb_triggers s)"
  shows "wkept z (wb_triggers_update f s)"
proof -
  have "ops_ok (wb_triggers_update f s) = ops_ok s" "ring_ok (wb_triggers_update f s) = ring_ok s"
    "poll_ok (wb_triggers_update f s) = poll_ok s" "msg_slack (wb_triggers_update f s) = msg_slack s"
    by (simp_all add: ops_ok_def ring_ok_def poll_ok_def msg_slack_def)
  then show ?thesis using assms by (simp add: wkept_def net_ok_def)
qed

lemma owatchInitSubjects_wk [wk]: "wkept z s \<Longrightarrow> wkept z (snd (owatchInitSubjects E s))"
  unfolding owatchInitSubjects_def by (assumption | rule wk | rule wk_let | simp)+

lemma owatchExitSubjects_wk [wk]: "wkept z s \<Longrightarrow> wkept z (owatchExitSubjects s)"
  unfolding owatchExitSubjects_def by (assumption | rule wk | rule wk_let | simp)+

lemma call_alive_wk [wk]: "wkept z s \<Longrightarrow> wkept z (call_alive name state s)"
  unfolding call_alive_def by (assumption | rule wk | rule wk_let | simp)+

lemma owatchLazyCallAliveHandlers_wk [wk]: "wkept z s \<Longrightarrow> wkept z (owatchLazyCallAliveHandlers E name state s)"
  unfolding owatchLazyCallAliveHandlers_def by (assumption | rule wk | rule wk_let | simp)+

lemma owatchCallAliveHandlers_wk [wk]: "wkept z s \<Longrightarrow> wkept z (owatchCallAliveHandlers name state s)"
  unfolding owatchCallAliveHandlers_def by (assumption | rule wk | rule wk_let | simp)+

lemma set_conn_state_wk [wk]: "wkept z s \<Longrightarrow> wkept z (snd (set_conn_state E state s))"
  unfolding set_conn_state_def by (assumption | rule wk | rule wk_let | simp)+

lemma remove_subject_wk [wk]: "wkept z s \<Longrightarrow> wkept z (remove_subject i s)"
  unfolding remove_subject_def by (assumption | rule wk | rule wk_let | simp)+

lemma change_subject_wk [wk]: "wkept z s \<Longrightarrow> wkept z (change_subject E i name state avail s)"
  unfolding change_subject_def by (assumption | rule wk | rule wk_let | simp)+

lemma owatchSetSubjectState_wk [wk]: "wkept z s \<Longrightarrow> wkept z (snd (owatchSetSubjectState E name state avail s))"
  unfolding owatchSetSubjectState_def by (assumption | rule wk | rule wk_let | simp)+

lemma take_subjects_wk [wk]: "wkept z s \<Longrightarrow> wkept z (take_subjects E b c d s)"
proof (induction c arbitrary: b d s)
  case (Suc c)
  show ?case unfolding take_subjects.simps(2) by (rule Suc | assumption | rule wk | rule wk_let | simp)+
qed simp

lemma owatchHandleSubjects_wk [wk]: "wkept z s \<Longrightarrow> wkept z (snd (owatchHandleSubjects E len buf s))"
  unfolding owatchHandleSubjects_def by (assumption | rule wk | rule wk_let | simp)+

lemma owatchAddAliveHandler_wk [wk]: "wkept z s \<Longrightarrow> wkept z (snd (owatchAddAliveHandler a b s))"
  unfolding owatchAddAliveHandler_def by (assumption | rule wk | rule wk_let | simp)+

lemma owatchRemoveAliveHandler_wk [wk]: "wkept z s \<Longrightarrow> wkept z (snd (owatchRemoveAliveHandler f s))"
  unfolding owatchRemoveAliveHandler_def by (assumption | rule wk | rule wk_let | simp)+

lemma clear_trigger_wk [wk]: "wkept z s \<Longrightarrow> wkept z (clear_trigger no s)"
  unfolding clear_trigger_def by (assumption | rule wk | rule wk_let | simp)+

lemma owatchClearTriggers_wk [wk]: "wkept z s \<Longrightarrow> wkept z (owatchClearTriggers s)"
  unfolding owatchClearTriggers_def by (assumption | rule wk | rule wk_let | simp)+

lemma cancel_triggers_wk [wk]: "jumps_keep J \<Longrightarrow> wkept z s \<Longrightarrow> wkept z (cancel_triggers J b c s)"
proof (induction b arbitrary: c s)
  case (Suc b)
  show ?case unfolding cancel_triggers.simps(2) by (rule Suc | assumption | rule wk | rule wk_let | simp)+
qed simp

lemma owatchCancelAllTriggers_wk [wk]: "jumps_keep J \<Longrightarrow> wkept z s \<Longrightarrow> wkept z (owatchCancelAllTriggers J s)"
  unfolding owatchCancelAllTriggers_def by (assumption | rule wk | rule wk_let | simp)+

lemma owatchHandleTriggerReply_wk [wk]: "jumps_keep J \<Longrightarrow> wkept z s \<Longrightarrow> wkept z (snd (owatchHandleTriggerReply E J len buf s))"
  unfolding owatchHandleTriggerReply_def by (assumption | rule wk | rule wk_let | simp)+

lemma trigger_timeouts_wk [wk]: "jumps_keep J \<Longrightarrow> wkept z s \<Longrightarrow> wkept z (trigger_timeouts E J c d s)"
proof (induction c arbitrary: d s)
  case (Suc c)
  show ?case unfolding trigger_timeouts.simps(2) by (rule Suc | assumption | rule wk | rule wk_let | simp)+
qed simp

lemma owatchHandleTriggerTimeouts_wk [wk]: "jumps_keep J \<Longrightarrow> wkept z s \<Longrightarrow> wkept z (owatchHandleTriggerTimeouts E J s)"
  unfolding owatchHandleTriggerTimeouts_def by (assumption | rule wk | rule wk_let | simp)+

lemma owatchTriggerSubjectCanceller_wk [wk]: "wkept z s \<Longrightarrow> wkept z (owatchTriggerSubjectCanceller data2 s)"
  unfolding owatchTriggerSubjectCanceller_def by (assumption | rule wk | rule wk_let | simp)+

lemma owatchTriggerSubject_wk [wk]: "jumps_keep J \<Longrightarrow> wkept z s \<Longrightarrow> wkept z (snd (owatchTriggerSubject E J subject s))"
  unfolding owatchTriggerSubject_def by (assumption | rule wk | rule wk_let | simp)+


lemma touch_mon_wk [wk]: "wkept z s \<Longrightarrow> wkept z (touch_mon a s)"
  unfolding touch_mon_def by (assumption | rule wk | rule wk_let | simp)+

lemma upd_wmon_wk [wk]: "wkept z s \<Longrightarrow> wkept z (upd_wmon a f s)"
  unfolding upd_wmon_def by (assumption | rule wk | rule wk_let | simp)+

lemma call_data_wk [wk]: "wkept z s \<Longrightarrow> wkept z (call_data a s)"
  unfolding call_data_def by (assumption | rule wk | rule wk_let | simp)+

lemma owatchLazyCallDataHandlers_wk [wk]: "wkept z s \<Longrightarrow> wkept z (owatchLazyCallDataHandlers E a s)"
  unfolding owatchLazyCallDataHandlers_def by (assumption | rule wk | rule wk_let | simp)+

lemma owatchFindMonitorByOoid_wk [wk]: "wkept z s \<Longrightarrow> wkept z (snd (owatchFindMonitorByOoid ooid s))"
  unfolding owatchFindMonitorByOoid_def by (assumption | rule wk | rule wk_let | simp)+

lemma owatchCallDataHandlers_wk [wk]: "wkept z s \<Longrightarrow> wkept z (owatchCallDataHandlers ooid s)"
  unfolding owatchCallDataHandlers_def by (assumption | rule wk | rule wk_let | simp)+

lemma finish_val_ops_wk [wk]: "jumps_keep J \<Longrightarrow> wkept z s \<Longrightarrow> wkept z (finish_val_ops J b c d s)"
proof (induction c arbitrary: b d s)
  case (Suc c)
  show ?case unfolding finish_val_ops.simps(2) by (rule Suc | assumption | rule wk | rule wk_let | simp)+
qed simp

lemma owatchAnnounceMonitor_wk [wk]: "jumps_keep J \<Longrightarrow> wkept z s \<Longrightarrow> wkept z (snd (owatchAnnounceMonitor E J a later s))"
  unfolding owatchAnnounceMonitor_def by (assumption | rule wk | rule wk_let | simp)+

lemma owatchAllocateMonitor_wk [wk]: "wkept z s \<Longrightarrow> wkept z (snd (owatchAllocateMonitor E s))"
  unfolding owatchAllocateMonitor_def by (assumption | rule wk | rule wk_let | simp)+

lemma owatchDeallocateMonitor_wk [wk]: "jumps_keep J \<Longrightarrow> wkept z s \<Longrightarrow> wkept z (owatchDeallocateMonitor J a s)"
  unfolding owatchDeallocateMonitor_def by (assumption | rule wk | rule wk_let | simp)+

lemma cancel_regs_wk [wk]: "jumps_keep J \<Longrightarrow> wkept z s \<Longrightarrow> wkept z (cancel_regs J b c s)"
proof (induction c arbitrary: b s)
  case (Suc c)
  show ?case unfolding cancel_regs.simps(2) by (rule Suc | assumption | rule wk | rule wk_let | simp)+
qed simp

lemma cancel_vals_wk [wk]: "jumps_keep J \<Longrightarrow> wkept z s \<Longrightarrow> wkept z (cancel_vals J b c s)"
proof (induction c arbitrary: b s)
  case (Suc c)
  show ?case unfolding cancel_vals.simps(2) by (rule Suc | assumption | rule wk | rule wk_let | simp)+
qed simp

lemma owatchRemoveMonitorByRef_wk [wk]: "jumps_keep J \<Longrightarrow> wkept z s \<Longrightarrow> wkept z (snd (owatchRemoveMonitorByRef E J a s))"
  unfolding owatchRemoveMonitorByRef_def by (assumption | rule wk | rule wk_let | simp)+

lemma owatchMonitorAdditionCanceller_wk [wk]: "jumps_keep J \<Longrightarrow> wkept z s \<Longrightarrow> wkept z (owatchMonitorAdditionCanceller E J op data2 s)"
  unfolding owatchMonitorAdditionCanceller_def by (assumption | rule wk | rule wk_let | simp)+

lemma take_reports_wk [wk]: "jumps_keep J \<Longrightarrow> wkept z s \<Longrightarrow> wkept z (snd (snd (take_reports E J c d e f s)))"
proof (induction c arbitrary: d e f s)
  case (Suc c)
  show ?case unfolding take_reports.simps(2) by (rule Suc | assumption | rule wk | rule wk_let | simp)+
qed simp

lemma owatchHandleMonitoring_wk [wk]: "jumps_keep J \<Longrightarrow> wkept z s \<Longrightarrow> wkept z (snd (owatchHandleMonitoring E J len buf s))"
  unfolding owatchHandleMonitoring_def by (assumption | rule wk | rule wk_let | simp)+

lemma finish_regs_wk [wk]: "jumps_keep J \<Longrightarrow> wkept z s \<Longrightarrow> wkept z (finish_regs J b c d e s)"
proof (induction d arbitrary: b c e s)
  case (Suc d)
  show ?case unfolding finish_regs.simps(2) by (rule Suc | assumption | rule wk | rule wk_let | simp)+
qed simp

lemma owatchHandleRegistration_wk [wk]: "jumps_keep J \<Longrightarrow> wkept z s \<Longrightarrow> wkept z (snd (owatchHandleRegistration E J ty len buf s))"
  unfolding owatchHandleRegistration_def by (assumption | rule wk | rule wk_let | simp)+

lemma owatchLazyMonRegRequest_wk [wk]: "jumps_keep J \<Longrightarrow> wkept z s \<Longrightarrow> wkept z (owatchLazyMonRegRequest J m_op s_op err s)"
  unfolding owatchLazyMonRegRequest_def by (assumption | rule wk | rule wk_let | simp)+

lemma owatchStickToExistingMonitor_wk [wk]: "jumps_keep J \<Longrightarrow> wkept z s \<Longrightarrow> wkept z (snd (owatchStickToExistingMonitor E J ooid op0 dont_monitor s))"
  unfolding owatchStickToExistingMonitor_def by (assumption | rule wk | rule wk_let | simp)+

lemma owatchMonHashUp_wk [wk]: "wkept z s \<Longrightarrow> wkept z (snd (owatchMonHashUp E a s))"
  unfolding owatchMonHashUp_def by (assumption | rule wk | rule wk_let | simp)+

lemma tell_ooid_wk [wk]: "wkept z s \<Longrightarrow> wkept z (tell_ooid a s)"
  unfolding tell_ooid_def by (assumption | rule wk | rule wk_let | simp)+

lemma owatchAddMonitorGotDescStage_wk [wk]: "jumps_keep J \<Longrightarrow> wkept z s \<Longrightarrow> wkept z (owatchAddMonitorGotDescStage E J m_op s_op err a s)"
  unfolding owatchAddMonitorGotDescStage_def by (assumption | rule wk | rule wk_let | simp)+

lemma owatchNowaitAddMonitorByOoid_wk [wk]: "jumps_keep J \<Longrightarrow> wkept z s \<Longrightarrow> wkept z (snd (owatchNowaitAddMonitorByOoid E J ooid s))"
  unfolding owatchNowaitAddMonitorByOoid_def by (assumption | rule wk | rule wk_let | simp)+

lemma owatchFindMonitorOoidByDesc_wk [wk]: "wkept z s \<Longrightarrow> wkept z (snd (owatchFindMonitorOoidByDesc desc s))"
  unfolding owatchFindMonitorOoidByDesc_def by (assumption | rule wk | rule wk_let | simp)+

lemma combo_fail_wk [wk]: "jumps_keep J \<Longrightarrow> wkept z s \<Longrightarrow> wkept z (snd (combo_fail E J m_op err a s))"
  unfolding combo_fail_def by (assumption | rule wk | rule wk_let | simp)+

lemma owatchHandleMonComboReply_wk [wk]: "jumps_keep J \<Longrightarrow> wkept z s \<Longrightarrow> wkept z (snd (owatchHandleMonComboReply E J len buf s))"
  unfolding owatchHandleMonComboReply_def by (assumption | rule wk | rule wk_let | simp)+

lemma owatchLazyMonComboReq_wk [wk]: "jumps_keep J \<Longrightarrow> wkept z s \<Longrightarrow> wkept z (owatchLazyMonComboReq J m_op s_op err s)"
  unfolding owatchLazyMonComboReq_def by (assumption | rule wk | rule wk_let | simp)+

lemma combo_request_wk [wk]: "jumps_keep J \<Longrightarrow> wkept z s \<Longrightarrow> wkept z (snd (combo_request E J desc ooid_buf dont_monitor s))"
  unfolding combo_request_def by (assumption | rule wk | rule wk_let | simp)+

lemma owatchNowaitAddMonitorByDesc_wk [wk]: "jumps_keep J \<Longrightarrow> wkept z s \<Longrightarrow> wkept z (snd (owatchNowaitAddMonitorByDesc E J desc ooid_buf dont_monitor s))"
  unfolding owatchNowaitAddMonitorByDesc_def by (assumption | rule wk | rule wk_let | simp)+

lemma owatchMonCheckInfo_wk [wk]: "wkept z s \<Longrightarrow> wkept z (owatchMonCheckInfo E a err s)"
  unfolding owatchMonCheckInfo_def by (assumption | rule wk | rule wk_let | simp)+

lemma start_check_wk [wk]: "jumps_keep J \<Longrightarrow> wkept z s \<Longrightarrow> wkept z (snd (start_check E J i s))"
  unfolding start_check_def by (assumption | rule wk | rule wk_let | simp)+

lemma secure_mons_wk [wk]: "jumps_keep J \<Longrightarrow> wkept z s \<Longrightarrow> wkept z (snd (secure_mons E J c d e s))"
proof (induction c arbitrary: d e s)
  case (Suc c)
  show ?case unfolding secure_mons.simps(2) by (rule Suc | assumption | rule wk | rule wk_let | simp)+
qed simp

lemma drop_checks_wk [wk]: "jumps_keep J \<Longrightarrow> wkept z s \<Longrightarrow> wkept z (drop_checks J b c s)"
proof (induction b arbitrary: c s)
  case (Suc b)
  show ?case unfolding drop_checks.simps(2) by (rule Suc | assumption | rule wk | rule wk_let | simp)+
qed simp

lemma owatchMonSecureMore_wk [wk]: "jumps_keep J \<Longrightarrow> wkept z s \<Longrightarrow> wkept z (snd (owatchMonSecureMore E J s))"
  unfolding owatchMonSecureMore_def by (assumption | rule wk | rule wk_let | simp)+

lemma owatchMonSecureStart_wk [wk]: "jumps_keep J \<Longrightarrow> wkept z s \<Longrightarrow> wkept z (snd (owatchMonSecureStart E J s))"
  unfolding owatchMonSecureStart_def by (assumption | rule wk | rule wk_let | simp)+

lemma lazy_data_wk [wk]: "wkept z s \<Longrightarrow> wkept z (lazy_data E b c s)"
proof (induction b arbitrary: c s)
  case (Suc b)
  show ?case unfolding lazy_data.simps(2) by (rule Suc | assumption | rule wk | rule wk_let | simp)+
qed simp

lemma owatchLazyDataHandlers_wk [wk]: "wkept z s \<Longrightarrow> wkept z (owatchLazyDataHandlers E s)"
  unfolding owatchLazyDataHandlers_def by (assumption | rule wk | rule wk_let | simp)+

lemma owatchEnableMonitoring_wk [wk]: "wkept z s \<Longrightarrow> wkept z (snd (owatchEnableMonitoring E enable s))"
  unfolding owatchEnableMonitoring_def by (assumption | rule wk | rule wk_let | simp)+

lemma owatchBlockMonitoring_wk [wk]: "jumps_keep J \<Longrightarrow> wkept z s \<Longrightarrow> wkept z (snd (owatchBlockMonitoring E J block renew s))"
  unfolding owatchBlockMonitoring_def by (assumption | rule wk | rule wk_let | simp)+

lemma owatchInitMonitoring_wk [wk]: "wkept z s \<Longrightarrow> wkept z (snd (owatchInitMonitoring E s))"
  unfolding owatchInitMonitoring_def by (assumption | rule wk | rule wk_let | simp)+

lemma remove_mons_wk [wk]: "jumps_keep J \<Longrightarrow> wkept z s \<Longrightarrow> wkept z (remove_mons E J c d s)"
proof (induction c arbitrary: d s)
  case (Suc c)
  show ?case unfolding remove_mons.simps(2) by (rule Suc | assumption | rule wk | rule wk_let | simp)+
qed simp

lemma owatchRemoveAllMonitors_wk [wk]: "jumps_keep J \<Longrightarrow> wkept z s \<Longrightarrow> wkept z (snd (owatchRemoveAllMonitors E J s))"
  unfolding owatchRemoveAllMonitors_def by (assumption | rule wk | rule wk_let | simp)+

lemma owatchExitMonitoring_wk [wk]: "jumps_keep J \<Longrightarrow> wkept z s \<Longrightarrow> wkept z (owatchExitMonitoring E J s)"
  unfolding owatchExitMonitoring_def by (assumption | rule wk | rule wk_let | simp)+

lemma owatchRemoveMonitor_wk [wk]: "jumps_keep J \<Longrightarrow> wkept z s \<Longrightarrow> wkept z (snd (owatchRemoveMonitor E J ooid s))"
  unfolding owatchRemoveMonitor_def by (assumption | rule wk | rule wk_let | simp)+

lemma copy_out_wk [wk]: "wkept z s \<Longrightarrow> wkept z (snd (copy_out v pvalue data_buf buf_len s))"
  unfolding copy_out_def by (assumption | rule wk | rule wk_let | simp)+

lemma owatchGetValue_wk [wk]: "wkept z s \<Longrightarrow> wkept z (snd (owatchGetValue ooid pvalue data_buf buf_len s))"
  unfolding owatchGetValue_def by (assumption | rule wk | rule wk_let | simp)+

lemma owatchAddDataHandler_wk [wk]: "wkept z s \<Longrightarrow> wkept z (snd (owatchAddDataHandler f param s))"
  unfolding owatchAddDataHandler_def by (assumption | rule wk | rule wk_let | simp)+

lemma owatchRemoveDataHandler_wk [wk]: "wkept z s \<Longrightarrow> wkept z (snd (owatchRemoveDataHandler f s))"
  unfolding owatchRemoveDataHandler_def by (assumption | rule wk | rule wk_let | simp)+

lemma owatchFlushMonitor_wk [wk]: "wkept z s \<Longrightarrow> wkept z (snd (owatchFlushMonitor ooid s))"
  unfolding owatchFlushMonitor_def by (assumption | rule wk | rule wk_let | simp)+

lemma owatchFlushAllMonitors_wk [wk]: "wkept z s \<Longrightarrow> wkept z (snd (owatchFlushAllMonitors s))"
  unfolding owatchFlushAllMonitors_def by (assumption | rule wk | rule wk_let | simp)+

lemma owatchInternalRenewMonitor_wk [wk]: "jumps_keep J \<Longrightarrow> wkept z s \<Longrightarrow> wkept z (snd (owatchInternalRenewMonitor E J a s))"
  unfolding owatchInternalRenewMonitor_def by (assumption | rule wk | rule wk_let | simp)+

lemma owatchRenewMonitor_wk [wk]: "jumps_keep J \<Longrightarrow> wkept z s \<Longrightarrow> wkept z (snd (owatchRenewMonitor E J ooid s))"
  unfolding owatchRenewMonitor_def by (assumption | rule wk | rule wk_let | simp)+

lemma owatchRenewAllMonitors_wk [wk]: "jumps_keep J \<Longrightarrow> wkept z s \<Longrightarrow> wkept z (snd (owatchRenewAllMonitors E J s))"
  unfolding owatchRenewAllMonitors_def by (assumption | rule wk | rule wk_let | simp)+

lemma owatchSetMonitorData_wk [wk]: "wkept z s \<Longrightarrow> wkept z (snd (owatchSetMonitorData ooid user_data s))"
  unfolding owatchSetMonitorData_def by (assumption | rule wk | rule wk_let | simp)+

lemma owatchGetMonitorData_wk [wk]: "wkept z s \<Longrightarrow> wkept z (snd (snd (owatchGetMonitorData ooid s)))"
  unfolding owatchGetMonitorData_def by (assumption | rule wk | rule wk_let | simp)+


lemma free_read_wk [wk]: "wkept z s \<Longrightarrow> wkept z (free_read a s)"
  unfolding free_read_def by (assumption | rule wk | rule wk_let | simp)+

lemma free_write_wk [wk]: "wkept z s \<Longrightarrow> wkept z (free_write a s)"
  unfolding free_write_def by (assumption | rule wk | rule wk_let | simp)+

lemma owatchHandleReadReply_wk [wk]: "jumps_keep J \<Longrightarrow> wkept z s \<Longrightarrow> wkept z (snd (owatchHandleReadReply E J len buf s))"
  unfolding owatchHandleReadReply_def by (assumption | rule wk | rule wk_let | simp)+

lemma owatchLazyReadRequest_wk [wk]: "jumps_keep J \<Longrightarrow> wkept z s \<Longrightarrow> wkept z (owatchLazyReadRequest J m_op s_op err s)"
  unfolding owatchLazyReadRequest_def by (assumption | rule wk | rule wk_let | simp)+

lemma owatchReadGotDescStage_wk [wk]:
  assumes "jumps_keep J" and add: "\<And>ooid t. wkept z t \<Longrightarrow> wkept z (snd (add ooid t))" and "wkept z s"
  shows "wkept z (owatchReadGotDescStage E J add m_op s_op err a s)"
  unfolding owatchReadGotDescStage_def by (rule assms add | assumption | rule wk | rule wk_let | simp)+

lemma owatchReadCanceller_wk [wk]: "wkept z s \<Longrightarrow> wkept z (owatchReadCanceller data2 s)"
  unfolding owatchReadCanceller_def by (assumption | rule wk | rule wk_let | simp)+

lemma ask_info_wk [wk]: "jumps_keep J \<Longrightarrow> wkept z s \<Longrightarrow> wkept z (snd (ask_info E J desc ooid a s))"
  unfolding ask_info_def by (assumption | rule wk | rule wk_let | simp)+

lemma owatchNowaitReadByAny_wk [wk]: "jumps_keep J \<Longrightarrow> wkept z s \<Longrightarrow> wkept z (snd (owatchNowaitReadByAny E J a_desc a_ooid pvalue data_buf buf_len s))"
  unfolding owatchNowaitReadByAny_def by (assumption | rule wk | rule wk_let | simp)+

lemma owatchHandleWriteReply_wk [wk]: "jumps_keep J \<Longrightarrow> wkept z s \<Longrightarrow> wkept z (snd (owatchHandleWriteReply E J len buf s))"
  unfolding owatchHandleWriteReply_def by (assumption | rule wk | rule wk_let | simp)+

lemma owatchLazyWriteRequest_wk [wk]: "jumps_keep J \<Longrightarrow> wkept z s \<Longrightarrow> wkept z (owatchLazyWriteRequest J m_op s_op err s)"
  unfolding owatchLazyWriteRequest_def by (assumption | rule wk | rule wk_let | simp)+

lemma owatchWriteGotDescStage_wk [wk]: "jumps_keep J \<Longrightarrow> wkept z s \<Longrightarrow> wkept z (owatchWriteGotDescStage E J m_op s_op err a s)"
  unfolding owatchWriteGotDescStage_def by (assumption | rule wk | rule wk_let | simp)+

lemma owatchWriteCanceller_wk [wk]: "wkept z s \<Longrightarrow> wkept z (owatchWriteCanceller data2 s)"
  unfolding owatchWriteCanceller_def by (assumption | rule wk | rule wk_let | simp)+

lemma owatchNowaitWriteByAny_wk [wk]: "jumps_keep J \<Longrightarrow> wkept z s \<Longrightarrow> wkept z (snd (owatchNowaitWriteByAny E J a_desc a_ooid pval s))"
  unfolding owatchNowaitWriteByAny_def by (assumption | rule wk | rule wk_let | simp)+


lemma owatchSetupMessages_wk [wk]: "wkept z s \<Longrightarrow> wkept z (snd (owatchSetupMessages E s))"
  unfolding owatchSetupMessages_def by (assumption | rule wk | rule wk_let | simp)+

lemma owatchAddMsgHandler_wk [wk]: "wkept z s \<Longrightarrow> wkept z (snd (owatchAddMsgHandler E klass f param s))"
  unfolding owatchAddMsgHandler_def by (assumption | rule wk | rule wk_let | simp)+

lemma owatchRemoveMsgHandler_wk [wk]: "wkept z s \<Longrightarrow> wkept z (snd (owatchRemoveMsgHandler E klass f s))"
  unfolding owatchRemoveMsgHandler_def by (assumption | rule wk | rule wk_let | simp)+

lemma owatchMsgClassRegistration_wk [wk]: "wkept z s \<Longrightarrow> wkept z (snd (owatchMsgClassRegistration E enable s))"
  unfolding owatchMsgClassRegistration_def by (assumption | rule wk | rule wk_let | simp)+

lemma owatchSetMsgQueueLimits_wk [wk]: "wkept z s \<Longrightarrow> wkept z (snd (owatchSetMsgQueueLimits max_messages max_bytes s))"
  unfolding owatchSetMsgQueueLimits_def by (assumption | rule wk | rule wk_let | simp)+

lemma owatchGetAckCount_wk [wk]: "wkept z s \<Longrightarrow> wkept z (snd (owatchGetAckCount flush s))"
  unfolding owatchGetAckCount_def by (assumption | rule wk | rule wk_let | simp)+

lemma put_client_wk [wk]: "wkept z s \<Longrightarrow> wkept z (put_client a bs s)"
  unfolding put_client_def by (assumption | rule wk | rule wk_let | simp)+

lemma put_int_wk [wk]: "wkept z s \<Longrightarrow> wkept z (put_int a v s)"
  unfolding put_int_def by (assumption | rule wk | rule wk_let | simp)+

lemma owatchGiveAwayMsg_wk [wk]: "jumps_keep J \<Longrightarrow> wkept z s \<Longrightarrow> wkept z (snd (owatchGiveAwayMsg J b c s))"
  unfolding owatchGiveAwayMsg_def by (assumption | rule wk | rule wk_let | simp)+

lemma queue_wk:
  fixes s :: "'a watchnet_scheme"
  assumes "wkept z s" and "fst (msg_slack s') = fst (msg_slack s)" and "snd (msg_slack s') = snd (msg_slack s)"
    and "s' = s\<lparr>wx_queue := q, wx_cur_count := c, wx_cur_bytes := b\<rparr>"
  shows "wkept z s'"
proof -
  have "ops_ok s' = ops_ok s" "ring_ok s' = ring_ok s" "poll_ok s' = poll_ok s"
    by (simp_all add: assms(4) ops_ok_def ring_ok_def poll_ok_def)
  moreover have "msg_slack s' = msg_slack s" using assms(2,3) by (rule prod_eqI)
  ultimately show ?thesis using assms(1,4) by (simp add: wkept_def net_ok_def)
qed

lemma queue_msg_wk [wk]: "wkept z s \<Longrightarrow> wkept z (snd (queue_msg E m s))"
proof -
  assume w: "wkept z s"
  have q: "wkept z (s\<lparr>wx_queue := wx_queue s @ [m], wx_cur_count := wx_cur_count s + 1, wx_cur_bytes := wx_cur_bytes s + pm_len m\<rparr>)"
    by (rule queue_wk [OF w _ _ refl]) (simp_all add: msg_slack_def)
  show ?thesis unfolding queue_msg_def
    by (rule w q | assumption | rule wk | rule wk_let | simp)+
qed

lemma owatchHandleMsgRecv_wk [wk]: "jumps_keep J \<Longrightarrow> wkept z s \<Longrightarrow> wkept z (snd (owatchHandleMsgRecv E J len buf s))"
  unfolding owatchHandleMsgRecv_def by (assumption | rule wk | rule wk_let | simp)+

lemma owatchMsgRecvCanceller_wk [wk]: "wkept z s \<Longrightarrow> wkept z (owatchMsgRecvCanceller data2 s)"
  unfolding owatchMsgRecvCanceller_def by (assumption | rule wk | rule wk_let | simp)+

text \<open>The message leaves the queue before the client gets it, and the counts after.\<close>

lemma unqueue_msg_wk:
  assumes "jumps_keep J" and "wkept z s" and ne: "wx_queue s \<noteq> []"
  shows "wkept z (unqueue_msg E J r s)"
proof -
  let ?m = "hd (wx_queue s)"
  define s0 where "s0 = s\<lparr>wx_queue := tl (wx_queue s)\<rparr>"
  define s1 where "s1 = snd (owatchGiveAwayMsg J r ?m s0)"
  define s2 where "s2 = s1\<lparr>wx_cur_count := wx_cur_count s1 - 1, wx_cur_bytes := wx_cur_bytes s1 - pm_len ?m\<rparr>"
  have k: "wkept s0 s1" unfolding s1_def using assms(1) by (rule wk) (rule wk)
  obtain m q where q: "wx_queue s = m # q" using ne by (cases "wx_queue s") auto
  have m0: "msg_slack s0 = (fst (msg_slack s) + 1, snd (msg_slack s) + pm_len ?m)"
    by (simp add: msg_slack_def s0_def q)
  have m2: "msg_slack s2 = (fst (msg_slack s1) - 1, snd (msg_slack s1) - pm_len ?m)"
    by (simp add: msg_slack_def s2_def)
  have "net_ok s0 = net_ok s" by (simp add: s0_def net_ok_def ops_ok_def ring_ok_def poll_ok_def)
  moreover have "net_ok s2 = net_ok s1" by (simp add: s2_def net_ok_def ops_ok_def ring_ok_def poll_ok_def)
  moreover have "wy_future s0 = wy_future s" "wy_future s2 = wy_future s1" by (simp_all add: s0_def s2_def)
  ultimately have "wkept s s2" using k m0 m2 by (simp add: wkept_def)
  then have k2: "wkept z s2" by (rule wkept_trans [OF assms(2)])
  show ?thesis unfolding unqueue_msg_def Let_def s0_def [symmetric] s1_def [symmetric] s2_def [symmetric]
    by (rule k2 | assumption | rule wk | rule wk_let | simp)+
qed

lemma owatchNowaitMsgRecv_wk [wk]: "jumps_keep J \<Longrightarrow> wkept z s \<Longrightarrow> wkept z (snd (owatchNowaitMsgRecv E J ooid_p src_p dest_p klass_p type_p data_p len_p s))"
  unfolding owatchNowaitMsgRecv_def by (assumption | rule unqueue_msg_wk | rule wk | rule wk_let | simp)+

lemma owatchHandleMsgSendReply_wk [wk]: "jumps_keep J \<Longrightarrow> wkept z s \<Longrightarrow> wkept z (snd (owatchHandleMsgSendReply E J len buf s))"
  unfolding owatchHandleMsgSendReply_def by (assumption | rule wk | rule wk_let | simp)+

lemma owatchMsgSendDone_wk [wk]: "wkept z s \<Longrightarrow> wkept z (owatchMsgSendDone m_op s_op err s)"
  unfolding owatchMsgSendDone_def by (assumption | rule wk | rule wk_let | simp)+

lemma owatchNowaitMsgSend_wk [wk]: "jumps_keep J \<Longrightarrow> wkept z s \<Longrightarrow> wkept z (snd (owatchNowaitMsgSend E J ooid0 dest klass ty data len s))"
  unfolding owatchNowaitMsgSend_def by (assumption | rule wk | rule wk_let | simp)+

lemma owatchRemoteLogHandler_wk [wk]: "wkept z s \<Longrightarrow> wkept z (owatchRemoteLogHandler E msg s)"
  unfolding owatchRemoteLogHandler_def by (assumption | rule wk | rule wk_let | simp)+

lemma owatchRemoteLog_wk [wk]: "wkept z s \<Longrightarrow> wkept z (snd (owatchRemoteLog enable s))"
  unfolding owatchRemoteLog_def by (assumption | rule wk | rule wk_let | simp)+


end
