(* ===== verification/WatchRun.thy ===== *)
theory WatchRun
  imports WatchInv
begin

text \<open>
  The invariant of the watcher library in its runs: the network part, the jump tables at every
  depth, the calls of the client, the states they reach; the end of every wait.
\<close>

section \<open>The network\<close>

definition all_keep :: "(env \<Rightarrow> 'a watchnet_scheme jumps) \<Rightarrow> bool" where
  "all_keep JE \<longleftrightarrow> (\<forall>E. jumps_keep (JE E))"

lemma all_keepD [wk]: "all_keep JE \<Longrightarrow> jumps_keep (JE E)"
  by (simp add: all_keep_def)

lemma wkept_rings:
  fixes s s' :: "'a watchnet_scheme"
  assumes "wkept z s" and "ring_ok s \<Longrightarrow> ring_ok s'" and "poll_ok s \<Longrightarrow> poll_ok s'"
    and "ow_ops s' = ow_ops s" "ow_free_count s' = ow_free_count s" "wb_triggers s' = wb_triggers s"
    "wx_queue s' = wx_queue s" "wx_cur_count s' = wx_cur_count s" "wx_cur_bytes s' = wx_cur_bytes s"
    and "length (wy_future s') \<le> length (wy_future s)"
  shows "wkept z s'"
proof -
  have "ops_ok s' = ops_ok s" "msg_slack s' = msg_slack s" using assms(4-9) by (simp_all add: ops_ok_def msg_slack_def)
  then show ?thesis using assms(1-3,6,10) by (auto simp: wkept_def net_ok_def)
qed

lemma q_buf_wk [wk]:
  fixes s :: "'a watchnet_scheme"
  assumes "wkept z s" and "length (f (q_buf s)) = length (q_buf s)"
  shows "wkept z (q_buf_update f s)"
  using assms(2) by (intro wkept_rings [OF assms(1)]) (simp_all add: ring_ok_def poll_ok_def)

lemma length_free_hanging [simp]: "length (free_hanging ks) = length ks"
  by (simp add: free_hanging_def)

lemma connect_wk [wk]:
  "wkept z (snd a) \<Longrightarrow> wkept z (snd b) \<Longrightarrow> (\<And>fd. wkept z (snd (c fd)))
    \<Longrightarrow> wkept z (snd (case x of SockFail \<Rightarrow> a | ConnFail \<Rightarrow> b | Connected fd \<Rightarrow> c fd))"
  by (cases x) simp_all

text \<open>Only a wait takes an element of the future.\<close>

lemma future_wk [wk]:
  fixes s :: "'a watchnet_scheme"
  assumes "wkept z s" and "length r \<le> length (wy_future s)"
  shows "wkept z (s\<lparr>wy_future := r\<rparr>)"
  using assms(2) by (intro wkept_rings [OF assms(1)]) (simp_all add: ring_ok_def poll_ok_def)

lemma emptied_wk:
  fixes s :: "'a watchnet_scheme"
  assumes "wkept z s"
  shows "wkept z (s\<lparr>wn_poll_buf := map_option (\<lambda>_. replicate (wn_poll_size s) no_packet) (wn_poll_buf s),
    wn_poll_rd := 0, wn_poll_wr := 0, wn_poll_len := 0,
    q_buf := (if q_buf s = [] then [] else replicate (q_size s) no_packet), q_rd := 0, q_wr := 0, q_len := 0\<rparr>)"
  by (rule wkept_rings [OF assms]) (auto simp: ring_ok_def poll_ok_def)

lemma owatchDisconnectData_wk [wk]:
  assumes "jumps_keep J" and "wkept z s"
  shows "wkept z (owatchDisconnectData E J s)"
proof -
  have "wkept z (owatchCancelAllTriggers J (owatchFlushInfoCache s))" by (rule assms | rule wk)+
  note e = emptied_wk [OF this]
  show ?thesis unfolding owatchDisconnectData_def Let_def by (rule e wk)+
qed

lemma owatchCancelConnection_wk [wk]: "jumps_keep J \<Longrightarrow> wkept z s \<Longrightarrow> wkept z (owatchCancelConnection E J s)"
  unfolding owatchCancelConnection_def by (assumption | rule wk | rule wk_let | simp)+

lemma closed_wk:
  fixes s :: "'a watchnet_scheme"
  assumes "wkept z s"
  shows "wkept z (s\<lparr>wn_poll_buf := None, wn_poll_len := 0, wn_poll_size := 0, wn_poll_rd := 0, wn_poll_wr := 0,
    q_buf := [], q_len := 0, q_size := 0, q_rd := 0, q_wr := 0\<rparr>)"
  by (rule wkept_rings [OF assms]) (auto simp: ring_ok_def poll_ok_def)

lemma owatchDisconnect_wk [wk]:
  assumes "jumps_keep J" and "wkept z s"
  shows "wkept z (snd (owatchDisconnect E J s))"
proof -
  have "wkept z ((owatchDisconnectData E J (snd (owatchCancelOp J OWOP_ALL s)))\<lparr>wn_cntl_sock := 0\<rparr>)"
    by (rule assms | rule wk)+
  note e = closed_wk [OF this]
  show ?thesis unfolding owatchDisconnect_def Let_def snd_conv by (rule e wk)+
qed

lemma owatchHandlePingReply_wk [wk]: "wkept z s \<Longrightarrow> wkept z (snd (owatchHandlePingReply E kind ty len buf s))"
  unfolding owatchHandlePingReply_def by (assumption | rule wk | rule wk_let | simp)+

lemma owatchHandleConnAck_wk [wk]: "jumps_keep J \<Longrightarrow> wkept z s \<Longrightarrow> wkept z (snd (owatchHandleConnAck E J s))"
  unfolding owatchHandleConnAck_def by (assumption | rule wk | rule wk_let | simp)+

lemma handle_refusal_wk [wk]: "jumps_keep J \<Longrightarrow> wkept z s \<Longrightarrow> wkept z (handle_refusal E J s)"
  unfolding handle_refusal_def by (assumption | rule wk | rule wk_let | simp)+

lemma owatchHandleIncoming_wk [wk]: "jumps_keep J \<Longrightarrow> wkept z s \<Longrightarrow> wkept z (snd (owatchHandleIncoming E J ty len buf s))"
  unfolding owatchHandleIncoming_def by (assumption | rule wk | rule wk_let | simp)+

lemma poll_put_wk:
  fixes s :: "'a watchnet_scheme"
  assumes "wkept z s"
  shows "wkept z (s\<lparr>wn_poll_buf := map_option (\<lambda>ps. ps[i := pk]) (wn_poll_buf s)\<rparr>)"
  by (rule wkept_rings [OF assms]) (auto simp: ring_ok_def poll_ok_def)

lemma poll_wr_wk:
  fixes s :: "'a watchnet_scheme"
  assumes "wkept z s" and "wn_poll_len s \<noteq> int (wn_poll_size s)"
  shows "wkept z (s\<lparr>wn_poll_wr := (if Suc (wn_poll_wr s) = wn_poll_size s then 0 else Suc (wn_poll_wr s)),
    wn_poll_len := wn_poll_len s + 1\<rparr>)"
  using assms(2) by (intro wkept_rings [OF assms(1)]) (auto simp: ring_ok_def poll_ok_def)

lemma poll_rd_wk:
  fixes s :: "'a watchnet_scheme"
  assumes "wkept z s"
  shows "wkept z (s\<lparr>wn_poll_rd := (if Suc (wn_poll_rd s) = wn_poll_size s then 0 else Suc (wn_poll_rd s)),
    wn_poll_len := wn_poll_len s - 1\<rparr>)"
  by (rule wkept_rings [OF assms]) (auto simp: ring_ok_def poll_ok_def)

lemma buffer_packet_wk [wk]:
  assumes "wkept z s"
  shows "wkept z (snd (buffer_packet E ty len buf s))"
proof (cases "wn_poll_len s = int (wn_poll_size s)")
  case False
  define s1 where "s1 = ow_mark (wn_poll_buf s = None) s"
  have s1: "wkept z s1" unfolding s1_def using assms by (rule wk)
  have d: "wn_poll_len s1 = wn_poll_len s" "wn_poll_size s1 = wn_poll_size s" by (simp_all add: s1_def ow_mark_def)
  show ?thesis using False poll_put_wk [OF s1] poll_wr_wk [OF poll_put_wk [OF s1]] d
    by (simp add: buffer_packet_def s1_def [symmetric] Let_def)
qed (simp add: buffer_packet_def assms)

lemma owatchHubHandleIncoming_wk [wk]: "jumps_keep J \<Longrightarrow> wkept z s \<Longrightarrow> wkept z (snd (owatchHubHandleIncoming E J kind ty len buf s))"
  unfolding owatchHubHandleIncoming_def by (assumption | rule wk | rule wk_let | simp)+

lemma note_temp_id_wk [wk]: "wkept z t \<Longrightarrow> wkept z (note_temp_id E eof rx s t)"
  unfolding note_temp_id_def by (assumption | rule wk | rule wk_let | simp)+

lemma recv_done_wk [wk]:
  "wkept z s \<Longrightarrow> wkept z (recv_clear s)" "wkept z s \<Longrightarrow> wkept z (recv_end s)"
  unfolding recv_end_def recv_clear_def by (assumption | rule wk)+

lemma owatchReceiveStream_wk [wk]:
  assumes "jumps_keep J" and "wkept z s"
  shows "wkept z (snd (owatchReceiveStream E J fp eof rx s))"
  using assms
proof (induction E J fp eof rx s rule: owatchReceiveStream.induct)
  case (1 E J fp eof rx s)
  obtain ready rest s0 where r: "ReceiveStep E fp eof rx s = (ready, rest, s0)" by (cases "ReceiveStep E fp eof rx s")
  define s1 where "s1 = note_temp_id E eof rx s s0"
  define s2 where "s2 = recv_clear (snd (owatchHubHandleIncoming E J OLANG_DATA (reget_type s1) (reget_len s1) (the_bytes (reget_buf s1)) s1))"
  have w1: "wkept z s1" unfolding s1_def by (rule wk, rule ReceiveStep_wk [OF r 1(3)])
  have w2: "wkept z s2" unfolding s2_def by (rule wk w1 1(2))+
  show ?case
  proof (cases "ready \<and> \<not> (data_sock s1 > 0 \<and> data_sock s2 = 0)")
    case True
    then have "wkept z (snd (owatchReceiveStream E J False eof rest s2))"
      using 1(1) [OF r [symmetric] refl s1_def _ refl s2_def [unfolded s2_def] _ 1(2)] w2 by (simp add: s2_def)
    moreover have "\<not> (data_sock s1 > 0 \<and> data_sock s2 = 0)" "ready" using True by simp_all
    ultimately show ?thesis using r
      by (subst owatchReceiveStream.simps) (simp only: case_prod_conv Let_def s1_def [symmetric] s2_def [symmetric] if_True if_False simp_thms)
  next
    case False
    have "wkept z (recv_end s1)" by (rule wk w1)+
    moreover have "wkept z (ow_mark True s2)" by (rule wk w2)+
    ultimately show ?thesis using False r
      by (subst owatchReceiveStream.simps) (auto simp: Let_def s1_def [symmetric] s2_def [symmetric])
  qed
qed

lemma owatchReceiveDatagram_wk [wk]: "jumps_keep J \<Longrightarrow> wkept z s \<Longrightarrow> wkept z (owatchReceiveDatagram E J dg s)"
  unfolding owatchReceiveDatagram_def by (assumption | rule wk | rule wk_let | simp)+

lemma owatchBackgroundTask_wk [wk]: "wkept z s \<Longrightarrow> wkept z (owatchBackgroundTask E s)"
  unfolding owatchBackgroundTask_def by (assumption | rule wk | rule wk_let | simp)+

lemma owatchIdleTask_wk [wk]: "jumps_keep J \<Longrightarrow> wkept z s \<Longrightarrow> wkept z (owatchIdleTask E J s)"
  unfolding owatchIdleTask_def by (assumption | rule wk | rule wk_let | simp)+

lemma watch_events_step_wk [wk]: "jumps_keep J \<Longrightarrow> wkept z s \<Longrightarrow> wkept z (snd (watch_events_step E J ev writable s))"
  unfolding watch_events_step_def by (assumption | rule wk | rule wk_let | simp)+

lemma handle_buffered_wk [wk]: "jumps_keep J \<Longrightarrow> wkept z s \<Longrightarrow> wkept z (handle_buffered E J k s)"
proof (induction k arbitrary: s)
  case 0
  show ?case unfolding handle_buffered.simps(1) by (rule wk 0)+
next
  case (Suc k)
  show ?case unfolding handle_buffered.simps(2)
    by (rule Suc poll_rd_wk poll_put_wk | assumption | rule wk | rule wk_let | simp)+
qed

lemma wpoll_prepare_wk: "jumps_keep J \<Longrightarrow> wkept z s \<Longrightarrow> wkept z (fst (wpoll_prepare E J s))"
  unfolding wpoll_prepare_def by (simp only: Let_def fst_conv) (assumption | rule wk | rule wk_let)+

lemma owatchInternalPoll_wk [wk]:
  assumes "jumps_keep J" and "wkept z s"
  shows "wkept z (snd (owatchInternalPoll E ev J s))"
proof -
  define s0 where "s0 = s\<lparr>wn_is_polling := True, wn_poll_depth := wn_poll_depth s + 1\<rparr>"
  obtain s1 w where p: "wpoll_prepare E J s0 = (s1, w)" by (cases "wpoll_prepare E J s0")
  have "wkept z s0" unfolding s0_def by (rule wk assms)+
  then have w1: "wkept z s1" using wpoll_prepare_wk [OF assms(1), of z s0 E] p by simp
  show ?thesis unfolding owatchInternalPoll_def s0_def [symmetric] p
    by (simp only: Let_def case_prod_conv) (rule assms w1 | assumption | rule wk | rule wk_let | simp)+
qed

lemma perform_lazy_wk [wk]: "wkept z s \<Longrightarrow> wkept z (perform_lazy c s)"
  unfolding perform_lazy_def by (cases c) (simp_all add: wk)

lemma owatchPerformLazyCalls_wk [wk]: "wkept z s \<Longrightarrow> wkept z (snd (owatchPerformLazyCalls s))"
  unfolding owatchPerformLazyCalls_def by (assumption | rule wk | rule wk_let | simp)+

lemma wait_poll_wk [wk]:
  "all_keep J \<Longrightarrow> wkept z s \<Longrightarrow> length r \<le> length (wy_future s) \<Longrightarrow> wkept z (snd (wait_poll J idle e r s))"
  unfolding wait_poll_def by (assumption | rule wk | rule wk_let | simp)+

lemma wait_one_wk [wk]: "all_keep J \<Longrightarrow> wkept z s \<Longrightarrow> wkept z (wait_one J fin no k s)"
proof (induction k arbitrary: s)
  case 0
  then show ?case by (subst wait_one.simps) (simp only: nat.case, (assumption | rule wk | rule wk_let | simp)+)
next
  case (Suc k)
  show ?case
    by (subst wait_one.simps) (simp only: nat.case, (rule Suc | assumption | rule wk | rule wk_let | simp)+)
qed

lemma wait_all_wk [wk]: "all_keep J \<Longrightarrow> wkept z s \<Longrightarrow> wkept z (snd (snd (wait_all J fin again k s)))"
proof (induction k arbitrary: s again)
  case 0
  then show ?case by (subst wait_all.simps) (simp only: nat.case, (assumption | rule wk | rule wk_let | simp)+)
next
  case (Suc k)
  show ?case
    by (subst wait_all.simps) (simp only: nat.case, (rule Suc | assumption | rule wk | rule wk_let | simp)+)
qed

lemma release_done_wk [wk]: "wkept z s \<Longrightarrow> wkept z (release_done s)"
  unfolding release_done_def by (assumption | rule wk | rule wk_let | simp)+

lemma wait_for_all_wk [wk]: "all_keep JE \<Longrightarrow> wkept z s \<Longrightarrow> wkept z (snd (snd (wait_for_all E JE timeout s)))"
  unfolding wait_for_all_def by (assumption | rule wk | rule wk_let | simp)+

lemma owatchWaitOp_wk [wk]: "all_keep JE \<Longrightarrow> wkept z s \<Longrightarrow> wkept z (snd (snd (owatchWaitOp E JE op timeout s)))"
  unfolding owatchWaitOp_def by (assumption | rule wk | rule wk_let | simp)+


lemma owatchInternalWaitOp_wk [wk]:
  "all_keep J \<Longrightarrow> wkept z (snd r) \<Longrightarrow> wkept z (snd (owatchInternalWaitOp E J r))"
  unfolding owatchInternalWaitOp_def by (assumption | rule wk | rule wk_let | simp)+

lemma call_canceller_wk [wk]:
  "jumps_keep J \<Longrightarrow> wkept z s \<Longrightarrow> wkept z (call_canceller E J c op d1 d2 s)"
  unfolding call_canceller_def by (cases c; simp only: canceller.case; (assumption | rule wk)+)

lemma call_local_wk [wk]: "wkept z s \<Longrightarrow> wkept z (call_local E h param op err s)"
  unfolding call_local_def by (cases h; simp only: ophandler.case; (assumption | rule wk)+)

lemma owatchAddMonitorByOoid_wk [wk]: "all_keep JE \<Longrightarrow> wkept z s \<Longrightarrow> wkept z (snd (owatchAddMonitorByOoid E JE ooid s))"
  unfolding owatchAddMonitorByOoid_def by (assumption | rule wk | rule wk_let | simp)+

lemma call_chainer_wk [wk]:
  "all_keep JE \<Longrightarrow> wkept z s \<Longrightarrow> wkept z (call_chainer E JE c m k err p1 p2 s)"
  unfolding call_chainer_def Let_def by (cases c; simp only: chainer.case; (assumption | rule wk)+)

text \<open>The jump tables of the library keep the invariant, at every depth.\<close>

lemma deep_wk: "wkept s (s\<lparr>wy_deep := True\<rparr>)"
  by (rule wk)+

lemma jump_keeps: "jumps_keep (jump n E :: 'a watchnet_scheme jumps)"
proof (induction n arbitrary: E)
  case 0
  show ?case by (simp add: jumps_keep_def deep_wk)
next
  case (Suc n)
  then have k: "all_keep (jump n :: env \<Rightarrow> 'a watchnet_scheme jumps)" by (simp add: all_keep_def)
  show ?case
    by (simp add: jumps_keep_def call_canceller_wk [OF Suc wkept_refl] call_chainer_wk [OF k wkept_refl]
        call_local_wk [OF wkept_refl])
qed

lemma jump_all_keep [wk]: "all_keep (jump n)" "jumps_keep (jump n E)"
  by (simp_all add: all_keep_def jump_keeps)

lemma owatchGetInfoByDesc_wk [wk]: "all_keep JE \<Longrightarrow> wkept z s \<Longrightarrow> wkept z (snd (owatchGetInfoByDesc E JE desc quark_p s))"
  unfolding owatchGetInfoByDesc_def by (assumption | rule wk | rule wk_let | simp)+

lemma owatchGetInfoByOoid_wk [wk]: "all_keep JE \<Longrightarrow> wkept z s \<Longrightarrow> wkept z (snd (owatchGetInfoByOoid E JE ooid quark_p s))"
  unfolding owatchGetInfoByOoid_def by (assumption | rule wk | rule wk_let | simp)+

lemma owatchAddMonitorByDesc_wk [wk]: "all_keep JE \<Longrightarrow> wkept z s \<Longrightarrow> wkept z (snd (owatchAddMonitorByDesc E JE desc ooid_buf dont_monitor s))"
  unfolding owatchAddMonitorByDesc_def by (assumption | rule wk | rule wk_let | simp)+

lemma owatchRead_wk [wk]: "all_keep JE \<Longrightarrow> wkept z s \<Longrightarrow> wkept z (snd (owatchRead E JE ooid pvalue data_buf buf_len s))"
  unfolding owatchRead_def by (assumption | rule wk | rule wk_let | simp)+

lemma owatchReadByName_wk [wk]: "all_keep JE \<Longrightarrow> wkept z s \<Longrightarrow> wkept z (snd (owatchReadByName E JE desc pvalue data_buf buf_len s))"
  unfolding owatchReadByName_def by (assumption | rule wk | rule wk_let | simp)+

lemma owatchWrite_wk [wk]: "all_keep JE \<Longrightarrow> wkept z s \<Longrightarrow> wkept z (snd (owatchWrite E JE ooid v s))"
  unfolding owatchWrite_def by (assumption | rule wk | rule wk_let | simp)+

lemma owatchWriteByName_wk [wk]: "all_keep JE \<Longrightarrow> wkept z s \<Longrightarrow> wkept z (snd (owatchWriteByName E JE desc v s))"
  unfolding owatchWriteByName_def by (assumption | rule wk | rule wk_let | simp)+

lemma owatchReceiveMessage_wk [wk]: "all_keep JE \<Longrightarrow> wkept z s \<Longrightarrow> wkept z (snd (owatchReceiveMessage E JE id_p src_p dest_p klass_p type_p data_p len_p s))"
  unfolding owatchReceiveMessage_def by (assumption | rule wk | rule wk_let | simp)+

lemma owatchSendMessage_wk [wk]: "all_keep JE \<Longrightarrow> wkept z s \<Longrightarrow> wkept z (snd (owatchSendMessage E JE ooid dest klass ty dat len s))"
  unfolding owatchSendMessage_def by (assumption | rule wk | rule wk_let | simp)+

lemma owatchOptimizeReading_wk [wk]: "all_keep JE \<Longrightarrow> wkept z s \<Longrightarrow> wkept z (snd (owatchOptimizeReading E JE desc opt timeout s))"
  unfolding owatchOptimizeReading_def by (assumption | rule wk | rule wk_let | simp)+

lemma fast_info_wk [wk]: "all_keep JE \<Longrightarrow> wkept z s \<Longrightarrow> wkept z (snd (snd (fast_info E JE desc ooid timeout q s)))"
  unfolding fast_info_def by (assumption | rule wk | rule wk_let | simp)+

lemma owatchFastFormsWrite_wk [wk]: "all_keep JE \<Longrightarrow> wkept z s \<Longrightarrow> wkept z (snd (owatchFastFormsWrite E JE desc ooid0 ty0 timeout dat sz s))"
  unfolding owatchFastFormsWrite_def by (assumption | rule wk | rule wk_let | simp)+

lemma opened_wk:
  fixes s :: "'a watchnet_scheme"
  assumes "wkept z s"
  shows "wkept z (s\<lparr>q_size := OWATCH_Q_SIZE, q_buf := replicate OWATCH_Q_SIZE no_packet, q_len := 0, q_rd := 0, q_wr := 0,
    wn_poll_size := OWATCH_POLL_SIZE, wn_poll_buf := Some (replicate OWATCH_POLL_SIZE no_packet),
    wn_poll_len := 0, wn_poll_rd := 0, wn_poll_wr := 0\<rparr>)"
  by (rule wkept_rings [OF assms]) (auto simp: ring_ok_def poll_ok_def OWATCH_Q_SIZE_def OWATCH_POLL_SIZE_def)

lemma owatchConnect_wk [wk]:
  "all_keep JE \<Longrightarrow> wkept z s \<Longrightarrow> wkept z (snd (owatchConnect E JE resolve udp url s))"
  unfolding owatchConnect_def by (assumption | rule opened_wk | rule wk | rule wk_let | simp)+

lemma watch_work_wk [wk]: "all_keep JE \<Longrightarrow> wkept z s \<Longrightarrow> wkept z (watch_work JE fin k s)"
proof (induction k arbitrary: s)
  case 0
  then show ?case by (subst watch_work.simps) (simp only: nat.case, (assumption | rule wk | rule wk_let | simp)+)
next
  case (Suc k)
  show ?case
    by (subst watch_work.simps) (simp only: nat.case, (rule Suc | assumption | rule wk | rule wk_let | simp)+)
qed

lemma owatchWork_wk [wk]: "all_keep JE \<Longrightarrow> wkept z s \<Longrightarrow> wkept z (snd (owatchWork E JE timeout s))"
  unfolding owatchWork_def by (assumption | rule wk | rule wk_let | simp)+

lemma owatchReadAs_wk [wk]: "all_keep JE \<Longrightarrow> wkept z s \<Longrightarrow> wkept z (snd (snd (owatchReadAs E JE c d e f g s)))"
  unfolding owatchReadAs_def by (assumption | rule wk | rule wk_let | simp)+

lemma local_val_wk [wk]: "wkept z s \<Longrightarrow> wkept z (snd (local_val ty s))"
  unfolding local_val_def by (assumption | rule wk | rule wk_let | simp)+

lemma read_number_wk [wk]: "all_keep JE \<Longrightarrow> wkept z s \<Longrightarrow> wkept z (snd (snd (read_number E JE ty desc timeout s)))"
  unfolding read_number_def by (assumption | rule wk | rule wk_let | simp)+

lemma owatchReadAsLong_wk [wk]: "all_keep JE \<Longrightarrow> wkept z s \<Longrightarrow> wkept z (snd (snd (owatchReadAsLong E JE desc timeout s)))"
  unfolding owatchReadAsLong_def by (assumption | rule wk | rule wk_let | simp)+

lemma owatchReadAsFloat_wk [wk]: "all_keep JE \<Longrightarrow> wkept z s \<Longrightarrow> wkept z (snd (snd (owatchReadAsFloat E JE desc timeout s)))"
  unfolding owatchReadAsFloat_def by (assumption | rule wk | rule wk_let | simp)+

lemma owatchReadAsDouble_wk [wk]: "all_keep JE \<Longrightarrow> wkept z s \<Longrightarrow> wkept z (snd (snd (owatchReadAsDouble E JE desc timeout s)))"
  unfolding owatchReadAsDouble_def by (assumption | rule wk | rule wk_let | simp)+

lemma owatchReadAsString_wk [wk]: "all_keep JE \<Longrightarrow> wkept z s \<Longrightarrow> wkept z (snd (snd (owatchReadAsString E JE desc timeout s)))"
  unfolding owatchReadAsString_def by (assumption | rule wk | rule wk_let | simp)+

lemma owatchWriteAs_wk [wk]: "all_keep JE \<Longrightarrow> wkept z s \<Longrightarrow> wkept z (snd (snd (owatchWriteAs E JE desc v timeout s)))"
  unfolding owatchWriteAs_def by (assumption | rule wk | rule wk_let | simp)+

lemma owatchWriteAsLong_wk [wk]: "all_keep JE \<Longrightarrow> wkept z s \<Longrightarrow> wkept z (snd (snd (owatchWriteAsLong E JE desc x timeout s)))"
  unfolding owatchWriteAsLong_def by (assumption | rule wk | rule wk_let | simp)+

lemma owatchWriteAsFloat_wk [wk]: "all_keep JE \<Longrightarrow> wkept z s \<Longrightarrow> wkept z (snd (snd (owatchWriteAsFloat E JE desc w timeout s)))"
  unfolding owatchWriteAsFloat_def by (assumption | rule wk | rule wk_let | simp)+

lemma owatchWriteAsDouble_wk [wk]: "all_keep JE \<Longrightarrow> wkept z s \<Longrightarrow> wkept z (snd (snd (owatchWriteAsDouble E JE desc w timeout s)))"
  unfolding owatchWriteAsDouble_def by (assumption | rule wk | rule wk_let | simp)+

lemma owatchWriteAsString_wk [wk]: "all_keep JE \<Longrightarrow> wkept z s \<Longrightarrow> wkept z (snd (snd (owatchWriteAsString E JE desc str timeout s)))"
  unfolding owatchWriteAsString_def by (assumption | rule wk | rule wk_let | simp)+

section \<open>Runs of the library\<close>

text \<open>
  What a client may call between \<open>owatchInit\<close> and \<open>owatchExit\<close>, with any result of the
  operating system and any depth of the jump table; questions that change nothing are left out.
\<close>

inductive client_call :: "watchnet \<Rightarrow> watchnet \<Rightarrow> bool" where
  connect: "client_call s (snd (owatchConnect E (jump n) resolve udp url s))"
| disconnect: "client_call s (snd (owatchDisconnect E (jump n E) s))"
| work: "client_call s (snd (owatchWork E (jump n) timeout s))"
| wait_op: "client_call s (snd (snd (owatchWaitOp E (jump n) op timeout s)))"
| cancel_op: "client_call s (snd (owatchCancelOp (jump n E) op s))"
| detach_op: "client_call s (snd (owatchDetachOp (jump n E) op s))"
| local_handler: "client_call s (snd (owatchLocalOpHandler (jump n E) op h param s))"
| add_op_handler: "client_call s (snd (owatchAddOpHandler f param s))"
| remove_op_handler: "client_call s (snd (owatchRemoveOpHandler f s))"
| async_timeout: "client_call s (snd (owatchSetAsyncTimeout timeout s))"
| idle_handler: "client_call s (snd (owatchRegisterIdleHandler hand enable s))"
| add_alive_handler: "client_call s (snd (owatchAddAliveHandler f param s))"
| remove_alive_handler: "client_call s (snd (owatchRemoveAliveHandler f s))"
| trigger: "client_call s (snd (owatchTriggerSubject E (jump n E) subject s))"
| info_by_desc: "client_call s (snd (owatchGetInfoByDesc E (jump n) desc q s))"
| info_by_ooid: "client_call s (snd (owatchGetInfoByOoid E (jump n) ooid q s))"
| add_by_desc: "client_call s (snd (owatchAddMonitorByDesc E (jump n) desc buf quiet s))"
| add_by_ooid: "client_call s (snd (owatchAddMonitorByOoid E (jump n) ooid s))"
| remove_monitor: "client_call s (snd (owatchRemoveMonitor E (jump n E) ooid s))"
| remove_all: "client_call s (snd (owatchRemoveAllMonitors E (jump n E) s))"
| find_by_desc: "client_call s (snd (owatchFindMonitorOoidByDesc desc s))"
| get_value: "client_call s (snd (owatchGetValue ooid pvalue buf buf_len s))"
| enable: "client_call s (snd (owatchEnableMonitoring E on s))"
| block: "client_call s (snd (owatchBlockMonitoring E (jump n E) on renew s))"
| flush: "client_call s (snd (owatchFlushMonitor ooid s))"
| flush_all: "client_call s (snd (owatchFlushAllMonitors s))"
| renew: "client_call s (snd (owatchRenewMonitor E (jump n E) ooid s))"
| renew_all: "client_call s (snd (owatchRenewAllMonitors E (jump n E) s))"
| add_data_handler: "client_call s (snd (owatchAddDataHandler f param s))"
| remove_data_handler: "client_call s (snd (owatchRemoveDataHandler f s))"
| set_data: "client_call s (snd (owatchSetMonitorData ooid user_data s))"
| get_data: "client_call s (snd (snd (owatchGetMonitorData ooid s)))"
| read_ooid: "client_call s (snd (owatchRead E (jump n) ooid pvalue buf buf_len s))"
| read_name: "client_call s (snd (owatchReadByName E (jump n) desc pvalue buf buf_len s))"
| write_ooid: "client_call s (snd (owatchWrite E (jump n) ooid v s))"
| write_name: "client_call s (snd (owatchWriteByName E (jump n) desc v s))"
| fast_write: "client_call s (snd (owatchFastFormsWrite E (jump n) desc ooid ty timeout dat sz s))"
| optimize: "client_call s (snd (owatchOptimizeReading E (jump n) desc opt timeout s))"
| read_long: "client_call s (snd (snd (owatchReadAsLong E (jump n) desc timeout s)))"
| read_float: "client_call s (snd (snd (owatchReadAsFloat E (jump n) desc timeout s)))"
| read_double: "client_call s (snd (snd (owatchReadAsDouble E (jump n) desc timeout s)))"
| read_string: "client_call s (snd (snd (owatchReadAsString E (jump n) desc timeout s)))"
| write_long: "client_call s (snd (snd (owatchWriteAsLong E (jump n) desc x timeout s)))"
| write_float: "client_call s (snd (snd (owatchWriteAsFloat E (jump n) desc w timeout s)))"
| write_double: "client_call s (snd (snd (owatchWriteAsDouble E (jump n) desc d timeout s)))"
| write_string: "client_call s (snd (snd (owatchWriteAsString E (jump n) desc str timeout s)))"
| add_msg_handler: "client_call s (snd (owatchAddMsgHandler E klass f param s))"
| remove_msg_handler: "client_call s (snd (owatchRemoveMsgHandler E klass f s))"
| queue_limits: "client_call s (snd (owatchSetMsgQueueLimits max_messages max_bytes s))"
| ack_count: "client_call s (snd (owatchGetAckCount clear s))"
| remote_log: "client_call s (snd (owatchRemoteLog on s))"
| receive: "client_call s (snd (owatchReceiveMessage E (jump n) id_p src_p dest_p klass_p type_p data_p len_p s))"
| send: "client_call s (snd (owatchSendMessage E (jump n) ooid dest klass ty dat len s))"

lemma client_call_kept: "client_call s s' \<Longrightarrow> wkept s s'"
  by (induction rule: client_call.induct) (rule wk)+

text \<open>
  Between two calls the client changes its own memory, and the world decides what the sockets will
  take and what the next polls will find.
\<close>

inductive watch_runs :: "watchnet \<Rightarrow> bool" where
  start: "owatchInit E (jump n E) pid host (Some client_name) wnet0 = (OK, s) \<Longrightarrow> watch_runs s"
| call: "watch_runs s \<Longrightarrow> client_call s s' \<Longrightarrow> watch_runs s'"
| world: "watch_runs s \<Longrightarrow> watch_runs (s\<lparr>wy_future := fut, p_tx := tx, p_utx := utx, wm_ooids := os, wm_vals := vs,
    wm_bufs := bs, wx_ints := ints\<rparr>)"

definition counted :: "'a watchnet_scheme \<Rightarrow> bool" where
  "counted s \<longleftrightarrow> net_ok s \<and> msg_slack s = (0, 0)"

lemma counted_kept: "wkept s s' \<Longrightarrow> counted s \<Longrightarrow> counted s'"
  by (simp add: counted_def wkept_def)

lemma owatchClearMessages_idle:
  fixes s :: "'a watchnet_scheme"
  assumes "counted s" and "wx_rcvrs s = []"
  shows "counted (owatchClearMessages J s)"
  using assms
  by (simp add: owatchClearMessages_def counted_def net_ok_def ops_ok_def ring_ok_def poll_ok_def msg_slack_def)

lemma owatchExit_fresh: "counted (snd (owatchExit E (jump n E) (wnet0\<lparr>wn_watcher_desc := d\<rparr>)))"
proof -
  define s0 where "s0 = owatchClearTriggers (wnet0\<lparr>wn_watcher_desc := d\<rparr>)"
  have s0: "counted s0" "wx_rcvrs s0 = []" "\<not> wm_active s0"
    by (simp_all add: s0_def owatchClearTriggers_def wnet0_def counted_def net_ok_def ops_ok_def ring_ok_def poll_ok_def
        msg_slack_def OWATCH_MAX_TRIGGER_def)
  have e: "snd (owatchEnableMonitoring E False s0) = s0" using s0(3) by (simp add: owatchEnableMonitoring_def)
  define s1 where "s1 = owatchClearMessages (jump n E) s0"
  have s1: "counted s1" unfolding s1_def by (rule owatchClearMessages_idle [OF s0(1,2)])
  have "wkept s1 (snd (owatchExit E (jump n E) (wnet0\<lparr>wn_watcher_desc := d\<rparr>)))"
    unfolding owatchExit_def s0_def [symmetric] e Let_def s1_def [symmetric] by (rule wk | simp)+
  then show ?thesis by (rule counted_kept [OF _ s1])
qed

lemma owatchInit_counted:
  assumes "owatchInit E (jump n E) pid host (Some client_name) wnet0 = (OK, s)"
  shows "counted s"
proof -
  define s0 where "s0 = snd (owatchExit E (jump n E) (wnet0\<lparr>wn_watcher_desc := watcher_desc client_name pid host\<rparr>))"
  have c: "counted s0" unfolding s0_def by (rule owatchExit_fresh)
  obtain r1 s1 where i1: "owatchInitOperations E s0 = (r1, s1)" by (cases "owatchInitOperations E s0")
  obtain r2 s2 where i2: "owatchInitSubjects E s1 = (r2, s2)" by (cases "owatchInitSubjects E s1")
  obtain r3 s3 where i3: "owatchSetupMessages E s2 = (r3, s3)" by (cases "owatchSetupMessages E s2")
  obtain r4 s4 where i4: "owatchInitMonitoring E s3 = (r4, s4)" by (cases "owatchInitMonitoring E s3")
  have "wkept s0 s1" using owatchInitOperations_wk [OF wkept_refl, of s0 E] i1 by simp
  then have "wkept s0 s2" using owatchInitSubjects_wk [of s0 s1 E] i2 by simp
  then have "wkept s0 s3" using owatchSetupMessages_wk [of s0 s2 E] i3 by simp
  then have w: "wkept s0 s4" using owatchInitMonitoring_wk [of s0 s3 E] i4 by simp
  have "s = (snd (owatchEnableMonitoring E True (snd (owatchSetAsyncTimeout OWATCH_NOWAIT (owatchFlushInfoCache s4)))))
    \<lparr>wn_initialized := True\<rparr>"
    using assms i1 i2 i3 i4 by (auto simp: owatchInit_def Let_def s0_def [symmetric] split: if_splits)
  moreover have "wkept s0 \<dots>" by (rule wk w)+
  ultimately show ?thesis using counted_kept [OF _ c] by simp
qed

lemma watch_runs_counted: "watch_runs s \<Longrightarrow> counted s"
proof (induction rule: watch_runs.induct)
  case (start E n pid host client_name s)
  then show ?case by (rule owatchInit_counted)
next
  case (call s s')
  then show ?case using counted_kept client_call_kept by blast
next
  case (world s fut tx utx os vs bs ints)
  then show ?case
    by (simp add: counted_def net_ok_def ops_ok_def ring_ok_def poll_ok_def msg_slack_def)
qed

section \<open>The tables in every run\<close>

text \<open>
  C2. In every state a client of the watcher library can reach, whatever the hub sends, the table
  of operations, both rings of packets and the triggers are in order, the number of free
  operations is exact, and the counts of the message queue are those of its messages.
\<close>

theorem watch_tables_in_order:
  assumes "watch_runs s"
  shows "ops_ok s \<and> ring_ok s \<and> poll_ok s \<and> length (wb_triggers s) = OWATCH_MAX_TRIGGER
    \<and> wx_cur_count s = int (length (wx_queue s)) \<and> wx_cur_bytes s = sum_list (map pm_len (wx_queue s))"
  using watch_runs_counted [OF assms] by (simp add: counted_def net_ok_def msg_slack_def)

lemma owatchInit_succeeds:
  assumes "\<And>n. env_alloc E n"
  shows "fst (owatchInit E J pid host (Some client_name) s) = OK"
  using assms by (simp add: owatchInit_def owatchInitOperations_def owatchInitSubjects_def owatchSetupMessages_def
      owatchInitMonitoring_def Let_def)

definition started :: watchnet where
  "started = snd (owatchInit env0 (jump 3 env0) 7 [104] (Some [99]) wnet0)"

lemma started_runs: "watch_runs started"
proof -
  have "fst (owatchInit env0 (jump 3 env0) 7 [104] (Some [99]) wnet0) = OK"
    by (rule owatchInit_succeeds) (simp add: env0_def)
  then show ?thesis unfolding started_def by (intro watch_runs.start [of env0 3 7 "[104]" "[99]"]) (simp add: prod_eq_iff)
qed

theorem watch_tables_in_order_witness:
  "ops_ok (snd (owatchReceiveMessage env0 (jump 3) 1 2 3 4 5 6 7 started))
    \<and> ops_ok (snd (owatchSendMessage env0 (jump 3) 0 [43] 1 1 (Some [1]) 1 started))"
  using watch_tables_in_order [OF watch_runs.call [OF started_runs client_call.receive]]
    watch_tables_in_order [OF watch_runs.call [OF started_runs client_call.send]] by blast

section \<open>Waiting ends\<close>

lemma wait_poll_future:
  fixes s :: "'a watchnet_scheme"
  assumes "all_keep J"
  shows "length (wy_future (snd (wait_poll J idle e r s))) \<le> length r"
proof -
  define s0 where "s0 = s\<lparr>wy_future := r\<rparr>"
  have "wkept s0 (snd (wait_poll J idle e r s))"
    unfolding wait_poll_def s0_def [symmetric] by (rule assms wk | assumption | rule wk_let)+
  then show ?thesis by (simp add: wkept_def s0_def)
qed

lemma wait_one_fuel:
  assumes "all_keep J" and "length (wy_future s) \<le> k"
  shows "wait_one J fin no (k + d) s = wait_one J fin no k s"
  using assms(2)
proof (induction k arbitrary: s)
  case 0
  then show ?case by (simp add: wait_one.simps [of J fin no _ s])
next
  case (Suc k)
  have "wait_one J fin no (k + d) (snd (wait_poll J True e r s)) = wait_one J fin no k (snd (wait_poll J True e r s))"
    if "wy_future s = e # r" for e r
    by (rule Suc.IH) (use wait_poll_future [OF assms(1), of True e r s] Suc.prems that in simp)
  then show ?case
    by (simp add: wait_one.simps [of J fin no _ s] split: list.split)
qed

lemma wait_all_fuel:
  assumes "all_keep J" and "length (wy_future s) \<le> k"
  shows "wait_all J fin again (k + d) s = wait_all J fin again k s"
  using assms(2)
proof (induction k arbitrary: s again)
  case 0
  then show ?case by (simp add: wait_all.simps [of J fin again _ s] case_prod_unfold)
next
  case (Suc k)
  have "wait_all J fin b (k + d) (snd (wait_poll J (fin \<noteq> None) e r s)) = wait_all J fin b k (snd (wait_poll J (fin \<noteq> None) e r s))"
    if "wy_future s = e # r" for e r b
    by (rule Suc.IH) (use wait_poll_future [OF assms(1), of "fin \<noteq> None" e r s] Suc.prems that in simp)
  then show ?case
    by (simp add: wait_all.simps [of J fin again _ s] case_prod_unfold split: list.split)
qed

lemma watch_work_fuel:
  assumes "all_keep J" and "length (wy_future s) \<le> k"
  shows "watch_work J fin (k + d) s = watch_work J fin k s"
  using assms(2)
proof (induction k arbitrary: s)
  case 0
  then show ?case by (simp add: watch_work.simps [of J fin _ s])
next
  case (Suc k)
  have "watch_work J fin (k + d) (snd (wait_poll J True e r s)) = watch_work J fin k (snd (wait_poll J True e r s))"
    if "wy_future s = e # r" for e r
    by (rule Suc.IH) (use wait_poll_future [OF assms(1), of True e r s] Suc.prems that in simp)
  then show ?case
    by (simp add: watch_work.simps [of J fin _ s] split: list.split)
qed

text \<open>Why a wait for one operation stopped.\<close>

definition wait_over :: "int option \<Rightarrow> nat \<Rightarrow> 'a watchnet_scheme \<Rightarrow> bool" where
  "wait_over fin no s \<longleftrightarrow> or_state (the_ops s no) \<noteq> OPS_PENDING \<or> (wy_future s = [] \<and> wy_waiting s)
     \<or> (\<exists>e r. wy_future s = e # r \<and> timed_out fin (fst e) False)"

lemma wait_one_over:
  assumes "all_keep J" and "length (wy_future s) \<le> k"
  shows "wait_over fin no (wait_one J fin no k s)"
  using assms(2)
proof (induction k arbitrary: s)
  case 0
  then show ?case by (simp add: wait_one.simps [of J fin no _ s] wait_over_def the_ops_def)
next
  case (Suc k)
  have "wait_over fin no (wait_one J fin no k (snd (wait_poll J True e r s)))" if "wy_future s = e # r" for e r
    by (rule Suc.IH) (use wait_poll_future [OF assms(1), of True e r s] Suc.prems that in simp)
  then show ?case
    by (simp add: wait_one.simps [of J fin no _ s] split: list.split) (auto simp: wait_over_def the_ops_def)
qed


section \<open>Operations behind the first 4096 places\<close>

lemma first_free_op_at:
  "(\<And>i. a \<le> i \<Longrightarrow> i < no \<Longrightarrow> or_state (r i) \<noteq> OPS_FREE) \<Longrightarrow> or_state (r no) = OPS_FREE \<Longrightarrow> a \<le> no \<Longrightarrow> no < a + k
    \<Longrightarrow> first_free_op r k a = Some no"
proof (induction k arbitrary: a)
  case (Suc k)
  show ?case
  proof (cases "a = no")
    case False
    then have "a < no" using Suc.prems(3) by simp
    then show ?thesis using Suc.prems Suc.IH [of "Suc a"] by simp
  qed (use Suc.prems in simp)
qed simp

text \<open>
  C33. When the first 4095 places of the table are taken, the number given to a new operation
  leads to the place 4096 below its own: no call of the library finds the new operation by its
  number, and giving it back frees the operation of that other place.
\<close>

theorem high_operation_lost:
  assumes "ow_ops s = Some r" and "0 < ow_free_count s" and "\<And>no. 1 \<le> no \<Longrightarrow> no < 4096 \<Longrightarrow> or_state (r no) \<noteq> OPS_FREE"
    and "owatchAllocateOp c d1 d2 s = (op, s')" and "op \<noteq> OWOP_ERROR"
  shows "\<exists>no \<ge> 4096. or_state (the_ops s no) = OPS_FREE \<and> or_op (the_ops s' no) = op \<and> or_state (the_ops s' no) = OPS_PENDING
    \<and> op_no op = no - 4096 \<and> find_op op s' \<noteq> Some no
    \<and> (no \<noteq> 4096 \<longrightarrow> or_state (the_ops (snd (owatchDeallocateOp op s')) (no - 4096)) = OPS_FREE
         \<and> or_state (the_ops (snd (owatchDeallocateOp op s')) no) = OPS_PENDING)"
proof -
  obtain no where no: "first_free_op (the_ops s) (OWATCH_MAX_OPS - 1) 1 = Some no"
    using assms(1,2,4,5) by (auto simp: owatchAllocateOp_def split: option.splits)
  have f: "1 \<le> no" "no < 8000" "or_state (r no) = OPS_FREE"
    using first_free_op_Some [OF no] assms(1) by (auto simp: OWATCH_MAX_OPS_def the_ops_def)
  have hi: "4096 \<le> no" using assms(3) [of no] f by (meson not_less)
  obtain n where m: "make_op (ow_next_id s) no = (op, n)" and s': "s' = (upd_op no (\<lambda>_. \<lparr>or_op = op, or_state = OPS_PENDING,
      or_err = 0, or_data1 = d1, or_data2 = d2, or_canceller = c, or_m_op = OWOP_NULL, or_s_op = OWOP_NULL, or_chainer = None,
      or_param1 = 0, or_param2 = 0, or_handler = None, or_loc_param = 0\<rparr>) s)\<lparr>ow_next_id := n, ow_free_count := ow_free_count s - 1\<rparr>"
    using assms(1,2,4) no by (auto simp: owatchAllocateOp_def split: prod.splits)
  have "op mod 4096 = int no mod 4096" using m by (auto simp: make_op_def Let_def)
  also have "\<dots> = int (no mod 4096)" by (simp add: of_nat_mod)
  also have "no mod 4096 = no - 4096" using hi f by (simp add: mod_if)
  finally have p: "op_no op = no - 4096" by (simp add: op_no_def)
  have e: "the_ops s' no = \<lparr>or_op = op, or_state = OPS_PENDING,
      or_err = 0, or_data1 = d1, or_data2 = d2, or_canceller = c, or_m_op = OWOP_NULL, or_s_op = OWOP_NULL, or_chainer = None,
      or_param1 = 0, or_param2 = 0, or_handler = None, or_loc_param = 0\<rparr>"
    using assms(1) by (simp add: s' upd_op_def the_ops_def)
  have o: "the_ops s' i = r i" if "i \<noteq> no" for i using assms(1) that by (simp add: s' upd_op_def the_ops_def)
  have "find_op op s' \<noteq> Some no" using p hi by (auto dest: find_op_valid(3))
  moreover have "or_state (the_ops (snd (owatchDeallocateOp op s')) (no - 4096)) = OPS_FREE
      \<and> or_state (the_ops (snd (owatchDeallocateOp op s')) no) = OPS_PENDING" if "no \<noteq> 4096"
  proof -
    have l: "1 \<le> no - 4096" "no - 4096 < 4096" "no - 4096 \<noteq> no" using hi f that by linarith+
    have "owatchGetOpRecord op s' = Some (no - 4096)"
      using l assms(1,3) o [OF l(3)] by (simp add: owatchGetOpRecord_def p OWATCH_MAX_OPS_def s' upd_op_def)
    then show ?thesis using e l assms(1)
      by (simp add: owatchDeallocateOp_def s' upd_op_def the_ops_def zero_op_def)
  qed
  ultimately show ?thesis using hi p e f assms(1) by (intro exI [of _ no]) (simp add: the_ops_def)
qed

definition low_places :: "nat \<Rightarrow> oprec" where
  "low_places no = (if no < 4100 then zero_op\<lparr>or_state := OPS_PENDING\<rparr> else zero_op)"

theorem high_operation_lost_witness:
  "\<exists>no \<ge> 4096. or_op (the_ops (snd (owatchAllocateOp None 7 0 (wnet0\<lparr>ow_ops := Some low_places, ow_free_count := 3900\<rparr>))) no)
    = fst (owatchAllocateOp None 7 0 (wnet0\<lparr>ow_ops := Some low_places, ow_free_count := 3900\<rparr>))"
proof -
  let ?s = "wnet0\<lparr>ow_ops := Some low_places, ow_free_count := 3900\<rparr>"
  have "first_free_op low_places 7999 1 = Some 4100"
    by (rule first_free_op_at) (simp_all add: low_places_def zero_op_def)
  then have "fst (owatchAllocateOp None 7 0 ?s) \<noteq> OWOP_ERROR"
    by (simp add: owatchAllocateOp_def the_ops_def OWATCH_MAX_OPS_def make_op_def OWOP_ERROR_def wnet0_def)
  then show ?thesis
    using high_operation_lost [of ?s low_places None 7 0 "fst (owatchAllocateOp None 7 0 ?s)" "snd (owatchAllocateOp None 7 0 ?s)"]
    by (auto simp: low_places_def zero_op_def)
qed

end
