(* ===== verification/WatchCheck.thy ===== *)
theory WatchCheck
  imports WatchMain HubInv Steps
begin

text \<open>
  The checks of the monitors after a reconnection: the loop that starts them ends as long as the
  count of checks to start is not above the number of monitors that wait for theirs, and runs for
  ever when no monitor waits any more.
\<close>

named_theorems qt \<open>steps that leave the monitors alone\<close>

section \<open>Starting a check leaves the other monitors alone\<close>

definition monview :: "'a watchmon_scheme \<Rightarrow> u32 list \<times> (u32 \<Rightarrow> wmonitor option) \<times> int \<times> bool" where
  "monview s = (wm_mons s, wm_recs s, wm_secure_count s, wm_hung s)"

definition nodone :: "'a watchop_scheme \<Rightarrow> bool" where
  "nodone s \<longleftrightarrow> (\<forall>no. or_state (the_ops s no) \<noteq> OPS_DONE)"

definition quiet :: "'a watchmon_scheme \<Rightarrow> 'a watchmon_scheme \<Rightarrow> bool" where
  "quiet z s \<longleftrightarrow> monview s = monview z \<and> nodone s"

interpretation quiet: flow "quiet z" for z .

lemmas quiet_steps [qt] = quiet.steps
lemmas qt_let = quiet.plain_steps

lemma quiet_fields [qt]:
  assumes "quiet z s"
  shows "quiet z (alive_put_wd_update f1 s)" "quiet z (ow_next_id_update f2 s)" "quiet z (ow_free_count_update f3 s)"
    "quiet z (ow_brk_update f4 s)" "quiet z (ow_fault_update f5 s)" "quiet z (ow_aborted_update f6 s)"
    "quiet z (wn_sendrecs_update f7 s)" "quiet z (wi_quarks_update f8 s)" "quiet z (wi_gets_update f9 s)"
    "quiet z (wi_desc_hash_update f10 s)" "quiet z (wi_ooid_hash_update f11 s)" "quiet z (wi_reject_hash_update f12 s)"
    "quiet z (wm_checks_update f13 s)"
  using assms by (simp_all add: quiet_def monview_def nodone_def the_ops_def)

lemma quiet_upd_op [qt]:
  assumes "quiet z s" and "or_state (f (the_ops s no)) = OPS_DONE \<Longrightarrow> or_state (the_ops s no) = OPS_DONE"
  shows "quiet z (upd_op no f s)"
  using assms by (cases "ow_ops s") (auto simp: quiet_def monview_def nodone_def the_ops_def upd_op_def)

lemma watchmon_more:
  fixes s s' :: "'a watchmon_scheme"
  assumes "peer.more s' = peer.more s"
  shows "monview s' = monview s \<and> ow_ops s' = ow_ops s"
  using assms by (cases s, cases s') (simp add: monview_def)

lemma SendPacket_more:
  fixes s :: "'a watchsend_scheme"
  shows "peer.more (snd (owatchSendPacket E kind ty len data s)) = peer.more s"
proof -
  have q: "peer.more (snd (QueuePacket E ty len data p)) = peer.more p" for p :: "'c peer_scheme"
    by (simp add: QueuePacket_def ring_put_def)
  have d: "peer.more (snd (DatagramSend E ty len data p)) = peer.more p" for p :: "'c peer_scheme"
    by (simp add: DatagramSend_def Let_def case_prod_unfold)
  show ?thesis
    by (simp add: owatchSendPacket_def owatchPokeStream_def case_prod_unfold Let_def q d PokeStream_more)
qed

lemma quiet_send [qt]:
  assumes "quiet z s"
  shows "quiet z (snd (owatchSendPacket E kind ty len data s))"
  using assms watchmon_more [OF SendPacket_more [of E kind ty len data s]]
  by (simp add: quiet_def nodone_def the_ops_def)

lemma quiet_new [qt]: "quiet z s \<Longrightarrow> quiet z (snd (ow_new s))"
  unfolding ow_new_def by (assumption | rule qt)+

lemma quiet_mark [qt]: "quiet z s \<Longrightarrow> quiet z (ow_mark b s)"
  unfolding ow_mark_def by (assumption | rule qt)+

lemma quiet_abort [qt]: "quiet z s \<Longrightarrow> quiet z (snd (ow_abort s))"
  unfolding ow_abort_def by (assumption | rule qt)+

lemma quiet_alloc [qt]: "quiet z s \<Longrightarrow> quiet z (snd (owatchAllocateOp c d1 d2 s))"
  unfolding owatchAllocateOp_def by (assumption | rule qt | rule qt_let | simp)+

lemma quiet_dealloc [qt]: "quiet z s \<Longrightarrow> quiet z (snd (owatchDeallocateOp op s))"
  unfolding owatchDeallocateOp_def by (assumption | rule qt | rule qt_let | simp add: zero_op_def)+

lemma quiet_secure [qt]: "quiet z s \<Longrightarrow> quiet z (snd (owatchSecureSend E kind ty len data s))"
  unfolding owatchSecureSend_def by (assumption | rule qt | rule qt_let | simp)+

lemma quiet_chain [qt]:
  assumes "quiet z s" and "s_op \<noteq> OWOP_OK" and "s_op \<noteq> OWOP_ERROR"
  shows "quiet z (snd (owatchChainOps J m_op s_op chn p1 p2 s))"
  unfolding owatchChainOps_def using assms(2,3)
  by (simp only: simp_thms if_False) (rule assms(1) | assumption | rule qt | rule qt_let | simp)+

lemma quiet_info [qt]:
  assumes "quiet z s"
  shows "quiet z (snd (owatchFindCachedInfoByDesc desc q s))" "quiet z (free_get a s)" "quiet z (put_quark a x s)"
    "quiet z (snd (send_info_request E J ty body p1 p2 m_op a s))"
    "quiet z (snd (owatchNowaitGetInfoByDesc E J desc q s))"
  unfolding owatchFindCachedInfoByDesc_def cached_by_desc_def free_get_def put_quark_def send_info_request_def
    owatchNowaitGetInfoByDesc_def
  by (rule assms | assumption | rule qt | rule qt_let | simp)+

lemma quiet_local [qt]:
  assumes "quiet z s" and "op \<noteq> OWOP_OK" and "op \<noteq> OWOP_ERROR"
  shows "quiet z (snd (owatchLocalOpHandler J op h param s))"
proof -
  have "or_state (the_ops s no) \<noteq> OPS_DONE" for no using assms(1) by (simp add: quiet_def nodone_def)
  then show ?thesis unfolding owatchLocalOpHandler_def using assms(2,3)
    by (simp only: simp_thms if_False Let_def) (rule assms(1) | assumption | rule qt | rule qt_let | simp)+
qed

text \<open>The number a request returns is not one of the special ones but OWOP_OK and OWOP_ERROR.\<close>

lemma AllocateOp_number: "owatchAllocateOp c d1 d2 s = (x, s') \<Longrightarrow> x \<noteq> OWOP_ERROR \<Longrightarrow> 0 \<le> x"
  by (auto simp: owatchAllocateOp_def make_op_def Let_def split: option.splits if_splits)

lemma send_info_number: "send_info_request E J ty body p1 p2 m_op a s = (x, s') \<Longrightarrow> x = OWOP_ERROR \<or> x = m_op"
  by (auto simp: send_info_request_def split: prod.splits if_splits)

lemma GetInfo_number:
  "owatchNowaitGetInfoByDesc E J desc q s = (x, s') \<Longrightarrow> x \<noteq> OWOP_ERROR \<Longrightarrow> 0 \<le> x"
  by (auto simp: owatchNowaitGetInfoByDesc_def Let_def OWOP_OK_def split: prod.splits if_splits
      dest!: send_info_number dest: AllocateOp_number)

text \<open>What a started check changes: the operation the monitor waits for.\<close>

lemma start_check_view:
  fixes s s' :: "'a watchmon_scheme"
  assumes "nodone s" and "start_check E J i s = (b, s')"
  shows "\<exists>v. v \<noteq> OWOP_SELF \<and> nodone s' \<and> monview s' = (wm_mons s,
    (wm_recs s)(wm_mons s ! i := map_option (\<lambda>m. m\<lparr>wm_secure_op := v\<rparr>) (wm_recs s (wm_mons s ! i))),
    wm_secure_count s, wm_hung s)"
proof -
  define a where "a = wm_mons s ! i"
  define s0 where "s0 = ow_mark (\<not> env_alloc E 172) s"
  obtain c s1 where n: "ow_new s0 = (c, s1)" by (cases "ow_new s0")
  define s1' where "s1' = s1\<lparr>wm_checks := (wm_checks s1)(c := Some (wm_ooid (wmon s a)))\<rparr>"
  obtain op s2 where g: "owatchNowaitGetInfoByDesc E J (wq_desc (wi_quarks s a)) c s1' = (op, s2)"
    by (cases "owatchNowaitGetInfoByDesc E J (wq_desc (wi_quarks s a)) c s1'")
  have q0: "quiet s s" using assms(1) by (simp add: quiet_def)
  have "quiet s (snd (ow_new s0))" unfolding s0_def by (rule q0 | rule qt)+
  then have "quiet s s1'" unfolding s1'_def n snd_conv by (rule qt)
  then have "quiet s (snd (owatchNowaitGetInfoByDesc E J (wq_desc (wi_quarks s a)) c s1'))" by (rule qt)
  then have q2: "quiet s s2" by (simp add: g)
  have op: "op \<noteq> OWOP_SELF" using GetInfo_number [OF g] by (auto simp: owop_defs)
  define stop :: "int \<Rightarrow> 'a watchmon_scheme \<Rightarrow> 'a watchmon_scheme" where "stop v = upd_wmon a (\<lambda>m. m\<lparr>wm_secure_op := v\<rparr>)" for v
  have d: "nodone (stop v t) \<and> monview (stop v t) = (wm_mons s, (wm_recs s)(a := map_option (\<lambda>m. m\<lparr>wm_secure_op := v\<rparr>) (wm_recs s a)),
      wm_secure_count s, wm_hung s)" if "quiet s t" for v t
    using that by (simp add: stop_def quiet_def monview_def nodone_def the_ops_def upd_wmon_def touch_mon_def ow_mark_def)
  have s': "s' = (if op = OWOP_OK then stop OWOP_NULL (snd (ow_abort s2))
      else if op = OWOP_ERROR then stop OWOP_NULL (s2\<lparr>wm_checks := (wm_checks s2)(c := None)\<rparr>)
      else stop op (snd (owatchLocalOpHandler J op (Some MonCheckInfo) c s2)))"
    using assms(2) g n
    by (auto simp: start_check_def Let_def a_def [symmetric] s0_def [symmetric] s1'_def [symmetric] stop_def split: if_splits)
  have "\<exists>v t. v \<noteq> OWOP_SELF \<and> quiet s t \<and> s' = stop v t"
  proof (cases "op = OWOP_OK \<or> op = OWOP_ERROR")
    case True
    have "quiet s (snd (ow_abort s2))" "quiet s (s2\<lparr>wm_checks := (wm_checks s2)(c := None)\<rparr>)" using q2 by (auto intro: qt)
    then show ?thesis using True s'
      by (intro exI [of _ OWOP_NULL]
          exI [of _ "if op = OWOP_OK then snd (ow_abort s2) else s2\<lparr>wm_checks := (wm_checks s2)(c := None)\<rparr>"])
        (auto simp: owop_defs)
  next
    case False
    then have "quiet s (snd (owatchLocalOpHandler J op (Some MonCheckInfo) c s2))" by (intro quiet_local q2) simp_all
    then show ?thesis using False op s' by auto
  qed
  then show ?thesis using d by (auto simp: a_def)
qed

section \<open>The loop\<close>

definition waiting :: "'a watchmon_scheme \<Rightarrow> nat set" where
  "waiting s = {i. i < length (wm_mons s) \<and> to_check s i}"

text \<open>No record stands at two places.\<close>

definition one_place :: "'a watchmon_scheme \<Rightarrow> bool" where
  "one_place s \<longleftrightarrow> (\<forall>i j. i < j \<longrightarrow> j < length (wm_mons s) \<longrightarrow> wm_mons s ! i \<noteq> 0 \<longrightarrow> wm_mons s ! i \<noteq> wm_mons s ! j)"

lemma one_place_other: "one_place s \<Longrightarrow> i < length (wm_mons s) \<Longrightarrow> j < length (wm_mons s) \<Longrightarrow> i \<noteq> j \<Longrightarrow> wm_mons s ! i \<noteq> 0
    \<Longrightarrow> wm_mons s ! i \<noteq> wm_mons s ! j"
  unfolding one_place_def by (metis linorder_neqE_nat)

lemma start_check_waiting:
  assumes "nodone s" and "one_place s" and "j \<in> waiting s" and "start_check E J j s = (b, s')"
  shows "nodone s'" "one_place s'" "waiting s' = waiting s - {j}" "wm_secure_count s' = wm_secure_count s" "wm_hung s' = wm_hung s"
proof -
  obtain v where v: "v \<noteq> OWOP_SELF" "nodone s'" and m: "wm_mons s' = wm_mons s" "wm_secure_count s' = wm_secure_count s"
      "wm_hung s' = wm_hung s"
    and r: "wm_recs s' = (wm_recs s)(wm_mons s ! j := map_option (\<lambda>m. m\<lparr>wm_secure_op := v\<rparr>) (wm_recs s (wm_mons s ! j)))"
    using start_check_view [OF assms(1,4)] by (auto simp: monview_def)
  have j: "j < length (wm_mons s)" "to_check s j" using assms(3) by (simp_all add: waiting_def)
  have "to_check s' i = to_check s i" if "i < length (wm_mons s)" "i \<noteq> j" for i
    using one_place_other [OF assms(2) that(1) j(1) that(2)] by (auto simp: to_check_def m(1) wmon_def r)
  moreover have "\<not> to_check s' j"
    using v(1) by (auto simp: to_check_def m(1) wmon_def r zero_wmon_def OWOP_SELF_def split: option.splits)
  ultimately show "waiting s' = waiting s - {j}" by (auto simp: waiting_def m(1))
  show "one_place s'" using assms(2) by (simp add: one_place_def m(1))
qed (use start_check_view [OF assms(1,4)] in \<open>auto simp: monview_def\<close>)

lemma next_check_Some:
  assumes "waiting s \<subseteq> {i..}" and "waiting s \<noteq> {}"
  shows "\<exists>j. next_check s i = Some j \<and> j \<in> waiting s \<and> waiting s \<subseteq> {j..}"
proof -
  obtain k where k: "k \<in> waiting s" using assms(2) by blast
  then have "i \<le> k" "k < length (wm_mons s)" "to_check s k" using assms(1) by (auto simp: waiting_def)
  then have "next_check s i \<noteq> None" unfolding next_check_def find_None_iff by auto
  then obtain j where j: "find (to_check s) [i..<length (wm_mons s)] = Some j" by (auto simp: next_check_def)
  then obtain n where n: "n < length (wm_mons s) - i" "j = i + n" "to_check s j" "\<forall>m < n. \<not> to_check s (i + m)"
    by (auto simp: find_Some_iff)
  have "j \<le> x" if "x \<in> waiting s" for x
  proof (rule ccontr)
    assume "\<not> j \<le> x"
    moreover have "i \<le> x" "to_check s x" using that assms(1) by (auto simp: waiting_def)
    ultimately show False using n(2,4) by (auto dest: spec [of _ "x - i"])
  qed
  then show ?thesis using j n by (intro exI [of _ j]) (auto simp: next_check_def waiting_def)
qed

lemma secure_mons_ends:
  assumes "nodone s" and "one_place s" and "waiting s \<subseteq> {i..}" and "wm_secure_count s \<le> int (card (waiting s))" and "\<not> wm_hung s"
  shows "\<not> wm_hung (snd (secure_mons E J k i qty s))"
  using assms
proof (induction k arbitrary: i qty s)
  case (Suc k)
  show ?case
  proof (cases "owatchFreeOpCount s > 4 \<and> wm_secure_count s > 0")
    case False
    then show ?thesis using Suc.prems(5) by simp
  next
    case True
    then have "0 < card (waiting s)" using Suc.prems(4) by linarith
    then have ne: "waiting s \<noteq> {}" "finite (waiting s)" by (auto simp: card_gt_0_iff)
    obtain j where j: "next_check s i = Some j" "j \<in> waiting s" "waiting s \<subseteq> {j..}"
      using next_check_Some [OF Suc.prems(3) ne(1)] by blast
    obtain b s1 where s1: "start_check E J j s = (b, s1)" by (cases "start_check E J j s")
    note w = start_check_waiting [OF Suc.prems(1,2) j(2) s1]
    define s2 where "s2 = s1\<lparr>wm_secure_count := wm_secure_count s1 - 1\<rparr>"
    have same: "waiting s2 = waiting s1" "nodone s2 = nodone s1" "one_place s2 = one_place s1" "wm_hung s2 = wm_hung s1"
      by (simp_all add: s2_def waiting_def to_check_def wmon_def nodone_def the_ops_def one_place_def)
    have "card (waiting s2) = card (waiting s) - 1" using ne j(2) by (simp add: same w(3))
    then have c: "wm_secure_count s2 \<le> int (card (waiting s2))"
      using Suc.prems(4) w(4) \<open>0 < card (waiting s)\<close> by (simp add: s2_def)
    have "\<not> wm_hung (snd (secure_mons E J k j (if b then qty + 1 else qty) s2))"
      by (rule Suc.IH) (use w j(3) same c Suc.prems(5) in auto)
    then show ?thesis using True j(1) s1 by (simp add: s2_def)
  qed
qed simp


definition check_sample :: "bool \<Rightarrow> watchnet" where
  "check_sample still = wnet0\<lparr>p_state := ST_OPEN, ow_ops := Some (\<lambda>_. zero_op), ow_free_count := 8000, wm_secure_count := 1,
     wm_mons := [0, if still then 5 else 0], wm_recs := (if still then [5 \<mapsto> zero_wmon\<lparr>wm_no := 1, wm_registered := True, wm_secure_op := OWOP_SELF\<rparr>]
       else Map.empty)\<rparr>"


end
