(* ===== verification/IniText.thy ===== *)
theory IniText
  imports CText
begin

text \<open>
  The text level of the configuration parser (ini-parse.c, ini-util.c) and the string functions it
  uses (util-string.c). A source is a buffer and a pointer into it; the pointer is kept as the text
  from it up to the NUL that ends the buffer, so \<open>*s\<close> is the head of the text, and NUL is the empty
  text. Going past the NUL sets \<open>is_fault\<close>. Allocation, which this code does not check, succeeds,
  and the error messages are left out, but not the location they start with.
\<close>

section \<open>Sources\<close>

abbreviation (input) TAB :: byte where "TAB \<equiv> 9"
abbreviation (input) LF :: byte where "LF \<equiv> 10"
abbreviation (input) CR :: byte where "CR \<equiv> 13"
abbreviation (input) SPACE :: byte where "SPACE \<equiv> 32"
abbreviation (input) DQUOTE :: byte where "DQUOTE \<equiv> 34"
abbreviation (input) HASH :: byte where "HASH \<equiv> 35"
abbreviation (input) QUOTE :: byte where "QUOTE \<equiv> 39"
abbreviation (input) STAR :: byte where "STAR \<equiv> 42"
abbreviation (input) SLASH :: byte where "SLASH \<equiv> 47"
abbreviation (input) DIGIT0 :: byte where "DIGIT0 \<equiv> 48"
abbreviation (input) SEMICOLON :: byte where "SEMICOLON \<equiv> 59"
abbreviation (input) EQUALS :: byte where "EQUALS \<equiv> 61"
abbreviation (input) LBRACKET :: byte where "LBRACKET \<equiv> 91"
abbreviation (input) BACKSLASH :: byte where "BACKSLASH \<equiv> 92"
abbreviation (input) RBRACKET :: byte where "RBRACKET \<equiv> 93"
abbreviation (input) LBRACE :: byte where "LBRACE \<equiv> 123"
abbreviation (input) BAR :: byte where "BAR \<equiv> 124"
abbreviation (input) RBRACE :: byte where "RBRACE \<equiv> 125"

text \<open>\<open>ini_source_t\<close>; a chunk is a name with the offset where its text starts.\<close>

record inisrc =
  is_name :: bytes
  is_first_line :: int
  is_chunks :: "(bytes \<times> int) list"
  is_buffer :: bytes
  is_text :: bytes
  is_fault :: bool

definition IGNORE :: int where "IGNORE = - 32765"

definition is_blank :: "byte \<Rightarrow> bool" where "is_blank c \<longleftrightarrow> c = SPACE \<or> c = TAB"
definition is_eol :: "byte \<Rightarrow> bool" where "is_eol c \<longleftrightarrow> c = CR \<or> c = LF"

definition goto_text :: "bytes \<Rightarrow> inisrc \<Rightarrow> inisrc" where "goto_text t S = S\<lparr>is_text := t\<rparr>"
definition ini_fault :: "bool \<Rightarrow> inisrc \<Rightarrow> inisrc" where "ini_fault b S = S\<lparr>is_fault := is_fault S \<or> b\<rparr>"

definition src_offset :: "inisrc \<Rightarrow> int" where
  "src_offset S = int (length (is_buffer S)) - int (length (is_text S))"

text \<open>The chunk that holds the offset: the last one that starts at or before it.\<close>

definition find_chunk :: "inisrc \<Rightarrow> int \<Rightarrow> bytes \<times> int" where
  "find_chunk S offset = foldl (\<lambda>found (name, at). if offset \<ge> at then (name, at) else found) (is_name S, 0) (is_chunks S)"

text \<open>The line and column that \<open>_iniMessage\<close> prints.\<close>

fun count_chars :: "bytes \<Rightarrow> int \<Rightarrow> int \<Rightarrow> int \<times> int" where
  "count_chars [] line col = (line, col)"
| "count_chars (c # t) line col =
     (if c = CR then count_chars t line 1
      else if c = LF then count_chars t (line + 1) 1
      else if c = 8 then count_chars t line (if col = 1 then 1 else col - 1)
      else if c = TAB then count_chars t line (col + (8 - (col - 1) mod 8))
      else count_chars t line (col + 1))"

definition ini_location :: "inisrc \<Rightarrow> (bytes \<times> int \<times> int) option" where
  "ini_location S =
     (if is_name S = [] then None
      else
        let offset = src_offset S; (name, at) = find_chunk S offset;
            (line, col) = count_chars (take (nat (offset - at)) (drop (nat at) (is_buffer S))) (is_first_line S + 1) 1;
            ended = max at offset \<ge> int (length (is_buffer S))
        in Some (name, if ended \<and> line > 1 then line - 1 else line, col))"

section \<open>Blanks and comments\<close>

datatype comment_end = Closed | Unclosed | Broken

fun in_comment :: "bytes \<Rightarrow> comment_end \<times> bytes" where
  "in_comment [] = (Unclosed, [])"
| "in_comment (c # t) =
     (if c = STAR \<and> t \<noteq> [] \<and> hd t = SLASH then (Closed, tl t)
      else if is_eol c then (Broken, c # t)
      else in_comment t)"

lemma in_comment_shrinks: "in_comment s = (k, r) \<Longrightarrow> length r \<le> length s \<and> (k = Closed \<longrightarrow> length r < length s)"
  by (induction s) (auto split: if_splits)

definition opens_comment :: "bytes \<Rightarrow> bool" where
  "opens_comment s \<longleftrightarrow> length s > 1 \<and> s ! 0 = SLASH \<and> s ! 1 = STAR"

function skip_blanks :: "bytes \<Rightarrow> bool \<times> bytes" where
  "skip_blanks s0 =
     (let s = dropWhile is_blank s0 in
      if s = [] \<or> is_eol (hd s) then (True, s)
      else if hd s = SEMICOLON \<or> hd s = HASH then (True, dropWhile (\<lambda>c. \<not> is_eol c) s)
      else if \<not> opens_comment s then (True, s)
      else case in_comment s of
        (Closed, r) \<Rightarrow> skip_blanks r
      | (Unclosed, r) \<Rightarrow> (True, r)
      | (Broken, r) \<Rightarrow> (False, r))"
  by pat_completeness auto
termination
proof (relation "measure length", simp)
  fix s0 s x r
  assume "s = dropWhile is_blank s0" "(x, r) = in_comment s" "x = Closed"
  then show "(r, s0) \<in> measure length"
    using in_comment_shrinks [of s x r] length_dropWhile_le [of is_blank s0] by simp
qed

declare skip_blanks.simps [simp del]

text \<open>The result is OK (0) or -1.\<close>

definition iniSkipBlanks :: "inisrc \<Rightarrow> oret \<times> inisrc" where
  "iniSkipBlanks S = (case skip_blanks (is_text S) of (fine, t) \<Rightarrow> (if fine then OK else ERROR, goto_text t S))"

lemma skip_blanks_le: "skip_blanks s = (fine, r) \<Longrightarrow> length r \<le> length s"
proof (induction s arbitrary: r rule: skip_blanks.induct)
  case (1 s)
  define t where "t = dropWhile is_blank s"
  have le: "length t \<le> length s" by (simp add: t_def length_dropWhile_le)
  obtain k u where c: "in_comment t = (k, u)" by (cases "in_comment t")
  have u: "length u \<le> length s" using in_comment_shrinks [OF c] le by simp
  have d: "length (dropWhile (\<lambda>c. \<not> is_eol c) t) \<le> length s"
    using length_dropWhile_le [of "\<lambda>c. \<not> is_eol c" t] le by linarith
  have eq: "skip_blanks s =
     (if t = [] \<or> is_eol (hd t) then (True, t)
      else if hd t = SEMICOLON \<or> hd t = HASH then (True, dropWhile (\<lambda>c. \<not> is_eol c) t)
      else if \<not> opens_comment t then (True, t)
      else case k of Closed \<Rightarrow> skip_blanks u | Unclosed \<Rightarrow> (True, u) | Broken \<Rightarrow> (False, u))"
    unfolding skip_blanks.simps [of s] t_def [symmetric] Let_def c by (simp split: comment_end.split)
  consider "t = [] \<or> is_eol (hd t) \<or> hd t = SEMICOLON \<or> hd t = HASH \<or> \<not> opens_comment t \<or> k \<noteq> Closed"
    | "\<not> (t = [] \<or> is_eol (hd t))" "\<not> (hd t = SEMICOLON \<or> hd t = HASH)" "\<not> \<not> opens_comment t" "k = Closed"
    by blast
  then show ?case
  proof cases
    case 1
    then show ?thesis using "1.prems" le u d unfolding eq by (auto split: if_splits comment_end.splits)
  next
    case 2
    then have "skip_blanks u = (fine, r)" using "1.prems" unfolding eq by simp
    then have "length r \<le> length u" by (rule "1.IH" [OF t_def 2(1) 2(2) 2(3) c [symmetric] 2(4)])
    then show ?thesis using u by simp
  qed
qed

definition to_next_line :: "bytes \<Rightarrow> bytes" where
  "to_next_line s = drop 1 (dropWhile (\<lambda>c. \<not> is_eol c) s)"

function skip_until_eol :: "bytes \<Rightarrow> oret \<times> bytes" where
  "skip_until_eol s0 =
     (case skip_blanks s0 of (fine, s) \<Rightarrow>
        if \<not> fine then (ERROR, s)
        else if s = [] then (OK, s)
        else if is_eol (hd s) \<or> hd s = SEMICOLON \<or> hd s = HASH then (OK, to_next_line s)
        else if \<not> opens_comment s then (ERROR, to_next_line s)
        else case in_comment s of
          (Closed, r) \<Rightarrow> skip_until_eol r
        | (Unclosed, r) \<Rightarrow> (OK, r)
        | (Broken, r) \<Rightarrow> (ERROR, r))"
  by pat_completeness auto
termination
  by (relation "measure length") (auto dest!: in_comment_shrinks [OF sym] skip_blanks_le [OF sym])

declare skip_until_eol.simps [simp del]

definition iniSkipUntilEol :: "inisrc \<Rightarrow> oret \<times> inisrc" where
  "iniSkipUntilEol S = (case skip_until_eol (is_text S) of (rc, t) \<Rightarrow> (rc, goto_text t S))"

definition iniExpectStr :: "bytes \<Rightarrow> inisrc \<Rightarrow> bool \<times> inisrc" where
  "iniExpectStr w S =
     (case iniSkipBlanks S of (rc, S1) \<Rightarrow>
        if rc \<noteq> OK then (False, S1)
        else if map lower (take (length w) (is_text S1)) = map lower w then
          (True, goto_text (drop (length w) (is_text S1)) S1)
        else (False, S1))"

section \<open>Integers\<close>

text \<open>
  \<open>strtol\<close> and \<open>strtoul\<close> of the C library: the sign, the magnitude and the text behind the last digit;
  None when there is no digit.
\<close>

definition digit_in :: "nat \<Rightarrow> byte \<Rightarrow> bool" where
  "digit_in base c \<longleftrightarrow> is_hexdigit c \<and> digit_of c < base"

definition scan_base :: "nat \<Rightarrow> bytes \<Rightarrow> (bool \<times> nat \<times> bytes) option" where
  "scan_base base s =
     (let (neg, u) = take_sign (dropWhile c_isspace s);
          hex = (base = 0 \<or> base = 16) \<and> length u > 2 \<and> u ! 0 = DIGIT0 \<and> lower (u ! 1) = 120 \<and> is_hexdigit (u ! 2);
          b = (if hex then 16 else if base \<noteq> 0 then base else if u \<noteq> [] \<and> hd u = DIGIT0 then 8 else 10);
          v = (if hex then drop 2 u else u);
          ds = takeWhile (digit_in b) v
      in if ds = [] then None else Some (neg, base_value b (map digit_of ds), dropWhile (digit_in b) v))"

definition long_value :: "bool \<Rightarrow> nat \<Rightarrow> int" where
  "long_value neg n = (if neg then max (- 2147483648) (- int n) else min 2147483647 (int n))"

definition ulong_value :: "bool \<Rightarrow> nat \<Rightarrow> int" where
  "ulong_value neg n = (if int n > 4294967295 then 4294967295 else if neg then (- int n) mod 4294967296 else int n)"

definition starts_with :: "bytes \<Rightarrow> bytes \<Rightarrow> bool" where
  "starts_with w s \<longleftrightarrow> take (length w) s = w"

text \<open>Where the digits that count start: behind the sign and the prefix of the base.\<close>

definition digits_start :: "bytes \<Rightarrow> bytes" where
  "digits_start p =
     (let p1 = (if p \<noteq> [] \<and> (hd p = 45 \<or> hd p = 43) then tl p else p) in
      if starts_with [DIGIT0, 120] p1 \<or> starts_with [DIGIT0, 98] p1 then drop 2 p1
      else if starts_with [DIGIT0] p1 then tl p1 else p1)"

text \<open>The number itself: the value as \<open>long\<close>, the text where the digits start for the count, the text behind.\<close>

definition scan_number :: "bool \<Rightarrow> bytes \<Rightarrow> int option \<times> bytes \<times> bytes" where
  "scan_number unsign s =
     (let bin = starts_with [DIGIT0, 98] s; p = (if bin then drop 2 s else s); p2 = digits_start p
      in case scan_base (if bin then 2 else 0) p of
           None \<Rightarrow> (None, p2, p)
         | Some (neg, n, r) \<Rightarrow> (Some (if unsign \<and> \<not> bin then to_int32 (ulong_value neg n) else long_value neg n), p2, r))"

text \<open>The limits, which the code takes for \<open>unsigned\<close> numbers as \<open>unsigned long\<close>.\<close>

definition below_limit :: "bool \<Rightarrow> int \<Rightarrow> int \<Rightarrow> bool" where
  "below_limit unsign x limit \<longleftrightarrow> limit \<noteq> IGNORE \<and>
     (if unsign then x mod 4294967296 < limit mod 4294967296 else x < limit)"

definition above_limit :: "bool \<Rightarrow> int \<Rightarrow> int \<Rightarrow> bool" where
  "above_limit unsign x limit \<longleftrightarrow> limit \<noteq> IGNORE \<and>
     (if unsign then x mod 4294967296 > limit mod 4294967296 else x > limit)"

text \<open>The value, the error code and the source; every caller passes an error code.\<close>

definition iniReadInteger :: "int \<Rightarrow> int \<Rightarrow> int \<Rightarrow> bool \<Rightarrow> inisrc \<Rightarrow> int \<times> int \<times> inisrc" where
  "iniReadInteger max_digits lo_limit hi_limit unsign S =
     (case iniSkipBlanks S of (rc, S1) \<Rightarrow>
        if rc \<noteq> OK then (0, 1, S1)
        else case scan_number unsign (is_text S1) of
          (None, p, s) \<Rightarrow> (0, 1, goto_text s S1)
        | (Some x, p, s) \<Rightarrow>
            let digits = int (length p) - int (length s);
                e0 = (if max_digits \<noteq> IGNORE \<and> digits > max_digits then 1 else 0);
                lo = below_limit unsign x lo_limit; hi = above_limit unsign x hi_limit;
                x1 = (if lo then lo_limit else x);
                x2 = (if hi then hi_limit else x1)
            in (x2, e0 + (if lo then 1 else 0) + (if hi then 1 else 0), goto_text s S1))"

section \<open>Strings\<close>

text \<open>
  What a backslash stands for: the bytes it puts into the buffer, the text behind it, and whether it
  was the last byte of the buffer, so that the NUL is copied and passed. After \<open>x\<close> the conversion
  starts at the \<open>x\<close> itself and finds no digit.
\<close>

definition simple_escape :: "byte \<Rightarrow> byte option" where
  "simple_escape c =
     (if c = 116 then Some 9 else if c = 98 then Some 8 else if c = 110 then Some 10 else if c = 114 then Some 13
      else if c = QUOTE \<or> c = DQUOTE \<or> c = BACKSLASH then Some c else None)"

definition read_escape :: "bytes \<Rightarrow> bytes \<times> bytes \<times> bool" where
  "read_escape t =
     (if t = [] then ([BACKSLASH], [], True)
      else case simple_escape (hd t) of
        Some c \<Rightarrow> ([c], tl t, False)
      | None \<Rightarrow>
          if digit_in 8 (hd t) then
            (case scan_base 8 t of
               Some (neg, n, r) \<Rightarrow> ([word_of_int (ulong_value neg n)], r, False)
             | None \<Rightarrow> ([0], t, False))
          else if hd t = 120 then
            (case scan_base 16 t of
               Some (neg, n, r) \<Rightarrow> ([word_of_int (ulong_value neg n)], r, False)
             | None \<Rightarrow> ([0], t, False))
          else ([BACKSLASH, hd t], tl t, False))"

lemma scan_base_le: "scan_base b s = Some (neg, n, r) \<Longrightarrow> length r \<le> length s"
proof -
  have d: "length (dropWhile P u) \<le> length u" for P and u :: bytes by (rule length_dropWhile_le)
  have t: "length (snd (take_sign u)) \<le> length u" for u by (simp add: take_sign_def)
  assume "scan_base b s = Some (neg, n, r)"
  then obtain u v P where "(neg, u) = take_sign (dropWhile c_isspace s)" "v = u \<or> v = drop 2 u" "r = dropWhile P v"
    by (auto simp: scan_base_def Let_def split: prod.splits if_splits)
  moreover from this(1) have "length u \<le> length s"
    using t [of "dropWhile c_isspace s"] d [of c_isspace s] by (metis le_trans snd_conv)
  ultimately show ?thesis using d [of P v] by (metis diff_le_self le_trans length_drop)
qed

lemma read_escape_le: "read_escape t = (b, r, f) \<Longrightarrow> length r \<le> length t"
  by (auto simp: read_escape_def dest: scan_base_le split: option.splits if_splits)

text \<open>
  The loop over the characters: what it put into the buffer, the text where it stopped, and whether
  the NUL was passed. \<open>q\<close> is the quote character or 0.
\<close>

function read_chars :: "byte \<Rightarrow> bytes \<Rightarrow> nat \<Rightarrow> bytes \<Rightarrow> bytes \<Rightarrow> bytes \<times> bytes \<times> bool" where
  "read_chars q delim sz b [] = (b, [], False)"
| "read_chars q delim sz b (c # t) =
     (if is_eol c then (b, c # t, False)
      else if c = q then (b, t, False)
      else if q = 0 \<and> c \<in> set delim then (b, c # t, False)
      else
        let (add, r, bad) = (if c = BACKSLASH then read_escape t else ([c], t, False)); b1 = b @ add
        in if length b1 > sz then (b1, r, bad)
           else case read_chars q delim sz b1 r of (b2, r2, bad2) \<Rightarrow> (b2, r2, bad \<or> bad2))"
  by pat_completeness auto
termination
  by (relation "measure (\<lambda>(q, delim, sz, b, t). length t)")
    (auto split: if_splits dest!: read_escape_le [OF sym])

declare read_chars.simps [simp del]

definition blank_delims :: bytes where "blank_delims = [SPACE, TAB, CR, LF]"

text \<open>The string, or None for NULL; \<open>max_len\<close> bounds it, or 512.\<close>

definition iniReadStr :: "bool \<Rightarrow> bytes \<Rightarrow> int \<Rightarrow> inisrc \<Rightarrow> bytes option \<times> inisrc" where
  "iniReadStr skip_before delim max_len S =
     (case if skip_before then iniSkipBlanks S else (OK, S) of (rc, S1) \<Rightarrow>
        if rc \<noteq> OK then (None, S1)
        else
          let s = is_text S1; quoted = s \<noteq> [] \<and> (hd s = QUOTE \<or> hd s = DQUOTE);
              sz = (if max_len = IGNORE \<or> max_len \<le> 0 then 512 else nat max_len)
          in case read_chars (if quoted then hd s else 0) (blank_delims @ delim) sz [] (if quoted then tl s else s) of
               (b, r, bad) \<Rightarrow>
                 let str = cstr_at b 0 in
                 (if length str \<ge> sz then None else Some str, ini_fault bad (goto_text r S1)))"

section \<open>Masks and trimming\<close>

text \<open>\<open>strMask\<close>: the pattern \<open>r\<close> may hold stars; each piece between stars is looked for from the left.\<close>

fun find_piece :: "bytes \<Rightarrow> bytes \<Rightarrow> bytes option" where
  "find_piece w [] = None"
| "find_piece w (c # t) = (if starts_with w (c # t) then Some (c # t) else find_piece w t)"

lemma find_piece_le: "find_piece w s = Some t \<Longrightarrow> length t \<le> length s"
  by (induction s) (auto split: if_splits)

lemma after_star_shrinks:
  "STAR \<in> set r \<Longrightarrow> length (dropWhile (\<lambda>c. c = STAR) (dropWhile (\<lambda>c. c \<noteq> STAR) r)) < length r"
proof (induction r)
  case (Cons c t)
  show ?case
  proof (cases "c = STAR")
    case True
    then show ?thesis using length_dropWhile_le [of "\<lambda>c. c = STAR" t] by simp
  next
    case False
    then show ?thesis using Cons by simp
  qed
qed simp

function strMask :: "bytes \<Rightarrow> bytes \<Rightarrow> bool" where
  "strMask s r =
     (if r = [STAR] then True
      else if STAR \<notin> set r then r = s
      else
        let w = takeWhile (\<lambda>c. c \<noteq> STAR) r in
        if w \<noteq> [] \<and> \<not> starts_with w s then False
        else
          let r1 = dropWhile (\<lambda>c. c = STAR) (dropWhile (\<lambda>c. c \<noteq> STAR) r); s1 = drop (length w) s in
          if r1 = [] then True
          else
            let v = takeWhile (\<lambda>c. c \<noteq> STAR) r1 in
            case find_piece v s1 of
              None \<Rightarrow> False
            | Some s2 \<Rightarrow> strMask (drop (length v) s2) (drop (length v) r1))"
  by pat_completeness auto
termination
  by (relation "measure (\<lambda>(s, r). length r)") (auto intro: le_less_trans [OF _ after_star_shrinks])

declare strMask.simps [simp del]

definition trim_blank :: "byte \<Rightarrow> bool" where
  "trim_blank c \<longleftrightarrow> c = SPACE \<or> c = TAB \<or> c = LF \<or> c = CR"

definition strLeftTrim :: "bytes \<Rightarrow> bytes" where "strLeftTrim s = dropWhile trim_blank s"
definition strRightTrim :: "bytes \<Rightarrow> bytes" where "strRightTrim s = rev (dropWhile trim_blank (rev s))"

text \<open>
  \<open>strTrim\<close> moves the string to the front, but then goes on from the old place of its start, so what it
  takes for the end is the end of the string only when that place is not behind it.
\<close>

definition strTrim :: "bytes \<Rightarrow> bytes" where
  "strTrim s = (let u = strLeftTrim s in if length s - length u \<le> length u then strRightTrim u else u)"

definition iniRmSpaceTab :: "bytes \<Rightarrow> bytes" where "iniRmSpaceTab s = filter (\<lambda>c. \<not> is_blank c) s"
definition iniLowerStr :: "bytes \<Rightarrow> bytes" where "iniLowerStr s = map lower s"

section \<open>The text only gets shorter\<close>

named_theorems shrink \<open>an operation leaves at most the text it was given\<close>

definition ini_left :: "inisrc \<Rightarrow> nat" where "ini_left S = length (is_text S)"

lemma ini_left_simps [simp]:
  "ini_left (goto_text t S) = length t" "is_text (goto_text t S) = t"
  "ini_left (ini_fault b S) = ini_left S" "is_text (ini_fault b S) = is_text S"
  by (simp_all add: ini_left_def goto_text_def ini_fault_def)

lemma skip_until_eol_le: "skip_until_eol s = (rc, r) \<Longrightarrow> length r \<le> length s"
proof (induction s arbitrary: r rule: skip_until_eol.induct)
  case (1 s)
  obtain fine t where b: "skip_blanks s = (fine, t)" by (cases "skip_blanks s")
  obtain k u where c: "in_comment t = (k, u)" by (cases "in_comment t")
  have t: "length t \<le> length s" by (rule skip_blanks_le [OF b])
  have u: "length u \<le> length s" using in_comment_shrinks [OF c] t by simp
  have d: "length (to_next_line t) \<le> length s"
    using length_dropWhile_le [of "\<lambda>c. \<not> is_eol c" t] t by (simp add: to_next_line_def)
  have eq: "skip_until_eol s =
     (if \<not> fine then (ERROR, t) else if t = [] then (OK, t)
      else if is_eol (hd t) \<or> hd t = SEMICOLON \<or> hd t = HASH then (OK, to_next_line t)
      else if \<not> opens_comment t then (ERROR, to_next_line t)
      else case k of Closed \<Rightarrow> skip_until_eol u | Unclosed \<Rightarrow> (OK, u) | Broken \<Rightarrow> (ERROR, u))"
    unfolding skip_until_eol.simps [of s] b by (simp add: c split: comment_end.split)
  consider "\<not> fine \<or> t = [] \<or> is_eol (hd t) \<or> hd t = SEMICOLON \<or> hd t = HASH \<or> \<not> opens_comment t \<or> k \<noteq> Closed"
    | "\<not> \<not> fine" "t \<noteq> []" "\<not> (is_eol (hd t) \<or> hd t = SEMICOLON \<or> hd t = HASH)" "\<not> \<not> opens_comment t" "k = Closed"
    by blast
  then show ?case
  proof cases
    case 1
    then show ?thesis using "1.prems" t u d unfolding eq by (auto split: if_splits comment_end.splits)
  next
    case 2
    then have "skip_until_eol u = (rc, r)" using "1.prems" unfolding eq by simp
    then have "length r \<le> length u" by (rule "1.IH" [OF b [symmetric] 2(1-4) c [symmetric] 2(5)])
    then show ?thesis using u by simp
  qed
qed

lemma iniSkipBlanks_le [shrink]: "iniSkipBlanks S = (rc, S1) \<Longrightarrow> ini_left S1 \<le> ini_left S"
  by (auto simp: iniSkipBlanks_def ini_left_def dest: skip_blanks_le split: prod.splits)

lemma iniSkipUntilEol_le [shrink]: "iniSkipUntilEol S = (rc, S1) \<Longrightarrow> ini_left S1 \<le> ini_left S"
  by (auto simp: iniSkipUntilEol_def ini_left_def dest: skip_until_eol_le split: prod.splits)

lemma iniExpectStr_le [shrink]:
  "iniExpectStr w S = (yes, S1) \<Longrightarrow> ini_left S1 \<le> ini_left S \<and> (yes \<longrightarrow> w \<noteq> [] \<longrightarrow> ini_left S1 < ini_left S)"
proof -
  assume e: "iniExpectStr w S = (yes, S1)"
  obtain rc T where b: "iniSkipBlanks S = (rc, T)" by (cases "iniSkipBlanks S")
  note le = iniSkipBlanks_le [OF b]
  have "length w \<le> length (is_text T)" if "map lower (take (length w) (is_text T)) = map lower w"
    using arg_cong [OF that, of length] by simp
  then show ?thesis using e le unfolding iniExpectStr_def b
    by (cases w) (auto simp: ini_left_def split: if_splits)
qed

lemma scan_number_le: "scan_number u s = (x, p, r) \<Longrightarrow> length r \<le> length s"
  by (auto simp: scan_number_def Let_def dest!: scan_base_le split: option.splits prod.splits if_splits)

lemma iniReadInteger_le [shrink]: "iniReadInteger m lo hi u S = (x, err, S1) \<Longrightarrow> ini_left S1 \<le> ini_left S"
  by (auto simp: iniReadInteger_def Let_def ini_left_def split: option.splits prod.splits if_splits
      dest!: iniSkipBlanks_le scan_number_le)

lemma read_chars_le: "read_chars q ds n b s = (b1, r, bad) \<Longrightarrow> length r \<le> length s"
proof (induction q ds n b s arbitrary: b1 r bad rule: read_chars.induct)
  case (2 q ds n b c t)
  obtain add u g where a: "(if c = BACKSLASH then read_escape t else ([c], t, False)) = (add, u, g)"
    by (cases "if c = BACKSLASH then read_escape t else ([c], t, False)")
  have u: "length u \<le> length t" using a by (auto split: if_splits dest: read_escape_le)
  obtain b2 r2 g2 where r: "read_chars q ds n (b @ add) u = (b2, r2, g2)" by (cases "read_chars q ds n (b @ add) u")
  have eq: "read_chars q ds n b (c # t) =
     (if is_eol c then (b, c # t, False) else if c = q then (b, t, False)
      else if q = 0 \<and> c \<in> set ds then (b, c # t, False)
      else if length (b @ add) > n then (b @ add, u, g) else (b2, r2, g \<or> g2))"
    unfolding read_chars.simps a Let_def by (simp add: r)
  consider "is_eol c \<or> c = q \<or> q = 0 \<and> c \<in> set ds \<or> length (b @ add) > n"
    | "\<not> is_eol c" "c \<noteq> q" "\<not> (q = 0 \<and> c \<in> set ds)" "\<not> length (b @ add) > n" by blast
  then show ?case
  proof cases
    case 1
    then show ?thesis using "2.prems" u unfolding eq by (auto split: if_splits)
  next
    case 2
    have "r = r2" using "2.prems" 2 unfolding eq by simp
    moreover have "length r2 \<le> length u"
      by (rule "2.IH" [OF 2(1-3) refl a [symmetric] refl refl 2(4) r])
    ultimately show ?thesis using u by simp
  qed
qed (simp add: read_chars.simps)

lemma iniReadStr_le [shrink]: "iniReadStr skip ds n S = (x, S1) \<Longrightarrow> ini_left S1 \<le> ini_left S"
proof -
  assume e: "iniReadStr skip ds n S = (x, S1)"
  obtain rc T where b: "(if skip then iniSkipBlanks S else (OK, S)) = (rc, T)"
    by (cases "if skip then iniSkipBlanks S else (OK, S)")
  have le: "ini_left T \<le> ini_left S" using b by (auto split: if_splits dest: iniSkipBlanks_le)
  have "length (tl (is_text T)) \<le> ini_left T" by (simp add: ini_left_def)
  then show ?thesis using e le unfolding iniReadStr_def b
    by (auto simp: Let_def ini_left_def dest!: read_chars_le split: if_splits prod.splits)
qed

end
