(* ===== verification/IniField.thy ===== *)
theory IniField
  imports IniText
begin

text \<open>
  Field descriptions of the configuration parser (ini-field.c) and reading a field by its
  description (end of ini-parse.c). The type of a field is the constructor of its description. The chain
  of words the parser tries is a list, in its order; None is the jump to the label \<open>END\<close>.
\<close>

section \<open>Descriptions\<close>

record string_desc =
  sd_max_len :: int
  sd_def :: "bytes option"

record integer_desc =
  id_max_digits :: int
  id_lo_limit :: int
  id_hi_limit :: int
  id_def_val :: int
  id_out_base :: int
  id_unsign :: bool

record enum_slot =
  es_str :: bytes
  es_chars_to_cmp :: int
  es_ignore_case :: bool
  es_value :: int

record enum_desc =
  ed_enums :: "enum_slot list"
  ed_shorting :: bool
  ed_ignore_case :: bool
  ed_def_val :: int
  ed_out_base :: int
  ed_max_len :: int

datatype field_desc = FpdNone | FpdString string_desc | FpdInteger integer_desc | FpdEnum enum_desc

record ini_field =
  fd_name :: bytes
  fd_section :: bytes
  fd_not_null :: bool
  fd_desc :: field_desc

definition no_field :: ini_field where
  "no_field = \<lparr>fd_name = [], fd_section = [], fd_not_null = False, fd_desc = FpdNone\<rparr>"

definition new_string :: string_desc where "new_string = \<lparr>sd_max_len = IGNORE, sd_def = None\<rparr>"

definition new_integer :: integer_desc where
  "new_integer = \<lparr>id_max_digits = IGNORE, id_lo_limit = IGNORE, id_hi_limit = IGNORE, id_def_val = 0,
     id_out_base = 10, id_unsign = False\<rparr>"

definition new_enum :: enum_desc where
  "new_enum = \<lparr>ed_enums = [], ed_shorting = False, ed_ignore_case = True, ed_def_val = -1, ed_out_base = 10,
     ed_max_len = 1\<rparr>"

definition bool_slot :: "string \<Rightarrow> int \<Rightarrow> int \<Rightarrow> enum_slot" where
  "bool_slot w n x = \<lparr>es_str = bstr w, es_chars_to_cmp = n, es_ignore_case = True, es_value = x\<rparr>"

definition new_bool :: enum_desc where
  "new_bool = \<lparr>ed_enums = [bool_slot ''true'' 1 1, bool_slot ''yes'' 1 1, bool_slot ''on'' 2 1, bool_slot ''1'' 1 1,
       bool_slot ''false'' 1 0, bool_slot ''no'' 1 0, bool_slot ''off'' 2 0, bool_slot ''0'' 1 0],
     ed_shorting = True, ed_ignore_case = True, ed_def_val = 0, ed_out_base = 10, ed_max_len = 5\<rparr>"

section \<open>Attributes\<close>

datatype attr = A_paren | A_bracket | A_not_null | A_section | A_default | A_signed bool | A_base int
  | A_short bool | A_case bool

datatype attr_kind = K_string | K_integer | K_enum

definition attr_words :: "attr_kind \<Rightarrow> (bytes \<times> attr) list" where
  "attr_words k = (case k of
     K_string \<Rightarrow> [(bstr ''('', A_paren), (bstr ''!0'', A_not_null), (bstr ''section'', A_section), (bstr ''default'', A_default)]
   | K_integer \<Rightarrow> [(bstr ''('', A_paren), (bstr ''['', A_bracket), (bstr ''!0'', A_not_null), (bstr ''signed'', A_signed False),
       (bstr ''unsigned'', A_signed True), (bstr ''hex'', A_base 16), (bstr ''decimal'', A_base 10),
       (bstr ''binary'', A_base 2), (bstr ''octal'', A_base 8), (bstr ''section'', A_section), (bstr ''default'', A_default)]
   | K_enum \<Rightarrow> [(bstr ''short'', A_short True), (bstr ''full'', A_short False), (bstr ''case'', A_case True),
       (bstr ''nocase'', A_case False), (bstr ''!0'', A_not_null), (bstr ''hex'', A_base 16), (bstr ''decimal'', A_base 10),
       (bstr ''binary'', A_base 2), (bstr ''octal'', A_base 8), (bstr ''default'', A_default), (bstr ''section'', A_section)])"

fun try_words :: "(bytes \<times> 'a) list \<Rightarrow> inisrc \<Rightarrow> 'a option \<times> inisrc" where
  "try_words [] S = (None, S)"
| "try_words ((w, a) # ws) S = (case iniExpectStr w S of (yes, S1) \<Rightarrow> if yes then (Some a, S1) else try_words ws S1)"

text \<open>A number and the word that must follow it.\<close>

definition int_then :: "int \<Rightarrow> int \<Rightarrow> int \<Rightarrow> bool \<Rightarrow> bytes \<Rightarrow> inisrc \<Rightarrow> int option \<times> inisrc" where
  "int_then max_digits lo hi unsign w S =
     (case iniReadInteger max_digits lo hi unsign S of (x, err, S1) \<Rightarrow>
        if err \<noteq> 0 then (None, S1)
        else if w = [] then (Some x, S1)
        else case iniExpectStr w S1 of (yes, S2) \<Rightarrow> (if yes then Some x else None, S2))"

definition after_equals :: "(inisrc \<Rightarrow> 'a option \<times> inisrc) \<Rightarrow> inisrc \<Rightarrow> 'a option \<times> inisrc" where
  "after_equals f S = (case iniExpectStr [EQUALS] S of (yes, S1) \<Rightarrow> if yes then f S1 else (None, S1))"

text \<open>\<open>[lo : hi]\<close> or \<open>[lo .. hi]\<close>.\<close>

definition int_limits :: "inisrc \<Rightarrow> (int \<times> int) option \<times> inisrc" where
  "int_limits S =
     (case int_then 10 IGNORE IGNORE False [] S of
        (None, S1) \<Rightarrow> (None, S1)
      | (Some lo, S1) \<Rightarrow>
          case try_words [(bstr '':'', ()), (bstr ''..'', ())] S1 of
            (None, S2) \<Rightarrow> (None, S2)
          | (Some _, S2) \<Rightarrow>
              case int_then 10 IGNORE IGNORE False [RBRACKET] S2 of
                (None, S3) \<Rightarrow> (None, S3)
              | (Some hi, S3) \<Rightarrow> (Some (lo, hi), S3))"

definition with_desc :: "field_desc \<Rightarrow> ini_field \<Rightarrow> ini_field" where "with_desc d F = F\<lparr>fd_desc := d\<rparr>"

definition string_attr :: "attr \<Rightarrow> string_desc \<Rightarrow> inisrc \<Rightarrow> string_desc option \<times> inisrc" where
  "string_attr a d S = (case a of
     A_paren \<Rightarrow> (case int_then 4 1 256 False (bstr '')'') S of (x, S1) \<Rightarrow> (map_option (\<lambda>n. d\<lparr>sd_max_len := n\<rparr>) x, S1))
   | A_default \<Rightarrow> (case after_equals (iniReadStr True [] 64) S of (x, S1) \<Rightarrow> (map_option (\<lambda>s. d\<lparr>sd_def := Some s\<rparr>) x, S1))
   | _ \<Rightarrow> (Some d, S))"

definition integer_attr :: "attr \<Rightarrow> integer_desc \<Rightarrow> inisrc \<Rightarrow> integer_desc option \<times> inisrc" where
  "integer_attr a d S = (case a of
     A_paren \<Rightarrow> (case int_then 3 1 10 False (bstr '')'') S of (x, S1) \<Rightarrow> (map_option (\<lambda>n. d\<lparr>id_max_digits := n\<rparr>) x, S1))
   | A_bracket \<Rightarrow> (case int_limits S of (x, S1) \<Rightarrow>
       (map_option (\<lambda>(lo, hi). d\<lparr>id_lo_limit := lo, id_hi_limit := hi\<rparr>) x, S1))
   | A_signed u \<Rightarrow> (Some (d\<lparr>id_unsign := u\<rparr>), S)
   | A_base b \<Rightarrow> (Some (d\<lparr>id_out_base := b\<rparr>), S)
   | A_default \<Rightarrow> (case after_equals (int_then IGNORE IGNORE IGNORE (id_unsign d) []) S of (x, S1) \<Rightarrow>
       (map_option (\<lambda>n. d\<lparr>id_def_val := n\<rparr>) x, S1))
   | _ \<Rightarrow> (Some d, S))"

text \<open>
  \<open>octal\<close> of an enumeration assigns to the member \<open>out_base\<close> of the integer description, which in the
  union lies where the enumeration has its default value.
\<close>

definition enum_attr :: "attr \<Rightarrow> enum_desc \<Rightarrow> inisrc \<Rightarrow> enum_desc option \<times> inisrc" where
  "enum_attr a d S = (case a of
     A_short b \<Rightarrow> (Some (d\<lparr>ed_shorting := b\<rparr>), S)
   | A_case b \<Rightarrow> (Some (d\<lparr>ed_ignore_case := b\<rparr>), S)
   | A_base b \<Rightarrow> (Some (if b = 8 then d\<lparr>ed_def_val := 8\<rparr> else d\<lparr>ed_out_base := b\<rparr>), S)
   | A_default \<Rightarrow> (case after_equals (int_then IGNORE IGNORE IGNORE False []) S of (x, S1) \<Rightarrow>
       (map_option (\<lambda>n. d\<lparr>ed_def_val := n\<rparr>) x, S1))
   | _ \<Rightarrow> (Some d, S))"

definition take_attr :: "attr \<Rightarrow> ini_field \<Rightarrow> inisrc \<Rightarrow> ini_field option \<times> inisrc" where
  "take_attr a F S =
     (if a = A_not_null then (Some (F\<lparr>fd_not_null := True\<rparr>), S)
      else if a = A_section then
        (case after_equals (iniReadStr True [] 64) S of (x, S1) \<Rightarrow> (map_option (\<lambda>s. F\<lparr>fd_section := s\<rparr>) x, S1))
      else case fd_desc F of
        FpdNone \<Rightarrow> (None, S)
      | FpdString d \<Rightarrow> (case string_attr a d S of (x, S1) \<Rightarrow> (map_option (\<lambda>e. with_desc (FpdString e) F) x, S1))
      | FpdInteger d \<Rightarrow> (case integer_attr a d S of (x, S1) \<Rightarrow> (map_option (\<lambda>e. with_desc (FpdInteger e) F) x, S1))
      | FpdEnum d \<Rightarrow> (case enum_attr a d S of (x, S1) \<Rightarrow> (map_option (\<lambda>e. with_desc (FpdEnum e) F) x, S1)))"

lemma try_words_le [shrink]:
  "try_words ws S = (x, S1) \<Longrightarrow> [] \<notin> fst ` set ws \<Longrightarrow> ini_left S1 \<le> ini_left S \<and> (x \<noteq> None \<longrightarrow> ini_left S1 < ini_left S)"
proof (induction ws S rule: try_words.induct)
  case (2 w a ws S)
  obtain yes T where e: "iniExpectStr w S = (yes, T)" by (cases "iniExpectStr w S")
  note le = iniExpectStr_le [OF e]
  show ?case
  proof (cases yes)
    case True
    then show ?thesis using 2(2,3) le by (auto simp: e)
  next
    case False
    then have "ini_left S1 \<le> ini_left T \<and> (x \<noteq> None \<longrightarrow> ini_left S1 < ini_left T)"
      using 2(2,3) by (intro 2(1) [OF e [symmetric]]) (auto simp: e)
    then show ?thesis using le by auto
  qed
qed simp

lemma attr_words_nonempty: "[] \<notin> fst ` set (attr_words k)"
  by (cases k) (simp_all add: attr_words_def bstr_def)

lemma attr_words_not_nil [simp]: "([], b) \<notin> set (attr_words k)"
  using attr_words_nonempty [of k] by force

lemma int_then_le [shrink]: "int_then m lo hi u w S = (x, S1) \<Longrightarrow> ini_left S1 \<le> ini_left S"
  unfolding int_then_def by (auto split: prod.splits if_splits dest!: iniReadInteger_le iniExpectStr_le)

lemma after_equals_le [shrink]:
  assumes "\<And>T y T1. f T = (y, T1) \<Longrightarrow> ini_left T1 \<le> ini_left T" and "after_equals f S = (x, S1)"
  shows "ini_left S1 \<le> ini_left S"
  using assms(2) unfolding after_equals_def
  by (auto split: prod.splits if_splits dest!: assms(1) iniExpectStr_le)

lemma int_limits_le [shrink]: "int_limits S = (x, S1) \<Longrightarrow> ini_left S1 \<le> ini_left S"
  unfolding int_limits_def
  by (auto split: prod.splits option.splits if_splits dest!: int_then_le try_words_le simp: bstr_def simp del: try_words.simps)

lemma string_attr_le [shrink]: "string_attr a d S = (x, S1) \<Longrightarrow> ini_left S1 \<le> ini_left S"
  unfolding string_attr_def
  by (auto split: attr.splits prod.splits dest!: int_then_le after_equals_le [rotated] iniReadStr_le)

lemma integer_attr_le [shrink]: "integer_attr a d S = (x, S1) \<Longrightarrow> ini_left S1 \<le> ini_left S"
  unfolding integer_attr_def
  by (auto split: attr.splits prod.splits dest!: int_then_le int_limits_le after_equals_le [rotated])

lemma enum_attr_le [shrink]: "enum_attr a d S = (x, S1) \<Longrightarrow> ini_left S1 \<le> ini_left S"
  unfolding enum_attr_def
  by (auto split: attr.splits prod.splits dest!: int_then_le after_equals_le [rotated])

lemma take_attr_le [shrink]: "take_attr a F S = (x, S1) \<Longrightarrow> ini_left S1 \<le> ini_left S"
  unfolding take_attr_def
  by (auto split: field_desc.splits prod.splits if_splits
      dest!: string_attr_le integer_attr_le enum_attr_le after_equals_le [rotated] iniReadStr_le)

function take_attrs :: "attr_kind \<Rightarrow> ini_field \<Rightarrow> inisrc \<Rightarrow> ini_field option \<times> inisrc" where
  "take_attrs k F S =
     (case try_words (attr_words k) S of
        (None, S1) \<Rightarrow> (Some F, S1)
      | (Some a, S1) \<Rightarrow>
          case take_attr a F S1 of
            (None, S2) \<Rightarrow> (None, S2)
          | (Some F1, S2) \<Rightarrow> take_attrs k F1 S2)"
  by pat_completeness auto
termination
  by (relation "measure (\<lambda>(k, F, S). ini_left S)")
    (auto dest!: take_attr_le [OF sym] try_words_le [OF sym] simp: attr_words_nonempty)

declare take_attrs.simps [simp del]

section \<open>Checks of an integer\<close>

text \<open>The largest value of \<open>max_digits\<close> digits, as an \<open>int\<close>.\<close>

definition digits_limit :: "int \<Rightarrow> int" where
  "digits_limit n = to_int32 (10 ^ nat n)"

definition integer_ok :: "integer_desc \<Rightarrow> bool" where
  "integer_ok d \<longleftrightarrow>
     (id_max_digits d \<noteq> IGNORE \<longrightarrow> 1 \<le> id_max_digits d \<and> id_max_digits d \<le> 10) \<and>
     id_lo_limit d \<le> id_hi_limit d \<and>
     (id_max_digits d \<noteq> IGNORE \<longrightarrow>
        (let hi = digits_limit (id_max_digits d); lo = to_int32 (- hi) in
         (id_lo_limit d \<noteq> IGNORE \<longrightarrow> lo \<le> id_lo_limit d) \<and> (id_hi_limit d \<noteq> IGNORE \<longrightarrow> id_hi_limit d \<le> hi)))"

section \<open>Enumerations\<close>

definition OSLOT_SIZE :: nat where "OSLOT_SIZE = 32"
definition MAX_ENUMS :: nat where "MAX_ENUMS = 20"

text \<open>
  The slots between the braces. A name of 32 bytes or more spills into the rest of its slot, and the
  slot after the last of the array is written before the array grows: both are faults.
\<close>

function enum_slots :: "enum_slot list \<Rightarrow> inisrc \<Rightarrow> enum_slot list option \<times> inisrc" where
  "enum_slots acc S =
     (case iniReadStr True [TAB, SPACE, EQUALS, SEMICOLON, SLASH] 64 S of
        (None, S1) \<Rightarrow> (None, ini_fault (length acc \<ge> MAX_ENUMS) S1)
      | (Some name, S1) \<Rightarrow>
          let S2 = ini_fault (length acc \<ge> MAX_ENUMS \<or> length name \<ge> OSLOT_SIZE) S1 in
          case iniExpectStr [EQUALS] S2 of (yes, S3) \<Rightarrow>
            if \<not> yes then (Some acc, S3)
            else case int_then 5 IGNORE IGNORE False [] S3 of
              (None, S4) \<Rightarrow> (None, S4)
            | (Some x, S4) \<Rightarrow>
                let acc1 = acc @ [\<lparr>es_str = name, es_chars_to_cmp = IGNORE, es_ignore_case = False, es_value = x\<rparr>]
                in case iniExpectStr (bstr '','') S4 of (again, S5) \<Rightarrow>
                     if again then enum_slots acc1 S5 else (Some acc1, S5))"
  by pat_completeness auto
termination
  by (relation "measure (\<lambda>(acc, S). ini_left S)")
    (auto dest!: iniReadStr_le [OF sym] iniExpectStr_le [OF sym] int_then_le [OF sym] simp: bstr_def)

declare enum_slots.simps [simp del]

fun common_prefix :: "bytes \<Rightarrow> bytes \<Rightarrow> nat" where
  "common_prefix (x # xs) (y # ys) = (if x = y then Suc (common_prefix xs ys) else 0)"
| "common_prefix _ _ = 0"

text \<open>The characters that tell slot \<open>i\<close> from the others.\<close>

definition chars_needed :: "bytes list \<Rightarrow> nat \<Rightarrow> nat" where
  "chars_needed names i =
     foldl (\<lambda>q j. if j = i then q else max q (common_prefix (names ! i) (names ! j) + 1)) 1 [0..<length names]"

definition shorten_slots :: "enum_slot list \<Rightarrow> enum_slot list option" where
  "shorten_slots es =
     (let names = map es_str es in
      if list_ex (\<lambda>i. chars_needed names i > length (names ! i)) [0..<length es] then None
      else Some (map (\<lambda>i. (es ! i)\<lparr>es_chars_to_cmp := int (chars_needed names i)\<rparr>) [0..<length es]))"

definition finish_enum :: "enum_desc \<Rightarrow> enum_slot list \<Rightarrow> enum_desc option" where
  "finish_enum d es =
     (if es = [] then None
      else
        let n = foldl (\<lambda>m e. max m (int (length (es_str e)))) (ed_max_len d) es;
            es1 = (if ed_ignore_case d then map (\<lambda>e. e\<lparr>es_str := iniLowerStr (es_str e), es_ignore_case := True\<rparr>) es else es)
        in case if ed_shorting d then shorten_slots es1 else Some es1 of
             None \<Rightarrow> None
           | Some es2 \<Rightarrow> Some (d\<lparr>ed_enums := es2, ed_max_len := n\<rparr>))"

section \<open>The description of a field\<close>

text \<open>The kind of attributes, the initial description, and whether slots in braces follow.\<close>

definition field_type :: "bytes \<Rightarrow> (attr_kind \<times> field_desc \<times> bool) option" where
  "field_type w =
     (if w = bstr ''string'' then Some (K_string, FpdString new_string, False)
      else if w = bstr ''integer'' then Some (K_integer, FpdInteger new_integer, False)
      else if w = bstr ''enum'' then Some (K_enum, FpdEnum new_enum, True)
      else if w = bstr ''bool'' then Some (K_enum, FpdEnum new_bool, False)
      else None)"

definition enum_body :: "ini_field \<Rightarrow> inisrc \<Rightarrow> ini_field option \<times> inisrc" where
  "enum_body F S =
     (case iniExpectStr [LBRACE] S of (yes, S1) \<Rightarrow>
        if \<not> yes then (None, S1)
        else case enum_slots [] S1 of
          (None, S2) \<Rightarrow> (None, S2)
        | (Some es, S2) \<Rightarrow>
            case iniExpectStr [RBRACE] S2 of (closed, S3) \<Rightarrow>
              if \<not> closed then (None, S3)
              else (case fd_desc F of
                      FpdEnum d \<Rightarrow> map_option (\<lambda>e. with_desc (FpdEnum e) F) (finish_enum d es)
                    | _ \<Rightarrow> Some F, S3))"

definition desc_ok :: "field_desc \<Rightarrow> bool" where
  "desc_ok d = (case d of FpdInteger i \<Rightarrow> integer_ok i | _ \<Rightarrow> True)"

text \<open>The description, or None for the label \<open>END\<close>.\<close>

definition parse_desc :: "bytes \<Rightarrow> bytes \<Rightarrow> inisrc \<Rightarrow> ini_field option \<times> inisrc" where
  "parse_desc name w S =
     (case field_type (iniLowerStr w) of
        None \<Rightarrow> (None, S)
      | Some (k, d, braces) \<Rightarrow>
          case take_attrs k (no_field\<lparr>fd_name := name, fd_desc := d\<rparr>) S of
            (None, S1) \<Rightarrow> (None, S1)
          | (Some F, S1) \<Rightarrow>
              if \<not> desc_ok (fd_desc F) then (None, S1)
              else case if braces then enum_body F S1 else (Some F, S1) of
                (None, S2) \<Rightarrow> (None, S2)
              | (Some F1, S2) \<Rightarrow>
                  case iniSkipUntilEol S2 of (rc, S3) \<Rightarrow> (if rc = OK then Some F1 else None, S3))"

text \<open>OK and the description, or -1 and a description that is all zero.\<close>

definition iniParseFieldDesc :: "inisrc \<Rightarrow> oret \<times> ini_field \<times> inisrc" where
  "iniParseFieldDesc S =
     (case iniReadStr True [TAB, SPACE, EQUALS, SEMICOLON, SLASH] 64 S of
        (None, S1) \<Rightarrow> (ERROR, no_field, S1)
      | (Some name, S1) \<Rightarrow>
          if name = [] then (ERROR, no_field, S1)
          else case after_equals (iniReadStr True [TAB, SPACE, 40, LBRACKET, LBRACE, SEMICOLON, SLASH] 64) S1 of
            (None, S2) \<Rightarrow> (ERROR, no_field, S2)
          | (Some w, S2) \<Rightarrow>
              case parse_desc name w S2 of
                (None, S3) \<Rightarrow> (ERROR, no_field, S3)
              | (Some F, S3) \<Rightarrow> (OK, F, S3))"

lemma take_attrs_le [shrink]: "take_attrs k F S = (x, S1) \<Longrightarrow> ini_left S1 \<le> ini_left S"
proof (induction k F S arbitrary: x S1 rule: take_attrs.induct)
  case (1 k F S)
  obtain w T where w: "try_words (attr_words k) S = (w, T)" by (cases "try_words (attr_words k) S")
  have T: "ini_left T \<le> ini_left S" using try_words_le [OF w attr_words_nonempty] by simp
  show ?case
  proof (cases w)
    case None
    then show ?thesis using "1.prems" T by (simp add: take_attrs.simps [of k F S] w)
  next
    case (Some a)
    obtain y U where y: "take_attr a F T = (y, U)" by (cases "take_attr a F T")
    have U: "ini_left U \<le> ini_left T" by (rule take_attr_le [OF y])
    show ?thesis
    proof (cases y)
      case None
      then show ?thesis using "1.prems" T U Some by (simp add: take_attrs.simps [of k F S] w y)
    next
      case (Some G)
      have "take_attrs k G U = (x, S1)"
        using "1.prems" \<open>w = Some a\<close> Some by (simp add: take_attrs.simps [of k F S] w y)
      then have "ini_left S1 \<le> ini_left U"
        by (rule "1.IH" [OF w [symmetric] \<open>w = Some a\<close> y [symmetric] Some])
      then show ?thesis using T U by simp
    qed
  qed
qed

lemma enum_slots_le [shrink]: "enum_slots acc S = (x, S1) \<Longrightarrow> ini_left S1 \<le> ini_left S"
proof (induction "ini_left S" arbitrary: acc S rule: less_induct)
  case less
  have step: "enum_slots a T = (x, S1) \<Longrightarrow> ini_left T < ini_left S \<Longrightarrow> ini_left S1 \<le> ini_left S" for a T
    using less(1) [of T a] by simp
  show ?case using less(2) unfolding enum_slots.simps [of acc S]
    by (auto split: prod.splits option.splits if_splits simp: Let_def bstr_def
        dest!: iniReadStr_le iniExpectStr_le int_then_le intro: step)
qed

lemma enum_body_le [shrink]: "enum_body F S = (x, S1) \<Longrightarrow> ini_left S1 \<le> ini_left S"
  unfolding enum_body_def
  by (auto split: prod.splits option.splits if_splits field_desc.splits dest!: iniExpectStr_le enum_slots_le)

lemma parse_desc_le [shrink]: "parse_desc name w S = (x, S1) \<Longrightarrow> ini_left S1 \<le> ini_left S"
  unfolding parse_desc_def
  by (auto split: prod.splits option.splits if_splits dest!: take_attrs_le enum_body_le iniSkipUntilEol_le)

lemma iniParseFieldDesc_le [shrink]:
  "iniParseFieldDesc S = (rc, F, S1) \<Longrightarrow> ini_left S1 \<le> ini_left S \<and> (rc = OK \<longrightarrow> ini_left S1 < ini_left S)"
  unfolding iniParseFieldDesc_def after_equals_def
  by (auto split: prod.splits option.splits if_splits dest!: parse_desc_le iniReadStr_le iniExpectStr_le)

section \<open>Reading a field\<close>

text \<open>A value; NULL is the number 0.\<close>

datatype inival = IvInt int | IvStr bytes

definition iniDefaultValue :: "ini_field \<Rightarrow> inival \<Rightarrow> int \<times> inival" where
  "iniDefaultValue F v =
     (let rc = (if fd_not_null F then 2 else 0) in
      case fd_desc F of
        FpdString d \<Rightarrow> (rc, IvStr (case sd_def d of None \<Rightarrow> [] | Some s \<Rightarrow> s))
      | FpdInteger d \<Rightarrow> (rc, IvInt (id_def_val d))
      | FpdEnum d \<Rightarrow> (rc, IvInt (ed_def_val d))
      | FpdNone \<Rightarrow> (ERROR, v))"

definition slot_matches :: "bytes \<Rightarrow> enum_slot \<Rightarrow> bool" where
  "slot_matches str e \<longleftrightarrow>
     (if es_chars_to_cmp e = IGNORE then str = es_str e
      else take (nat (es_chars_to_cmp e)) str = take (nat (es_chars_to_cmp e)) (es_str e))"

text \<open>
  The error code and the value. When the string of an enumeration is too long, its buffer is not written
  and what is compared is not defined.
\<close>

definition iniReadField :: "ini_field \<Rightarrow> bytes \<Rightarrow> inival \<Rightarrow> inisrc \<Rightarrow> int \<times> inival \<times> inisrc" where
  "iniReadField F delim v S =
     (case fd_desc F of
        FpdString d \<Rightarrow>
          (case iniReadStr False delim (sd_max_len d) S of (x, S1) \<Rightarrow>
             (0, (case x of Some s \<Rightarrow> IvStr s | None \<Rightarrow> snd (iniDefaultValue F v)), S1))
      | FpdInteger d \<Rightarrow>
          (case iniReadInteger (id_max_digits d) (id_lo_limit d) (id_hi_limit d) (id_unsign d) S of (x, err, S1) \<Rightarrow>
             (err, (if err \<noteq> 0 then snd (iniDefaultValue F v) else IvInt x), S1))
      | FpdEnum d \<Rightarrow>
          (case iniReadStr False delim 64 S of (x, S1) \<Rightarrow>
             let str0 = (case x of Some s \<Rightarrow> s | None \<Rightarrow> []); S2 = ini_fault (x = None) S1;
                 str = (if ed_ignore_case d then iniLowerStr str0 else str0) in
             case find (slot_matches str) (ed_enums d) of
               Some e \<Rightarrow> (0, IvInt (es_value e), S2)
             | None \<Rightarrow> (-1, snd (iniDefaultValue F v), S2))
      | FpdNone \<Rightarrow> (-1, v, S))"

lemma iniReadField_le [shrink]: "iniReadField F delim v S = (rc, x, S1) \<Longrightarrow> ini_left S1 \<le> ini_left S"
  unfolding iniReadField_def
  by (auto split: prod.splits option.splits if_splits field_desc.splits simp: Let_def dest!: iniReadStr_le iniReadInteger_le)

end
