(* ===== verification/IniTable.thy ===== *)
theory IniTable
  imports IniField
begin

text \<open>
  Sections and entries (ini-source.c, ini-param.c), the databases with their cache (ini-api.c) and the tables
  (ini-table.c) of the configuration parser.
\<close>

section \<open>Sections and entries\<close>

text \<open>The characters \<open>ISNAME\<close>. \<open>strchr\<close> finds the NUL as well, which is the end of the text here.\<close>

definition name_char :: "byte \<Rightarrow> bool" where
  "name_char c \<longleftrightarrow> c \<in> set (bstr ''_+-*/:@$%^&()'') \<or> is_digit c \<or> 97 \<le> uint c \<and> uint c \<le> 122 \<or> 65 \<le> uint c \<and> uint c \<le> 90"

text \<open>The text behind the next bracket that opens a line.\<close>

definition line_start :: "bytes \<Rightarrow> bytes" where
  "line_start s = dropWhile is_blank (dropWhile is_eol s)"

lemma line_start_le: "length (line_start s) \<le> length s"
  unfolding line_start_def
  using length_dropWhile_le [of is_blank "dropWhile is_eol s"] length_dropWhile_le [of is_eol s] by linarith

lemma line_start_less: "s \<noteq> [] \<Longrightarrow> is_eol (hd s) \<Longrightarrow> length (line_start s) < length s"
  using line_start_le [of "tl s"] by (cases s) (auto simp: line_start_def)

function find_bracket :: "bool \<Rightarrow> bytes \<Rightarrow> bytes option" where
  "find_bracket first s =
     (if s = [] then None
      else if \<not> (is_eol (hd s) \<or> first) then find_bracket False (tl s)
      else let t = line_start s in
        if t = [] then None
        else if hd t = LBRACKET then Some (tl t)
        else find_bracket False t)"
  by pat_completeness auto
termination
  by (relation "measure (\<lambda>(first, s). 2 * length s + (if first then 1 else 0))")
    (auto dest: line_start_less simp: less_Suc_eq_le line_start_le)

declare find_bracket.simps [simp del]

text \<open>A section is over where a line that follows one with text starts with a bracket.\<close>

function section_rest :: "bytes \<Rightarrow> bytes" where
  "section_rest s =
     (if s = [] then []
      else if \<not> is_eol (hd s) then section_rest (tl s)
      else let t = line_start s in
        if t = [] then []
        else if hd t = LBRACKET then t
        else section_rest (tl t))"
  by pat_completeness auto
termination
  by (relation "measure length") (auto dest: line_start_less)

declare section_rest.simps [simp del]

text \<open>
  The length of the section, negative when there is none; the text is then where the search stopped.
  A header that ends at the NUL leaves the pointer one behind it (length -1).
\<close>

definition skip_header :: "bytes \<Rightarrow> int \<times> bytes" where
  "skip_header s =
     (let t = dropWhile (\<lambda>c. \<not> is_eol c) s in
      if t = [] then (-1, []) else (int (length (tl t)) - int (length (section_rest (tl t))), tl t))"

lemma find_bracket_eqs:
  "find_bracket first [] = None"
  "\<not> (is_eol c \<or> first) \<Longrightarrow> find_bracket first (c # u) = find_bracket False u"
  "is_eol c \<or> first \<Longrightarrow> find_bracket first (c # u) =
     (case line_start (c # u) of [] \<Rightarrow> None | d # t \<Rightarrow> if d = LBRACKET then Some t else find_bracket False (d # t))"
  by (subst find_bracket.simps; simp add: Let_def split: list.split)+

lemma find_bracket_less: "find_bracket first s = Some t \<Longrightarrow> length t < length s"
proof (induction first s rule: find_bracket.induct)
  case (1 first s)
  show ?case
  proof (cases s)
    case Nil
    then show ?thesis using 1(3) by (simp add: find_bracket_eqs)
  next
    case (Cons c u)
    show ?thesis
    proof (cases "is_eol c \<or> first")
      case True
      then show ?thesis using 1(2,3) line_start_le [of s] Cons
        by (cases "line_start s") (auto simp: find_bracket_eqs split: if_splits)
    next
      case False
      then show ?thesis using 1(1,3) Cons by (auto simp: find_bracket_eqs)
    qed
  qed
qed

function locate_section :: "bytes option \<Rightarrow> bool \<Rightarrow> bytes \<Rightarrow> int \<times> bytes" where
  "locate_section wanted first s =
     (case find_bracket first s of
        None \<Rightarrow> (-1, [])
      | Some t \<Rightarrow>
          let name = takeWhile name_char (take 126 t); r = drop (length name) t in
          if length name = 126 then (-5, r)
          else if r = [] then (-3, [])
          else if hd r \<noteq> RBRACKET then (-4, tl r)
          else if length name > 120 then (-5, tl r)
          else if (case wanted of None \<Rightarrow> True | Some w \<Rightarrow> strMask w name) then skip_header (tl r)
          else locate_section wanted False (tl r))"
  by pat_completeness auto
termination
proof (relation "measure (\<lambda>(w, f, s). length s)", simp)
  fix wanted first s t name r
  assume "find_bracket first s = Some t" "r = drop (length name) t" "r \<noteq> []"
  then show "((wanted, False, tl r), (wanted, first, s)) \<in> measure (\<lambda>(w, f, s). length s)"
    using find_bracket_less [of first s t] by simp
qed

declare locate_section.simps [simp del]

definition iniLocateSection :: "bytes option \<Rightarrow> inisrc \<Rightarrow> int \<times> inisrc" where
  "iniLocateSection wanted S = (case locate_section wanted True (is_text S) of (n, t) \<Rightarrow> (n, goto_text t S))"

text \<open>
  The start of the next line with an entry. Blank lines, comments and table rows are passed; any other
  character is reported, and passed, too: after a line of blanks that character is the end of the line.
\<close>

datatype line_found = NoLine bytes | Line bytes

function entry_line :: "bool \<Rightarrow> bytes \<Rightarrow> line_found" where
  "entry_line first s =
     (if s = [] then NoLine []
      else if \<not> (is_eol (hd s) \<or> first) then entry_line False (tl s)
      else let t = line_start s in
        if t = [] then Line []
        else if hd t = LBRACKET then NoLine t
        else if name_char (hd t) then Line t
        else entry_line False (tl t))"
  by pat_completeness auto
termination
proof (relation "measure (\<lambda>(first, s). length s)", simp, simp)
  fix first s t
  assume "s \<noteq> []" "t = line_start s" "t \<noteq> []"
  then have "length (tl t) < length s" using line_start_le [of s] by (cases s) auto
  then show "((False, tl t), (first, s)) \<in> measure (\<lambda>(first, s). length s)" by simp
qed

declare entry_line.simps [simp del]

lemma entry_line_eqs:
  "entry_line first [] = NoLine []"
  "\<not> (is_eol c \<or> first) \<Longrightarrow> entry_line first (c # u) = entry_line False u"
  "is_eol c \<or> first \<Longrightarrow> entry_line first (c # u) =
     (case line_start (c # u) of
        [] \<Rightarrow> Line []
      | d # t \<Rightarrow> if d = LBRACKET then NoLine (d # t) else if name_char d then Line (d # t) else entry_line False t)"
  by (subst entry_line.simps; simp add: Let_def split: list.split)+

definition line_text :: "line_found \<Rightarrow> bytes" where
  "line_text x = (case x of NoLine t \<Rightarrow> t | Line t \<Rightarrow> t)"

lemma entry_line_le: "length (line_text (entry_line first s)) \<le> length s"
proof (induction first s rule: entry_line.induct)
  case (1 first s)
  show ?case
  proof (cases s)
    case Nil
    then show ?thesis by (simp add: entry_line_eqs line_text_def)
  next
    case (Cons c u)
    show ?thesis
    proof (cases "is_eol c \<or> first")
      case True
      then show ?thesis using 1(2) line_start_le [of s] Cons
        by (cases "line_start s") (auto simp: entry_line_eqs line_text_def split: if_splits)
    next
      case False
      then show ?thesis using 1(1) Cons by (auto simp: entry_line_eqs)
    qed
  qed
qed

text \<open>
  The entry: the length of its text, negative when there is none. \<open>bad\<close> tells that the search went on behind
  the NUL, when the text ends in a line without a value: the characters around the equals sign are consumed
  without a look at them.
\<close>

function locate_entry :: "bytes \<Rightarrow> bool \<Rightarrow> bool \<Rightarrow> bytes \<Rightarrow> int \<times> bytes \<times> bool" where
  "locate_entry entry with_name first s =
     (case entry_line first s of
        NoLine t \<Rightarrow> (-1, t, False)
      | Line t \<Rightarrow>
          let name = takeWhile name_char (take 126 t); r = drop (length name) t in
          if length name < 126 \<and> r = [] then (-3, [], False)
          else if length name > 120 then (-5, r, False)
          else
            let u = dropWhile is_blank r in
            if u = [] then (-4, [], True)
            else if hd u \<noteq> EQUALS then (-4, tl u, False)
            else if strMask entry name then
              let v = dropWhile is_blank (tl u); start = (if with_name then t else v)
              in (int (length start) - int (length (to_next_line v)), start, False)
            else if tl u = [] then (-1, [], True)
            else locate_entry entry with_name False (tl (tl u)))"
  by pat_completeness auto
termination
proof (relation "measure (\<lambda>(e, w, f, s). length s)", simp)
  fix entry with_name first s t name r u
  assume "entry_line first s = Line t" "r = drop (length name) t" "u = dropWhile is_blank r" "u \<noteq> []"
  moreover have "length t \<le> length s" using entry_line_le [of first s] calculation(1) by (simp add: line_text_def)
  moreover have "length (dropWhile is_blank r) \<le> length r" by (rule length_dropWhile_le)
  ultimately have "length u \<le> length s" "u \<noteq> []" by simp_all
  then have "length (tl (tl u)) < length s" by (cases u) auto
  then show "((entry, with_name, False, tl (tl u)), (entry, with_name, first, s)) \<in> measure (\<lambda>(e, w, f, s). length s)"
    by simp
qed

declare locate_entry.simps [simp del]

lemma locate_entry_le: "locate_entry e w f s = (n, t, bad) \<Longrightarrow> length t \<le> length s"
proof (induction e w f s arbitrary: n t bad rule: locate_entry.induct)
  case (1 e w f s)
  show ?case
  proof (cases "entry_line f s")
    case (NoLine x)
    then show ?thesis using "1.prems" entry_line_le [of f s] by (simp add: locate_entry.simps [of e w f s] line_text_def)
  next
    case (Line x)
    have x: "length x \<le> length s" using entry_line_le [of f s] Line by (simp add: line_text_def)
    define name where "name = takeWhile name_char (take 126 x)"
    define r where "r = drop (length name) x"
    define u where "u = dropWhile is_blank r"
    have "length u \<le> length r" by (simp add: u_def length_dropWhile_le)
    then have u: "length r \<le> length s" "length u \<le> length s" "length (dropWhile is_blank (tl u)) \<le> length s"
      using x length_dropWhile_le [of is_blank "tl u"] by (simp_all add: r_def)
    note eq = locate_entry.simps [of e w f s, unfolded Line line_found.case, folded name_def, folded r_def, folded u_def]
    show ?thesis
    proof (cases "length name > 120 \<or> (length name < 126 \<and> r = []) \<or> u = [] \<or> hd u \<noteq> EQUALS \<or> strMask e name \<or> tl u = []")
      case True
      then show ?thesis using "1.prems" x u unfolding eq Let_def r_def [symmetric] u_def [symmetric] name_def [symmetric] by (auto split: if_splits)
    next
      case False
      then have "locate_entry e w False (tl (tl u)) = (n, t, bad)" using "1.prems"
        unfolding eq Let_def name_def [symmetric] r_def [symmetric] u_def [symmetric] by auto
      moreover have "length (tl (tl u)) \<le> length s" using u(2) by simp
      ultimately show ?thesis
        using "1.IH" [OF Line name_def r_def _ _ u_def, of n t bad] False by auto
    qed
  qed
qed

definition iniLocateEntry :: "bytes \<Rightarrow> bool \<Rightarrow> inisrc \<Rightarrow> int \<times> inisrc" where
  "iniLocateEntry entry with_name S =
     (case locate_entry entry with_name True (is_text S) of (n, t, bad) \<Rightarrow> (n, ini_fault bad (goto_text t S)))"

lemma section_rest_eqs:
  "section_rest [] = []"
  "\<not> is_eol c \<Longrightarrow> section_rest (c # u) = section_rest u"
  "is_eol c \<Longrightarrow> section_rest (c # u) =
     (case line_start (c # u) of [] \<Rightarrow> [] | d # t \<Rightarrow> if d = LBRACKET then d # t else section_rest t)"
  by (subst section_rest.simps; simp add: Let_def split: list.split)+

lemma section_rest_le: "length (section_rest s) \<le> length s"
proof (induction s rule: section_rest.induct)
  case (1 s)
  show ?case
  proof (cases s)
    case (Cons c u)
    show ?thesis
    proof (cases "is_eol c")
      case True
      then show ?thesis using 1(2) line_start_le [of s] Cons
        by (cases "line_start s") (auto simp: section_rest_eqs)
    next
      case False
      then show ?thesis using 1(1) Cons by (auto simp: section_rest_eqs)
    qed
  qed (simp add: section_rest_eqs)
qed

lemma skip_header_le: "skip_header s = (n, t) \<Longrightarrow> length t \<le> length s"
  using length_dropWhile_le [of "\<lambda>c. \<not> is_eol c" s] by (auto simp: skip_header_def Let_def split: if_splits)

lemma locate_section_le:
  "locate_section w f s = (n, t) \<Longrightarrow> length t \<le> length s \<and> (n > 0 \<longrightarrow> length t < length s)"
proof (induction w f s arbitrary: n t rule: locate_section.induct)
  case (1 w f s)
  show ?case
  proof (cases "find_bracket f s")
    case None
    then show ?thesis using "1.prems" by (simp add: locate_section.simps [of w f s])
  next
    case (Some x)
    define name where "name = takeWhile name_char (take 126 x)"
    define r where "r = drop (length name) x"
    have x: "length x < length s" by (rule find_bracket_less [OF Some])
    then have r: "length r < length s" "length (tl r) < length s" by (simp_all add: r_def)
    have h: "length u \<le> length (tl r)" if "skip_header (tl r) = (k, u)" for k u by (rule skip_header_le [OF that])
    note eq = locate_section.simps [of w f s, unfolded Some option.case Let_def, folded name_def, folded r_def]
    show ?thesis
    proof (cases "locate_section w False (tl r) = (n, t) \<and> r \<noteq> [] \<and> length name \<noteq> 126 \<and> \<not> hd r \<noteq> RBRACKET \<and>
        \<not> length name > 120 \<and> \<not> (case w of None \<Rightarrow> True | Some m \<Rightarrow> strMask m name)")
      case True
      then have "length t \<le> length (tl r)"
        using "1.IH" [OF Some name_def r_def] by blast
      then show ?thesis using r by simp
    next
      case False
      then show ?thesis using "1.prems" r h unfolding eq name_def [symmetric] r_def [symmetric]
        by (auto split: if_splits dest!: h)
    qed
  qed
qed

lemma iniLocateSection_le [shrink]:
  "iniLocateSection w S = (n, S1) \<Longrightarrow> ini_left S1 \<le> ini_left S \<and> (n > 0 \<longrightarrow> ini_left S1 < ini_left S)"
  by (auto simp: iniLocateSection_def ini_left_def dest: locate_section_le split: prod.splits)

lemma iniLocateEntry_le [shrink]: "iniLocateEntry e w S = (n, S1) \<Longrightarrow> ini_left S1 \<le> ini_left S"
  by (auto simp: iniLocateEntry_def ini_left_def dest: locate_entry_le split: prod.splits)

function get_entry :: "bytes \<Rightarrow> bytes \<Rightarrow> bool \<Rightarrow> inisrc \<Rightarrow> int \<times> inisrc" where
  "get_entry sect entry with_name S =
     (case iniLocateSection (Some sect) S of (found, S1) \<Rightarrow>
        if found \<le> 0 then (-1, S1)
        else case iniLocateEntry entry with_name S1 of (n, S2) \<Rightarrow>
          if n \<ge> 0 then (n, S2) else get_entry sect entry with_name S2)"
  by pat_completeness auto
termination
  by (relation "measure (\<lambda>(sect, e, w, S). ini_left S)")
    (auto dest!: iniLocateSection_le [OF sym] iniLocateEntry_le [OF sym])

declare get_entry.simps [simp del]

definition rewind :: "inisrc \<Rightarrow> inisrc" where "rewind S = goto_text (is_buffer S) S"

definition iniGetEntry :: "bytes \<Rightarrow> bytes \<Rightarrow> bool \<Rightarrow> inisrc \<Rightarrow> int \<times> inisrc" where
  "iniGetEntry sect entry with_name S = get_entry sect entry with_name (rewind S)"

section \<open>Tables\<close>

text \<open>
  A fetch is a table that was asked for; after its last row was fetched it is cleared except for its counts.
  \<open>fe_row\<close> is only meaningful after a row was read without an error.
\<close>

record inifetch =
  fe_name :: bytes
  fe_cols :: "ini_field list"
  fe_col_qty :: int
  fe_row_qty :: int
  fe_cur_row :: int
  fe_row :: "inival list"
  fe_source :: inisrc

record inidb =
  db_source :: inisrc
  db_fetches :: "inifetch list"

definition no_source :: inisrc where
  "no_source = \<lparr>is_name = [], is_first_line = 0, is_chunks = [], is_buffer = [], is_text = [], is_fault = False\<rparr>"

definition no_fetch :: inifetch where
  "no_fetch = \<lparr>fe_name = [], fe_cols = [], fe_col_qty = 0, fe_row_qty = 0, fe_cur_row = 0, fe_row = [], fe_source = no_source\<rparr>"

definition iniCleanFetch :: "inifetch \<Rightarrow> inifetch" where
  "iniCleanFetch F = F\<lparr>fe_row := map (\<lambda>_. IvInt 0) (fe_row F)\<rparr>"

function iniSkipMultilineBlanks :: "inisrc \<Rightarrow> oret \<times> inisrc" where
  "iniSkipMultilineBlanks S =
     (case iniSkipBlanks S of (rc, S1) \<Rightarrow>
        if rc \<noteq> OK \<or> is_text S1 = [] \<or> hd (is_text S1) = LBRACKET then (rc, S1)
        else if is_eol (hd (is_text S1)) then iniSkipMultilineBlanks (goto_text (tl (is_text S1)) S1)
        else (rc, S1))"
  by pat_completeness auto
termination
proof (relation "measure ini_left", goal_cases)
  case (2 S rc S1)
  then have "ini_left S1 \<le> ini_left S" "is_text S1 \<noteq> []" using iniSkipBlanks_le [of S rc S1] by simp_all
  then have "ini_left (goto_text (tl (is_text S1)) S1) < ini_left S" by (cases "is_text S1") (simp_all add: ini_left_def)
  then show ?case by simp
qed simp

declare iniSkipMultilineBlanks.simps [simp del]

lemma iniSkipMultilineBlanks_le [shrink]: "iniSkipMultilineBlanks S = (rc, S1) \<Longrightarrow> ini_left S1 \<le> ini_left S"
proof (induction "ini_left S" arbitrary: S rule: less_induct)
  case less
  obtain k T where b: "iniSkipBlanks S = (k, T)" by (cases "iniSkipBlanks S")
  have le: "ini_left T \<le> ini_left S" by (rule iniSkipBlanks_le [OF b])
  show ?case
  proof (cases "k \<noteq> OK \<or> is_text T = [] \<or> hd (is_text T) = LBRACKET \<or> \<not> is_eol (hd (is_text T))")
    case True
    then show ?thesis using less(2) le by (auto simp: iniSkipMultilineBlanks.simps [of S] b split: if_splits)
  next
    case False
    then have "iniSkipMultilineBlanks (goto_text (tl (is_text T)) T) = (rc, S1)"
      using less(2) by (simp add: iniSkipMultilineBlanks.simps [of S] b)
    moreover have "ini_left (goto_text (tl (is_text T)) T) < ini_left S"
      using False le by (cases "is_text T") (auto simp: ini_left_def)
    ultimately show ?thesis using less(1) by fastforce
  qed
qed

text \<open>The cells of a row; None for an error.\<close>

fun read_cells :: "ini_field list \<Rightarrow> inival list \<Rightarrow> inisrc \<Rightarrow> inival list option \<times> inisrc" where
  "read_cells [] vals S = (Some vals, S)"
| "read_cells (F # Fs) vals S =
     (case iniExpectStr (if Fs = [] then [RBRACE] else [BAR]) S of (empty_cell, S1) \<Rightarrow>
        if empty_cell then
          (case iniDefaultValue F (IvInt 0) of (rc, v) \<Rightarrow>
             if rc = 0 then read_cells Fs (vals @ [v]) S1 else (None, S1))
        else case iniReadField F (if Fs = [] then [BAR, RBRACE] else [BAR]) (IvInt 0) S1 of (rc, v, S2) \<Rightarrow>
          if rc \<noteq> 0 then (None, S2)
          else case try_words (if Fs = [] then [([BAR], ()), ([RBRACE], ())] else [([BAR], ())]) S2 of
            (None, S3) \<Rightarrow> (None, S3)
          | (Some _, S3) \<Rightarrow> read_cells Fs (vals @ [v]) S3)"

text \<open>The number of columns, 0 at the end, or -1.\<close>

definition iniGetRowInternal :: "inifetch \<Rightarrow> int \<times> inifetch" where
  "iniGetRowInternal F0 =
     (if fe_col_qty F0 = 0 \<or> fe_cols F0 = [] then (0, F0)
      else
        let F = iniCleanFetch F0 in
        if fe_row_qty F \<noteq> IGNORE \<and> fe_cur_row F = fe_row_qty F then (0, F)
        else case iniSkipMultilineBlanks (fe_source F) of (rc, S1) \<Rightarrow>
          if rc \<noteq> OK then (ERROR, F\<lparr>fe_source := S1\<rparr>)
          else if is_text S1 = [] \<or> hd (is_text S1) = LBRACKET then
            (if fe_row_qty F = IGNORE then 0 else ERROR, F\<lparr>fe_source := S1\<rparr>)
          else case try_words [([BAR], ()), ([LBRACE], ())] S1 of
            (None, S2) \<Rightarrow> (ERROR, F\<lparr>fe_source := S2\<rparr>)
          | (Some _, S2) \<Rightarrow>
              case read_cells (fe_cols F) [] S2 of
                (None, S3) \<Rightarrow> (ERROR, F\<lparr>fe_source := S3\<rparr>)
              | (Some vals, S3) \<Rightarrow>
                  case iniSkipUntilEol S3 of (rc4, S4) \<Rightarrow>
                    if rc4 \<noteq> OK then (ERROR, F\<lparr>fe_source := S4\<rparr>)
                    else (fe_col_qty F, F\<lparr>fe_source := S4, fe_row := vals, fe_cur_row := fe_cur_row F + 1\<rparr>))"

lemma read_cells_le: "read_cells Fs vals S = (x, S1) \<Longrightarrow> ini_left S1 \<le> ini_left S"
proof (induction Fs vals S arbitrary: x S1 rule: read_cells.induct)
  case (2 F Fs vals S)
  obtain e T where e: "iniExpectStr (if Fs = [] then [RBRACE] else [BAR]) S = (e, T)"
    by (cases "iniExpectStr (if Fs = [] then [RBRACE] else [BAR]) S")
  have T: "ini_left T \<le> ini_left S" using iniExpectStr_le [OF e] by simp
  obtain rc v U where r: "iniReadField F (if Fs = [] then [BAR, RBRACE] else [BAR]) (IvInt 0) T = (rc, v, U)"
    by (cases "iniReadField F (if Fs = [] then [BAR, RBRACE] else [BAR]) (IvInt 0) T")
  have U: "ini_left U \<le> ini_left T" by (rule iniReadField_le [OF r])
  obtain y V where w: "try_words (if Fs = [] then [([BAR], ()), ([RBRACE], ())] else [([BAR], ())]) U = (y, V)"
    by (cases "try_words (if Fs = [] then [([BAR], ()), ([RBRACE], ())] else [([BAR], ())]) U")
  have V: "ini_left V \<le> ini_left U" using try_words_le [OF w] by (simp split: if_splits)
  obtain rd d where d: "iniDefaultValue F (IvInt 0) = (rd, d)" by (cases "iniDefaultValue F (IvInt 0)")
  have ih1: "e \<Longrightarrow> rd = 0 \<Longrightarrow> read_cells Fs (vals @ [d]) T = (x, S1) \<Longrightarrow> ini_left S1 \<le> ini_left T"
    by (rule "2.IH"(1) [OF e [symmetric] _ d [symmetric]]) auto
  have ih2: "\<not> e \<Longrightarrow> rc = 0 \<Longrightarrow> y = Some () \<Longrightarrow> read_cells Fs (vals @ [v]) V = (x, S1) \<Longrightarrow> ini_left S1 \<le> ini_left V"
    by (rule "2.IH"(2) [OF e [symmetric] _ r [symmetric] refl _ w [symmetric]]) auto
  show ?case using "2.prems" T U V ih1 ih2 by (auto simp: e r w d split: if_splits option.splits simp del: try_words.simps)
qed simp

definition fe_left :: "inifetch \<Rightarrow> nat" where "fe_left F = ini_left (fe_source F)"

lemma get_row_le:
  assumes "iniGetRowInternal F = (rc, F1)"
  shows "fe_left F1 \<le> fe_left F \<and> (rc > 0 \<longrightarrow> fe_left F1 < fe_left F)"
  using assms unfolding iniGetRowInternal_def fe_left_def iniCleanFetch_def
  by (auto simp: Let_def split: if_splits prod.splits option.splits simp del: try_words.simps
      dest!: iniSkipMultilineBlanks_le try_words_le read_cells_le iniSkipUntilEol_le)

text \<open>All rows are read once to count them.\<close>

function count_rows :: "inifetch \<Rightarrow> int \<times> inifetch" where
  "count_rows F = (case iniGetRowInternal F of (rc, F1) \<Rightarrow> if rc > 0 then count_rows F1 else (rc, F1))"
  by pat_completeness auto
termination
  by (relation "measure fe_left") (auto dest!: get_row_le [OF sym])

declare count_rows.simps [simp del]

definition MAX_TABLE_FIELDS :: nat where "MAX_TABLE_FIELDS = 40"

text \<open>The columns of a description: at most \<open>n\<close> more.\<close>

fun read_columns :: "nat \<Rightarrow> ini_field list \<Rightarrow> inisrc \<Rightarrow> oret \<times> ini_field list \<times> inisrc" where
  "read_columns 0 cols S = (OK, cols, S)"
| "read_columns (Suc n) cols S =
     (case iniSkipMultilineBlanks S of (rc, S1) \<Rightarrow>
        if rc \<noteq> OK \<or> is_text S1 = [] \<or> hd (is_text S1) = LBRACKET then (rc, cols, S1)
        else case iniParseFieldDesc S1 of (rc1, F, S2) \<Rightarrow>
          if rc1 \<noteq> OK then (rc1, cols, S2) else read_columns n (cols @ [F]) S2)"

definition table_columns :: "bytes \<Rightarrow> inisrc \<Rightarrow> ini_field list option \<times> inisrc" where
  "table_columns table S =
     (case iniLocateSection (Some (table @ bstr '':describe'')) (rewind (ini_fault (length table \<ge> 119) S)) of (len, S1) \<Rightarrow>
        if len \<le> 0 then (None, S1)
        else case read_columns MAX_TABLE_FIELDS [] S1 of (rc, cols, S2) \<Rightarrow>
          (if length cols \<ge> MAX_TABLE_FIELDS \<or> rc \<noteq> OK \<or> cols = [] \<or> \<not> distinct (map fd_name cols) then None
           else Some cols, S2))"

definition count_byte :: "byte \<Rightarrow> bytes \<Rightarrow> nat" where "count_byte c s = length (filter (\<lambda>d. d = c) s)"

text \<open>The source of a table: the text of its section, with the name of the chunk it is in and its first line.\<close>

definition table_source :: "inisrc \<Rightarrow> int \<Rightarrow> inisrc" where
  "table_source S len =
     (let (name, at) = find_chunk S (src_offset S); text = take (nat len) (is_text S) in
      \<lparr>is_name = name,
       is_first_line = is_first_line S + int (count_byte LF (take (nat (src_offset S - at)) (drop (nat at) (is_buffer S)))),
       is_chunks = [], is_buffer = text, is_text = text, is_fault = False\<rparr>)"

definition set_source :: "inisrc \<Rightarrow> inidb \<Rightarrow> inidb" where "set_source S db = db\<lparr>db_source := S\<rparr>"

text \<open>The number of the request, from 1, or 0.\<close>

definition iniAskRow :: "bytes \<Rightarrow> inidb \<Rightarrow> int \<times> inidb" where
  "iniAskRow table db =
     (case table_columns table (db_source db) of
        (None, S1) \<Rightarrow> (0, set_source S1 db)
      | (Some cols, S1) \<Rightarrow>
          case iniLocateSection (Some table) (rewind (ini_fault (length table \<ge> 64) S1)) of (len, S2) \<Rightarrow>
            if len \<le> 0 then (0, set_source S2 db)
            else case count_rows
                \<lparr>fe_name = table, fe_cols = cols, fe_col_qty = int (length cols), fe_row_qty = IGNORE, fe_cur_row = 0,
                 fe_row = map (\<lambda>_. IvInt 0) cols, fe_source = table_source S2 len\<rparr> of (rc, F) \<Rightarrow>
              let S3 = ini_fault (is_fault (fe_source F)) S2 in
              if rc < 0 then (0, set_source S3 db)
              else (int (length (db_fetches db)) + 1,
                db\<lparr>db_source := S3,
                   db_fetches := db_fetches db @ [F\<lparr>fe_row_qty := fe_cur_row F, fe_cur_row := 0, fe_source := rewind (fe_source F)\<rparr>]\<rparr>))"

text \<open>Whether there was a row, and what is stored through the pointers the caller passed.\<close>

definition iniGetRow :: "int \<Rightarrow> inidb \<Rightarrow> bool \<times> inival list \<times> inidb" where
  "iniGetRow req db =
     (if req \<le> 0 \<or> req > int (length (db_fetches db)) then (False, [], db)
      else
        let no = nat (req - 1); F = db_fetches db ! no in
        if fe_col_qty F = 0 then (False, [], db)
        else case if fe_cur_row F < fe_row_qty F then iniGetRowInternal F
                  else (0, no_fetch\<lparr>fe_col_qty := fe_col_qty F, fe_cur_row := fe_row_qty F, fe_row_qty := fe_row_qty F\<rparr>)
          of (count, F1) \<Rightarrow>
            (count > 0,
             if count > 0 then fe_row F1 else replicate (nat (fe_col_qty F1)) (IvInt 0),
             db\<lparr>db_fetches := (db_fetches db)[no := F1]\<rparr>))"

definition iniCount :: "inidb \<Rightarrow> int \<Rightarrow> int" where
  "iniCount db req = (if req > 0 \<and> req \<le> int (length (db_fetches db)) then fe_row_qty (db_fetches db ! nat (req - 1)) else 0)"

section \<open>Databases\<close>

text \<open>The cache of files: names with their text.\<close>

type_synonym inicache = "(bytes \<times> bytes) list"

fun cache_find :: "bytes \<Rightarrow> inicache \<Rightarrow> nat option" where
  "cache_find name [] = None"
| "cache_find name ((n, b) # c) = (if name = n then Some 0 else map_option Suc (cache_find name c))"

definition iniCache :: "bytes \<Rightarrow> bytes option \<Rightarrow> inicache \<Rightarrow> int \<times> inicache" where
  "iniCache name buffer c =
     (case (cache_find name c, buffer) of
        (Some i, None) \<Rightarrow> (int i, c)
      | (None, None) \<Rightarrow> (-1, c)
      | (Some i, Some b) \<Rightarrow> (int i, c[i := (name, b @ [LF])])
      | (None, Some b) \<Rightarrow> (int (length c), c @ [(name, b @ [LF])]))"

definition iniFlush :: "inicache \<Rightarrow> oret \<times> inicache" where "iniFlush c = (OK, [])"

text \<open>
  The description is put before the text. \<open>label\<close> is the name of its chunk, which is printed from \<open>name\<close> and
  the address of the description.
\<close>

definition iniAugment :: "bytes \<Rightarrow> bytes \<Rightarrow> inidb \<Rightarrow> oret \<times> inidb" where
  "iniAugment label describing db =
     (if describing = [] then (ERROR, db)
      else
        let S = db_source db; len = int (length describing) + 1;
            old = (if is_chunks S = [] then [(is_name S, 0)] else is_chunks S)
        in (OK, set_source (S\<lparr>is_buffer := describing @ [LF] @ is_buffer S,
              is_chunks := (label, 0) # map (\<lambda>(n, at). (n, at + len)) old\<rparr>) db))"

definition iniPassport :: "bytes \<Rightarrow> bytes \<Rightarrow> inidb \<Rightarrow> oret \<times> inidb" where
  "iniPassport label describing db = iniAugment label describing db"

definition iniClean :: "inidb \<Rightarrow> inidb" where "iniClean db = db\<lparr>db_fetches := []\<rparr>"

text \<open>
  Opening: a file in the cache is not read again. What \<open>fopen\<close> and \<open>fread\<close> give is the argument \<open>files\<close>; the
  text ends at its first NUL.
\<close>

definition iniOpen ::
  "(bytes \<Rightarrow> bytes option) \<Rightarrow> bytes \<Rightarrow> bytes \<Rightarrow> bytes \<Rightarrow> inicache \<Rightarrow> inidb option \<times> inicache" where
  "iniOpen files ini_file label describing c =
     (if ini_file = [] then (None, c)
      else
        let (no, c1) = (case iniCache ini_file None c of (n, _) \<Rightarrow>
              if n \<ge> 0 then (n, c)
              else case files ini_file of
                None \<Rightarrow> (-1, c)
              | Some data \<Rightarrow> if data = [] then (-1, c) else iniCache ini_file (Some (cstr_at data 0)) c)
        in if no < 0 then (None, c1)
           else
             let db = \<lparr>db_source = no_source\<lparr>is_name := ini_file, is_buffer := snd (c1 ! nat no),
                          is_fault := length ini_file \<ge> 80\<rparr>, db_fetches = []\<rparr>
             in (Some (if describing \<noteq> [] then snd (iniPassport label describing db) else db), c1))"

section \<open>Parameters\<close>

definition INI_VAR_DESC_SECTION :: bytes where "INI_VAR_DESC_SECTION = bstr ''CONFIG_VARIABLES:describe''"

text \<open>OK for any result that is not negative, so for a malformed integer, too, which becomes the default.\<close>

definition iniParam :: "bytes \<Rightarrow> inidb \<Rightarrow> oret \<times> inival \<times> inidb" where
  "iniParam entry db =
     (if entry = [] then (ERROR, IvInt 0, db)
      else case iniGetEntry INI_VAR_DESC_SECTION entry True (db_source db) of (n, S1) \<Rightarrow>
        if n \<le> 0 then (ERROR, IvInt 0, set_source S1 db)
        else case iniParseFieldDesc S1 of (rc, F, S2) \<Rightarrow>
          if rc \<noteq> OK \<or> fd_section F = [] then (ERROR, IvInt 0, set_source S2 db)
          else case iniGetEntry (fd_section F) entry False S2 of (k, S3) \<Rightarrow>
            if k \<le> 0 then
              (case iniDefaultValue F (IvInt 0) of (d, v) \<Rightarrow>
                 (if d = 2 \<or> d < 0 then ERROR else OK, v, set_source S3 db))
            else case iniReadField F [] (IvInt 0) S3 of (err, v, S4) \<Rightarrow>
              if err \<noteq> 0 then (if err > 0 then OK else ERROR, v, set_source S4 db)
              else case iniSkipUntilEol S4 of (rc5, S5) \<Rightarrow>
                (if rc5 \<ge> 0 then OK else ERROR, v, set_source S5 db))"

end
