(* ===== verification/IniMask.thy ===== *)
theory IniMask
  imports IniText
begin

text \<open>
  Masks: \<open>strMask\<close> takes for each piece of the pattern the leftmost place where it fits and never goes
  back. That is a sound way to match, and a complete one for patterns that end with a star.
\<close>

section \<open>The meaning of a pattern\<close>

fun glob :: "bytes \<Rightarrow> bytes \<Rightarrow> bool" where
  "glob [] s \<longleftrightarrow> s = []"
| "glob (c # r) s \<longleftrightarrow>
     (if c = STAR then list_ex (\<lambda>k. glob r (drop k s)) [0..<Suc (length s)]
      else s \<noteq> [] \<and> hd s = c \<and> glob r (tl s))"

lemma glob_star: "glob (STAR # r) s \<longleftrightarrow> (\<exists>k. glob r (drop k s))"
proof
  assume "\<exists>k. glob r (drop k s)"
  then obtain k where k: "glob r (drop k s)" ..
  then show "glob (STAR # r) s" by (cases "k < length s") (auto simp: list_ex_iff intro!: bexI [of _ k])
next
  assume "glob (STAR # r) s"
  then show "\<exists>k. glob r (drop k s)" unfolding glob.simps(2) list_ex_iff
    by (auto split: if_splits intro: exI [of _ "length s"])
qed

lemma glob_suffix: "glob (STAR # r) (drop k s) \<Longrightarrow> glob (STAR # r) s"
  unfolding glob_star by auto

lemma glob_stars: "\<forall>c \<in> set u. c = STAR \<Longrightarrow> u \<noteq> [] \<Longrightarrow> glob (u @ r) s \<longleftrightarrow> glob (STAR # r) s"
proof (induction u arbitrary: s)
  case (Cons c u)
  show ?case
  proof (cases "u = []")
    case False
    have "glob (STAR # u @ r) s \<longleftrightarrow> (\<exists>k. glob (STAR # r) (drop k s))"
      unfolding glob_star [of "u @ r"] using Cons.IH [OF _ False] Cons.prems(1) by auto
    also have "\<dots> \<longleftrightarrow> glob (STAR # r) s" using glob_suffix by (metis drop0)
    finally show ?thesis using Cons.prems(1) by simp
  qed (use Cons.prems in simp)
qed simp

lemma glob_literal: "STAR \<notin> set w \<Longrightarrow> glob (w @ r) s \<longleftrightarrow> starts_with w s \<and> glob r (drop (length w) s)"
proof (induction w arbitrary: s)
  case (Cons c w)
  then show ?case by (cases s) (auto simp: starts_with_def)
qed (simp add: starts_with_def)

lemma glob_no_star: "STAR \<notin> set r \<Longrightarrow> glob r s \<longleftrightarrow> r = s"
  using glob_literal [of r "[]" s] by (auto simp: starts_with_def)

lemma find_piece_some:
  assumes "find_piece v s = Some t"
  obtains k where "t = drop k s" "starts_with v t" "\<And>j. j < k \<Longrightarrow> \<not> starts_with v (drop j s)"
proof -
  have "\<exists>k. t = drop k s \<and> starts_with v t \<and> (\<forall>j < k. \<not> starts_with v (drop j s))"
    using assms
  proof (induction v s rule: find_piece.induct)
    case (2 w c u)
    show ?case
    proof (cases "starts_with w (c # u)")
      case True
      then show ?thesis using 2(2) by (auto intro!: exI [of _ 0])
    next
      case False
      then obtain k where "t = drop k u" "starts_with w t" "\<forall>j < k. \<not> starts_with w (drop j u)" using 2 by auto
      then show ?thesis using False by (intro exI [of _ "Suc k"]) (auto simp: less_Suc_eq_0_disj)
    qed
  qed simp
  then show ?thesis using that by blast
qed

lemma find_piece_none: "find_piece v s = None \<Longrightarrow> v \<noteq> [] \<Longrightarrow> \<not> starts_with v (drop k s)"
proof (induction v s arbitrary: k rule: find_piece.induct)
  case (2 w c t)
  then show ?case by (cases k) (auto split: if_splits)
qed (simp add: starts_with_def)

section \<open>One step of the match\<close>

text \<open>A pattern with a star is a literal, stars, and the rest, which starts with a literal.\<close>

lemma split_pattern:
  assumes "STAR \<in> set r"
  defines "w \<equiv> takeWhile (\<lambda>c. c \<noteq> STAR) r"
  defines "r1 \<equiv> dropWhile (\<lambda>c. c = STAR) (dropWhile (\<lambda>c. c \<noteq> STAR) r)"
  defines "v \<equiv> takeWhile (\<lambda>c. c \<noteq> STAR) r1"
  shows "glob r s \<longleftrightarrow> starts_with w s \<and> glob (STAR # r1) (drop (length w) s)"
    "glob (STAR # r1) u \<longleftrightarrow> (\<exists>k. starts_with v (drop k u) \<and> glob (drop (length v) r1) (drop (length v) (drop k u)))"
    "r1 \<noteq> [] \<Longrightarrow> v \<noteq> []"
    "last r = STAR \<Longrightarrow> r1 \<noteq> [] \<Longrightarrow> last r1 = STAR"
    "drop (length v) r1 = [] \<or> hd (drop (length v) r1) = STAR"
proof -
  have w: "STAR \<notin> set w" unfolding w_def by (auto dest: set_takeWhileD)
  have v: "STAR \<notin> set v" unfolding v_def by (auto dest: set_takeWhileD)
  define st where "st = takeWhile (\<lambda>c. c = STAR) (dropWhile (\<lambda>c. c \<noteq> STAR) r)"
  have d: "dropWhile (\<lambda>c. c \<noteq> STAR) r \<noteq> []" "hd (dropWhile (\<lambda>c. c \<noteq> STAR) r) = STAR"
    using assms(1) hd_dropWhile [of "\<lambda>c. c \<noteq> STAR" r] by (auto simp: dropWhile_eq_Nil_conv)
  have st: "\<forall>c \<in> set st. c = STAR" unfolding st_def by (auto dest: set_takeWhileD)
  have st0: "st \<noteq> []" using d unfolding st_def by (cases "dropWhile (\<lambda>c. c \<noteq> STAR) r") auto
  have r: "r = w @ st @ r1" unfolding w_def st_def r1_def by simp
  have rv: "r1 = v @ drop (length v) r1" unfolding v_def by (metis append_eq_conv_conj takeWhile_dropWhile_id)
  have "glob (w @ st @ r1) s \<longleftrightarrow> starts_with w s \<and> glob (STAR # r1) (drop (length w) s)"
    unfolding glob_literal [OF w] glob_stars [OF st st0] ..
  then show "glob r s \<longleftrightarrow> starts_with w s \<and> glob (STAR # r1) (drop (length w) s)" by (subst r)
  show "glob (STAR # r1) u \<longleftrightarrow> (\<exists>k. starts_with v (drop k u) \<and> glob (drop (length v) r1) (drop (length v) (drop k u)))"
    
  proof -
    have "glob r1 x \<longleftrightarrow> starts_with v x \<and> glob (drop (length v) r1) (drop (length v) x)" for x
      using glob_literal [OF v, of "drop (length v) r1" x] rv by simp
    then show ?thesis unfolding glob_star by simp
  qed
  show "r1 \<noteq> [] \<Longrightarrow> v \<noteq> []"
  proof -
    assume n: "r1 \<noteq> []"
    then have "hd r1 \<noteq> STAR" unfolding r1_def by (rule hd_dropWhile)
    then show "v \<noteq> []" using n unfolding v_def by (cases r1) auto
  qed
  show "last r = STAR \<Longrightarrow> r1 \<noteq> [] \<Longrightarrow> last r1 = STAR" using r by (auto simp: last_append)
  show "drop (length v) r1 = [] \<or> hd (drop (length v) r1) = STAR"
    unfolding v_def using dropWhile_eq_drop [of "\<lambda>c. c \<noteq> STAR" r1] hd_dropWhile [of "\<lambda>c. c \<noteq> STAR" r1] by metis
qed

lemma mask_sound: "strMask s r \<Longrightarrow> glob r s"
proof (induction s r rule: strMask.induct)
  case (1 s r)
  show ?case
  proof (cases "STAR \<in> set r")
    case False
    then show ?thesis using "1.prems" glob_no_star [of r s] by (auto simp: strMask.simps [of s r] split: if_splits)
  next
    case star: True
    define w where "w = takeWhile (\<lambda>c. c \<noteq> STAR) r"
    define r1 where "r1 = dropWhile (\<lambda>c. c = STAR) (dropWhile (\<lambda>c. c \<noteq> STAR) r)"
    define v where "v = takeWhile (\<lambda>c. c \<noteq> STAR) r1"
    define s1 where "s1 = drop (length w) s"
    note P = split_pattern [OF star, folded w_def, folded r1_def, folded v_def]
    note step = strMask.simps [of s r, unfolded Let_def, folded w_def, folded r1_def s1_def, folded v_def]
    show ?thesis
    proof (cases "r = [STAR]")
      case True
      then show ?thesis using glob_star [of "[]" s] by (auto intro: exI [of _ "length s"])
    next
      case False
      then have w: "starts_with w s" using "1.prems" star unfolding step by (auto simp: starts_with_def split: if_splits)
      show ?thesis
      proof (cases "r1 = []")
        case True
        then show ?thesis using P(1) w glob_star [of "[]" "drop (length w) s"] by (auto intro: exI [of _ "length s"])
      next
        case r1: False
        then obtain s2 where s2: "find_piece v s1 = Some s2" "strMask (drop (length v) s2) (drop (length v) r1)"
          using "1.prems" star False w unfolding step by (auto split: if_splits option.splits)
        have "glob (drop (length v) r1) (drop (length v) s2)"
          by (rule "1.IH" [OF False _ w_def _ r1_def s1_def r1 v_def s2(1) s2(2)]) (use star w in auto)
        then have "glob (STAR # r1) s1" using s2(1) P(2) [of s1] by (auto elim!: find_piece_some)
        then show ?thesis using P(1) w by (simp add: s1_def)
      qed
    qed
  qed
qed

lemma mask_complete: "glob r s \<Longrightarrow> r \<noteq> [] \<Longrightarrow> last r = STAR \<Longrightarrow> strMask s r"
proof (induction s r rule: strMask.induct)
  case (1 s r)
  have star: "STAR \<in> set r" using "1.prems" last_in_set by metis
  define w where "w = takeWhile (\<lambda>c. c \<noteq> STAR) r"
  define r1 where "r1 = dropWhile (\<lambda>c. c = STAR) (dropWhile (\<lambda>c. c \<noteq> STAR) r)"
  define v where "v = takeWhile (\<lambda>c. c \<noteq> STAR) r1"
  define s1 where "s1 = drop (length w) s"
  define r2 where "r2 = drop (length v) r1"
  note P = split_pattern [OF star, folded w_def, folded r1_def, folded v_def, folded r2_def]
  note step = strMask.simps [of s r, unfolded Let_def, folded w_def, folded r1_def s1_def, folded v_def, folded r2_def]
  have w: "starts_with w s" and g: "glob (STAR # r1) s1" using P(1) [of s] "1.prems"(1) by (simp_all add: s1_def)
  show ?case
  proof (cases "r = [STAR] \<or> r1 = []")
    case True
    then show ?thesis using w star unfolding step by auto
  next
    case False
    then have r: "r \<noteq> [STAR]" "r1 \<noteq> []" by simp_all
    note v = P(3) [OF r(2)]
    have lr: "last r1 = STAR" by (rule P(4) [OF "1.prems"(3) r(2)])
    have r2: "r2 \<noteq> []" "last r2 = STAR" "hd r2 = STAR"
    proof -
      have e: "r1 = v @ r2" unfolding v_def r2_def by (metis append_eq_conv_conj takeWhile_dropWhile_id)
      have "STAR \<notin> set v" unfolding v_def by (auto dest: set_takeWhileD)
      then show "r2 \<noteq> []" using e lr v by (metis append_Nil2 last_in_set)
      then show "last r2 = STAR" "hd r2 = STAR" using e lr P(5) by auto
    qed
    then have r2t: "r2 = STAR # tl r2" by (metis list.collapse)
    obtain k where k: "starts_with v (drop k s1)" "glob r2 (drop (length v) (drop k s1))" using P(2) [of s1] g by blast
    then obtain s2 where f: "find_piece v s1 = Some s2" using find_piece_none [OF _ v] by (cases "find_piece v s1") auto
    then obtain j where j: "s2 = drop j s1" "starts_with v s2" "\<And>i. i < j \<Longrightarrow> \<not> starts_with v (drop i s1)"
      using find_piece_some [OF f] by blast
    then have "j \<le> k" using k(1) by (meson not_le)
    then have "drop (length v) (drop k s1) = drop (k - j) (drop (length v) s2)" by (simp add: j(1) add.commute)
    then have "glob r2 (drop (length v) s2)" using k(2) r2t glob_suffix by metis
    then have "strMask (drop (length v) s2) r2"
      using "1.IH" [OF r(1) _ w_def _ r1_def s1_def r(2) v_def f] star w r2 by (auto simp: r2_def)
    then show ?thesis using r w f star unfolding step by (auto simp: v)
  qed
qed

section \<open>Results\<close>

text \<open>C35. A mask that \<open>strMask\<close> accepts matches in the sense of patterns with stars; it accepts every
  match when the pattern has no star or ends with one.\<close>

theorem mask_matches:
  "(strMask s r \<longrightarrow> glob r s) \<and> (STAR \<notin> set r \<or> last r = STAR \<longrightarrow> strMask s r = glob r s)"
proof (cases "STAR \<in> set r")
  case True
  then show ?thesis using mask_sound mask_complete by (metis empty_iff empty_set)
next
  case False
  then have "strMask s r \<longleftrightarrow> r = s" unfolding strMask.simps [of s r] by auto
  then show ?thesis using glob_no_star [OF False, of s] mask_sound [of s r] by simp
qed

lemma mask_matches_witness:
  "strMask (bstr ''hub.main'') (bstr ''hub.*'') = glob (bstr ''hub.*'') (bstr ''hub.main'')"
  using mask_matches [of "bstr ''hub.main''" "bstr ''hub.*''"] by (simp add: bstr_def)

text \<open>A piece at the end of a pattern is missed when it occurs earlier, too: the pattern of a star and a word
  does not accept the word written twice.\<close>

theorem mask_misses:
  assumes "v \<noteq> []" and "STAR \<notin> set v"
  shows "glob (STAR # v) (v @ v)" and "\<not> strMask (v @ v) (STAR # v)"
proof -
  have "glob v (drop (length v) (v @ v))" using glob_no_star [OF assms(2)] by simp
  then show "glob (STAR # v) (v @ v)" unfolding glob_star by blast
  obtain c u where v: "v = c # u" using assms(1) by (cases v) auto
  have d: "dropWhile (\<lambda>c. c = STAR) v = v" "takeWhile (\<lambda>c. c \<noteq> STAR) v = v"
    using assms v by (auto simp: takeWhile_eq_all_conv)
  have "find_piece v (v @ v) = Some (v @ v)" unfolding v by (simp add: starts_with_def)
  then have "strMask (v @ v) (STAR # v) = strMask v []" using assms(1)
    by (subst strMask.simps) (simp add: Let_def d)
  then show "\<not> strMask (v @ v) (STAR # v)" using assms(1) by (subst (asm) strMask.simps) simp
qed

end
