(* ===== verification/IniRead.thy ===== *)
theory IniRead
  imports IniTable IniMask WatchVal
begin

text \<open>
  What the configuration parser reads is what was written: quoted strings, decimal numbers, the rows of tables.
\<close>

section \<open>Strings\<close>

text \<open>A way to write a string so that the parser gets it back.\<close>

definition escaped :: "byte \<Rightarrow> bytes" where
  "escaped c =
     (if c = 9 then [BACKSLASH, 116] else if c = 8 then [BACKSLASH, 98] else if c = LF then [BACKSLASH, 110]
      else if c = CR then [BACKSLASH, 114] else if c = QUOTE \<or> c = DQUOTE \<or> c = BACKSLASH then [BACKSLASH, c] else [c])"

definition quoted :: "bytes \<Rightarrow> bytes" where
  "quoted s = DQUOTE # concat (map escaped s) @ [DQUOTE]"

lemma read_escaped:
  assumes "length b < sz"
  shows "read_chars DQUOTE ds sz b (escaped c @ t) = read_chars DQUOTE ds sz (b @ [c]) t"
  using assms by (auto simp: escaped_def read_chars.simps is_eol_def read_escape_def simple_escape_def Let_def split: prod.splits)

lemma read_quoted:
  "length b + length s \<le> sz \<Longrightarrow> read_chars DQUOTE ds sz b (concat (map escaped s) @ DQUOTE # rest) = (b @ s, rest, False)"
proof (induction s arbitrary: b)
  case Nil
  then show ?case by (simp add: read_chars.simps is_eol_def)
next
  case (Cons c s)
  then show ?case by (simp add: read_escaped)
qed

lemma skip_nothing:
  assumes "s = [] \<or> \<not> is_blank (hd s) \<and> hd s \<noteq> SEMICOLON \<and> hd s \<noteq> HASH \<and> hd s \<noteq> SLASH"
  shows "skip_blanks s = (True, s)"
proof -
  have d: "dropWhile is_blank s = s" using assms by (cases s) auto
  show ?thesis unfolding skip_blanks.simps [of s] d using assms by (cases s) (auto simp: Let_def opens_comment_def)
qed

lemma cstr_at_all: "0 \<notin> set s \<Longrightarrow> cstr_at s 0 = s"
  by (auto simp: cstr_at_def takeWhile_eq_all_conv)

text \<open>C36. A string is read back from its quoted form, whatever bytes it has, as long as it is shorter than
  the limit of the field; the text behind the quotes is left.\<close>

theorem string_roundtrip:
  assumes "is_text S = quoted s @ rest" and "0 \<notin> set s"
    and "int (length s) < (if n = IGNORE \<or> n \<le> 0 then 512 else n)"
  shows "iniReadStr skip delim n S = (Some s, S\<lparr>is_text := rest\<rparr>)"
proof -
  have sk: "(if skip then iniSkipBlanks S else (OK, S)) = (OK, S)"
    using skip_nothing [of "is_text S"] assms(1)
    by (auto simp: iniSkipBlanks_def quoted_def is_blank_def goto_text_def)
  have "read_chars DQUOTE ds sz [] (concat (map escaped s) @ DQUOTE # rest) = (s, rest, False)" if "length s \<le> sz" for ds sz
    using read_quoted [of "[]" s sz ds rest] that by simp
  then show ?thesis unfolding iniReadStr_def sk using assms
    by (auto simp: quoted_def Let_def cstr_at_all ini_fault_def goto_text_def split: if_splits)
qed

lemma string_roundtrip_witness:
  "iniReadStr True [BAR] 15 (no_source\<lparr>is_text := quoted (bstr ''a b\"c'') @ bstr '' |''\<rparr>) =
     (Some (bstr ''a b\"c''), no_source\<lparr>is_text := bstr '' |''\<rparr>)"
  using string_roundtrip [of "no_source\<lparr>is_text := quoted (bstr ''a b\"c'') @ bstr '' |''\<rparr>" "bstr ''a b\"c''" "bstr '' |''" 15 True "[BAR]"]
  by (simp add: bstr_def IGNORE_def)

lemma read_chars_extends: "read_chars q ds sz b t = (b1, r, f) \<Longrightarrow> \<exists>u. b1 = b @ u"
proof (induction q ds sz b t arbitrary: b1 r f rule: read_chars.induct)
  case (2 q ds sz b c t)
  obtain add u g where a: "(if c = BACKSLASH then read_escape t else ([c], t, False)) = (add, u, g)"
    by (cases "if c = BACKSLASH then read_escape t else ([c], t, False)")
  show ?case
  proof (cases "is_eol c \<or> c = q \<or> q = 0 \<and> c \<in> set ds \<or> length (b @ add) > sz")
    case True
    then show ?thesis using "2.prems" unfolding read_chars.simps a by (auto simp: Let_def split: if_splits)
  next
    case False
    then have n: "\<not> is_eol c" "c \<noteq> q" "\<not> (q = 0 \<and> c \<in> set ds)" "\<not> length (b @ add) > sz" by simp_all
    obtain b2 r2 f2 where e: "read_chars q ds sz (b @ add) u = (b2, r2, f2)" by (cases "read_chars q ds sz (b @ add) u")
    have "b1 = b2" using "2.prems" n unfolding read_chars.simps a by (simp add: Let_def e)
    moreover have "\<exists>x. b2 = (b @ add) @ x" by (rule "2.IH" [OF n(1-3) refl a [symmetric] refl refl n(4) e])
    ultimately show ?thesis by auto
  qed
qed (simp add: read_chars.simps)

text \<open>The escape for hexadecimal codes starts its conversion one character too early, and gives a NUL, which
  ends the string.\<close>

theorem hex_escape_ends_string:
  assumes "is_text S = DQUOTE # BACKSLASH # 120 # t"
  shows "fst (iniReadStr False delim n S) = Some []"
proof -
  have e: "read_escape (120 # t) = ([0], 120 # t, False)"
    by (simp add: read_escape_def simple_escape_def digit_in_def is_hexdigit_def is_digit_def scan_base_def take_sign_def c_isspace_def Let_def)
  have "\<exists>u r f. read_chars DQUOTE ds sz [] (BACKSLASH # 120 # t) = (0 # u, r, f)" if "0 < sz" for ds sz
  proof -
    obtain b r f where r: "read_chars DQUOTE ds sz [0] (120 # t) = (b, r, f)" by (cases "read_chars DQUOTE ds sz [0] (120 # t)")
    obtain u where "b = [0] @ u" using read_chars_extends [OF r] by blast
    then show ?thesis using r that by (subst read_chars.simps) (simp add: e is_eol_def Let_def)
  qed
  note c = this
  obtain u r f where "read_chars DQUOTE (blank_delims @ delim) (if n = IGNORE \<or> n \<le> 0 then 512 else nat n) [] (BACKSLASH # 120 # t) = (0 # u, r, f)"
    using c [of "if n = IGNORE \<or> n \<le> 0 then 512 else nat n" "blank_delims @ delim"] by (force split: if_splits)
  then show ?thesis unfolding iniReadStr_def by (simp add: assms Let_def cstr_at_def)
qed

section \<open>Numbers\<close>

lemma hd_dec_nat: "0 < n \<Longrightarrow> hd (dec_nat n) \<noteq> DIGIT0"
proof (induction n rule: dec_nat.induct)
  case (1 n)
  show ?case
  proof (cases "n < 10")
    case True
    have "digit_of 48 = 0" by (simp add: digit_of_def is_digit_def)
    then have "(of_nat (48 + n) :: byte) \<noteq> 48" using digit_of_char [OF True] 1(2) by (intro notI) simp
    then show ?thesis using True by (simp add: dec_nat.simps [of n])
  next
    case False
    then have "0 < n div 10" by simp
    then show ?thesis using False 1 dec_nat_value [of "n div 10"] by (simp add: dec_nat.simps [of n])
  qed
qed

definition ends_number :: "bytes \<Rightarrow> bool" where
  "ends_number rest \<longleftrightarrow> rest = [] \<or> \<not> is_hexdigit (hd rest) \<and> lower (hd rest) \<noteq> 120"

lemma digit_in_10: "is_digit c \<Longrightarrow> digit_in 10 c" "digit_in 10 c \<Longrightarrow> is_hexdigit c"
proof -
  assume d: "is_digit c"
  then have "uint c \<le> int 57" by (simp add: is_digit_def)
  then have "unat c \<le> 57" by (simp only: unat_eq_nat_uint nat_le_iff)
  then show "digit_in 10 c" using d by (simp add: digit_in_def is_hexdigit_def digit_of_def)
qed (simp add: digit_in_def)

lemma digits_end:
  assumes "\<forall>c \<in> set ds. digit_in b c" and "ends_number rest"
  shows "takeWhile (digit_in b) (ds @ rest) = ds" "dropWhile (digit_in b) (ds @ rest) = rest"
proof -
  have "rest = [] \<or> \<not> digit_in b (hd rest)" using assms(2) by (auto simp: ends_number_def digit_in_def)
  then show "takeWhile (digit_in b) (ds @ rest) = ds" "dropWhile (digit_in b) (ds @ rest) = rest"
    using assms(1) by (cases rest; simp add: takeWhile_append2 dropWhile_append2)+
qed

lemma scan_base_nat:
  assumes "ends_number rest" and "take_sign (dropWhile c_isspace s) = (neg, dec_nat n @ rest)"
  shows "scan_base 0 s = Some (neg, n, rest)"
proof -
  have d: "base_value 10 (map digit_of (dec_nat n)) = n" "\<forall>c \<in> set (dec_nat n). is_digit c" "dec_nat n \<noteq> []"
    using dec_nat_value [of n] by simp_all
  have in10: "\<forall>c \<in> set (dec_nat n). digit_in 10 c" using d(2) digit_in_10(1) by blast
  note e10 = digits_end [OF in10 assms(1)]
  show ?thesis
  proof (cases "n = 0")
    case True
    have z: "dec_nat 0 = [DIGIT0]" by (simp add: dec_nat.simps)
    have in8: "\<forall>c \<in> set [DIGIT0]. digit_in 8 c" by (simp add: digit_in_def is_hexdigit_def is_digit_def digit_of_def)
    have e8: "takeWhile (digit_in 8) rest = []" "dropWhile (digit_in 8) rest = rest" "digit_in 8 DIGIT0"
      using digits_end [of "[]" 8, OF _ assms(1)] in8 by simp_all
    have "rest = [] \<or> lower (rest ! 0) \<noteq> 120" using assms(1) by (cases rest) (auto simp: ends_number_def)
    moreover have "map digit_of [DIGIT0] = [0]" by (simp add: digit_of_def is_digit_def)
    ultimately show ?thesis unfolding scan_base_def assms(2) True z append.simps
      by (elim disjE) (simp_all add: Let_def e8 base_value_def)
  next
    case False
    then have h: "hd (dec_nat n @ rest) \<noteq> DIGIT0" "(dec_nat n @ rest) ! 0 \<noteq> DIGIT0"
      using hd_dec_nat [of n] d(3) by (simp_all add: hd_append hd_conv_nth nth_append)
    then show ?thesis unfolding scan_base_def assms(2) using e10 d by (simp add: Let_def)
  qed
qed

lemma scan_base_int:
  assumes "ends_number rest"
  shows "scan_base 0 (dec_int x @ rest) = Some (x < 0, nat \<bar>x\<bar>, rest)"
proof -
  show ?thesis
  proof (cases "x < 0")
    case True
    then show ?thesis by (intro scan_base_nat [OF assms]) (simp_all add: dec_int_def take_sign_def c_isspace_def)
  next
    case False
    obtain c cs where c: "dec_nat (nat x) = c # cs" "is_digit c"
      using dec_nat_value [of "nat x"] by (cases "dec_nat (nat x)") auto
    then show ?thesis using False is_digit_bounds [OF c(2)]
      by (intro scan_base_nat [OF assms]) (simp_all add: dec_int_def take_sign_def)
  qed
qed

lemma starts_with_hd: "starts_with (c # w) s \<Longrightarrow> s \<noteq> [] \<and> hd s = c"
  by (cases s) (auto simp: starts_with_def)

lemma dec_int_no_prefix:
  assumes "ends_number rest"
  shows "\<not> starts_with [DIGIT0, 98] (dec_int x @ rest)"
proof (cases "x = 0")
  case True
  then show ?thesis using assms
    by (cases rest) (auto simp: dec_int_def dec_nat.simps [of 0] starts_with_def ends_number_def is_hexdigit_def)
next
  case False
  then have "hd (dec_int x @ rest) \<noteq> DIGIT0"
    using hd_dec_nat [of "nat x"] dec_nat_value [of "nat x"] by (auto simp: dec_int_def hd_append)
  then show ?thesis using starts_with_hd by blast
qed

lemma scan_number_int:
  assumes "ends_number rest" and "int32_range x"
  shows "\<exists>p. scan_number False (dec_int x @ rest) = (Some x, p, rest) \<and> length p \<le> length (dec_nat (nat \<bar>x\<bar>)) + length rest"
proof -
  have v: "long_value (x < 0) (nat \<bar>x\<bar>) = x" using assms(2) by (auto simp: long_value_def int32_range_def)
  define p where "p = dec_int x @ rest"
  have "length (digits_start p) \<le> length (if p \<noteq> [] \<and> (hd p = 45 \<or> hd p = 43) then tl p else p)"
  proof -
    have "length (if A then drop 2 y else if B then tl y else y) \<le> length y" for A B and y :: bytes by simp
    then show ?thesis unfolding digits_start_def Let_def .
  qed
  also have "\<dots> \<le> length (dec_nat (nat \<bar>x\<bar>)) + length rest" unfolding p_def by (auto simp: dec_int_def)
  finally have "length (digits_start p) \<le> length (dec_nat (nat \<bar>x\<bar>)) + length rest" .
  moreover have "scan_number False p = (Some x, digits_start p, rest)"
    using dec_int_no_prefix [OF assms(1), of x] scan_base_int [OF assms(1), of x] v
    by (simp add: scan_number_def p_def [symmetric] Let_def)
  ultimately show ?thesis unfolding p_def by auto
qed

text \<open>C37. A decimal number in its field's limits is read back, with no error.\<close>

theorem decimal_roundtrip:
  assumes "is_text S = dec_int x @ rest" and "ends_number rest" and "int32_range x"
    and "m = IGNORE \<or> int (length (dec_nat (nat \<bar>x\<bar>))) \<le> m"
    and "lo = IGNORE \<or> lo \<le> x" and "hi = IGNORE \<or> x \<le> hi"
  shows "iniReadInteger m lo hi False S = (x, 0, S\<lparr>is_text := rest\<rparr>)"
proof -
  have "hd (dec_int x @ rest) = 45 \<or> is_digit (hd (dec_int x @ rest))"
    using dec_nat_value [of "nat x"] dec_nat_value [of "nat (- x)"] by (auto simp: dec_int_def hd_append)
  then have "skip_blanks (dec_int x @ rest) = (True, dec_int x @ rest)"
    by (intro skip_nothing) (auto simp: is_blank_def is_digit_def)
  then have sk: "iniSkipBlanks S = (OK, S)" using assms(1) by (simp add: iniSkipBlanks_def goto_text_def)
  obtain p where p: "scan_number False (dec_int x @ rest) = (Some x, p, rest)"
    "length p \<le> length (dec_nat (nat \<bar>x\<bar>)) + length rest" using scan_number_int [OF assms(2,3)] by blast
  show ?thesis unfolding iniReadInteger_def sk using assms p
    by (auto simp: Let_def below_limit_def above_limit_def goto_text_def)
qed

lemma decimal_roundtrip_witness:
  "iniReadInteger 5 1 100 False (no_source\<lparr>is_text := dec_int 42 @ [SPACE]\<rparr>) = (42, 0, no_source\<lparr>is_text := [SPACE]\<rparr>)"
  using decimal_roundtrip [of "no_source\<lparr>is_text := dec_int 42 @ [SPACE]\<rparr>" 42 "[SPACE]" 5 1 100]
  by (simp add: ends_number_def is_hexdigit_def is_digit_def lower_def int32_range_def IGNORE_def dec_nat.simps)

section \<open>Rows\<close>

text \<open>Reading moves the pointer, and sets the fault mark, and no more.\<close>

definition same_src :: "inisrc \<Rightarrow> inisrc \<Rightarrow> bool" where
  "same_src S T \<longleftrightarrow> T = S\<lparr>is_text := is_text T, is_fault := is_fault T\<rparr>"

lemma same_src_simps [simp]: "same_src S S" "same_src S (goto_text t S)" "same_src S (ini_fault b S)"
  by (simp_all add: same_src_def goto_text_def ini_fault_def)

lemma same_src_trans [trans]: "same_src S T \<Longrightarrow> same_src T U \<Longrightarrow> same_src S U"
  unfolding same_src_def by (cases S; cases T; cases U) simp

lemma same_src_rewind: "same_src S T \<Longrightarrow> is_fault T = is_fault S \<Longrightarrow> is_text S = is_buffer S \<Longrightarrow> rewind T = S"
  unfolding same_src_def rewind_def goto_text_def by (cases S; cases T) simp

lemma iniSkipBlanks_src: "iniSkipBlanks S = (rc, S1) \<Longrightarrow> same_src S S1"
  by (auto simp: iniSkipBlanks_def split: prod.splits)

lemma iniSkipUntilEol_src: "iniSkipUntilEol S = (rc, S1) \<Longrightarrow> same_src S S1"
  by (auto simp: iniSkipUntilEol_def split: prod.splits)

lemma iniExpectStr_src: "iniExpectStr w S = (yes, S1) \<Longrightarrow> same_src S S1"
  by (auto simp: iniExpectStr_def split: prod.splits if_splits dest!: iniSkipBlanks_src elim: same_src_trans)

lemma iniReadInteger_src: "iniReadInteger m lo hi u S = (x, err, S1) \<Longrightarrow> same_src S S1"
  by (auto simp: iniReadInteger_def Let_def split: prod.splits option.splits if_splits
      dest!: iniSkipBlanks_src elim: same_src_trans)

lemma iniReadStr_src: "iniReadStr skip ds n S = (x, S1) \<Longrightarrow> same_src S S1"
proof -
  assume e: "iniReadStr skip ds n S = (x, S1)"
  obtain rc T where b: "(if skip then iniSkipBlanks S else (OK, S)) = (rc, T)"
    by (cases "if skip then iniSkipBlanks S else (OK, S)")
  have T: "same_src S T" using b by (auto split: if_splits dest: iniSkipBlanks_src)
  have "same_src T S1" using e unfolding iniReadStr_def b
    by (auto simp: Let_def intro: same_src_trans [OF same_src_simps(2) same_src_simps(3)] split: if_splits prod.splits)
  then show ?thesis by (rule same_src_trans [OF T])
qed

lemma try_words_src: "try_words ws S = (x, S1) \<Longrightarrow> same_src S S1"
proof (induction ws S rule: try_words.induct)
  case (2 w a ws S)
  obtain yes T where e: "iniExpectStr w S = (yes, T)" by (cases "iniExpectStr w S")
  show ?case
  proof (cases yes)
    case True
    then show ?thesis using 2(2) iniExpectStr_src [OF e] by (simp add: e)
  next
    case False
    then have "same_src T S1" using 2(2) by (intro 2(1) [OF e [symmetric]]) (simp_all add: e)
    then show ?thesis by (rule same_src_trans [OF iniExpectStr_src [OF e]])
  qed
qed simp

lemma iniReadField_src: "iniReadField F delim v S = (rc, x, S1) \<Longrightarrow> same_src S S1"
  unfolding iniReadField_def
  by (auto split: prod.splits option.splits if_splits field_desc.splits simp: Let_def
      dest!: iniReadStr_src iniReadInteger_src intro: same_src_trans)

lemma iniSkipMultilineBlanks_src: "iniSkipMultilineBlanks S = (rc, S1) \<Longrightarrow> same_src S S1"
proof (induction S rule: iniSkipMultilineBlanks.induct)
  case (1 S)
  obtain k T where b: "iniSkipBlanks S = (k, T)" by (cases "iniSkipBlanks S")
  note T = iniSkipBlanks_src [OF b]
  show ?case
  proof (cases "k \<noteq> OK \<or> is_text T = [] \<or> hd (is_text T) = LBRACKET \<or> \<not> is_eol (hd (is_text T))")
    case True
    then show ?thesis using 1(2) T by (auto simp: iniSkipMultilineBlanks.simps [of S] b split: if_splits)
  next
    case False
    then have "iniSkipMultilineBlanks (goto_text (tl (is_text T)) T) = (rc, S1)"
      using 1(2) by (simp add: iniSkipMultilineBlanks.simps [of S] b)
    then have "same_src (goto_text (tl (is_text T)) T) S1" using False by (intro 1(1) [OF b [symmetric]]) simp_all
    then show ?thesis using T by (meson same_src_simps(2) same_src_trans)
  qed
qed

lemma read_cells_src: "read_cells Fs vals S = (x, S1) \<Longrightarrow> same_src S S1"
proof (induction Fs vals S arbitrary: x S1 rule: read_cells.induct)
  case (2 F Fs vals S)
  obtain e T where e: "iniExpectStr (if Fs = [] then [RBRACE] else [BAR]) S = (e, T)"
    by (cases "iniExpectStr (if Fs = [] then [RBRACE] else [BAR]) S")
  note T = iniExpectStr_src [OF e]
  obtain rc v U where r: "iniReadField F (if Fs = [] then [BAR, RBRACE] else [BAR]) (IvInt 0) T = (rc, v, U)"
    by (cases "iniReadField F (if Fs = [] then [BAR, RBRACE] else [BAR]) (IvInt 0) T")
  note U = same_src_trans [OF T iniReadField_src [OF r]]
  obtain y V where w: "try_words (if Fs = [] then [([BAR], ()), ([RBRACE], ())] else [([BAR], ())]) U = (y, V)"
    by (cases "try_words (if Fs = [] then [([BAR], ()), ([RBRACE], ())] else [([BAR], ())]) U")
  note V = same_src_trans [OF U try_words_src [OF w]]
  obtain rd d where d: "iniDefaultValue F (IvInt 0) = (rd, d)" by (cases "iniDefaultValue F (IvInt 0)")
  have ih1: "e \<Longrightarrow> rd = 0 \<Longrightarrow> read_cells Fs (vals @ [d]) T = (x, S1) \<Longrightarrow> same_src S S1"
    by (rule same_src_trans [OF T]) (rule "2.IH"(1) [OF e [symmetric] _ d [symmetric]], auto)
  have ih2: "\<not> e \<Longrightarrow> rc = 0 \<Longrightarrow> y = Some () \<Longrightarrow> read_cells Fs (vals @ [v]) V = (x, S1) \<Longrightarrow> same_src S S1"
    by (rule same_src_trans [OF V]) (rule "2.IH"(2) [OF e [symmetric] _ r [symmetric] refl _ w [symmetric]], auto)
  show ?case using "2.prems" T U V ih1 ih2 by (auto simp: e r w d split: if_splits option.splits simp del: try_words.simps)
qed simp

lemma row_src: "iniGetRowInternal F = (rc, F1) \<Longrightarrow> same_src (fe_source F) (fe_source F1) \<and> fe_cols F1 = fe_cols F \<and> fe_col_qty F1 = fe_col_qty F"
  unfolding iniGetRowInternal_def iniCleanFetch_def
  by (auto simp: Let_def split: if_splits prod.splits option.splits simp del: try_words.simps
      dest!: iniSkipMultilineBlanks_src try_words_src read_cells_src iniSkipUntilEol_src; meson same_src_trans)

lemma count_rows_src:
  "count_rows F = (rc, F1) \<Longrightarrow> same_src (fe_source F) (fe_source F1) \<and> fe_cols F1 = fe_cols F \<and> fe_col_qty F1 = fe_col_qty F \<and> rc \<le> 0"
proof (induction F rule: count_rows.induct)
  case (1 F)
  obtain k G where r: "iniGetRowInternal F = (k, G)" by (cases "iniGetRowInternal F")
  note G = row_src [OF r]
  show ?case
  proof (cases "k > 0")
    case True
    then have "count_rows G = (rc, F1)" using 1(2) by (simp add: count_rows.simps [of F] r)
    then show ?thesis using 1(1) [OF r [symmetric] True] G same_src_trans by metis
  next
    case False
    then show ?thesis using 1(2) G by (simp add: count_rows.simps [of F] r)
  qed
qed

text \<open>The client that fetches \<open>n\<close> rows.\<close>

primrec fetch_rows :: "nat \<Rightarrow> int \<Rightarrow> inidb \<Rightarrow> (bool \<times> inival list) list" where
  "fetch_rows 0 req db = []"
| "fetch_rows (Suc n) req db = (case iniGetRow req db of (got, vals, db1) \<Rightarrow> (got, vals) # fetch_rows n req db1)"

definition same_table :: "inifetch \<Rightarrow> inifetch \<Rightarrow> bool" where
  "same_table F G \<longleftrightarrow> fe_cols F = fe_cols G \<and> fe_col_qty F = fe_col_qty G \<and> fe_source F = fe_source G"

text \<open>A row that was counted is there when it is fetched.\<close>

lemma row_again:
  assumes "iniGetRowInternal F = (rc, F1)" and "0 < rc" and "fe_row_qty F = IGNORE"
    and "same_table F G" and "fe_cur_row G \<noteq> fe_row_qty G"
  shows "\<exists>G1. iniGetRowInternal G = (rc, G1) \<and> same_table F1 G1 \<and> fe_row_qty G1 = fe_row_qty G \<and>
      fe_cur_row G1 = fe_cur_row G + 1 \<and> fe_row G1 = fe_row F1"
    and "fe_row_qty F1 = IGNORE" and "fe_cur_row F1 = fe_cur_row F + 1" and "fe_col_qty F1 = fe_col_qty F"
    and "rc = fe_col_qty F" and "fe_cols F1 = fe_cols F"
  using assms unfolding iniGetRowInternal_def same_table_def iniCleanFetch_def
  by (auto simp: Let_def split: if_splits prod.splits option.splits simp del: try_words.simps)

lemma row_end: "iniGetRowInternal F = (0, F1) \<Longrightarrow> 0 < fe_col_qty F \<Longrightarrow> fe_cur_row F1 = fe_cur_row F \<and> fe_row_qty F1 = fe_row_qty F"
  unfolding iniGetRowInternal_def iniCleanFetch_def
  by (auto simp: Let_def split: if_splits prod.splits option.splits simp del: try_words.simps)

definition at_request :: "int \<Rightarrow> inidb \<Rightarrow> inifetch \<Rightarrow> bool" where
  "at_request req db G \<longleftrightarrow> 0 < req \<and> req \<le> int (length (db_fetches db)) \<and> db_fetches db ! nat (req - 1) = G"

lemma fetch_last:
  assumes "at_request req db G" and "fe_col_qty G \<noteq> 0" and "fe_cur_row G = fe_row_qty G"
  shows "map fst (fetch_rows 1 req db) = [False]"
  using assms by (simp add: at_request_def iniGetRow_def Let_def)

lemma fetch_row:
  assumes "at_request req db G" and "fe_col_qty G \<noteq> 0" and "fe_cur_row G < fe_row_qty G"
    and "iniGetRowInternal G = (rc, G1)" and "0 < rc"
  shows "\<exists>db1. iniGetRow req db = (True, fe_row G1, db1) \<and> at_request req db1 G1"
  using assms by (auto simp: at_request_def iniGetRow_def Let_def)

text \<open>A client at the place of \<open>F\<close> can fetch \<open>k\<close> rows, and no more.\<close>

definition rows_left :: "nat \<Rightarrow> inifetch \<Rightarrow> bool" where
  "rows_left k F \<longleftrightarrow>
     (\<forall>req db G. at_request req db G \<and> same_table F G \<and> fe_cur_row G = fe_cur_row F \<and> fe_row_qty G = fe_cur_row F + int k \<longrightarrow>
        map fst (fetch_rows (Suc k) req db) = replicate k True @ [False])"

lemma counted_rows_fetched:
  "count_rows F = (0, Fn) \<Longrightarrow> fe_row_qty F = IGNORE \<Longrightarrow> 0 < fe_col_qty F \<Longrightarrow>
   \<exists>k. fe_cur_row Fn = fe_cur_row F + int k \<and> rows_left k F"
proof (induction F rule: count_rows.induct)
  case (1 F)
  obtain rc F1 where r: "iniGetRowInternal F = (rc, F1)" by (cases "iniGetRowInternal F")
  show ?case
  proof (cases "0 < rc")
    case False
    then have e: "rc = 0" "Fn = F1" using "1.prems"(1) by (simp_all add: count_rows.simps [of F] r)
    then have "fe_cur_row Fn = fe_cur_row F" using row_end r "1.prems"(3) by blast
    moreover have "rows_left 0 F" using fetch_last "1.prems"(3) by (auto simp: rows_left_def same_table_def)
    ultimately show ?thesis by (intro exI [of _ 0]) simp
  next
    case True
    have same: "same_table F F" by (simp add: same_table_def)
    note F1 = row_again(2,3,4) [OF r True "1.prems"(2), of "F\<lparr>fe_row_qty := fe_cur_row F + 1\<rparr>"]
    have F1: "fe_row_qty F1 = IGNORE" "fe_cur_row F1 = fe_cur_row F + 1" "fe_col_qty F1 = fe_col_qty F"
      using F1 by (simp_all add: same_table_def)
    have "count_rows F1 = (0, Fn)" using "1.prems"(1) True by (simp add: count_rows.simps [of F] r)
    then obtain k where k: "fe_cur_row Fn = fe_cur_row F1 + int k" "rows_left k F1"
      using "1.IH" [OF r [symmetric] True] F1 "1.prems"(3) by auto
    have "rows_left (Suc k) F" unfolding rows_left_def
    proof (intro allI impI, elim conjE)
      fix req db G
      assume G: "at_request req db G" "same_table F G" "fe_cur_row G = fe_cur_row F" "fe_row_qty G = fe_cur_row F + int (Suc k)"
      have lt: "fe_cur_row G < fe_row_qty G" using G by simp
      obtain G1 where G1: "iniGetRowInternal G = (rc, G1)" "same_table F1 G1" "fe_row_qty G1 = fe_row_qty G"
        "fe_cur_row G1 = fe_cur_row G + 1"
        using row_again(1) [OF r True "1.prems"(2) G(2)] lt by auto
      obtain db1 where db1: "iniGetRow req db = (True, fe_row G1, db1)" "at_request req db1 G1"
        using fetch_row [OF G(1) _ lt G1(1) True] G(2) "1.prems"(3) by (auto simp: same_table_def)
      have "map fst (fetch_rows (Suc k) req db1) = replicate k True @ [False]"
        using k(2) db1(2) G G1 F1 unfolding rows_left_def by (metis ab_semigroup_add_class.add_ac(1) add.commute of_nat_Suc)
      then show "map fst (fetch_rows (Suc (Suc k)) req db) = replicate (Suc k) True @ [False]" using db1(1) by simp
    qed
    then show ?thesis using k(1) F1 by (intro exI [of _ "Suc k"]) auto
  qed
qed

lemma table_source_text [simp]:
  "is_text (table_source S len) = is_buffer (table_source S len)" "\<not> is_fault (table_source S len)"
  by (simp_all add: table_source_def Let_def split: prod.split)

text \<open>C16. After a table was asked for, exactly as many rows can be fetched as \<open>iniCount\<close> says; the next call
  tells that there are no more.\<close>

theorem table_rows_fetched:
  assumes "iniAskRow table db = (req, db1)" and "0 < req" and "\<not> is_fault (db_source db1)"
  shows "map fst (fetch_rows (Suc (nat (iniCount db1 req))) req db1) = replicate (nat (iniCount db1 req)) True @ [False]"
proof -
  obtain cols S1 where c: "table_columns table (db_source db) = (Some cols, S1)"
    using assms unfolding iniAskRow_def by (auto split: prod.splits option.splits)
  obtain len S2 where l: "iniLocateSection (Some table) (rewind (ini_fault (length table \<ge> 64) S1)) = (len, S2)"
    by (cases "iniLocateSection (Some table) (rewind (ini_fault (length table \<ge> 64) S1))")
  define F where "F = \<lparr>fe_name = table, fe_cols = cols, fe_col_qty = int (length cols), fe_row_qty = IGNORE, fe_cur_row = 0,
                 fe_row = map (\<lambda>_. IvInt 0) cols, fe_source = table_source S2 len\<rparr>"
  obtain rc Fn where r: "count_rows F = (rc, Fn)" by (cases "count_rows F")
  have cols: "cols \<noteq> []" using c by (auto simp: table_columns_def split: prod.splits if_splits)
  define G where "G = Fn\<lparr>fe_row_qty := fe_cur_row Fn, fe_cur_row := 0, fe_source := rewind (fe_source Fn)\<rparr>"
  note k = count_rows_src [OF r]
  have a: "rc = 0" "req = int (length (db_fetches db)) + 1" "db_fetches db1 = db_fetches db @ [G]"
    "is_fault (db_source db1) = (is_fault S2 \<or> is_fault (fe_source Fn))"
  proof -
    have "iniAskRow table db = (if len \<le> 0 then (0, set_source S2 db) else
        let S3 = ini_fault (is_fault (fe_source Fn)) S2 in
        if rc < 0 then (0, set_source S3 db)
        else (int (length (db_fetches db)) + 1, db\<lparr>db_source := S3, db_fetches := db_fetches db @ [G]\<rparr>))"
      by (simp add: iniAskRow_def c l F_def [symmetric] r G_def Let_def)
    then show "rc = 0" "req = int (length (db_fetches db)) + 1" "db_fetches db1 = db_fetches db @ [G]"
      "is_fault (db_source db1) = (is_fault S2 \<or> is_fault (fe_source Fn))"
      using assms(1,2) k by (auto simp: Let_def ini_fault_def split: if_splits)
  qed
  have f: "fe_source F = table_source S2 len" "fe_cols F = cols" "fe_col_qty F = int (length cols)" "fe_row_qty F = IGNORE" "fe_cur_row F = 0"
    by (simp_all add: F_def)
  have "rewind (fe_source Fn) = fe_source F"
    using k a(4) assms(3) by (intro same_src_rewind) (auto simp: f)
  then have same: "same_table F G" using k by (simp add: same_table_def G_def)
  have req: "at_request req db1 G" using a(2,3) by (simp add: at_request_def nth_append)
  obtain n where n: "fe_cur_row Fn = int n" "rows_left n F"
    using counted_rows_fetched [OF r [unfolded a(1)]] f cols by auto
  have "fe_cur_row G = fe_cur_row F" "fe_row_qty G = fe_cur_row F + int n" using n(1) f by (simp_all add: G_def)
  then have n2: "map fst (fetch_rows (Suc n) req db1) = replicate n True @ [False]"
    using n(2) req same unfolding rows_left_def by blast
  have "iniCount db1 req = int n" using a(2,3) n(1) by (simp add: iniCount_def nth_append G_def)
  then show ?thesis using n2 by simp
qed

definition sample_text :: bytes where
  "sample_text = bstr ''[T:describe]'' @ [LF] @ bstr ''v = integer'' @ [LF] @ bstr ''[T]'' @ [LF] @ bstr ''{ 5 }'' @ [LF] @ bstr ''{ 7 }'' @ [LF]"

definition sample_ini :: inidb where
  "sample_ini = \<lparr>db_source = no_source\<lparr>is_buffer := sample_text\<rparr>, db_fetches = []\<rparr>"

lemma sample_asked:
  "fst (iniAskRow (bstr ''T'') sample_ini) = 1"
  "\<not> is_fault (db_source (snd (iniAskRow (bstr ''T'') sample_ini)))"
  "iniCount (snd (iniAskRow (bstr ''T'') sample_ini)) 1 = 2"
  by code_simp+

lemma table_rows_fetched_witness:
  "map fst (fetch_rows 3 1 (snd (iniAskRow (bstr ''T'') sample_ini))) = [True, True, False]"
  using table_rows_fetched [of "bstr ''T''" sample_ini 1 "snd (iniAskRow (bstr ''T'') sample_ini)"] sample_asked
  by (simp add: prod_eq_iff numeral_3_eq_3 numeral_2_eq_2 del: fetch_rows.simps)

section \<open>A line of blanks\<close>

lemma entry_line_skips:
  assumes "\<forall>c \<in> set line. \<not> is_eol c"
  shows "entry_line False (line @ LF # rest) = entry_line False (LF # rest)"
  using assms by (induction line) (simp_all add: entry_line_eqs)

text \<open>C38. The entry on the line after a line of blanks is not found: the search takes the end of the blank line
  for a wrong first character of a line, and with that the next line has no start any more.\<close>

theorem blank_line_hides_entry:
  assumes "is_text S = LF # ws @ LF # line @ LF # rest" and "ws \<noteq> []" and "\<forall>c \<in> set ws. is_blank c"
    and "\<forall>c \<in> set line. \<not> is_eol c"
  shows "iniLocateEntry entry with_name S = iniLocateEntry entry with_name (S\<lparr>is_text := LF # rest\<rparr>)"
proof -
  have "line_start (LF # ws @ LF # line @ LF # rest) = LF # line @ LF # rest"
    using assms(2,3) by (cases ws) (auto simp: line_start_def is_eol_def is_blank_def dropWhile_append1 dropWhile_append2)
  then have "entry_line True (is_text S) = entry_line False (line @ LF # rest)"
    using assms(1) by (simp add: entry_line_eqs name_char_def is_digit_def bstr_def)
  also have "\<dots> = entry_line True (LF # rest)"
    using entry_line_skips [OF assms(4)] by (simp add: entry_line_eqs is_eol_def)
  finally have "locate_entry entry with_name True (is_text S) = locate_entry entry with_name True (LF # rest)"
    by (subst (1 2) locate_entry.simps) simp
  then show ?thesis by (simp add: iniLocateEntry_def goto_text_def ini_fault_def)
qed

lemma blank_line_hides_entry_witness:
  "iniLocateEntry (bstr ''port'') False (no_source\<lparr>is_text := LF # [SPACE] @ LF # bstr ''port = 1'' @ LF # [LF]\<rparr>) =
     iniLocateEntry (bstr ''port'') False (no_source\<lparr>is_text := [LF, LF]\<rparr>)"
  using blank_line_hides_entry [of "no_source\<lparr>is_text := LF # [SPACE] @ LF # bstr ''port = 1'' @ LF # [LF]\<rparr>" "[SPACE]"
      "bstr ''port = 1''" "[LF]" "bstr ''port''" False]
  by (simp add: is_blank_def is_eol_def bstr_def)

end
